(* ===== verification/Prelude.thy ===== *)
theory Prelude
  imports Main "HOL-Library.AList" "HOL-Library.Word" "HOL-Library.Sublist"
begin

text \<open>
  The prelude: what the component theories share.

  \<^item> Go maps. A \<open>map[K]V\<close> is an association list with distinct keys
    (\<open>gomap_ok\<close>); \<open>m[k]\<close>, \<open>m[k] = v\<close> and \<open>delete(m, k)\<close> are
    \<open>map_of\<close>, \<open>AList.update\<close> and \<open>AList.delete\<close>. The order of the list stands
    for the order a \<open>range\<close> loop visits the entries in, which Go leaves open: a theorem that
    holds for every list holds for every order.
  \<^item> Go sets. A \<open>map[K]struct{}\<close> or \<open>map[K]bool\<close> used as a set is a distinct
    list of its elements.
  \<^item> Package \<open>strings\<close>: split, join, prefixes, substrings.
  \<^item> Errors: a Go \<open>error\<close> is a value of \<open>gerror\<close>, a call that may fail returns
    \<open>gerror + 'a\<close>.
  \<^item> The collections \<open>map_simps\<close> and \<open>set_simps\<close> that the component proofs use.
\<close>

named_theorems map_simps \<open>laws of the Go map operations\<close>
named_theorems set_simps \<open>laws of the Go set operations\<close>
named_theorems guard_defs \<open>definitions of early-return guards\<close>

section \<open>Go maps\<close>

type_synonym ('k, 'v) gomap = "('k \<times> 'v) list"

abbreviation mput :: "'k \<Rightarrow> 'v \<Rightarrow> ('k, 'v) gomap \<Rightarrow> ('k, 'v) gomap" where
  "mput \<equiv> AList.update"

abbreviation mdel :: "'k \<Rightarrow> ('k, 'v) gomap \<Rightarrow> ('k, 'v) gomap" where
  "mdel \<equiv> AList.delete"

abbreviation mkeys :: "('k, 'v) gomap \<Rightarrow> 'k list" where
  "mkeys m \<equiv> map fst m"

abbreviation mvals :: "('k, 'v) gomap \<Rightarrow> 'v list" where
  "mvals m \<equiv> map snd m"

definition gomap_ok :: "('k, 'v) gomap \<Rightarrow> bool" where
  "gomap_ok m \<longleftrightarrow> distinct (map fst m)"

lemma gomap_ok_Nil [simp]: "gomap_ok []"
  by (simp add: gomap_ok_def)

lemma gomap_ok_put [simp]: "gomap_ok m \<Longrightarrow> gomap_ok (mput k v m)"
  by (simp add: gomap_ok_def distinct_update)

lemma gomap_ok_del [simp]: "gomap_ok m \<Longrightarrow> gomap_ok (mdel k m)"
  by (simp add: gomap_ok_def distinct_delete)

lemma map_of_put [simp, map_simps]: "map_of (mput k v m) = (map_of m)(k \<mapsto> v)"
  by (simp add: update_conv')

lemma map_of_del [simp, map_simps]: "map_of (mdel k m) = (map_of m)(k := None)"
  by (simp add: delete_conv')

lemma set_put: "gomap_ok m \<Longrightarrow> set (mput k v m) = insert (k, v) {e \<in> set m. fst e \<noteq> k}"
proof (induction m)
  case (Cons a m)
  obtain k' v' where a: "a = (k', v')" by (cases a)
  show ?case
  proof (cases "k' = k")
    case True
    with Cons.prems a have "\<forall>e \<in> set m. fst e \<noteq> k"
      by (auto simp: gomap_ok_def)
    with True a show ?thesis by auto
  next
    case False
    with Cons a show ?thesis by (auto simp: gomap_ok_def)
  qed
qed simp

lemma set_del: "set (mdel k m) = {e \<in> set m. fst e \<noteq> k}"
  by (induction m) auto

lemma gomap_in_set: "gomap_ok m \<Longrightarrow> ((k, v) \<in> set m) = (map_of m k = Some v)"
  by (simp add: gomap_ok_def)

lemma put_put: "mput k v (mput k w m) = mput k v m"
  by (induction m) auto

lemma mkeys_dom: "set (mkeys m) = dom (map_of m)"
  by (simp add: dom_map_of_conv_image_fst)

lemma length_put_new: "map_of m k = None \<Longrightarrow> length (mput k v m) = Suc (length m)"
  by (induction m) (auto split: if_splits)

lemma length_put_old: "map_of m k \<noteq> None \<Longrightarrow> length (mput k v m) = length m"
  by (induction m) (auto split: if_splits)

lemma gomap_ok_filter: "gomap_ok m \<Longrightarrow> gomap_ok (filter P m)"
  by (simp add: gomap_ok_def distinct_map_filter)

lemma map_of_filter_key:
  "map_of (filter (\<lambda>e. P (fst e)) m) k = (if P k then map_of m k else None)"
  by (induction m) auto

text \<open>
  The interface of a keyed table: what the managers rely on when they look an entry up, store
  one or delete one. It is stated over any representation \<open>'m\<close>, and the Go maps above are the
  instance the whole program uses.
\<close>

locale go_table =
  fixes lookup :: "'m \<Rightarrow> 'k \<Rightarrow> 'v option"
    and put :: "'k \<Rightarrow> 'v \<Rightarrow> 'm \<Rightarrow> 'm"
    and del :: "'k \<Rightarrow> 'm \<Rightarrow> 'm"
  assumes lookup_put: "lookup (put k v m) = (lookup m)(k := Some v)"
    and lookup_del: "lookup (del k m) = (lookup m)(k := None)"
begin

lemma put_same: "lookup (put k v m) k = Some v"
  by (simp add: lookup_put)

lemma put_other: "k' \<noteq> k \<Longrightarrow> lookup (put k v m) k' = lookup m k'"
  by (simp add: lookup_put)

lemma del_same: "lookup (del k m) k = None"
  by (simp add: lookup_del)

lemma del_other: "k' \<noteq> k \<Longrightarrow> lookup (del k m) k' = lookup m k'"
  by (simp add: lookup_del)

lemma del_put: "lookup (del k (put k v m)) = lookup (del k m)"
  by (simp add: lookup_put lookup_del)

lemma dom_put: "dom (lookup (put k v m)) = insert k (dom (lookup m))"
  by (simp add: lookup_put)

lemma dom_del: "dom (lookup (del k m)) = dom (lookup m) - {k}"
  by (auto simp: lookup_del dom_def)

end

text \<open>
  A registry: a table whose \<open>get\<close> makes the entry when it is missing, as \<open>StateManager.Get\<close> and
  \<open>StatsManager.Get\<close> do. The request \<open>'q\<close> is what the caller names the entry by, \<open>key\<close>
  the string it is stored under.
\<close>

locale registry = go_table lookup put del
  for lookup :: "'m \<Rightarrow> 'k \<Rightarrow> 'v option"
    and put :: "'k \<Rightarrow> 'v \<Rightarrow> 'm \<Rightarrow> 'm"
    and del :: "'k \<Rightarrow> 'm \<Rightarrow> 'm" +
  fixes key :: "'q \<Rightarrow> 'k"
    and fresh :: "'q \<Rightarrow> 'v"
    and get :: "'m \<Rightarrow> 'q \<Rightarrow> 'v \<times> 'm"
    and remove :: "'m \<Rightarrow> 'q \<Rightarrow> 'm"
  assumes get_hit: "lookup m (key q) = Some v \<Longrightarrow> get m q = (v, m)"
    and get_miss: "lookup m (key q) = None \<Longrightarrow> get m q = (fresh q, put (key q) (fresh q) m)"
    and remove_del: "remove m q = del (key q) m"
begin

lemma get_stored: "lookup (snd (get m q)) (key q) = Some (fst (get m q))"
  by (cases "lookup m (key q)") (simp_all add: get_hit get_miss lookup_put)

lemma get_frame: "k \<noteq> key q \<Longrightarrow> lookup (snd (get m q)) k = lookup m k"
  by (cases "lookup m (key q)") (simp_all add: get_hit get_miss lookup_put)

lemma get_twice: "get (snd (get m q)) q = (fst (get m q), snd (get m q))"
  by (simp add: get_hit get_stored)

lemma get_dom: "dom (lookup (snd (get m q))) = insert (key q) (dom (lookup m))"
  by (cases "lookup m (key q)") (auto simp: get_hit get_miss lookup_put)

lemma get_after_remove: "fst (get (remove m q) q) = fresh q"
  by (simp add: remove_del get_miss lookup_del)

lemma remove_dom: "dom (lookup (remove m q)) = dom (lookup m) - {key q}"
  by (auto simp: remove_del lookup_del dom_def)

end

interpretation gomap: go_table map_of mput mdel
  by unfold_locales simp_all

section \<open>Go sets\<close>

abbreviation sadd :: "'a \<Rightarrow> 'a list \<Rightarrow> 'a list" where
  "sadd x xs \<equiv> (if x \<in> set xs then xs else xs @ [x])"

abbreviation sdel :: "'a \<Rightarrow> 'a list \<Rightarrow> 'a list" where
  "sdel x xs \<equiv> removeAll x xs"

lemma set_sadd [simp, set_simps]: "set (sadd x xs) = insert x (set xs)"
  by auto

lemma distinct_sadd [simp, set_simps]: "distinct xs \<Longrightarrow> distinct (sadd x xs)"
  by simp

lemma distinct_sdel [simp, set_simps]: "distinct xs \<Longrightarrow> distinct (sdel x xs)"
  by (simp add: distinct_removeAll)

section \<open>Counters\<close>

text \<open>\<open>counts[x]++\<close> over the elements of a loop: a missing key reads as the zero value.\<close>

definition bump :: "'a \<Rightarrow> ('a, nat) gomap \<Rightarrow> ('a, nat) gomap" where
  "bump x counts = mput x (case map_of counts x of None \<Rightarrow> 1 | Some n \<Rightarrow> n + 1) counts"

definition count_by :: "('a \<Rightarrow> 'b) \<Rightarrow> 'a list \<Rightarrow> ('b, nat) gomap" where
  "count_by f xs = foldl (\<lambda>counts x. bump (f x) counts) [] xs"

definition count_of :: "('a, nat) gomap \<Rightarrow> 'a \<Rightarrow> nat" where
  "count_of counts x = (case map_of counts x of None \<Rightarrow> 0 | Some n \<Rightarrow> n)"

lemma count_of_bump: "count_of (bump x m) y = count_of m y + (if y = x then 1 else 0)"
  by (auto simp: count_of_def bump_def split: option.splits)

lemma count_of_foldl:
  "count_of (foldl (\<lambda>counts x. bump (f x) counts) m xs) y =
   count_of m y + length (filter (\<lambda>x. f x = y) xs)"
  by (induction xs arbitrary: m) (auto simp: count_of_bump)

lemma count_of_count_by: "count_of (count_by f xs) y = length (filter (\<lambda>x. f x = y) xs)"
  by (simp add: count_by_def count_of_foldl) (simp add: count_of_def)

text \<open>Length of the run of elements satisfying \<open>P\<close> at the end of a history.\<close>

definition trailing :: "('a \<Rightarrow> bool) \<Rightarrow> 'a list \<Rightarrow> nat" where
  "trailing P xs = length (takeWhile P (rev xs))"

lemma trailing_Nil [simp]: "trailing P [] = 0"
  by (simp add: trailing_def)

lemma trailing_snoc [simp]: "trailing P (xs @ [x]) = (if P x then Suc (trailing P xs) else 0)"
  by (simp add: trailing_def)

section \<open>Errors\<close>

text \<open>
  \<open>Errorf s\<close> is an error made with \<open>fmt.Errorf\<close> or \<open>errors.New\<close>, by its message;
  \<open>ErrConcurrentModification\<close> is the sentinel of store/errors.go that callers compare with
  \<open>==\<close>.
\<close>

datatype gerror = Errorf string | ErrConcurrentModification

type_synonym 'a go = "gerror + 'a"

definition error_msg :: "gerror \<Rightarrow> string" where
  "error_msg e = (case e of Errorf s \<Rightarrow> s
     | ErrConcurrentModification \<Rightarrow> ''concurrent modification detected (version mismatch)'')"

text \<open>Decimal rendering of a count, the \<open>%d\<close> of the messages.\<close>

fun show_nat :: "nat \<Rightarrow> string" where
  "show_nat n = (if n < 10 then [char_of (48 + n)]
                 else show_nat (n div 10) @ [char_of (48 + n mod 10)])"

declare show_nat.simps [simp del]

section \<open>Package strings\<close>

text \<open>\<open>strings.Split(s, sep)\<close> for a one-character separator: always at least one part.\<close>

fun split_on :: "char \<Rightarrow> string \<Rightarrow> string list" where
  "split_on c [] = [[]]"
| "split_on c (x # xs) =
     (if x = c then [] # split_on c xs
      else case split_on c xs of [] \<Rightarrow> [[x]] | p # ps \<Rightarrow> (x # p) # ps)"

text \<open>\<open>strings.Join(parts, sep)\<close>.\<close>

fun join_with :: "char \<Rightarrow> string list \<Rightarrow> string" where
  "join_with c [] = []"
| "join_with c [p] = p"
| "join_with c (p # q # ps) = p @ c # join_with c (q # ps)"

text \<open>\<open>strings.SplitN(s, sep, n)\<close> for \<open>n > 0\<close>: at most \<open>n\<close> parts, the last one the rest.\<close>

fun split_n :: "char \<Rightarrow> nat \<Rightarrow> string \<Rightarrow> string list" where
  "split_n c 0 s = []"
| "split_n c (Suc 0) s = [s]"
| "split_n c (Suc (Suc n)) s =
     (if c \<in> set s
      then takeWhile (\<lambda>x. x \<noteq> c) s # split_n c (Suc n) (tl (dropWhile (\<lambda>x. x \<noteq> c) s))
      else [s])"

definition has_prefix :: "string \<Rightarrow> string \<Rightarrow> bool" where
  "has_prefix s p \<longleftrightarrow> take (length p) s = p"

definition has_suffix :: "string \<Rightarrow> string \<Rightarrow> bool" where
  "has_suffix s p \<longleftrightarrow> length p \<le> length s \<and> drop (length s - length p) s = p"

definition trim_prefix :: "string \<Rightarrow> string \<Rightarrow> string" where
  "trim_prefix s p = (if has_prefix s p then drop (length p) s else s)"

lemma has_prefix_iff: "has_prefix s p \<longleftrightarrow> (\<exists>r. s = p @ r)"
proof
  assume "has_prefix s p"
  then have "s = p @ drop (length p) s"
    unfolding has_prefix_def by (metis append_take_drop_id)
  then show "\<exists>r. s = p @ r" by blast
qed (auto simp: has_prefix_def)

lemma has_prefix_append [simp]: "has_prefix (p @ r) p"
  by (simp add: has_prefix_def)

lemma trim_prefix_append [simp]: "trim_prefix (p @ r) p = r"
  by (simp add: trim_prefix_def)

lemma split_on_not_Nil [simp]: "split_on c s \<noteq> []"
  by (cases s) (auto split: list.splits)

lemma join_split [simp]: "join_with c (split_on c s) = s"
proof (induction s)
  case (Cons x xs)
  obtain p ps where p: "split_on c xs = p # ps"
    by (meson neq_Nil_conv split_on_not_Nil)
  with Cons show ?case by (cases ps) auto
qed simp

lemma split_on_free [simp]: "c \<notin> set s \<Longrightarrow> split_on c s = [s]"
  by (induction s) auto

lemma split_on_append: "c \<notin> set p \<Longrightarrow> split_on c (p @ c # s) = p # split_on c s"
  by (induction p) (auto split: list.splits)

lemma split_join: "ps \<noteq> [] \<Longrightarrow> \<forall>p \<in> set ps. c \<notin> set p \<Longrightarrow> split_on c (join_with c ps) = ps"
  by (induction c ps rule: join_with.induct) (auto simp: split_on_append)

lemma split_on_parts: "p \<in> set (split_on c s) \<Longrightarrow> c \<notin> set p"
proof (induction s arbitrary: p)
  case (Cons x xs)
  then show ?case
    by (cases "split_on c xs") (auto split: if_splits)
qed simp

lemma split_n_append:
  assumes "c \<notin> set p"
  shows "split_n c (Suc (Suc n)) (p @ c # s) = p # split_n c (Suc n) s"
proof -
  have t: "takeWhile (\<lambda>x. x \<noteq> c) (p @ c # s) = p"
    using assms by (subst takeWhile_append2) auto
  have d: "dropWhile (\<lambda>x. x \<noteq> c) (p @ c # s) = c # s"
    using assms by (subst dropWhile_append2) auto
  from t d show ?thesis by (simp del: takeWhile_append dropWhile_append)
qed

lemma append_sep_inject:
  assumes "c \<notin> set a" "c \<notin> set b" "a @ c # x = b @ c # y"
  shows "a = b \<and> x = y"
proof -
  have "takeWhile (\<lambda>z. z \<noteq> c) (a @ c # x) = a" "takeWhile (\<lambda>z. z \<noteq> c) (b @ c # y) = b"
    using assms(1,2) by (subst takeWhile_append2, auto)+
  with assms(3) have "a = b" by metis
  with assms(3) show ?thesis by simp
qed

end
