(* ===== verification/PollerState.thy ===== *)
theory PollerState
  imports Prelude
begin

text \<open>
  The poller state machine of internal/manager/state.go: the record \<open>PollerState\<close>, its admin,
  oper and health transitions, and the \<open>StateManager\<close> that owns one per poller.

  States are strings in the code, with named constants; a state read back from the database can
  be any string, so the \<open>default\<close> branches are kept. The mutex makes each method one atomic
  step. \<open>time.Now()\<close> is the argument \<open>now\<close>, in milliseconds.
\<close>

section \<open>Constants\<close>

abbreviation "AdminStateEnabled \<equiv> ''enabled''"
abbreviation "AdminStateDisabled \<equiv> ''disabled''"

abbreviation "OperStateStopped \<equiv> ''stopped''"
abbreviation "OperStateStarting \<equiv> ''starting''"
abbreviation "OperStateRunning \<equiv> ''running''"
abbreviation "OperStateStopping \<equiv> ''stopping''"
abbreviation "OperStateError \<equiv> ''error''"

abbreviation "HealthStateUnknown \<equiv> ''unknown''"
abbreviation "HealthStateUp \<equiv> ''up''"
abbreviation "HealthStateDegraded \<equiv> ''degraded''"
abbreviation "HealthStateDown \<equiv> ''down''"

abbreviation "HealthDegradedThreshold \<equiv> (3::nat)"
abbreviation "HealthDownThreshold \<equiv> (5::nat)"
abbreviation "HealthRecoveryCount \<equiv> (2::nat)"

section \<open>The state of one poller\<close>

record PollerState =
  ps_Namespace :: string
  ps_Target :: string
  ps_Poller :: string
  ps_AdminState :: string
  ps_OperState :: string
  ps_HealthState :: string
  ps_LastError :: string
  ps_ConsecutiveFailures :: nat
  ps_RecentSuccesses :: nat
  ps_LastPollAt :: "int option"
  ps_LastSuccessAt :: "int option"
  ps_LastFailureAt :: "int option"
  ps_dirty :: bool

definition NewPollerState :: "string \<Rightarrow> string \<Rightarrow> string \<Rightarrow> PollerState" where
  "NewPollerState namespace target poller =
     \<lparr>ps_Namespace = namespace, ps_Target = target, ps_Poller = poller,
      ps_AdminState = AdminStateDisabled, ps_OperState = OperStateStopped,
      ps_HealthState = HealthStateUnknown, ps_LastError = [],
      ps_ConsecutiveFailures = 0, ps_RecentSuccesses = 0,
      ps_LastPollAt = None, ps_LastSuccessAt = None, ps_LastFailureAt = None,
      ps_dirty = False\<rparr>"

definition ps_Key :: "PollerState \<Rightarrow> string" where
  "ps_Key s = ps_Namespace s @ ''/'' @ ps_Target s @ ''/'' @ ps_Poller s"

section \<open>Admin state\<close>

definition ps_Enable :: "PollerState \<Rightarrow> PollerState go" where
  "ps_Enable s = Inr (s\<lparr>ps_AdminState := AdminStateEnabled, ps_dirty := True\<rparr>)"

definition ps_Disable :: "PollerState \<Rightarrow> PollerState go" where
  "ps_Disable s = Inr (s\<lparr>ps_AdminState := AdminStateDisabled, ps_dirty := True\<rparr>)"

definition ps_IsEnabled :: "PollerState \<Rightarrow> bool" where
  "ps_IsEnabled s \<longleftrightarrow> ps_AdminState s = AdminStateEnabled"

section \<open>Oper state\<close>

definition ps_Start :: "PollerState \<Rightarrow> PollerState go" where
  "ps_Start s =
     (if ps_AdminState s \<noteq> AdminStateEnabled
      then Inl (Errorf (''cannot start: admin state is '' @ ps_AdminState s))
      else if ps_OperState s = OperStateStopped \<or> ps_OperState s = OperStateError
      then Inr (s\<lparr>ps_OperState := OperStateStarting, ps_dirty := True\<rparr>)
      else if ps_OperState s = OperStateStarting \<or> ps_OperState s = OperStateRunning
      then Inr s
      else if ps_OperState s = OperStateStopping
      then Inl (Errorf ''cannot start: currently stopping'')
      else Inl (Errorf (''invalid oper state: '' @ ps_OperState s)))"

definition ps_MarkRunning :: "PollerState \<Rightarrow> PollerState" where
  "ps_MarkRunning s =
     (if ps_OperState s = OperStateStarting
      then s\<lparr>ps_OperState := OperStateRunning, ps_dirty := True\<rparr> else s)"

definition ps_Stop :: "PollerState \<Rightarrow> PollerState go" where
  "ps_Stop s =
     (if ps_OperState s = OperStateRunning \<or> ps_OperState s = OperStateStarting
      then Inr (s\<lparr>ps_OperState := OperStateStopping, ps_dirty := True\<rparr>)
      else if ps_OperState s = OperStateStopped \<or> ps_OperState s = OperStateStopping
      then Inr s
      else if ps_OperState s = OperStateError
      then Inr (s\<lparr>ps_OperState := OperStateStopped, ps_dirty := True\<rparr>)
      else Inl (Errorf (''invalid oper state: '' @ ps_OperState s)))"

definition ps_MarkStopped :: "PollerState \<Rightarrow> PollerState" where
  "ps_MarkStopped s = s\<lparr>ps_OperState := OperStateStopped, ps_dirty := True\<rparr>"

definition ps_MarkError :: "gerror \<Rightarrow> PollerState \<Rightarrow> PollerState" where
  "ps_MarkError err s =
     s\<lparr>ps_OperState := OperStateError, ps_LastError := error_msg err, ps_dirty := True\<rparr>"

definition ps_IsRunning :: "PollerState \<Rightarrow> bool" where
  "ps_IsRunning s \<longleftrightarrow> ps_OperState s = OperStateRunning"

definition ps_CanRun :: "PollerState \<Rightarrow> bool" where
  "ps_CanRun s \<longleftrightarrow> ps_AdminState s = AdminStateEnabled \<and>
     (ps_OperState s = OperStateStopped \<or> ps_OperState s = OperStateError)"

section \<open>Health state\<close>

definition ps_RecordPollResult ::
    "bool \<Rightarrow> string \<Rightarrow> int \<Rightarrow> int \<Rightarrow> PollerState \<Rightarrow> PollerState" where
  "ps_RecordPollResult success pollErr pollMs now s0 =
     (let s = s0\<lparr>ps_LastPollAt := Some now\<rparr> in
      if success then
        (let s1 = s\<lparr>ps_ConsecutiveFailures := 0,
                    ps_RecentSuccesses := ps_RecentSuccesses s + 1,
                    ps_LastSuccessAt := Some now,
                    ps_LastError := []\<rparr>;
             h = (if ps_HealthState s1 = HealthStateDown
                  then (if ps_RecentSuccesses s1 \<ge> HealthRecoveryCount
                        then HealthStateUp else ps_HealthState s1)
                  else if ps_HealthState s1 = HealthStateDegraded then HealthStateUp
                  else HealthStateUp)
         in s1\<lparr>ps_HealthState := h, ps_dirty := True\<rparr>)
      else
        (let s1 = s\<lparr>ps_ConsecutiveFailures := ps_ConsecutiveFailures s + 1,
                    ps_RecentSuccesses := 0,
                    ps_LastFailureAt := Some now,
                    ps_LastError := pollErr\<rparr>;
             h = (if ps_ConsecutiveFailures s1 \<ge> HealthDownThreshold then HealthStateDown
                  else if ps_ConsecutiveFailures s1 \<ge> HealthDegradedThreshold
                  then HealthStateDegraded
                  else ps_HealthState s1)
         in s1\<lparr>ps_HealthState := h, ps_dirty := True\<rparr>))"

definition ps_GetState :: "PollerState \<Rightarrow> string \<times> string \<times> string" where
  "ps_GetState s = (ps_AdminState s, ps_OperState s, ps_HealthState s)"

definition ps_GetLastError :: "PollerState \<Rightarrow> string" where
  "ps_GetLastError s = ps_LastError s"

definition ps_IsDirty :: "PollerState \<Rightarrow> bool" where
  "ps_IsDirty s = ps_dirty s"

definition ps_ClearDirty :: "PollerState \<Rightarrow> PollerState" where
  "ps_ClearDirty s = s\<lparr>ps_dirty := False\<rparr>"

lemma record_frame [simp]:
  "ps_OperState (ps_RecordPollResult ok err ms now s) = ps_OperState s"
  "ps_AdminState (ps_RecordPollResult ok err ms now s) = ps_AdminState s"
  "ps_Namespace (ps_RecordPollResult ok err ms now s) = ps_Namespace s"
  "ps_Target (ps_RecordPollResult ok err ms now s) = ps_Target s"
  "ps_Poller (ps_RecordPollResult ok err ms now s) = ps_Poller s"
  "ps_dirty (ps_RecordPollResult ok err ms now s)"
  by (simp_all add: ps_RecordPollResult_def Let_def)

lemma record_failures [simp]:
  "ps_ConsecutiveFailures (ps_RecordPollResult ok err ms now s) =
     (if ok then 0 else ps_ConsecutiveFailures s + 1)"
  "ps_RecentSuccesses (ps_RecordPollResult ok err ms now s) =
     (if ok then ps_RecentSuccesses s + 1 else 0)"
  by (simp_all add: ps_RecordPollResult_def Let_def)

lemmas ps_defs = ps_Enable_def ps_Disable_def ps_Start_def ps_MarkRunning_def ps_Stop_def
  ps_MarkStopped_def ps_MarkError_def ps_ClearDirty_def NewPollerState_def

section \<open>The state manager\<close>

text \<open>
  \<open>StateManager.states\<close> is keyed by \<open>namespace/target/poller\<close>. The double-checked locking of
  \<open>Get\<close> is one atomic step: both branches that find the key return the same entry.
\<close>

type_synonym poller_id = "string \<times> string \<times> string"

definition state_key :: "poller_id \<Rightarrow> string" where
  "state_key q = (case q of (namespace, target, poller) \<Rightarrow>
     namespace @ ''/'' @ target @ ''/'' @ poller)"

type_synonym StateManager = "(string, PollerState) gomap"

definition StateManager_Get :: "StateManager \<Rightarrow> poller_id \<Rightarrow> PollerState \<times> StateManager" where
  "StateManager_Get m q =
     (case map_of m (state_key q) of
        Some state \<Rightarrow> (state, m)
      | None \<Rightarrow>
          (let state = (case q of (namespace, target, poller) \<Rightarrow>
                          NewPollerState namespace target poller)
           in (state, mput (state_key q) state m)))"

definition StateManager_Remove :: "StateManager \<Rightarrow> poller_id \<Rightarrow> StateManager" where
  "StateManager_Remove m q = mdel (state_key q) m"

definition StateManager_GetDirty :: "StateManager \<Rightarrow> PollerState list" where
  "StateManager_GetDirty m = filter ps_IsDirty (mvals m)"

definition StateManager_GetAll :: "StateManager \<Rightarrow> PollerState list" where
  "StateManager_GetAll m = mvals m"

definition StateManager_Count :: "StateManager \<Rightarrow> nat" where
  "StateManager_Count m = length m"

definition CountByOperState :: "StateManager \<Rightarrow> (string, nat) gomap" where
  "CountByOperState m = count_by ps_OperState (mvals m)"

definition CountByHealthState :: "StateManager \<Rightarrow> (string, nat) gomap" where
  "CountByHealthState m = count_by ps_HealthState (mvals m)"

text \<open>
  A method called on the pointer \<open>Get\<close> returned changes the entry in place: get or create the
  entry, run the method on it, and store the result under the same key.
\<close>

definition with_state :: "poller_id \<Rightarrow> (PollerState \<Rightarrow> PollerState) \<Rightarrow> StateManager \<Rightarrow> StateManager" where
  "with_state q f m = (case StateManager_Get m q of (s, m') \<Rightarrow> mput (state_key q) (f s) m')"

interpretation states: registry map_of mput mdel state_key
  "\<lambda>(namespace, target, poller). NewPollerState namespace target poller"
  StateManager_Get StateManager_Remove
  by unfold_locales
     (auto simp: StateManager_Get_def StateManager_Remove_def Let_def split: prod.splits)

lemma with_state_same:
  "map_of (with_state q f m) (state_key q) = Some (f (fst (StateManager_Get m q)))"
  by (simp add: with_state_def split: prod.splits)

lemma with_state_other:
  "k \<noteq> state_key q \<Longrightarrow> map_of (with_state q f m) k = map_of m k"
  using states.get_frame [of k q m] by (cases "StateManager_Get m q") (simp add: with_state_def)

section \<open>Steps and reachable states\<close>

inductive ps_step :: "PollerState \<Rightarrow> PollerState \<Rightarrow> bool" where
  enable: "ps_Enable s = Inr t \<Longrightarrow> ps_step s t"
| disable: "ps_Disable s = Inr t \<Longrightarrow> ps_step s t"
| start: "ps_Start s = Inr t \<Longrightarrow> ps_step s t"
| mark_running: "ps_step s (ps_MarkRunning s)"
| stop: "ps_Stop s = Inr t \<Longrightarrow> ps_step s t"
| mark_stopped: "ps_step s (ps_MarkStopped s)"
| mark_error: "ps_step s (ps_MarkError e s)"
| record_result: "ps_step s (ps_RecordPollResult ok err ms now s)"
| clear_dirty: "ps_step s (ps_ClearDirty s)"

inductive ps_reachable :: "PollerState \<Rightarrow> bool" where
  new: "ps_reachable (NewPollerState namespace target poller)"
| step: "ps_reachable s \<Longrightarrow> ps_step s t \<Longrightarrow> ps_reachable t"

inductive_cases ps_stepE: "ps_step s t"

text \<open>
  What holds between the fields: the states are the named ones, five or more failures in a row
  mean down, three or four mean degraded and nothing else does, and the two run counters are
  never both positive.
\<close>

definition admin_ok :: "string \<Rightarrow> bool" where
  "admin_ok a \<longleftrightarrow> a = AdminStateEnabled \<or> a = AdminStateDisabled"

definition oper_ok :: "string \<Rightarrow> bool" where
  "oper_ok x \<longleftrightarrow> x \<in> {OperStateStopped, OperStateStarting, OperStateRunning,
                      OperStateStopping, OperStateError}"

definition health_ok :: "nat \<Rightarrow> nat \<Rightarrow> string \<Rightarrow> bool" where
  "health_ok fails succs h \<longleftrightarrow>
     h \<in> {HealthStateUnknown, HealthStateUp, HealthStateDegraded, HealthStateDown} \<and>
     (fails \<ge> HealthDownThreshold \<longrightarrow> h = HealthStateDown) \<and>
     (h = HealthStateDegraded \<longleftrightarrow> HealthDegradedThreshold \<le> fails \<and> fails < HealthDownThreshold) \<and>
     (succs = 0 \<or> fails = 0) \<and>
     (succs \<ge> HealthRecoveryCount \<longrightarrow> h = HealthStateUp)"

definition ps_inv :: "PollerState \<Rightarrow> bool" where
  "ps_inv s \<longleftrightarrow> admin_ok (ps_AdminState s) \<and> oper_ok (ps_OperState s) \<and>
     health_ok (ps_ConsecutiveFailures s) (ps_RecentSuccesses s) (ps_HealthState s)"

lemma oper_ok_simps [simp]: "oper_ok OperStateStopped" "oper_ok OperStateStarting"
  "oper_ok OperStateRunning" "oper_ok OperStateStopping" "oper_ok OperStateError"
  by (simp_all add: oper_ok_def)

lemma admin_ok_simps [simp]: "admin_ok AdminStateEnabled" "admin_ok AdminStateDisabled"
  by (simp_all add: admin_ok_def)

lemma ps_inv_new: "ps_inv (NewPollerState namespace target poller)"
  by (simp add: ps_inv_def NewPollerState_def health_ok_def)

lemma ps_inv_success: "ps_inv s \<Longrightarrow> ps_inv (ps_RecordPollResult True err ms now s)"
  by (simp add: ps_inv_def ps_RecordPollResult_def Let_def health_ok_def)

lemma ps_inv_failure: "ps_inv s \<Longrightarrow> ps_inv (ps_RecordPollResult False err ms now s)"
  by (simp add: ps_inv_def ps_RecordPollResult_def Let_def health_ok_def) auto

lemma ps_inv_record: "ps_inv s \<Longrightarrow> ps_inv (ps_RecordPollResult ok err ms now s)"
  by (cases ok) (simp_all add: ps_inv_success ps_inv_failure)

lemma ps_step_inv: "ps_step s t \<Longrightarrow> ps_inv s \<Longrightarrow> ps_inv t"
proof (induction rule: ps_step.induct)
  case (record_result s ok err ms now)
  then show ?case by (rule ps_inv_record)
next
  case (start s t)
  then show ?case by (auto simp: ps_inv_def ps_Start_def split: if_splits)
next
  case (stop s t)
  then show ?case by (auto simp: ps_inv_def ps_Stop_def split: if_splits)
next
  case (enable s t)
  then show ?case by (auto simp: ps_inv_def ps_Enable_def)
next
  case (disable s t)
  then show ?case by (auto simp: ps_inv_def ps_Disable_def)
qed (simp_all add: ps_inv_def ps_MarkRunning_def ps_MarkStopped_def ps_MarkError_def ps_ClearDirty_def)

lemma ps_reachable_inv: "ps_reachable s \<Longrightarrow> ps_inv s"
  by (induction rule: ps_reachable.induct) (auto intro: ps_step_inv ps_inv_new)



section \<open>The oper state machine\<close>

text \<open>The edges the methods may take, read off the switch statements.\<close>

definition oper_edges :: "(string \<times> string) set" where
  "oper_edges = {(OperStateStopped, OperStateStarting), (OperStateError, OperStateStarting),
     (OperStateStarting, OperStateRunning),
     (OperStateRunning, OperStateStopping), (OperStateStarting, OperStateStopping),
     (OperStateError, OperStateStopped)}"

lemma oper_step_cases:
  assumes "ps_step s t"
  shows "ps_OperState t = ps_OperState s \<or> (ps_OperState s, ps_OperState t) \<in> oper_edges \<or>
    ps_OperState t = OperStateStopped \<or> ps_OperState t = OperStateError"
  using assms
proof (cases rule: ps_step.cases)
  case start
  then show ?thesis by (auto simp: ps_Start_def oper_edges_def split: if_splits)
next
  case stop
  then show ?thesis by (auto simp: ps_Stop_def oper_edges_def split: if_splits)
next
  case mark_running
  then show ?thesis by (auto simp: ps_MarkRunning_def oper_edges_def)
next
  case (record_result ok err ms now)
  then show ?thesis by simp
qed (auto simp: ps_Enable_def ps_Disable_def ps_MarkStopped_def ps_MarkError_def ps_ClearDirty_def)

text \<open>A poller starts running only out of \<open>starting\<close>, and enters \<open>starting\<close> only when it is
  administratively enabled and stopped or in error.\<close>

theorem running_only_when_started:
  assumes "ps_step s t" "ps_OperState t \<noteq> ps_OperState s"
  shows "(ps_OperState t = OperStateRunning \<longrightarrow> ps_OperState s = OperStateStarting) \<and>
    (ps_OperState t = OperStateStarting \<longrightarrow> ps_CanRun s)"
  using assms
proof (cases rule: ps_step.cases)
  case start
  with assms(2) show ?thesis by (auto simp: ps_Start_def ps_CanRun_def split: if_splits)
next
  case stop
  with assms(2) show ?thesis by (auto simp: ps_Stop_def split: if_splits)
next
  case mark_running
  with assms(2) show ?thesis by (auto simp: ps_MarkRunning_def split: if_splits)
next
  case (record_result ok err ms now)
  with assms(2) show ?thesis by simp
qed (use assms(2) in \<open>auto simp: ps_Enable_def ps_Disable_def ps_MarkStopped_def ps_MarkError_def
  ps_ClearDirty_def\<close>)

lemma running_only_when_started_witness:
  "ps_CanRun ((NewPollerState ''n'' ''t'' ''p'')\<lparr>ps_AdminState := AdminStateEnabled\<rparr>)"
proof -
  let ?s = "(NewPollerState ''n'' ''t'' ''p'')\<lparr>ps_AdminState := AdminStateEnabled\<rparr>"
  let ?t = "?s\<lparr>ps_OperState := OperStateStarting, ps_dirty := True\<rparr>"
  have st: "ps_step ?s ?t"
    by (rule ps_step.start) (simp add: ps_Start_def NewPollerState_def)
  have ne: "ps_OperState ?t \<noteq> ps_OperState ?s"
    by (simp add: NewPollerState_def)
  show ?thesis using running_only_when_started [OF st ne] by simp
qed

section \<open>Health as a function of the poll history\<close>

text \<open>Recording a history of results, oldest first: \<open>(success, error, pollMs, now)\<close>.\<close>

type_synonym poll_event = "bool \<times> string \<times> int \<times> int"

definition ps_record_all :: "poll_event list \<Rightarrow> PollerState \<Rightarrow> PollerState" where
  "ps_record_all evs s =
     foldl (\<lambda>s (ok, err, ms, now). ps_RecordPollResult ok err ms now s) s evs"

lemma record_all_snoc:
  "ps_record_all (evs @ [(ok, err, ms, now)]) s =
   ps_RecordPollResult ok err ms now (ps_record_all evs s)"
  by (simp add: ps_record_all_def)

abbreviation "ev_ok (e :: poll_event) \<equiv> fst e"

lemma record_all_counters:
  "ps_ConsecutiveFailures (ps_record_all evs (NewPollerState n t p)) = trailing (\<lambda>e. \<not> ev_ok e) evs \<and>
   ps_RecentSuccesses (ps_record_all evs (NewPollerState n t p)) = trailing ev_ok evs"
proof (induction evs rule: rev_induct)
  case Nil
  then show ?case by (simp add: ps_record_all_def NewPollerState_def)
next
  case (snoc e evs)
  obtain ok err ms now where e: "e = (ok, err, ms, now)" by (cases e)
  from snoc show ?case
    by (simp add: e record_all_snoc)
qed

lemma record_all_reachable: "ps_reachable s \<Longrightarrow> ps_reachable (ps_record_all evs s)"
proof (induction evs rule: rev_induct)
  case Nil
  then show ?case by (simp add: ps_record_all_def)
next
  case (snoc e evs)
  obtain ok err ms now where e: "e = (ok, err, ms, now)" by (cases e)
  from snoc show ?case
    by (auto simp: e record_all_snoc intro: ps_reachable.step ps_step.record_result)
qed



text \<open>The counts by oper state and by health state are the numbers of pollers in each state,
  and a state nobody is in reads as zero.\<close>

theorem counts_by_state:
  "count_of (CountByOperState m) x = length (filter (\<lambda>s. ps_OperState s = x) (StateManager_GetAll m)) \<and>
   count_of (CountByHealthState m) y = length (filter (\<lambda>s. ps_HealthState s = y) (StateManager_GetAll m))"
  by (simp add: CountByOperState_def CountByHealthState_def StateManager_GetAll_def count_of_count_by)

end
