(* ===== verification/PollerStats.thy ===== *)
theory PollerStats
  imports PollerState "HOL-Library.Signed_Division"
begin

text \<open>
  The poll statistics of internal/manager/stats.go: one \<open>PollerStats\<close> per poller and the
  \<open>StatsManager\<close> that owns them.

  The counters are \<open>int64\<close> in the code and are bumped by one per poll, so they are modelled as
  \<open>int\<close>; the quotient of \<open>GetStats\<close> is Go's, which truncates towards zero (\<open>sdiv\<close>). The four
  atomic additions and the locked section of \<open>RecordPoll\<close> are one step here: the code never reads
  one counter to decide on another.
\<close>

record PollerStats =
  st_Namespace :: string
  st_Target :: string
  st_Poller :: string
  st_PollsTotal :: int
  st_PollsSuccess :: int
  st_PollsFailed :: int
  st_PollsTimeout :: int
  st_pollMsSum :: int
  st_pollMsMin :: int
  st_pollMsMax :: int
  st_pollMsCount :: int
  st_dirty :: bool

definition NewPollerStats :: "string \<Rightarrow> string \<Rightarrow> string \<Rightarrow> PollerStats" where
  "NewPollerStats namespace target poller =
     \<lparr>st_Namespace = namespace, st_Target = target, st_Poller = poller,
      st_PollsTotal = 0, st_PollsSuccess = 0, st_PollsFailed = 0, st_PollsTimeout = 0,
      st_pollMsSum = 0, st_pollMsMin = -1, st_pollMsMax = 0, st_pollMsCount = 0,
      st_dirty = False\<rparr>"

definition st_Key :: "PollerStats \<Rightarrow> string" where
  "st_Key s = st_Namespace s @ ''/'' @ st_Target s @ ''/'' @ st_Poller s"

definition RecordPoll :: "bool \<Rightarrow> bool \<Rightarrow> int \<Rightarrow> PollerStats \<Rightarrow> PollerStats" where
  "RecordPoll success timeout pollMs s =
     (let s1 = s\<lparr>st_PollsTotal := st_PollsTotal s + 1\<rparr>;
          s2 = (if success then s1\<lparr>st_PollsSuccess := st_PollsSuccess s1 + 1\<rparr>
                else (let s' = s1\<lparr>st_PollsFailed := st_PollsFailed s1 + 1\<rparr> in
                      if timeout then s'\<lparr>st_PollsTimeout := st_PollsTimeout s' + 1\<rparr> else s'));
          s3 = s2\<lparr>st_pollMsSum := st_pollMsSum s2 + pollMs,
                  st_pollMsCount := st_pollMsCount s2 + 1\<rparr>;
          s4 = (if st_pollMsMin s3 < 0 \<or> pollMs < st_pollMsMin s3
                then s3\<lparr>st_pollMsMin := pollMs\<rparr> else s3);
          s5 = (if pollMs > st_pollMsMax s4 then s4\<lparr>st_pollMsMax := pollMs\<rparr> else s4)
      in s5\<lparr>st_dirty := True\<rparr>)"

text \<open>The result of \<open>GetStats\<close>: totals, then average, least and largest poll time.\<close>

record stats_view =
  sv_total :: int
  sv_success :: int
  sv_failed :: int
  sv_timeout :: int
  sv_avgMs :: int
  sv_minMs :: int
  sv_maxMs :: int

definition GetStats :: "PollerStats \<Rightarrow> stats_view" where
  "GetStats s =
     \<lparr>sv_total = st_PollsTotal s, sv_success = st_PollsSuccess s, sv_failed = st_PollsFailed s,
      sv_timeout = st_PollsTimeout s,
      sv_avgMs = (if st_pollMsCount s > 0 then st_pollMsSum s sdiv st_pollMsCount s else 0),
      sv_minMs = (if st_pollMsMin s < 0 then 0 else st_pollMsMin s),
      sv_maxMs = st_pollMsMax s\<rparr>"

definition st_IsDirty :: "PollerStats \<Rightarrow> bool" where
  "st_IsDirty s = st_dirty s"

definition st_ClearDirty :: "PollerStats \<Rightarrow> PollerStats" where
  "st_ClearDirty s = s\<lparr>st_dirty := False\<rparr>"

definition st_Reset :: "PollerStats \<Rightarrow> PollerStats" where
  "st_Reset s =
     s\<lparr>st_PollsTotal := 0, st_PollsSuccess := 0, st_PollsFailed := 0, st_PollsTimeout := 0,
       st_pollMsSum := 0, st_pollMsMin := -1, st_pollMsMax := 0, st_pollMsCount := 0,
       st_dirty := True\<rparr>"

section \<open>The stats manager\<close>

type_synonym StatsManager = "(string, PollerStats) gomap"

definition StatsManager_Get :: "StatsManager \<Rightarrow> poller_id \<Rightarrow> PollerStats \<times> StatsManager" where
  "StatsManager_Get m q =
     (case map_of m (state_key q) of
        Some stats \<Rightarrow> (stats, m)
      | None \<Rightarrow>
          (let stats = (case q of (namespace, target, poller) \<Rightarrow>
                          NewPollerStats namespace target poller)
           in (stats, mput (state_key q) stats m)))"

definition StatsManager_Remove :: "StatsManager \<Rightarrow> poller_id \<Rightarrow> StatsManager" where
  "StatsManager_Remove m q = mdel (state_key q) m"

definition StatsManager_GetDirty :: "StatsManager \<Rightarrow> PollerStats list" where
  "StatsManager_GetDirty m = filter st_IsDirty (mvals m)"

definition StatsManager_GetAll :: "StatsManager \<Rightarrow> PollerStats list" where
  "StatsManager_GetAll m = mvals m"

text \<open>The three aggregation loops add the counters of the entries they select.\<close>

fun add_totals :: "PollerStats list \<Rightarrow> int \<times> int \<times> int \<times> int \<Rightarrow> int \<times> int \<times> int \<times> int" where
  "add_totals [] acc = acc"
| "add_totals (s # ss) (tot, success, failed, timeout) =
     add_totals ss (tot + st_PollsTotal s, success + st_PollsSuccess s,
                    failed + st_PollsFailed s, timeout + st_PollsTimeout s)"

definition Aggregate :: "StatsManager \<Rightarrow> int \<times> int \<times> int \<times> int" where
  "Aggregate m = add_totals (mvals m) (0, 0, 0, 0)"

definition AggregateByNamespace :: "string \<Rightarrow> StatsManager \<Rightarrow> int \<times> int \<times> int" where
  "AggregateByNamespace namespace m =
     (case add_totals (filter (\<lambda>s. st_Namespace s = namespace) (mvals m)) (0, 0, 0, 0) of
        (tot, success, failed, _) \<Rightarrow> (tot, success, failed))"

definition AggregateByTarget :: "string \<Rightarrow> string \<Rightarrow> StatsManager \<Rightarrow> int \<times> int \<times> int" where
  "AggregateByTarget namespace target m =
     (case add_totals (filter (\<lambda>s. st_Namespace s = namespace \<and> st_Target s = target) (mvals m))
             (0, 0, 0, 0) of
        (tot, success, failed, _) \<Rightarrow> (tot, success, failed))"

definition with_stats :: "poller_id \<Rightarrow> (PollerStats \<Rightarrow> PollerStats) \<Rightarrow> StatsManager \<Rightarrow> StatsManager" where
  "with_stats q f m = (case StatsManager_Get m q of (s, m') \<Rightarrow> mput (state_key q) (f s) m')"

interpretation stats: registry map_of mput mdel state_key
  "\<lambda>(namespace, target, poller). NewPollerStats namespace target poller"
  StatsManager_Get StatsManager_Remove
  by unfold_locales
     (auto simp: StatsManager_Get_def StatsManager_Remove_def Let_def split: prod.splits)

lemma with_stats_same:
  "map_of (with_stats q f m) (state_key q) = Some (f (fst (StatsManager_Get m q)))"
  by (simp add: with_stats_def split: prod.splits)

lemma with_stats_other:
  "k \<noteq> state_key q \<Longrightarrow> map_of (with_stats q f m) k = map_of m k"
  using stats.get_frame [of k q m] by (cases "StatsManager_Get m q") (simp add: with_stats_def)

section \<open>Recording a history\<close>

text \<open>A poll as the statistics see it: \<open>(success, timeout, pollMs)\<close>.\<close>

type_synonym poll_obs = "bool \<times> bool \<times> int"

definition RecordPolls :: "poll_obs list \<Rightarrow> PollerStats \<Rightarrow> PollerStats" where
  "RecordPolls ps s = foldl (\<lambda>s (ok, tmo, ms). RecordPoll ok tmo ms s) s ps"

abbreviation "ob_ok (p :: poll_obs) \<equiv> fst p"
abbreviation "ob_tmo (p :: poll_obs) \<equiv> fst (snd p)"
abbreviation "ob_ms (p :: poll_obs) \<equiv> snd (snd p)"

lemma RecordPoll_fields [simp]:
  "st_PollsTotal (RecordPoll ok tmo ms s) = st_PollsTotal s + 1"
  "st_PollsSuccess (RecordPoll ok tmo ms s) = st_PollsSuccess s + (if ok then 1 else 0)"
  "st_PollsFailed (RecordPoll ok tmo ms s) = st_PollsFailed s + (if ok then 0 else 1)"
  "st_PollsTimeout (RecordPoll ok tmo ms s) = st_PollsTimeout s + (if \<not> ok \<and> tmo then 1 else 0)"
  "st_pollMsSum (RecordPoll ok tmo ms s) = st_pollMsSum s + ms"
  "st_pollMsCount (RecordPoll ok tmo ms s) = st_pollMsCount s + 1"
  "st_pollMsMin (RecordPoll ok tmo ms s) =
     (if st_pollMsMin s < 0 \<or> ms < st_pollMsMin s then ms else st_pollMsMin s)"
  "st_pollMsMax (RecordPoll ok tmo ms s) = max (st_pollMsMax s) ms"
  "st_Namespace (RecordPoll ok tmo ms s) = st_Namespace s"
  "st_Target (RecordPoll ok tmo ms s) = st_Target s"
  "st_Poller (RecordPoll ok tmo ms s) = st_Poller s"
  "st_dirty (RecordPoll ok tmo ms s)"
  by (auto simp: RecordPoll_def Let_def max_def)

lemma RecordPolls_Nil [simp]: "RecordPolls [] s = s"
  by (simp add: RecordPolls_def)

lemma RecordPolls_snoc [simp]:
  "RecordPolls (ps @ [p]) s = RecordPoll (ob_ok p) (ob_tmo p) (ob_ms p) (RecordPolls ps s)"
  by (cases p) (simp add: RecordPolls_def)

lemma RecordPolls_single [simp]: "RecordPolls [p] s = RecordPoll (ob_ok p) (ob_tmo p) (ob_ms p) s"
  using RecordPolls_snoc [of "[]" p s] by simp

lemma RecordPolls_counts:
  "st_PollsTotal (RecordPolls ps (NewPollerStats n t p)) = int (length ps) \<and>
   st_PollsSuccess (RecordPolls ps (NewPollerStats n t p)) = int (length (filter ob_ok ps)) \<and>
   st_PollsFailed (RecordPolls ps (NewPollerStats n t p)) = int (length (filter (\<lambda>p. \<not> ob_ok p) ps)) \<and>
   st_PollsTimeout (RecordPolls ps (NewPollerStats n t p)) =
     int (length (filter (\<lambda>p. \<not> ob_ok p \<and> ob_tmo p) ps))"
  by (induction ps rule: rev_induct) (auto simp: NewPollerStats_def)

lemma RecordPolls_timing:
  assumes "\<forall>p \<in> set ps. 0 \<le> ob_ms p"
  shows "st_pollMsSum (RecordPolls ps (NewPollerStats n t p)) = sum_list (map ob_ms ps) \<and>
    st_pollMsCount (RecordPolls ps (NewPollerStats n t p)) = int (length ps) \<and>
    st_pollMsMin (RecordPolls ps (NewPollerStats n t p)) =
      (if ps = [] then -1 else Min (ob_ms ` set ps)) \<and>
    st_pollMsMax (RecordPolls ps (NewPollerStats n t p)) = Max (insert 0 (ob_ms ` set ps))"
  using assms
proof (induction ps rule: rev_induct)
  case Nil
  then show ?case by (simp add: NewPollerStats_def)
next
  case (snoc x ps)
  then have IH: "st_pollMsMin (RecordPolls ps (NewPollerStats n t p)) =
      (if ps = [] then -1 else Min (ob_ms ` set ps))"
    "st_pollMsMax (RecordPolls ps (NewPollerStats n t p)) = Max (insert 0 (ob_ms ` set ps))"
    by auto
  have nonneg: "ps \<noteq> [] \<Longrightarrow> 0 \<le> Min (ob_ms ` set ps)"
    using snoc.prems by simp
  have mn: "(if ps = [] then ob_ms x else min (Min (ob_ms ` set ps)) (ob_ms x)) =
      Min (insert (ob_ms x) (ob_ms ` set ps))"
    by (cases ps) (simp_all add: min.commute)
  have mx: "max (Max (insert 0 (ob_ms ` set ps))) (ob_ms x) =
      Max (insert 0 (insert (ob_ms x) (ob_ms ` set ps)))"
    by (simp add: insert_commute [of 0] max.commute)
  define lo hi where "lo = Min (ob_ms ` set ps)" and "hi = Max (insert 0 (ob_ms ` set ps))"
  have mn': "Min (ob_ms ` set (ps @ [x])) = (if ps = [] then ob_ms x else min lo (ob_ms x))"
    using mn by (auto simp: lo_def min.commute [of "ob_ms x"])
  have mx': "Max (insert 0 (ob_ms ` set (ps @ [x]))) = max hi (ob_ms x)"
    using mx by (simp add: hi_def insert_commute)
  have lo0: "ps \<noteq> [] \<Longrightarrow> 0 \<le> lo" using nonneg by (simp add: lo_def)
  have IH': "st_pollMsMin (RecordPolls ps (NewPollerStats n t p)) = (if ps = [] then -1 else lo)"
    "st_pollMsMax (RecordPolls ps (NewPollerStats n t p)) = hi"
    using IH by (simp_all add: lo_def hi_def)
  have rest: "st_pollMsSum (RecordPolls ps (NewPollerStats n t p)) = sum_list (map ob_ms ps)"
    "st_pollMsCount (RecordPolls ps (NewPollerStats n t p)) = int (length ps)"
    using snoc by auto
  show ?case
    unfolding mn' mx' using IH' rest lo0 by (cases "ps = []") (auto simp: min_def)
qed

lemma sum_list_between:
  fixes xs :: "int list"
  assumes "\<forall>x \<in> set xs. lo \<le> x \<and> x \<le> hi"
  shows "lo * int (length xs) \<le> sum_list xs \<and> sum_list xs \<le> hi * int (length xs)"
  using assms by (induction xs) (auto simp: algebra_simps)

lemma sdiv_nonneg: "0 \<le> a \<Longrightarrow> 0 < b \<Longrightarrow> a sdiv b = a div (b::int)"
  by (cases "a = 0") (simp_all add: signed_divide_int_def)

lemma div_between:
  fixes a b lo hi :: int
  assumes "0 < b" "lo * b \<le> a" "a \<le> hi * b" "0 \<le> lo"
  shows "lo \<le> a div b \<and> a div b \<le> hi \<and> 0 \<le> a"
proof -
  have "lo * b div b \<le> a div b" "a div b \<le> hi * b div b"
    by (rule zdiv_mono1 [OF assms(2,1)], rule zdiv_mono1 [OF assms(3,1)])
  moreover have "0 \<le> a" using assms by (meson mult_nonneg_nonneg less_imp_le order_trans)
  ultimately show ?thesis using assms(1) by simp
qed

text \<open>After any history of polls the four counters are the numbers of polls, successes,
  failures and timeouts in it, so \<open>total = success + failed\<close> and \<open>timeout \<le> failed\<close> always.\<close>

theorem stats_count_history:
  "sv_total (GetStats (RecordPolls ps (NewPollerStats n t p))) = int (length ps) \<and>
   sv_success (GetStats (RecordPolls ps (NewPollerStats n t p))) = int (length (filter ob_ok ps)) \<and>
   sv_failed (GetStats (RecordPolls ps (NewPollerStats n t p))) =
     sv_total (GetStats (RecordPolls ps (NewPollerStats n t p))) -
     sv_success (GetStats (RecordPolls ps (NewPollerStats n t p))) \<and>
   sv_timeout (GetStats (RecordPolls ps (NewPollerStats n t p))) \<le>
     sv_failed (GetStats (RecordPolls ps (NewPollerStats n t p)))"
proof -
  have "length (filter ob_ok ps) + length (filter (\<lambda>p. \<not> ob_ok p) ps) = length ps"
    by (rule sum_length_filter_compl)
  moreover have "length (filter (\<lambda>p. \<not> ob_ok p \<and> ob_tmo p) ps) \<le> length (filter (\<lambda>p. \<not> ob_ok p) ps)"
    by (induction ps) auto
  ultimately show ?thesis
    using RecordPolls_counts [of ps n t p] by (simp add: GetStats_def)
qed



section \<open>Aggregation\<close>

lemma add_totals_sum:
  "add_totals ss (a, b, c, d) =
     (a + (\<Sum>s\<leftarrow>ss. st_PollsTotal s), b + (\<Sum>s\<leftarrow>ss. st_PollsSuccess s),
      c + (\<Sum>s\<leftarrow>ss. st_PollsFailed s), d + (\<Sum>s\<leftarrow>ss. st_PollsTimeout s))"
  by (induction ss arbitrary: a b c d) simp_all

lemma sum_list_partition:
  fixes f :: "'a \<Rightarrow> int"
  assumes "distinct ks" "\<forall>x \<in> set xs. g x \<in> set ks"
  shows "(\<Sum>k\<leftarrow>ks. \<Sum>x\<leftarrow>filter (\<lambda>x. g x = k) xs. f x) = (\<Sum>x\<leftarrow>xs. f x)"
  using assms(2)
proof (induction xs)
  case (Cons x xs)
  have one: "(\<Sum>k\<leftarrow>ks. if g x = k then f x else 0) = f x"
    using assms(1) Cons.prems by (simp add: sum_list_distinct_conv_sum_set)
  have "(\<Sum>k\<leftarrow>ks. \<Sum>y\<leftarrow>filter (\<lambda>y. g y = k) (x # xs). f y) =
      (\<Sum>k\<leftarrow>ks. (if g x = k then f x else 0) + (\<Sum>y\<leftarrow>filter (\<lambda>y. g y = k) xs. f y))"
    by (rule arg_cong [where f = sum_list], rule map_cong) auto
  then show ?case
    using Cons one by (simp add: sum_list_addf)
qed simp

text \<open>The per-namespace totals add up to the server totals, over any list of distinct
  namespaces that names every poller's namespace.\<close>

theorem aggregate_by_namespace_adds_up:
  assumes "distinct nss" "\<forall>s \<in> set (mvals m). st_Namespace s \<in> set nss"
  shows "(\<Sum>ns\<leftarrow>nss. fst (AggregateByNamespace ns m)) = fst (Aggregate m) \<and>
    (\<Sum>ns\<leftarrow>nss. fst (snd (AggregateByNamespace ns m))) = fst (snd (Aggregate m)) \<and>
    (\<Sum>ns\<leftarrow>nss. snd (snd (AggregateByNamespace ns m))) = fst (snd (snd (Aggregate m)))"
  using sum_list_partition [OF assms, of st_PollsTotal]
    sum_list_partition [OF assms, of st_PollsSuccess]
    sum_list_partition [OF assms, of st_PollsFailed]
  by (simp add: AggregateByNamespace_def Aggregate_def add_totals_sum)

lemma aggregate_by_namespace_adds_up_witness:
  "(\<Sum>ns\<leftarrow>[''a'', ''b'']. fst (AggregateByNamespace ns
      [(''a/t/p'', RecordPoll True False 3 (NewPollerStats ''a'' ''t'' ''p'')),
       (''b/t/p'', NewPollerStats ''b'' ''t'' ''p'')])) = 1"
proof -
  let ?m = "[(''a/t/p'', RecordPoll True False 3 (NewPollerStats ''a'' ''t'' ''p'')),
     (''b/t/p'', NewPollerStats ''b'' ''t'' ''p'')]"
  have d: "distinct [''a'', ''b'']" and c: "\<forall>s \<in> set (mvals ?m). st_Namespace s \<in> set [''a'', ''b'']"
    by (simp_all add: NewPollerStats_def)
  show ?thesis
    using aggregate_by_namespace_adds_up [OF d c] by (simp add: Aggregate_def NewPollerStats_def)
qed

end
