(* ===== verification/StoreBase.thy ===== *)
theory StoreBase
  imports Prelude "HOL-Library.Char_ord" "HOL-Library.List_Lexorder"
begin

text \<open>
  The database of internal/store: its tables as lists of rows, the SQL statements the package
  executes as operations on them, \<open>Store.Transaction\<close> of store.go, and the record types of the
  entities.

  \<^item> DuckDB is not part of the repository. A statement does what its SQL text says on the
    tables (\<open>INSERT\<close> fails on a duplicate primary key), or fails for a reason of the engine's
    own: the oracle \<open>st_fault\<close> says which statements of a run fail and with which message, and
    every theorem holds for all oracles. A failed statement leaves the tables alone and an open
    transaction rolls back as a whole.
  \<^item> A JSON column holds the Go value that was marshalled into it. \<open>json.Marshal\<close> of a nil
    pointer gives \<open>null\<close>, and reading \<open>null\<close> back gives a pointer to the empty struct: the
    \<open>read_\<close> functions do that. Other values round-trip.
  \<^item> \<open>time.Now()\<close> is an argument, one per moment the code reads the clock at.
\<close>

section \<open>Entities\<close>

record SNMPv3Defaults =
  v3_SecurityName :: string
  v3_SecurityLevel :: string
  v3_AuthProtocol :: string
  v3_AuthPassword :: string
  v3_AuthSecretRef :: string
  v3_PrivProtocol :: string
  v3_PrivPassword :: string
  v3_PrivSecretRef :: string

record PollerDefaults =
  d_SNMPCommunity :: "string option"
  d_SNMPv3 :: "SNMPv3Defaults option"
  d_IntervalMs :: "32 word option"
  d_TimeoutMs :: "32 word option"
  d_Retries :: "32 word option"
  d_BufferSize :: "32 word option"

record NamespaceConfig =
  nc_Defaults :: "PollerDefaults option"

record Namespace =
  ns_Name :: string
  ns_Description :: string
  ns_Config :: "NamespaceConfig option"
  ns_CreatedAt :: int
  ns_UpdatedAt :: int
  ns_Version :: int

record TargetConfig =
  tc_Defaults :: "PollerDefaults option"

record Target =
  t_Namespace :: string
  t_Name :: string
  t_Description :: string
  t_Labels :: "(string, string) gomap"
  t_Config :: "TargetConfig option"
  t_CreatedAt :: int
  t_UpdatedAt :: int
  t_Version :: int

record PollingConfig =
  pc_IntervalMs :: "32 word option"
  pc_TimeoutMs :: "32 word option"
  pc_Retries :: "32 word option"
  pc_BufferSize :: "32 word option"

record Poller =
  p_Namespace :: string
  p_Target :: string
  p_Name :: string
  p_Description :: string
  p_Protocol :: string
  p_ProtocolConfig :: string
  p_PollingConfig :: "PollingConfig option"
  p_AdminState :: string
  p_CreatedAt :: int
  p_UpdatedAt :: int
  p_Version :: int

record StateRow =
  sr_Namespace :: string
  sr_Target :: string
  sr_Poller :: string
  sr_OperState :: string
  sr_HealthState :: string
  sr_LastError :: string
  sr_ConsecutiveFailures :: nat
  sr_LastPollAt :: "int option"
  sr_LastSuccessAt :: "int option"
  sr_LastFailureAt :: "int option"

record StatsRow =
  tr_Namespace :: string
  tr_Target :: string
  tr_Poller :: string
  tr_PollsTotal :: int
  tr_PollsSuccess :: int
  tr_PollsFailed :: int
  tr_PollsTimeout :: int
  tr_PollMsSum :: int
  tr_PollMsMin :: "int option"
  tr_PollMsMax :: "int option"
  tr_PollMsCount :: int

text \<open>A gauge is a \<open>float64\<close> by its bits; the store never computes with it.\<close>

record Sample =
  sa_Namespace :: string
  sa_Target :: string
  sa_Poller :: string
  sa_TimestampMs :: int
  sa_ValueCounter :: "64 word option"
  sa_ValueText :: "string option"
  sa_ValueGauge :: "64 word option"
  sa_Valid :: bool
  sa_Error :: string
  sa_PollMs :: int

record TreeNode =
  tn_Namespace :: string
  tn_Path :: string
  tn_NodeType :: string
  tn_LinkRef :: "string option"
  tn_Description :: "string option"
  tn_CreatedAt :: int

record SecretRow =
  se_Namespace :: string
  se_Name :: string
  se_SecretType :: string
  se_EncryptedValue :: string
  se_Nonce :: string
  se_CreatedAt :: int
  se_UpdatedAt :: int

record ServerConfig =
  sc_DefaultTimeoutMs :: "32 word"
  sc_DefaultRetries :: "32 word"
  sc_DefaultIntervalMs :: "32 word"
  sc_DefaultBufferSize :: "32 word"

section \<open>The database\<close>

record DB =
  db_namespaces :: "Namespace list"
  db_targets :: "Target list"
  db_pollers :: "Poller list"
  db_states :: "StateRow list"
  db_stats :: "StatsRow list"
  db_samples :: "Sample list"
  db_tree :: "TreeNode list"
  db_secrets :: "SecretRow list"
  db_config :: ServerConfig

definition empty_db :: DB where
  "empty_db = \<lparr>db_namespaces = [], db_targets = [], db_pollers = [], db_states = [], db_stats = [],
     db_samples = [], db_tree = [], db_secrets = [],
     db_config = \<lparr>sc_DefaultTimeoutMs = 5000, sc_DefaultRetries = 2, sc_DefaultIntervalMs = 1000,
                  sc_DefaultBufferSize = 3600\<rparr>\<rparr>"

text \<open>
  The store: the tables, the number of statements executed so far, the fault oracle, and the
  secret key of the configuration (32 bytes, or none).
\<close>

record Store =
  st_db :: DB
  st_tick :: nat
  st_fault :: "nat \<Rightarrow> string option"
  st_secretKey :: "string option"

definition open_store :: "(nat \<Rightarrow> string option) \<Rightarrow> string option \<Rightarrow> Store" where
  "open_store fault key = \<lparr>st_db = empty_db, st_tick = 0, st_fault = fault, st_secretKey = key\<rparr>"

section \<open>Statements and transactions\<close>

type_synonym 'a sql = "Store \<Rightarrow> 'a go \<times> Store"

definition ret :: "'a \<Rightarrow> 'a sql" where
  "ret x s = (Inr x, s)"

definition fail :: "gerror \<Rightarrow> 'a sql" where
  "fail e s = (Inl e, s)"

definition bnd :: "'a sql \<Rightarrow> ('a \<Rightarrow> 'b sql) \<Rightarrow> 'b sql" where
  "bnd m k s = (case m s of (Inl e, s') \<Rightarrow> (Inl e, s') | (Inr x, s') \<Rightarrow> k x s')"

text \<open>\<open>fmt.Errorf("what: %w", err)\<close>.\<close>

definition wrap :: "string \<Rightarrow> 'a sql \<Rightarrow> 'a sql" where
  "wrap what m s = (case m s of (Inl e, s') \<Rightarrow> (Inl (Errorf (what @ '': '' @ error_msg e)), s')
                   | (Inr x, s') \<Rightarrow> (Inr x, s'))"

text \<open>One statement, given by what it does to the tables.\<close>

definition stmt :: "(DB \<Rightarrow> ('a \<times> DB) go) \<Rightarrow> 'a sql" where
  "stmt q s =
     (case st_fault s (st_tick s) of
        Some e \<Rightarrow> (Inl (Errorf e), s\<lparr>st_tick := st_tick s + 1\<rparr>)
      | None \<Rightarrow>
          (case q (st_db s) of
             Inl e \<Rightarrow> (Inl e, s\<lparr>st_tick := st_tick s + 1\<rparr>)
           | Inr (x, d) \<Rightarrow> (Inr x, s\<lparr>st_db := d, st_tick := st_tick s + 1\<rparr>)))"

definition query :: "(DB \<Rightarrow> 'a) \<Rightarrow> 'a sql" where
  "query f = stmt (\<lambda>d. Inr (f d, d))"

definition exec :: "(DB \<Rightarrow> DB) \<Rightarrow> unit sql" where
  "exec f = stmt (\<lambda>d. Inr ((), f d))"

text \<open>
  \<open>Store.Transaction\<close>: begin, run, and commit or roll back. Begin and commit are statements that
  can fail too; after a failed commit nothing of the transaction is left.
\<close>

definition Transaction :: "'a sql \<Rightarrow> 'a sql" where
  "Transaction fn s =
     (case exec (\<lambda>d. d) s of
        (Inl e, s1) \<Rightarrow> (Inl e, s1)
      | (Inr _, s1) \<Rightarrow>
          (case fn s1 of
             (Inl e, s2) \<Rightarrow> (Inl e, s2\<lparr>st_db := st_db s1\<rparr>)
           | (Inr x, s2) \<Rightarrow>
               (case exec (\<lambda>d. d) s2 of
                  (Inl e, s3) \<Rightarrow> (Inl e, s3\<lparr>st_db := st_db s1\<rparr>)
                | (Inr _, s3) \<Rightarrow> (Inr x, s3))))"

text \<open>\<open>for ... { if err := ...; err != nil { return err } }\<close>.\<close>

fun each :: "('a \<Rightarrow> unit sql) \<Rightarrow> 'a list \<Rightarrow> unit sql" where
  "each f [] = ret ()"
| "each f (x # xs) = bnd (f x) (\<lambda>_. each f xs)"

section \<open>Reasoning about runs\<close>

text \<open>
  \<open>runs m P\<close>: \<open>m\<close> either fails or ends with a result and tables that \<open>P\<close> relates to the tables it
  started from; with \<open>safe\<close> a failure leaves the tables as they were.
\<close>

definition runs :: "'a sql \<Rightarrow> (DB \<Rightarrow> 'a \<Rightarrow> DB \<Rightarrow> bool) \<Rightarrow> bool" where
  "runs m P \<longleftrightarrow> (\<forall>s x t. m s = (Inr x, t) \<longrightarrow> P (st_db s) x (st_db t))"

definition safe :: "'a sql \<Rightarrow> bool" where
  "safe m \<longleftrightarrow> (\<forall>s e t. m s = (Inl e, t) \<longrightarrow> st_db t = st_db s)"

named_theorems runs_intro \<open>how the statements and combinators run\<close>

lemma runs_mono: "runs m P \<Longrightarrow> (\<And>d x d'. P d x d' \<Longrightarrow> Q d x d') \<Longrightarrow> runs m Q"
  by (auto simp: runs_def)

lemma runsD: "runs m P \<Longrightarrow> m s = (Inr x, t) \<Longrightarrow> P (st_db s) x (st_db t)"
  by (auto simp: runs_def)

lemma safeD: "safe m \<Longrightarrow> m s = (Inl e, t) \<Longrightarrow> st_db t = st_db s"
  by (auto simp: safe_def)

lemma runs_ret [runs_intro]: "runs (ret x) (\<lambda>d y d'. y = x \<and> d' = d)"
  by (simp add: runs_def ret_def)

lemma runs_fail [runs_intro]: "runs (fail e) P"
  by (simp add: runs_def fail_def)

lemma runs_bnd:
  assumes "runs m P" "\<And>x. runs (k x) (Q x)"
  shows "runs (bnd m k) (\<lambda>d y d''. \<exists>x d'. P d x d' \<and> Q x d' y d'')"
  using assms by (fastforce simp: runs_def bnd_def split: prod.splits sum.splits)

lemma runs_wrap: "runs m P \<Longrightarrow> runs (wrap w m) P"
  by (auto simp: runs_def wrap_def split: prod.splits sum.splits)

lemma runs_stmt: "runs (stmt q) (\<lambda>d x d'. q d = Inr (x, d'))"
  by (auto simp: runs_def stmt_def split: option.splits sum.splits)

lemma runs_query [runs_intro]: "runs (query f) (\<lambda>d x d'. x = f d \<and> d' = d)"
  by (rule runs_mono [OF runs_stmt [of "\<lambda>d. Inr (f d, d)", folded query_def]]) auto

lemma runs_exec [runs_intro]: "runs (exec f) (\<lambda>d x d'. d' = f d)"
  by (rule runs_mono [OF runs_stmt [of "\<lambda>d. Inr ((), f d)", folded exec_def]]) auto

lemma safe_ret [simp]: "safe (ret x)"
  by (simp add: safe_def ret_def)

lemma safe_fail [simp]: "safe (fail e)"
  by (simp add: safe_def fail_def)

lemma safe_stmt [simp]: "safe (stmt q)"
  by (auto simp: safe_def stmt_def split: option.splits sum.splits)

lemma safe_query [simp]: "safe (query f)"
  by (simp add: query_def)

lemma safe_exec [simp]: "safe (exec f)"
  by (simp add: exec_def)

lemma safe_wrap [simp]: "safe (wrap w m) = safe m"
  by (auto simp: safe_def wrap_def split: prod.splits sum.splits)

text \<open>A query changes nothing; what follows it decides.\<close>

lemma safe_query_bnd:
  assumes "\<And>x. safe (k x)"
  shows "safe (bnd (query f) k)"
  using assms
  by (auto simp: safe_def bnd_def query_def stmt_def split: option.splits sum.splits prod.splits)

text \<open>A change last, and only pure steps after it.\<close>

lemma safe_bnd_ret: "safe m \<Longrightarrow> safe (bnd m (\<lambda>x. ret (g x)))"
  by (auto simp: safe_def bnd_def ret_def split: sum.splits prod.splits)

lemma Transaction_safe [simp]: "safe (Transaction fn)"
  by (auto simp: safe_def Transaction_def exec_def stmt_def split: option.splits sum.splits prod.splits)

lemma runs_Transaction: "runs fn P \<Longrightarrow> runs (Transaction fn) P"
  by (fastforce simp: runs_def Transaction_def exec_def stmt_def split: option.splits sum.splits prod.splits)

lemma runs_each:
  assumes "\<And>x. x \<in> set xs \<Longrightarrow> runs (f x) (\<lambda>d _ d'. d' = g x d)"
  shows "runs (each f xs) (\<lambda>d _ d'. d' = foldl (\<lambda>d x. g x d) d xs)"
  using assms
proof (induction xs)
  case Nil
  show ?case by (simp add: runs_def ret_def)
next
  case (Cons x xs)
  have h: "runs (f x) (\<lambda>d _ d'. d' = g x d)" using Cons.prems by simp
  have t: "runs (each f xs) (\<lambda>d _ d'. d' = foldl (\<lambda>d x. g x d) d xs)"
    using Cons.IH Cons.prems by simp
  show ?case
    using h t by (fastforce simp: runs_def bnd_def split: prod.splits sum.splits)
qed

text \<open>What a statement keeps of an invariant of the tables, whether it fails or not.\<close>

definition keeps :: "(DB \<Rightarrow> bool) \<Rightarrow> 'a sql \<Rightarrow> bool" where
  "keeps J m \<longleftrightarrow> (\<forall>s. J (st_db s) \<longrightarrow> J (st_db (snd (m s))))"

lemma keeps_ret [runs_intro]: "keeps J (ret x)"
  by (simp add: keeps_def ret_def)

lemma keeps_fail [runs_intro]: "keeps J (fail e)"
  by (simp add: keeps_def fail_def)

lemma keeps_bnd: "keeps J m \<Longrightarrow> (\<And>x. keeps J (k x)) \<Longrightarrow> keeps J (bnd m k)"
  by (fastforce simp: keeps_def bnd_def split: prod.splits sum.splits)

lemma keeps_wrap: "keeps J m \<Longrightarrow> keeps J (wrap w m)"
  by (fastforce simp: keeps_def wrap_def split: prod.splits sum.splits)

lemma keeps_stmt: "(\<And>d x d'. q d = Inr (x, d') \<Longrightarrow> J d \<Longrightarrow> J d') \<Longrightarrow> keeps J (stmt q)"
  by (auto simp: keeps_def stmt_def split: option.splits sum.splits)

lemma keeps_query [runs_intro]: "keeps J (query f)"
  unfolding query_def by (rule keeps_stmt) simp

lemma keeps_exec: "(\<And>d. J d \<Longrightarrow> J (f d)) \<Longrightarrow> keeps J (exec f)"
  unfolding exec_def by (rule keeps_stmt) auto

lemma Transaction_db:
  "st_db (snd (Transaction fn s)) = st_db s \<or>
   (\<exists>s1. st_db s1 = st_db s \<and> st_db (snd (Transaction fn s)) = st_db (snd (fn s1)))"
proof (cases "st_fault s (st_tick s)")
  case None
  define s1 where "s1 = s\<lparr>st_tick := st_tick s + 1\<rparr>"
  have b: "exec (\<lambda>d. d) s = (Inr (), s1)" using None by (simp add: exec_def stmt_def s1_def)
  have d1: "st_db s1 = st_db s" by (simp add: s1_def)
  obtain r s2 where f: "fn s1 = (r, s2)" by fastforce
  show ?thesis
  proof (cases r)
    case (Inl e)
    then show ?thesis using b f d1 by (simp add: Transaction_def)
  next
    case (Inr x)
    then have "st_db (snd (Transaction fn s)) = st_db s1 \<or> st_db (snd (Transaction fn s)) = st_db s2"
      using b f by (auto simp: Transaction_def exec_def stmt_def split: option.split)
    then show ?thesis using d1 f by auto
  qed
qed (simp add: Transaction_def exec_def stmt_def)

lemma keeps_Transaction: "keeps J fn \<Longrightarrow> keeps J (Transaction fn)"
  unfolding keeps_def using Transaction_db [of fn] by metis

lemma keeps_each: "(\<And>x. keeps J (f x)) \<Longrightarrow> keeps J (each f xs)"
  by (induction xs) (auto intro: keeps_ret keeps_bnd)

text \<open>
  What must succeed when the engine fails no statement: updates, queries and batches of them do,
  an insertion need not, because its key may be taken.
\<close>

definition faultless :: "Store \<Rightarrow> bool" where
  "faultless s \<longleftrightarrow> (\<forall>n. st_fault s n = None)"

definition succeeds :: "'a sql \<Rightarrow> bool" where
  "succeeds m \<longleftrightarrow> (\<forall>s. faultless s \<longrightarrow> (\<exists>x t. m s = (Inr x, t) \<and> faultless t))"

lemma succeedsE:
  assumes "succeeds m" "faultless s"
  obtains x t where "m s = (Inr x, t)" "faultless t"
  using assms by (auto simp: succeeds_def)

lemma succeeds_ret [intro]: "succeeds (ret x)"
  by (simp add: succeeds_def ret_def)

lemma succeeds_exec [intro]: "succeeds (exec f)"
  by (simp add: succeeds_def exec_def stmt_def faultless_def)

lemma succeeds_query [intro]: "succeeds (query f)"
  by (simp add: succeeds_def query_def stmt_def faultless_def)

lemma succeeds_bnd [intro]: "succeeds m \<Longrightarrow> (\<And>x. succeeds (k x)) \<Longrightarrow> succeeds (bnd m k)"
  unfolding succeeds_def bnd_def by fastforce

lemma succeeds_wrap [intro]: "succeeds m \<Longrightarrow> succeeds (wrap w m)"
  unfolding succeeds_def wrap_def by fastforce

lemma succeeds_each [intro]: "(\<And>x. succeeds (f x)) \<Longrightarrow> succeeds (each f xs)"
  by (induction xs) auto

lemma succeeds_Transaction [intro]:
  assumes "succeeds fn"
  shows "succeeds (Transaction fn)"
  unfolding succeeds_def
proof (intro allI impI)
  fix s assume s: "faultless s"
  obtain u s1 where 1: "exec (\<lambda>d. d) s = (Inr u, s1)" "faultless s1"
    using succeeds_exec s by (rule succeedsE)
  obtain x s2 where 2: "fn s1 = (Inr x, s2)" "faultless s2"
    using assms 1(2) by (rule succeedsE)
  obtain v s3 where 3: "exec (\<lambda>d. d) s2 = (Inr v, s3)" "faultless s3"
    using succeeds_exec 2(2) by (rule succeedsE)
  show "\<exists>x t. Transaction fn s = (Inr x, t) \<and> faultless t"
    using 1 2 3 by (simp add: Transaction_def)
qed

text \<open>No method changes which statements fail.\<close>

definition same_fault :: "'a sql \<Rightarrow> bool" where
  "same_fault m \<longleftrightarrow> (\<forall>s. st_fault (snd (m s)) = st_fault s)"

lemma same_faultD: "same_fault m \<Longrightarrow> st_fault (snd (m s)) = st_fault s"
  by (simp add: same_fault_def)

lemma same_fault_stmt: "same_fault (stmt q)"
  by (auto simp: same_fault_def stmt_def split: option.split sum.split)

lemma same_fault_bnd:
  assumes "same_fault m" "\<And>x. same_fault (k x)"
  shows "same_fault (bnd m k)"
  unfolding same_fault_def
proof
  fix s
  obtain q t where q: "m s = (q, t)" by fastforce
  then have "st_fault t = st_fault s" using same_faultD [OF assms(1), of s] by simp
  then show "st_fault (snd (bnd m k s)) = st_fault s"
    using q same_faultD [OF assms(2), of _ t] by (cases q) (simp_all add: bnd_def)
qed

lemma same_fault_wrap:
  assumes "same_fault m"
  shows "same_fault (wrap w m)"
  unfolding same_fault_def
proof
  fix s
  obtain q t where q: "m s = (q, t)" by fastforce
  then have "st_fault t = st_fault s" using same_faultD [OF assms, of s] by simp
  then show "st_fault (snd (wrap w m s)) = st_fault s" using q by (cases q) (simp_all add: wrap_def)
qed

lemma same_fault:
  "same_fault (ret x)" "same_fault (fail e)" "same_fault (query f)" "same_fault (exec g)"
  "same_fault m \<Longrightarrow> same_fault m' \<Longrightarrow> same_fault (if c then m else m')"
  by (simp_all add: same_fault_def ret_def fail_def query_def exec_def same_fault_stmt [unfolded same_fault_def])

lemma same_fault_Transaction:
  assumes "same_fault fn"
  shows "same_fault (Transaction fn)"
  unfolding same_fault_def
proof
  fix s
  obtain q1 s1 where 1: "exec (\<lambda>d. d) s = (q1, s1)" by fastforce
  obtain q2 s2 where 2: "fn s1 = (q2, s2)" by fastforce
  obtain q3 s3 where 3: "exec (\<lambda>d. d) s2 = (q3, s3)" by fastforce
  have "st_fault s1 = st_fault s" "st_fault s2 = st_fault s1" "st_fault s3 = st_fault s2"
    using same_faultD [OF same_fault(4), of "\<lambda>d. d"] same_faultD [OF assms, of s1] 1 2 3 by (metis snd_conv)+
  then show "st_fault (snd (Transaction fn s)) = st_fault s"
    using 1 2 3 by (cases q1; cases q2; cases q3) (simp_all add: Transaction_def)
qed

lemmas same_fault_intros = same_fault same_fault_stmt same_fault_bnd same_fault_wrap same_fault_Transaction

section \<open>Rows\<close>

definition sql_insert :: "('r \<Rightarrow> 'k) \<Rightarrow> 'r \<Rightarrow> 'r list \<Rightarrow> 'r list go" where
  "sql_insert key r rows =
     (if key r \<in> key ` set rows then Inl (Errorf ''Constraint Error: Duplicate key'')
      else Inr (rows @ [r]))"

definition sql_update :: "('r \<Rightarrow> bool) \<Rightarrow> ('r \<Rightarrow> 'r) \<Rightarrow> 'r list \<Rightarrow> 'r list" where
  "sql_update P f rows = map (\<lambda>r. if P r then f r else r) rows"

definition sql_delete :: "('r \<Rightarrow> bool) \<Rightarrow> 'r list \<Rightarrow> 'r list" where
  "sql_delete P rows = filter (\<lambda>r. \<not> P r) rows"

definition sql_count :: "('r \<Rightarrow> bool) \<Rightarrow> 'r list \<Rightarrow> nat" where
  "sql_count P rows = length (filter P rows)"

text \<open>\<open>QueryRow\<close>: the first row, or \<open>sql.ErrNoRows\<close>.\<close>

definition sql_first :: "('r \<Rightarrow> bool) \<Rightarrow> 'r list \<Rightarrow> 'r option" where
  "sql_first P rows = List.find P rows"

text \<open>
  \<open>x LIKE pattern\<close>: \<open>%\<close> matches any string, \<open>_\<close> any one character. There is no escape
  character.
\<close>

fun sql_like :: "string \<Rightarrow> string \<Rightarrow> bool" where
  "sql_like s [] = (s = [])"
| "sql_like s (p # ps) =
     (if p = CHR ''%'' then (sql_like s ps \<or> (case s of [] \<Rightarrow> False | _ # s' \<Rightarrow> sql_like s' (p # ps)))
      else if p = CHR ''_'' then (case s of [] \<Rightarrow> False | _ # s' \<Rightarrow> sql_like s' ps)
      else (case s of [] \<Rightarrow> False | c # s' \<Rightarrow> c = p \<and> sql_like s' ps))"

lemma set_sql_delete [simp]: "set (sql_delete P rows) = {r \<in> set rows. \<not> P r}"
  by (simp add: sql_delete_def)

lemma distinct_sql_delete [simp]: "distinct (map key rows) \<Longrightarrow> distinct (map key (sql_delete P rows))"
  by (simp add: sql_delete_def distinct_map_filter)

lemma sql_update_keys [simp]:
  "(\<And>r. key (f r) = key r) \<Longrightarrow> map key (sql_update P f rows) = map key rows"
  by (simp add: sql_update_def)

lemma sql_insert_InrD:
  assumes "sql_insert key r rows = Inr rows'"
  shows "rows' = rows @ [r]" "key r \<notin> key ` set rows"
  using assms by (auto simp: sql_insert_def split: if_splits)

lemma sql_insert_distinct:
  "sql_insert key r rows = Inr rows' \<Longrightarrow> distinct (map key rows) \<Longrightarrow> distinct (map key rows')"
  using sql_insert_InrD by fastforce

lemma sql_count_0: "sql_count P rows = 0 \<longleftrightarrow> (\<forall>r \<in> set rows. \<not> P r)"
  by (auto simp: sql_count_def filter_empty_conv)

lemma sql_first_None: "sql_first P rows = None \<longleftrightarrow> (\<forall>r \<in> set rows. \<not> P r)"
  by (auto simp: sql_first_def find_None_iff)

lemma sql_first_Some: "sql_first P rows = Some r \<Longrightarrow> r \<in> set rows \<and> P r"
  by (auto simp: sql_first_def find_Some_iff)

text \<open>With distinct keys, looking a key up finds the row that has it.\<close>

lemma sql_first_key:
  assumes "distinct (map key rows)" "r \<in> set rows" "key r = k"
  shows "sql_first (\<lambda>r. key r = k) rows = Some r"
proof -
  have "sql_first (\<lambda>r. key r = k) rows \<noteq> None" using assms(2,3) by (auto simp: sql_first_None)
  then obtain r' where r': "sql_first (\<lambda>r. key r = k) rows = Some r'" by auto
  then have "r' \<in> set rows" "key r' = key r" using sql_first_Some assms(3) by fastforce+
  then have "r' = r" using assms(1,2) by (auto simp: distinct_map inj_on_def)
  with r' show ?thesis by simp
qed

lemma like_no_wildcards:
  "CHR ''%'' \<notin> set p \<Longrightarrow> CHR ''_'' \<notin> set p \<Longrightarrow> sql_like s (p @ q) \<longleftrightarrow> (\<exists>r. s = p @ r \<and> sql_like r q)"
proof (induction p arbitrary: s)
  case (Cons c p)
  then show ?case by (cases s) auto
qed simp

lemma like_any: "sql_like s [CHR ''%'']"
  by (induction s) auto

text \<open>\<open>LIKE 'p%'\<close> is a prefix test when \<open>p\<close> has no wildcard.\<close>

lemma like_prefix:
  "CHR ''%'' \<notin> set p \<Longrightarrow> CHR ''_'' \<notin> set p \<Longrightarrow> sql_like s (p @ ''%'') \<longleftrightarrow> has_prefix s p"
  using like_no_wildcards [of p s "''%''"] like_any by (auto simp: has_prefix_iff)

end
