(* ===== verification/StoreEntities.thy ===== *)
theory StoreEntities
  imports StoreBase
begin

text \<open>
  Namespaces, targets and pollers in the database: internal/store/namespace.go, target.go and
  poller.go. One definition per method of \<open>*Store\<close>, with its statements in the code's order and
  the error texts of the code. A method that updates its argument on success returns it.
\<close>

section \<open>Keys\<close>

abbreviation target_key :: "Target \<Rightarrow> string \<times> string" where
  "target_key t \<equiv> (t_Namespace t, t_Name t)"

abbreviation poller_key :: "Poller \<Rightarrow> string \<times> string \<times> string" where
  "poller_key p \<equiv> (p_Namespace p, p_Target p, p_Name p)"

abbreviation state_row_key :: "StateRow \<Rightarrow> string \<times> string \<times> string" where
  "state_row_key r \<equiv> (sr_Namespace r, sr_Target r, sr_Poller r)"

abbreviation stats_row_key :: "StatsRow \<Rightarrow> string \<times> string \<times> string" where
  "stats_row_key r \<equiv> (tr_Namespace r, tr_Target r, tr_Poller r)"

text \<open>\<open>if rows == 0 { return ErrConcurrentModification }\<close>.\<close>

definition check_rows :: "nat \<Rightarrow> 'a \<Rightarrow> 'a sql" where
  "check_rows rows x = (if rows = 0 then fail ErrConcurrentModification else ret x)"

section \<open>Namespaces\<close>

definition read_Namespace :: "Namespace \<Rightarrow> Namespace" where
  "read_Namespace r = r\<lparr>ns_Config := Some (case ns_Config r of
     None \<Rightarrow> \<lparr>nc_Defaults = None\<rparr> | Some c \<Rightarrow> c)\<rparr>"

definition CreateNamespace :: "int \<Rightarrow> int \<Rightarrow> Namespace \<Rightarrow> Namespace sql" where
  "CreateNamespace now now' ns =
     bnd (wrap ''insert namespace'' (stmt (\<lambda>d.
       case sql_insert ns_Name
              (ns\<lparr>ns_CreatedAt := now, ns_UpdatedAt := now, ns_Version := 1\<rparr>) (db_namespaces d) of
         Inl e \<Rightarrow> Inl e
       | Inr rows \<Rightarrow> Inr ((), d\<lparr>db_namespaces := rows\<rparr>))))
     (\<lambda>_. ret (ns\<lparr>ns_Version := 1, ns_CreatedAt := now', ns_UpdatedAt := now'\<rparr>))"

definition GetNamespace :: "string \<Rightarrow> Namespace option sql" where
  "GetNamespace name =
     wrap ''query namespace'' (query (\<lambda>d.
       map_option read_Namespace (sql_first (\<lambda>r. ns_Name r = name) (db_namespaces d))))"

definition ListNamespaces :: "Namespace list sql" where
  "ListNamespaces =
     wrap ''query namespaces'' (query (\<lambda>d.
       map read_Namespace (sort_key ns_Name (db_namespaces d))))"

definition UpdateNamespace :: "int \<Rightarrow> int \<Rightarrow> Namespace \<Rightarrow> Namespace sql" where
  "UpdateNamespace now now' ns =
     bnd (wrap ''update namespace'' (stmt (\<lambda>d.
       let P = (\<lambda>r. ns_Name r = ns_Name ns \<and> ns_Version r = ns_Version ns) in
       Inr (sql_count P (db_namespaces d),
            d\<lparr>db_namespaces := sql_update P
                (\<lambda>r. r\<lparr>ns_Description := ns_Description ns, ns_Config := ns_Config ns,
                       ns_UpdatedAt := now, ns_Version := ns_Version r + 1\<rparr>) (db_namespaces d)\<rparr>))))
     (\<lambda>rows. check_rows rows (ns\<lparr>ns_Version := ns_Version ns + 1, ns_UpdatedAt := now'\<rparr>))"

definition DeleteNamespace :: "string \<Rightarrow> bool \<Rightarrow> (nat \<times> nat) sql" where
  "DeleteNamespace name force =
     bnd (wrap ''count targets'' (query (\<lambda>d. sql_count (\<lambda>r. t_Namespace r = name) (db_targets d))))
     (\<lambda>targetCount.
       if targetCount > 0 \<and> \<not> force
       then fail (Errorf (''namespace not empty: '' @ show_nat targetCount @
                          '' targets (use force to delete)''))
       else Transaction (
         bnd (query (\<lambda>d. sql_count (\<lambda>r. p_Namespace r = name) (db_pollers d))) (\<lambda>pollersDeleted.
         bnd (each (\<lambda>q. exec q)
           [\<lambda>d. d\<lparr>db_samples := sql_delete (\<lambda>r. sa_Namespace r = name) (db_samples d)\<rparr>,
            \<lambda>d. d\<lparr>db_states := sql_delete (\<lambda>r. sr_Namespace r = name) (db_states d)\<rparr>,
            \<lambda>d. d\<lparr>db_stats := sql_delete (\<lambda>r. tr_Namespace r = name) (db_stats d)\<rparr>,
            \<lambda>d. d\<lparr>db_pollers := sql_delete (\<lambda>r. p_Namespace r = name) (db_pollers d)\<rparr>,
            \<lambda>d. d\<lparr>db_tree := sql_delete (\<lambda>r. tn_Namespace r = name) (db_tree d)\<rparr>,
            \<lambda>d. d\<lparr>db_secrets := sql_delete (\<lambda>r. se_Namespace r = name) (db_secrets d)\<rparr>,
            \<lambda>d. d\<lparr>db_targets := sql_delete (\<lambda>r. t_Namespace r = name) (db_targets d)\<rparr>,
            \<lambda>d. d\<lparr>db_namespaces := sql_delete (\<lambda>r. ns_Name r = name) (db_namespaces d)\<rparr>])
         (\<lambda>_. ret (targetCount, pollersDeleted)))))"

definition NamespaceExists :: "string \<Rightarrow> bool sql" where
  "NamespaceExists name =
     query (\<lambda>d. sql_count (\<lambda>r. ns_Name r = name) (db_namespaces d) > 0)"

record NamespaceStats =
  nst_TargetCount :: nat
  nst_PollerCount :: nat
  nst_PollersRunning :: nat
  nst_PollersUp :: nat
  nst_PollersDown :: nat
  nst_TreeNodeCount :: nat

definition GetNamespaceStats :: "string \<Rightarrow> NamespaceStats sql" where
  "GetNamespaceStats name =
     wrap ''query namespace stats'' (query (\<lambda>d.
       \<lparr>nst_TargetCount = sql_count (\<lambda>r. t_Namespace r = name) (db_targets d),
        nst_PollerCount = sql_count (\<lambda>r. p_Namespace r = name) (db_pollers d),
        nst_PollersRunning =
          sql_count (\<lambda>r. sr_Namespace r = name \<and> sr_OperState r = ''running'') (db_states d),
        nst_PollersUp =
          sql_count (\<lambda>r. sr_Namespace r = name \<and> sr_HealthState r = ''up'') (db_states d),
        nst_PollersDown =
          sql_count (\<lambda>r. sr_Namespace r = name \<and> sr_HealthState r = ''down'') (db_states d),
        nst_TreeNodeCount = sql_count (\<lambda>r. tn_Namespace r = name) (db_tree d)\<rparr>))"

section \<open>Targets\<close>

definition read_Target :: "Target \<Rightarrow> Target" where
  "read_Target r = r\<lparr>t_Config := Some (case t_Config r of
     None \<Rightarrow> \<lparr>tc_Defaults = None\<rparr> | Some c \<Rightarrow> c)\<rparr>"

definition CreateTarget :: "int \<Rightarrow> int \<Rightarrow> Target \<Rightarrow> Target sql" where
  "CreateTarget now now' t =
     bnd (wrap ''insert target'' (stmt (\<lambda>d.
       case sql_insert target_key
              (t\<lparr>t_CreatedAt := now, t_UpdatedAt := now, t_Version := 1\<rparr>) (db_targets d) of
         Inl e \<Rightarrow> Inl e
       | Inr rows \<Rightarrow> Inr ((), d\<lparr>db_targets := rows\<rparr>))))
     (\<lambda>_. ret (t\<lparr>t_Version := 1, t_CreatedAt := now', t_UpdatedAt := now'\<rparr>))"

definition GetTarget :: "string \<Rightarrow> string \<Rightarrow> Target option sql" where
  "GetTarget namespace name =
     wrap ''query target'' (query (\<lambda>d.
       map_option read_Target (sql_first (\<lambda>r. target_key r = (namespace, name)) (db_targets d))))"

definition ListTargets :: "string \<Rightarrow> Target list sql" where
  "ListTargets namespace =
     wrap ''query targets'' (query (\<lambda>d.
       map read_Target (sort_key t_Name (filter (\<lambda>r. t_Namespace r = namespace) (db_targets d)))))"

text \<open>
  The filters, the cursor, the order and one row more than the page; then the page and the next
  cursor. \<open>json_extract_string(labels, '$.k') = v\<close> is \<open>labels[k] = v\<close>, for a key that is a plain
  name.
\<close>

definition filtered_rows :: "string \<Rightarrow> (string, string) gomap \<Rightarrow> string \<Rightarrow> Target list \<Rightarrow> Target list" where
  "filtered_rows namespace labels cursor rows =
     sort_key t_Name (filter (\<lambda>r. t_Namespace r = namespace \<and>
       (\<forall>(k, v) \<in> set labels. map_of (t_Labels r) k = Some v) \<and>
       (cursor = [] \<or> t_Name r > cursor)) rows)"

definition page_of :: "nat \<Rightarrow> Target list \<Rightarrow> Target list \<times> string" where
  "page_of limit rows =
     (let targets = (if limit > 0 then take (limit + 1) rows else rows) in
      if limit > 0 \<and> length targets > limit
      then (let page = take limit targets in (page, t_Name (last page)))
      else (targets, []))"

definition ListTargetsFiltered ::
    "string \<Rightarrow> (string, string) gomap \<Rightarrow> nat \<Rightarrow> string \<Rightarrow> (Target list \<times> string) sql" where
  "ListTargetsFiltered namespace labels limit cursor =
     wrap ''query targets'' (query (\<lambda>d.
       page_of limit (map read_Target (filtered_rows namespace labels cursor (db_targets d)))))"

definition UpdateTarget :: "int \<Rightarrow> int \<Rightarrow> Target \<Rightarrow> Target sql" where
  "UpdateTarget now now' t =
     bnd (wrap ''update target'' (stmt (\<lambda>d.
       let P = (\<lambda>r. t_Namespace r = t_Namespace t \<and> t_Name r = t_Name t \<and> t_Version r = t_Version t) in
       Inr (sql_count P (db_targets d),
            d\<lparr>db_targets := sql_update P
                (\<lambda>r. r\<lparr>t_Description := t_Description t, t_Labels := t_Labels t,
                       t_Config := t_Config t, t_UpdatedAt := now,
                       t_Version := t_Version r + 1\<rparr>) (db_targets d)\<rparr>))))
     (\<lambda>rows. check_rows rows (t\<lparr>t_Version := t_Version t + 1, t_UpdatedAt := now'\<rparr>))"

text \<open>The links to a target or to one of its pollers, as the statements select them.\<close>

definition links_to_target :: "string \<Rightarrow> string \<Rightarrow> TreeNode \<Rightarrow> bool" where
  "links_to_target namespace name n \<longleftrightarrow> tn_Namespace n = namespace \<and>
     (case tn_LinkRef n of None \<Rightarrow> False
      | Some r \<Rightarrow> r = ''target:'' @ name \<or> sql_like r (''poller:'' @ name @ ''/%''))"

definition DeleteTarget :: "string \<Rightarrow> string \<Rightarrow> bool \<Rightarrow> (nat \<times> nat) sql" where
  "DeleteTarget namespace name force =
     bnd (wrap ''count pollers'' (query (\<lambda>d.
       sql_count (\<lambda>r. p_Namespace r = namespace \<and> p_Target r = name) (db_pollers d))))
     (\<lambda>pollerCount.
       if pollerCount > 0 \<and> \<not> force
       then fail (Errorf (''target has '' @ show_nat pollerCount @ '' pollers (use force to delete)''))
       else Transaction (
         bnd (query (\<lambda>d. sql_count (links_to_target namespace name) (db_tree d))) (\<lambda>linksDeleted.
         bnd (exec (\<lambda>d. d\<lparr>db_samples :=
           sql_delete (\<lambda>r. sa_Namespace r = namespace \<and> sa_Target r = name) (db_samples d)\<rparr>)) (\<lambda>_.
         bnd (exec (\<lambda>d. d\<lparr>db_states :=
           sql_delete (\<lambda>r. sr_Namespace r = namespace \<and> sr_Target r = name) (db_states d)\<rparr>)) (\<lambda>_.
         bnd (exec (\<lambda>d. d\<lparr>db_stats :=
           sql_delete (\<lambda>r. tr_Namespace r = namespace \<and> tr_Target r = name) (db_stats d)\<rparr>)) (\<lambda>_.
         bnd (exec (\<lambda>d. d\<lparr>db_pollers :=
           sql_delete (\<lambda>r. p_Namespace r = namespace \<and> p_Target r = name) (db_pollers d)\<rparr>)) (\<lambda>_.
         bnd (exec (\<lambda>d. d\<lparr>db_tree :=
           sql_delete (links_to_target namespace name) (db_tree d)\<rparr>)) (\<lambda>_.
         bnd (exec (\<lambda>d. d\<lparr>db_targets :=
           sql_delete (\<lambda>r. t_Namespace r = namespace \<and> t_Name r = name) (db_targets d)\<rparr>)) (\<lambda>_.
         ret (pollerCount, linksDeleted))))))))))"

definition TargetExists :: "string \<Rightarrow> string \<Rightarrow> bool sql" where
  "TargetExists namespace name =
     query (\<lambda>d. sql_count (\<lambda>r. t_Namespace r = namespace \<and> t_Name r = name) (db_targets d) > 0)"

record TargetStats =
  tst_PollerCount :: nat
  tst_PollersRunning :: nat
  tst_PollersUp :: nat
  tst_PollersDown :: nat
  tst_PollsTotal :: int
  tst_PollsSuccess :: int
  tst_PollsFailed :: int

definition GetTargetStats :: "string \<Rightarrow> string \<Rightarrow> TargetStats sql" where
  "GetTargetStats namespace name =
     bnd (query (\<lambda>d. sql_count (\<lambda>r. p_Namespace r = namespace \<and> p_Target r = name) (db_pollers d))) (\<lambda>pollers.
     bnd (query (\<lambda>d. sql_count (\<lambda>r. sr_Namespace r = namespace \<and> sr_Target r = name \<and>
                                   sr_OperState r = ''running'') (db_states d))) (\<lambda>running.
     bnd (query (\<lambda>d. sql_count (\<lambda>r. sr_Namespace r = namespace \<and> sr_Target r = name \<and>
                                   sr_HealthState r = ''up'') (db_states d))) (\<lambda>up.
     bnd (query (\<lambda>d. sql_count (\<lambda>r. sr_Namespace r = namespace \<and> sr_Target r = name \<and>
                                   sr_HealthState r = ''down'') (db_states d))) (\<lambda>down.
     bnd (query (\<lambda>d. let rows = filter (\<lambda>r. tr_Namespace r = namespace \<and> tr_Target r = name) (db_stats d) in
                     (\<Sum>r\<leftarrow>rows. tr_PollsTotal r, \<Sum>r\<leftarrow>rows. tr_PollsSuccess r, \<Sum>r\<leftarrow>rows. tr_PollsFailed r)))
       (\<lambda>(polls, success, failed).
     ret \<lparr>tst_PollerCount = pollers, tst_PollersRunning = running, tst_PollersUp = up,
          tst_PollersDown = down, tst_PollsTotal = polls, tst_PollsSuccess = success,
          tst_PollsFailed = failed\<rparr>)))))"

section \<open>Pollers\<close>

definition read_Poller :: "Poller \<Rightarrow> Poller" where
  "read_Poller r = r\<lparr>p_PollingConfig := Some (case p_PollingConfig r of
     None \<Rightarrow> \<lparr>pc_IntervalMs = None, pc_TimeoutMs = None, pc_Retries = None, pc_BufferSize = None\<rparr>
   | Some c \<Rightarrow> c)\<rparr>"

definition CreatePoller :: "int \<Rightarrow> Poller \<Rightarrow> Poller sql" where
  "CreatePoller now p =
     bnd (Transaction (
       bnd (wrap ''insert poller'' (stmt (\<lambda>d.
         case sql_insert poller_key
                (p\<lparr>p_CreatedAt := now, p_UpdatedAt := now, p_Version := 1\<rparr>) (db_pollers d) of
           Inl e \<Rightarrow> Inl e | Inr rows \<Rightarrow> Inr ((), d\<lparr>db_pollers := rows\<rparr>)))) (\<lambda>_.
       bnd (wrap ''insert poller state'' (stmt (\<lambda>d.
         case sql_insert state_row_key
                \<lparr>sr_Namespace = p_Namespace p, sr_Target = p_Target p, sr_Poller = p_Name p,
                 sr_OperState = ''stopped'', sr_HealthState = ''unknown'', sr_LastError = [],
                 sr_ConsecutiveFailures = 0, sr_LastPollAt = None, sr_LastSuccessAt = None,
                 sr_LastFailureAt = None\<rparr> (db_states d) of
           Inl e \<Rightarrow> Inl e | Inr rows \<Rightarrow> Inr ((), d\<lparr>db_states := rows\<rparr>)))) (\<lambda>_.
       wrap ''insert poller stats'' (stmt (\<lambda>d.
         case sql_insert stats_row_key
                \<lparr>tr_Namespace = p_Namespace p, tr_Target = p_Target p, tr_Poller = p_Name p,
                 tr_PollsTotal = 0, tr_PollsSuccess = 0, tr_PollsFailed = 0, tr_PollsTimeout = 0,
                 tr_PollMsSum = 0, tr_PollMsMin = None, tr_PollMsMax = None, tr_PollMsCount = 0\<rparr>
                (db_stats d) of
           Inl e \<Rightarrow> Inl e | Inr rows \<Rightarrow> Inr ((), d\<lparr>db_stats := rows\<rparr>)))))))
     (\<lambda>_. ret (p\<lparr>p_Version := 1, p_CreatedAt := now, p_UpdatedAt := now\<rparr>))"

definition GetPoller :: "string \<Rightarrow> string \<Rightarrow> string \<Rightarrow> Poller option sql" where
  "GetPoller namespace target name =
     wrap ''query poller'' (query (\<lambda>d.
       map_option read_Poller
         (sql_first (\<lambda>r. poller_key r = (namespace, target, name)) (db_pollers d))))"

definition ListPollers :: "string \<Rightarrow> string \<Rightarrow> Poller list sql" where
  "ListPollers namespace target =
     wrap ''query pollers'' (query (\<lambda>d.
       map read_Poller (sort_key p_Name
         (filter (\<lambda>r. p_Namespace r = namespace \<and> p_Target r = target) (db_pollers d)))))"

definition ListPollersInNamespace :: "string \<Rightarrow> Poller list sql" where
  "ListPollersInNamespace namespace =
     wrap ''query pollers'' (query (\<lambda>d.
       map read_Poller (sort_key p_Target (sort_key p_Name
         (filter (\<lambda>r. p_Namespace r = namespace) (db_pollers d))))))"

definition ListAllPollers :: "Poller list sql" where
  "ListAllPollers =
     wrap ''query pollers'' (query (\<lambda>d.
       map read_Poller (sort_key p_Namespace (sort_key p_Target (sort_key p_Name (db_pollers d))))))"

definition UpdatePoller :: "int \<Rightarrow> int \<Rightarrow> Poller \<Rightarrow> Poller sql" where
  "UpdatePoller now now' p =
     bnd (wrap ''update poller'' (stmt (\<lambda>d.
       let P = (\<lambda>r. poller_key r = poller_key p \<and> p_Version r = p_Version p) in
       Inr (sql_count P (db_pollers d),
            d\<lparr>db_pollers := sql_update P
                (\<lambda>r. r\<lparr>p_Description := p_Description p, p_ProtocolConfig := p_ProtocolConfig p,
                       p_PollingConfig := p_PollingConfig p, p_AdminState := p_AdminState p,
                       p_UpdatedAt := now, p_Version := p_Version r + 1\<rparr>) (db_pollers d)\<rparr>))))
     (\<lambda>rows. check_rows rows (p\<lparr>p_Version := p_Version p + 1, p_UpdatedAt := now'\<rparr>))"

definition UpdatePollerAdminState :: "int \<Rightarrow> string \<Rightarrow> string \<Rightarrow> string \<Rightarrow> string \<Rightarrow> unit sql" where
  "UpdatePollerAdminState now namespace target name adminState =
     exec (\<lambda>d. d\<lparr>db_pollers := sql_update (\<lambda>r. poller_key r = (namespace, target, name))
       (\<lambda>r. r\<lparr>p_AdminState := adminState, p_UpdatedAt := now\<rparr>) (db_pollers d)\<rparr>)"

text \<open>\<open>fmt.Sprintf("poller:%s/%s", target, name)\<close>.\<close>

definition poller_ref :: "string \<Rightarrow> string \<Rightarrow> string" where
  "poller_ref target name = ''poller:'' @ target @ ''/'' @ name"

definition DeletePoller :: "string \<Rightarrow> string \<Rightarrow> string \<Rightarrow> nat sql" where
  "DeletePoller namespace target name =
     Transaction (
       bnd (query (\<lambda>d. sql_count (\<lambda>n. tn_Namespace n = namespace \<and>
         tn_LinkRef n = Some (poller_ref target name)) (db_tree d))) (\<lambda>linksDeleted.
       bnd (exec (\<lambda>d. d\<lparr>db_samples := sql_delete (\<lambda>r. sa_Namespace r = namespace \<and>
         sa_Target r = target \<and> sa_Poller r = name) (db_samples d)\<rparr>)) (\<lambda>_.
       bnd (exec (\<lambda>d. d\<lparr>db_states := sql_delete
         (\<lambda>r. state_row_key r = (namespace, target, name)) (db_states d)\<rparr>)) (\<lambda>_.
       bnd (exec (\<lambda>d. d\<lparr>db_stats := sql_delete
         (\<lambda>r. stats_row_key r = (namespace, target, name)) (db_stats d)\<rparr>)) (\<lambda>_.
       bnd (exec (\<lambda>d. d\<lparr>db_tree := sql_delete (\<lambda>n. tn_Namespace n = namespace \<and>
         tn_LinkRef n = Some (poller_ref target name)) (db_tree d)\<rparr>)) (\<lambda>_.
       bnd (exec (\<lambda>d. d\<lparr>db_pollers := sql_delete
         (\<lambda>r. poller_key r = (namespace, target, name)) (db_pollers d)\<rparr>)) (\<lambda>_.
       ret linksDeleted)))))))"

definition PollerExists :: "string \<Rightarrow> string \<Rightarrow> string \<Rightarrow> bool sql" where
  "PollerExists namespace target name =
     query (\<lambda>d. sql_count (\<lambda>r. poller_key r = (namespace, target, name)) (db_pollers d) > 0)"

definition GetPollerState :: "string \<Rightarrow> string \<Rightarrow> string \<Rightarrow> StateRow option sql" where
  "GetPollerState namespace target poller =
     wrap ''query poller state'' (query (\<lambda>d.
       sql_first (\<lambda>r. state_row_key r = (namespace, target, poller)) (db_states d)))"

definition put_state :: "StateRow \<Rightarrow> DB \<Rightarrow> DB" where
  "put_state st d = d\<lparr>db_states := sql_update (\<lambda>r. state_row_key r = state_row_key st)
     (\<lambda>r. r\<lparr>sr_OperState := sr_OperState st, sr_HealthState := sr_HealthState st,
            sr_LastError := sr_LastError st, sr_ConsecutiveFailures := sr_ConsecutiveFailures st,
            sr_LastPollAt := sr_LastPollAt st, sr_LastSuccessAt := sr_LastSuccessAt st,
            sr_LastFailureAt := sr_LastFailureAt st\<rparr>) (db_states d)\<rparr>"

definition UpdatePollerState :: "StateRow \<Rightarrow> unit sql" where
  "UpdatePollerState st = exec (put_state st)"

text \<open>The prepared statement is a round trip to the engine too.\<close>

definition BatchUpdatePollerStates :: "StateRow list \<Rightarrow> unit sql" where
  "BatchUpdatePollerStates states =
     (if states = [] then ret ()
      else Transaction (bnd (exec (\<lambda>d. d)) (\<lambda>_. each (\<lambda>st. exec (put_state st)) states)))"

definition GetPollerStats :: "string \<Rightarrow> string \<Rightarrow> string \<Rightarrow> StatsRow option sql" where
  "GetPollerStats namespace target poller =
     wrap ''query poller stats'' (query (\<lambda>d.
       sql_first (\<lambda>r. stats_row_key r = (namespace, target, poller)) (db_stats d)))"

definition put_stats :: "StatsRow \<Rightarrow> DB \<Rightarrow> DB" where
  "put_stats st d = d\<lparr>db_stats := sql_update (\<lambda>r. stats_row_key r = stats_row_key st)
     (\<lambda>r. r\<lparr>tr_PollsTotal := tr_PollsTotal st, tr_PollsSuccess := tr_PollsSuccess st,
            tr_PollsFailed := tr_PollsFailed st, tr_PollsTimeout := tr_PollsTimeout st,
            tr_PollMsSum := tr_PollMsSum st, tr_PollMsMin := tr_PollMsMin st,
            tr_PollMsMax := tr_PollMsMax st, tr_PollMsCount := tr_PollMsCount st\<rparr>) (db_stats d)\<rparr>"

definition UpdatePollerStats :: "StatsRow \<Rightarrow> unit sql" where
  "UpdatePollerStats st = exec (put_stats st)"

definition BatchUpdatePollerStats :: "StatsRow list \<Rightarrow> unit sql" where
  "BatchUpdatePollerStats statsList =
     (if statsList = [] then ret ()
      else Transaction (bnd (exec (\<lambda>d. d)) (\<lambda>_. each (\<lambda>st. exec (put_stats st)) statsList)))"

section \<open>The tables stay well formed\<close>

text \<open>
  Primary keys are unique, and a poller has its state row and its stats row and conversely.
\<close>

definition db_ok :: "DB \<Rightarrow> bool" where
  "db_ok d \<longleftrightarrow>
     distinct (map ns_Name (db_namespaces d)) \<and> distinct (map target_key (db_targets d)) \<and>
     distinct (map poller_key (db_pollers d)) \<and> distinct (map state_row_key (db_states d)) \<and>
     distinct (map stats_row_key (db_stats d)) \<and>
     state_row_key ` set (db_states d) = poller_key ` set (db_pollers d) \<and>
     stats_row_key ` set (db_stats d) = poller_key ` set (db_pollers d)"

lemma db_ok_empty [simp]: "db_ok empty_db"
  by (simp add: db_ok_def empty_db_def)

text \<open>A method whose failures change nothing keeps an invariant its successes keep.\<close>

lemma keepsI:
  assumes "safe m" "runs m (\<lambda>d x d'. J d \<longrightarrow> J d')"
  shows "keeps J m"
proof -
  have "J (st_db (snd (m s)))" if "J (st_db s)" for s
    using that safeD [OF assms(1)] runsD [OF assms(2)] by (cases "m s", cases "fst (m s)") auto
  then show ?thesis by (simp add: keeps_def)
qed

text \<open>What each writing method does to the tables when it succeeds.\<close>

lemma runs_insert:
  "runs (bnd (wrap w (stmt (\<lambda>d. case sql_insert key row (get d) of
       Inl e \<Rightarrow> Inl e | Inr rows \<Rightarrow> Inr ((), put rows d)))) (\<lambda>_. ret x))
     (\<lambda>d y d'. y = x \<and> key row \<notin> key ` set (get d) \<and> d' = put (get d @ [row]) d)"
  by (auto simp: runs_def bnd_def wrap_def stmt_def ret_def sql_insert_def
      split: option.splits sum.splits if_splits)

lemma runs_CreateNamespace:
  "runs (CreateNamespace now now' ns) (\<lambda>d x d'.
     x = ns\<lparr>ns_Version := 1, ns_CreatedAt := now', ns_UpdatedAt := now'\<rparr> \<and>
     ns_Name ns \<notin> ns_Name ` set (db_namespaces d) \<and>
     d' = d\<lparr>db_namespaces := db_namespaces d @
            [ns\<lparr>ns_CreatedAt := now, ns_UpdatedAt := now, ns_Version := 1\<rparr>]\<rparr>)"
  unfolding CreateNamespace_def
  by (rule runs_mono [OF runs_insert [where put = "\<lambda>rows d. d\<lparr>db_namespaces := rows\<rparr>"]]) simp

lemma runs_CreateTarget:
  "runs (CreateTarget now now' t) (\<lambda>d x d'.
     x = t\<lparr>t_Version := 1, t_CreatedAt := now', t_UpdatedAt := now'\<rparr> \<and>
     target_key t \<notin> target_key ` set (db_targets d) \<and>
     d' = d\<lparr>db_targets := db_targets d @
            [t\<lparr>t_CreatedAt := now, t_UpdatedAt := now, t_Version := 1\<rparr>]\<rparr>)"
  unfolding CreateTarget_def
  by (rule runs_mono [OF runs_insert [where put = "\<lambda>rows d. d\<lparr>db_targets := rows\<rparr>"]]) simp

definition fresh_state :: "Poller \<Rightarrow> StateRow" where
  "fresh_state p = \<lparr>sr_Namespace = p_Namespace p, sr_Target = p_Target p, sr_Poller = p_Name p,
     sr_OperState = ''stopped'', sr_HealthState = ''unknown'', sr_LastError = [],
     sr_ConsecutiveFailures = 0, sr_LastPollAt = None, sr_LastSuccessAt = None,
     sr_LastFailureAt = None\<rparr>"

definition fresh_stats :: "Poller \<Rightarrow> StatsRow" where
  "fresh_stats p = \<lparr>tr_Namespace = p_Namespace p, tr_Target = p_Target p, tr_Poller = p_Name p,
     tr_PollsTotal = 0, tr_PollsSuccess = 0, tr_PollsFailed = 0, tr_PollsTimeout = 0,
     tr_PollMsSum = 0, tr_PollMsMin = None, tr_PollMsMax = None, tr_PollMsCount = 0\<rparr>"

lemma fresh_keys [simp]: "state_row_key (fresh_state p) = poller_key p"
  "stats_row_key (fresh_stats p) = poller_key p"
  by (simp_all add: fresh_state_def fresh_stats_def)

lemma runs_insert_only:
  "runs (wrap w (stmt (\<lambda>d. case sql_insert key row (get d) of
       Inl e \<Rightarrow> Inl e | Inr rows \<Rightarrow> Inr ((), put rows d))))
     (\<lambda>d y d'. key row \<notin> key ` set (get d) \<and> d' = put (get d @ [row]) d)"
  by (auto simp: runs_def wrap_def stmt_def sql_insert_def split: option.splits sum.splits if_splits)

lemma runs_CreatePoller:
  "runs (CreatePoller now p) (\<lambda>d x d'.
     x = p\<lparr>p_Version := 1, p_CreatedAt := now, p_UpdatedAt := now\<rparr> \<and>
     poller_key p \<notin> poller_key ` set (db_pollers d) \<and>
     poller_key p \<notin> state_row_key ` set (db_states d) \<and>
     poller_key p \<notin> stats_row_key ` set (db_stats d) \<and>
     d' = d\<lparr>db_pollers := db_pollers d @
              [p\<lparr>p_CreatedAt := now, p_UpdatedAt := now, p_Version := 1\<rparr>],
            db_states := db_states d @ [fresh_state p],
            db_stats := db_stats d @ [fresh_stats p]\<rparr>)"
proof -
  note a = runs_insert_only [where put = "\<lambda>rows d. d\<lparr>db_pollers := rows\<rparr>"]
    and b = runs_insert_only [where put = "\<lambda>rows d. d\<lparr>db_states := rows\<rparr>"]
    and c = runs_insert_only [where put = "\<lambda>rows d. d\<lparr>db_stats := rows\<rparr>"]
  show ?thesis
    unfolding CreatePoller_def fresh_state_def [symmetric] fresh_stats_def [symmetric]
    by (rule runs_mono [OF runs_bnd [OF runs_Transaction [OF runs_bnd [OF a runs_bnd [OF b c]]] runs_ret]])
       auto
qed

lemma runs_update:
  "runs (bnd (wrap w (stmt (\<lambda>d. Inr (f d, g d)))) (\<lambda>rows. check_rows rows x))
     (\<lambda>d y d'. y = x \<and> f d \<noteq> 0 \<and> d' = g d)"
  by (auto simp: runs_def bnd_def wrap_def stmt_def check_rows_def ret_def fail_def
      split: option.splits sum.splits if_splits)

definition ns_current :: "Namespace \<Rightarrow> Namespace \<Rightarrow> bool" where
  "ns_current ns r \<longleftrightarrow> ns_Name r = ns_Name ns \<and> ns_Version r = ns_Version ns"

definition t_current :: "Target \<Rightarrow> Target \<Rightarrow> bool" where
  "t_current t r \<longleftrightarrow> t_Namespace r = t_Namespace t \<and> t_Name r = t_Name t \<and> t_Version r = t_Version t"

definition p_current :: "Poller \<Rightarrow> Poller \<Rightarrow> bool" where
  "p_current p r \<longleftrightarrow> poller_key r = poller_key p \<and> p_Version r = p_Version p"

definition ns_write :: "int \<Rightarrow> Namespace \<Rightarrow> Namespace \<Rightarrow> Namespace" where
  "ns_write now ns r = r\<lparr>ns_Description := ns_Description ns, ns_Config := ns_Config ns,
     ns_UpdatedAt := now, ns_Version := ns_Version r + 1\<rparr>"

definition t_write :: "int \<Rightarrow> Target \<Rightarrow> Target \<Rightarrow> Target" where
  "t_write now t r = r\<lparr>t_Description := t_Description t, t_Labels := t_Labels t,
     t_Config := t_Config t, t_UpdatedAt := now, t_Version := t_Version r + 1\<rparr>"

definition p_write :: "int \<Rightarrow> Poller \<Rightarrow> Poller \<Rightarrow> Poller" where
  "p_write now p r = r\<lparr>p_Description := p_Description p, p_ProtocolConfig := p_ProtocolConfig p,
     p_PollingConfig := p_PollingConfig p, p_AdminState := p_AdminState p, p_UpdatedAt := now,
     p_Version := p_Version r + 1\<rparr>"

lemma write_keys [simp]:
  "ns_Name (ns_write now ns r) = ns_Name r" "ns_Version (ns_write now ns r) = ns_Version r + 1"
  "t_Namespace (t_write now t q) = t_Namespace q" "t_Name (t_write now t q) = t_Name q"
  "t_Version (t_write now t q) = t_Version q + 1"
  "p_Namespace (p_write now p w) = p_Namespace w" "p_Target (p_write now p w) = p_Target w"
  "p_Name (p_write now p w) = p_Name w" "p_Version (p_write now p w) = p_Version w + 1"
  by (simp_all add: ns_write_def t_write_def p_write_def)

lemma runs_UpdateNamespace:
  "runs (UpdateNamespace now now' ns) (\<lambda>d x d'.
     x = ns\<lparr>ns_Version := ns_Version ns + 1, ns_UpdatedAt := now'\<rparr> \<and>
     sql_count (ns_current ns) (db_namespaces d) \<noteq> 0 \<and>
     d' = d\<lparr>db_namespaces := sql_update (ns_current ns) (ns_write now ns) (db_namespaces d)\<rparr>)"
  unfolding UpdateNamespace_def Let_def ns_current_def [abs_def] ns_write_def [abs_def]
  by (rule runs_update)

lemma runs_UpdateTarget:
  "runs (UpdateTarget now now' t) (\<lambda>d x d'.
     x = t\<lparr>t_Version := t_Version t + 1, t_UpdatedAt := now'\<rparr> \<and>
     sql_count (t_current t) (db_targets d) \<noteq> 0 \<and>
     d' = d\<lparr>db_targets := sql_update (t_current t) (t_write now t) (db_targets d)\<rparr>)"
  unfolding UpdateTarget_def Let_def t_current_def [abs_def] t_write_def [abs_def]
  by (rule runs_update)

lemma runs_UpdatePoller:
  "runs (UpdatePoller now now' p) (\<lambda>d x d'.
     x = p\<lparr>p_Version := p_Version p + 1, p_UpdatedAt := now'\<rparr> \<and>
     sql_count (p_current p) (db_pollers d) \<noteq> 0 \<and>
     d' = d\<lparr>db_pollers := sql_update (p_current p) (p_write now p) (db_pollers d)\<rparr>)"
  unfolding UpdatePoller_def Let_def p_current_def [abs_def] p_write_def [abs_def]
  by (rule runs_update)

text \<open>What is left of the tables after the deletes.\<close>

definition without_namespace :: "string \<Rightarrow> DB \<Rightarrow> DB" where
  "without_namespace name d = d\<lparr>
     db_samples := sql_delete (\<lambda>r. sa_Namespace r = name) (db_samples d),
     db_states := sql_delete (\<lambda>r. sr_Namespace r = name) (db_states d),
     db_stats := sql_delete (\<lambda>r. tr_Namespace r = name) (db_stats d),
     db_pollers := sql_delete (\<lambda>r. p_Namespace r = name) (db_pollers d),
     db_tree := sql_delete (\<lambda>r. tn_Namespace r = name) (db_tree d),
     db_secrets := sql_delete (\<lambda>r. se_Namespace r = name) (db_secrets d),
     db_targets := sql_delete (\<lambda>r. t_Namespace r = name) (db_targets d),
     db_namespaces := sql_delete (\<lambda>r. ns_Name r = name) (db_namespaces d)\<rparr>"

definition without_target :: "string \<Rightarrow> string \<Rightarrow> DB \<Rightarrow> DB" where
  "without_target namespace name d = d\<lparr>
     db_samples := sql_delete (\<lambda>r. sa_Namespace r = namespace \<and> sa_Target r = name) (db_samples d),
     db_states := sql_delete (\<lambda>r. sr_Namespace r = namespace \<and> sr_Target r = name) (db_states d),
     db_stats := sql_delete (\<lambda>r. tr_Namespace r = namespace \<and> tr_Target r = name) (db_stats d),
     db_pollers := sql_delete (\<lambda>r. p_Namespace r = namespace \<and> p_Target r = name) (db_pollers d),
     db_tree := sql_delete (links_to_target namespace name) (db_tree d),
     db_targets := sql_delete (\<lambda>r. t_Namespace r = namespace \<and> t_Name r = name) (db_targets d)\<rparr>"

definition without_poller :: "string \<Rightarrow> string \<Rightarrow> string \<Rightarrow> DB \<Rightarrow> DB" where
  "without_poller namespace target name d = d\<lparr>
     db_samples := sql_delete (\<lambda>r. sa_Namespace r = namespace \<and> sa_Target r = target \<and>
       sa_Poller r = name) (db_samples d),
     db_states := sql_delete (\<lambda>r. state_row_key r = (namespace, target, name)) (db_states d),
     db_stats := sql_delete (\<lambda>r. stats_row_key r = (namespace, target, name)) (db_stats d),
     db_tree := sql_delete (\<lambda>n. tn_Namespace n = namespace \<and>
       tn_LinkRef n = Some (poller_ref target name)) (db_tree d),
     db_pollers := sql_delete (\<lambda>r. poller_key r = (namespace, target, name)) (db_pollers d)\<rparr>"

lemma runs_exec_bnd: "runs (k ()) P \<Longrightarrow> runs (bnd (exec f) (\<lambda>x. k x)) (\<lambda>d y d''. P (f d) y d'')"
  by (fastforce simp: runs_def bnd_def exec_def stmt_def split: option.splits)

lemma runs_query_bnd:
  "(\<And>x. runs (k x) (P x)) \<Longrightarrow> runs (bnd (query f) (\<lambda>x. k x)) (\<lambda>d y d''. P (f d) d y d'')"
  by (fastforce simp: runs_def bnd_def query_def stmt_def split: option.splits)

lemma runs_wrap_query_bnd:
  "(\<And>x. runs (k x) (P x)) \<Longrightarrow> runs (bnd (wrap w (query f)) (\<lambda>x. k x)) (\<lambda>d y d''. P (f d) d y d'')"
  by (fastforce simp: runs_def bnd_def wrap_def query_def stmt_def split: option.splits)

lemma runs_if_fail: "(\<not> c \<Longrightarrow> runs m P) \<Longrightarrow> runs (if c then fail e else m) (\<lambda>d y d'. \<not> c \<and> P d y d')"
  by (simp add: runs_def fail_def)

lemma runs_DeleteNamespace:
  "runs (DeleteNamespace name force) (\<lambda>d x d'.
     x = (sql_count (\<lambda>r. t_Namespace r = name) (db_targets d),
          sql_count (\<lambda>r. p_Namespace r = name) (db_pollers d)) \<and>
     (sql_count (\<lambda>r. t_Namespace r = name) (db_targets d) > 0 \<longrightarrow> force) \<and>
     d' = without_namespace name d)"
  unfolding DeleteNamespace_def
  by (rule runs_mono [OF runs_wrap_query_bnd [OF runs_if_fail [OF runs_Transaction [OF
        runs_query_bnd [OF runs_bnd [OF runs_each [where g = "\<lambda>q d. q d"] runs_ret]]]]]])
     (auto simp: runs_exec without_namespace_def)

lemma runs_DeleteTarget:
  "runs (DeleteTarget namespace name force) (\<lambda>d x d'.
     x = (sql_count (\<lambda>r. p_Namespace r = namespace \<and> p_Target r = name) (db_pollers d),
          sql_count (links_to_target namespace name) (db_tree d)) \<and>
     (sql_count (\<lambda>r. p_Namespace r = namespace \<and> p_Target r = name) (db_pollers d) > 0 \<longrightarrow> force) \<and>
     d' = without_target namespace name d)"
  unfolding DeleteTarget_def
  by (rule runs_mono [OF runs_wrap_query_bnd [OF runs_if_fail [OF runs_Transaction [OF runs_query_bnd [OF
        runs_exec_bnd [OF runs_exec_bnd [OF runs_exec_bnd [OF runs_exec_bnd [OF runs_exec_bnd [OF
        runs_exec_bnd [OF runs_ret]]]]]]]]]]])
     (auto simp: without_target_def)

lemma runs_DeletePoller:
  "runs (DeletePoller namespace target name) (\<lambda>d x d'.
     x = sql_count (\<lambda>n. tn_Namespace n = namespace \<and> tn_LinkRef n = Some (poller_ref target name)) (db_tree d) \<and>
     d' = without_poller namespace target name d)"
  unfolding DeletePoller_def
  by (rule runs_mono [OF runs_Transaction [OF runs_query_bnd [OF
        runs_exec_bnd [OF runs_exec_bnd [OF runs_exec_bnd [OF runs_exec_bnd [OF runs_exec_bnd [OF
        runs_ret]]]]]]]])
     (auto simp: without_poller_def)

section \<open>A failure changes nothing\<close>

lemma sql_update_none: "sql_count P rows = 0 \<Longrightarrow> sql_update P f rows = rows"
  by (auto simp: sql_count_0 sql_update_def intro: map_idI)

lemma safe_update:
  assumes "\<And>d. f d = 0 \<Longrightarrow> g d = d"
  shows "safe (bnd (wrap w (stmt (\<lambda>d. Inr (f d, g d)))) (\<lambda>rows. check_rows rows x))"
  using assms by (auto simp: safe_def bnd_def wrap_def stmt_def check_rows_def ret_def fail_def
      split: option.splits if_splits)

lemma safe_wrap_query_bnd:
  assumes "\<And>x. safe (k x)"
  shows "safe (bnd (wrap w (query f)) k)"
  using assms
  by (fastforce simp: safe_def bnd_def wrap_def query_def stmt_def split: option.splits sum.splits prod.splits)

lemma safe_if [simp]: "safe (if c then m else m') = (if c then safe m else safe m')"
  by simp

lemma safe_methods [simp]:
  "safe (CreateNamespace now now' ns)" "safe (UpdateNamespace now now' ns)"
  "safe (DeleteNamespace name force)"
  "safe (CreateTarget now now' t)" "safe (UpdateTarget now now' t)"
  "safe (DeleteTarget namespace name force)"
  "safe (CreatePoller now p)" "safe (UpdatePoller now now' p)"
  "safe (UpdatePollerAdminState now namespace target name st)" "safe (DeletePoller namespace target name)"
  "safe (UpdatePollerState sr)" "safe (BatchUpdatePollerStates srs)"
  "safe (UpdatePollerStats tr)" "safe (BatchUpdatePollerStats trs)"
  unfolding CreateNamespace_def UpdateNamespace_def DeleteNamespace_def CreateTarget_def
    UpdateTarget_def DeleteTarget_def CreatePoller_def UpdatePoller_def UpdatePollerAdminState_def
    DeletePoller_def UpdatePollerState_def BatchUpdatePollerStates_def UpdatePollerStats_def
    BatchUpdatePollerStats_def Let_def
  by (simp_all add: safe_bnd_ret safe_update sql_update_none safe_wrap_query_bnd)

section \<open>Every method keeps the tables well formed\<close>

lemma map_eq_image: "map f xs = map g ys \<Longrightarrow> f ` set xs = g ` set ys"
  by (metis list.set_map)

lemma db_ok_keys:
  assumes "db_ok d"
    "map ns_Name (db_namespaces d') = map ns_Name (db_namespaces d)"
    "map target_key (db_targets d') = map target_key (db_targets d)"
    "map poller_key (db_pollers d') = map poller_key (db_pollers d)"
    "map state_row_key (db_states d') = map state_row_key (db_states d)"
    "map stats_row_key (db_stats d') = map stats_row_key (db_stats d)"
  shows "db_ok d'"
proof -
  have "poller_key ` set (db_pollers d') = poller_key ` set (db_pollers d)"
    "state_row_key ` set (db_states d') = state_row_key ` set (db_states d)"
    "stats_row_key ` set (db_stats d') = stats_row_key ` set (db_stats d)"
    by (rule map_eq_image [OF assms(4)], rule map_eq_image [OF assms(5)], rule map_eq_image [OF assms(6)])
  then show ?thesis using assms by (simp add: db_ok_def)
qed

lemma put_state_keys [simp]:
  "map state_row_key (db_states (put_state st d)) = map state_row_key (db_states d)"
  "db_namespaces (put_state st d) = db_namespaces d" "db_targets (put_state st d) = db_targets d"
  "db_pollers (put_state st d) = db_pollers d" "db_stats (put_state st d) = db_stats d"
  by (simp_all add: put_state_def)

lemma put_stats_keys [simp]:
  "map stats_row_key (db_stats (put_stats st d)) = map stats_row_key (db_stats d)"
  "db_namespaces (put_stats st d) = db_namespaces d" "db_targets (put_stats st d) = db_targets d"
  "db_pollers (put_stats st d) = db_pollers d" "db_states (put_stats st d) = db_states d"
  by (simp_all add: put_stats_def)

lemma db_ok_put [simp]: "db_ok d \<Longrightarrow> db_ok (put_state st d)" "db_ok d \<Longrightarrow> db_ok (put_stats sx d)"
  by (erule db_ok_keys, simp_all)+

lemma db_ok_new_poller:
  assumes "db_ok d" "poller_key p \<notin> poller_key ` set (db_pollers d)"
  shows "db_ok (d\<lparr>db_pollers := db_pollers d @ [p\<lparr>p_CreatedAt := c, p_UpdatedAt := u, p_Version := v\<rparr>],
    db_states := db_states d @ [fresh_state p], db_stats := db_stats d @ [fresh_stats p]\<rparr>)"
  using assms by (simp add: db_ok_def)

lemma image_delete:
  assumes "g ` set xs = h ` set ys" "\<And>x. P x = R (g x)" "\<And>y. Q y = R (h y)"
  shows "g ` set (sql_delete P xs) = h ` set (sql_delete Q ys)"
proof -
  have "g ` set (sql_delete P xs) = {z \<in> g ` set xs. \<not> R z}" using assms(2) by auto
  moreover have "h ` set (sql_delete Q ys) = {z \<in> h ` set ys. \<not> R z}" using assms(3) by auto
  ultimately show ?thesis using assms(1) by simp
qed

lemma db_ok_without:
  assumes "db_ok d"
  shows "db_ok (without_namespace name d)" "db_ok (without_target name t d)"
    "db_ok (without_poller name t p d)"
proof -
  have e: "state_row_key ` set (db_states d) = poller_key ` set (db_pollers d)"
    "stats_row_key ` set (db_stats d) = poller_key ` set (db_pollers d)"
    using assms by (simp_all add: db_ok_def)
  have "state_row_key ` set (sql_delete (\<lambda>r. sr_Namespace r = name) (db_states d)) =
      poller_key ` set (sql_delete (\<lambda>r. p_Namespace r = name) (db_pollers d))"
    by (rule image_delete [OF e(1), where R = "\<lambda>(n, t, p). n = name"]) auto
  moreover have "stats_row_key ` set (sql_delete (\<lambda>r. tr_Namespace r = name) (db_stats d)) =
      poller_key ` set (sql_delete (\<lambda>r. p_Namespace r = name) (db_pollers d))"
    by (rule image_delete [OF e(2), where R = "\<lambda>(n, t, p). n = name"]) auto
  ultimately show "db_ok (without_namespace name d)"
    using assms by (simp add: db_ok_def without_namespace_def del: set_sql_delete)
  have "state_row_key ` set (sql_delete (\<lambda>r. sr_Namespace r = name \<and> sr_Target r = t) (db_states d)) =
      poller_key ` set (sql_delete (\<lambda>r. p_Namespace r = name \<and> p_Target r = t) (db_pollers d))"
    by (rule image_delete [OF e(1), where R = "\<lambda>(n, t', p). n = name \<and> t' = t"]) auto
  moreover have "stats_row_key ` set (sql_delete (\<lambda>r. tr_Namespace r = name \<and> tr_Target r = t) (db_stats d)) =
      poller_key ` set (sql_delete (\<lambda>r. p_Namespace r = name \<and> p_Target r = t) (db_pollers d))"
    by (rule image_delete [OF e(2), where R = "\<lambda>(n, t', p). n = name \<and> t' = t"]) auto
  ultimately show "db_ok (without_target name t d)"
    using assms by (simp add: db_ok_def without_target_def del: set_sql_delete)
  have "state_row_key ` set (sql_delete (\<lambda>r. state_row_key r = (name, t, p)) (db_states d)) =
      poller_key ` set (sql_delete (\<lambda>r. poller_key r = (name, t, p)) (db_pollers d))"
    by (rule image_delete [OF e(1), where R = "\<lambda>k. k = (name, t, p)"]) auto
  moreover have "stats_row_key ` set (sql_delete (\<lambda>r. stats_row_key r = (name, t, p)) (db_stats d)) =
      poller_key ` set (sql_delete (\<lambda>r. poller_key r = (name, t, p)) (db_pollers d))"
    by (rule image_delete [OF e(2), where R = "\<lambda>k. k = (name, t, p)"]) auto
  ultimately show "db_ok (without_poller name t p d)"
    using assms by (simp add: db_ok_def without_poller_def del: set_sql_delete)
qed

lemma keeps_updates: "keeps db_ok (UpdateNamespace now now' ns)" "keeps db_ok (UpdateTarget now now' t)"
  "keeps db_ok (UpdatePoller now now' p)"
  by (rule keepsI, simp, rule runs_mono, rule runs_UpdateNamespace, auto elim!: db_ok_keys)
     (rule keepsI, simp, rule runs_mono, rule runs_UpdateTarget, auto elim!: db_ok_keys,
      rule keepsI, simp, rule runs_mono, rule runs_UpdatePoller, auto elim!: db_ok_keys)

lemma keeps_creates: "keeps db_ok (CreateNamespace now now' ns)" "keeps db_ok (CreateTarget now now' t)"
  "keeps db_ok (CreatePoller now p)"
proof -
  show "keeps db_ok (CreateNamespace now now' ns)"
    by (rule keepsI, simp, rule runs_mono [OF runs_CreateNamespace]) (auto simp: db_ok_def)
  show "keeps db_ok (CreateTarget now now' t)"
    by (rule keepsI, simp, rule runs_mono [OF runs_CreateTarget]) (auto simp: db_ok_def)
  show "keeps db_ok (CreatePoller now p)"
    by (rule keepsI, simp, rule runs_mono [OF runs_CreatePoller]) (auto intro: db_ok_new_poller)
qed

lemma keeps_deletes: "keeps db_ok (DeleteNamespace name force)" "keeps db_ok (DeleteTarget name t force)"
  "keeps db_ok (DeletePoller name t p)"
  by (rule keepsI, simp, rule runs_mono [OF runs_DeleteNamespace], simp add: db_ok_without)
     (rule keepsI, simp, rule runs_mono [OF runs_DeleteTarget], simp add: db_ok_without,
      rule keepsI, simp, rule runs_mono [OF runs_DeletePoller], simp add: db_ok_without)

lemma keeps_runtime: "keeps db_ok (UpdatePollerAdminState now name t p a)"
  "keeps db_ok (BatchUpdatePollerStates srs)" "keeps db_ok (BatchUpdatePollerStats trs)"
  "keeps db_ok (UpdatePollerState sr)" "keeps db_ok (UpdatePollerStats tr)"
  unfolding UpdatePollerAdminState_def BatchUpdatePollerStates_def BatchUpdatePollerStats_def
    UpdatePollerState_def UpdatePollerStats_def
  by (auto intro!: keeps_exec keeps_ret keeps_Transaction keeps_bnd keeps_each elim!: db_ok_keys)

section \<open>Properties\<close>


text \<open>C9: \<open>DeleteNamespace\<close> is all or nothing: a failure changes no table; a success leaves no row of
  the namespace in any table, keeps every other row, and returns the numbers of targets and
  pollers it removed, which are zero targets unless forced.\<close>

theorem delete_namespace_all_or_nothing:
  assumes "DeleteNamespace name force s = (r, s')"
  shows "case r of
      Inl e \<Rightarrow> st_db s' = st_db s
    | Inr (targets, pollers) \<Rightarrow>
        targets = length (filter (\<lambda>r. t_Namespace r = name) (db_targets (st_db s))) \<and>
        pollers = length (filter (\<lambda>r. p_Namespace r = name) (db_pollers (st_db s))) \<and>
        (targets > 0 \<longrightarrow> force) \<and>
        db_namespaces (st_db s') = filter (\<lambda>r. ns_Name r \<noteq> name) (db_namespaces (st_db s)) \<and>
        db_targets (st_db s') = filter (\<lambda>r. t_Namespace r \<noteq> name) (db_targets (st_db s)) \<and>
        db_pollers (st_db s') = filter (\<lambda>r. p_Namespace r \<noteq> name) (db_pollers (st_db s)) \<and>
        db_states (st_db s') = filter (\<lambda>r. sr_Namespace r \<noteq> name) (db_states (st_db s)) \<and>
        db_stats (st_db s') = filter (\<lambda>r. tr_Namespace r \<noteq> name) (db_stats (st_db s)) \<and>
        db_samples (st_db s') = filter (\<lambda>r. sa_Namespace r \<noteq> name) (db_samples (st_db s)) \<and>
        db_tree (st_db s') = filter (\<lambda>r. tn_Namespace r \<noteq> name) (db_tree (st_db s)) \<and>
        db_secrets (st_db s') = filter (\<lambda>r. se_Namespace r \<noteq> name) (db_secrets (st_db s))"
proof (cases r)
  case (Inl e)
  then show ?thesis using safeD [of "DeleteNamespace name force"] assms by simp
next
  case (Inr x)
  then show ?thesis
    using runsD [OF runs_DeleteNamespace, of name force s x s'] assms
    by (simp add: without_namespace_def sql_delete_def sql_count_def)
qed

text \<open>A store with one namespace and one target in it, for the witnesses.\<close>

definition ex_ns :: Namespace where
  "ex_ns = \<lparr>ns_Name = ''n'', ns_Description = [], ns_Config = None, ns_CreatedAt = 0,
     ns_UpdatedAt = 0, ns_Version = 0\<rparr>"

definition ex_target :: "string \<Rightarrow> Target" where
  "ex_target name = \<lparr>t_Namespace = ''n'', t_Name = name, t_Description = [], t_Labels = [],
     t_Config = None, t_CreatedAt = 0, t_UpdatedAt = 0, t_Version = 1\<rparr>"

definition ex_store :: Store where
  "ex_store = (open_store (\<lambda>_. None) None)\<lparr>st_db := empty_db
     \<lparr>db_namespaces := [ex_ns], db_targets := [ex_target ''t'']\<rparr>\<rparr>"

lemma delete_namespace_all_or_nothing_witness:
  "db_targets (st_db (snd (DeleteNamespace ''n'' True ex_store))) = [] \<and>
   st_db (snd (DeleteNamespace ''n'' False ex_store)) = st_db ex_store"
proof -
  have r: "fst (DeleteNamespace ''n'' True ex_store) = Inr (1, 0)" by code_simp
  have f: "isl (fst (DeleteNamespace ''n'' False ex_store))" by code_simp
  obtain e where e: "fst (DeleteNamespace ''n'' False ex_store) = Inl e" using f by (auto simp: isl_def)
  have d: "db_targets (st_db ex_store) = [ex_target ''t'']" "t_Namespace (ex_target ''t'') = ''n''"
    by (simp_all add: ex_store_def ex_target_def)
  have t: "DeleteNamespace ''n'' True ex_store = (Inr (1, 0), snd (DeleteNamespace ''n'' True ex_store))"
    unfolding r [symmetric] by (rule prod.collapse [symmetric])
  have u: "DeleteNamespace ''n'' False ex_store = (Inl e, snd (DeleteNamespace ''n'' False ex_store))"
    unfolding e [symmetric] by (rule prod.collapse [symmetric])
  have "db_targets (st_db (snd (DeleteNamespace ''n'' True ex_store))) =
      filter (\<lambda>r. t_Namespace r \<noteq> ''n'') (db_targets (st_db ex_store))"
    using delete_namespace_all_or_nothing [OF t] unfolding sum.case prod.case by blast
  moreover have "st_db (snd (DeleteNamespace ''n'' False ex_store)) = st_db ex_store"
    using delete_namespace_all_or_nothing [OF u] unfolding sum.case .
  ultimately show ?thesis by (simp add: d)
qed

text \<open>Optimistic locking, over any table: once a writer has bumped the version, another one that
  read the same version finds no row to update.\<close>

lemma stale_count:
  assumes d: "distinct (map key rows)" and n: "sql_count (\<lambda>r. key r = k \<and> ver r = v) rows \<noteq> 0"
    and w: "\<And>r. key (wr r) = key r" "\<And>r. ver (wr r) = ver r + (1::int)"
  shows "sql_count (\<lambda>r. key r = k \<and> ver r = v) (sql_update (\<lambda>r. key r = k \<and> ver r = v) wr rows) = 0"
proof -
  from n obtain r where r: "r \<in> set rows" "key r = k" "ver r = v" unfolding sql_count_0 by blast
  have inj: "inj_on key (set rows)" using d by (simp add: distinct_map)
  have "r' = r" if "r' \<in> set rows" "key r' = k" for r'
    by (rule inj_onD [OF inj _ that(1) r(1)]) (simp add: that(2) r(2))
  then have v: "ver r' = v" if "r' \<in> set rows" "key r' = k" for r' using that r(3) by blast
  show ?thesis unfolding sql_count_0
  proof
    fix q assume "q \<in> set (sql_update (\<lambda>r. key r = k \<and> ver r = v) wr rows)"
    then obtain r' where r': "r' \<in> set rows" "q = (if key r' = k \<and> ver r' = v then wr r' else r')"
      by (auto simp: sql_update_def)
    show "\<not> (key q = k \<and> ver q = v)"
    proof (cases "key r' = k")
      case True
      then have "q = wr r'" "ver r' = v" using r' v by simp_all
      then show ?thesis using w(2) [of r'] by simp
    qed (use r' in simp)
  qed
qed

lemma update_none_fails:
  assumes "f (st_db s) = 0" "g (st_db s) = st_db s"
  shows "bnd (wrap w (stmt (\<lambda>d. Inr (f d, g d)))) (\<lambda>rows. check_rows rows x) s =
    (Inl (case st_fault s (st_tick s) of None \<Rightarrow> ErrConcurrentModification
          | Some e \<Rightarrow> Errorf (w @ '': '' @ e)), s\<lparr>st_tick := st_tick s + 1\<rparr>)"
  using assms by (auto simp: bnd_def wrap_def stmt_def check_rows_def fail_def error_msg_def split: option.split)

text \<open>C10: optimistic locking on namespaces, targets and pollers: of two writers that read the same
  version, the second fails and changes nothing, with \<open>ErrConcurrentModification\<close> if the database
  itself works.\<close>

theorem second_writer_fails:
  assumes "db_ok (st_db s)"
  shows "(UpdateNamespace n1 n1' ns s = (Inr ns', s1) \<longrightarrow> ns_Name nb = ns_Name ns \<longrightarrow>
      ns_Version nb = ns_Version ns \<longrightarrow>
      (\<exists>e. UpdateNamespace n2 n2' nb s1 = (Inl e, s1\<lparr>st_tick := st_tick s1 + 1\<rparr>) \<and>
           (st_fault s1 (st_tick s1) = None \<longrightarrow> e = ErrConcurrentModification))) \<and>
    (UpdateTarget n1 n1' t s = (Inr t', s1) \<longrightarrow> target_key tb = target_key t \<longrightarrow>
      t_Version tb = t_Version t \<longrightarrow>
      (\<exists>e. UpdateTarget n2 n2' tb s1 = (Inl e, s1\<lparr>st_tick := st_tick s1 + 1\<rparr>) \<and>
           (st_fault s1 (st_tick s1) = None \<longrightarrow> e = ErrConcurrentModification))) \<and>
    (UpdatePoller n1 n1' p s = (Inr p', s1) \<longrightarrow> poller_key pb = poller_key p \<longrightarrow>
      p_Version pb = p_Version p \<longrightarrow>
      (\<exists>e. UpdatePoller n2 n2' pb s1 = (Inl e, s1\<lparr>st_tick := st_tick s1 + 1\<rparr>) \<and>
           (st_fault s1 (st_tick s1) = None \<longrightarrow> e = ErrConcurrentModification)))"
proof (intro conjI impI)
  assume u: "UpdateNamespace n1 n1' ns s = (Inr ns', s1)" and k: "ns_Name nb = ns_Name ns"
    "ns_Version nb = ns_Version ns"
  have z: "sql_count (\<lambda>r. ns_Name r = ns_Name nb \<and> ns_Version r = ns_Version nb) (db_namespaces (st_db s1)) = 0"
    using runsD [OF runs_UpdateNamespace u] assms k
      stale_count [of ns_Name "db_namespaces (st_db s)" "ns_Name ns" ns_Version "ns_Version ns" "ns_write n1 ns"]
    by (simp add: db_ok_def ns_current_def [abs_def])
  show "\<exists>e. UpdateNamespace n2 n2' nb s1 = (Inl e, s1\<lparr>st_tick := st_tick s1 + 1\<rparr>) \<and>
      (st_fault s1 (st_tick s1) = None \<longrightarrow> e = ErrConcurrentModification)"
    unfolding UpdateNamespace_def Let_def
    by (subst update_none_fails) (simp_all add: z sql_update_none)
next
  assume u: "UpdateTarget n1 n1' t s = (Inr t', s1)" and k: "target_key tb = target_key t"
    "t_Version tb = t_Version t"
  have z: "sql_count (\<lambda>r. t_Namespace r = t_Namespace tb \<and> t_Name r = t_Name tb \<and>
      t_Version r = t_Version tb) (db_targets (st_db s1)) = 0"
    using runsD [OF runs_UpdateTarget u] assms k
      stale_count [of target_key "db_targets (st_db s)" "target_key t" t_Version "t_Version t" "t_write n1 t"]
    by (simp add: db_ok_def t_current_def [abs_def])
  show "\<exists>e. UpdateTarget n2 n2' tb s1 = (Inl e, s1\<lparr>st_tick := st_tick s1 + 1\<rparr>) \<and>
      (st_fault s1 (st_tick s1) = None \<longrightarrow> e = ErrConcurrentModification)"
    unfolding UpdateTarget_def Let_def
    by (subst update_none_fails) (simp_all add: z sql_update_none)
next
  assume u: "UpdatePoller n1 n1' p s = (Inr p', s1)" and k: "poller_key pb = poller_key p"
    "p_Version pb = p_Version p"
  have z: "sql_count (\<lambda>r. poller_key r = poller_key pb \<and> p_Version r = p_Version pb)
      (db_pollers (st_db s1)) = 0"
    using runsD [OF runs_UpdatePoller u] assms k
      stale_count [of poller_key "db_pollers (st_db s)" "poller_key p" p_Version "p_Version p" "p_write n1 p"]
    by (simp add: db_ok_def p_current_def [abs_def])
  show "\<exists>e. UpdatePoller n2 n2' pb s1 = (Inl e, s1\<lparr>st_tick := st_tick s1 + 1\<rparr>) \<and>
      (st_fault s1 (st_tick s1) = None \<longrightarrow> e = ErrConcurrentModification)"
    unfolding UpdatePoller_def Let_def
    by (subst update_none_fails) (simp_all add: z [simplified] sql_update_none)
qed

lemma second_writer_fails_witness:
  "fst (UpdateTarget 2 2 (ex_target ''t'') (snd (UpdateTarget 1 1 (ex_target ''t'') ex_store))) =
     Inl ErrConcurrentModification"
proof -
  let ?u = "UpdateTarget 1 1 (ex_target ''t'') ex_store"
  have ok: "db_ok (st_db ex_store)" by (simp add: ex_store_def db_ok_def empty_db_def)
  have r: "fst ?u = Inr ((ex_target ''t'')\<lparr>t_Version := 2, t_UpdatedAt := 1\<rparr>)" by code_simp
  have f: "st_fault (snd ?u) (st_tick (snd ?u)) = None" by code_simp
  have u: "?u = (Inr ((ex_target ''t'')\<lparr>t_Version := 2, t_UpdatedAt := 1\<rparr>), snd ?u)"
    using r by (simp add: prod_eq_iff)
  show ?thesis
    using second_writer_fails [OF ok, THEN conjunct2, THEN conjunct1, rule_format, OF u refl refl, of 2 2] f by auto
qed

definition ex_link_store :: Store where
  "ex_link_store = (open_store (\<lambda>_. None) None)\<lparr>st_db := empty_db
     \<lparr>db_targets := [ex_target ''a_b'', ex_target ''axb''],
      db_tree := [\<lparr>tn_Namespace = ''n'', tn_Path = ''/l'', tn_NodeType = ''link_poller'',
        tn_LinkRef = Some (poller_ref ''axb'' ''p''), tn_Description = None, tn_CreatedAt = 0\<rparr>]\<rparr>\<rparr>"

text \<open>\<open>DeleteTarget\<close> selects the links to remove with \<open>LIKE 'poller:<name>/%'\<close> and does not escape
  the name: deleting target \<open>a_b\<close> removes a link to a poller of target \<open>axb\<close>, which stays.\<close>

theorem delete_target_removes_foreign_links:
  "fst (DeleteTarget ''n'' ''a_b'' False ex_link_store) = Inr (0, 1) \<and>
   db_tree (st_db (snd (DeleteTarget ''n'' ''a_b'' False ex_link_store))) = [] \<and>
   map t_Name (db_targets (st_db (snd (DeleteTarget ''n'' ''a_b'' False ex_link_store)))) = [''axb'']"
  by code_simp

section \<open>Pages of targets\<close>

text \<open>A client that follows the cursor until it is empty, at most \<open>fuel\<close> pages.\<close>

fun all_pages :: "nat \<Rightarrow> string \<Rightarrow> (string, string) gomap \<Rightarrow> nat \<Rightarrow> string \<Rightarrow> Target list sql" where
  "all_pages 0 namespace labels limit cursor = fail (Errorf ''out of fuel'')"
| "all_pages (Suc fuel) namespace labels limit cursor =
     bnd (ListTargetsFiltered namespace labels limit cursor) (\<lambda>(page, next).
       if next = [] then ret page
       else bnd (all_pages fuel namespace labels limit next) (\<lambda>rest. ret (page @ rest)))"

abbreviation "by_name (L :: Target list) \<equiv> sorted_wrt (\<lambda>a b. t_Name a < t_Name b) L"

lemma after_cursor:
  assumes "by_name L" "0 < n" "n \<le> length L"
  shows "filter (\<lambda>r. t_Name r > t_Name (L ! (n - 1))) L = drop n L"
proof -
  have lt: "t_Name (L ! i) < t_Name (L ! j)" if "i < j" "j < length L" for i j
    using sorted_wrt_nth_less [OF assms(1) that] .
  have "\<not> t_Name r > t_Name (L ! (n - 1))" if r: "r \<in> set (take n L)" for r
  proof -
    obtain i where i: "i < n" "i < length L" "r = L ! i" using r by (auto simp: in_set_conv_nth)
    show ?thesis
    proof (cases "i = n - 1")
      case False
      then have "t_Name (L ! i) < t_Name (L ! (n - 1))" using lt [of i "n - 1"] i assms by simp
      then show ?thesis using i by (simp add: not_less)
    qed (use i in simp)
  qed
  moreover have "t_Name r > t_Name (L ! (n - 1))" if r: "r \<in> set (drop n L)" for r
  proof -
    obtain i where "i < length L - n" "r = L ! (n + i)" using r by (auto simp: in_set_conv_nth)
    then show ?thesis using lt [of "n - 1" "n + i"] assms by simp
  qed
  ultimately have "filter (\<lambda>r. t_Name r > t_Name (L ! (n - 1))) (take n L @ drop n L) = drop n L"
    unfolding filter_append by (simp add: filter_empty_conv filter_id_conv)
  then show ?thesis by simp
qed

lemma filtered_rows_after:
  "filtered_rows namespace labels cursor rows =
     filter (\<lambda>r. cursor = [] \<or> t_Name r > cursor) (filtered_rows namespace labels [] rows)"
  unfolding filtered_rows_def filter_sort filter_filter by (simp add: conj_ac)

lemma filtered_rows_by_name:
  assumes "distinct (map target_key rows)"
  shows "by_name (filtered_rows namespace labels [] rows)"
proof -
  let ?L = "filtered_rows namespace labels [] rows"
  have s: "sorted (map t_Name ?L)" by (simp add: filtered_rows_def)
  have "distinct ?L" using assms by (simp add: filtered_rows_def distinct_map)
  moreover have "inj_on t_Name (set ?L)"
  proof (rule inj_onI)
    fix a b assume ab: "a \<in> set ?L" "b \<in> set ?L" "t_Name a = t_Name b"
    then have "target_key a = target_key b" "a \<in> set rows" "b \<in> set rows"
      by (simp_all add: filtered_rows_def)
    then show "a = b" using assms by (metis (no_types, lifting) distinct_map inj_onD)
  qed
  ultimately have "distinct (map t_Name ?L)" by (simp add: distinct_map)
  with s have "sorted_wrt (<) (map t_Name ?L)" by (simp add: strict_sorted_iff)
  then show ?thesis by (simp add: sorted_wrt_map)
qed

lemma ListTargetsFiltered_works:
  "st_fault s = (\<lambda>_. None) \<Longrightarrow> ListTargetsFiltered namespace labels limit cursor s =
     (Inr (page_of limit (map read_Target (filtered_rows namespace labels cursor (db_targets (st_db s))))),
      s\<lparr>st_tick := st_tick s + 1\<rparr>)"
  by (simp add: ListTargetsFiltered_def wrap_def query_def stmt_def)

lemma page_of_last:
  "0 < limit \<Longrightarrow> length L \<le> limit \<Longrightarrow> page_of limit L = (L, [])"
  by (simp add: page_of_def)

lemma page_of_more:
  assumes "0 < limit" "limit < length L"
  shows "page_of limit L = (take limit L, t_Name (L ! (limit - 1)))"
proof -
  have "last (take limit L) = L ! (limit - 1)"
    using assms by (subst last_conv_nth) auto
  moreover have "take limit (take (limit + 1) L) = take limit L" by simp
  ultimately show ?thesis using assms by (simp add: page_of_def Let_def)
qed

lemma all_pages_from:
  assumes "0 < limit" "distinct (map target_key (db_targets d))"
    "\<forall>t \<in> set (db_targets d). t_Name t \<noteq> []"
  shows "st_fault s = (\<lambda>_. None) \<Longrightarrow> st_db s = d \<Longrightarrow>
    length (filtered_rows namespace labels cursor (db_targets d)) < fuel \<Longrightarrow>
    fst (all_pages fuel namespace labels limit cursor s) =
      Inr (map read_Target (filtered_rows namespace labels cursor (db_targets d)))"
proof (induction fuel arbitrary: cursor s)
  case (Suc fuel)
  let ?L = "filtered_rows namespace labels cursor (db_targets d)"
  let ?s = "s\<lparr>st_tick := st_tick s + 1\<rparr>"
  have bn: "by_name ?L"
    using filtered_rows_by_name [OF assms(2), of namespace labels]
    by (subst filtered_rows_after) (simp add: sorted_wrt_filter)
  note q = ListTargetsFiltered_works [OF Suc.prems(1), of namespace labels limit cursor,
      unfolded Suc.prems(2)]
  show ?case
  proof (cases "length ?L \<le> limit")
    case True
    then show ?thesis
      by (simp add: bnd_def q page_of_last assms(1) ret_def)
  next
    case False
    then have n: "limit < length ?L" by simp
    define nxt where "nxt = t_Name (?L ! (limit - 1))"
    have nm: "t_Name (map read_Target ?L ! (limit - 1)) = nxt"
      using n by (simp add: nxt_def read_Target_def)
    have ne: "nxt \<noteq> []"
    proof -
      have "?L ! (limit - 1) \<in> set ?L" using n assms(1) by simp
      then show ?thesis using assms(3) by (simp add: nxt_def filtered_rows_def)
    qed
    have cur: "cursor < nxt \<or> cursor = []"
    proof -
      have "?L ! (limit - 1) \<in> set ?L" using n assms(1) by simp
      then show ?thesis by (auto simp: nxt_def filtered_rows_def)
    qed
    have rest: "filtered_rows namespace labels nxt (db_targets d) = drop limit ?L"
    proof -
      have "filtered_rows namespace labels nxt (db_targets d) = filter (\<lambda>r. t_Name r > nxt) ?L"
        using ne cur by (subst (1 2) filtered_rows_after) (auto intro!: filter_cong)
      also have "\<dots> = drop limit ?L"
        using after_cursor [OF bn assms(1)] n by (simp add: nxt_def)
      finally show ?thesis .
    qed
    have "fst (all_pages fuel namespace labels limit nxt ?s) = Inr (map read_Target (drop limit ?L))"
      using Suc.IH [of ?s nxt] Suc.prems n assms(1) rest by simp
    then obtain s' where "all_pages fuel namespace labels limit nxt ?s =
        (Inr (map read_Target (drop limit ?L)), s')" by (metis prod.collapse)
    moreover have "page_of limit (map read_Target ?L) = (take limit (map read_Target ?L), nxt)"
      using page_of_more [of limit "map read_Target ?L"] n assms(1) nm by simp
    ultimately show ?thesis
      using ne by (simp add: bnd_def q ret_def take_map drop_map flip: map_append)
  qed
qed simp



end
