(* ===== verification/Paths.thy ===== *)
theory Paths
  imports Prelude
begin

text \<open>
  Paths of the tree: \<open>path.Clean\<close> and \<open>path.Join\<close> of Go's package path, and the functions of
  internal/store/tree.go on top of them, \<open>normalizePath\<close> and \<open>isDirectChild\<close>.
\<close>

abbreviation "slash \<equiv> CHR ''/''"

section \<open>Package path\<close>

text \<open>
  \<open>path.Clean\<close>: drop empty elements and \<open>.\<close>, resolve \<open>..\<close> against the element before it, drop
  \<open>..\<close> at the root, and give \<open>.\<close> for an empty result.
\<close>

definition clean_step :: "bool \<Rightarrow> string list \<Rightarrow> string \<Rightarrow> string list" where
  "clean_step rooted out c =
     (if c = [] \<or> c = ''.'' then out
      else if c = ''..'' then
        (if out \<noteq> [] \<and> last out \<noteq> ''..'' then butlast out
         else if rooted then out else out @ [c])
      else out @ [c])"

definition path_Clean :: "string \<Rightarrow> string" where
  "path_Clean p =
     (if p = [] then ''.''
      else let rooted = has_prefix p ''/'';
               out = foldl (clean_step rooted) [] (split_on slash p) in
        if rooted then slash # join_with slash out
        else if out = [] then ''.'' else join_with slash out)"

text \<open>\<open>path.Join(a, b)\<close>: the non-empty elements joined and cleaned, or the empty string.\<close>

definition path_Join :: "string \<Rightarrow> string \<Rightarrow> string" where
  "path_Join a b =
     (let es = filter (\<lambda>e. e \<noteq> []) [a, b] in
      if es = [] then [] else path_Clean (join_with slash es))"

section \<open>Paths of the store\<close>

definition trim_suffix :: "string \<Rightarrow> string \<Rightarrow> string" where
  "trim_suffix s p = (if has_suffix s p then take (length s - length p) s else s)"

definition normalizePath :: "string \<Rightarrow> string" where
  "normalizePath p0 =
     (let p1 = path_Clean p0;
          p2 = (if \<not> has_prefix p1 ''/'' then ''/'' @ p1 else p1)
      in if p2 \<noteq> ''/'' \<and> has_suffix p2 ''/'' then trim_suffix p2 ''/'' else p2)"

definition isDirectChild :: "string \<Rightarrow> string \<Rightarrow> bool" where
  "isDirectChild parentPath0 childPath0 =
     (let parentPath = normalizePath parentPath0; childPath = normalizePath childPath0 in
      if parentPath = ''/'' then
        (let trimmed = trim_prefix childPath ''/'' in trimmed \<noteq> [] \<and> slash \<notin> set trimmed)
      else if \<not> has_prefix childPath (parentPath @ ''/'') then False
      else (let rest = trim_prefix childPath (parentPath @ ''/'') in rest \<noteq> [] \<and> slash \<notin> set rest))"

section \<open>Canonical paths\<close>

text \<open>A canonical path is a slash and its elements, none empty, \<open>.\<close> or \<open>..\<close>, joined by slashes.\<close>

definition plain :: "string \<Rightarrow> bool" where
  "plain c \<longleftrightarrow> c \<noteq> [] \<and> c \<noteq> ''.'' \<and> c \<noteq> ''..'' \<and> slash \<notin> set c"

definition path_of :: "string list \<Rightarrow> string" where
  "path_of cs = slash # join_with slash cs"

definition canonical :: "string \<Rightarrow> bool" where
  "canonical p \<longleftrightarrow> (\<exists>cs. (\<forall>c \<in> set cs. plain c) \<and> p = path_of cs)"

lemma has_prefix_slash: "has_prefix p ''/'' \<longleftrightarrow> (\<exists>r. p = slash # r)"
  by (auto simp: has_prefix_iff)

lemma clean_rooted_plain:
  assumes "\<forall>c \<in> set cs. slash \<notin> set c" "\<forall>c \<in> set out. plain c"
  shows "\<forall>c \<in> set (foldl (clean_step True) out cs). plain c"
  using assms
proof (induction cs arbitrary: out)
  case (Cons c cs)
  have "\<forall>x \<in> set (clean_step True out c). plain x"
    using Cons.prems by (auto simp: clean_step_def plain_def dest: in_set_butlastD)
  then show ?case using Cons by simp
qed simp

lemma foldl_clean_plain:
  "\<forall>c \<in> set cs. plain c \<Longrightarrow> foldl (clean_step rooted) out cs = out @ cs"
  by (induction cs arbitrary: out) (auto simp: clean_step_def plain_def)

lemma join_last: "ps \<noteq> [] \<Longrightarrow> last ps \<noteq> [] \<Longrightarrow> join_with c ps \<noteq> [] \<and> last (join_with c ps) = last (last ps)"
  by (induction c ps rule: join_with.induct) auto

lemma has_suffix_char: "has_suffix s [c] \<longleftrightarrow> s \<noteq> [] \<and> last s = c"
  by (cases s rule: rev_cases) (auto simp: has_suffix_def)

lemma path_of_no_trailing:
  assumes "\<forall>c \<in> set cs. plain c" "cs \<noteq> []"
  shows "\<not> has_suffix (path_of cs) ''/''"
proof -
  have l: "last cs \<noteq> []" "slash \<notin> set (last cs)" using assms by (auto simp: plain_def)
  have j: "join_with slash cs \<noteq> []" "last (join_with slash cs) = last (last cs)"
    using join_last [OF assms(2) l(1)] by auto
  moreover have "last (last cs) \<noteq> slash" using l last_in_set [OF l(1)] by metis
  ultimately show ?thesis by (simp add: has_suffix_char path_of_def)
qed

lemma clean_rooted:
  "path_Clean (slash # r) = path_of (foldl (clean_step True) [] (split_on slash r))"
  by (simp add: path_Clean_def path_of_def has_prefix_slash Let_def clean_step_def)

lemma normalize_canonical_form:
  assumes "\<forall>c \<in> set cs. plain c"
  shows "normalizePath (path_of cs) = path_of cs"
proof (cases "cs = []")
  case True
  then show ?thesis
    by (simp add: normalizePath_def path_of_def path_Clean_def has_prefix_def clean_step_def Let_def)
next
  case False
  have "foldl (clean_step True) [] (split_on slash (join_with slash cs)) = cs"
    using split_join [OF False] foldl_clean_plain [OF assms, of True "[]"] assms by (simp add: plain_def)
  then have "path_Clean (path_of cs) = path_of cs"
    using clean_rooted [of "join_with slash cs"] by (simp add: path_of_def)
  then show ?thesis
    using path_of_no_trailing [OF assms False]
    by (simp add: normalizePath_def Let_def has_prefix_slash) (simp add: path_of_def)
qed

lemma normalize_rooted:
  "normalizePath (slash # r) = path_of (foldl (clean_step True) [] (split_on slash r))"
proof -
  let ?cs = "foldl (clean_step True) [] (split_on slash r)"
  have p: "\<forall>c \<in> set ?cs. plain c"
    using clean_rooted_plain [of "split_on slash r" "[]"] split_on_parts by fastforce
  have c: "path_Clean (path_of ?cs) = path_of ?cs"
  proof (cases "?cs = []")
    case True
    then show ?thesis by (simp add: path_of_def path_Clean_def has_prefix_def clean_step_def Let_def)
  next
    case False
    have "foldl (clean_step True) [] (split_on slash (join_with slash ?cs)) = ?cs"
      using split_join [OF False] foldl_clean_plain [OF p, of True "[]"] p by (simp add: plain_def)
    then show ?thesis using clean_rooted [of "join_with slash ?cs"] by (simp add: path_of_def)
  qed
  have "normalizePath (slash # r) = normalizePath (path_of ?cs)"
    by (simp add: normalizePath_def clean_rooted c)
  then show ?thesis using normalize_canonical_form [OF p] by simp
qed

lemma normalize_canonical: "has_prefix p ''/'' \<Longrightarrow> canonical (normalizePath p)"
  using clean_rooted_plain [of _ "[]"] split_on_parts
  by (fastforce simp: has_prefix_slash canonical_def normalize_rooted)

lemma canonical_fixed: "canonical p \<Longrightarrow> normalizePath p = p"
  by (auto simp: canonical_def normalize_canonical_form)

text \<open>\<open>normalizePath\<close> gives every rooted path its canonical form, a slash and plain elements
  joined by slashes, and normalizing again changes nothing.\<close>

theorem normalize_rooted_paths:
  assumes "has_prefix p ''/''"
  shows "(\<exists>cs. (\<forall>c \<in> set cs. c \<noteq> [] \<and> c \<noteq> ''.'' \<and> c \<noteq> ''..'' \<and> slash \<notin> set c) \<and>
      normalizePath p = slash # join_with slash cs) \<and>
    normalizePath (normalizePath p) = normalizePath p"
  using normalize_canonical [OF assms] canonical_fixed
  by (auto simp: canonical_def plain_def path_of_def)

lemma normalize_rooted_paths_witness:
  "normalizePath ''/a//b/../c/'' = ''/a/c'' \<and> normalizePath (normalizePath ''/a//b/../c/'') = ''/a/c''"
proof -
  have e: "normalizePath ''/a//b/../c/'' = ''/a/c''" by code_simp
  have "has_prefix ''/a//b/../c/'' ''/''" by (simp add: has_prefix_def)
  from normalize_rooted_paths [OF this] show ?thesis by (simp add: e)
qed

text \<open>A path that begins with \<open>..\<close> is not normalized: the leading \<open>..\<close> survives the added slash,
  and the result is not what normalizing it again gives.\<close>

theorem normalize_keeps_leading_dotdot:
  "normalizePath ''../a'' = ''/../a'' \<and> normalizePath (normalizePath ''../a'') = ''/a''"
  by code_simp

section \<open>Direct children\<close>

lemma join_append:
  "cs \<noteq> [] \<Longrightarrow> ds \<noteq> [] \<Longrightarrow> join_with c (cs @ ds) = join_with c cs @ c # join_with c ds"
proof (induction c cs rule: join_with.induct)
  case (2 c p)
  then show ?case by (cases ds) auto
qed auto

lemma split_join_append:
  "cs \<noteq> [] \<Longrightarrow> \<forall>p \<in> set cs. c \<notin> set p \<Longrightarrow> split_on c (join_with c cs @ c # r) = cs @ split_on c r"
  by (induction c cs rule: join_with.induct) (auto simp: split_on_append)

lemma join_plain_Nil: "\<forall>c \<in> set cs. plain c \<Longrightarrow> join_with slash cs = [] \<longleftrightarrow> cs = []"
  by (induction slash cs rule: join_with.induct) (auto simp: plain_def)

lemma direct_child_of:
  assumes p: "\<forall>c \<in> set cs. plain c" "\<forall>c \<in> set ds. plain c"
  shows "isDirectChild (path_of cs) (path_of ds) \<longleftrightarrow> (\<exists>c. ds = cs @ [c])"
proof -
  note n = normalize_canonical_form [OF p(1)] normalize_canonical_form [OF p(2)]
  have free: "\<forall>c \<in> set ds. slash \<notin> set c" "\<forall>c \<in> set cs. slash \<notin> set c"
    using p by (auto simp: plain_def)
  have sp: "ds \<noteq> [] \<Longrightarrow> split_on slash (join_with slash ds) = ds" using split_join free(1) by blast
  show ?thesis
  proof (cases "cs = []")
    case True
    have e: "isDirectChild (path_of cs) (path_of ds) \<longleftrightarrow>
        join_with slash ds \<noteq> [] \<and> slash \<notin> set (join_with slash ds)"
      unfolding isDirectChild_def n Let_def
      by (simp add: True path_of_def trim_prefix_def has_prefix_def)
    have "join_with slash ds \<noteq> [] \<and> slash \<notin> set (join_with slash ds) \<longleftrightarrow> (\<exists>c. ds = [c])"
    proof
      assume a: "join_with slash ds \<noteq> [] \<and> slash \<notin> set (join_with slash ds)"
      then have "ds \<noteq> []" by auto
      from sp [OF this] a have "ds = [join_with slash ds]" by simp
      then show "\<exists>c. ds = [c]" by blast
    next
      assume "\<exists>c. ds = [c]"
      then obtain c where c: "ds = [c]" by blast
      then have "plain c" using p(2) by simp
      then show "join_with slash ds \<noteq> [] \<and> slash \<notin> set (join_with slash ds)"
        by (simp add: c plain_def)
    qed
    then show ?thesis using e True by simp
  next
    case False
    have root: "path_of cs \<noteq> ''/''" using join_plain_Nil [OF p(1)] False by (simp add: path_of_def)
    have e: "isDirectChild (path_of cs) (path_of ds) \<longleftrightarrow>
        (\<exists>r. path_of ds = path_of cs @ ''/'' @ r \<and> r \<noteq> [] \<and> slash \<notin> set r)"
    proof (cases "has_prefix (path_of ds) (path_of cs @ ''/'')")
      case True
      then obtain r where r: "path_of ds = (path_of cs @ ''/'') @ r" by (auto simp: has_prefix_iff)
      then have t: "trim_prefix (path_of ds) (path_of cs @ ''/'') = r"
        by (simp only: trim_prefix_append)
      have "isDirectChild (path_of cs) (path_of ds) \<longleftrightarrow> r \<noteq> [] \<and> slash \<notin> set r"
        unfolding isDirectChild_def n Let_def t using root True by (simp only: if_False not_True_eq_False)
      moreover have "path_of ds = path_of cs @ ''/'' @ r' \<longleftrightarrow> r' = r" for r'
        by (auto simp: r)
      ultimately show ?thesis by (simp only: simp_thms)
    next
      case no: False
      then show ?thesis
        unfolding isDirectChild_def n Let_def using root by (auto simp: has_prefix_iff)
    qed
    show ?thesis unfolding e
    proof
      assume "\<exists>r. path_of ds = path_of cs @ ''/'' @ r \<and> r \<noteq> [] \<and> slash \<notin> set r"
      then obtain r where r: "join_with slash ds = join_with slash cs @ slash # r" "slash \<notin> set r"
        by (auto simp: path_of_def)
      then have "ds \<noteq> []" by auto
      from sp [OF this] have "ds = cs @ split_on slash r"
        unfolding r(1) split_join_append [OF False free(2)] by (rule sym)
      then have "ds = cs @ [r]" using r(2) by simp
      then show "\<exists>c. ds = cs @ [c]" by blast
    next
      assume "\<exists>c. ds = cs @ [c]"
      then obtain c where c: "ds = cs @ [c]" by blast
      then have "path_of ds = path_of cs @ ''/'' @ c" "c \<noteq> []" "slash \<notin> set c"
        using False p(2) by (auto simp: path_of_def join_append plain_def)
      then show "\<exists>r. path_of ds = path_of cs @ ''/'' @ r \<and> r \<noteq> [] \<and> slash \<notin> set r" by blast
    qed
  qed
qed

end
