(* ===== verification/StoreData.thy ===== *)
theory StoreData
  imports StoreEntities Paths "HOL-Library.Multiset"
begin

text \<open>
  The other tables of internal/store: samples (sample.go), the tree of directories and links
  (tree.go), secrets (secret.go) and the server configuration (server_config.go).
\<close>

section \<open>Server configuration\<close>

definition GetServerConfig :: "ServerConfig sql" where
  "GetServerConfig = wrap ''query server config'' (query db_config)"

definition UpdateServerConfig :: "ServerConfig \<Rightarrow> unit sql" where
  "UpdateServerConfig cfg = exec (\<lambda>d. d\<lparr>db_config := cfg\<rparr>)"

section \<open>Samples\<close>

abbreviation sample_key :: "Sample \<Rightarrow> string \<times> string \<times> string" where
  "sample_key r \<equiv> (sa_Namespace r, sa_Target r, sa_Poller r)"

definition InsertSample :: "Sample \<Rightarrow> unit sql" where
  "InsertSample sample = exec (\<lambda>d. d\<lparr>db_samples := db_samples d @ [sample]\<rparr>)"

definition InsertSamplesBatch :: "Sample list \<Rightarrow> unit sql" where
  "InsertSamplesBatch samples =
     (if samples = [] then ret ()
      else Transaction (bnd (exec (\<lambda>d. d)) (\<lambda>_. each InsertSample samples)))"

text \<open>
  A counter is written as an unsigned column and scanned into a \<open>sql.NullInt64\<close>, which refuses
  values from \<open>2 ^ 63\<close> on.
\<close>

definition scan_sample :: "Sample \<Rightarrow> Sample go" where
  "scan_sample r =
     (case sa_ValueCounter r of
        None \<Rightarrow> Inr r
      | Some c \<Rightarrow> if uint c \<ge> 2 ^ 63 then Inl (Errorf ''scan sample: value out of range'')
                  else Inr (r\<lparr>sa_ValueCounter := Some (word_of_int (uint c))\<rparr>))"

fun scan_samples :: "Sample list \<Rightarrow> Sample list go" where
  "scan_samples [] = Inr []"
| "scan_samples (r # rs) =
     (case scan_sample r of
        Inl e \<Rightarrow> Inl e
      | Inr x \<Rightarrow> (case scan_samples rs of Inl e \<Rightarrow> Inl e | Inr xs \<Rightarrow> Inr (x # xs)))"

definition newest_first :: "Sample list \<Rightarrow> Sample list" where
  "newest_first rows = sort_key (\<lambda>r. - sa_TimestampMs r) rows"

definition sample_rows :: "string \<times> string \<times> string \<Rightarrow> int \<Rightarrow> int \<Rightarrow> int \<Rightarrow> Sample list \<Rightarrow> Sample list" where
  "sample_rows k limit sinceMs untilMs rows =
     (let sel = newest_first (filter (\<lambda>r. sample_key r = k \<and>
                  (sinceMs > 0 \<longrightarrow> sa_TimestampMs r \<ge> sinceMs) \<and>
                  (untilMs > 0 \<longrightarrow> sa_TimestampMs r \<le> untilMs)) rows)
      in if limit > 0 then take (nat limit) sel else sel)"

definition GetSamples ::
    "string \<Rightarrow> string \<Rightarrow> string \<Rightarrow> int \<Rightarrow> int \<Rightarrow> int \<Rightarrow> Sample list sql" where
  "GetSamples namespace target poller limit sinceMs untilMs =
     bnd (wrap ''query samples'' (query (\<lambda>d.
       sample_rows (namespace, target, poller) limit sinceMs untilMs (db_samples d))))
     (\<lambda>rows. case scan_samples rows of Inl e \<Rightarrow> fail e | Inr xs \<Rightarrow> ret xs)"

definition CountSamples :: "string \<Rightarrow> string \<Rightarrow> string \<Rightarrow> nat sql" where
  "CountSamples namespace target poller =
     query (\<lambda>d. sql_count (\<lambda>r. sample_key r = (namespace, target, poller)) (db_samples d))"

text \<open>A \<open>DELETE\<close> that returns \<open>RowsAffected\<close>.\<close>

definition delete_samples :: "(Sample \<Rightarrow> bool) \<Rightarrow> nat sql" where
  "delete_samples P = stmt (\<lambda>d. Inr (sql_count P (db_samples d),
     d\<lparr>db_samples := sql_delete P (db_samples d)\<rparr>))"

definition DeleteOldSamples :: "string \<Rightarrow> string \<Rightarrow> string \<Rightarrow> int \<Rightarrow> nat sql" where
  "DeleteOldSamples namespace target poller beforeMs =
     delete_samples (\<lambda>r. sample_key r = (namespace, target, poller) \<and> sa_TimestampMs r < beforeMs)"

definition DeleteSamplesForPoller :: "string \<Rightarrow> string \<Rightarrow> string \<Rightarrow> unit sql" where
  "DeleteSamplesForPoller namespace target poller =
     bnd (delete_samples (\<lambda>r. sample_key r = (namespace, target, poller))) (\<lambda>_. ret ())"

text \<open>
  The timestamp of the \<open>keepCount\<close>-th newest sample. An error of this query leaves \<open>cutoffMs\<close>
  invalid, which the code takes for "not enough samples"; a negative offset is such an error.
\<close>

definition TrimSamples :: "string \<Rightarrow> string \<Rightarrow> string \<Rightarrow> int \<Rightarrow> nat sql" where
  "TrimSamples namespace target poller keepCount s =
     (case query (\<lambda>d.
        let rows = newest_first (filter (\<lambda>r. sample_key r = (namespace, target, poller)) (db_samples d));
            offset = keepCount - 1
        in if 0 \<le> offset \<and> offset < int (length rows)
           then Some (sa_TimestampMs (rows ! nat offset)) else None) s of
        (Inr (Some cutoff), s') \<Rightarrow>
          delete_samples (\<lambda>r. sample_key r = (namespace, target, poller) \<and> sa_TimestampMs r < cutoff) s'
      | (_, s') \<Rightarrow> (Inr 0, s'))"

definition GetLatestSample :: "string \<Rightarrow> string \<Rightarrow> string \<Rightarrow> Sample option sql" where
  "GetLatestSample namespace target poller =
     bnd (GetSamples namespace target poller 1 0 0)
       (\<lambda>samples. case samples of [] \<Rightarrow> ret None | x # _ \<Rightarrow> ret (Some x))"

definition GetSampleRange :: "string \<Rightarrow> string \<Rightarrow> string \<Rightarrow> (int \<times> int) sql" where
  "GetSampleRange namespace target poller =
     query (\<lambda>d. let ts = map sa_TimestampMs
                  (filter (\<lambda>r. sample_key r = (namespace, target, poller)) (db_samples d))
                in if ts = [] then (0, 0) else (Min (set ts), Max (set ts)))"

definition CleanupOldSamples :: "int \<Rightarrow> int \<Rightarrow> nat sql" where
  "CleanupOldSamples now retentionMs =
     (let cutoff = now - retentionMs in delete_samples (\<lambda>r. sa_TimestampMs r < cutoff))"

section \<open>The tree\<close>

abbreviation node_key :: "TreeNode \<Rightarrow> string \<times> string" where
  "node_key n \<equiv> (tn_Namespace n, tn_Path n)"

text \<open>\<open>strings.Trim(s, "/")\<close>.\<close>

definition trim_slashes :: "string \<Rightarrow> string" where
  "trim_slashes s = rev (dropWhile (\<lambda>c. c = slash) (rev (dropWhile (\<lambda>c. c = slash) s)))"

text \<open>\<open>INSERT OR IGNORE\<close> of one directory.\<close>

definition insert_dir :: "int \<Rightarrow> string \<Rightarrow> string \<Rightarrow> string \<Rightarrow> DB \<Rightarrow> DB" where
  "insert_dir now namespace path desc d =
     (if (namespace, path) \<in> node_key ` set (db_tree d) then d
      else d\<lparr>db_tree := db_tree d @
        [\<lparr>tn_Namespace = namespace, tn_Path = path, tn_NodeType = ''directory'', tn_LinkRef = None,
          tn_Description = Some desc, tn_CreatedAt = now\<rparr>]\<rparr>)"

text \<open>The loop over the parts: \<open>currentPath\<close> grows by one part each time.\<close>

fun make_dirs :: "int \<Rightarrow> string \<Rightarrow> string \<Rightarrow> string \<Rightarrow> string list \<Rightarrow> unit sql" where
  "make_dirs now namespace description currentPath [] = ret ()"
| "make_dirs now namespace description currentPath (part # parts) =
     (if part = [] then make_dirs now namespace description currentPath parts
      else let path = currentPath @ ''/'' @ part;
               desc = (if parts = [] then description else [])
           in bnd (wrap (''create directory '' @ path) (exec (insert_dir now namespace path desc)))
                (\<lambda>_. make_dirs now namespace description path parts))"

definition CreateTreeDirectory :: "int \<Rightarrow> string \<Rightarrow> string \<Rightarrow> string \<Rightarrow> unit sql" where
  "CreateTreeDirectory now namespace nodePath0 description =
     (let nodePath = normalizePath nodePath0 in
      Transaction (make_dirs now namespace description []
        (split_on slash (trim_slashes nodePath))))"

definition validateLinkRef :: "string \<Rightarrow> string \<Rightarrow> string \<Rightarrow> bool sql" where
  "validateLinkRef namespace linkType linkRef =
     (if linkType = ''target'' then TargetExists namespace linkRef
      else if linkType = ''poller'' then
        (let parts = split_n slash 2 linkRef in
         if length parts \<noteq> 2
         then fail (Errorf (''invalid poller reference: '' @ linkRef @ '' (expected target/poller)''))
         else PollerExists namespace (parts ! 0) (parts ! 1))
      else fail (Errorf (''invalid link type: '' @ linkType)))"

definition CreateTreeLink ::
    "int \<Rightarrow> string \<Rightarrow> string \<Rightarrow> string \<Rightarrow> string \<Rightarrow> string \<Rightarrow> unit sql" where
  "CreateTreeLink now namespace treePath0 linkName linkType linkRef =
     (let treePath = normalizePath treePath0;
          fullPath = path_Join treePath linkName
      in if linkType \<noteq> ''target'' \<and> linkType \<noteq> ''poller''
         then fail (Errorf (''invalid link type: '' @ linkType))
         else let nodeType = (if linkType = ''target'' then ''link_target'' else ''link_poller'') in
           bnd (validateLinkRef namespace linkType linkRef) (\<lambda>exists.
             if \<not> exists then fail (Errorf (linkType @ '' not found: '' @ linkRef))
             else stmt (\<lambda>d.
               case sql_insert node_key
                      \<lparr>tn_Namespace = namespace, tn_Path = fullPath, tn_NodeType = nodeType,
                       tn_LinkRef = Some (linkType @ '':'' @ linkRef), tn_Description = None,
                       tn_CreatedAt = now\<rparr> (db_tree d) of
                 Inl e \<Rightarrow> Inl e | Inr rows \<Rightarrow> Inr ((), d\<lparr>db_tree := rows\<rparr>))))"

definition GetTreeNode :: "string \<Rightarrow> string \<Rightarrow> TreeNode option sql" where
  "GetTreeNode namespace nodePath0 =
     (let nodePath = normalizePath nodePath0 in
      wrap ''query tree node'' (query (\<lambda>d.
        sql_first (\<lambda>n. node_key n = (namespace, nodePath)) (db_tree d))))"

definition ListTreeChildren :: "string \<Rightarrow> string \<Rightarrow> TreeNode list sql" where
  "ListTreeChildren namespace parentPath0 =
     (let parentPath = normalizePath parentPath0 in
      wrap ''query tree nodes'' (query (\<lambda>d.
        filter (\<lambda>n. isDirectChild parentPath (tn_Path n))
          (sort_key tn_Path (filter (\<lambda>n. tn_Namespace n = namespace) (db_tree d))))))"

text \<open>A \<open>DELETE\<close> on the tree that returns \<open>RowsAffected\<close>.\<close>

definition delete_nodes :: "(TreeNode \<Rightarrow> bool) \<Rightarrow> nat sql" where
  "delete_nodes P = stmt (\<lambda>d. Inr (sql_count P (db_tree d), d\<lparr>db_tree := sql_delete P (db_tree d)\<rparr>))"

definition DeleteTreeNode :: "string \<Rightarrow> string \<Rightarrow> bool \<Rightarrow> bool \<Rightarrow> nat sql" where
  "DeleteTreeNode namespace nodePath0 recursive force =
     (let nodePath = normalizePath nodePath0 in
      bnd (ListTreeChildren namespace nodePath) (\<lambda>children.
        if children \<noteq> [] \<and> \<not> recursive \<and> \<not> force
        then fail (Errorf (''directory not empty: '' @ show_nat (length children) @ '' children''))
        else Transaction
          (if recursive
           then delete_nodes (\<lambda>n. tn_Namespace n = namespace \<and>
                  (tn_Path n = nodePath \<or> sql_like (tn_Path n) (nodePath @ ''/%'')))
           else delete_nodes (\<lambda>n. tn_Namespace n = namespace \<and> tn_Path n = nodePath))))"

definition DeleteLinksToTarget :: "string \<Rightarrow> string \<Rightarrow> nat sql" where
  "DeleteLinksToTarget namespace targetName =
     delete_nodes (\<lambda>n. tn_Namespace n = namespace \<and> tn_LinkRef n = Some (''target:'' @ targetName))"

definition DeleteLinksToPoller :: "string \<Rightarrow> string \<Rightarrow> string \<Rightarrow> nat sql" where
  "DeleteLinksToPoller namespace targetName pollerName =
     delete_nodes (\<lambda>n. tn_Namespace n = namespace \<and>
       tn_LinkRef n = Some (poller_ref targetName pollerName))"

definition DeleteLinksToTargetAndPollers :: "string \<Rightarrow> string \<Rightarrow> nat sql" where
  "DeleteLinksToTargetAndPollers namespace targetName =
     delete_nodes (links_to_target namespace targetName)"

definition GetLinksToTarget :: "string \<Rightarrow> string \<Rightarrow> string list sql" where
  "GetLinksToTarget namespace targetName =
     query (\<lambda>d. map tn_Path (filter (\<lambda>n. tn_Namespace n = namespace \<and>
       tn_LinkRef n = Some (''target:'' @ targetName)) (db_tree d)))"

definition GetLinksToPoller :: "string \<Rightarrow> string \<Rightarrow> string \<Rightarrow> string list sql" where
  "GetLinksToPoller namespace targetName pollerName =
     query (\<lambda>d. map tn_Path (filter (\<lambda>n. tn_Namespace n = namespace \<and>
       tn_LinkRef n = Some (poller_ref targetName pollerName)) (db_tree d)))"

section \<open>Secrets\<close>

text \<open>
  AES-256-GCM is a parameter: \<open>seal key nonce plaintext\<close> and \<open>open key nonce ciphertext\<close>, which
  fails on a ciphertext that does not authenticate. A fresh nonce is an argument of the call.
\<close>

type_synonym seal = "string \<Rightarrow> string \<Rightarrow> string \<Rightarrow> string"
type_synonym unseal = "string \<Rightarrow> string \<Rightarrow> string \<Rightarrow> string option"

definition no_key :: gerror where
  "no_key = Errorf ''secret key not configured''"

abbreviation secret_key :: "SecretRow \<Rightarrow> string \<times> string" where
  "secret_key r \<equiv> (se_Namespace r, se_Name r)"

definition HasSecretKey :: "Store \<Rightarrow> bool" where
  "HasSecretKey s \<longleftrightarrow> st_secretKey s \<noteq> None"

definition CreateSecret ::
    "seal \<Rightarrow> string \<Rightarrow> int \<Rightarrow> string \<Rightarrow> string \<Rightarrow> string \<Rightarrow> string \<Rightarrow> unit sql" where
  "CreateSecret seal nonce now namespace name secretType plaintext s =
     (case st_secretKey s of
        None \<Rightarrow> fail no_key s
      | Some key \<Rightarrow> stmt (\<lambda>d.
          case sql_insert secret_key
                 \<lparr>se_Namespace = namespace, se_Name = name, se_SecretType = secretType,
                  se_EncryptedValue = seal key nonce plaintext, se_Nonce = nonce,
                  se_CreatedAt = now, se_UpdatedAt = now\<rparr> (db_secrets d) of
            Inl e \<Rightarrow> Inl e | Inr rows \<Rightarrow> Inr ((), d\<lparr>db_secrets := rows\<rparr>)) s)"

definition UpdateSecret ::
    "seal \<Rightarrow> string \<Rightarrow> int \<Rightarrow> string \<Rightarrow> string \<Rightarrow> string \<Rightarrow> unit sql" where
  "UpdateSecret seal nonce now namespace name plaintext s =
     (case st_secretKey s of
        None \<Rightarrow> fail no_key s
      | Some key \<Rightarrow>
          bnd (stmt (\<lambda>d. let P = (\<lambda>r. secret_key r = (namespace, name)) in
                 Inr (sql_count P (db_secrets d),
                      d\<lparr>db_secrets := sql_update P (\<lambda>r. r\<lparr>se_EncryptedValue := seal key nonce plaintext,
                          se_Nonce := nonce, se_UpdatedAt := now\<rparr>) (db_secrets d)\<rparr>)))
              (\<lambda>rows. if rows = 0 then fail (Errorf ''secret not found'') else ret ()) s)"

definition GetSecretValue :: "unseal \<Rightarrow> string \<Rightarrow> string \<Rightarrow> string sql" where
  "GetSecretValue unseal namespace name s =
     (case st_secretKey s of
        None \<Rightarrow> fail no_key s
      | Some key \<Rightarrow>
          bnd (wrap ''query secret'' (query (\<lambda>d.
                 sql_first (\<lambda>r. secret_key r = (namespace, name)) (db_secrets d))))
              (\<lambda>row. case row of
                 None \<Rightarrow> fail (Errorf (''secret not found: '' @ name))
               | Some r \<Rightarrow>
                   (case unseal key (se_Nonce r) (se_EncryptedValue r) of
                      None \<Rightarrow> fail (Errorf ''decrypt secret: cipher: message authentication failed'')
                    | Some plaintext \<Rightarrow> ret plaintext)) s)"

definition SecretExists :: "string \<Rightarrow> string \<Rightarrow> bool sql" where
  "SecretExists namespace name =
     query (\<lambda>d. sql_count (\<lambda>r. secret_key r = (namespace, name)) (db_secrets d) > 0)"

section \<open>Samples: batches and trimming\<close>

lemma foldl_insert: "foldl (\<lambda>d x. d\<lparr>db_samples := db_samples d @ [x]\<rparr>) d xs =
    d\<lparr>db_samples := db_samples d @ xs\<rparr>"
  by (induction xs arbitrary: d) simp_all

lemma safe_InsertSamplesBatch: "safe (InsertSamplesBatch samples)"
  by (simp add: InsertSamplesBatch_def)

lemma runs_InsertSamplesBatch:
  "runs (InsertSamplesBatch samples) (\<lambda>d x d'. d' = d\<lparr>db_samples := db_samples d @ samples\<rparr>)"
proof (cases "samples = []")
  case True
  then show ?thesis by (simp add: InsertSamplesBatch_def runs_def ret_def)
next
  case False
  have "runs (each InsertSample samples) (\<lambda>d _ d'. d' = d\<lparr>db_samples := db_samples d @ samples\<rparr>)"
    using runs_each [of samples InsertSample "\<lambda>x d. d\<lparr>db_samples := db_samples d @ [x]\<rparr>"]
    by (simp add: InsertSample_def runs_exec foldl_insert)
  then show ?thesis
    unfolding InsertSamplesBatch_def
    using False runs_Transaction [OF runs_exec_bnd [where f = "\<lambda>d. d" and k = "\<lambda>_. each InsertSample samples"]]
    by simp
qed

text \<open>C13: a batch of samples is stored whole and in order, or not at all.\<close>

theorem sample_batch_all_or_nothing:
  assumes "InsertSamplesBatch samples s = (r, s')"
  shows "case r of Inl e \<Rightarrow> st_db s' = st_db s
    | Inr _ \<Rightarrow> st_db s' = (st_db s)\<lparr>db_samples := db_samples (st_db s) @ samples\<rparr>"
  using assms safeD [OF safe_InsertSamplesBatch] runsD [OF runs_InsertSamplesBatch]
  by (cases r) auto

definition ex_sample :: "int \<Rightarrow> 64 word \<Rightarrow> Sample" where
  "ex_sample ts c = \<lparr>sa_Namespace = ''n'', sa_Target = ''t'', sa_Poller = ''p'', sa_TimestampMs = ts,
     sa_ValueCounter = Some c, sa_ValueText = None, sa_ValueGauge = None, sa_Valid = True,
     sa_Error = [], sa_PollMs = 3\<rparr>"

lemma sample_batch_all_or_nothing_witness:
  "st_db (snd (InsertSamplesBatch [ex_sample 1 5, ex_sample 2 6]
     (open_store (\<lambda>n. if n = 3 then Some ''disk full'' else None) None))) = empty_db"
proof -
  let ?s = "open_store (\<lambda>n. if n = 3 then Some ''disk full'' else None) None"
  have "isl (fst (InsertSamplesBatch [ex_sample 1 5, ex_sample 2 6] ?s))" by code_simp
  then obtain e where e: "fst (InsertSamplesBatch [ex_sample 1 5, ex_sample 2 6] ?s) = Inl e"
    by (auto simp: isl_def)
  have d: "st_db ?s = empty_db" by (simp add: open_store_def)
  have u: "InsertSamplesBatch [ex_sample 1 5, ex_sample 2 6] ?s =
      (Inl e, snd (InsertSamplesBatch [ex_sample 1 5, ex_sample 2 6] ?s))"
    unfolding e [symmetric] by (rule prod.collapse [symmetric])
  show ?thesis
    using sample_batch_all_or_nothing [OF u] unfolding sum.case d .
qed

lemma newest_first_mset: "mset (newest_first rows) = mset rows"
  by (simp add: newest_first_def)

lemma newest_first_desc:
  "i \<le> j \<Longrightarrow> j < length (newest_first rows) \<Longrightarrow>
   sa_TimestampMs (newest_first rows ! j) \<le> sa_TimestampMs (newest_first rows ! i)"
  using sorted_nth_mono [OF sorted_sort_key [of "\<lambda>r. - sa_TimestampMs r" rows], of i j]
  by (simp add: newest_first_def)

lemma newer_count:
  fixes rows :: "Sample list" and k :: nat
  assumes "0 < k" "k \<le> length rows"
  defines "L \<equiv> newest_first rows"
  shows "length (filter (\<lambda>q. sa_TimestampMs q > t) rows) < k \<longleftrightarrow> sa_TimestampMs (L ! (k - 1)) \<le> t"
proof -
  let ?P = "\<lambda>q. sa_TimestampMs q > t"
  have len: "length L = length rows" by (simp add: L_def newest_first_def)
  have cnt: "length (filter ?P rows) = length (filter ?P L)"
    using newest_first_mset [of rows] by (metis L_def mset_filter size_mset)
  have desc: "\<And>i j. i \<le> j \<Longrightarrow> j < length L \<Longrightarrow> sa_TimestampMs (L ! j) \<le> sa_TimestampMs (L ! i)"
    unfolding L_def by (rule newest_first_desc)
  show ?thesis
  proof
    assume t: "sa_TimestampMs (L ! (k - 1)) \<le> t"
    have "\<not> ?P q" if "q \<in> set (drop (k - 1) L)" for q
    proof -
      from that obtain i where i: "i < length L - (k - 1)" "q = L ! (k - 1 + i)"
        by (auto simp: in_set_conv_nth)
      then have "k - 1 + i < length L" by linarith
      then show ?thesis using desc [of "k - 1" "k - 1 + i"] t i by simp
    qed
    then have "filter ?P L = filter ?P (take (k - 1) L)"
      by (subst append_take_drop_id [of "k - 1" L, symmetric], subst filter_append)
        (simp add: filter_empty_conv)
    then have "length (filter ?P L) \<le> k - 1"
      by (metis length_filter_le length_take min.bounded_iff)
    then show "length (filter ?P rows) < k" using cnt assms(1) by simp
  next
    assume l: "length (filter ?P rows) < k"
    show "sa_TimestampMs (L ! (k - 1)) \<le> t"
    proof (rule ccontr)
      assume "\<not> sa_TimestampMs (L ! (k - 1)) \<le> t"
      then have "?P q" if "q \<in> set (take k L)" for q
      proof -
        from that obtain i where i: "i < k" "i < length L" "q = L ! i" by (auto simp: in_set_conv_nth)
        moreover have "i \<le> k - 1" "k - 1 < length L" using i assms(1,2) len by linarith+
        ultimately show ?thesis
          using desc [of i "k - 1"] \<open>\<not> sa_TimestampMs (L ! (k - 1)) \<le> t\<close> assms(1,2) len by simp
      qed
      then have "filter ?P (take k L) = take k L" by (simp add: filter_id_conv)
      then have "k \<le> length (filter ?P L)"
        using assms(2) len length_filter_le [of ?P "drop k L"]
        by (subst append_take_drop_id [of k L, symmetric], subst filter_append) simp
      then show False using l cnt by simp
    qed
  qed
qed

lemma newer_count_short: "length rows < k \<Longrightarrow> length (filter P rows) < k"
  by (rule le_less_trans [OF length_filter_le])

lemma TrimSamples_some:
  assumes "st_fault s = (\<lambda>_. None)"
    "rows = newest_first (filter (\<lambda>r. sample_key r = (namespace, target, poller)) (db_samples (st_db s)))"
    "0 \<le> keepCount - 1" "keepCount - 1 < int (length rows)"
  shows "TrimSamples namespace target poller keepCount s =
    delete_samples (\<lambda>r. sample_key r = (namespace, target, poller) \<and>
      sa_TimestampMs r < sa_TimestampMs (rows ! nat (keepCount - 1))) (s\<lparr>st_tick := st_tick s + 1\<rparr>)"
  using assms by (simp add: TrimSamples_def query_def stmt_def Let_def)

lemma TrimSamples_none:
  assumes "st_fault s = (\<lambda>_. None)"
    "rows = newest_first (filter (\<lambda>r. sample_key r = (namespace, target, poller)) (db_samples (st_db s)))"
    "length rows < nat keepCount"
  shows "TrimSamples namespace target poller keepCount s = (Inr 0, s\<lparr>st_tick := st_tick s + 1\<rparr>)"
proof -
  have "\<not> keepCount - 1 < int (length rows)" using assms(3) by linarith
  then show ?thesis using assms(1,2) by (simp add: TrimSamples_def query_def stmt_def Let_def)
qed



section \<open>Directories\<close>

lemma trim_slashes_path:
  assumes "\<forall>c \<in> set cs. plain c" "cs \<noteq> []"
  shows "trim_slashes (path_of cs) = join_with slash cs"
proof -
  obtain c cs' where cs: "cs = c # cs'" using assms(2) by (cases cs) auto
  have pc: "c \<noteq> []" "slash \<notin> set c" using assms(1) cs by (simp_all add: plain_def)
  then have c: "c \<noteq> []" "hd c \<noteq> slash" using hd_in_set [of c] by metis+
  have "join_with slash cs = c @ (if cs' = [] then [] else slash # join_with slash cs')"
    by (cases cs') (simp_all add: cs)
  then have j: "join_with slash cs \<noteq> []" "hd (join_with slash cs) \<noteq> slash" using c by simp_all
  have l: "last (join_with slash cs) \<noteq> slash"
    using path_of_no_trailing [OF assms] j by (simp add: has_suffix_char path_of_def)
  have "dropWhile (\<lambda>c. c = slash) (path_of cs) = join_with slash cs"
    using j by (cases "join_with slash cs") (auto simp: path_of_def)
  moreover have "dropWhile (\<lambda>c. c = slash) (rev (join_with slash cs)) = rev (join_with slash cs)"
    using j l by (cases "rev (join_with slash cs)") (auto simp: last_rev [symmetric] hd_rev)
  ultimately show ?thesis by (simp add: trim_slashes_def)
qed

text \<open>What the loop has done to the tables when it ends.\<close>

fun insert_dirs :: "int \<Rightarrow> string \<Rightarrow> string \<Rightarrow> string \<Rightarrow> string list \<Rightarrow> DB \<Rightarrow> DB" where
  "insert_dirs now namespace description cur [] d = d"
| "insert_dirs now namespace description cur (c # cs) d =
     insert_dirs now namespace description (cur @ ''/'' @ c) cs
       (insert_dir now namespace (cur @ ''/'' @ c) (if cs = [] then description else []) d)"

lemma runs_make_dirs:
  "\<forall>c \<in> set cs. c \<noteq> [] \<Longrightarrow>
   runs (make_dirs now namespace description cur cs)
     (\<lambda>d x d'. d' = insert_dirs now namespace description cur cs d)"
proof (induction cs arbitrary: cur)
  case Nil
  then show ?case by (simp add: runs_def ret_def)
next
  case (Cons c cs)
  let ?p = "cur @ ''/'' @ c" and ?desc = "if cs = [] then description else []"
  have "runs (make_dirs now namespace description ?p cs)
      (\<lambda>d x d'. d' = insert_dirs now namespace description ?p cs d)"
    using Cons by simp
  then have "runs (bnd (wrap (''create directory '' @ ?p) (exec (insert_dir now namespace ?p ?desc)))
      (\<lambda>_. make_dirs now namespace description ?p cs))
      (\<lambda>d x d'. d' = insert_dirs now namespace description ?p cs (insert_dir now namespace ?p ?desc d))"
    by (fastforce simp: runs_def bnd_def wrap_def exec_def stmt_def split: option.splits)
  then show ?case using Cons.prems by (simp add: Let_def)
qed

lemma insert_dir_keys:
  "node_key ` set (db_tree (insert_dir now namespace p desc d)) =
     insert (namespace, p) (node_key ` set (db_tree d))"
  "set (db_tree d) \<subseteq> set (db_tree (insert_dir now namespace p desc d))"
  by (auto simp: insert_dir_def)

lemma insert_dirs_keys:
  "node_key ` set (db_tree (insert_dirs now namespace description cur cs d)) =
     node_key ` set (db_tree d) \<union>
     {(namespace, cur @ path_of (take i cs)) | i. 0 < i \<and> i \<le> length cs} \<and>
   set (db_tree d) \<subseteq> set (db_tree (insert_dirs now namespace description cur cs d))"
proof (induction cs arbitrary: cur d)
  case (Cons c cs)
  let ?p = "cur @ ''/'' @ c"
  let ?d = "insert_dir now namespace ?p (if cs = [] then description else []) d"
  have pc: "cur @ path_of (take (Suc i) (c # cs)) = ?p @ path_of (take i cs)" if "0 < i" "i \<le> length cs" for i
    using that by (cases cs; cases i) (auto simp: path_of_def)
  have "{(namespace, cur @ path_of (take i (c # cs))) | i. 0 < i \<and> i \<le> length (c # cs)} =
      insert (namespace, ?p) {(namespace, ?p @ path_of (take i cs)) | i. 0 < i \<and> i \<le> length cs}" (is "?A = ?B")
  proof (intro equalityI subsetI)
    fix x assume "x \<in> ?A"
    then obtain i where i: "x = (namespace, cur @ path_of (take i (c # cs)))" "0 < i" "i \<le> Suc (length cs)" by auto
    then obtain j where j: "i = Suc j" by (cases i) auto
    show "x \<in> ?B"
    proof (cases "j = 0")
      case True
      then show ?thesis using i j by (simp add: path_of_def)
    next
      case False
      then show ?thesis using i j pc [of j] by auto
    qed
  next
    fix x assume "x \<in> ?B"
    then consider "x = (namespace, ?p)" | j where "x = (namespace, ?p @ path_of (take j cs))" "0 < j" "j \<le> length cs"
      by auto
    then show "x \<in> ?A"
    proof cases
      case 1
      then show ?thesis by (auto simp: path_of_def intro!: exI [of _ "Suc 0"])
    next
      case (2 j)
      then have "x = (namespace, cur @ path_of (take (Suc j) (c # cs)))" using pc [of j] by simp
      then show ?thesis using 2 by (intro CollectI exI [of _ "Suc j"]) simp
    qed
  qed
  note e = this
  have k: "node_key ` set (db_tree ?d) = insert (namespace, ?p) (node_key ` set (db_tree d))"
    by (rule insert_dir_keys(1))
  show ?case
  proof
    show "node_key ` set (db_tree (insert_dirs now namespace description cur (c # cs) d)) =
        node_key ` set (db_tree d) \<union> ?A"
      unfolding e insert_dirs.simps conjunct1 [OF Cons.IH [of ?p ?d]] k
        Un_insert_left Un_insert_right ..
    show "set (db_tree d) \<subseteq> set (db_tree (insert_dirs now namespace description cur (c # cs) d))"
      unfolding insert_dirs.simps
      by (rule subset_trans [OF insert_dir_keys(2) conjunct2 [OF Cons.IH [of ?p ?d]]])
  qed
qed simp

text \<open>C15: creating the directory at a path with plain elements makes, in one transaction, a node for
  the path and for every ancestor, adds no other path, and keeps every node there was; on failure
  the tables are unchanged.\<close>

theorem create_directory_makes_ancestors:
  assumes "\<forall>c \<in> set cs. c \<noteq> [] \<and> c \<noteq> ''.'' \<and> c \<noteq> ''..'' \<and> slash \<notin> set c" "cs \<noteq> []"
    "normalizePath p = slash # join_with slash cs"
    "CreateTreeDirectory now namespace p description s = (r, s')"
  shows "case r of Inl e \<Rightarrow> st_db s' = st_db s
    | Inr _ \<Rightarrow> node_key ` set (db_tree (st_db s')) = node_key ` set (db_tree (st_db s)) \<union>
          {(namespace, slash # join_with slash (take i cs)) | i. 0 < i \<and> i \<le> length cs} \<and>
        set (db_tree (st_db s)) \<subseteq> set (db_tree (st_db s'))"
proof (cases r)
  case (Inl e)
  have "safe (CreateTreeDirectory now namespace p description)" by (simp add: CreateTreeDirectory_def)
  then show ?thesis using safeD assms(4) Inl by fastforce
next
  case (Inr x)
  have pl: "\<forall>c \<in> set cs. plain c" using assms(1) by (simp add: plain_def)
  have np: "normalizePath p = path_of cs" using assms(3) by (simp add: path_of_def)
  have sp: "split_on slash (trim_slashes (normalizePath p)) = cs"
    using trim_slashes_path [OF pl assms(2)] split_join [OF assms(2)] assms(1) by (simp add: np)
  have "runs (CreateTreeDirectory now namespace p description)
      (\<lambda>d x d'. d' = insert_dirs now namespace description [] cs d)"
    unfolding CreateTreeDirectory_def Let_def sp
    using runs_Transaction [OF runs_make_dirs] assms(1) by blast
  then have "st_db s' = insert_dirs now namespace description [] cs (st_db s)"
    using runsD assms(4) Inr by fastforce
  then show ?thesis
    using insert_dirs_keys [of now namespace description "[]" cs "st_db s"] Inr by (simp add: path_of_def)
qed

lemma create_directory_makes_ancestors_witness:
  "node_key ` set (db_tree (st_db (snd (CreateTreeDirectory 0 ''n'' ''/a//b/'' [] ex_store)))) =
     {(''n'', ''/a''), (''n'', ''/a/b'')}"
proof -
  let ?s = "snd (CreateTreeDirectory 0 ''n'' ''/a//b/'' [] ex_store)"
  have cs: "\<forall>c \<in> set [''a'', ''b'']. c \<noteq> [] \<and> c \<noteq> ''.'' \<and> c \<noteq> ''..'' \<and> slash \<notin> set c"
    and ne: "[''a'', ''b''] \<noteq> []" by simp_all
  have n: "normalizePath ''/a//b/'' = slash # join_with slash [''a'', ''b'']" by code_simp
  have "\<not> isl (fst (CreateTreeDirectory 0 ''n'' ''/a//b/'' [] ex_store))" by code_simp
  then obtain u where u: "fst (CreateTreeDirectory 0 ''n'' ''/a//b/'' [] ex_store) = Inr u"
    by (metis isl_def sum.exhaust)
  have r: "CreateTreeDirectory 0 ''n'' ''/a//b/'' [] ex_store = (Inr u, ?s)"
    unfolding u [symmetric] by (rule prod.collapse [symmetric])
  have t: "db_tree (st_db ex_store) = []" by (simp add: ex_store_def empty_db_def)
  have i: "{(''n'', slash # join_with slash (take i [''a'', ''b''])) | i. 0 < i \<and> i \<le> length [''a'', ''b'']} =
      {(''n'', ''/a''), (''n'', ''/a/b'')}"
  proof -
    have "{i. 0 < i \<and> i \<le> length [''a'', ''b'']} = {1, 2}" by auto
    then have "{(''n'', slash # join_with slash (take i [''a'', ''b''])) | i. 0 < i \<and> i \<le> length [''a'', ''b'']} =
        (\<lambda>i. (''n'', slash # join_with slash (take i [''a'', ''b'']))) ` {1, 2}" by blast
    then show ?thesis by simp
  qed
  show ?thesis
    using create_directory_makes_ancestors [OF cs ne n r] unfolding sum.case i by (simp add: t)
qed

section \<open>Secrets\<close>

lemma find_skip: "\<forall>x \<in> set xs. \<not> P x \<Longrightarrow> List.find P (xs @ ys) = List.find P ys"
  by (induction xs) auto

text \<open>A secret that was created reads back as its plaintext, for any cipher whose opening undoes
  its sealing under the same key and nonce.\<close>

theorem secret_roundtrip:
  assumes "\<And>k n x. unseal k n (seal k n x) = Some x"
    "CreateSecret seal nonce now namespace name secretType plaintext s = (Inr u, s1)"
    "st_fault s1 (st_tick s1) = None"
  shows "fst (GetSecretValue unseal namespace name s1) = Inr plaintext"
proof -
  obtain key where key: "st_secretKey s = Some key"
    using assms(2) by (auto simp: CreateSecret_def fail_def split: option.splits)
  have ins: "(namespace, name) \<notin> secret_key ` set (db_secrets (st_db s))"
    and s1: "s1 = s\<lparr>st_db := (st_db s)\<lparr>db_secrets := db_secrets (st_db s) @
      [\<lparr>se_Namespace = namespace, se_Name = name, se_SecretType = secretType,
        se_EncryptedValue = seal key nonce plaintext, se_Nonce = nonce,
        se_CreatedAt = now, se_UpdatedAt = now\<rparr>]\<rparr>, st_tick := st_tick s + 1\<rparr>"
    using assms(2) key
    by (auto simp: CreateSecret_def stmt_def sql_insert_def split: option.splits if_splits)
  have "sql_first (\<lambda>r. secret_key r = (namespace, name)) (db_secrets (st_db s1)) =
      Some \<lparr>se_Namespace = namespace, se_Name = name, se_SecretType = secretType,
        se_EncryptedValue = seal key nonce plaintext, se_Nonce = nonce,
        se_CreatedAt = now, se_UpdatedAt = now\<rparr>"
    using ins by (simp add: s1 sql_first_def) (subst find_skip, auto)
  moreover have "st_secretKey s1 = Some key" using key by (simp add: s1)
  ultimately show ?thesis
    using assms(1,3) by (simp add: GetSecretValue_def bnd_def wrap_def query_def stmt_def ret_def)
qed

lemma secret_roundtrip_witness:
  "let seal = (\<lambda>k n x. k @ n @ x);
       unseal = (\<lambda>k n c. if has_prefix c (k @ n) then Some (drop (length k + length n) c) else None);
       s = open_store (\<lambda>_. None) (Some ''key'')
   in fst (GetSecretValue unseal ''n'' ''s'' (snd (CreateSecret seal ''01'' 5 ''n'' ''s'' ''snmp'' ''pw'' s))) =
      Inr ''pw''"
proof -
  define seal :: seal where "seal = (\<lambda>k n x. k @ n @ x)"
  define unseal :: unseal where
    "unseal = (\<lambda>k n c. if has_prefix c (k @ n) then Some (drop (length k + length n) c) else None)"
  define s where "s = open_store (\<lambda>_. None) (Some ''key'')"
  have inv: "unseal k n (seal k n x) = Some x" for k n x
    by (simp add: seal_def unseal_def has_prefix_def)
  obtain s1 where c: "CreateSecret seal ''01'' 5 ''n'' ''s'' ''snmp'' ''pw'' s = (Inr (), s1)"
    and f: "st_fault s1 (st_tick s1) = None"
    by (simp add: s_def open_store_def CreateSecret_def stmt_def sql_insert_def empty_db_def)
  show ?thesis
    unfolding Let_def seal_def [symmetric] unseal_def [symmetric] s_def [symmetric]
    using secret_roundtrip [OF inv c f] by (simp add: c)
qed

end
