(* ===== verification/Sync.thy ===== *)
theory Sync
  imports StoreData PollerStats
begin

text \<open>
  The batched persistence of internal/manager/sync.go: \<open>SyncManager\<close> keeps samples in a buffer and
  writes them, the dirty poller states and the dirty poller statistics to the store.

  The state and stats managers are shared with the rest of the server; they are fields here, and
  an operation takes and returns the manager and the store. A flush of states or stats has three
  moments between which other goroutines run: it reads the dirty entries, writes the batch, and
  clears the dirty flags. Each is a definition of its own, and the flush is their composition. The
  three flush loops call one flush each at every tick of their timers; tickers, the shutdown
  channel and the log lines are not modelled.

  The code keeps the entries by pointer between the moments; here an entry is found again by its
  \<open>Key\<close>. Both are the same as long as no poller is removed and made again during a flush.
\<close>

record SyncConfig =
  StateFlushInterval :: int
  StatsFlushInterval :: int
  SampleBatchSize :: int
  SampleFlushTimeout :: int

definition DefaultSyncConfig :: SyncConfig where
  "DefaultSyncConfig = \<lparr>StateFlushInterval = 5000, StatsFlushInterval = 10000,
     SampleBatchSize = 1000, SampleFlushTimeout = 5000\<rparr>"

record SyncManager =
  sm_states :: StateManager
  sm_stats :: StatsManager
  sm_sampleBuffer :: "Sample list"
  sm_stateFlushInterval :: int
  sm_statsFlushInterval :: int
  sm_sampleBatchSize :: int
  sm_sampleFlushTimeout :: int

definition NewSyncManager :: "StateManager \<Rightarrow> StatsManager \<Rightarrow> SyncConfig option \<Rightarrow> SyncManager" where
  "NewSyncManager stateMgr statsMgr cfg0 =
     (let cfg = (case cfg0 of None \<Rightarrow> DefaultSyncConfig | Some c \<Rightarrow> c) in
      \<lparr>sm_states = stateMgr, sm_stats = statsMgr, sm_sampleBuffer = [],
       sm_stateFlushInterval = StateFlushInterval cfg, sm_statsFlushInterval = StatsFlushInterval cfg,
       sm_sampleBatchSize = SampleBatchSize cfg, sm_sampleFlushTimeout = SampleFlushTimeout cfg\<rparr>)"

section \<open>Samples\<close>

definition flushSamples :: "SyncManager \<times> Store \<Rightarrow> SyncManager \<times> Store" where
  "flushSamples ms =
     (case ms of (m, s) \<Rightarrow>
       if sm_sampleBuffer m = [] then (m, s)
       else (m\<lparr>sm_sampleBuffer := []\<rparr>, snd (InsertSamplesBatch (sm_sampleBuffer m) s)))"

definition AddSample :: "Sample \<Rightarrow> SyncManager \<times> Store \<Rightarrow> SyncManager \<times> Store" where
  "AddSample sample ms =
     (case ms of (m, s) \<Rightarrow>
       let m1 = m\<lparr>sm_sampleBuffer := sm_sampleBuffer m @ [sample]\<rparr>;
           shouldFlush = (int (length (sm_sampleBuffer m1)) \<ge> sm_sampleBatchSize m1)
       in if shouldFlush then flushSamples (m1, s) else (m1, s))"

definition GetBufferedSampleCount :: "SyncManager \<Rightarrow> nat" where
  "GetBufferedSampleCount m = length (sm_sampleBuffer m)"

section \<open>States\<close>

definition state_row :: "PollerState \<Rightarrow> StateRow" where
  "state_row st =
     \<lparr>sr_Namespace = ps_Namespace st, sr_Target = ps_Target st, sr_Poller = ps_Poller st,
      sr_OperState = ps_OperState st, sr_HealthState = ps_HealthState st,
      sr_LastError = ps_LastError st, sr_ConsecutiveFailures = ps_ConsecutiveFailures st,
      sr_LastPollAt = ps_LastPollAt st, sr_LastSuccessAt = ps_LastSuccessAt st,
      sr_LastFailureAt = ps_LastFailureAt st\<rparr>"

text \<open>Read the dirty entries; write them; clear the flags of those that were read.\<close>

definition collect_states :: "SyncManager \<Rightarrow> PollerState list" where
  "collect_states m = StateManager_GetDirty (sm_states m)"

definition write_states :: "PollerState list \<Rightarrow> unit sql" where
  "write_states dirtyStates = BatchUpdatePollerStates (map state_row dirtyStates)"

definition clear_states :: "PollerState list \<Rightarrow> SyncManager \<Rightarrow> SyncManager" where
  "clear_states dirtyStates m =
     m\<lparr>sm_states := map (\<lambda>(k, st). (k, if ps_Key st \<in> ps_Key ` set dirtyStates
                                       then ps_ClearDirty st else st)) (sm_states m)\<rparr>"

definition flushStates :: "SyncManager \<times> Store \<Rightarrow> SyncManager \<times> Store" where
  "flushStates ms =
     (case ms of (m, s) \<Rightarrow>
       let dirtyStates = collect_states m in
       if dirtyStates = [] then (m, s)
       else case write_states dirtyStates s of
              (Inl err, s') \<Rightarrow> (m, s')
            | (Inr _, s') \<Rightarrow> (clear_states dirtyStates m, s'))"

section \<open>Statistics\<close>

text \<open>
  \<open>PollMsSum\<close> and \<open>PollMsCount\<close> of the record are left at zero. \<open>GetStats\<close> reports 0 for a
  minimum that was never set, so \<open>minMs >= 0\<close> holds for every poller with valid times.
\<close>

definition stats_row :: "PollerStats \<Rightarrow> StatsRow" where
  "stats_row st =
     (let v = GetStats st in
      \<lparr>tr_Namespace = st_Namespace st, tr_Target = st_Target st, tr_Poller = st_Poller st,
       tr_PollsTotal = sv_total v, tr_PollsSuccess = sv_success v, tr_PollsFailed = sv_failed v,
       tr_PollsTimeout = sv_timeout v, tr_PollMsSum = 0,
       tr_PollMsMin = (if sv_minMs v \<ge> 0 then Some (sv_minMs v) else None),
       tr_PollMsMax = (if sv_maxMs v > 0 then Some (sv_maxMs v) else None),
       tr_PollMsCount = 0\<rparr>)"

definition collect_stats :: "SyncManager \<Rightarrow> PollerStats list" where
  "collect_stats m = StatsManager_GetDirty (sm_stats m)"

definition write_stats :: "PollerStats list \<Rightarrow> unit sql" where
  "write_stats dirtyStats = BatchUpdatePollerStats (map stats_row dirtyStats)"

definition clear_stats :: "PollerStats list \<Rightarrow> SyncManager \<Rightarrow> SyncManager" where
  "clear_stats dirtyStats m =
     m\<lparr>sm_stats := map (\<lambda>(k, st). (k, if st_Key st \<in> st_Key ` set dirtyStats
                                      then st_ClearDirty st else st)) (sm_stats m)\<rparr>"

definition flushStats :: "SyncManager \<times> Store \<Rightarrow> SyncManager \<times> Store" where
  "flushStats ms =
     (case ms of (m, s) \<Rightarrow>
       let dirtyStats = collect_stats m in
       if dirtyStats = [] then (m, s)
       else case write_stats dirtyStats s of
              (Inl err, s') \<Rightarrow> (m, s')
            | (Inr _, s') \<Rightarrow> (clear_stats dirtyStats m, s'))"

definition FlushAll :: "SyncManager \<times> Store \<Rightarrow> SyncManager \<times> Store" where
  "FlushAll ms = flushSamples (flushStats (flushStates ms))"

section \<open>No sample is lost, repeated or reordered while the store works\<close>

datatype sync_op = OpAdd Sample | OpFlushSamples

fun sync_step :: "sync_op \<Rightarrow> SyncManager \<times> Store \<Rightarrow> SyncManager \<times> Store" where
  "sync_step (OpAdd x) ms = AddSample x ms"
| "sync_step OpFlushSamples ms = flushSamples ms"

definition sync_run :: "sync_op list \<Rightarrow> SyncManager \<times> Store \<Rightarrow> SyncManager \<times> Store" where
  "sync_run ops ms = foldl (\<lambda>ms p. sync_step p ms) ms ops"

fun added :: "sync_op list \<Rightarrow> Sample list" where
  "added [] = []"
| "added (OpAdd x # ops) = x # added ops"
| "added (OpFlushSamples # ops) = added ops"

text \<open>All the samples the server still has, the oldest first: those stored, then those buffered.\<close>

definition samples_held :: "SyncManager \<times> Store \<Rightarrow> Sample list" where
  "samples_held ms = db_samples (st_db (snd ms)) @ sm_sampleBuffer (fst ms)"

definition buffer_bounded :: "SyncManager \<Rightarrow> bool" where
  "buffer_bounded m \<longleftrightarrow> sm_sampleBuffer m = [] \<or> int (length (sm_sampleBuffer m)) < sm_sampleBatchSize m"

lemma added_append [simp]: "added (ops @ ops') = added ops @ added ops'"
  by (induction ops rule: added.induct) simp_all

lemma sync_run_Nil [simp]: "sync_run [] ms = ms"
  by (simp add: sync_run_def)

lemma sync_run_snoc [simp]: "sync_run (ops @ [p]) ms = sync_step p (sync_run ops ms)"
  by (simp add: sync_run_def)

lemma succeeds_InsertSamplesBatch: "succeeds (InsertSamplesBatch samples)"
  unfolding InsertSamplesBatch_def InsertSample_def by auto

text \<open>A flush moves the whole buffer to the table, or drops it when the store fails.\<close>

lemma flushSamples_cases:
  assumes "flushSamples (m, s) = (m', s')"
  shows "m' = m\<lparr>sm_sampleBuffer := []\<rparr> \<and>
    (samples_held (m', s') = samples_held (m, s) \<or>
     db_samples (st_db s') = db_samples (st_db s) \<and> \<not> faultless s) \<and>
    (faultless s \<longrightarrow> faultless s')"
proof (cases "sm_sampleBuffer m = []")
  case True
  with assms show ?thesis by (auto simp: flushSamples_def samples_held_def)
next
  case False
  obtain r t where b: "InsertSamplesBatch (sm_sampleBuffer m) s = (r, t)" by fastforce
  from False b assms have m: "m' = m\<lparr>sm_sampleBuffer := []\<rparr>" "s' = t"
    by (auto simp: flushSamples_def)
  have ok: "\<exists>x. r = Inr x \<and> faultless t" if "faultless s"
    using succeeds_InsertSamplesBatch that b by (metis succeedsE prod.inject)
  show ?thesis
  proof (cases r)
    case (Inl e)
    then have "st_db t = st_db s" "\<not> faultless s"
      using b safeD [OF safe_InsertSamplesBatch] ok by auto
    with m show ?thesis by simp
  next
    case (Inr x)
    then have "db_samples (st_db t) = db_samples (st_db s) @ sm_sampleBuffer m"
      using b runsD [OF runs_InsertSamplesBatch] by fastforce
    with m ok show ?thesis by (auto simp: samples_held_def)
  qed
qed

lemma flushSamples_held:
  "subseq (samples_held (flushSamples ms)) (samples_held ms) \<and>
   (faultless (snd ms) \<longrightarrow> samples_held (flushSamples ms) = samples_held ms \<and>
                           faultless (snd (flushSamples ms))) \<and>
   fst (flushSamples ms) = (fst ms)\<lparr>sm_sampleBuffer := []\<rparr>"
proof -
  obtain m s m' s' where ms: "ms = (m, s)" "flushSamples (m, s) = (m', s')" by fastforce
  show ?thesis
    using flushSamples_cases [OF ms(2)] ms by (auto simp: samples_held_def)
qed

lemma sync_step_held:
  "subseq (samples_held (sync_step p ms)) (samples_held ms @ added [p]) \<and>
   (faultless (snd ms) \<longrightarrow> samples_held (sync_step p ms) = samples_held ms @ added [p] \<and>
                           faultless (snd (sync_step p ms))) \<and>
   (buffer_bounded (fst ms) \<longrightarrow> buffer_bounded (fst (sync_step p ms)))"
proof (cases p)
  case (OpAdd x)
  obtain m s where ms: "ms = (m, s)" by fastforce
  let ?m = "m\<lparr>sm_sampleBuffer := sm_sampleBuffer m @ [x]\<rparr>"
  have held: "samples_held (?m, s) = samples_held ms @ [x]"
    by (simp add: samples_held_def ms)
  show ?thesis
  proof (cases "int (length (sm_sampleBuffer ?m)) \<ge> sm_sampleBatchSize ?m")
    case True
    then have "sync_step p ms = flushSamples (?m, s)"
      by (simp add: OpAdd AddSample_def ms)
    then show ?thesis
      using flushSamples_held [of "(?m, s)"] held OpAdd ms by (simp add: buffer_bounded_def)
  next
    case False
    then have "sync_step p ms = (?m, s)"
      by (simp add: OpAdd AddSample_def ms)
    with False held OpAdd ms show ?thesis by (simp add: buffer_bounded_def)
  qed
next
  case OpFlushSamples
  then show ?thesis using flushSamples_held [of ms] by (simp add: buffer_bounded_def)
qed


definition ex_sync :: SyncManager where
  "ex_sync = NewSyncManager [] [] (Some (DefaultSyncConfig\<lparr>SampleBatchSize := 2\<rparr>))"


text \<open>A flush whose transaction fails has emptied the buffer and stored nothing: the samples of
  the batch are gone.\<close>

theorem failed_flush_drops_batch:
  assumes "fst (InsertSamplesBatch (sm_sampleBuffer m) s) = Inl err"
    "flushSamples (m, s) = (m', s')"
  shows "db_samples (st_db s') = db_samples (st_db s) \<and> sm_sampleBuffer m' = [] \<and>
    sm_sampleBuffer m \<noteq> []"
proof -
  have ne: "sm_sampleBuffer m \<noteq> []"
    using assms(1) by (auto simp: InsertSamplesBatch_def ret_def)
  obtain t where t: "InsertSamplesBatch (sm_sampleBuffer m) s = (Inl err, t)"
    using assms(1) by (metis prod.collapse)
  then have "st_db t = st_db s" using safeD [OF safe_InsertSamplesBatch] by blast
  with assms(2) ne t show ?thesis by (auto simp: flushSamples_def)
qed

lemma failed_flush_drops_batch_witness:
  "\<exists>(m :: SyncManager) s. sm_sampleBuffer m = [ex_sample 1 5] \<and>
     db_samples (st_db (snd (flushSamples (m, s)))) = [] \<and> sm_sampleBuffer (fst (flushSamples (m, s))) = []"
proof -
  let ?m = "ex_sync\<lparr>sm_sampleBuffer := [ex_sample 1 5]\<rparr>"
  let ?s = "open_store (\<lambda>n. if n = 0 then Some ''disk full'' else None) None"
  have "isl (fst (InsertSamplesBatch (sm_sampleBuffer ?m) ?s))" by code_simp
  then obtain e where e: "fst (InsertSamplesBatch (sm_sampleBuffer ?m) ?s) = Inl e"
    by (auto simp: isl_def)
  have f: "flushSamples (?m, ?s) = (fst (flushSamples (?m, ?s)), snd (flushSamples (?m, ?s)))"
    by (rule prod.collapse [symmetric])
  have "db_samples (st_db ?s) = []" by (simp add: open_store_def empty_db_def)
  moreover have "sm_sampleBuffer ?m = [ex_sample 1 5]" by simp
  ultimately show ?thesis using failed_flush_drops_batch [OF e f] by metis
qed

section \<open>Flushing dirty entries\<close>

text \<open>
  What flushing states and flushing statistics have in common: entries with a dirty flag and a
  key, and a row per entry that overwrites the row of the same key.
\<close>

locale dirty_flush =
  fixes dirty :: "'e \<Rightarrow> bool"
    and clean :: "'e \<Rightarrow> 'e"
    and ekey :: "'e \<Rightarrow> string"
    and row :: "'e \<Rightarrow> 'r"
    and rkey :: "'r \<Rightarrow> 'k"
  assumes clean_of_clean: "\<not> dirty e \<Longrightarrow> clean e = e"
    and row_key: "rkey (row e) = rkey (row e') \<Longrightarrow> ekey e = ekey e'"
begin

definition row_after :: "'e list \<Rightarrow> 'r \<Rightarrow> 'r" where
  "row_after es r = (case List.find (\<lambda>e. dirty e \<and> rkey (row e) = rkey r) es of
     None \<Rightarrow> r | Some e \<Rightarrow> row e)"

definition overwrite :: "'r \<Rightarrow> 'r \<Rightarrow> 'r" where
  "overwrite x r = (if rkey r = rkey x then x else r)"

lemma overwrite_none: "\<forall>x \<in> set xs. rkey x \<noteq> rkey r \<Longrightarrow> foldl (\<lambda>r x. overwrite x r) r xs = r"
  by (induction xs) (auto simp: overwrite_def)

lemma overwrite_all:
  assumes "distinct (map ekey es)"
  shows "foldl (\<lambda>r x. overwrite x r) r (map row (filter dirty es)) = row_after es r"
  using assms
proof (induction es)
  case Nil
  then show ?case by (simp add: row_after_def)
next
  case (Cons e es)
  show ?case
  proof (cases "dirty e \<and> rkey (row e) = rkey r")
    case True
    have "\<forall>x \<in> set (map row (filter dirty es)). rkey x \<noteq> rkey (row e)"
    proof
      fix x assume "x \<in> set (map row (filter dirty es))"
      then obtain e' where e': "e' \<in> set es" "x = row e'" by auto
      then have "ekey e' \<noteq> ekey e" using Cons.prems by (auto simp: rev_image_eqI)
      then show "rkey x \<noteq> rkey (row e)" using row_key e'(2) by blast
    qed
    then have "foldl (\<lambda>r x. overwrite x r) (row e) (map row (filter dirty es)) = row e"
      by (rule overwrite_none)
    then show ?thesis using True by (simp add: row_after_def overwrite_def)
  next
    case False
    have IH: "foldl (\<lambda>r x. overwrite x r) r (map row (filter dirty es)) = row_after es r"
      using Cons by simp
    have "row_after (e # es) r = row_after es r" using False by (auto simp: row_after_def)
    then show ?thesis using False IH by (auto simp: overwrite_def)
  qed
qed

lemma row_after_dirty:
  assumes "distinct (map ekey es)" "e \<in> set es" "dirty e" "rkey (row e) = rkey r"
  shows "row_after es r = row e"
proof -
  have "List.find (\<lambda>e. dirty e \<and> rkey (row e) = rkey r) es \<noteq> None"
    using assms(2-4) by (auto simp: find_None_iff)
  then obtain e' where e': "List.find (\<lambda>e. dirty e \<and> rkey (row e) = rkey r) es = Some e'" by blast
  then have "e' \<in> set es" "rkey (row e') = rkey r" by (auto simp: find_Some_iff)
  then have "e' = e" using row_key assms(1,2,4) by (metis distinct_map inj_on_def)
  with e' show ?thesis by (simp add: row_after_def)
qed

lemma row_after_key: "rkey (row_after es r) = rkey r"
  by (auto simp: row_after_def find_Some_iff split: option.split)

lemma clear_all:
  "map (\<lambda>(k, e). (k, if ekey e \<in> ekey ` set (filter dirty (map snd m)) then clean e else e)) m =
   map (\<lambda>(k, e). (k, clean e)) m"
proof (rule map_cong [OF refl])
  fix x assume x: "x \<in> set m"
  obtain k e where ke: "x = (k, e)" by (cases x)
  have "dirty e \<Longrightarrow> ekey e \<in> ekey ` set (filter dirty (map snd m))" using x ke by force
  then have "(if ekey e \<in> ekey ` set (filter dirty (map snd m)) then clean e else e) = clean e"
    by (metis clean_of_clean)
  then show "(case x of (k, e) \<Rightarrow>
      (k, if ekey e \<in> ekey ` set (filter dirty (map snd m)) then clean e else e)) =
    (case x of (k, e) \<Rightarrow> (k, clean e))"
    by (simp only: ke prod.case)
qed

end

interpretation fl_states: dirty_flush ps_IsDirty ps_ClearDirty ps_Key state_row state_row_key
  by unfold_locales (auto simp: ps_IsDirty_def ps_ClearDirty_def ps_Key_def state_row_def)

interpretation fl_stats: dirty_flush st_IsDirty st_ClearDirty st_Key stats_row stats_row_key
  by unfold_locales (auto simp: st_IsDirty_def st_ClearDirty_def st_Key_def stats_row_def Let_def)

text \<open>Every entry of the managers is stored under its own key.\<close>

definition states_ok :: "StateManager \<Rightarrow> bool" where
  "states_ok m \<longleftrightarrow> gomap_ok m \<and> (\<forall>(k, st) \<in> set m. ps_Key st = k)"

definition stats_ok :: "StatsManager \<Rightarrow> bool" where
  "stats_ok m \<longleftrightarrow> gomap_ok m \<and> (\<forall>(k, st) \<in> set m. st_Key st = k)"

lemma keyed_distinct:
  assumes "gomap_ok m" "\<forall>(k, e) \<in> set m. f e = k"
  shows "distinct (map f (mvals m))"
proof -
  have "map (f \<circ> snd) m = mkeys m" using assms(2) by (intro map_cong) auto
  then show ?thesis using assms(1) unfolding gomap_ok_def by (metis list.map_comp)
qed

lemma put_state_overwrites: "put_state x d = d\<lparr>db_states := map (fl_states.overwrite x) (db_states d)\<rparr>"
proof -
  have "sql_update (\<lambda>r. state_row_key r = state_row_key x)
     (\<lambda>r. r\<lparr>sr_OperState := sr_OperState x, sr_HealthState := sr_HealthState x,
            sr_LastError := sr_LastError x, sr_ConsecutiveFailures := sr_ConsecutiveFailures x,
            sr_LastPollAt := sr_LastPollAt x, sr_LastSuccessAt := sr_LastSuccessAt x,
            sr_LastFailureAt := sr_LastFailureAt x\<rparr>) (db_states d) =
     map (fl_states.overwrite x) (db_states d)"
    by (auto simp: sql_update_def fl_states.overwrite_def)
  then show ?thesis by (simp add: put_state_def)
qed

lemma put_stats_overwrites: "put_stats x d = d\<lparr>db_stats := map (fl_stats.overwrite x) (db_stats d)\<rparr>"
proof -
  have "sql_update (\<lambda>r. stats_row_key r = stats_row_key x)
     (\<lambda>r. r\<lparr>tr_PollsTotal := tr_PollsTotal x, tr_PollsSuccess := tr_PollsSuccess x,
            tr_PollsFailed := tr_PollsFailed x, tr_PollsTimeout := tr_PollsTimeout x,
            tr_PollMsSum := tr_PollMsSum x, tr_PollMsMin := tr_PollMsMin x,
            tr_PollMsMax := tr_PollMsMax x, tr_PollMsCount := tr_PollMsCount x\<rparr>) (db_stats d) =
     map (fl_stats.overwrite x) (db_stats d)"
    by (auto simp: sql_update_def fl_stats.overwrite_def)
  then show ?thesis by (simp add: put_stats_def)
qed

lemma foldl_map_rows:
  assumes "\<And>x d. put x d = upd (\<lambda>rs. map (f x) rs) d"
    "\<And>g h d. upd g (upd h d) = upd (\<lambda>rs. g (h rs)) d" "\<And>d. upd (\<lambda>rs. rs) d = d"
  shows "foldl (\<lambda>d x. put x d) d xs = upd (map (\<lambda>r. foldl (\<lambda>r x. f x r) r xs)) d"
proof (induction xs rule: rev_induct)
  case Nil
  have "upd (map (\<lambda>r. r)) d = upd (\<lambda>rs. rs) d" by (rule arg_cong [where f = "\<lambda>g. upd g d"]) auto
  then show ?case using assms(3) by simp
next
  case (snoc x xs)
  have "upd (\<lambda>rs. map (f x) (map (\<lambda>r. foldl (\<lambda>r x. f x r) r xs) rs)) d =
      upd (map (\<lambda>r. foldl (\<lambda>r x. f x r) r (xs @ [x]))) d"
    by (rule arg_cong [where f = "\<lambda>g. upd g d"]) (auto simp: fun_eq_iff)
  then show ?case using snoc assms(1,2) by simp
qed

lemma put_states:
  "foldl (\<lambda>d x. put_state x d) d xs =
   d\<lparr>db_states := map (\<lambda>r. foldl (\<lambda>r x. fl_states.overwrite x r) r xs) (db_states d)\<rparr>"
  by (rule foldl_map_rows [where upd = "\<lambda>g d. d\<lparr>db_states := g (db_states d)\<rparr>"])
     (simp_all add: put_state_overwrites)

lemma put_statss:
  "foldl (\<lambda>d x. put_stats x d) d xs =
   d\<lparr>db_stats := map (\<lambda>r. foldl (\<lambda>r x. fl_stats.overwrite x r) r xs) (db_stats d)\<rparr>"
  by (rule foldl_map_rows [where upd = "\<lambda>g d. d\<lparr>db_stats := g (db_stats d)\<rparr>"])
     (simp_all add: put_stats_overwrites)

lemma runs_batch:
  assumes "\<And>x. g x = exec (put x)"
  shows "runs (if xs = [] then ret () else Transaction (bnd (exec (\<lambda>d. d)) (\<lambda>_. each g xs)))
    (\<lambda>d _ d'. d' = foldl (\<lambda>d x. put x d) d xs)"
proof (cases "xs = []")
  case True
  then show ?thesis by (simp add: runs_def ret_def)
next
  case False
  have "runs (each g xs) (\<lambda>d _ d'. d' = foldl (\<lambda>d x. put x d) d xs)"
    by (rule runs_each) (simp add: assms runs_exec)
  then show ?thesis
    using False runs_Transaction [OF runs_exec_bnd [where f = "\<lambda>d. d" and k = "\<lambda>_. each g xs"]]
    by simp
qed

lemma write_states_run:
  "runs (write_states sts) (\<lambda>d _ d'. d' = foldl (\<lambda>d x. put_state x d) d (map state_row sts))"
  "safe (write_states sts)" "succeeds (write_states sts)"
  unfolding write_states_def BatchUpdatePollerStates_def
  using runs_batch [of "\<lambda>st. exec (put_state st)" put_state "map state_row sts"] by auto

lemma write_stats_run:
  "runs (write_stats sts) (\<lambda>d _ d'. d' = foldl (\<lambda>d x. put_stats x d) d (map stats_row sts))"
  "safe (write_stats sts)" "succeeds (write_stats sts)"
  unfolding write_stats_def BatchUpdatePollerStats_def
  using runs_batch [of "\<lambda>st. exec (put_stats st)" put_stats "map stats_row sts"] by auto

text \<open>
  What a flush is to do: the row of a poller whose entry is dirty becomes that entry, every other
  row stays, and no entry is dirty any more.
\<close>

definition flushed_state :: "PollerState list \<Rightarrow> StateRow \<Rightarrow> StateRow" where
  "flushed_state sts r =
     (case List.find (\<lambda>st. ps_IsDirty st \<and> state_row_key (state_row st) = state_row_key r) sts of
        None \<Rightarrow> r | Some st \<Rightarrow> state_row st)"

definition flushed_stats :: "PollerStats list \<Rightarrow> StatsRow \<Rightarrow> StatsRow" where
  "flushed_stats sts r =
     (case List.find (\<lambda>st. st_IsDirty st \<and> stats_row_key (stats_row st) = stats_row_key r) sts of
        None \<Rightarrow> r | Some st \<Rightarrow> stats_row st)"

definition clean_states :: "SyncManager \<Rightarrow> SyncManager" where
  "clean_states m = m\<lparr>sm_states := map (\<lambda>(k, st). (k, ps_ClearDirty st)) (sm_states m)\<rparr>"

definition clean_stats :: "SyncManager \<Rightarrow> SyncManager" where
  "clean_stats m = m\<lparr>sm_stats := map (\<lambda>(k, st). (k, st_ClearDirty st)) (sm_stats m)\<rparr>"

lemma nothing_dirty_states:
  assumes "collect_states m = []"
  shows "clean_states m = m" "map (flushed_state (mvals (sm_states m))) rs = rs"
proof -
  have c: "\<not> ps_IsDirty st" if "(k, st) \<in> set (sm_states m)" for k st
    using assms that by (force simp: collect_states_def StateManager_GetDirty_def filter_empty_conv)
  have "map (\<lambda>(k, st). (k, ps_ClearDirty st)) (sm_states m) = sm_states m"
    using c fl_states.clean_of_clean by (intro map_idI) fastforce
  then show "clean_states m = m" by (simp add: clean_states_def)
  have "List.find (\<lambda>st. ps_IsDirty st \<and> state_row_key (state_row st) = state_row_key r)
      (mvals (sm_states m)) = None" for r
    using c by (auto simp: find_None_iff)
  then have "flushed_state (mvals (sm_states m)) r = r" for r
    unfolding flushed_state_def by (simp only: option.case)
  then show "map (flushed_state (mvals (sm_states m))) rs = rs"
    by (simp add: map_idI)
qed

lemma nothing_dirty_stats:
  assumes "collect_stats m = []"
  shows "clean_stats m = m" "map (flushed_stats (mvals (sm_stats m))) rs = rs"
proof -
  have c: "\<not> st_IsDirty st" if "(k, st) \<in> set (sm_stats m)" for k st
    using assms that by (force simp: collect_stats_def StatsManager_GetDirty_def filter_empty_conv)
  have "map (\<lambda>(k, st). (k, st_ClearDirty st)) (sm_stats m) = sm_stats m"
    using c fl_stats.clean_of_clean by (intro map_idI) fastforce
  then show "clean_stats m = m" by (simp add: clean_stats_def)
  have "List.find (\<lambda>st. st_IsDirty st \<and> stats_row_key (stats_row st) = stats_row_key r)
      (mvals (sm_stats m)) = None" for r
    using c by (auto simp: find_None_iff)
  then have "flushed_stats (mvals (sm_stats m)) r = r" for r
    unfolding flushed_stats_def by (simp only: option.case)
  then show "map (flushed_stats (mvals (sm_stats m))) rs = rs"
    by (simp add: map_idI)
qed

lemma rows_after_states:
  assumes "states_ok sts"
  shows "foldl (\<lambda>r x. fl_states.overwrite x r) r (map state_row (StateManager_GetDirty sts)) =
    flushed_state (mvals sts) r"
  unfolding StateManager_GetDirty_def flushed_state_def fl_states.row_after_def [symmetric]
  by (rule fl_states.overwrite_all, rule keyed_distinct) (use assms in \<open>auto simp: states_ok_def\<close>)

lemma rows_after_stats:
  assumes "stats_ok sts"
  shows "foldl (\<lambda>r x. fl_stats.overwrite x r) r (map stats_row (StatsManager_GetDirty sts)) =
    flushed_stats (mvals sts) r"
  unfolding StatsManager_GetDirty_def flushed_stats_def fl_stats.row_after_def [symmetric]
  by (rule fl_stats.overwrite_all, rule keyed_distinct) (use assms in \<open>auto simp: stats_ok_def\<close>)

lemma flush_states_spec:
  assumes "states_ok (sm_states m)" "flushStates (m, s) = (m', s')"
  shows "(m' = clean_states m \<and> st_db s' = (st_db s)\<lparr>db_states :=
       map (flushed_state (mvals (sm_states m))) (db_states (st_db s))\<rparr>) \<or>
     (\<not> faultless s \<and> m' = m \<and> st_db s' = st_db s)"
proof (cases "collect_states m = []")
  case True
  with assms(2) show ?thesis by (auto simp: flushStates_def nothing_dirty_states)
next
  case False
  obtain r t where w: "write_states (collect_states m) s = (r, t)" by fastforce
  show ?thesis
  proof (cases r)
    case (Inl e)
    then have "\<not> faultless s" using w write_states_run(3) by (metis succeedsE prod.inject sum.distinct(1))
    moreover have "st_db t = st_db s" using Inl w safeD [OF write_states_run(2)] by blast
    ultimately show ?thesis using Inl w False assms(2) by (auto simp: flushStates_def Let_def)
  next
    case (Inr x)
    have "st_db t = (st_db s)\<lparr>db_states := map (flushed_state (mvals (sm_states m))) (db_states (st_db s))\<rparr>"
      using runsD [OF write_states_run(1)] w Inr rows_after_states [OF assms(1)]
      by (simp add: put_states collect_states_def)
    moreover have "clear_states (collect_states m) m = clean_states m"
      unfolding clear_states_def collect_states_def StateManager_GetDirty_def clean_states_def
      by (simp only: fl_states.clear_all)
    ultimately show ?thesis using Inr w False assms(2) by (auto simp: flushStates_def Let_def)
  qed
qed

lemma flush_stats_spec:
  assumes "stats_ok (sm_stats m)" "flushStats (m, s) = (m', s')"
  shows "(m' = clean_stats m \<and> st_db s' = (st_db s)\<lparr>db_stats :=
       map (flushed_stats (mvals (sm_stats m))) (db_stats (st_db s))\<rparr>) \<or>
     (\<not> faultless s \<and> m' = m \<and> st_db s' = st_db s)"
proof (cases "collect_stats m = []")
  case True
  with assms(2) show ?thesis by (auto simp: flushStats_def nothing_dirty_stats)
next
  case False
  obtain r t where w: "write_stats (collect_stats m) s = (r, t)" by fastforce
  show ?thesis
  proof (cases r)
    case (Inl e)
    then have "\<not> faultless s" using w write_stats_run(3) by (metis succeedsE prod.inject sum.distinct(1))
    moreover have "st_db t = st_db s" using Inl w safeD [OF write_stats_run(2)] by blast
    ultimately show ?thesis using Inl w False assms(2) by (auto simp: flushStats_def Let_def)
  next
    case (Inr x)
    have "st_db t = (st_db s)\<lparr>db_stats := map (flushed_stats (mvals (sm_stats m))) (db_stats (st_db s))\<rparr>"
      using runsD [OF write_stats_run(1)] w Inr rows_after_stats [OF assms(1)]
      by (simp add: put_statss collect_stats_def)
    moreover have "clear_stats (collect_stats m) m = clean_stats m"
      unfolding clear_stats_def collect_stats_def StatsManager_GetDirty_def clean_stats_def
      by (simp only: fl_stats.clear_all)
    ultimately show ?thesis using Inr w False assms(2) by (auto simp: flushStats_def Let_def)
  qed
qed

lemma flush_faultless:
  "faultless s \<Longrightarrow> flushStates (m, s) = (m', s') \<Longrightarrow> faultless s'"
  "faultless s \<Longrightarrow> flushStats (m, s) = (m', s') \<Longrightarrow> faultless s'"
proof -
  assume f: "faultless s" and "flushStates (m, s) = (m', s')"
  moreover obtain x t where "write_states (collect_states m) s = (Inr x, t)" "faultless t"
    using write_states_run(3) f by (rule succeedsE)
  ultimately show "faultless s'" by (auto simp: flushStates_def Let_def split: if_splits)
next
  assume f: "faultless s" and "flushStats (m, s) = (m', s')"
  moreover obtain x t where "write_stats (collect_stats m) s = (Inr x, t)" "faultless t"
    using write_stats_run(3) f by (rule succeedsE)
  ultimately show "faultless s'" by (auto simp: flushStats_def Let_def split: if_splits)
qed

text \<open>The row of a dirty poller is its entry after the flush, whatever it was before.\<close>

lemma flushed_state_dirty:
  assumes "states_ok sts" "(k, st) \<in> set sts" "ps_IsDirty st"
    "state_row_key (flushed_state (mvals sts) r0) = state_row_key (state_row st)"
  shows "flushed_state (mvals sts) r0 = state_row st"
proof (cases "List.find (\<lambda>st. ps_IsDirty st \<and> state_row_key (state_row st) = state_row_key r0) (mvals sts)")
  case None
  then have "flushed_state (mvals sts) r0 = r0" unfolding flushed_state_def by (simp only: option.case)
  then have "ps_IsDirty st \<and> state_row_key (state_row st) = state_row_key r0"
    using assms(3,4) by (simp only: simp_thms)
  moreover have "st \<in> set (mvals sts)" using assms(2) by force
  ultimately show ?thesis using None unfolding find_None_iff by blast
next
  case (Some st')
  then have f: "flushed_state (mvals sts) r0 = state_row st'"
    unfolding flushed_state_def by (simp only: option.case)
  have in': "st' \<in> set (mvals sts)"
    using sql_first_Some [unfolded sql_first_def, OF Some] by (rule conjunct1)
  have "ps_Key st' = ps_Key st" using assms(4) unfolding f by (rule fl_states.row_key)
  moreover have "distinct (map ps_Key (mvals sts))"
    using assms(1) by (intro keyed_distinct) (auto simp: states_ok_def)
  moreover have "st \<in> set (mvals sts)" using assms(2) by force
  ultimately have "st' = st" using in' by (metis distinct_map inj_on_def)
  with f show ?thesis by simp
qed

section \<open>Properties of the flushes\<close>

text \<open>A flush of states is all or nothing. Either the rows of the dirty pollers are exactly their
  entries, all other rows are as before and nothing is dirty, or a statement failed and neither
  the store nor the dirty flags changed, so the next tick tries again.\<close>

theorem flush_states_all_or_nothing:
  assumes "states_ok (sm_states m)" "flushStates (m, s) = (m', s')"
  shows "(m' = clean_states m \<and> st_db s' = (st_db s)\<lparr>db_states :=
       map (flushed_state (StateManager_GetAll (sm_states m))) (db_states (st_db s))\<rparr>) \<or>
     (\<not> faultless s \<and> m' = m \<and> st_db s' = st_db s)"
  using flush_states_spec [OF assms] by (simp add: StateManager_GetAll_def)

definition ex_row :: StateRow where
  "ex_row = state_row (NewPollerState ''n'' ''t'' ''p'')"

definition ex_states :: StateManager where
  "ex_states = with_state (''n'', ''t'', ''p'') (ps_RecordPollResult False ''timeout'' 7 42) []"

definition ex_sync_store :: "(nat \<Rightarrow> string option) \<Rightarrow> Store" where
  "ex_sync_store fault = (open_store fault None)\<lparr>st_db := empty_db\<lparr>db_states := [ex_row]\<rparr>\<rparr>"

lemma ex_states_ok: "states_ok ex_states"
  by code_simp

lemma flush_states_all_or_nothing_witness:
  "db_states (st_db (snd (flushStates (ex_sync\<lparr>sm_states := ex_states\<rparr>, ex_sync_store (\<lambda>_. None))))) =
     map (flushed_state (StateManager_GetAll ex_states)) [ex_row]"
proof -
  let ?m = "ex_sync\<lparr>sm_states := ex_states\<rparr>" and ?s = "ex_sync_store (\<lambda>_. None)"
  have ok: "states_ok (sm_states ?m)" using ex_states_ok by simp
  have f: "flushStates (?m, ?s) = (fst (flushStates (?m, ?s)), snd (flushStates (?m, ?s)))"
    by (rule prod.collapse [symmetric])
  have "faultless ?s" by (simp add: faultless_def ex_sync_store_def open_store_def)
  with flush_states_all_or_nothing [OF ok f] show ?thesis by (auto simp: ex_sync_store_def)
qed

text \<open>The three flushes in a row, while the engine fails no statement.\<close>

lemma FlushAll_works:
  assumes "states_ok (sm_states m)" "stats_ok (sm_stats m)" "faultless s"
    "FlushAll (m, s) = (m', s')"
  shows "m' = (clean_stats (clean_states m))\<lparr>sm_sampleBuffer := []\<rparr> \<and>
    st_db s' = (st_db s)\<lparr>
      db_states := map (flushed_state (StateManager_GetAll (sm_states m))) (db_states (st_db s)),
      db_stats := map (flushed_stats (StatsManager_GetAll (sm_stats m))) (db_stats (st_db s)),
      db_samples := db_samples (st_db s) @ sm_sampleBuffer m\<rparr> \<and> faultless s'"
proof -
  obtain m1 s1 where 1: "flushStates (m, s) = (m1, s1)" by fastforce
  obtain m2 s2 where 2: "flushStats (m1, s1) = (m2, s2)" by fastforce
  have f1: "faultless s1" by (rule flush_faultless(1) [OF assms(3) 1])
  have f2: "faultless s2" by (rule flush_faultless(2) [OF f1 2])
  have d1: "m1 = clean_states m" "st_db s1 = (st_db s)\<lparr>db_states :=
       map (flushed_state (mvals (sm_states m))) (db_states (st_db s))\<rparr>"
    using flush_states_spec [OF assms(1) 1] assms(3) by auto
  have st: "sm_stats m1 = sm_stats m" by (simp add: d1 clean_states_def)
  have d2: "m2 = clean_stats m1" "st_db s2 = (st_db s1)\<lparr>db_stats :=
       map (flushed_stats (mvals (sm_stats m))) (db_stats (st_db s1))\<rparr>"
    using flush_stats_spec [OF _ 2] assms(2) f1 by (auto simp: st)
  have fl: "flushSamples (m2, s2) = (m', s')" using assms(4) 1 2 by (simp add: FlushAll_def)
  have buf: "sm_sampleBuffer m2 = sm_sampleBuffer m" by (simp add: d1 d2 clean_states_def clean_stats_def)
  show ?thesis
  proof (cases "sm_sampleBuffer m2 = []")
    case True
    then have "m' = m2" "s' = s2" using fl by (auto simp: flushSamples_def)
    moreover have "m2 = m2\<lparr>sm_sampleBuffer := []\<rparr>" using True by simp
    ultimately show ?thesis
      using True buf d1 d2 f2 by (simp add: StateManager_GetAll_def StatsManager_GetAll_def)
  next
    case False
    obtain x t where t: "InsertSamplesBatch (sm_sampleBuffer m2) s2 = (Inr x, t)" "faultless t"
      using succeeds_InsertSamplesBatch f2 by (rule succeedsE)
    then have "m' = m2\<lparr>sm_sampleBuffer := []\<rparr>" "s' = t"
      using False fl by (auto simp: flushSamples_def)
    moreover have "st_db t = (st_db s2)\<lparr>db_samples := db_samples (st_db s2) @ sm_sampleBuffer m2\<rparr>"
      using runsD [OF runs_InsertSamplesBatch t(1)] .
    ultimately show ?thesis
      using buf d1 d2 t(2) by (simp add: StateManager_GetAll_def StatsManager_GetAll_def)
  qed
qed

text \<open>C18: the final flush of \<open>Stop\<close> leaves nothing behind while the engine fails no statement: the
  rows of all dirty pollers are written, the buffered samples are stored in order, no entry is
  dirty and the buffer is empty.\<close>

theorem flush_all_leaves_nothing:
  assumes "states_ok (sm_states m)" "stats_ok (sm_stats m)" "faultless s"
    "FlushAll (m, s) = (m', s')"
  shows "m' = (clean_stats (clean_states m))\<lparr>sm_sampleBuffer := []\<rparr> \<and>
    db_states (st_db s') =
      map (flushed_state (StateManager_GetAll (sm_states m))) (db_states (st_db s)) \<and>
    db_stats (st_db s') =
      map (flushed_stats (StatsManager_GetAll (sm_stats m))) (db_stats (st_db s)) \<and>
    db_samples (st_db s') = db_samples (st_db s) @ sm_sampleBuffer m"
  using FlushAll_works [OF assms] by simp

lemma flush_all_leaves_nothing_witness:
  "sm_sampleBuffer (fst (FlushAll (ex_sync\<lparr>sm_states := ex_states, sm_sampleBuffer := [ex_sample 1 5]\<rparr>,
      ex_sync_store (\<lambda>_. None)))) = [] \<and>
   db_samples (st_db (snd (FlushAll (ex_sync\<lparr>sm_states := ex_states, sm_sampleBuffer := [ex_sample 1 5]\<rparr>,
      ex_sync_store (\<lambda>_. None))))) = [ex_sample 1 5]"
proof -
  let ?m = "ex_sync\<lparr>sm_states := ex_states, sm_sampleBuffer := [ex_sample 1 5]\<rparr>"
  let ?s = "ex_sync_store (\<lambda>_. None)"
  have a: "states_ok (sm_states ?m)" using ex_states_ok by simp
  have b: "stats_ok (sm_stats ?m)" by (simp add: stats_ok_def ex_sync_def NewSyncManager_def)
  have c: "faultless ?s" by (simp add: faultless_def ex_sync_store_def open_store_def)
  have d: "FlushAll (?m, ?s) = (fst (FlushAll (?m, ?s)), snd (FlushAll (?m, ?s)))"
    by (rule prod.collapse [symmetric])
  show ?thesis
    using flush_all_leaves_nothing [OF a b c d] by (simp add: ex_sync_store_def empty_db_def)
qed

text \<open>A poll recorded after the batch was written and before its dirty flags are cleared is not
  persisted: the row keeps the state from before the poll, the entry has the new state but is
  clean, and the next flush does not collect it.\<close>

theorem poll_during_flush_stays_unwritten:
  assumes "states_ok (sm_states m)" "map_of (sm_states m) (state_key q) = Some st" "ps_IsDirty st"
    "write_states (collect_states m) s = (Inr u, s1)"
    "m2 = clear_states (collect_states m)
       (m\<lparr>sm_states := with_state q (ps_RecordPollResult ok err ms now) (sm_states m)\<rparr>)"
  shows "(\<exists>st2. map_of (sm_states m2) (state_key q) = Some st2 \<and> ps_LastPollAt st2 = Some now \<and>
      st2 \<notin> set (collect_states m2)) \<and>
    (\<forall>r \<in> set (db_states (st_db s1)). state_row_key r = state_row_key (state_row st) \<longrightarrow>
      sr_LastPollAt r = ps_LastPollAt st)"
proof
  let ?f = "ps_RecordPollResult ok err ms now" and ?ws = "with_state q (ps_RecordPollResult ok err ms now) (sm_states m)"
  have inm: "(state_key q, st) \<in> set (sm_states m)" using assms(2) by (rule map_of_SomeD)
  have dirty: "st \<in> set (collect_states m)"
    using inm assms(3) by (force simp: collect_states_def StateManager_GetDirty_def)
  have key: "ps_Key (?f st) = ps_Key st" by (simp add: ps_Key_def)
  have w: "map_of ?ws (state_key q) = Some (?f st)"
    using with_state_same [of q ?f "sm_states m"] assms(2) by (simp add: StateManager_Get_def)
  have m2: "map_of (sm_states m2) (state_key q) = Some (ps_ClearDirty (?f st))"
  proof -
    have "map_of (sm_states m2) (state_key q) =
        map_option (\<lambda>st. if ps_Key st \<in> ps_Key ` set (collect_states m) then ps_ClearDirty st else st)
          (map_of ?ws (state_key q))"
      by (simp add: assms(5) clear_states_def map_of_map)
    then show ?thesis using w key dirty by simp
  qed
  have "\<not> ps_IsDirty (ps_ClearDirty (?f st))" by (simp add: ps_IsDirty_def ps_ClearDirty_def)
  then have "ps_ClearDirty (?f st) \<notin> set (collect_states m2)"
    by (auto simp: collect_states_def StateManager_GetDirty_def)
  moreover have "ps_LastPollAt (ps_ClearDirty (?f st)) = Some now"
    by (simp add: ps_ClearDirty_def ps_RecordPollResult_def Let_def)
  ultimately show "\<exists>st2. map_of (sm_states m2) (state_key q) = Some st2 \<and> ps_LastPollAt st2 = Some now \<and>
      st2 \<notin> set (collect_states m2)"
    using m2 by blast
next
  show "\<forall>r \<in> set (db_states (st_db s1)). state_row_key r = state_row_key (state_row st) \<longrightarrow>
      sr_LastPollAt r = ps_LastPollAt st"
  proof (intro ballI impI)
    fix r assume r: "r \<in> set (db_states (st_db s1))" "state_row_key r = state_row_key (state_row st)"
    have "st_db s1 = (st_db s)\<lparr>db_states := map (flushed_state (mvals (sm_states m))) (db_states (st_db s))\<rparr>"
      using runsD [OF write_states_run(1) assms(4)] rows_after_states [OF assms(1)]
      by (simp add: put_states collect_states_def)
    with r(1) obtain r0 where r0: "r = flushed_state (mvals (sm_states m)) r0" by auto
    have "r = state_row st"
      unfolding r0 by (rule flushed_state_dirty [OF assms(1) map_of_SomeD [OF assms(2)] assms(3)])
        (use r(2) in \<open>simp only: r0\<close>)
    then show "sr_LastPollAt r = ps_LastPollAt st" by (simp add: state_row_def)
  qed
qed

lemma poll_during_flush_stays_unwritten_witness:
  "\<exists>(m2 :: SyncManager) st2. map_of (sm_states m2) ''n/t/p'' = Some st2 \<and> ps_LastPollAt st2 = Some 99 \<and>
     \<not> ps_IsDirty st2"
proof -
  let ?m = "ex_sync\<lparr>sm_states := ex_states\<rparr>" and ?s = "ex_sync_store (\<lambda>_. None)"
  let ?q = "(''n'', ''t'', ''p'')"
  have a: "states_ok (sm_states ?m)" using ex_states_ok by simp
  have k: "state_key ?q = ''n/t/p''" by (simp add: state_key_def)
  define st where "st = ps_RecordPollResult False ''timeout'' 7 42 (NewPollerState ''n'' ''t'' ''p'')"
  have b: "map_of (sm_states ?m) (state_key ?q) = Some st"
    using with_state_same [of ?q "ps_RecordPollResult False ''timeout'' 7 42" "[]"]
    by (simp add: ex_states_def StateManager_Get_def st_def Let_def)
  have c: "ps_IsDirty st" by (simp add: st_def ps_IsDirty_def)
  have "faultless ?s" by (simp add: faultless_def ex_sync_store_def open_store_def)
  with write_states_run(3) obtain u s1 where e: "write_states (collect_states ?m) ?s = (Inr u, s1)"
    by (rule succeedsE)
  define m2 where "m2 = clear_states (collect_states ?m)
      (?m\<lparr>sm_states := with_state ?q (ps_RecordPollResult True [] 3 99) (sm_states ?m)\<rparr>)"
  from poll_during_flush_stays_unwritten [OF a b c e m2_def]
  obtain st2 where st2: "map_of (sm_states m2) (state_key ?q) = Some st2" "ps_LastPollAt st2 = Some 99"
    "st2 \<notin> set (collect_states m2)"
    by blast
  have "st2 \<in> set (mvals (sm_states m2))" using map_of_SomeD [OF st2(1)] by force
  with st2(3) have "\<not> ps_IsDirty st2" by (simp add: collect_states_def StateManager_GetDirty_def)
  with st2(1,2) show ?thesis unfolding k by blast
qed

text \<open>A flush of statistics writes the four counters but never the sum and the number of the poll
  times: in the row of a poller it wrote both are 0, whatever the poller measured, and a poller
  that was never polled gets a least time of 0.\<close>

theorem flushed_stats_lose_average:
  "tr_PollsTotal (stats_row st) = st_PollsTotal st \<and> tr_PollsSuccess (stats_row st) = st_PollsSuccess st \<and>
   tr_PollsFailed (stats_row st) = st_PollsFailed st \<and> tr_PollsTimeout (stats_row st) = st_PollsTimeout st \<and>
   tr_PollMsSum (stats_row st) = 0 \<and> tr_PollMsCount (stats_row st) = 0 \<and>
   tr_PollMsMin (stats_row st) = Some (max 0 (st_pollMsMin st)) \<and>
   tr_PollMsMax (stats_row st) = (if st_pollMsMax st > 0 then Some (st_pollMsMax st) else None) \<and>
   (case flushed_stats sts r of r' \<Rightarrow> r' = r \<or> tr_PollMsSum r' = 0 \<and> tr_PollMsCount r' = 0)"
proof -
  have row: "tr_PollMsSum (stats_row st) = 0 \<and> tr_PollMsCount (stats_row st) = 0" for st
    by (simp add: stats_row_def Let_def)
  have "flushed_stats sts r = r \<or> (\<exists>st. flushed_stats sts r = stats_row st)"
    unfolding flushed_stats_def
    by (cases "List.find (\<lambda>st. st_IsDirty st \<and> stats_row_key (stats_row st) = stats_row_key r) sts")
       (simp_all only: option.case, blast+)
  with row have "flushed_stats sts r = r \<or>
      tr_PollMsSum (flushed_stats sts r) = 0 \<and> tr_PollMsCount (flushed_stats sts r) = 0"
    by metis
  then show ?thesis by (simp add: stats_row_def GetStats_def Let_def max_def)
qed

end
