(* ===== verification/GoHeap.thy ===== *)
theory GoHeap
  imports Prelude "HOL-Library.Multiset"
begin

text \<open>
  Package container/heap of the Go standard library, as internal/scheduler/scheduler.go uses it:
  \<open>heap.Push\<close>, \<open>heap.Pop\<close> and \<open>heap.Remove\<close> over a value of \<open>heap.Interface\<close>,
  here the record \<open>heap_if\<close> of its five methods. The locale \<open>heap_laws\<close> states what an
  implementation of the interface must do for the three operations to keep a binary heap, and
  the scheduler's \<open>PollHeap\<close> is interpreted in theory \<open>Scheduler\<close>.
\<close>

record ('h, 'x) heap_if =
  hLen :: "'h \<Rightarrow> nat"
  hLess :: "'h \<Rightarrow> nat \<Rightarrow> nat \<Rightarrow> bool"
  hSwap :: "nat \<Rightarrow> nat \<Rightarrow> 'h \<Rightarrow> 'h"
  hPush :: "'x \<Rightarrow> 'h \<Rightarrow> 'h"
  hPop :: "'h \<Rightarrow> 'x \<times> 'h"

definition parent :: "nat \<Rightarrow> nat" where
  "parent k = (k - 1) div 2"

lemma parent_less: "0 < k \<Longrightarrow> parent k < k"
  by (simp add: parent_def)

lemma parent_eq_iff: "0 < k \<Longrightarrow> parent k = i \<longleftrightarrow> k = 2 * i + 1 \<or> k = 2 * i + 2"
  by (auto simp: parent_def)

text \<open>The loops \<open>up\<close> and \<open>down\<close>; \<open>down\<close> returns the position it stopped at.\<close>

function heap_up :: "('h, 'x) heap_if \<Rightarrow> nat \<Rightarrow> 'h \<Rightarrow> 'h" where
  "heap_up I j h =
     (let i = parent j in
      if i = j \<or> \<not> hLess I h j i then h
      else heap_up I i (hSwap I i j h))"
  by pat_completeness auto
termination
  by (relation "measure (\<lambda>(I, j, h). j)") (auto simp: parent_def)

function heap_down :: "('h, 'x) heap_if \<Rightarrow> nat \<Rightarrow> nat \<Rightarrow> 'h \<Rightarrow> nat \<times> 'h" where
  "heap_down I i n h =
     (if 2 * i + 1 \<ge> n then (i, h)
      else let j = (if 2 * i + 2 < n \<and> hLess I h (2 * i + 2) (2 * i + 1)
                    then 2 * i + 2 else 2 * i + 1) in
           if \<not> hLess I h j i then (i, h)
           else heap_down I j n (hSwap I i j h))"
  by pat_completeness auto
termination
  by (relation "measure (\<lambda>(I, i, n, h). n - i)") (auto split: if_splits)

declare heap_up.simps [simp del] heap_down.simps [simp del]

definition heap_Push :: "('h, 'x) heap_if \<Rightarrow> 'x \<Rightarrow> 'h \<Rightarrow> 'h" where
  "heap_Push I x h = (let h1 = hPush I x h in heap_up I (hLen I h1 - 1) h1)"

definition heap_Pop :: "('h, 'x) heap_if \<Rightarrow> 'h \<Rightarrow> 'x \<times> 'h" where
  "heap_Pop I h =
     (let n = hLen I h - 1;
          h1 = hSwap I 0 n h;
          (i, h2) = heap_down I 0 n h1
      in hPop I h2)"

definition heap_Remove :: "('h, 'x) heap_if \<Rightarrow> nat \<Rightarrow> 'h \<Rightarrow> 'x \<times> 'h" where
  "heap_Remove I i h =
     (let n = hLen I h - 1 in
      if n \<noteq> i then
        (let h1 = hSwap I i n h;
             (i', h2) = heap_down I i n h1;
             h3 = (if i' > i then h2 else heap_up I i h2)
         in hPop I h3)
      else hPop I h)"

text \<open>The heap order on the first \<open>n\<close> positions, \<open>v k\<close> the priority at position \<open>k\<close>.\<close>

definition heap_on :: "(nat \<Rightarrow> int) \<Rightarrow> nat \<Rightarrow> bool" where
  "heap_on v n \<longleftrightarrow> (\<forall>k \<in> {1..<n}. v (parent k) \<le> v k)"

definition up_pre :: "(nat \<Rightarrow> int) \<Rightarrow> nat \<Rightarrow> nat \<Rightarrow> bool" where
  "up_pre v n j \<longleftrightarrow>
     (\<forall>k \<in> {1..<n}. k \<noteq> j \<longrightarrow> v (parent k) \<le> v k) \<and>
     (\<forall>k \<in> {1..<n}. 0 < j \<and> parent k = j \<longrightarrow> v (parent j) \<le> v k)"

definition down_pre :: "(nat \<Rightarrow> int) \<Rightarrow> nat \<Rightarrow> nat \<Rightarrow> bool" where
  "down_pre v n i \<longleftrightarrow>
     (\<forall>k \<in> {1..<n}. k \<noteq> i \<and> parent k \<noteq> i \<longrightarrow> v (parent k) \<le> v k) \<and>
     (\<forall>k \<in> {1..<n}. 0 < i \<and> parent k = i \<longrightarrow> v (parent i) \<le> v k)"

lemma heap_on_root: "heap_on v n \<Longrightarrow> k < n \<Longrightarrow> v 0 \<le> v k"
proof (induction k rule: less_induct)
  case (less k)
  show ?case
  proof (cases "k = 0")
    case False
    then have p: "parent k < k" by (simp add: parent_less)
    with less have "v 0 \<le> v (parent k)" by simp
    also have "\<dots> \<le> v k" using less.prems False by (simp add: heap_on_def)
    finally show ?thesis .
  qed simp
qed

lemma heap_on_cong: "heap_on v n \<Longrightarrow> (\<And>k. k < n \<Longrightarrow> w k = v k) \<Longrightarrow> heap_on w n"
  unfolding heap_on_def using parent_less by (metis atLeastLessThan_iff less_le_trans
      less_or_eq_imp_le less_one not_less order_less_trans)

lemma heap_on_mono: "heap_on v n \<Longrightarrow> m \<le> n \<Longrightarrow> heap_on v m"
  by (auto simp: heap_on_def)

lemma heap_on_grow: "heap_on v n \<Longrightarrow> up_pre v (Suc n) n"
  using parent_less by (auto simp: heap_on_def up_pre_def less_Suc_eq)
    (metis Suc_le_eq not_less_iff_gr_or_eq)

text \<open>Swapping two positions.\<close>

definition swapped :: "nat \<Rightarrow> nat \<Rightarrow> (nat \<Rightarrow> 'a) \<Rightarrow> nat \<Rightarrow> 'a" where
  "swapped i j v k = (if k = i then v j else if k = j then v i else v k)"

lemma up_pre_swap:
  assumes pre: "up_pre v n j" and j: "0 < j" "j < n" and less: "v j < v (parent j)"
  shows "up_pre (swapped (parent j) j v) n (parent j)"
proof -
  let ?i = "parent j"
  have ij: "?i < j" using j(1) by (rule parent_less)
  have ok: "\<And>k. 0 < k \<Longrightarrow> k < n \<Longrightarrow> k \<noteq> j \<Longrightarrow> v (parent k) \<le> v k"
    and gp: "\<And>k. 0 < k \<Longrightarrow> k < n \<Longrightarrow> parent k = j \<Longrightarrow> v ?i \<le> v k"
    using pre j(1) by (auto simp: up_pre_def)
  have A: "swapped ?i j v (parent k) \<le> swapped ?i j v k" if k: "0 < k" "k < n" "k \<noteq> ?i" for k
  proof (cases "k = j")
    case True
    then show ?thesis using less ij by (simp add: swapped_def)
  next
    case False
    then have base: "v (parent k) \<le> v k" using ok k by simp
    show ?thesis
    proof (cases "parent k = j")
      case True
      then show ?thesis using False k ij gp [OF k(1,2) True] by (simp add: swapped_def)
    next
      case False2: False
      then show ?thesis using False k ij base less by (auto simp: swapped_def)
    qed
  qed
  have B: "swapped ?i j v (parent ?i) \<le> swapped ?i j v k"
    if k: "0 < k" "k < n" "0 < ?i" "parent k = ?i" for k
  proof -
    have pp: "parent ?i < ?i" using k(3) by (rule parent_less)
    have gi: "v (parent ?i) \<le> v ?i" using ok [OF k(3)] ij j by simp
    have ki: "k \<noteq> ?i" using parent_less [OF k(1)] k(4) by auto
    show ?thesis
    proof (cases "k = j")
      case True
      then show ?thesis using pp gi ij ki by (simp add: swapped_def)
    next
      case False
      have "v (parent k) \<le> v k" using k False by (intro ok) simp_all
      then show ?thesis using False ki pp gi ij k(4) by (simp add: swapped_def)
    qed
  qed
  show ?thesis unfolding up_pre_def using A B by auto
qed

lemma up_pre_done: "up_pre v n j \<Longrightarrow> j = 0 \<or> v (parent j) \<le> v j \<Longrightarrow> heap_on v n"
  by (auto simp: up_pre_def heap_on_def)

text \<open>After a swap down from \<open>i\<close> to its smaller child \<open>j\<close> only the children of \<open>j\<close> may be out
  of order, which \<open>down_moved\<close> states.\<close>

definition down_moved :: "(nat \<Rightarrow> int) \<Rightarrow> nat \<Rightarrow> nat \<Rightarrow> bool" where
  "down_moved v n j \<longleftrightarrow> 0 < j \<and> (\<forall>k \<in> {1..<n}. parent k \<noteq> j \<longrightarrow> v (parent k) \<le> v k) \<and>
     (\<forall>k \<in> {1..<n}. parent k = j \<longrightarrow> v (parent j) \<le> v k)"

lemma down_moved_pre: "down_moved v n j \<Longrightarrow> down_pre v n j"
  by (auto simp: down_moved_def down_pre_def)

lemma down_pre_swap:
  assumes pre: "down_pre v n i" and j: "0 < j" "j < n" "parent j = i" and less: "v j < v i"
    and smaller: "\<And>k. 0 < k \<Longrightarrow> k < n \<Longrightarrow> parent k = i \<Longrightarrow> v j \<le> v k"
  shows "down_moved (swapped i j v) n j"
proof -
  have ij: "i < j" using j parent_less by blast
  have ok: "\<And>k. 0 < k \<Longrightarrow> k < n \<Longrightarrow> k \<noteq> i \<Longrightarrow> parent k \<noteq> i \<Longrightarrow> v (parent k) \<le> v k"
    and gp: "\<And>k. 0 < k \<Longrightarrow> k < n \<Longrightarrow> 0 < i \<Longrightarrow> parent k = i \<Longrightarrow> v (parent i) \<le> v k"
    using pre by (auto simp: down_pre_def)
  have A: "swapped i j v (parent k) \<le> swapped i j v k" if k: "0 < k" "k < n" "parent k \<noteq> j" for k
  proof -
    consider "k = i" | "k = j" | "k \<noteq> i" "k \<noteq> j" "parent k = i" | "k \<noteq> i" "k \<noteq> j" "parent k \<noteq> i"
      by blast
    then show ?thesis
    proof cases
      case 1
      then have "parent i < i" using k(1) parent_less by simp
      then show ?thesis using 1 ij gp [OF j(1,2) _ j(3)] k by (simp add: swapped_def)
    next
      case 2
      then show ?thesis using j(3) less ij by (simp add: swapped_def)
    next
      case 3
      then show ?thesis using smaller k ij by (simp add: swapped_def)
    next
      case 4
      then show ?thesis using ok k by (simp add: swapped_def)
    qed
  qed
  have B: "swapped i j v (parent j) \<le> swapped i j v k" if k: "0 < k" "k < n" "parent k = j" for k
  proof -
    have kj: "j < k" using k parent_less by blast
    have "v (parent k) \<le> v k" using k ij kj by (intro ok) simp_all
    then show ?thesis using kj ij j(3) k by (simp add: swapped_def)
  qed
  show ?thesis unfolding down_moved_def using A B j(1) by auto
qed

lemma down_moved_done:
  "down_moved v n j \<Longrightarrow> (\<And>k. 0 < k \<Longrightarrow> k < n \<Longrightarrow> parent k = j \<Longrightarrow> v j \<le> v k) \<Longrightarrow> heap_on v n"
  unfolding down_moved_def heap_on_def by (metis Suc_le_eq One_nat_def atLeastLessThan_iff)

lemma down_pre_done:
  "down_pre v n i \<Longrightarrow> (\<And>k. 0 < k \<Longrightarrow> k < n \<Longrightarrow> parent k = i \<Longrightarrow> v i \<le> v k) \<Longrightarrow> up_pre v n i"
  unfolding down_pre_def up_pre_def by (metis Suc_le_eq One_nat_def atLeastLessThan_iff)

lemma parent_lt: "k \<in> {1..<n} \<Longrightarrow> parent k < n"
  using parent_less [of k] by auto

lemma down_moved_cong:
  assumes "down_moved v n j" "\<And>k. k < n \<Longrightarrow> w k = v k" "j < n"
  shows "down_moved w n j"
proof -
  have "parent j < n" using assms(1,3) parent_less [of j] by (auto simp: down_moved_def)
  then show ?thesis
    using assms(1) by (auto simp: down_moved_def assms(2) parent_lt)
qed

lemma up_pre_cong:
  assumes "up_pre v n j" "\<And>k. k < n \<Longrightarrow> w k = v k" "j < n"
  shows "up_pre w n j"
proof -
  have "parent j < n" using assms(3) by (simp add: parent_def)
  then show ?thesis
    using assms(1) by (auto simp: up_pre_def assms(2) parent_lt)
qed

section \<open>The interface and its laws\<close>

text \<open>
  \<open>elems h\<close> is the slice, \<open>view h\<close> what the operations leave alone, and \<open>prio\<close> reads an
  element's priority from the view; \<open>good\<close> is whatever bookkeeping \<open>Swap\<close>, \<open>Push\<close> and
  \<open>Pop\<close> maintain, and \<open>pushable\<close> what \<open>Push\<close> asks of the element for it.
\<close>

locale heap_laws =
  fixes I :: "('h, 'x) heap_if"
    and elems :: "'h \<Rightarrow> 'x list"
    and view :: "'h \<Rightarrow> 'v"
    and prio :: "'v \<Rightarrow> 'x \<Rightarrow> int"
    and good :: "'h \<Rightarrow> bool"
    and pushable :: "'x \<Rightarrow> 'h \<Rightarrow> bool"
  assumes len: "hLen I h = length (elems h)"
    and less_iff: "i < length (elems h) \<Longrightarrow> j < length (elems h) \<Longrightarrow>
      hLess I h i j \<longleftrightarrow> prio (view h) (elems h ! i) < prio (view h) (elems h ! j)"
    and swap_elems: "i < length (elems h) \<Longrightarrow> j < length (elems h) \<Longrightarrow>
      elems (hSwap I i j h) = (elems h)[i := elems h ! j, j := elems h ! i]"
    and swap_view: "view (hSwap I i j h) = view h"
    and swap_good: "good h \<Longrightarrow> i < length (elems h) \<Longrightarrow> j < length (elems h) \<Longrightarrow> good (hSwap I i j h)"
    and push_elems: "elems (hPush I x h) = elems h @ [x]"
    and push_view: "view (hPush I x h) = view h"
    and push_good: "pushable x h \<Longrightarrow> good (hPush I x h)"
    and pop_elem: "elems h \<noteq> [] \<Longrightarrow> fst (hPop I h) = last (elems h)"
    and pop_elems: "elems h \<noteq> [] \<Longrightarrow> elems (snd (hPop I h)) = butlast (elems h)"
    and pop_view: "view (snd (hPop I h)) = view h"
    and pop_good: "good h \<Longrightarrow> elems h \<noteq> [] \<Longrightarrow> good (snd (hPop I h))"
begin

text \<open>Priority at a position, and what any sequence of swaps preserves.\<close>

definition pv :: "'h \<Rightarrow> nat \<Rightarrow> int" where
  "pv h k = prio (view h) (elems h ! k)"

definition permuted :: "'h \<Rightarrow> 'h \<Rightarrow> bool" where
  "permuted h h' \<longleftrightarrow> view h' = view h \<and> mset (elems h') = mset (elems h) \<and> (good h \<longrightarrow> good h')"

abbreviation ordered :: "'h \<Rightarrow> bool" where
  "ordered h \<equiv> heap_on (pv h) (length (elems h))"

lemma permuted_refl [simp]: "permuted h h"
  by (simp add: permuted_def)

lemma permuted_trans: "permuted h h' \<Longrightarrow> permuted h' h'' \<Longrightarrow> permuted h h''"
  by (simp add: permuted_def)

lemma permuted_length: "permuted h h' \<Longrightarrow> length (elems h') = length (elems h)"
  unfolding permuted_def by (metis size_mset)

lemma permuted_set: "permuted h h' \<Longrightarrow> set (elems h') = set (elems h)"
  unfolding permuted_def by (metis set_mset_mset)

lemma swap_permuted:
  "i < length (elems h) \<Longrightarrow> j < length (elems h) \<Longrightarrow> permuted h (hSwap I i j h)"
  by (simp add: permuted_def swap_view swap_elems swap_good mset_swap)

lemma swap_pv:
  assumes "i < length (elems h)" "j < length (elems h)"
  shows "k < length (elems h) \<Longrightarrow> pv (hSwap I i j h) k = swapped i j (pv h) k"
  using assms by (auto simp: pv_def swap_view swap_elems swapped_def nth_list_update)

text \<open>\<open>up\<close> repairs a heap that is out of order at one position only.\<close>

lemma up_correct:
  assumes "up_pre (pv h) n j" "j < n" "n \<le> length (elems h)"
  shows "heap_on (pv (heap_up I j h)) n \<and> permuted h (heap_up I j h) \<and>
    (\<forall>k. n \<le> k \<and> k < length (elems h) \<longrightarrow> elems (heap_up I j h) ! k = elems h ! k)"
  using assms
proof (induction j arbitrary: h rule: less_induct)
  case (less j)
  have pj: "parent j \<le> j" by (simp add: parent_def)
  show ?case
  proof (cases "parent j = j \<or> \<not> hLess I h j (parent j)")
    case True
    then have "heap_up I j h = h" by (simp add: heap_up.simps [of I j] Let_def)
    moreover have "j = 0 \<or> pv h (parent j) \<le> pv h j"
      using True less.prems pj parent_less [of j] by (auto simp: less_iff pv_def)
    ultimately show ?thesis using up_pre_done [OF less.prems(1)] by simp
  next
    case False
    then have lt: "parent j < j" and j0: "0 < j" using pj by (auto simp: parent_def)
    let ?h = "hSwap I (parent j) j h"
    have dn: "heap_up I j h = heap_up I (parent j) ?h"
      using False by (simp add: heap_up.simps [of I j] Let_def)
    have b: "parent j < length (elems h)" "j < length (elems h)" using lt less.prems by auto
    have perm: "permuted h ?h" using b by (rule swap_permuted)
    have l: "length (elems ?h) = length (elems h)" using perm by (rule permuted_length)
    have vv: "pv h j < pv h (parent j)" using False b by (auto simp: less_iff pv_def)
    have eq: "\<And>k. k < n \<Longrightarrow> pv ?h k = swapped (parent j) j (pv h) k"
      using swap_pv [OF b] less.prems by simp
    have up: "up_pre (pv ?h) n (parent j)"
      using up_pre_cong [OF up_pre_swap [OF less.prems(1) j0 less.prems(2) vv]] eq lt less.prems(2)
      by simp
    have IH: "heap_on (pv (heap_up I (parent j) ?h)) n \<and> permuted ?h (heap_up I (parent j) ?h) \<and>
      (\<forall>k. n \<le> k \<and> k < length (elems ?h) \<longrightarrow> elems (heap_up I (parent j) ?h) ! k = elems ?h ! k)"
      using less.IH [OF lt up] lt less.prems l by simp
    moreover have "\<forall>k. n \<le> k \<and> k < length (elems h) \<longrightarrow> elems ?h ! k = elems h ! k"
      using b lt less.prems by (simp add: swap_elems)
    ultimately show ?thesis using permuted_trans [OF perm] l by (simp add: dn)
  qed
qed

text \<open>One turn of \<open>down\<close>: it stops with the children in order, or swaps the smaller one up.\<close>

lemma down_step:
  assumes "i < n" "n \<le> length (elems h)"
  obtains (stop) "heap_down I i n h = (i, h)"
      "\<And>k. 0 < k \<Longrightarrow> k < n \<Longrightarrow> parent k = i \<Longrightarrow> pv h i \<le> pv h k"
  | (go) j where "heap_down I i n h = heap_down I j n (hSwap I i j h)"
      "0 < j" "j < n" "i < j" "parent j = i" "pv h j < pv h i"
      "\<And>k. 0 < k \<Longrightarrow> k < n \<Longrightarrow> parent k = i \<Longrightarrow> pv h j \<le> pv h k"
proof -
  let ?j = "if 2 * i + 2 < n \<and> hLess I h (2 * i + 2) (2 * i + 1) then 2 * i + 2 else 2 * i + 1"
  show thesis
  proof (cases "2 * i + 1 \<ge> n")
    case True
    then have "heap_down I i n h = (i, h)" by (simp add: heap_down.simps [of I i])
    moreover have "\<And>k. 0 < k \<Longrightarrow> k < n \<Longrightarrow> parent k = i \<Longrightarrow> False"
      using True by (simp add: parent_eq_iff)
    ultimately show thesis using stop by blast
  next
    case False
    have small: "pv h ?j \<le> pv h k" if "0 < k" "k < n" "parent k = i" for k
    proof -
      from that have "k = 2 * i + 1 \<or> k = 2 * i + 2" by (simp add: parent_eq_iff)
      then show ?thesis using that False assms by (auto simp: less_iff pv_def)
    qed
    have j: "0 < ?j" "?j < n" "i < ?j" "parent ?j = i" using False by (auto simp: parent_eq_iff)
    show thesis
    proof (cases "hLess I h ?j i")
      case True
      then have "heap_down I i n h = heap_down I ?j n (hSwap I i ?j h)"
        using False by (simp add: heap_down.simps [of I i] Let_def)
      moreover have "pv h ?j < pv h i"
        using True j assms less_iff [of ?j h i] unfolding pv_def by (meson less_le_trans)
      ultimately show thesis using go j small by blast
    next
      case stopped: False
      then have "heap_down I i n h = (i, h)"
        using False by (simp add: heap_down.simps [of I i] Let_def)
      moreover have "pv h i \<le> pv h ?j"
        using stopped j assms less_iff [of ?j h i] unfolding pv_def by (meson less_le_trans not_less)
      ultimately show thesis using stop small order_trans by blast
    qed
  qed
qed

lemma swap_down_moved:
  assumes "down_pre (pv h) n i" "n \<le> length (elems h)" "0 < j" "j < n" "i < j" "parent j = i"
    "pv h j < pv h i" "\<And>k. 0 < k \<Longrightarrow> k < n \<Longrightarrow> parent k = i \<Longrightarrow> pv h j \<le> pv h k"
  shows "down_moved (pv (hSwap I i j h)) n j"
proof -
  have "down_moved (swapped i j (pv h)) n j"
    using down_pre_swap [OF assms(1,3,4,6,7)] assms(8) by blast
  moreover have "\<And>k. k < n \<Longrightarrow> pv (hSwap I i j h) k = swapped i j (pv h) k"
    using swap_pv [of i h j] assms by simp
  ultimately show ?thesis using down_moved_cong assms(4) by blast
qed

lemma swap_tail:
  assumes "i < n" "j < n" "n \<le> length (elems h)"
  shows "\<forall>k. n \<le> k \<and> k < length (elems h) \<longrightarrow> elems (hSwap I i j h) ! k = elems h ! k"
  using assms by (simp add: swap_elems)

lemma down_moved_correct:
  assumes "down_moved (pv h) n i" "i < n" "n \<le> length (elems h)"
  shows "heap_on (pv (snd (heap_down I i n h))) n \<and> permuted h (snd (heap_down I i n h)) \<and>
    i \<le> fst (heap_down I i n h) \<and>
    (\<forall>k. n \<le> k \<and> k < length (elems h) \<longrightarrow> elems (snd (heap_down I i n h)) ! k = elems h ! k)"
  using assms
proof (induction "n - i" arbitrary: i h rule: less_induct)
  case less
  show ?case
  proof (cases rule: down_step [OF less.prems(2,3)])
    case 1
    then show ?thesis using down_moved_done [OF less.prems(1)] by simp
  next
    case (2 j)
    let ?h = "hSwap I i j h"
    have b: "i < length (elems h)" "j < length (elems h)" using 2 less.prems by auto
    have perm: "permuted h ?h" using b by (rule swap_permuted)
    have mv: "down_moved (pv ?h) n j"
      using swap_down_moved [OF down_moved_pre [OF less.prems(1)] less.prems(3) 2(2,3,4,5,6,7)] .
    have tail: "\<forall>k. n \<le> k \<and> k < length (elems h) \<longrightarrow> elems ?h ! k = elems h ! k"
      using swap_tail 2 less.prems by blast
    have m: "n - j < n - i" and nl: "n \<le> length (elems ?h)"
      using 2 less.prems permuted_length [OF perm] by auto
    show ?thesis
      using less.hyps [OF m mv 2(3) nl] permuted_trans [OF perm] tail permuted_length [OF perm] 2
      by simp
  qed
qed

text \<open>\<open>down\<close>: it ends with a heap if it moved, and otherwise leaves the heap as it was, with the
  children of \<open>i\<close> in order.\<close>

lemma down_correct:
  assumes "down_pre (pv h) n i" "i < n" "n \<le> length (elems h)"
  shows "permuted h (snd (heap_down I i n h)) \<and>
    (\<forall>k. n \<le> k \<and> k < length (elems h) \<longrightarrow> elems (snd (heap_down I i n h)) ! k = elems h ! k) \<and>
    (if fst (heap_down I i n h) > i then heap_on (pv (snd (heap_down I i n h))) n
     else snd (heap_down I i n h) = h \<and> up_pre (pv h) n i)"
proof (cases rule: down_step [OF assms(2,3)])
  case 1
  then show ?thesis using down_pre_done [OF assms(1)] by simp
next
  case (2 j)
  let ?h = "hSwap I i j h"
  have b: "i < length (elems h)" "j < length (elems h)" using 2 assms by auto
  have perm: "permuted h ?h" using b by (rule swap_permuted)
  have mv: "down_moved (pv ?h) n j" using swap_down_moved [OF assms(1,3) 2(2,3,4,5,6,7)] .
  have tail: "\<forall>k. n \<le> k \<and> k < length (elems h) \<longrightarrow> elems ?h ! k = elems h ! k"
    using swap_tail 2 assms by blast
  have nl: "n \<le> length (elems ?h)" using assms permuted_length [OF perm] by auto
  show ?thesis
    using down_moved_correct [OF mv 2(3) nl] permuted_trans [OF perm] tail permuted_length [OF perm] 2
    by auto
qed

text \<open>Both loops only swap positions below \<open>n\<close>, whatever the order.\<close>

definition below :: "nat \<Rightarrow> 'h \<Rightarrow> 'h \<Rightarrow> bool" where
  "below n h h' \<longleftrightarrow> permuted h h' \<and>
     (\<forall>k. n \<le> k \<and> k < length (elems h) \<longrightarrow> elems h' ! k = elems h ! k)"

lemma below_refl: "below n h h"
  by (simp add: below_def)

lemma below_trans: "below n h h' \<Longrightarrow> below n h' h'' \<Longrightarrow> below n h h''"
  using permuted_trans [of h h' h''] permuted_length [of h h'] by (simp add: below_def)

lemma below_swap: "i < n \<Longrightarrow> j < n \<Longrightarrow> n \<le> length (elems h) \<Longrightarrow> below n h (hSwap I i j h)"
  using swap_permuted [of i h j] swap_tail [of i n j h] by (simp add: below_def)

lemma below_length: "below n h h' \<Longrightarrow> length (elems h') = length (elems h)"
  by (simp add: below_def permuted_length)

lemma up_below: "j < n \<Longrightarrow> n \<le> length (elems h) \<Longrightarrow> below n h (heap_up I j h)"
proof (induction j arbitrary: h rule: less_induct)
  case (less j)
  show ?case
  proof (cases "parent j = j \<or> \<not> hLess I h j (parent j)")
    case True
    then show ?thesis by (simp add: heap_up.simps [of I j] Let_def below_refl)
  next
    case False
    then have lt: "parent j < j" by (cases "j = 0") (auto simp: parent_def)
    let ?h = "hSwap I (parent j) j h"
    have s: "below n h ?h" using below_swap lt less.prems by simp
    have "below n ?h (heap_up I (parent j) ?h)"
      using less.IH [OF lt, of ?h] lt less.prems below_length [OF s] by simp
    with s have "below n h (heap_up I (parent j) ?h)" by (rule below_trans)
    then show ?thesis using False by (simp add: heap_up.simps [of I j] Let_def)
  qed
qed

lemma down_below:
  "i < n \<Longrightarrow> n \<le> length (elems h) \<Longrightarrow> below n h (snd (heap_down I i n h))"
proof (induction "n - i" arbitrary: i h rule: less_induct)
  case less
  show ?case
  proof (cases rule: down_step [OF less.prems])
    case 1
    then show ?thesis by (simp add: below_refl)
  next
    case (2 j)
    let ?h = "hSwap I i j h"
    have s: "below n h ?h" using below_swap 2 less.prems by simp
    have m: "n - j < n - i" using 2 less.prems by simp
    have "below n ?h (snd (heap_down I j n ?h))"
      using less.hyps [OF m 2(3)] less.prems below_length [OF s] by simp
    with s have "below n h (snd (heap_down I j n ?h))" by (rule below_trans)
    then show ?thesis using 2 by simp
  qed
qed

section \<open>Push, Pop and Remove\<close>

lemma push_frame:
  "view (heap_Push I x h) = view h \<and> mset (elems (heap_Push I x h)) = add_mset x (mset (elems h)) \<and>
    (pushable x h \<longrightarrow> good (heap_Push I x h))"
proof -
  let ?h = "hPush I x h"
  have "below (length (elems ?h)) ?h (heap_up I (hLen I ?h - 1) ?h)"
    by (rule up_below) (simp_all add: len push_elems)
  then show ?thesis
    using push_good [of x h] by (auto simp: heap_Push_def Let_def below_def permuted_def push_view push_elems)
qed

lemma push_ordered:
  assumes "ordered h"
  shows "ordered (heap_Push I x h)"
proof -
  let ?h = "hPush I x h" and ?n = "length (elems h)"
  have l: "length (elems ?h) = Suc ?n" by (simp add: push_elems)
  have "heap_on (pv ?h) ?n"
    using heap_on_cong [OF assms, of "pv ?h"] by (simp add: pv_def push_view push_elems nth_append)
  then have "up_pre (pv ?h) (Suc ?n) ?n" by (rule heap_on_grow)
  then have "heap_on (pv (heap_up I ?n ?h)) (Suc ?n) \<and> permuted ?h (heap_up I ?n ?h)"
    using up_correct [of ?h "Suc ?n" ?n] l by simp
  moreover from this have "length (elems (heap_up I ?n ?h)) = Suc ?n"
    using permuted_length [of ?h "heap_up I ?n ?h"] l by simp
  ultimately show ?thesis
    using l by (simp add: heap_Push_def Let_def len)
qed

lemma last_nth_len: "elems h \<noteq> [] \<Longrightarrow> last (elems h) = elems h ! (length (elems h) - 1)"
  by (rule last_conv_nth)

text \<open>What is left once the last element is taken off.\<close>

lemma pop_last:
  assumes b: "below n h1 h" and n: "length (elems h) = Suc n"
  shows "fst (hPop I h) = elems h1 ! n"
    "add_mset (fst (hPop I h)) (mset (elems (snd (hPop I h)))) = mset (elems h1)"
    "view (snd (hPop I h)) = view h1"
    "good h1 \<Longrightarrow> good (snd (hPop I h))"
proof -
  have l: "length (elems h) = length (elems h1)" using b by (rule below_length)
  have ne: "elems h \<noteq> []" using n by auto
  show fst: "fst (hPop I h) = elems h1 ! n"
    using b ne l [symmetric] n by (simp add: below_def pop_elem last_nth_len)
  have "mset (elems h) = add_mset (last (elems h)) (mset (butlast (elems h)))"
    using arg_cong [OF append_butlast_last_id [OF ne], of mset] by simp
  then show "add_mset (fst (hPop I h)) (mset (elems (snd (hPop I h)))) = mset (elems h1)"
    using b ne by (simp add: below_def permuted_def pop_elem pop_elems)
  show "view (snd (hPop I h)) = view h1" using b by (simp add: pop_view below_def permuted_def)
  show "good h1 \<Longrightarrow> good (snd (hPop I h))" using b ne by (simp add: pop_good below_def permuted_def)
qed

lemma pop_ordered:
  assumes "heap_on (pv h) (length (elems h) - 1)" "elems h \<noteq> []"
  shows "ordered (snd (hPop I h))"
  using assms heap_on_cong [OF assms(1), of "pv (snd (hPop I h))"]
  by (simp add: pop_elems pv_def pop_view nth_butlast)

text \<open>The state \<open>Remove\<close> pops from.\<close>

definition remove_mid :: "nat \<Rightarrow> 'h \<Rightarrow> 'h" where
  "remove_mid i h =
     (let n = length (elems h) - 1; h1 = hSwap I i n h; r = heap_down I i n h1
      in if n = i then h else if fst r > i then snd r else heap_up I i (snd r))"

lemma heap_Remove_mid: "heap_Remove I i h = hPop I (remove_mid i h)"
  unfolding heap_Remove_def remove_mid_def len Let_def
  by (cases "heap_down I i (length (elems h) - 1) (hSwap I i (length (elems h) - 1) h)") simp

lemma remove_mid_below:
  assumes "i < length (elems h)"
  shows "below (length (elems h) - 1) (hSwap I i (length (elems h) - 1) h) (remove_mid i h) \<or>
    (remove_mid i h = h \<and> i = length (elems h) - 1)"
proof (cases "length (elems h) - 1 = i")
  case True
  then show ?thesis by (simp add: remove_mid_def)
next
  case False
  let ?n = "length (elems h) - 1"
  let ?h = "hSwap I i ?n h"
  have i: "i < ?n" using False assms by simp
  have l: "length (elems ?h) = length (elems h)"
    using permuted_length [OF swap_permuted [of i h ?n]] assms by simp
  have d: "below ?n ?h (snd (heap_down I i ?n ?h))" using down_below [OF i, of ?h] l by simp
  have "?n \<le> length (elems (snd (heap_down I i ?n ?h)))" using below_length [OF d] l by simp
  then have "below ?n ?h (heap_up I i (snd (heap_down I i ?n ?h)))"
    by (rule below_trans [OF d up_below [OF i]])
  with d show ?thesis using False by (simp add: remove_mid_def Let_def)
qed

lemma remove_frame:
  assumes i: "i < length (elems h)"
  shows "fst (heap_Remove I i h) = elems h ! i"
    "add_mset (elems h ! i) (mset (elems (snd (heap_Remove I i h)))) = mset (elems h)"
    "view (snd (heap_Remove I i h)) = view h"
    "good h \<Longrightarrow> good (snd (heap_Remove I i h))"
proof -
  obtain n where n: "length (elems h) = Suc n" using i by (cases "length (elems h)") auto
  define s m where "s = hSwap I i n h" and "m = remove_mid i h"
  have r: "heap_Remove I i h = hPop I m" by (simp add: heap_Remove_mid m_def)
  have perm: "permuted h s" unfolding s_def using i n by (intro swap_permuted) auto
  have last: "elems s ! n = elems h ! i" using i n by (simp add: s_def swap_elems)
  from remove_mid_below [OF i] have "below n s m \<or> m = h \<and> i = n"
    by (simp add: n s_def m_def)
  then have "fst (hPop I m) = elems h ! i \<and>
    add_mset (fst (hPop I m)) (mset (elems (snd (hPop I m)))) = mset (elems h) \<and>
    view (snd (hPop I m)) = view h \<and> (good h \<longrightarrow> good (snd (hPop I m)))"
  proof
    assume b: "below n s m"
    have l: "length (elems m) = Suc n"
      using below_length [OF b] permuted_length [OF perm] n by simp
    show ?thesis
      using pop_last [OF b l] perm last by (simp add: permuted_def)
  next
    assume "m = h \<and> i = n"
    then show ?thesis using pop_last [OF below_refl n] by simp
  qed
  then show "fst (heap_Remove I i h) = elems h ! i"
    "add_mset (elems h ! i) (mset (elems (snd (heap_Remove I i h)))) = mset (elems h)"
    "view (snd (heap_Remove I i h)) = view h"
    "good h \<Longrightarrow> good (snd (heap_Remove I i h))"
    unfolding r by auto
qed

lemma pop_frame:
  assumes ne: "elems h \<noteq> []"
  shows "fst (heap_Pop I h) = elems h ! 0"
    "add_mset (elems h ! 0) (mset (elems (snd (heap_Pop I h)))) = mset (elems h)"
    "view (snd (heap_Pop I h)) = view h"
    "good h \<Longrightarrow> good (snd (heap_Pop I h))"
proof -
  let ?n = "length (elems h) - 1"
  let ?s = "hSwap I 0 ?n h" and ?m = "snd (heap_down I 0 ?n (hSwap I 0 ?n h))"
  have n: "?n < length (elems h)" "0 < length (elems h)" using ne by auto
  have perm: "permuted h ?s" using n by (intro swap_permuted) auto
  have ls: "length (elems ?s) = length (elems h)" using perm by (rule permuted_length)
  have b: "below ?n ?s ?m"
  proof (cases "?n = 0")
    case True
    then show ?thesis by (simp add: heap_down.simps [of I 0 0] below_refl)
  next
    case False
    then show ?thesis using down_below [of 0 ?n ?s] ls by simp
  qed
  have l: "length (elems ?m) = Suc ?n" using below_length [OF b] ls n by simp
  have last: "elems ?s ! ?n = elems h ! 0" using n ne by (auto simp: swap_elems nth_list_update)
  have eq: "heap_Pop I h = hPop I ?m"
    by (simp add: heap_Pop_def len Let_def split: prod.splits)
  show "fst (heap_Pop I h) = elems h ! 0"
    "add_mset (elems h ! 0) (mset (elems (snd (heap_Pop I h)))) = mset (elems h)"
    "view (snd (heap_Pop I h)) = view h"
    "good h \<Longrightarrow> good (snd (heap_Pop I h))"
    using pop_last [OF b l] perm last by (simp_all add: eq permuted_def)
qed

lemma remove_ordered:
  assumes i: "i < length (elems h)" and o: "ordered h"
  shows "ordered (snd (heap_Remove I i h))"
proof -
  let ?n = "length (elems h) - 1"
  let ?s = "hSwap I i ?n h"
  have ne: "elems h \<noteq> []" using i by auto
  show ?thesis
  proof (cases "i = ?n")
    case True
    have "heap_on (pv h) ?n" using o heap_on_mono by fastforce
    then have "ordered (snd (hPop I h))" using ne by (rule pop_ordered)
    then show ?thesis using True by (simp add: heap_Remove_mid remove_mid_def)
  next
    case False
    then have i': "i < ?n" using i by simp
    have ls: "length (elems ?s) = length (elems h)"
      using permuted_length [OF swap_permuted [of i h ?n]] i by simp
    have v: "\<And>k. k < ?n \<Longrightarrow> pv ?s k = (if k = i then pv h ?n else pv h k)"
      using swap_pv [of i h ?n] i i' by (simp add: swapped_def)
    have ok: "\<And>k. k \<in> {1..<length (elems h)} \<Longrightarrow> pv h (parent k) \<le> pv h k"
      using o by (simp add: heap_on_def)
    have pre: "down_pre (pv ?s) ?n i"
      unfolding down_pre_def
    proof (intro conjI ballI impI)
      fix k assume k: "k \<in> {1..<?n}" "k \<noteq> i \<and> parent k \<noteq> i"
      then have "k \<in> {1..<length (elems h)}" by auto
      then have "pv h (parent k) \<le> pv h k" by (rule ok)
      then show "pv ?s (parent k) \<le> pv ?s k" using k v parent_lt [OF k(1)] by simp
    next
      fix k assume k: "k \<in> {1..<?n}" "0 < i \<and> parent k = i"
      have pi: "parent i < i" using k by (simp add: parent_less)
      have "i < k" using k parent_less [of k] by auto
      moreover have "pv h (parent i) \<le> pv h i" "pv h i \<le> pv h k"
        using ok [of i] ok [of k] k i' by auto
      ultimately show "pv ?s (parent i) \<le> pv ?s k" using v k pi i' by simp
    qed
    let ?d = "heap_down I i ?n ?s"
    have le: "?n \<le> length (elems ?s)" using ls by simp
    have D: "permuted ?s (snd ?d)"
      "if fst ?d > i then heap_on (pv (snd ?d)) ?n else snd ?d = ?s \<and> up_pre (pv ?s) ?n i"
      using down_correct [OF pre i' le] by (blast, blast)
    have ld: "length (elems (snd ?d)) = length (elems h)" using permuted_length [OF D(1)] ls by simp
    have mid: "heap_on (pv (remove_mid i h)) ?n \<and> length (elems (remove_mid i h)) = length (elems h)"
    proof (cases "fst ?d > i")
      case True
      then show ?thesis using D(2) False ld by (simp add: remove_mid_def Let_def)
    next
      case stay: False
      then have "up_pre (pv ?s) ?n i" and e: "snd ?d = ?s" using D(2) by auto
      then have "heap_on (pv (heap_up I i ?s)) ?n \<and> permuted ?s (heap_up I i ?s)"
        using up_correct [of ?s ?n i] i' ls by simp
      then show ?thesis
        using stay False e ls permuted_length [of ?s "heap_up I i ?s"] by (simp add: remove_mid_def Let_def)
    qed
    then have "elems (remove_mid i h) \<noteq> []" using ne by auto
    then show ?thesis using mid pop_ordered [of "remove_mid i h"] by (simp add: heap_Remove_mid)
  qed
qed

text \<open>\<open>Pop\<close> takes a least element: it is \<open>Remove\<close> of the root.\<close>

lemma pop_ordered_min:
  assumes ne: "elems h \<noteq> []" and o: "ordered h"
  shows "ordered (snd (heap_Pop I h)) \<and>
    (\<forall>y \<in> set (elems h). prio (view h) (fst (heap_Pop I h)) \<le> prio (view h) y)"
proof
  let ?n = "length (elems h) - 1"
  let ?s = "hSwap I 0 ?n h"
  have len1: "length (elems h) = Suc ?n" using ne by (cases "elems h") auto
  show "\<forall>y \<in> set (elems h). prio (view h) (fst (heap_Pop I h)) \<le> prio (view h) y"
    using heap_on_root [OF o] pop_frame(1) [OF ne] by (auto simp: in_set_conv_nth pv_def)
  show "ordered (snd (heap_Pop I h))"
  proof (cases "?n = 0")
    case True
    have d0: "heap_Pop I h = hPop I ?s"
      using True by (simp add: heap_Pop_def len Let_def heap_down.simps [of I 0 0])
    have "elems ?s = elems h" using True len1 by (cases "elems h") (auto simp: swap_elems)
    then have "length (elems (snd (heap_Pop I h))) = 0"
      using d0 ne len1 True pop_elems [of ?s] by simp
    then show ?thesis by (simp add: heap_on_def)
  next
    case False
    have ls: "length (elems ?s) = length (elems h)"
      using permuted_length [OF swap_permuted [of 0 h ?n]] ne by simp
    have r: "remove_mid 0 h = snd (heap_down I 0 ?n ?s)"
    proof -
      have "heap_up I 0 x = x" for x by (simp add: heap_up.simps [of I 0] parent_def)
      then show ?thesis using False by (simp add: remove_mid_def Let_def)
    qed
    have "heap_Pop I h = heap_Remove I 0 h"
      by (simp add: heap_Remove_mid r heap_Pop_def len Let_def split: prod.splits)
    then show ?thesis using remove_ordered [of 0 h] ne o by simp
  qed
qed

end

end
