(* ===== verification/Scheduler.thy ===== *)
theory Scheduler
  imports GoHeap
begin

text \<open>
  The polling scheduler of internal/scheduler/scheduler.go: the heap of poll items with their
  heap positions, the index by key, the job queue, and the operations the server calls
  (\<open>Add\<close>, \<open>Remove\<close>, \<open>UpdateInterval\<close>, \<open>Pause\<close>, \<open>Resume\<close>, \<open>MarkComplete\<close>), the two phases of
  \<open>processDueItems\<close> and the workers.

  A \<open>*PollItem\<close> is an address (a \<open>nat\<close>) in the heap's store \<open>h_item\<close>, so that the heap, the
  index and the list of due items share the items as the code does. Times are milliseconds in
  \<open>int\<close>: a Unix time plus a 32-bit interval stays far below the 63 bits of the code's
  \<open>int64\<close>. \<open>time.Now()\<close> and the random jitter are arguments. Each operation that holds
  \<open>s.mu\<close> is one atomic step.
\<close>

section \<open>Keys\<close>

record PollerKey =
  pk_Namespace :: string
  pk_Target :: string
  pk_Poller :: string

definition PollerKey_String :: "PollerKey \<Rightarrow> string" where
  "PollerKey_String k = pk_Namespace k @ ''/'' @ pk_Target k @ ''/'' @ pk_Poller k"

definition ParsePollerKey :: "string \<Rightarrow> PollerKey go" where
  "ParsePollerKey s =
     (let parts = split_n (CHR ''/'') 3 s in
      if length parts \<noteq> 3 then Inl (Errorf (''invalid poller key: '' @ s))
      else Inr \<lparr>pk_Namespace = parts ! 0, pk_Target = parts ! 1, pk_Poller = parts ! 2\<rparr>)"

section \<open>The heap of poll items\<close>

record PollItem =
  pi_Key :: PollerKey
  pi_NextPollMs :: int
  pi_IntervalMs :: int
  pi_Polling :: bool
  pi_index :: int

type_synonym addr = nat

record PollHeap =
  h_arr :: "addr list"
  h_item :: "addr \<Rightarrow> PollItem"

definition h_upd :: "addr \<Rightarrow> (PollItem \<Rightarrow> PollItem) \<Rightarrow> PollHeap \<Rightarrow> PollHeap" where
  "h_upd a f h = h\<lparr>h_item := (h_item h)(a := f (h_item h a))\<rparr>"

definition h_set_index :: "addr \<Rightarrow> int \<Rightarrow> PollHeap \<Rightarrow> PollHeap" where
  "h_set_index a i h = h_upd a (\<lambda>it. it\<lparr>pi_index := i\<rparr>) h"

definition PollHeap_Len :: "PollHeap \<Rightarrow> nat" where
  "PollHeap_Len h = length (h_arr h)"

definition PollHeap_Less :: "PollHeap \<Rightarrow> nat \<Rightarrow> nat \<Rightarrow> bool" where
  "PollHeap_Less h i j \<longleftrightarrow>
     pi_NextPollMs (h_item h (h_arr h ! i)) < pi_NextPollMs (h_item h (h_arr h ! j))"

definition PollHeap_Swap :: "nat \<Rightarrow> nat \<Rightarrow> PollHeap \<Rightarrow> PollHeap" where
  "PollHeap_Swap i j h =
     (let h1 = h\<lparr>h_arr := (h_arr h)[i := h_arr h ! j, j := h_arr h ! i]\<rparr>;
          h2 = h_set_index (h_arr h1 ! i) (int i) h1
      in h_set_index (h_arr h2 ! j) (int j) h2)"

definition PollHeap_Push :: "addr \<Rightarrow> PollHeap \<Rightarrow> PollHeap" where
  "PollHeap_Push a h =
     (let h1 = h_set_index a (int (length (h_arr h))) h
      in h1\<lparr>h_arr := h_arr h1 @ [a]\<rparr>)"

definition PollHeap_Pop :: "PollHeap \<Rightarrow> addr \<times> PollHeap" where
  "PollHeap_Pop h =
     (let n = length (h_arr h);
          item = h_arr h ! (n - 1);
          h1 = h_set_index item (-1) h
      in (item, h1\<lparr>h_arr := take (n - 1) (h_arr h)\<rparr>))"

definition PollHeap_Peek :: "PollHeap \<Rightarrow> addr option" where
  "PollHeap_Peek h = (if h_arr h = [] then None else Some (h_arr h ! 0))"

definition PollHeap_if :: "(PollHeap, addr) heap_if" where
  "PollHeap_if = \<lparr>hLen = PollHeap_Len, hLess = PollHeap_Less, hSwap = PollHeap_Swap,
                  hPush = PollHeap_Push, hPop = PollHeap_Pop\<rparr>"

lemmas PollHeap_defs = PollHeap_if_def PollHeap_Len_def PollHeap_Less_def PollHeap_Swap_def
  PollHeap_Push_def PollHeap_Pop_def h_set_index_def h_upd_def Let_def

text \<open>What the heap operations leave alone: everything of an item but its position.\<close>

definition h_view :: "PollHeap \<Rightarrow> addr \<Rightarrow> PollItem" where
  "h_view h a = (h_item h a)\<lparr>pi_index := 0\<rparr>"

definition h_prio :: "(addr \<Rightarrow> PollItem) \<Rightarrow> addr \<Rightarrow> int" where
  "h_prio v a = pi_NextPollMs (v a)"

text \<open>
  The bookkeeping of positions: no item is in the heap twice, an item in the heap knows its
  position, and an item outside has a negative one.
\<close>

definition h_off :: "addr set \<Rightarrow> PollHeap \<Rightarrow> bool" where
  "h_off ex h \<longleftrightarrow> distinct (h_arr h) \<and>
     (\<forall>k < length (h_arr h). pi_index (h_item h (h_arr h ! k)) = int k) \<and>
     (\<forall>a. a \<notin> set (h_arr h) \<and> a \<notin> ex \<longrightarrow> pi_index (h_item h a) < 0)"

definition h_good :: "PollHeap \<Rightarrow> bool" where
  "h_good h \<longleftrightarrow> h_off {} h"

definition h_pushable :: "addr \<Rightarrow> PollHeap \<Rightarrow> bool" where
  "h_pushable a h \<longleftrightarrow> a \<notin> set (h_arr h) \<and> h_off {a} h"

lemma h_good_pushable: "h_good h \<Longrightarrow> a \<notin> set (h_arr h) \<Longrightarrow> h_pushable a h"
  by (auto simp: h_good_def h_pushable_def h_off_def)

lemma swap_index:
  assumes "distinct xs" "i < length xs" "j < length xs"
  shows "k < length xs \<Longrightarrow> xs[i := xs ! j, j := xs ! i] ! k = xs ! (if k = j then i else if k = i then j else k)"
  using assms by (auto simp: nth_list_update)

lemma swap_h_good:
  assumes g: "h_good h" and b: "i < length (h_arr h)" "j < length (h_arr h)"
  shows "h_good (PollHeap_Swap i j h)"
proof -
  let ?xs = "h_arr h" and ?h = "PollHeap_Swap i j h"
  let ?ys = "?xs[i := ?xs ! j, j := ?xs ! i]"
  have d: "distinct ?xs" using g by (simp add: h_good_def h_off_def)
  have arr: "h_arr ?h = ?ys" by (simp add: PollHeap_defs)
  have yi: "?ys ! i = ?xs ! j" "?ys ! j = ?xs ! i" using b by (auto simp: nth_list_update)
  have it: "pi_index (h_item ?h a) =
      (if a = ?xs ! i then int j else if a = ?xs ! j then int i else pi_index (h_item h a))" for a
    using yi by (auto simp: PollHeap_defs)
  have ix: "pi_index (h_item h (?xs ! k)) = int k" if "k < length ?xs" for k
    using g that by (simp add: h_good_def h_off_def)
  have d': "distinct ?ys" "set ?ys = set ?xs" using d b by simp_all
  have "pi_index (h_item ?h (?ys ! k)) = int k" if k: "k < length ?xs" for k
    using d b k ix by (auto simp: it swap_index nth_eq_iff_index_eq)
  moreover have "pi_index (h_item ?h a) < 0" if "a \<notin> set ?xs" for a
    using g that b by (auto simp: it h_good_def h_off_def)
  ultimately show ?thesis
    using d' by (simp add: h_good_def h_off_def arr)
qed

lemma push_h_good: "h_pushable a h \<Longrightarrow> h_good (PollHeap_Push a h)"
  by (auto simp: h_pushable_def h_good_def h_off_def PollHeap_defs nth_append less_Suc_eq)

lemma pop_h_good:
  assumes g: "h_good h" and ne: "h_arr h \<noteq> []"
  shows "h_good (snd (PollHeap_Pop h))"
proof -
  obtain xs x where a: "h_arr h = xs @ [x]" using ne by (metis append_butlast_last_id)
  have "x \<notin> set xs" "distinct xs" using g a by (auto simp: h_good_def h_off_def)
  moreover have "pi_index (h_item h (xs ! k)) = int k" if "k < length xs" for k
    using g that unfolding h_good_def h_off_def a
    by (metis length_append_singleton less_SucI nth_append)
  moreover have "pi_index (h_item h y) < 0" if "y \<notin> set xs" "y \<noteq> x" for y
    using g that unfolding h_good_def h_off_def a by simp
  ultimately show ?thesis
    by (auto simp: h_good_def h_off_def PollHeap_defs a)
qed

interpretation poll_heap: heap_laws PollHeap_if h_arr h_view h_prio h_good h_pushable
proof unfold_locales
  fix h :: PollHeap and i j
  show "h_view (hSwap PollHeap_if i j h) = h_view h"
    by (rule ext) (simp add: PollHeap_defs h_view_def)
  show "h_view (hPush PollHeap_if i h) = h_view h"
    by (rule ext) (simp add: PollHeap_defs h_view_def)
  show "h_view (snd (hPop PollHeap_if h)) = h_view h"
    by (rule ext) (simp add: PollHeap_defs h_view_def)
next
  fix h :: PollHeap assume "h_arr h \<noteq> []"
  then show "h_arr (snd (hPop PollHeap_if h)) = butlast (h_arr h)"
    by (simp add: PollHeap_defs butlast_conv_take)
qed (simp_all add: PollHeap_if_def swap_h_good push_h_good pop_h_good,
     simp_all add: PollHeap_defs h_prio_def h_view_def last_conv_nth)

section \<open>The scheduler\<close>

text \<open>A \<open>float64\<close> is carried by its 64 bits: the scheduler never computes with it.\<close>

record PollResult =
  pr_Key :: PollerKey
  pr_TimestampMs :: int
  pr_Success :: bool
  pr_Timeout :: bool
  pr_Error :: string
  pr_PollMs :: int
  pr_Counter :: "64 word option"
  pr_Text :: "string option"
  pr_Gauge :: "64 word option"

record Config =
  cfg_Workers :: nat
  cfg_QueueSize :: nat

definition DefaultConfig :: Config where
  "DefaultConfig = \<lparr>cfg_Workers = 100, cfg_QueueSize = 10000\<rparr>"

text \<open>
  \<open>s_next\<close> is the next free address. The channel \<open>wakeup\<close> holds one signal at most; \<open>jobs\<close>
  and \<open>results\<close> are queues bounded by \<open>s_queueSize\<close>.
\<close>

record Scheduler =
  s_heap :: PollHeap
  s_heapIdx :: "(string, addr) gomap"
  s_next :: addr
  s_wakeup :: bool
  s_jobs :: "PollerKey list"
  s_results :: "PollResult list"
  s_workers :: nat
  s_queueSize :: nat
  s_pollFunc :: "(PollerKey \<Rightarrow> PollResult) option"

definition zero_key :: PollerKey where
  "zero_key = \<lparr>pk_Namespace = [], pk_Target = [], pk_Poller = []\<rparr>"

definition no_item :: PollItem where
  "no_item = \<lparr>pi_Key = zero_key, pi_NextPollMs = 0, pi_IntervalMs = 0, pi_Polling = False,
              pi_index = -1\<rparr>"

definition New :: "Config option \<Rightarrow> Scheduler" where
  "New c = (let cfg = (case c of None \<Rightarrow> DefaultConfig | Some cfg \<Rightarrow> cfg) in
     \<lparr>s_heap = \<lparr>h_arr = [], h_item = \<lambda>_. no_item\<rparr>, s_heapIdx = [], s_next = 0,
      s_wakeup = False, s_jobs = [], s_results = [], s_workers = cfg_Workers cfg,
      s_queueSize = cfg_QueueSize cfg, s_pollFunc = None\<rparr>)"

definition SetPollFunc :: "(PollerKey \<Rightarrow> PollResult) \<Rightarrow> Scheduler \<Rightarrow> Scheduler" where
  "SetPollFunc fn s = s\<lparr>s_pollFunc := Some fn\<rparr>"

definition signalWakeup :: "Scheduler \<Rightarrow> Scheduler" where
  "signalWakeup s = s\<lparr>s_wakeup := True\<rparr>"

text \<open>\<open>rand.Int63n(interval)\<close> draws a jitter below the interval and panics when it is zero.\<close>

definition Add :: "PollerKey \<Rightarrow> 32 word \<Rightarrow> int \<Rightarrow> int \<Rightarrow> Scheduler \<Rightarrow> Scheduler go" where
  "Add key intervalMs jitter now s =
     (let keyStr = PollerKey_String key in
      if map_of (s_heapIdx s) keyStr \<noteq> None then Inr s
      else let interval = uint intervalMs in
        if interval \<le> 0 then Inl (Errorf ''invalid argument to Int63n'')
        else
          (let a = s_next s;
               item = \<lparr>pi_Key = key, pi_NextPollMs = now + jitter, pi_IntervalMs = interval,
                       pi_Polling = False, pi_index = 0\<rparr>;
               h = h_upd a (\<lambda>_. item) (s_heap s)
           in Inr (signalWakeup
                (s\<lparr>s_heap := heap_Push PollHeap_if a h, s_heapIdx := mput keyStr a (s_heapIdx s),
                   s_next := a + 1\<rparr>))))"

definition Remove :: "PollerKey \<Rightarrow> Scheduler \<Rightarrow> Scheduler" where
  "Remove key s =
     (let keyStr = PollerKey_String key in
      case map_of (s_heapIdx s) keyStr of
        None \<Rightarrow> s
      | Some a \<Rightarrow>
          (let i = pi_index (h_item (s_heap s) a);
               s1 = (if i \<ge> 0
                     then s\<lparr>s_heap := snd (heap_Remove PollHeap_if (nat i) (s_heap s))\<rparr> else s)
           in s1\<lparr>s_heapIdx := mdel keyStr (s_heapIdx s1)\<rparr>))"

definition UpdateInterval :: "PollerKey \<Rightarrow> 32 word \<Rightarrow> Scheduler \<Rightarrow> Scheduler" where
  "UpdateInterval key intervalMs s =
     (case map_of (s_heapIdx s) (PollerKey_String key) of
        None \<Rightarrow> s
      | Some a \<Rightarrow> s\<lparr>s_heap := h_upd a (\<lambda>it. it\<lparr>pi_IntervalMs := uint intervalMs\<rparr>) (s_heap s)\<rparr>)"

definition Pause :: "PollerKey \<Rightarrow> Scheduler \<Rightarrow> Scheduler" where
  "Pause key s =
     (case map_of (s_heapIdx s) (PollerKey_String key) of
        None \<Rightarrow> s
      | Some a \<Rightarrow>
          (let i = pi_index (h_item (s_heap s) a) in
           if i \<ge> 0
           then s\<lparr>s_heap := h_set_index a (-1) (snd (heap_Remove PollHeap_if (nat i) (s_heap s)))\<rparr>
           else s))"

definition Resume :: "PollerKey \<Rightarrow> int \<Rightarrow> Scheduler \<Rightarrow> Scheduler" where
  "Resume key now s =
     (case map_of (s_heapIdx s) (PollerKey_String key) of
        None \<Rightarrow> s
      | Some a \<Rightarrow>
          (if pi_index (h_item (s_heap s) a) < 0
           then (let h = h_upd a (\<lambda>it. it\<lparr>pi_NextPollMs := now, pi_Polling := False\<rparr>) (s_heap s)
                 in signalWakeup (s\<lparr>s_heap := heap_Push PollHeap_if a h\<rparr>))
           else s))"

definition Contains :: "PollerKey \<Rightarrow> Scheduler \<Rightarrow> bool" where
  "Contains key s \<longleftrightarrow> map_of (s_heapIdx s) (PollerKey_String key) \<noteq> None"

definition Stats :: "Scheduler \<Rightarrow> nat \<times> nat \<times> nat" where
  "Stats s = (PollHeap_Len (s_heap s), length (s_heapIdx s), length (s_jobs s))"

definition MarkComplete :: "PollerKey \<Rightarrow> int \<Rightarrow> Scheduler \<Rightarrow> Scheduler" where
  "MarkComplete key now s =
     (case map_of (s_heapIdx s) (PollerKey_String key) of
        None \<Rightarrow> s
      | Some a \<Rightarrow>
          (let h = h_upd a (\<lambda>it. it\<lparr>pi_NextPollMs := now + pi_IntervalMs it, pi_Polling := False\<rparr>)
                     (s_heap s);
               s1 = (if pi_index (h_item h a) < 0
                     then s\<lparr>s_heap := heap_Push PollHeap_if a h\<rparr> else s\<lparr>s_heap := h\<rparr>)
           in signalWakeup s1))"

definition GetScheduledPollers :: "Scheduler \<Rightarrow> PollerKey list" where
  "GetScheduledPollers s = map (\<lambda>a. pi_Key (h_item (s_heap s) a)) (mvals (s_heapIdx s))"

definition GetNextPollTime :: "PollerKey \<Rightarrow> Scheduler \<Rightarrow> int option" where
  "GetNextPollTime key s =
     (case map_of (s_heapIdx s) (PollerKey_String key) of
        None \<Rightarrow> None
      | Some a \<Rightarrow> Some (pi_NextPollMs (h_item (s_heap s) a)))"

text \<open>\<open>schedulerLoop\<close>: wait for a signal, sleep until the next poll, or process what is due.\<close>

datatype loop_action = WaitWakeup | Sleep int | ProcessDue

definition loop_decision :: "int \<Rightarrow> Scheduler \<Rightarrow> loop_action" where
  "loop_decision now s =
     (case PollHeap_Peek (s_heap s) of
        None \<Rightarrow> WaitWakeup
      | Some a \<Rightarrow> (let sleepMs = pi_NextPollMs (h_item (s_heap s) a) - now in
                   if sleepMs > 0 then Sleep sleepMs else ProcessDue))"

text \<open>Phase 1 of \<open>processDueItems\<close>, one critical section.\<close>

lemma pop_length:
  "h_arr h \<noteq> [] \<Longrightarrow> length (h_arr (snd (heap_Pop PollHeap_if h))) < length (h_arr h)"
  using arg_cong [OF poll_heap.pop_frame(2), of h size] by simp

function collect_due :: "int \<Rightarrow> PollHeap \<Rightarrow> addr list \<times> PollHeap" where
  "collect_due now h =
     (if h_arr h = [] then ([], h)
      else let next = h_arr h ! 0 in
        if pi_NextPollMs (h_item h next) > now then ([], h)
        else if pi_Polling (h_item h next) then collect_due now (snd (heap_Pop PollHeap_if h))
        else
          (case heap_Pop PollHeap_if h of (a, h1) \<Rightarrow>
             let h2 = h_upd a (\<lambda>it. it\<lparr>pi_Polling := True\<rparr>) h1 in
             (case collect_due now h2 of (as, h3) \<Rightarrow> (a # as, h3))))"
  by pat_completeness auto
termination
  using pop_length
  by (relation "measure (\<lambda>(now, h). length (h_arr h))") (auto simp: h_upd_def, metis snd_conv)

declare collect_due.simps [simp del]

text \<open>Phase 2, one item: offer it to the job queue, or put it back in the heap for later.\<close>

definition queue_due :: "int \<Rightarrow> addr \<Rightarrow> Scheduler \<Rightarrow> Scheduler" where
  "queue_due now a s =
     (if length (s_jobs s) < s_queueSize s
      then s\<lparr>s_jobs := s_jobs s @ [pi_Key (h_item (s_heap s) a)]\<rparr>
      else (let h = h_upd a (\<lambda>it. it\<lparr>pi_Polling := False, pi_NextPollMs := now + 10\<rparr>) (s_heap s)
            in s\<lparr>s_heap := heap_Push PollHeap_if a h\<rparr>))"

definition processDueItems :: "int \<Rightarrow> Scheduler \<Rightarrow> Scheduler" where
  "processDueItems now s =
     (case collect_due now (s_heap s) of (dueItems, h) \<Rightarrow>
        foldl (\<lambda>s item. queue_due now item s) (s\<lparr>s_heap := h\<rparr>) dueItems)"

text \<open>A worker: take a job, poll, mark it complete, then offer the result.\<close>

definition executePoll :: "PollerKey \<Rightarrow> int \<Rightarrow> Scheduler \<Rightarrow> PollResult" where
  "executePoll key now s =
     (case s_pollFunc s of
        None \<Rightarrow> \<lparr>pr_Key = key, pr_TimestampMs = now, pr_Success = False, pr_Timeout = False,
                 pr_Error = ''no poll function configured'', pr_PollMs = 0,
                 pr_Counter = None, pr_Text = None, pr_Gauge = None\<rparr>
      | Some f \<Rightarrow> f key)"

definition worker_take :: "Scheduler \<Rightarrow> (PollerKey \<times> Scheduler) option" where
  "worker_take s = (case s_jobs s of [] \<Rightarrow> None | job # jobs \<Rightarrow> Some (job, s\<lparr>s_jobs := jobs\<rparr>))"

definition worker_send :: "PollResult \<Rightarrow> Scheduler \<Rightarrow> Scheduler option" where
  "worker_send result s =
     (if length (s_results s) < s_queueSize s
      then Some (s\<lparr>s_results := s_results s @ [result]\<rparr>) else None)"

section \<open>Facts about the heap of items\<close>

definition h_ordered :: "PollHeap \<Rightarrow> bool" where
  "h_ordered h \<longleftrightarrow> heap_on (\<lambda>k. pi_NextPollMs (h_item h (h_arr h ! k))) (length (h_arr h))"

lemma ordered_iff: "poll_heap.ordered h = h_ordered h"
proof -
  have "poll_heap.pv h = (\<lambda>k. pi_NextPollMs (h_item h (h_arr h ! k)))"
    by (rule ext) (simp add: poll_heap.pv_def h_prio_def h_view_def)
  then show ?thesis by (simp add: h_ordered_def)
qed

lemma view_fields:
  assumes "h_view h' = h_view h"
  shows "pi_Key (h_item h' a) = pi_Key (h_item h a)"
    "pi_NextPollMs (h_item h' a) = pi_NextPollMs (h_item h a)"
    "pi_IntervalMs (h_item h' a) = pi_IntervalMs (h_item h a)"
    "pi_Polling (h_item h' a) = pi_Polling (h_item h a)"
  using fun_cong [OF assms, of a] unfolding h_view_def
  by (metis PollItem.select_convs(1) PollItem.surjective PollItem.update_convs(5),
      metis PollItem.select_convs(2) PollItem.surjective PollItem.update_convs(5),
      metis PollItem.select_convs(3) PollItem.surjective PollItem.update_convs(5),
      metis PollItem.select_convs(4) PollItem.surjective PollItem.update_convs(5))

lemma h_upd_simps [simp]:
  "h_arr (h_upd a f h) = h_arr h"
  "h_item (h_upd a f h) b = (if b = a then f (h_item h a) else h_item h b)"
  by (simp_all add: h_upd_def)

lemma h_upd_good [simp]:
  "(\<And>it. pi_index (f it) = pi_index it) \<Longrightarrow> h_good (h_upd a f h) = h_good h"
  by (auto simp: h_good_def h_off_def)

lemma h_upd_ordered:
  "a \<notin> set (h_arr h) \<Longrightarrow> h_ordered (h_upd a f h) = h_ordered h"
proof -
  assume a: "a \<notin> set (h_arr h)"
  have "pi_NextPollMs (h_item (h_upd a f h) (h_arr h ! k)) = pi_NextPollMs (h_item h (h_arr h ! k))"
    if "k < length (h_arr h)" for k
    using a that by (metis h_upd_simps(2) nth_mem)
  then show ?thesis
    unfolding h_ordered_def h_upd_simps(1) by (metis (no_types, lifting) heap_on_cong)
qed

lemma h_upd_ordered_keep:
  "(\<And>it. pi_NextPollMs (f it) = pi_NextPollMs it) \<Longrightarrow> h_ordered (h_upd a f h) = h_ordered h"
proof -
  assume f: "\<And>it. pi_NextPollMs (f it) = pi_NextPollMs it"
  have "(\<lambda>k. pi_NextPollMs (h_item (h_upd a f h) (h_arr h ! k))) =
      (\<lambda>k. pi_NextPollMs (h_item h (h_arr h ! k)))"
    by (rule ext) (simp add: f)
  then show ?thesis by (simp only: h_ordered_def h_upd_simps(1))
qed

lemma good_index:
  assumes "h_good h" "0 \<le> pi_index (h_item h a)"
  shows "nat (pi_index (h_item h a)) < length (h_arr h)"
    "h_arr h ! nat (pi_index (h_item h a)) = a" "a \<in> set (h_arr h)"
proof -
  show a: "a \<in> set (h_arr h)" using assms by (force simp: h_good_def h_off_def)
  then obtain k where k: "k < length (h_arr h)" "h_arr h ! k = a" by (auto simp: in_set_conv_nth)
  then have "pi_index (h_item h a) = int k" using assms(1) by (auto simp: h_good_def h_off_def)
  with k show "nat (pi_index (h_item h a)) < length (h_arr h)"
    "h_arr h ! nat (pi_index (h_item h a)) = a" by simp_all
qed

lemma good_index_iff:
  assumes "h_good h"
  shows "pi_index (h_item h a) < 0 \<longleftrightarrow> a \<notin> set (h_arr h)"
proof
  assume "pi_index (h_item h a) < 0"
  then show "a \<notin> set (h_arr h)" using assms by (auto simp: h_good_def h_off_def in_set_conv_nth)
qed (use assms in \<open>simp add: h_good_def h_off_def\<close>)

lemma h_good_distinct: "h_good h \<Longrightarrow> distinct (h_arr h)"
  by (simp add: h_good_def h_off_def)

lemma push_facts:
  "set (h_arr (heap_Push PollHeap_if a h)) = insert a (set (h_arr h))"
  "h_view (heap_Push PollHeap_if a h) = h_view h"
  "h_pushable a h \<Longrightarrow> h_good (heap_Push PollHeap_if a h)"
  "h_ordered h \<Longrightarrow> h_ordered (heap_Push PollHeap_if a h)"
  using poll_heap.push_frame [of a h] poll_heap.push_ordered [of h a]
  by (auto simp: ordered_iff dest: arg_cong [of _ _ set_mset])

lemmas push_item [simp] = view_fields [OF push_facts(2)]

lemma mset_minus_set:
  assumes "add_mset x (mset ys) = mset xs" "distinct xs"
  shows "set ys = set xs - {x}" "distinct ys" "x \<in> set xs"
proof -
  have d: "distinct (x # ys)" using assms by (metis mset.simps(2) mset_eq_imp_distinct_iff)
  have "set (x # ys) = set xs" using assms(1) by (metis mset.simps(2) set_mset_mset)
  with d show "set ys = set xs - {x}" "distinct ys" "x \<in> set xs" by auto
qed

lemma remove_facts:
  assumes "h_good h" "0 \<le> pi_index (h_item h a)"
  shows "set (h_arr (snd (heap_Remove PollHeap_if (nat (pi_index (h_item h a))) h))) = set (h_arr h) - {a}"
    "h_view (snd (heap_Remove PollHeap_if (nat (pi_index (h_item h a))) h)) = h_view h"
    "h_good (snd (heap_Remove PollHeap_if (nat (pi_index (h_item h a))) h))"
    "h_ordered h \<Longrightarrow> h_ordered (snd (heap_Remove PollHeap_if (nat (pi_index (h_item h a))) h))"
  using poll_heap.remove_frame [OF good_index(1) [OF assms]] good_index(2) [OF assms] assms(1)
    poll_heap.remove_ordered [OF good_index(1) [OF assms]]
    mset_minus_set(1) [OF poll_heap.remove_frame(2) [OF good_index(1) [OF assms]] h_good_distinct]
  by (simp_all add: ordered_iff)

lemma pop_facts:
  assumes "h_arr h \<noteq> []"
  shows "fst (heap_Pop PollHeap_if h) = h_arr h ! 0"
    "add_mset (h_arr h ! 0) (mset (h_arr (snd (heap_Pop PollHeap_if h)))) = mset (h_arr h)"
    "h_view (snd (heap_Pop PollHeap_if h)) = h_view h"
    "h_good h \<Longrightarrow> h_good (snd (heap_Pop PollHeap_if h))"
    "h_ordered h \<Longrightarrow> h_ordered (snd (heap_Pop PollHeap_if h))"
  using poll_heap.pop_frame [OF assms] poll_heap.pop_ordered_min [OF assms]
  by (simp_all add: ordered_iff)

section \<open>Consistency of the scheduler\<close>

text \<open>
  \<open>s.heap\<close> and \<open>s.heapIdx\<close> agree: positions are right, the index maps each key to an item with
  that key, and nothing is in the heap that the index does not know.
\<close>

definition sched_ok :: "Scheduler \<Rightarrow> bool" where
  "sched_ok s \<longleftrightarrow> h_good (s_heap s) \<and> gomap_ok (s_heapIdx s) \<and>
     (\<forall>ks a. map_of (s_heapIdx s) ks = Some a \<longrightarrow>
        a < s_next s \<and> PollerKey_String (pi_Key (h_item (s_heap s) a)) = ks) \<and>
     set (h_arr (s_heap s)) \<subseteq> ran (map_of (s_heapIdx s))"

lemma sched_okD:
  assumes "sched_ok s"
  shows "h_good (s_heap s)" "gomap_ok (s_heapIdx s)"
    "\<And>ks a. map_of (s_heapIdx s) ks = Some a \<Longrightarrow>
       a < s_next s \<and> PollerKey_String (pi_Key (h_item (s_heap s) a)) = ks"
    "\<And>a. a \<in> set (h_arr (s_heap s)) \<Longrightarrow> a \<in> ran (map_of (s_heapIdx s))"
  using assms by (auto simp: sched_ok_def)

text \<open>An item is indexed under its own key only.\<close>

lemma sched_key:
  assumes "sched_ok s" "a \<in> ran (map_of (s_heapIdx s))"
  shows "map_of (s_heapIdx s) (PollerKey_String (pi_Key (h_item (s_heap s) a))) = Some a"
  using assms sched_okD(3) [OF assms(1)] by (auto simp: ran_def)

lemma signal_simps [simp]:
  "s_heap (signalWakeup s) = s_heap s" "s_heapIdx (signalWakeup s) = s_heapIdx s"
  "s_next (signalWakeup s) = s_next s" "s_jobs (signalWakeup s) = s_jobs s"
  "s_queueSize (signalWakeup s) = s_queueSize s" "s_pollFunc (signalWakeup s) = s_pollFunc s"
  "s_workers (signalWakeup s) = s_workers s" "s_results (signalWakeup s) = s_results s"
  by (simp_all add: signalWakeup_def)

lemma sched_ok_signal [simp]: "sched_ok (signalWakeup s) = sched_ok s"
  by (simp add: sched_ok_def)

text \<open>The heap may be replaced by one that keeps the keys and stays inside the index.\<close>

lemma sched_ok_heap:
  assumes "sched_ok s" "h_good h" "\<And>a. pi_Key (h_item h a) = pi_Key (h_item (s_heap s) a)"
    "set (h_arr h) \<subseteq> ran (map_of (s_heapIdx s))"
  shows "sched_ok (s\<lparr>s_heap := h\<rparr>)"
  using assms by (simp add: sched_ok_def)

lemma New_ok: "sched_ok (New c)"
  by (simp add: sched_ok_def New_def Let_def h_good_def h_off_def no_item_def)

section \<open>Collecting the due items\<close>

text \<open>One turn of the loop of phase 1.\<close>

lemma collect_cases:
  obtains (empty) "h_arr h = []" "collect_due now h = ([], h)"
  | (later) "h_arr h \<noteq> []" "pi_NextPollMs (h_item h (h_arr h ! 0)) > now" "collect_due now h = ([], h)"
  | (skip) "h_arr h \<noteq> []" "pi_NextPollMs (h_item h (h_arr h ! 0)) \<le> now"
      "pi_Polling (h_item h (h_arr h ! 0))"
      "collect_due now h = collect_due now (snd (heap_Pop PollHeap_if h))"
  | (take) as h' where "h_arr h \<noteq> []" "pi_NextPollMs (h_item h (h_arr h ! 0)) \<le> now"
      "\<not> pi_Polling (h_item h (h_arr h ! 0))"
      "collect_due now (h_upd (h_arr h ! 0) (\<lambda>it. it\<lparr>pi_Polling := True\<rparr>)
         (snd (heap_Pop PollHeap_if h))) = (as, h')"
      "collect_due now h = (h_arr h ! 0 # as, h')"
proof -
  consider "h_arr h = []" | "h_arr h \<noteq> []" "pi_NextPollMs (h_item h (h_arr h ! 0)) > now"
    | "h_arr h \<noteq> []" "pi_NextPollMs (h_item h (h_arr h ! 0)) \<le> now" "pi_Polling (h_item h (h_arr h ! 0))"
    | "h_arr h \<noteq> []" "pi_NextPollMs (h_item h (h_arr h ! 0)) \<le> now" "\<not> pi_Polling (h_item h (h_arr h ! 0))"
    by linarith
  then show thesis
  proof cases
    case 4
    obtain b h1 where p: "heap_Pop PollHeap_if h = (b, h1)" by (cases "heap_Pop PollHeap_if h")
    with pop_facts(1) [OF 4(1)] have b: "b = h_arr h ! 0" by simp
    obtain as h' where r: "collect_due now (h_upd b (\<lambda>it. it\<lparr>pi_Polling := True\<rparr>) h1) = (as, h')"
      by fastforce
    have "collect_due now h = (b # as, h')"
      using 4 p r by (subst collect_due.simps) (simp add: Let_def)
    with 4 r p b show thesis by (intro take) simp_all
  qed (use empty later skip in \<open>simp_all add: collect_due.simps [of now h] Let_def\<close>)
qed

text \<open>What phase 1 keeps and what it takes out, whatever the order of the heap.\<close>

definition collected :: "PollHeap \<Rightarrow> addr list \<Rightarrow> PollHeap \<Rightarrow> bool" where
  "collected h as h' \<longleftrightarrow> h_good h' \<and> distinct as \<and>
     set as \<inter> set (h_arr h') = {} \<and> set as \<union> set (h_arr h') \<subseteq> set (h_arr h) \<and>
     (\<forall>a. pi_Key (h_item h' a) = pi_Key (h_item h a) \<and>
          pi_NextPollMs (h_item h' a) = pi_NextPollMs (h_item h a) \<and>
          pi_IntervalMs (h_item h' a) = pi_IntervalMs (h_item h a) \<and>
          pi_Polling (h_item h' a) = (pi_Polling (h_item h a) \<or> a \<in> set as)) \<and>
     (\<forall>a \<in> set (h_arr h). \<not> pi_Polling (h_item h a) \<longrightarrow> a \<in> set as \<union> set (h_arr h'))"

lemma collect_collected:
  "h_good h \<Longrightarrow> collected h (fst (collect_due now h)) (snd (collect_due now h))"
proof (induction "length (h_arr h)" arbitrary: h rule: less_induct)
  case less
  have refl: "collected h [] h" using less.prems by (simp add: collected_def)
  show ?case
  proof (cases rule: collect_cases [of h now])
    case skip
    let ?h = "snd (heap_Pop PollHeap_if h)"
    note p = pop_facts [OF skip(1)]
    note v = view_fields [OF p(3)]
    have "collected ?h (fst (collect_due now ?h)) (snd (collect_due now ?h))"
      using less.hyps [OF pop_length [OF skip(1)]] p(4) less.prems by simp
    then show ?thesis
      using skip mset_minus_set [OF p(2) h_good_distinct [OF less.prems]]
      by (auto simp: collected_def v)
  next
    case (take as h')
    let ?r = "h_arr h ! 0" and ?p = "snd (heap_Pop PollHeap_if h)"
    let ?h = "h_upd ?r (\<lambda>it. it\<lparr>pi_Polling := True\<rparr>) ?p"
    note p = pop_facts [OF take(1)]
    note v = view_fields [OF p(3)]
    have "collected ?h as h'"
      using less.hyps [of ?h] pop_length [OF take(1)] p(4) less.prems take(4) by simp
    then show ?thesis
      using take(3,5) mset_minus_set [OF p(2) h_good_distinct [OF less.prems]]
      by (auto simp: collected_def v)
  qed (use refl in simp_all)
qed

text \<open>With the heap in order, exactly the due items come out, the earliest first.\<close>

lemma collect_due_sorted:
  "h_good h \<Longrightarrow> h_ordered h \<Longrightarrow>
   h_ordered (snd (collect_due now h)) \<and>
   (\<forall>a \<in> set (fst (collect_due now h)). pi_NextPollMs (h_item h a) \<le> now) \<and>
   (\<forall>a \<in> set (h_arr (snd (collect_due now h))). pi_NextPollMs (h_item h a) > now) \<and>
   sorted (map (\<lambda>a. pi_NextPollMs (h_item h a)) (fst (collect_due now h)))"
proof (induction "length (h_arr h)" arbitrary: h rule: less_induct)
  case less
  show ?case
  proof (cases rule: collect_cases [of h now])
    case empty
    then show ?thesis using less.prems by simp
  next
    case later
    have "\<forall>a \<in> set (h_arr h). pi_NextPollMs (h_item h (h_arr h ! 0)) \<le> pi_NextPollMs (h_item h a)"
      using heap_on_root [OF less.prems(2) [unfolded h_ordered_def]] by (auto simp: in_set_conv_nth)
    then show ?thesis using later less.prems by fastforce
  next
    case skip
    let ?h = "snd (heap_Pop PollHeap_if h)"
    note p = pop_facts [OF skip(1)]
    show ?thesis
      using less.hyps [OF pop_length [OF skip(1)]] p(4,5) less.prems skip view_fields [OF p(3)] by simp
  next
    case (take as h')
    let ?r = "h_arr h ! 0" and ?p = "snd (heap_Pop PollHeap_if h)"
    let ?h = "h_upd ?r (\<lambda>it. it\<lparr>pi_Polling := True\<rparr>) ?p"
    note p = pop_facts [OF take(1)]
    have n: "pi_NextPollMs (h_item ?h a) = pi_NextPollMs (h_item h a)" for a
      using view_fields(2) [OF p(3), of a] view_fields(2) [OF p(3), of ?r] by simp
    have g: "h_good ?h" using p(4) less.prems by simp
    have o: "h_ordered ?h" using p(5) less.prems by (simp add: h_upd_ordered_keep)
    have len: "length (h_arr ?h) < length (h_arr h)" using pop_length [OF take(1)] by simp
    have IH: "h_ordered h'" "\<forall>a \<in> set as. pi_NextPollMs (h_item h a) \<le> now"
      "\<forall>a \<in> set (h_arr h'). pi_NextPollMs (h_item h a) > now"
      "sorted (map (\<lambda>a. pi_NextPollMs (h_item h a)) as)"
      using less.hyps [OF len g o] unfolding take(4) fst_conv snd_conv n by blast+
    have "set as \<subseteq> set (h_arr ?h)"
      using collect_collected [OF g, of now] take(4) by (simp add: collected_def)
    then have "set as \<subseteq> set (h_arr h)"
      using mset_minus_set [OF p(2) h_good_distinct [OF less.prems(1)]] by auto
    moreover have "\<forall>a \<in> set (h_arr h). pi_NextPollMs (h_item h ?r) \<le> pi_NextPollMs (h_item h a)"
      using heap_on_root [OF less.prems(2) [unfolded h_ordered_def]] by (auto simp: in_set_conv_nth)
    ultimately show ?thesis using IH take by (auto simp: subset_iff)
  qed
qed

section \<open>Every operation keeps the scheduler consistent\<close>

lemma Add_new:
  assumes "map_of (s_heapIdx s) (PollerKey_String key) = None" "Add key ms jitter now s = Inr t"
  shows "t = signalWakeup (s\<lparr>
      s_heap := heap_Push PollHeap_if (s_next s) (h_upd (s_next s) (\<lambda>_.
        \<lparr>pi_Key = key, pi_NextPollMs = now + jitter, pi_IntervalMs = uint ms,
         pi_Polling = False, pi_index = 0\<rparr>) (s_heap s)),
      s_heapIdx := mput (PollerKey_String key) (s_next s) (s_heapIdx s),
      s_next := s_next s + 1\<rparr>)"
  using assms by (simp_all add: Add_def Let_def split: if_splits)

lemma Add_old:
  "map_of (s_heapIdx s) (PollerKey_String key) = Some a \<Longrightarrow> Add key ms jitter now s = Inr s"
  by (simp add: Add_def)

lemma fresh_not_in_heap: "sched_ok s \<Longrightarrow> s_next s \<notin> set (h_arr (s_heap s))"
  using sched_okD(3,4) [of s] by (fastforce simp: ran_def)

lemma fresh_pushable:
  assumes "sched_ok s"
  shows "h_pushable (s_next s) (h_upd (s_next s) f (s_heap s))"
proof -
  have n: "s_next s \<notin> set (h_arr (s_heap s))" using assms by (rule fresh_not_in_heap)
  then have "h_arr (s_heap s) ! k \<noteq> s_next s" if "k < length (h_arr (s_heap s))" for k
    using that by (metis nth_mem)
  with n show ?thesis
    using sched_okD(1) [OF assms] by (auto simp: h_pushable_def h_good_def h_off_def)
qed

lemma Add_ok:
  assumes ok: "sched_ok s" and t: "Add key ms jitter now s = Inr t"
  shows "sched_ok t"
proof (cases "map_of (s_heapIdx s) (PollerKey_String key)")
  case None
  define h where "h = h_upd (s_next s) (\<lambda>_. \<lparr>pi_Key = key, pi_NextPollMs = now + jitter,
    pi_IntervalMs = uint ms, pi_Polling = False, pi_index = 0\<rparr>) (s_heap s)"
  have k: "pi_Key (h_item h a) = (if a = s_next s then key else pi_Key (h_item (s_heap s) a))" for a
    by (simp add: h_def)
  have p: "h_pushable (s_next s) h" using fresh_pushable [OF ok] by (simp add: h_def)
  have a: "h_arr h = h_arr (s_heap s)" by (simp add: h_def)
  have "set (h_arr (s_heap s)) \<subseteq> ran (map_of (s_heapIdx s))" using ok by (simp add: sched_ok_def)
  then show ?thesis
    using sched_okD(2,3) [OF ok] None push_facts(3) [OF p]
    by (auto simp: Add_new [OF None t] h_def [symmetric] sched_ok_def push_facts(1) a k
        less_Suc_eq split: if_splits)
next
  case (Some a)
  then show ?thesis using Add_old [OF Some, of ms jitter now] t ok by simp
qed

text \<open>The heap after taking the item at \<open>a\<close> out, if it is in.\<close>

lemma Remove_ok:
  assumes ok: "sched_ok s"
  shows "sched_ok (Remove key s)"
proof (cases "map_of (s_heapIdx s) (PollerKey_String key)")
  case None
  then show ?thesis using ok by (simp add: Remove_def)
next
  case (Some a)
  note d = sched_okD [OF ok]
  have others: "b \<in> ran ((map_of (s_heapIdx s))(PollerKey_String key := None))"
    if "b \<in> set (h_arr (s_heap s))" "b \<noteq> a" for b
  proof -
    have "b \<in> ran (map_of (s_heapIdx s))" using that(1) by (rule d(4))
    then obtain ks where ks: "map_of (s_heapIdx s) ks = Some b" by (auto simp: ran_def)
    with that(2) Some have "ks \<noteq> PollerKey_String key" by auto
    with ks have "((map_of (s_heapIdx s))(PollerKey_String key := None)) ks = Some b" by simp
    then show ?thesis by (rule ranI)
  qed
  show ?thesis
  proof (cases "0 \<le> pi_index (h_item (s_heap s) a)")
    case True
    note r = remove_facts [OF d(1) True]
    show ?thesis
      using d(2,3) others
      by (auto simp: Remove_def Some True sched_ok_def Let_def r(1,3) view_fields [OF r(2)] split: if_splits)
  next
    case False
    then have "a \<notin> set (h_arr (s_heap s))" using good_index_iff [OF d(1), of a] by simp
    then show ?thesis
      using False d(1,2,3) others by (auto simp: Remove_def Some sched_ok_def Let_def split: if_splits)
  qed
qed

lemma UpdateInterval_ok: "sched_ok s \<Longrightarrow> sched_ok (UpdateInterval key ms s)"
  by (auto simp: UpdateInterval_def sched_ok_def split: option.split)

lemma Pause_out:
  assumes ok: "sched_ok s" and a: "map_of (s_heapIdx s) (PollerKey_String key) = Some a"
    and i: "0 \<le> pi_index (h_item (s_heap s) a)"
  defines "h \<equiv> s_heap (Pause key s)"
  shows "Pause key s = s\<lparr>s_heap := h\<rparr>" "h_good h" "set (h_arr h) = set (h_arr (s_heap s)) - {a}"
    "h_view h = h_view (s_heap s)" "h_ordered (s_heap s) \<Longrightarrow> h_ordered h"
proof -
  note r = remove_facts [OF sched_okD(1) [OF ok] i]
  let ?g = "snd (heap_Remove PollHeap_if (nat (pi_index (h_item (s_heap s) a))) (s_heap s))"
  have h: "h = h_set_index a (-1) ?g" using a i by (simp add: h_def Pause_def Let_def)
  show "Pause key s = s\<lparr>s_heap := h\<rparr>" using a i by (simp add: h_def Pause_def Let_def)
  show "set (h_arr h) = set (h_arr (s_heap s)) - {a}" using r(1) by (simp add: h h_set_index_def)
  have "a \<notin> set (h_arr ?g)" using r(1) by simp
  then have "h_arr ?g ! k \<noteq> a" if "k < length (h_arr ?g)" for k
    using that by (metis nth_mem)
  then show "h_good h" using r(3) by (auto simp: h h_set_index_def h_good_def h_off_def)
  show "h_view h = h_view (s_heap s)"
    unfolding r(2) [symmetric] by (rule ext) (simp add: h h_set_index_def h_view_def)
  show "h_ordered (s_heap s) \<Longrightarrow> h_ordered h"
    using r(4) by (simp add: h h_set_index_def h_upd_ordered_keep)
qed

lemma Pause_idle:
  "map_of (s_heapIdx s) (PollerKey_String key) = None \<or>
   (\<exists>a. map_of (s_heapIdx s) (PollerKey_String key) = Some a \<and> pi_index (h_item (s_heap s) a) < 0) \<Longrightarrow>
   Pause key s = s"
  by (auto simp: Pause_def Let_def)

lemma Pause_ok:
  assumes ok: "sched_ok s"
  shows "sched_ok (Pause key s)"
proof (cases "\<exists>a. map_of (s_heapIdx s) (PollerKey_String key) = Some a \<and> 0 \<le> pi_index (h_item (s_heap s) a)")
  case True
  then obtain a where a: "map_of (s_heapIdx s) (PollerKey_String key) = Some a"
    "0 \<le> pi_index (h_item (s_heap s) a)" by blast
  note p = Pause_out [OF ok a]
  show ?thesis
    using p(2-) sched_okD(4) [OF ok] view_fields(1) [OF p(4)]
    by (subst p(1), intro sched_ok_heap [OF ok]) auto
next
  case False
  then show ?thesis using ok Pause_idle [of s key] by (metis not_None_eq not_le)
qed

text \<open>Putting back an item that is out of the heap, after changing its time and its flag.\<close>

lemma requeue_facts:
  assumes g: "h_good h" and a: "a \<notin> set (h_arr h)"
    and f: "\<And>it. pi_index (f it) = pi_index it" "\<And>it. pi_Key (f it) = pi_Key it"
  defines "h' \<equiv> heap_Push PollHeap_if a (h_upd a f h)"
  shows "h_good h'" "set (h_arr h') = insert a (set (h_arr h))"
    "pi_Key (h_item h' b) = pi_Key (h_item h b)" "h_ordered h \<Longrightarrow> h_ordered h'"
    "pi_Polling (h_item h' b) = (if b = a then pi_Polling (f (h_item h a)) else pi_Polling (h_item h b))"
    "pi_NextPollMs (h_item h' b) =
      (if b = a then pi_NextPollMs (f (h_item h a)) else pi_NextPollMs (h_item h b))"
  using push_facts(1,3) [of a "h_upd a f h"] push_facts(4) [of "h_upd a f h" a] h_good_pushable [of "h_upd a f h" a] g a f
  by (simp_all add: h'_def h_upd_ordered)

lemma sched_ok_requeue:
  assumes ok: "sched_ok s" and a: "a \<in> ran (map_of (s_heapIdx s))" "a \<notin> set (h_arr (s_heap s))"
    and f: "\<And>it. pi_index (f it) = pi_index it" "\<And>it. pi_Key (f it) = pi_Key it"
  shows "sched_ok (s\<lparr>s_heap := heap_Push PollHeap_if a (h_upd a f (s_heap s))\<rparr>)"
  using requeue_facts [OF sched_okD(1) [OF ok] a(2) f] a(1) sched_okD(4) [OF ok]
  by (intro sched_ok_heap [OF ok]) auto

lemma Resume_out:
  "map_of (s_heapIdx s) (PollerKey_String key) = Some a \<Longrightarrow> pi_index (h_item (s_heap s) a) < 0 \<Longrightarrow>
   Resume key now s = signalWakeup (s\<lparr>s_heap := heap_Push PollHeap_if a
     (h_upd a (\<lambda>it. it\<lparr>pi_NextPollMs := now, pi_Polling := False\<rparr>) (s_heap s))\<rparr>)"
  by (simp add: Resume_def Let_def)

lemma Resume_in:
  "map_of (s_heapIdx s) (PollerKey_String key) = None \<or>
   (\<exists>a. map_of (s_heapIdx s) (PollerKey_String key) = Some a \<and> 0 \<le> pi_index (h_item (s_heap s) a)) \<Longrightarrow>
   Resume key now s = s"
  by (auto simp: Resume_def Let_def)

lemma Resume_ok:
  assumes ok: "sched_ok s"
  shows "sched_ok (Resume key now s)"
proof (cases "\<exists>a. map_of (s_heapIdx s) (PollerKey_String key) = Some a \<and> pi_index (h_item (s_heap s) a) < 0")
  case True
  then obtain a where a: "map_of (s_heapIdx s) (PollerKey_String key) = Some a"
    "pi_index (h_item (s_heap s) a) < 0" by blast
  moreover have "a \<in> ran (map_of (s_heapIdx s))" using a(1) by (rule ranI)
  ultimately show ?thesis
    using sched_ok_requeue [OF ok] good_index_iff [OF sched_okD(1) [OF ok]]
    by (simp add: Resume_out [OF a])
next
  case False
  then show ?thesis using ok Resume_in [of s key] by (metis not_None_eq not_le)
qed

lemma MarkComplete_out:
  "map_of (s_heapIdx s) (PollerKey_String key) = Some a \<Longrightarrow> pi_index (h_item (s_heap s) a) < 0 \<Longrightarrow>
   MarkComplete key now s = signalWakeup (s\<lparr>s_heap := heap_Push PollHeap_if a
     (h_upd a (\<lambda>it. it\<lparr>pi_NextPollMs := now + pi_IntervalMs it, pi_Polling := False\<rparr>) (s_heap s))\<rparr>)"
  by (simp add: MarkComplete_def Let_def)

lemma MarkComplete_ok:
  assumes ok: "sched_ok s"
  shows "sched_ok (MarkComplete key now s)"
proof (cases "map_of (s_heapIdx s) (PollerKey_String key)")
  case None
  then show ?thesis using ok by (simp add: MarkComplete_def)
next
  case (Some a)
  show ?thesis
  proof (cases "pi_index (h_item (s_heap s) a) < 0")
    case True
    moreover have "a \<in> ran (map_of (s_heapIdx s))" using Some by (rule ranI)
    ultimately show ?thesis
      using sched_ok_requeue [OF ok] good_index_iff [OF sched_okD(1) [OF ok]]
      by (simp add: MarkComplete_out [OF Some True])
  next
    case False
    then show ?thesis
      using ok by (auto simp: MarkComplete_def Some Let_def sched_ok_def)
  qed
qed

lemma queue_due_ok:
  assumes ok: "sched_ok s" and a: "a \<in> ran (map_of (s_heapIdx s))" "a \<notin> set (h_arr (s_heap s))"
  shows "sched_ok (queue_due now a s)"
  using sched_ok_requeue [OF ok a] ok by (auto simp: queue_due_def Let_def sched_ok_def)

lemma queue_due_idx [simp]:
  "s_heapIdx (queue_due now a s) = s_heapIdx s" "s_next (queue_due now a s) = s_next s"
  "s_queueSize (queue_due now a s) = s_queueSize s" "s_pollFunc (queue_due now a s) = s_pollFunc s"
  by (simp_all add: queue_due_def Let_def)

lemma queue_due_arr: "set (h_arr (s_heap (queue_due now a s))) \<subseteq> insert a (set (h_arr (s_heap s)))"
  by (auto simp: queue_due_def Let_def push_facts(1))

lemma queue_all_ok:
  "sched_ok s \<Longrightarrow> distinct as \<Longrightarrow> set as \<subseteq> ran (map_of (s_heapIdx s)) \<Longrightarrow>
   set as \<inter> set (h_arr (s_heap s)) = {} \<Longrightarrow>
   sched_ok (foldl (\<lambda>s item. queue_due now item s) s as)"
proof (induction as arbitrary: s)
  case (Cons a as)
  have "set as \<inter> set (h_arr (s_heap (queue_due now a s))) = {}"
    using queue_due_arr [of now a s] Cons.prems by auto
  then show ?case
    using Cons.IH [of "queue_due now a s"] queue_due_ok [of s a now] Cons.prems by simp
qed simp

lemma collect_ok:
  fixes now :: int
  assumes ok: "sched_ok s"
  defines "r \<equiv> collect_due now (s_heap s)"
  shows "sched_ok (s\<lparr>s_heap := snd r\<rparr>)" "distinct (fst r)"
    "set (fst r) \<subseteq> ran (map_of (s_heapIdx s))" "set (fst r) \<inter> set (h_arr (snd r)) = {}"
  using collect_collected [OF sched_okD(1) [OF ok], of now] sched_okD(4) [OF ok]
  by (auto simp: collected_def r_def intro!: sched_ok_heap [OF ok])

lemma processDueItems_ok: "sched_ok s \<Longrightarrow> sched_ok (processDueItems now s)"
  using collect_ok [of s now] queue_all_ok [of "s\<lparr>s_heap := snd (collect_due now (s_heap s))\<rparr>"
    "fst (collect_due now (s_heap s))" now]
  by (simp add: processDueItems_def split_beta)

section \<open>Calls and reachable schedulers\<close>

inductive sched_call :: "Scheduler \<Rightarrow> Scheduler \<Rightarrow> bool" where
  "sched_call s (SetPollFunc f s)"
| "Add key ms jitter now s = Inr t \<Longrightarrow> sched_call s t"
| "sched_call s (Remove key s)"
| "sched_call s (UpdateInterval key ms s)"
| "sched_call s (Pause key s)"
| "sched_call s (Resume key now s)"
| "sched_call s (processDueItems now s)"
| "worker_take s = Some (key, t) \<Longrightarrow> sched_call s t"
| "sched_call s (MarkComplete key now s)"
| "worker_send result s = Some t \<Longrightarrow> sched_call s t"

inductive sched_calls :: "Config option \<Rightarrow> Scheduler \<Rightarrow> bool" for c where
  "sched_calls c (New c)"
| "sched_calls c s \<Longrightarrow> sched_call s t \<Longrightarrow> sched_calls c t"

lemma sched_call_ok: "sched_call s t \<Longrightarrow> sched_ok s \<Longrightarrow> sched_ok t"
proof (induction rule: sched_call.induct)
  case (2 key ms jitter now s t)
  then show ?case by (metis Add_ok)
next
  case (8 s key t)
  then show ?case by (auto simp: worker_take_def sched_ok_def split: list.splits)
next
  case (10 result s t)
  then show ?case by (auto simp: worker_send_def sched_ok_def split: if_splits)
qed (simp_all add: Remove_ok UpdateInterval_ok Pause_ok Resume_ok processDueItems_ok
    MarkComplete_ok, simp add: SetPollFunc_def sched_ok_def)

lemma sched_calls_ok: "sched_calls c s \<Longrightarrow> sched_ok s"
  by (induction rule: sched_calls.induct) (auto intro: New_ok sched_call_ok)

section \<open>Polls in flight\<close>

text \<open>
  The whole machine: the scheduler, the due items the loop has collected and not yet queued
  (with the time it collected them at), and the workers, each running a poll or waiting to hand
  its result over.
\<close>

record World =
  w_sched :: Scheduler
  w_due :: "addr list"
  w_now :: int
  w_flight :: "PollerKey list"
  w_sending :: "PollResult list"

definition due_key :: "Scheduler \<Rightarrow> addr \<Rightarrow> string" where
  "due_key s a = PollerKey_String (pi_Key (h_item (s_heap s) a))"

definition busy :: "World \<Rightarrow> string list" where
  "busy w = map (due_key (w_sched w)) (w_due w) @ map PollerKey_String (s_jobs (w_sched w)) @
            map PollerKey_String (w_flight w)"

definition init_world :: "Config option \<Rightarrow> World" where
  "init_world c = \<lparr>w_sched = New c, w_due = [], w_now = 0, w_flight = [], w_sending = []\<rparr>"

text \<open>
  The interleaved steps. \<open>remove\<close> and \<open>resume\<close> carry the guard that the poller is not being
  polled, which the code does not check.
\<close>

inductive world_step :: "World \<Rightarrow> World \<Rightarrow> bool" where
  set_func: "world_step w (w\<lparr>w_sched := SetPollFunc f (w_sched w)\<rparr>)"
| add: "Add key ms jitter now (w_sched w) = Inr t \<Longrightarrow> world_step w (w\<lparr>w_sched := t\<rparr>)"
| remove: "PollerKey_String key \<notin> set (busy w) \<Longrightarrow>
    world_step w (w\<lparr>w_sched := Remove key (w_sched w)\<rparr>)"
| update: "world_step w (w\<lparr>w_sched := UpdateInterval key ms (w_sched w)\<rparr>)"
| pause: "world_step w (w\<lparr>w_sched := Pause key (w_sched w)\<rparr>)"
| resume: "PollerKey_String key \<notin> set (busy w) \<Longrightarrow>
    world_step w (w\<lparr>w_sched := Resume key now (w_sched w)\<rparr>)"
| collect: "w_due w = [] \<Longrightarrow> collect_due now (s_heap (w_sched w)) = (as, h) \<Longrightarrow>
    world_step w (w\<lparr>w_sched := (w_sched w)\<lparr>s_heap := h\<rparr>, w_due := as, w_now := now\<rparr>)"
| queue: "w_due w = a # as \<Longrightarrow>
    world_step w (w\<lparr>w_sched := queue_due (w_now w) a (w_sched w), w_due := as\<rparr>)"
| take: "length (w_flight w) + length (w_sending w) < s_workers (w_sched w) \<Longrightarrow>
    worker_take (w_sched w) = Some (key, t) \<Longrightarrow>
    world_step w (w\<lparr>w_sched := t, w_flight := key # w_flight w\<rparr>)"
| complete: "w_flight w = ks @ key # ks' \<Longrightarrow>
    world_step w (w\<lparr>w_sched := MarkComplete key now (w_sched w), w_flight := ks @ ks',
                   w_sending := executePoll key now' (w_sched w) # w_sending w\<rparr>)"
| send: "w_sending w = rs @ r # rs' \<Longrightarrow> worker_send r (w_sched w) = Some t \<Longrightarrow>
    world_step w (w\<lparr>w_sched := t, w_sending := rs @ rs'\<rparr>)"

inductive world_reach :: "Config option \<Rightarrow> World \<Rightarrow> bool" for c where
  init: "world_reach c (init_world c)"
| step: "world_reach c w \<Longrightarrow> world_step w v \<Longrightarrow> world_reach c v"

text \<open>
  \<open>B\<close> holds the keys being polled: each once, all indexed, and exactly the items flagged
  \<open>Polling\<close>, none of which is in the heap.
\<close>

definition busy_ok :: "Scheduler \<Rightarrow> string list \<Rightarrow> bool" where
  "busy_ok s B \<longleftrightarrow> distinct B \<and> set B \<subseteq> dom (map_of (s_heapIdx s)) \<and>
     (\<forall>ks a. map_of (s_heapIdx s) ks = Some a \<longrightarrow>
        (pi_Polling (h_item (s_heap s) a) \<longleftrightarrow> ks \<in> set B) \<and>
        (pi_Polling (h_item (s_heap s) a) \<longrightarrow> a \<notin> set (h_arr (s_heap s))))"

lemma busy_okD:
  assumes "busy_ok s B"
  shows "distinct B" "\<And>ks. ks \<in> set B \<Longrightarrow> \<exists>a. map_of (s_heapIdx s) ks = Some a"
    "\<And>ks a. map_of (s_heapIdx s) ks = Some a \<Longrightarrow> pi_Polling (h_item (s_heap s) a) \<longleftrightarrow> ks \<in> set B"
    "\<And>ks a. map_of (s_heapIdx s) ks = Some a \<Longrightarrow> ks \<in> set B \<Longrightarrow> a \<notin> set (h_arr (s_heap s))"
  using assms by (auto simp: busy_ok_def)

lemma busy_ok_perm: "busy_ok s B \<Longrightarrow> mset B' = mset B \<Longrightarrow> busy_ok s B'"
  unfolding busy_ok_def by (metis mset_eq_imp_distinct_iff set_mset_mset)

lemma busy_ok_signal [simp]: "busy_ok (signalWakeup s) B = busy_ok s B"
  by (simp add: busy_ok_def)

text \<open>The parts of the state an operation must keep for the busy keys.\<close>

lemma busy_ok_cong:
  assumes "busy_ok s B" "s_heapIdx t = s_heapIdx s"
    "\<And>a. a \<in> ran (map_of (s_heapIdx s)) \<Longrightarrow>
       pi_Polling (h_item (s_heap t) a) = pi_Polling (h_item (s_heap s) a)"
    "\<And>a. a \<in> ran (map_of (s_heapIdx s)) \<Longrightarrow> pi_Polling (h_item (s_heap s) a) \<Longrightarrow>
       a \<in> set (h_arr (s_heap t)) \<Longrightarrow> a \<in> set (h_arr (s_heap s))"
  shows "busy_ok t B"
  using assms unfolding busy_ok_def by (metis ranI)

lemma busy_ok_Add:
  assumes ok: "sched_ok s" and b: "busy_ok s B" and t: "Add key ms jitter now s = Inr t"
  shows "busy_ok t B"
proof (cases "map_of (s_heapIdx s) (PollerKey_String key)")
  case None
  have key: "PollerKey_String key \<notin> set B" using busy_okD(2) [OF b] None by force
  have "\<And>ks. map_of (s_heapIdx s) ks \<noteq> Some (s_next s)" using sched_okD(3) [OF ok] by blast
  then show ?thesis
    using b key unfolding Add_new [OF None t] busy_ok_def
    by (auto simp: push_facts(1))
next
  case (Some a)
  then show ?thesis using Add_old [OF Some, of ms jitter now] t b by simp
qed

lemma sched_frame [simp]:
  "s_jobs (Remove key s) = s_jobs s" "s_queueSize (Remove key s) = s_queueSize s"
  "s_jobs (UpdateInterval key ms s) = s_jobs s" "s_queueSize (UpdateInterval key ms s) = s_queueSize s"
  "s_heapIdx (UpdateInterval key ms s) = s_heapIdx s"
  "s_jobs (Pause key s) = s_jobs s" "s_queueSize (Pause key s) = s_queueSize s"
  "s_heapIdx (Pause key s) = s_heapIdx s"
  "s_jobs (Resume key now s) = s_jobs s" "s_queueSize (Resume key now s) = s_queueSize s"
  "s_heapIdx (Resume key now s) = s_heapIdx s"
  "s_jobs (MarkComplete key now s) = s_jobs s" "s_queueSize (MarkComplete key now s) = s_queueSize s"
  "s_heapIdx (MarkComplete key now s) = s_heapIdx s"
  by (auto simp: Remove_def UpdateInterval_def Pause_def Resume_def MarkComplete_def Let_def
      split: option.split)

lemma busy_ok_Remove:
  assumes ok: "sched_ok s" and b: "busy_ok s B" and key: "PollerKey_String key \<notin> set B"
  shows "busy_ok (Remove key s) B"
proof (cases "map_of (s_heapIdx s) (PollerKey_String key)")
  case None
  then show ?thesis using b by (simp add: Remove_def)
next
  case (Some a)
  note r = remove_facts [OF sched_okD(1) [OF ok], of a]
  have pol: "pi_Polling (h_item (s_heap (Remove key s)) x) = pi_Polling (h_item (s_heap s) x)" for x
    using view_fields(4) [OF r(2), of x] by (simp add: Remove_def Some Let_def)
  have arr: "set (h_arr (s_heap (Remove key s))) \<subseteq> set (h_arr (s_heap s))"
    using r(1) by (auto simp: Remove_def Some Let_def)
  have idx: "map_of (s_heapIdx (Remove key s)) = (map_of (s_heapIdx s))(PollerKey_String key := None)"
    by (simp add: Remove_def Some Let_def)
  show ?thesis
    using b key arr unfolding busy_ok_def idx pol by (auto simp: dom_def)
qed

lemma busy_ok_Pause:
  assumes ok: "sched_ok s" and b: "busy_ok s B"
  shows "busy_ok (Pause key s) B"
proof (cases "\<exists>a. map_of (s_heapIdx s) (PollerKey_String key) = Some a \<and> 0 \<le> pi_index (h_item (s_heap s) a)")
  case True
  then obtain a where a: "map_of (s_heapIdx s) (PollerKey_String key) = Some a"
    "0 \<le> pi_index (h_item (s_heap s) a)" by blast
  note p = Pause_out [OF ok a]
  show ?thesis
    by (rule busy_ok_cong [OF b]) (use p(3) in \<open>simp_all add: view_fields(4) [OF p(4)]\<close>)
next
  case False
  then show ?thesis using b Pause_idle [of s key] by (metis not_None_eq not_le)
qed

text \<open>
  Putting an item back with its flag cleared: its key leaves the busy ones, if it was one of
  them.
\<close>

lemma busy_ok_requeue:
  assumes ok: "sched_ok s" and b: "busy_ok s B"
    and a: "map_of (s_heapIdx s) ks = Some a" "a \<notin> set (h_arr (s_heap s))"
    and f: "\<And>it. pi_index (f it) = pi_index it" "\<And>it. pi_Key (f it) = pi_Key it"
      "\<And>it. \<not> pi_Polling (f it)"
  shows "busy_ok (s\<lparr>s_heap := heap_Push PollHeap_if a (h_upd a f (s_heap s))\<rparr>) (removeAll ks B)"
proof -
  note q = requeue_facts [OF sched_okD(1) [OF ok] a(2) f(1,2)]
  have inj: "ks' = ks" if "map_of (s_heapIdx s) ks' = Some a" for ks'
    using sched_okD(3) [OF ok] that a(1) by blast
  let ?t = "s\<lparr>s_heap := heap_Push PollHeap_if a (h_upd a f (s_heap s))\<rparr>"
  have "(pi_Polling (h_item (s_heap ?t) x) \<longleftrightarrow> ks' \<in> set (removeAll ks B)) \<and>
      (pi_Polling (h_item (s_heap ?t) x) \<longrightarrow> x \<notin> set (h_arr (s_heap ?t)))"
    if k: "map_of (s_heapIdx s) ks' = Some x" for ks' x
  proof (cases "x = a")
    case True
    then show ?thesis using inj k by (simp add: q(2,5) f(3))
  next
    case False
    then have "ks' \<noteq> ks" using k a(1) by auto
    then show ?thesis
      using False busy_okD(3,4) [OF b k] by (simp add: q(2,5))
  qed
  then show ?thesis
    using busy_okD(1,2) [OF b] by (auto simp: busy_ok_def distinct_removeAll)
qed

lemma removeAll_Cons_distinct: "distinct (x # xs) \<Longrightarrow> removeAll x (x # xs) = xs"
  by (simp add: removeAll_id)

lemma busy_ok_collect:
  assumes ok: "sched_ok s" and b: "busy_ok s B" and r: "collect_due now (s_heap s) = (as, h)"
  shows "busy_ok (s\<lparr>s_heap := h\<rparr>) (map (due_key s) as @ B)"
proof -
  note d = sched_okD [OF ok]
  have c: "collected (s_heap s) as h" using collect_collected [OF d(1), of now] r by simp
  have sub: "set as \<subseteq> set (h_arr (s_heap s))" using c by (simp add: collected_def)
  have idx: "map_of (s_heapIdx s) (due_key s a) = Some a" if "a \<in> set as" for a
    using sched_key [OF ok d(4)] that sub by (auto simp: due_key_def)
  have key: "ks = due_key s a" if "map_of (s_heapIdx s) ks = Some a" for ks a
    using d(3) [OF that] by (simp add: due_key_def)
  have disj: "due_key s a \<notin> set B" if "a \<in> set as" for a
    using busy_okD(4) [OF b idx [OF that]] that sub by blast
  have inj: "inj_on (due_key s) (set as)"
  proof (rule inj_onI)
    fix x y assume x: "x \<in> set as" and y: "y \<in> set as" and eq: "due_key s x = due_key s y"
    have "Some x = Some y" unfolding idx [OF x, symmetric] idx [OF y, symmetric] eq ..
    then show "x = y" by simp
  qed
  have pol: "\<And>a. pi_Polling (h_item h a) = (pi_Polling (h_item (s_heap s) a) \<or> a \<in> set as)"
    and arr: "set (h_arr h) \<subseteq> set (h_arr (s_heap s))" "set as \<inter> set (h_arr h) = {}"
    using c by (auto simp: collected_def)
  have "distinct (map (due_key s) as @ B)"
    using c inj disj busy_okD(1) [OF b] by (auto simp: collected_def distinct_map)
  moreover have "set (map (due_key s) as @ B) \<subseteq> dom (map_of (s_heapIdx s))"
    using idx busy_okD(2) [OF b] by auto
  moreover have "(pi_Polling (h_item h a) \<longleftrightarrow> ks \<in> set (map (due_key s) as @ B)) \<and>
      (pi_Polling (h_item h a) \<longrightarrow> a \<notin> set (h_arr h))" if k: "map_of (s_heapIdx s) ks = Some a" for ks a
  proof -
    have "b = a" if "b \<in> set as" "ks = due_key s b" for b
      using idx [OF that(1)] k that(2) by simp
    then have "ks \<in> due_key s ` set as \<longleftrightarrow> a \<in> set as" using key [OF k] by blast
    moreover have "pi_Polling (h_item (s_heap s) a) \<longleftrightarrow> ks \<in> set B" by (rule busy_okD(3) [OF b k])
    moreover have "ks \<in> set B \<Longrightarrow> a \<notin> set (h_arr (s_heap s))" by (rule busy_okD(4) [OF b k])
    ultimately show ?thesis using pol arr by auto
  qed
  ultimately show ?thesis by (simp add: busy_ok_def)
qed

section \<open>The invariant of the machine\<close>

definition world_ok :: "World \<Rightarrow> bool" where
  "world_ok w \<longleftrightarrow> sched_ok (w_sched w) \<and> h_ordered (s_heap (w_sched w)) \<and>
     busy_ok (w_sched w) (busy w) \<and> set (w_due w) \<subseteq> ran (map_of (s_heapIdx (w_sched w))) \<and>
     length (s_jobs (w_sched w)) \<le> s_queueSize (w_sched w)"

lemma Remove_ordered:
  "h_good (s_heap s) \<Longrightarrow> h_ordered (s_heap s) \<Longrightarrow> h_ordered (s_heap (Remove key s))"
  using remove_facts(4) by (auto simp: Remove_def Let_def split: option.split)

text \<open>The keys of items that stay in the index do not change.\<close>

lemma due_key_Remove: "sched_ok s \<Longrightarrow> due_key (Remove key s) = due_key s"
  using view_fields(1) [OF remove_facts(2)] sched_okD(1)
  by (auto simp: fun_eq_iff due_key_def Remove_def Let_def split: option.split)

lemma due_key_Update: "due_key (UpdateInterval key ms s) = due_key s"
  by (auto simp: fun_eq_iff due_key_def UpdateInterval_def split: option.split)

lemma due_key_Pause: "sched_ok s \<Longrightarrow> due_key (Pause key s) = due_key s"
  using view_fields(1) [OF remove_facts(2)] sched_okD(1)
  by (auto simp: fun_eq_iff due_key_def Pause_def Let_def h_set_index_def split: option.split)

lemma due_key_Resume: "due_key (Resume key now s) = due_key s"
  by (auto simp: fun_eq_iff due_key_def Resume_def Let_def split: option.split)

lemma due_key_MarkComplete: "due_key (MarkComplete key now s) = due_key s"
  by (auto simp: fun_eq_iff due_key_def MarkComplete_def Let_def split: option.split)

lemma due_key_queue: "due_key (queue_due now a s) = due_key s"
  by (auto simp: fun_eq_iff due_key_def queue_due_def Let_def)

lemma world_okD:
  assumes "world_ok w"
  shows "sched_ok (w_sched w)" "h_ordered (s_heap (w_sched w))" "busy_ok (w_sched w) (busy w)"
    "\<And>a. a \<in> set (w_due w) \<Longrightarrow> a \<in> ran (map_of (s_heapIdx (w_sched w)))"
    "length (s_jobs (w_sched w)) \<le> s_queueSize (w_sched w)"
  using assms by (auto simp: world_ok_def)

text \<open>
  A call on the scheduler alone: the index may change for keys that are not busy, and the
  collected items keep their keys.
\<close>

lemma world_ok_call:
  assumes w: "world_ok w" and ok: "sched_ok t" "h_ordered (s_heap t)" "busy_ok t (busy w)"
    and k: "\<And>a. a \<in> set (w_due w) \<Longrightarrow> due_key t a = due_key (w_sched w) a"
    and j: "s_jobs t = s_jobs (w_sched w)" "s_queueSize t = s_queueSize (w_sched w)"
    and i: "\<And>a. a \<in> set (w_due w) \<Longrightarrow> a \<in> ran (map_of (s_heapIdx t))"
  shows "world_ok (w\<lparr>w_sched := t\<rparr>)"
proof -
  have "map (due_key t) (w_due w) = map (due_key (w_sched w)) (w_due w)" using k by simp
  then have "busy (w\<lparr>w_sched := t\<rparr>) = busy w" by (simp add: busy_def j)
  then show ?thesis using ok i world_okD(5) [OF w] by (auto simp: world_ok_def j)
qed

lemma world_init: "world_ok (init_world c)"
  using New_ok [of c]
  by (simp add: world_ok_def init_world_def busy_def busy_ok_def)
     (simp add: New_def Let_def h_ordered_def heap_on_def)

lemma world_add:
  assumes w: "world_ok w" and t: "Add key ms jitter now (w_sched w) = Inr t"
  shows "world_ok (w\<lparr>w_sched := t\<rparr>)"
proof (cases "map_of (s_heapIdx (w_sched w)) (PollerKey_String key)")
  case None
  note d = world_okD [OF w]
  note n = Add_new [OF None t]
  have fresh: "s_next (w_sched w) \<notin> set (h_arr (s_heap (w_sched w)))"
    using fresh_not_in_heap d(1) by blast
  have old: "a \<noteq> s_next (w_sched w)" if "a \<in> set (w_due w)" for a
    using d(4) [OF that] sched_okD(3) [OF d(1)] by (auto simp: ran_def)
  have i: "a \<in> ran (map_of (s_heapIdx t))" if "a \<in> set (w_due w)" for a
  proof -
    have "a \<in> ran (map_of (s_heapIdx (w_sched w)))" using that by (rule d(4))
    then obtain ks where ks: "map_of (s_heapIdx (w_sched w)) ks = Some a" by (auto simp: ran_def)
    with None have "map_of (s_heapIdx t) ks = Some a" unfolding n by auto
    then show ?thesis by (rule ranI)
  qed
  show ?thesis
  proof (rule world_ok_call [OF w Add_ok [OF d(1) t] _ busy_ok_Add [OF d(1,3) t]])
    show "h_ordered (s_heap t)"
      using push_facts(4) h_upd_ordered [OF fresh] d(2) unfolding n by simp
  qed (use old i in \<open>auto simp: n due_key_def\<close>)
next
  case (Some a)
  then show ?thesis using Add_old [OF Some, of ms jitter now] t w by simp
qed

lemma world_remove:
  assumes w: "world_ok w" and key: "PollerKey_String key \<notin> set (busy w)"
  shows "world_ok (w\<lparr>w_sched := Remove key (w_sched w)\<rparr>)"
proof -
  note d = world_okD [OF w]
  have i: "a \<in> ran (map_of (s_heapIdx (Remove key (w_sched w))))" if a: "a \<in> set (w_due w)" for a
  proof -
    have "map_of (s_heapIdx (w_sched w)) (due_key (w_sched w) a) = Some a"
      using sched_key [OF d(1) d(4) [OF a]] by (simp add: due_key_def)
    moreover have "due_key (w_sched w) a \<noteq> PollerKey_String key" 
      using key imageI [OF a, of "due_key (w_sched w)"] by (auto simp: busy_def)
    ultimately have "map_of (s_heapIdx (Remove key (w_sched w))) (due_key (w_sched w) a) = Some a"
      by (auto simp: Remove_def Let_def split: option.split)
    then show ?thesis by (rule ranI)
  qed
  show ?thesis
    by (rule world_ok_call [OF w Remove_ok [OF d(1)] _ busy_ok_Remove [OF d(1,3) key]])
       (use Remove_ordered sched_okD(1) [OF d(1)] d(2) i in \<open>simp_all add: due_key_Remove [OF d(1)]\<close>)
qed

lemma world_update:
  assumes w: "world_ok w"
  shows "world_ok (w\<lparr>w_sched := UpdateInterval key ms (w_sched w)\<rparr>)"
proof -
  note d = world_okD [OF w]
  have o: "h_ordered (s_heap (UpdateInterval key ms (w_sched w)))"
    using d(2) by (auto simp: UpdateInterval_def h_upd_ordered_keep split: option.split)
  have b: "busy_ok (UpdateInterval key ms (w_sched w)) (busy w)"
    by (rule busy_ok_cong [OF d(3)]) (auto simp: UpdateInterval_def split: option.splits if_splits)
  show ?thesis
    by (rule world_ok_call [OF w UpdateInterval_ok [OF d(1)] o b])
       (use d(4) in \<open>simp_all add: due_key_Update\<close>)
qed

lemma world_pause:
  assumes w: "world_ok w"
  shows "world_ok (w\<lparr>w_sched := Pause key (w_sched w)\<rparr>)"
proof -
  note d = world_okD [OF w]
  have o: "h_ordered (s_heap (Pause key (w_sched w)))"
    using d(2) remove_facts(4) [OF sched_okD(1) [OF d(1)]]
    by (auto simp: Pause_def Let_def h_set_index_def h_upd_ordered_keep split: option.split)
  show ?thesis
    by (rule world_ok_call [OF w Pause_ok [OF d(1)] o busy_ok_Pause [OF d(1,3)]])
       (use d(4) in \<open>simp_all add: due_key_Pause [OF d(1)]\<close>)
qed

lemma world_resume:
  assumes w: "world_ok w" and key: "PollerKey_String key \<notin> set (busy w)"
  shows "world_ok (w\<lparr>w_sched := Resume key now (w_sched w)\<rparr>)"
proof (cases "\<exists>a. map_of (s_heapIdx (w_sched w)) (PollerKey_String key) = Some a \<and>
    pi_index (h_item (s_heap (w_sched w)) a) < 0")
  case True
  then obtain a where a: "map_of (s_heapIdx (w_sched w)) (PollerKey_String key) = Some a"
    "pi_index (h_item (s_heap (w_sched w)) a) < 0" by blast
  note d = world_okD [OF w]
  have out: "a \<notin> set (h_arr (s_heap (w_sched w)))"
    using a(2) good_index_iff [OF sched_okD(1) [OF d(1)], of a] by simp
  have o: "h_ordered (s_heap (Resume key now (w_sched w)))"
    using push_facts(4) h_upd_ordered [OF out] d(2) by (simp add: Resume_out [OF a])
  have "busy_ok (Resume key now (w_sched w)) (removeAll (PollerKey_String key) (busy w))"
    unfolding Resume_out [OF a] busy_ok_signal
    by (rule busy_ok_requeue [OF d(1,3) a(1) out]) simp_all
  then have b: "busy_ok (Resume key now (w_sched w)) (busy w)" using key by (simp add: removeAll_id)
  show ?thesis
    by (rule world_ok_call [OF w Resume_ok [OF d(1)] o b]) (use d(4) in \<open>simp_all add: due_key_Resume\<close>)
next
  case False
  then have "Resume key now (w_sched w) = w_sched w"
    using Resume_in [of "w_sched w" key] by (metis not_None_eq not_le)
  then show ?thesis using w by simp
qed

lemma world_collect:
  assumes w: "world_ok w" and e: "w_due w = []" and r: "collect_due now (s_heap (w_sched w)) = (as, h)"
  shows "world_ok (w\<lparr>w_sched := (w_sched w)\<lparr>s_heap := h\<rparr>, w_due := as, w_now := now\<rparr>)"
proof -
  note d = world_okD [OF w]
  note c = collect_ok [OF d(1), of now, unfolded r fst_conv snd_conv]
  have "\<And>a. pi_Key (h_item h a) = pi_Key (h_item (s_heap (w_sched w)) a)"
    using collect_collected [OF sched_okD(1) [OF d(1)], of now] r by (simp add: collected_def)
  then have k: "due_key ((w_sched w)\<lparr>s_heap := h\<rparr>) = due_key (w_sched w)"
    by (simp add: due_key_def fun_eq_iff)
  have o: "h_ordered h" using collect_due_sorted [OF sched_okD(1) [OF d(1)] d(2), of now] r by simp
  have "busy w = map PollerKey_String (s_jobs (w_sched w)) @ map PollerKey_String (w_flight w)"
    using e by (simp add: busy_def)
  then have "busy_ok ((w_sched w)\<lparr>s_heap := h\<rparr>)
      (busy (w\<lparr>w_sched := (w_sched w)\<lparr>s_heap := h\<rparr>, w_due := as, w_now := now\<rparr>))"
    using busy_ok_collect [OF d(1,3) r] by (simp add: busy_def k)
  then show ?thesis using c o d(5) by (simp add: world_ok_def)
qed

lemma due_indexed:
  "world_ok w \<Longrightarrow> a \<in> set (w_due w) \<Longrightarrow>
   map_of (s_heapIdx (w_sched w)) (due_key (w_sched w) a) = Some a"
  using sched_key [OF world_okD(1) world_okD(4)] by (simp add: due_key_def)

lemma due_out:
  "world_ok w \<Longrightarrow> a \<in> set (w_due w) \<Longrightarrow> a \<notin> set (h_arr (s_heap (w_sched w)))"
  using busy_okD(4) [OF world_okD(3) due_indexed] by (simp add: busy_def)

lemma removeAll_one: "distinct (xs @ x # ys) \<Longrightarrow> removeAll x (xs @ x # ys) = xs @ ys"
  by (simp add: removeAll_id)

lemma world_queue:
  assumes w: "world_ok w" and due: "w_due w = a # as"
  shows "world_ok (w\<lparr>w_sched := queue_due (w_now w) a (w_sched w), w_due := as\<rparr>)"
proof -
  note d = world_okD [OF w]
  let ?s = "w_sched w" and ?t = "queue_due (w_now w) a (w_sched w)"
  let ?v = "w\<lparr>w_sched := ?t, w_due := as\<rparr>"
  have a: "a \<in> set (w_due w)" using due by simp
  have idx: "map_of (s_heapIdx ?s) (due_key ?s a) = Some a" using due_indexed [OF w a] .
  have out: "a \<notin> set (h_arr (s_heap ?s))" using due_out [OF w a] .
  have ok: "sched_ok ?t" using queue_due_ok [OF d(1) d(4) [OF a] out] .
  have ran: "set as \<subseteq> ran (map_of (s_heapIdx ?t))" using d(4) due by auto
  show ?thesis
  proof (cases "length (s_jobs ?s) < s_queueSize ?s")
    case True
    then have t: "?t = ?s\<lparr>s_jobs := s_jobs ?s @ [pi_Key (h_item (s_heap ?s) a)]\<rparr>"
      by (simp add: queue_due_def)
    have "mset (busy ?v) = mset (busy w)"
      unfolding busy_def by (simp add: due due_key_queue) (simp add: t due_key_def)
    then have "busy_ok ?s (busy ?v)" using busy_ok_perm [OF d(3)] by blast
    then have "busy_ok ?t (busy ?v)" by (rule busy_ok_cong) (simp_all add: t)
    then show ?thesis using ok ran d(2) True by (simp add: world_ok_def t)
  next
    case False
    let ?f = "\<lambda>it. it\<lparr>pi_Polling := False, pi_NextPollMs := w_now w + 10\<rparr>"
    have t: "?t = ?s\<lparr>s_heap := heap_Push PollHeap_if a (h_upd a ?f (s_heap ?s))\<rparr>"
      using False by (simp add: queue_due_def Let_def)
    have "busy w = due_key ?s a # busy ?v"
      by (simp add: busy_def due due_key_queue) (simp add: t)
    moreover have "distinct (busy w)" using busy_okD(1) [OF d(3)] .
    ultimately have "removeAll (due_key ?s a) (busy w) = busy ?v" by (simp add: removeAll_id)
    then have "busy_ok ?t (busy ?v)"
      using busy_ok_requeue [OF d(1,3) idx out, of ?f] by (simp add: t)
    moreover have "h_ordered (s_heap ?t)"
      using push_facts(4) h_upd_ordered [OF out] d(2) by (simp add: t)
    ultimately show ?thesis using ok ran d(5) by (simp add: world_ok_def t)
  qed
qed

lemma world_take:
  assumes w: "world_ok w" and t: "worker_take (w_sched w) = Some (key, t)"
  shows "world_ok (w\<lparr>w_sched := t, w_flight := key # w_flight w\<rparr>)"
proof -
  note d = world_okD [OF w]
  obtain js where j: "s_jobs (w_sched w) = key # js" and t': "t = (w_sched w)\<lparr>s_jobs := js\<rparr>"
    using t by (auto simp: worker_take_def split: list.splits)
  let ?v = "w\<lparr>w_sched := t, w_flight := key # w_flight w\<rparr>"
  have k: "due_key t = due_key (w_sched w)" by (simp add: t' due_key_def fun_eq_iff)
  have "mset (busy ?v) = mset (busy w)" by (simp add: busy_def k) (simp add: t' j)
  then have "busy_ok (w_sched w) (busy ?v)" using busy_ok_perm [OF d(3)] by blast
  then have "busy_ok t (busy ?v)" by (rule busy_ok_cong) (simp_all add: t')
  then show ?thesis using d by (auto simp: world_ok_def t' j sched_ok_def)
qed

lemma world_complete:
  assumes w: "world_ok w" and fl: "w_flight w = ks @ key # ks'"
  shows "world_ok (w\<lparr>w_sched := MarkComplete key now (w_sched w), w_flight := ks @ ks',
    w_sending := rs\<rparr>)"
proof -
  note d = world_okD [OF w]
  let ?s = "w_sched w" and ?t = "MarkComplete key now (w_sched w)"
  let ?f = "\<lambda>it. it\<lparr>pi_NextPollMs := now + pi_IntervalMs it, pi_Polling := False\<rparr>"
  let ?v = "w\<lparr>w_sched := ?t, w_flight := ks @ ks', w_sending := rs\<rparr>"
  have kb: "PollerKey_String key \<in> set (busy w)" by (simp add: busy_def fl)
  obtain a where idx: "map_of (s_heapIdx ?s) (PollerKey_String key) = Some a"
    using busy_okD(2) [OF d(3) kb] by blast
  have out: "a \<notin> set (h_arr (s_heap ?s))" using busy_okD(4) [OF d(3) idx kb] .
  have neg: "pi_index (h_item (s_heap ?s) a) < 0"
    using out good_index_iff [OF sched_okD(1) [OF d(1)], of a] by simp
  note t = MarkComplete_out [OF idx neg, of now]
  have "busy w = (map (due_key ?s) (w_due w) @ map PollerKey_String (s_jobs ?s) @ map PollerKey_String ks)
      @ PollerKey_String key # map PollerKey_String ks'"
    by (simp add: busy_def fl)
  then have rm: "removeAll (PollerKey_String key) (busy w) = busy ?v"
    using busy_okD(1) [OF d(3)] removeAll_one by (simp add: busy_def due_key_MarkComplete)
  have "busy_ok ?t (removeAll (PollerKey_String key) (busy w))"
    unfolding t busy_ok_signal by (rule busy_ok_requeue [OF d(1,3) idx out]) simp_all
  moreover have "h_ordered (s_heap ?t)"
    using push_facts(4) h_upd_ordered [OF out] d(2) by (simp add: t)
  ultimately show ?thesis
    using MarkComplete_ok [OF d(1)] d(4,5) unfolding rm by (auto simp: world_ok_def)
qed

lemma world_step_ok: "world_step w v \<Longrightarrow> world_ok w \<Longrightarrow> world_ok v"
proof (induction rule: world_step.induct)
  case (set_func w f)
  note d = world_okD [OF set_func]
  have "busy_ok (SetPollFunc f (w_sched w)) (busy w)"
    by (rule busy_ok_cong [OF d(3)]) (simp_all add: SetPollFunc_def)
  then show ?case
    by (intro world_ok_call [OF set_func])
       (use d in \<open>auto simp: SetPollFunc_def sched_ok_def due_key_def\<close>)
next
  case (send w rs r rs' t)
  note d = world_okD [OF send(3)]
  have t: "t = (w_sched w)\<lparr>s_results := s_results (w_sched w) @ [r]\<rparr>"
    using send(2) by (auto simp: worker_send_def split: if_splits)
  have k: "due_key t = due_key (w_sched w)" by (simp add: t due_key_def fun_eq_iff)
  have "busy (w\<lparr>w_sched := t, w_sending := rs @ rs'\<rparr>) = busy w" by (simp add: busy_def k) (simp add: t)
  moreover have "busy_ok t (busy w)" by (rule busy_ok_cong [OF d(3)]) (simp_all add: t)
  ultimately show ?case using d by (auto simp: world_ok_def t sched_ok_def)
qed (simp_all add: world_add world_remove world_update world_pause world_resume world_collect
    world_queue world_take world_complete)

lemma world_reach_ok: "world_reach c w \<Longrightarrow> world_ok w"
  by (induction rule: world_reach.induct) (auto intro: world_init world_step_ok)

section \<open>Properties\<close>

text \<open>C2: however the calls of clients, the loop and the workers interleave, as long as a poller is
  neither removed nor resumed while it is being polled: no poller is queued or polled twice at
  once, the items flagged \<open>Polling\<close> are exactly those being polled and none of them is in the
  heap, the heap stays in order with every stored position right, and the job queue never
  exceeds its capacity.\<close>

theorem no_poller_polled_twice:
  assumes "world_reach c w"
  shows "distinct (busy w) \<and>
    (\<forall>ks a. map_of (s_heapIdx (w_sched w)) ks = Some a \<longrightarrow>
       (pi_Polling (h_item (s_heap (w_sched w)) a) \<longleftrightarrow> ks \<in> set (busy w)) \<and>
       (ks \<in> set (busy w) \<longrightarrow> pi_index (h_item (s_heap (w_sched w)) a) < 0)) \<and>
    h_ordered (s_heap (w_sched w)) \<and> h_good (s_heap (w_sched w)) \<and>
    length (s_jobs (w_sched w)) \<le> s_queueSize (w_sched w)"
proof -
  note d = world_okD [OF world_reach_ok [OF assms]]
  show ?thesis
    using d(2,5) busy_okD(1,3,4) [OF d(3)] sched_okD(1) [OF d(1)]
      good_index_iff [OF sched_okD(1) [OF d(1)]] by blast
qed

text \<open>A small scheduler for the witnesses: one poller, due at once.\<close>

definition ex_key1 :: PollerKey where
  "ex_key1 = \<lparr>pk_Namespace = ''n'', pk_Target = ''t'', pk_Poller = ''a''\<rparr>"

definition ex_key2 :: PollerKey where
  "ex_key2 = \<lparr>pk_Namespace = ''n'', pk_Target = ''t'', pk_Poller = ''b''\<rparr>"

definition ex_added :: Scheduler where
  "ex_added = projr (Add ex_key1 100 0 0 (New None))"

lemma ex_added_call: "Add ex_key1 100 0 0 (New None) = Inr ex_added"
proof -
  have "isl (Add ex_key1 100 0 0 (New None)) = False"
    by (simp add: Add_def New_def Let_def)
  then show ?thesis by (metis ex_added_def sum.collapse(2))
qed

lemma ex_added_calls: "sched_calls None ex_added"
  by (rule sched_calls.intros(2) [OF sched_calls.intros(1) sched_call.intros(2) [OF ex_added_call]])

lemma ex_collect: "fst (collect_due 0 (s_heap ex_added)) = [0]"
  by code_simp

definition ex_busy :: World where
  "ex_busy = (init_world None)\<lparr>w_sched := ex_added\<lparr>s_heap := snd (collect_due 0 (s_heap ex_added))\<rparr>,
     w_due := [0], w_now := 0\<rparr>"

lemma ex_busy_reach: "world_reach None ex_busy"
proof -
  have "world_reach None ((init_world None)\<lparr>w_sched := ex_added\<rparr>)"
    using world_reach.step [OF world_reach.init world_step.add, of ex_key1 100 0 0 None ex_added]
      ex_added_call by (simp add: init_world_def)
  moreover have "world_step ((init_world None)\<lparr>w_sched := ex_added\<rparr>) ex_busy"
    using world_step.collect [of "(init_world None)\<lparr>w_sched := ex_added\<rparr>" 0 "[0]"
      "snd (collect_due 0 (s_heap ex_added))"] ex_collect
    by (simp add: init_world_def ex_busy_def prod_eq_iff)
  ultimately show ?thesis by (rule world_reach.step)
qed

lemma no_poller_polled_twice_witness:
  "w_due ex_busy = [0] \<and> distinct (busy ex_busy) \<and> h_ordered (s_heap (w_sched ex_busy))"
  using no_poller_polled_twice [OF ex_busy_reach] by (simp add: ex_busy_def)

text \<open>C3: phase 1 of \<open>processDueItems\<close> takes exactly the due items out of the heap, the earliest
  first and each once, marks them, and leaves the later ones in a heap that is still in order.\<close>

theorem collect_takes_exactly_due:
  assumes "h_good h" "h_ordered h" "\<forall>a \<in> set (h_arr h). \<not> pi_Polling (h_item h a)"
    "collect_due now h = (as, h')"
  shows "set as = {a \<in> set (h_arr h). pi_NextPollMs (h_item h a) \<le> now} \<and> distinct as \<and>
    sorted (map (\<lambda>a. pi_NextPollMs (h_item h a)) as) \<and>
    set (h_arr h') = {a \<in> set (h_arr h). pi_NextPollMs (h_item h a) > now} \<and>
    (\<forall>a \<in> set as. pi_Polling (h_item h' a)) \<and> h_good h' \<and> h_ordered h'"
proof -
  have c: "collected h as h'" using collect_collected [OF assms(1), of now] assms(4) by simp
  have s: "h_ordered h'" "\<forall>a \<in> set as. pi_NextPollMs (h_item h a) \<le> now"
    "\<forall>a \<in> set (h_arr h'). pi_NextPollMs (h_item h a) > now"
    "sorted (map (\<lambda>a. pi_NextPollMs (h_item h a)) as)"
    using collect_due_sorted [OF assms(1,2), of now] assms(4) by simp_all
  have u: "set as \<union> set (h_arr h') = set (h_arr h)" using c assms(3) by (auto simp: collected_def)
  have "set as = {a \<in> set (h_arr h). pi_NextPollMs (h_item h a) \<le> now}"
    "set (h_arr h') = {a \<in> set (h_arr h). pi_NextPollMs (h_item h a) > now}"
    using u s(2,3) by force+
  then show ?thesis using c s(1,4) by (simp add: collected_def)
qed

lemma collect_takes_exactly_due_witness:
  "set (fst (collect_due 0 (s_heap ex_added))) =
     {a \<in> set (h_arr (s_heap ex_added)). pi_NextPollMs (h_item (s_heap ex_added) a) \<le> 0}"
proof -
  have g: "h_good (s_heap ex_added)" using sched_okD(1) [OF sched_calls_ok [OF ex_added_calls]] .
  have o: "h_ordered (s_heap ex_added)" by code_simp
  have p: "\<forall>a \<in> set (h_arr (s_heap ex_added)). \<not> pi_Polling (h_item (s_heap ex_added) a)" by code_simp
  show ?thesis using collect_takes_exactly_due [OF g o p surjective_pairing, of 0] by simp
qed



text \<open>\<open>ParsePollerKey\<close> inverts \<open>String\<close> for namespaces and targets without a slash, whatever
  the poller name.\<close>

theorem parse_poller_key_roundtrip:
  assumes "CHR ''/'' \<notin> set (pk_Namespace k)" "CHR ''/'' \<notin> set (pk_Target k)"
  shows "ParsePollerKey (PollerKey_String k) = Inr k"
proof -
  have three: "(3::nat) = Suc (Suc (Suc 0))" by simp
  have "split_n (CHR ''/'') 3 (PollerKey_String k) = [pk_Namespace k, pk_Target k, pk_Poller k]"
    using split_n_append [OF assms(1), of "Suc 0"] split_n_append [OF assms(2), of 0]
    by (simp add: PollerKey_String_def three)
  then show ?thesis by (simp add: ParsePollerKey_def Let_def)
qed

lemma parse_poller_key_roundtrip_witness:
  "ParsePollerKey (PollerKey_String ex_key1) = Inr ex_key1"
  by (rule parse_poller_key_roundtrip) (simp_all add: ex_key1_def)

lemma queue_due_jobs: "set (s_jobs s) \<subseteq> set (s_jobs (queue_due now a s))"
  by (auto simp: queue_due_def Let_def)

lemma queue_all_jobs: "set (s_jobs s) \<subseteq> set (s_jobs (foldl (\<lambda>s item. queue_due now item s) s as))"
proof (induction as arbitrary: s)
  case (Cons a as)
  from queue_due_jobs Cons.IH [of "queue_due now a s"] show ?case
    unfolding foldl_Cons by (rule subset_trans)
qed simp

lemma queue_all_kept:
  "\<forall>a \<in> set as \<union> set (h_arr (s_heap s)).
     a \<in> set (h_arr (s_heap (foldl (\<lambda>s item. queue_due now item s) s as))) \<or>
     pi_Key (h_item (s_heap s) a) \<in> set (s_jobs (foldl (\<lambda>s item. queue_due now item s) s as))"
proof (induction as arbitrary: s)
  case (Cons b as)
  let ?s = "queue_due now b s"
  have arr: "set (h_arr (s_heap s)) \<subseteq> set (h_arr (s_heap ?s))"
    by (auto simp: queue_due_def Let_def push_facts(1))
  have key: "pi_Key (h_item (s_heap ?s) a) = pi_Key (h_item (s_heap s) a)" for a
    by (auto simp: queue_due_def Let_def)
  have "b \<in> set (h_arr (s_heap ?s)) \<or> pi_Key (h_item (s_heap s) b) \<in> set (s_jobs ?s)"
    by (auto simp: queue_due_def Let_def push_facts(1))
  then show ?case
    using Cons.IH [of ?s] arr queue_all_jobs [of ?s now as] by (auto simp: key)
qed simp

text \<open>C5: \<open>processDueItems\<close> loses nothing: every item that was in the heap and not being polled is
  afterwards in the heap again or has its job in the queue.\<close>

theorem due_items_never_lost:
  assumes "sched_calls c s" "a \<in> set (h_arr (s_heap s))" "\<not> pi_Polling (h_item (s_heap s) a)"
  shows "a \<in> set (h_arr (s_heap (processDueItems now s))) \<or>
    pi_Key (h_item (s_heap s) a) \<in> set (s_jobs (processDueItems now s))"
proof -
  obtain as h where r: "collect_due now (s_heap s) = (as, h)" by fastforce
  have c: "collected (s_heap s) as h"
    using collect_collected [OF sched_okD(1) [OF sched_calls_ok [OF assms(1)]], of now] r by simp
  then have "a \<in> set as \<union> set (h_arr h)" using assms(2,3) by (auto simp: collected_def)
  moreover have "pi_Key (h_item h a) = pi_Key (h_item (s_heap s) a)" using c by (simp add: collected_def)
  ultimately show ?thesis
    using queue_all_kept [of as "s\<lparr>s_heap := h\<rparr>" now] r by (auto simp: processDueItems_def)
qed

lemma due_items_never_lost_witness:
  "0 \<in> set (h_arr (s_heap (processDueItems 0 ex_added))) \<or> ex_key1 \<in> set (s_jobs (processDueItems 0 ex_added))"
proof -
  have a: "0 \<in> set (h_arr (s_heap ex_added))" and p: "\<not> pi_Polling (h_item (s_heap ex_added) 0)"
    and k: "pi_Key (h_item (s_heap ex_added) 0) = ex_key1"
    by code_simp+
  show ?thesis using due_items_never_lost [OF ex_added_calls a p, of 0] by (simp add: k)
qed

definition ex_running :: Scheduler where
  "ex_running = snd (the (worker_take (processDueItems 0 ex_added)))"

definition ex_readded :: Scheduler where
  "ex_readded = projr (Add ex_key2 1000 5 0 (projr (Add ex_key1 1000 0 0 (Remove ex_key1 ex_running))))"

lemma ex_readded_calls: "sched_calls None ex_readded"
proof -
  have "worker_take (processDueItems 0 ex_added) \<noteq> None" by code_simp
  then obtain k t where t: "worker_take (processDueItems 0 ex_added) = Some (k, t)" by auto
  then have "t = ex_running" by (simp add: ex_running_def)
  then have r: "sched_calls None ex_running"
    using sched_calls.intros(2) [OF sched_calls.intros(2) [OF ex_added_calls sched_call.intros(7)]
        sched_call.intros(8) [OF t]] by simp
  have ar: "sched_calls None (projr (Add k ms j now s))"
    if "sched_calls None s" "0 < uint ms" for k ms j now s
  proof -
    have "\<not> isl (Add k ms j now s)" using that(2) by (simp add: Add_def Let_def)
    then have "Add k ms j now s = Inr (projr (Add k ms j now s))" by (cases "Add k ms j now s") auto
    then show ?thesis using sched_calls.intros(2) [OF that(1) sched_call.intros(2)] by blast
  qed
  have "sched_calls None (Remove ex_key1 ex_running)"
    by (rule sched_calls.intros(2) [OF r sched_call.intros(3)])
  then show ?thesis unfolding ex_readded_def by (intro ar) simp_all
qed

text \<open>Without the guard of C8 the heap order breaks, with calls the server makes: a poller is
  removed and added again while its poll runs, so that \<open>MarkComplete\<close> finds the new item in the heap
  and moves its time without \<open>heap.Fix\<close>. Another poller, due for long, is then not found.\<close>

theorem mark_complete_can_hide_due_poller:
  "sched_calls None ex_readded \<and> h_ordered (s_heap ex_readded) \<and>
   (let h = s_heap (MarkComplete ex_key1 1 ex_readded) in
      \<not> h_ordered h \<and> pi_NextPollMs (h_item h (h_arr h ! 1)) = 5 \<and> fst (collect_due 900 h) = [])"
proof (intro conjI)
  show "h_ordered (s_heap ex_readded)" by code_simp
  show "let h = s_heap (MarkComplete ex_key1 1 ex_readded) in
      \<not> h_ordered h \<and> pi_NextPollMs (h_item h (h_arr h ! 1)) = 5 \<and> fst (collect_due 900 h) = []"
    by code_simp
qed (rule ex_readded_calls)

end
