(* ===== verification/ConfigResolver.thy ===== *)
theory ConfigResolver
  imports StoreData
begin

text \<open>
  Inherited configuration, internal/manager/config_resolver.go: the layers server, namespace,
  target and poller merged into one configuration that remembers where each field came from, and
  the cache of resolved configurations with its time to live. \<open>time.Now()\<close> is an argument.
\<close>

section \<open>The resolved configuration\<close>

record ResolvedPollerConfig =
  rc_Community :: string
  rc_CommunitySource :: string
  rc_SecurityName :: string
  rc_SecurityNameSource :: string
  rc_SecurityLevel :: string
  rc_SecurityLevelSource :: string
  rc_AuthProtocol :: string
  rc_AuthProtocolSource :: string
  rc_AuthPassword :: string
  rc_AuthPasswordSource :: string
  rc_PrivProtocol :: string
  rc_PrivProtocolSource :: string
  rc_PrivPassword :: string
  rc_PrivPasswordSource :: string
  rc_IntervalMs :: "32 word"
  rc_IntervalMsSource :: string
  rc_TimeoutMs :: "32 word"
  rc_TimeoutMsSource :: string
  rc_Retries :: "32 word"
  rc_RetriesSource :: string
  rc_BufferSize :: "32 word"
  rc_BufferSizeSource :: string

definition zero_config :: ResolvedPollerConfig where
  "zero_config = \<lparr>rc_Community = [], rc_CommunitySource = [], rc_SecurityName = [],
     rc_SecurityNameSource = [], rc_SecurityLevel = [], rc_SecurityLevelSource = [],
     rc_AuthProtocol = [], rc_AuthProtocolSource = [], rc_AuthPassword = [],
     rc_AuthPasswordSource = [], rc_PrivProtocol = [], rc_PrivProtocolSource = [],
     rc_PrivPassword = [], rc_PrivPasswordSource = [], rc_IntervalMs = 0, rc_IntervalMsSource = [],
     rc_TimeoutMs = 0, rc_TimeoutMsSource = [], rc_Retries = 0, rc_RetriesSource = [],
     rc_BufferSize = 0, rc_BufferSizeSource = []\<rparr>"

text \<open>\<open>if v != nil { field = *v; source = s }\<close> and \<open>if v != "" { field = v; source = s }\<close>.\<close>

definition set_opt :: "'a option \<Rightarrow> ('a \<Rightarrow> 'r \<Rightarrow> 'r) \<Rightarrow> 'r \<Rightarrow> 'r" where
  "set_opt v f r = (case v of None \<Rightarrow> r | Some x \<Rightarrow> f x r)"

definition set_str :: "string \<Rightarrow> (string \<Rightarrow> 'r \<Rightarrow> 'r) \<Rightarrow> 'r \<Rightarrow> 'r" where
  "set_str v f r = (if v \<noteq> [] then f v r else r)"

definition applyServerDefaults :: "ServerConfig \<Rightarrow> ResolvedPollerConfig \<Rightarrow> ResolvedPollerConfig" where
  "applyServerDefaults cfg r = r
     \<lparr>rc_IntervalMs := sc_DefaultIntervalMs cfg, rc_IntervalMsSource := ''server'',
      rc_TimeoutMs := sc_DefaultTimeoutMs cfg, rc_TimeoutMsSource := ''server'',
      rc_Retries := sc_DefaultRetries cfg, rc_RetriesSource := ''server'',
      rc_BufferSize := sc_DefaultBufferSize cfg, rc_BufferSizeSource := ''server'',
      rc_Community := ''public'', rc_CommunitySource := ''server''\<rparr>"

definition applySNMPv3 :: "string \<Rightarrow> SNMPv3Defaults \<Rightarrow> ResolvedPollerConfig \<Rightarrow> ResolvedPollerConfig" where
  "applySNMPv3 source v3 r0 =
     (let r1 = set_str (v3_SecurityName v3)
            (\<lambda>x r. r\<lparr>rc_SecurityName := x, rc_SecurityNameSource := source\<rparr>) r0;
          r2 = set_str (v3_SecurityLevel v3)
            (\<lambda>x r. r\<lparr>rc_SecurityLevel := x, rc_SecurityLevelSource := source\<rparr>) r1;
          r3 = set_str (v3_AuthProtocol v3)
            (\<lambda>x r. r\<lparr>rc_AuthProtocol := x, rc_AuthProtocolSource := source\<rparr>) r2;
          r4 = (if v3_AuthPassword v3 \<noteq> []
                then r3\<lparr>rc_AuthPassword := v3_AuthPassword v3, rc_AuthPasswordSource := source\<rparr>
                else if v3_AuthSecretRef v3 \<noteq> []
                then r3\<lparr>rc_AuthPassword := v3_AuthSecretRef v3,
                        rc_AuthPasswordSource := source @ '' (secret)''\<rparr>
                else r3);
          r5 = set_str (v3_PrivProtocol v3)
            (\<lambda>x r. r\<lparr>rc_PrivProtocol := x, rc_PrivProtocolSource := source\<rparr>) r4
      in (if v3_PrivPassword v3 \<noteq> []
          then r5\<lparr>rc_PrivPassword := v3_PrivPassword v3, rc_PrivPasswordSource := source\<rparr>
          else if v3_PrivSecretRef v3 \<noteq> []
          then r5\<lparr>rc_PrivPassword := v3_PrivSecretRef v3,
                  rc_PrivPasswordSource := source @ '' (secret)''\<rparr>
          else r5))"

definition applyDefaults :: "PollerDefaults \<Rightarrow> string \<Rightarrow> ResolvedPollerConfig \<Rightarrow> ResolvedPollerConfig" where
  "applyDefaults defaults source r0 =
     (let r1 = set_opt (d_SNMPCommunity defaults)
            (\<lambda>x r. r\<lparr>rc_Community := x, rc_CommunitySource := source\<rparr>) r0;
          r2 = set_opt (d_SNMPv3 defaults) (applySNMPv3 source) r1;
          r3 = set_opt (d_IntervalMs defaults)
            (\<lambda>x r. r\<lparr>rc_IntervalMs := x, rc_IntervalMsSource := source\<rparr>) r2;
          r4 = set_opt (d_TimeoutMs defaults)
            (\<lambda>x r. r\<lparr>rc_TimeoutMs := x, rc_TimeoutMsSource := source\<rparr>) r3;
          r5 = set_opt (d_Retries defaults)
            (\<lambda>x r. r\<lparr>rc_Retries := x, rc_RetriesSource := source\<rparr>) r4
      in set_opt (d_BufferSize defaults)
            (\<lambda>x r. r\<lparr>rc_BufferSize := x, rc_BufferSizeSource := source\<rparr>) r5)"

definition applyPollingConfig :: "PollingConfig \<Rightarrow> string \<Rightarrow> ResolvedPollerConfig \<Rightarrow> ResolvedPollerConfig" where
  "applyPollingConfig cfg source r0 =
     (let r1 = set_opt (pc_IntervalMs cfg)
            (\<lambda>x r. r\<lparr>rc_IntervalMs := x, rc_IntervalMsSource := source\<rparr>) r0;
          r2 = set_opt (pc_TimeoutMs cfg)
            (\<lambda>x r. r\<lparr>rc_TimeoutMs := x, rc_TimeoutMsSource := source\<rparr>) r1;
          r3 = set_opt (pc_Retries cfg)
            (\<lambda>x r. r\<lparr>rc_Retries := x, rc_RetriesSource := source\<rparr>) r2
      in set_opt (pc_BufferSize cfg)
            (\<lambda>x r. r\<lparr>rc_BufferSize := x, rc_BufferSizeSource := source\<rparr>) r3)"

text \<open>The layers that apply: an entity that exists, with a configuration, with defaults in it.\<close>

definition ns_defaults :: "Namespace option \<Rightarrow> PollerDefaults option" where
  "ns_defaults ns = Option.bind ns (\<lambda>n. Option.bind (ns_Config n) nc_Defaults)"

definition t_defaults :: "Target option \<Rightarrow> PollerDefaults option" where
  "t_defaults t = Option.bind t (\<lambda>x. Option.bind (t_Config x) tc_Defaults)"

definition p_polling :: "Poller option \<Rightarrow> PollingConfig option" where
  "p_polling p = Option.bind p p_PollingConfig"

definition ResolveWithPoller ::
    "ServerConfig option \<Rightarrow> Namespace option \<Rightarrow> Target option \<Rightarrow> Poller option \<Rightarrow> ResolvedPollerConfig" where
  "ResolveWithPoller serverCfg ns t p =
     (let r1 = set_opt serverCfg applyServerDefaults zero_config;
          r2 = set_opt (ns_defaults ns)
                 (\<lambda>d. applyDefaults d (''namespace:'' @ (case ns of None \<Rightarrow> [] | Some n \<Rightarrow> ns_Name n))) r1;
          r3 = set_opt (t_defaults t)
                 (\<lambda>d. applyDefaults d (''target:'' @ (case t of None \<Rightarrow> [] | Some x \<Rightarrow> t_Name x))) r2
      in set_opt (p_polling p) (\<lambda>c. applyPollingConfig c ''explicit'') r3)"

section \<open>The resolver and its cache\<close>

record ConfigResolver =
  cr_cache :: "(string, ResolvedPollerConfig \<times> int) gomap"
  cr_cacheTTL :: int

definition NewConfigResolver :: ConfigResolver where
  "NewConfigResolver = \<lparr>cr_cache = [], cr_cacheTTL = 30000\<rparr>"

definition cache_key :: "string \<Rightarrow> string \<Rightarrow> string \<Rightarrow> string" where
  "cache_key namespace target poller = namespace @ ''/'' @ target @ ''/'' @ poller"

text \<open>What a miss computes: four lookups, each of which may fail, merged layer by layer.\<close>

definition resolve_cold :: "string \<Rightarrow> string \<Rightarrow> string \<Rightarrow> ResolvedPollerConfig sql" where
  "resolve_cold namespace target poller =
     bnd GetServerConfig (\<lambda>serverCfg.
       let r1 = applyServerDefaults serverCfg zero_config in
     bnd (GetNamespace namespace) (\<lambda>ns.
       let r2 = set_opt (ns_defaults ns) (\<lambda>d. applyDefaults d (''namespace:'' @ namespace)) r1 in
     bnd (GetTarget namespace target) (\<lambda>t.
       let r3 = set_opt (t_defaults t) (\<lambda>d. applyDefaults d (''target:'' @ target)) r2 in
     bnd (GetPoller namespace target poller) (\<lambda>p.
       ret (set_opt (p_polling p) (\<lambda>c. applyPollingConfig c ''explicit'') r3)))))"

definition Resolve ::
    "int \<Rightarrow> int \<Rightarrow> string \<Rightarrow> string \<Rightarrow> string \<Rightarrow> ConfigResolver \<Rightarrow> Store \<Rightarrow>
     ResolvedPollerConfig go \<times> ConfigResolver \<times> Store" where
  "Resolve now now' namespace target poller r s =
     (let key = cache_key namespace target poller;
          cached = (case map_of (cr_cache r) key of
                      None \<Rightarrow> None
                    | Some (config, createdAt) \<Rightarrow>
                        if now - createdAt < cr_cacheTTL r then Some config else None)
      in case cached of
           Some config \<Rightarrow> (Inr config, r, s)
         | None \<Rightarrow>
             (case resolve_cold namespace target poller s of
                (Inl e, s') \<Rightarrow> (Inl e, r, s')
              | (Inr result, s') \<Rightarrow>
                  (Inr result, r\<lparr>cr_cache := mput key (result, now') (cr_cache r)\<rparr>, s')))"

text \<open>Secret references.\<close>

definition isSecretRef :: "string \<Rightarrow> bool" where
  "isSecretRef value \<longleftrightarrow> length value > 7 \<and> take 7 value = ''secret:''"

definition extractSecretName :: "string \<Rightarrow> string" where
  "extractSecretName r = (if length r > 7 then drop 7 r else [])"

definition ResolveSecrets ::
    "unseal \<Rightarrow> string \<Rightarrow> ResolvedPollerConfig \<Rightarrow> Store \<Rightarrow> ResolvedPollerConfig \<times> unit go \<times> Store" where
  "ResolveSecrets unseal namespace c s =
     (if \<not> HasSecretKey s then (c, Inr (), s)
      else
        (let (c1, r1, s1) =
           (if isSecretRef (rc_AuthPassword c) then
              (case GetSecretValue unseal namespace (extractSecretName (rc_AuthPassword c)) s of
                 (Inl e, s') \<Rightarrow> (c, Inl e, s')
               | (Inr v, s') \<Rightarrow> (c\<lparr>rc_AuthPassword := v\<rparr>, Inr (), s'))
            else (c, Inr (), s))
         in case r1 of
              Inl e \<Rightarrow> (c1, Inl e, s1)
            | Inr _ \<Rightarrow>
                (if isSecretRef (rc_PrivPassword c1) then
                   (case GetSecretValue unseal namespace (extractSecretName (rc_PrivPassword c1)) s1 of
                      (Inl e, s') \<Rightarrow> (c1, Inl e, s')
                    | (Inr v, s') \<Rightarrow> (c1\<lparr>rc_PrivPassword := v\<rparr>, Inr (), s'))
                 else (c1, Inr (), s1))))"

definition Invalidate :: "string \<Rightarrow> string \<Rightarrow> string \<Rightarrow> ConfigResolver \<Rightarrow> ConfigResolver" where
  "Invalidate namespace target poller r =
     r\<lparr>cr_cache := mdel (cache_key namespace target poller) (cr_cache r)\<rparr>"

definition drop_prefix :: "string \<Rightarrow> ConfigResolver \<Rightarrow> ConfigResolver" where
  "drop_prefix pre r = r\<lparr>cr_cache := filter (\<lambda>(k, _). \<not> (length k > length pre \<and>
     take (length pre) k = pre)) (cr_cache r)\<rparr>"

definition InvalidateTarget :: "string \<Rightarrow> string \<Rightarrow> ConfigResolver \<Rightarrow> ConfigResolver" where
  "InvalidateTarget namespace target r = drop_prefix (namespace @ ''/'' @ target @ ''/'') r"

definition InvalidateNamespace :: "string \<Rightarrow> ConfigResolver \<Rightarrow> ConfigResolver" where
  "InvalidateNamespace namespace r = drop_prefix (namespace @ ''/'') r"

definition InvalidateAll :: "ConfigResolver \<Rightarrow> ConfigResolver" where
  "InvalidateAll r = r\<lparr>cr_cache := []\<rparr>"

section \<open>Precedence\<close>

text \<open>The specification: the nearest layer that sets a field decides its value and its source.\<close>

fun nearest :: "('a option \<times> string) list \<Rightarrow> 'a \<times> string \<Rightarrow> 'a \<times> string" where
  "nearest [] d = d"
| "nearest ((None, _) # ls) d = nearest ls d"
| "nearest ((Some x, src) # ls) d = (x, src)"

lemma nearest_Cons: "nearest ((v, src) # ls) d = (case v of None \<Rightarrow> nearest ls d | Some x \<Rightarrow> (x, src))"
  by (cases v) simp_all

lemma set_opt_None [simp]: "set_opt None f = (\<lambda>r. r)"
  and set_opt_Some [simp]: "set_opt (Some x) f r = f x r"
  by (simp_all add: set_opt_def fun_eq_iff)

lemma set_opt_frame: "(\<And>x r. g (f x r) = g r) \<Longrightarrow> g (set_opt v f r) = g r"
  by (simp add: set_opt_def split: option.split)

lemma set_str_frame: "(\<And>x r. g (f x r) = g r) \<Longrightarrow> g (set_str v f r) = g r"
  by (simp add: set_str_def)

lemma applySNMPv3_timing [simp]:
  "rc_IntervalMs (applySNMPv3 src v r) = rc_IntervalMs r"
  "rc_IntervalMsSource (applySNMPv3 src v r) = rc_IntervalMsSource r"
  "rc_TimeoutMs (applySNMPv3 src v r) = rc_TimeoutMs r"
  "rc_TimeoutMsSource (applySNMPv3 src v r) = rc_TimeoutMsSource r"
  "rc_Retries (applySNMPv3 src v r) = rc_Retries r"
  "rc_RetriesSource (applySNMPv3 src v r) = rc_RetriesSource r"
  "rc_BufferSize (applySNMPv3 src v r) = rc_BufferSize r"
  "rc_BufferSizeSource (applySNMPv3 src v r) = rc_BufferSizeSource r"
  "rc_Community (applySNMPv3 src v r) = rc_Community r"
  "rc_CommunitySource (applySNMPv3 src v r) = rc_CommunitySource r"
  by (simp_all add: applySNMPv3_def set_str_def Let_def)

lemma applyDefaults_timing:
  "(rc_IntervalMs (applyDefaults d src r), rc_IntervalMsSource (applyDefaults d src r)) =
     nearest [(d_IntervalMs d, src)] (rc_IntervalMs r, rc_IntervalMsSource r)"
  "(rc_TimeoutMs (applyDefaults d src r), rc_TimeoutMsSource (applyDefaults d src r)) =
     nearest [(d_TimeoutMs d, src)] (rc_TimeoutMs r, rc_TimeoutMsSource r)"
  "(rc_Retries (applyDefaults d src r), rc_RetriesSource (applyDefaults d src r)) =
     nearest [(d_Retries d, src)] (rc_Retries r, rc_RetriesSource r)"
  "(rc_BufferSize (applyDefaults d src r), rc_BufferSizeSource (applyDefaults d src r)) =
     nearest [(d_BufferSize d, src)] (rc_BufferSize r, rc_BufferSizeSource r)"
  "(rc_Community (applyDefaults d src r), rc_CommunitySource (applyDefaults d src r)) =
     nearest [(d_SNMPCommunity d, src)] (rc_Community r, rc_CommunitySource r)"
  by (simp_all add: applyDefaults_def Let_def set_opt_def nearest_Cons split: option.split)

lemma applyPolling_timing:
  "(rc_IntervalMs (applyPollingConfig c src r), rc_IntervalMsSource (applyPollingConfig c src r)) =
     nearest [(pc_IntervalMs c, src)] (rc_IntervalMs r, rc_IntervalMsSource r)"
  "(rc_TimeoutMs (applyPollingConfig c src r), rc_TimeoutMsSource (applyPollingConfig c src r)) =
     nearest [(pc_TimeoutMs c, src)] (rc_TimeoutMs r, rc_TimeoutMsSource r)"
  "(rc_Retries (applyPollingConfig c src r), rc_RetriesSource (applyPollingConfig c src r)) =
     nearest [(pc_Retries c, src)] (rc_Retries r, rc_RetriesSource r)"
  "(rc_BufferSize (applyPollingConfig c src r), rc_BufferSizeSource (applyPollingConfig c src r)) =
     nearest [(pc_BufferSize c, src)] (rc_BufferSize r, rc_BufferSizeSource r)"
  "(rc_Community (applyPollingConfig c src r), rc_CommunitySource (applyPollingConfig c src r)) =
     (rc_Community r, rc_CommunitySource r)"
  by (simp_all add: applyPollingConfig_def Let_def set_opt_def nearest_Cons split: option.split)

lemma nearest_push: "nearest [l] (nearest ls d) = nearest (l # ls) d"
  by (cases l) (simp add: nearest_Cons split: option.split)

lemma nearest_append: "nearest (ls @ ms) d = nearest ls (nearest ms d)"
  by (induction ls d rule: nearest.induct) simp_all

text \<open>A password and a secret reference, of which the password counts first.\<close>

definition given :: "string \<Rightarrow> string option" where
  "given v = (if v = [] then None else Some v)"

definition auth_layer :: "PollerDefaults option \<Rightarrow> string \<Rightarrow> (string option \<times> string) list" where
  "auth_layer d src = (case Option.bind d d_SNMPv3 of None \<Rightarrow> []
     | Some v3 \<Rightarrow> [(given (v3_AuthPassword v3), src), (given (v3_AuthSecretRef v3), src @ '' (secret)'')])"

lemma applyDefaults_auth:
  "(rc_AuthPassword (applyDefaults d src r), rc_AuthPasswordSource (applyDefaults d src r)) =
     nearest (auth_layer (Some d) src) (rc_AuthPassword r, rc_AuthPasswordSource r)"
proof (cases "d_SNMPv3 d")
  case None
  then show ?thesis
    by (simp add: applyDefaults_def Let_def auth_layer_def set_opt_frame [where g = rc_AuthPassword]
        set_opt_frame [where g = rc_AuthPasswordSource])
next
  case (Some v3)
  then show ?thesis
    by (simp add: applyDefaults_def Let_def auth_layer_def set_opt_frame [where g = rc_AuthPassword]
        set_opt_frame [where g = rc_AuthPasswordSource] applySNMPv3_def given_def
        set_str_frame [where g = rc_AuthPassword] set_str_frame [where g = rc_AuthPasswordSource])
qed

lemma applyPolling_auth:
  "(rc_AuthPassword (applyPollingConfig c src r), rc_AuthPasswordSource (applyPollingConfig c src r)) =
     (rc_AuthPassword r, rc_AuthPasswordSource r)"
  by (simp add: applyPollingConfig_def Let_def set_opt_def split: option.split)

lemma applyServer_fields:
  "(rc_IntervalMs (applyServerDefaults c r), rc_IntervalMsSource (applyServerDefaults c r)) =
     (sc_DefaultIntervalMs c, ''server'')"
  "(rc_TimeoutMs (applyServerDefaults c r), rc_TimeoutMsSource (applyServerDefaults c r)) =
     (sc_DefaultTimeoutMs c, ''server'')"
  "(rc_Retries (applyServerDefaults c r), rc_RetriesSource (applyServerDefaults c r)) =
     (sc_DefaultRetries c, ''server'')"
  "(rc_BufferSize (applyServerDefaults c r), rc_BufferSizeSource (applyServerDefaults c r)) =
     (sc_DefaultBufferSize c, ''server'')"
  "(rc_Community (applyServerDefaults c r), rc_CommunitySource (applyServerDefaults c r)) =
     (''public'', ''server'')"
  "(rc_AuthPassword (applyServerDefaults c r), rc_AuthPasswordSource (applyServerDefaults c r)) =
     (rc_AuthPassword r, rc_AuthPasswordSource r)"
  by (simp_all add: applyServerDefaults_def)

lemmas layer_fields = applyDefaults_timing applyPolling_timing applyDefaults_auth applyPolling_auth
  applyServer_fields

lemma auth_layer_None [simp]: "auth_layer None src = []"
  by (simp add: auth_layer_def)

abbreviation "ns_src ns \<equiv> ''namespace:'' @ (case ns of None \<Rightarrow> [] | Some n \<Rightarrow> ns_Name n)"
abbreviation "t_src t \<equiv> ''target:'' @ (case t of None \<Rightarrow> [] | Some x \<Rightarrow> t_Name x)"


section \<open>The cache\<close>

text \<open>On rows that carry the names they were looked up by, a miss computes \<open>ResolveWithPoller\<close>.\<close>

lemma query_ok:
  "st_fault s = (\<lambda>_. None) \<Longrightarrow>
   wrap w (query f) s = (Inr (f (st_db s)), s\<lparr>st_tick := st_tick s + 1\<rparr>)"
  by (simp add: wrap_def query_def stmt_def)

lemma resolve_cold_works:
  assumes "st_fault s = (\<lambda>_. None)"
  shows "resolve_cold namespace target poller s =
    (Inr (ResolveWithPoller (Some (db_config (st_db s)))
       (map_option read_Namespace (sql_first (\<lambda>r. ns_Name r = namespace) (db_namespaces (st_db s))))
       (map_option read_Target (sql_first (\<lambda>r. target_key r = (namespace, target)) (db_targets (st_db s))))
       (map_option read_Poller (sql_first (\<lambda>r. poller_key r = (namespace, target, poller)) (db_pollers (st_db s))))),
     s\<lparr>st_tick := st_tick s + 4\<rparr>)"
proof -
  define N T P where "N = map_option read_Namespace (sql_first (\<lambda>r. ns_Name r = namespace) (db_namespaces (st_db s)))"
    and "T = map_option read_Target (sql_first (\<lambda>r. target_key r = (namespace, target)) (db_targets (st_db s)))"
    and "P = map_option read_Poller (sql_first (\<lambda>r. poller_key r = (namespace, target, poller)) (db_pollers (st_db s)))"
  define tk where "tk k = s\<lparr>st_tick := st_tick s + k\<rparr>" for k
  have f: "st_fault (tk k) = (\<lambda>_. None)" "st_db (tk k) = st_db s"
    "(tk k)\<lparr>st_tick := st_tick (tk k) + 1\<rparr> = tk (k + 1)" for k
    using assms by (simp_all add: tk_def)
  have q: "GetServerConfig (tk 0) = (Inr (db_config (st_db s)), tk 1)"
    "GetNamespace namespace (tk 1) = (Inr N, tk 2)" "GetTarget namespace target (tk 2) = (Inr T, tk 3)"
    "GetPoller namespace target poller (tk 3) = (Inr P, tk 4)"
    unfolding GetServerConfig_def GetNamespace_def GetTarget_def GetPoller_def
    by (simp_all only: query_ok f N_def T_def P_def) (simp_all add: numeral_eq_Suc)
  have n: "set_opt (ns_defaults N) (\<lambda>d. applyDefaults d (''namespace:'' @ namespace)) =
      set_opt (ns_defaults N) (\<lambda>d. applyDefaults d (ns_src N))"
  proof (cases N)
    case (Some y)
    then obtain x where "sql_first (\<lambda>r. ns_Name r = namespace) (db_namespaces (st_db s)) = Some x"
      "y = read_Namespace x" by (auto simp: N_def)
    then have "ns_Name y = namespace" using sql_first_Some by (fastforce simp: read_Namespace_def)
    then show ?thesis unfolding Some by simp
  qed (simp add: ns_defaults_def)
  have t: "set_opt (t_defaults T) (\<lambda>d. applyDefaults d (''target:'' @ target)) =
      set_opt (t_defaults T) (\<lambda>d. applyDefaults d (t_src T))"
  proof (cases T)
    case (Some y)
    then obtain x where x: "sql_first (\<lambda>r. target_key r = (namespace, target)) (db_targets (st_db s)) = Some x"
      "y = read_Target x" unfolding T_def by blast
    have "target_key x = (namespace, target)" using x(1) by (blast dest: sql_first_Some)
    then have "t_Name y = target" by (simp add: x(2) read_Target_def)
    then show ?thesis unfolding Some by simp
  qed (simp add: t_defaults_def)
  have "resolve_cold namespace target poller (tk 0) =
      (Inr (ResolveWithPoller (Some (db_config (st_db s))) N T P), tk 4)"
    by (simp only: resolve_cold_def bnd_def q prod.case sum.case Let_def ret_def n t ResolveWithPoller_def
        set_opt_Some)
  then show ?thesis by (simp add: tk_def N_def T_def P_def)
qed

text \<open>C17: with a working database a first \<open>Resolve\<close> gives what \<open>ResolveWithPoller\<close> gives for the rows
  in the tables and caches it; for the next 30 seconds every \<open>Resolve\<close> of the poller gives that same
  configuration without a statement, whatever has happened to the database meanwhile; and after
  \<open>Invalidate\<close> it is computed afresh.\<close>

theorem resolve_cached_for_ttl:
  assumes "st_fault s = (\<lambda>_. None)" "map_of (cr_cache r) (cache_key n t p) = None"
    "Resolve now now' n t p r s = (res, r', s')"
  defines "cfg \<equiv> ResolveWithPoller (Some (db_config (st_db s)))
       (map_option read_Namespace (sql_first (\<lambda>x. ns_Name x = n) (db_namespaces (st_db s))))
       (map_option read_Target (sql_first (\<lambda>x. target_key x = (n, t)) (db_targets (st_db s))))
       (map_option read_Poller (sql_first (\<lambda>x. poller_key x = (n, t, p)) (db_pollers (st_db s))))"
  shows "res = Inr cfg \<and>
    (later - now' < cr_cacheTTL r \<longrightarrow> Resolve later later' n t p r' s2 = (Inr cfg, r', s2)) \<and>
    fst (Resolve later later' n t p (Invalidate n t p r') s2) = fst (resolve_cold n t p s2)"
proof -
  have "resolve_cold n t p s = (Inr cfg, s\<lparr>st_tick := st_tick s + 4\<rparr>)"
    using resolve_cold_works [OF assms(1), of n t p] by (simp only: cfg_def)
  then have e: "res = Inr cfg" "r' = r\<lparr>cr_cache := mput (cache_key n t p) (cfg, now') (cr_cache r)\<rparr>"
    using assms(2,3) by (simp_all add: Resolve_def Let_def)
  have "later - now' < cr_cacheTTL r \<Longrightarrow> Resolve later later' n t p r' s2 = (Inr cfg, r', s2)"
    by (simp add: Resolve_def Let_def e(2))
  moreover have "fst (Resolve later later' n t p (Invalidate n t p r') s2) = fst (resolve_cold n t p s2)"
    by (cases "resolve_cold n t p s2"; cases "fst (resolve_cold n t p s2)")
       (simp_all add: Resolve_def Invalidate_def Let_def e(2))
  ultimately show ?thesis using e(1) by simp
qed

lemma resolve_cached_for_ttl_witness:
  "let (res, r', s') = Resolve 0 0 ''n'' ''t'' ''p'' NewConfigResolver ex_store
   in fst (Resolve 29999 29999 ''n'' ''t'' ''p'' r' (open_store (\<lambda>_. Some ''gone'') None)) = res"
proof -
  obtain res r' s' where r: "Resolve 0 0 ''n'' ''t'' ''p'' NewConfigResolver ex_store = (res, r', s')"
    by (metis prod_cases3)
  have f: "st_fault ex_store = (\<lambda>_. None)" by (simp add: ex_store_def open_store_def)
  have c: "map_of (cr_cache NewConfigResolver) (cache_key ''n'' ''t'' ''p'') = None"
    by (simp add: NewConfigResolver_def)
  show ?thesis
    using resolve_cached_for_ttl [OF f c r, of 29999 29999 "open_store (\<lambda>_. Some ''gone'') None"]
    unfolding r Let_def prod.case
    by (elim conjE impE) (simp_all add: NewConfigResolver_def)
qed

text \<open>A secret reference made from a non-empty name is recognised and names that secret; a string
  without the \<open>secret:\<close> prefix, such as a password, is not taken for one.\<close>

theorem secret_ref_roundtrip:
  "(isSecretRef (''secret:'' @ name) \<longleftrightarrow> name \<noteq> []) \<and> extractSecretName (''secret:'' @ name) = name \<and>
   (isSecretRef v \<longleftrightarrow> (\<exists>n. v = ''secret:'' @ n \<and> n \<noteq> []))"
proof -
  have "isSecretRef v \<Longrightarrow> \<exists>n. v = ''secret:'' @ n \<and> n \<noteq> []" for v
  proof -
    assume a: "isSecretRef v"
    have v: "v = ''secret:'' @ drop 7 v"
      using a append_take_drop_id [of 7 v] by (simp only: isSecretRef_def)
    have "drop 7 v \<noteq> []" using a by (simp add: isSecretRef_def)
    with v show "\<exists>n. v = ''secret:'' @ n \<and> n \<noteq> []" by blast
  qed
  then show ?thesis by (auto simp: isSecretRef_def extractSecretName_def)
qed

end
