(* ===== verification/EntityCaches.thy ===== *)
theory EntityCaches
  imports StoreEntities
begin

text \<open>
  The write-through caches of internal/manager/namespace.go and target.go: \<open>NamespaceManager\<close> and
  \<open>TargetManager\<close>, each a map from a key to the entity, in front of the store.

  A method takes and returns the cache and the store; a method that updates its argument returns
  it. The mutex makes a method one step, except that the miss path of \<open>Get\<close> asks the store
  between two locked sections; the filled entry is the row at that moment.

  The locale \<open>entity_cache\<close> is the contract of such a cache: every cached entity has a row that
  agrees with it in all but the time stamps.
\<close>

section \<open>Names\<close>

definition isLetter :: "char \<Rightarrow> bool" where
  "isLetter c \<longleftrightarrow> (c \<ge> CHR ''a'' \<and> c \<le> CHR ''z'') \<or> (c \<ge> CHR ''A'' \<and> c \<le> CHR ''Z'')"

definition isDigit :: "char \<Rightarrow> bool" where
  "isDigit c \<longleftrightarrow> c \<ge> CHR ''0'' \<and> c \<le> CHR ''9''"

text \<open>The loop goes over runes; a byte above 127 belongs to a rune that is no letter.\<close>

definition isValidName :: "string \<Rightarrow> bool" where
  "isValidName name \<longleftrightarrow>
     \<not> (length name = 0 \<or> length name > 63) \<and>
     (case name of
        [] \<Rightarrow> True
      | c0 # cs \<Rightarrow> isLetter c0 \<and>
          list_all (\<lambda>c. isLetter c \<or> isDigit c \<or> c = CHR ''-'' \<or> c = CHR ''_'') cs)"

lemma isValidName_free:
  assumes "isValidName name"
  shows "CHR ''/'' \<notin> set name" "CHR '':'' \<notin> set name" "name \<noteq> []"
proof -
  have letters: "\<not> isLetter (CHR ''/'')" "\<not> isDigit (CHR ''/'')" "\<not> isLetter (CHR '':'')" "\<not> isDigit (CHR '':'')"
    by (simp_all add: isLetter_def isDigit_def less_eq_char_def)
  have "CHR ''/'' \<noteq> CHR ''-''" by simp
  show "CHR ''/'' \<notin> set name" "CHR '':'' \<notin> set name" "name \<noteq> []"
    using assms letters by (cases name; auto simp: isValidName_def list_all_iff)+
qed

section \<open>The contract of a cache\<close>

locale entity_cache =
  fixes rkey :: "'r \<Rightarrow> 'k"
    and view :: "'r \<Rightarrow> 'v"
    and ckey :: "'k \<Rightarrow> string"
    and legal :: "'k \<Rightarrow> bool"
  assumes view_key: "view a = view b \<Longrightarrow> rkey a = rkey b"
    and ckey_inj: "legal k \<Longrightarrow> legal k' \<Longrightarrow> ckey k = ckey k' \<Longrightarrow> k = k'"
begin

definition coherent :: "(string, 'r) gomap \<Rightarrow> 'r list \<Rightarrow> bool" where
  "coherent cache rows \<longleftrightarrow> gomap_ok cache \<and>
     (\<forall>s c. map_of cache s = Some c \<longrightarrow>
        legal (rkey c) \<and> ckey (rkey c) = s \<and> (\<exists>r \<in> set rows. view r = view c))"

lemma coherent_Nil: "coherent [] rows"
  by (simp add: coherent_def)

lemma coherentD:
  assumes "coherent cache rows" "map_of cache s = Some c"
  shows "legal (rkey c)" "ckey (rkey c) = s" "\<exists>r \<in> set rows. view r = view c"
  using assms by (auto simp: coherent_def)

lemma coherent_mono: "coherent cache rows \<Longrightarrow> set rows \<subseteq> set rows' \<Longrightarrow> coherent cache rows'"
  unfolding coherent_def by blast

lemma coherent_put:
  assumes "coherent cache rows" "r \<in> set rows" "view r = view c" "legal (rkey c)" "s = ckey (rkey c)"
  shows "coherent (mput s c cache) rows"
  using assms by (auto simp: coherent_def)

lemma coherent_insert:
  assumes "coherent cache rows" "view r = view c" "legal (rkey c)" "s = ckey (rkey c)"
  shows "coherent (mput s c cache) (rows @ [r])"
  by (rule coherent_put [OF coherent_mono [OF assms(1)] _ assms(2-4)]) auto

text \<open>Rows of one key are rewritten, and the new entity put in their place.\<close>

lemma coherent_update:
  assumes "coherent cache rows" "\<forall>r. P r \<longrightarrow> rkey r = rkey c" "row \<in> set rows" "P row"
    "view (f row) = view c" "legal (rkey c)" "s = ckey (rkey c)"
  shows "coherent (mput s c cache) (sql_update P f rows)"
proof -
  have new: "f row \<in> set (sql_update P f rows)" using assms(3,4) by (force simp: sql_update_def)
  have old: "\<exists>r \<in> set (sql_update P f rows). view r = view c'"
    if c': "map_of cache s' = Some c'" "s' \<noteq> s" for s' c'
  proof -
    obtain r where r: "r \<in> set rows" "view r = view c'" using coherentD(3) [OF assms(1) c'(1)] by blast
    have "rkey r \<noteq> rkey c"
      using view_key [OF r(2)] coherentD(2) [OF assms(1) c'(1)] c'(2) assms(7) by metis
    then have "\<not> P r" using assms(2) by blast
    then have "r \<in> set (sql_update P f rows)" using r(1) by (force simp: sql_update_def)
    with r(2) show ?thesis by blast
  qed
  show ?thesis
    unfolding coherent_def
  proof (intro conjI allI impI)
    show "gomap_ok (mput s c cache)" using assms(1) by (simp add: coherent_def)
    fix s' c' assume "map_of (mput s c cache) s' = Some c'"
    then consider "s' = s" "c' = c" | "s' \<noteq> s" "map_of cache s' = Some c'"
      by (auto split: if_splits)
    then have "legal (rkey c') \<and> ckey (rkey c') = s' \<and> (\<exists>r \<in> set (sql_update P f rows). view r = view c')"
    proof cases
      case 1
      then show ?thesis using assms(5-7) new by auto
    next
      case 2
      then show ?thesis using coherentD(1,2) [OF assms(1) 2(2)] old [OF 2(2,1)] by blast
    qed
    then show "legal (rkey c')" "ckey (rkey c') = s'" "\<exists>r \<in> set (sql_update P f rows). view r = view c'"
      by blast+
  qed
qed

lemma coherent_delete:
  assumes "coherent cache rows" "legal k" "\<forall>r. P r \<longrightarrow> rkey r = k"
  shows "coherent (mdel (ckey k) cache) (sql_delete P rows)"
  unfolding coherent_def
proof (intro conjI allI impI)
  show "gomap_ok (mdel (ckey k) cache)" using assms(1) by (simp add: coherent_def)
  fix s c assume "map_of (mdel (ckey k) cache) s = Some c"
  then have s: "s \<noteq> ckey k" "map_of cache s = Some c" by (auto split: if_splits)
  obtain r where r: "r \<in> set rows" "view r = view c" using coherentD(3) [OF assms(1) s(2)] by blast
  show "legal (rkey c)" "ckey (rkey c) = s" using coherentD [OF assms(1) s(2)] by blast+
  have "rkey r \<noteq> k" using view_key [OF r(2)] coherentD(2) [OF assms(1) s(2)] s(1) by auto
  then have "r \<in> set (sql_delete P rows)" using r(1) assms(3) by auto
  with r(2) show "\<exists>r \<in> set (sql_delete P rows). view r = view c" by blast
qed

lemma coherent_drop: "coherent cache rows \<Longrightarrow> coherent (mdel s cache) rows"
  by (auto simp: coherent_def)

lemma coherent_load:
  assumes "coherent cache rows" "\<forall>c \<in> set cs. legal (rkey c) \<and> (\<exists>r \<in> set rows. view r = view c)"
  shows "coherent (foldl (\<lambda>m c. mput (ckey (rkey c)) c m) cache cs) rows"
  using assms
proof (induction cs arbitrary: cache)
  case (Cons c cs)
  then obtain r where "r \<in> set rows" "view r = view c" by auto
  with Cons show ?case by (simp add: coherent_put)
qed simp

text \<open>A hit is the row of that key.\<close>

lemma hit_row:
  assumes "coherent cache rows" "map_of cache (ckey k) = Some c" "legal k" "distinct (map rkey rows)"
  shows "\<exists>r. sql_first (\<lambda>r. rkey r = k) rows = Some r \<and> view r = view c"
proof -
  obtain r where r: "r \<in> set rows" "view r = view c" using coherentD(3) [OF assms(1,2)] by blast
  have "rkey c = k" using coherentD(1,2) [OF assms(1,2)] ckey_inj assms(3) by blast
  then have "rkey r = k" using view_key [OF r(2)] by simp
  then show ?thesis using sql_first_key [OF assms(4) r(1)] r(2) by blast
qed

end

section \<open>The namespace manager\<close>

type_synonym NamespaceManager = "(string, Namespace) gomap"

definition NewNamespaceManager :: NamespaceManager where
  "NewNamespaceManager = []"

definition nsm_Load :: "NamespaceManager \<Rightarrow> Store \<Rightarrow> unit go \<times> NamespaceManager \<times> Store" where
  "nsm_Load m s =
     (case ListNamespaces s of
        (Inl err, s') \<Rightarrow> (Inl err, m, s')
      | (Inr namespaces, s') \<Rightarrow> (Inr (), foldl (\<lambda>m ns. mput (ns_Name ns) ns m) [] namespaces, s'))"

definition nsm_Create ::
    "int \<Rightarrow> int \<Rightarrow> Namespace \<Rightarrow> NamespaceManager \<Rightarrow> Store \<Rightarrow> Namespace go \<times> NamespaceManager \<times> Store" where
  "nsm_Create now now' ns m s =
     (if map_of m (ns_Name ns) \<noteq> None
      then (Inl (Errorf (''namespace already exists: '' @ ns_Name ns)), m, s)
      else if \<not> isValidName (ns_Name ns)
      then (Inl (Errorf (''invalid namespace name: '' @ ns_Name ns)), m, s)
      else case CreateNamespace now now' ns s of
             (Inl err, s') \<Rightarrow> (Inl err, m, s')
           | (Inr ns', s') \<Rightarrow> (Inr ns', mput (ns_Name ns) ns' m, s'))"

definition nsm_Get ::
    "string \<Rightarrow> NamespaceManager \<Rightarrow> Store \<Rightarrow> Namespace option go \<times> NamespaceManager \<times> Store" where
  "nsm_Get name m s =
     (case map_of m name of
        Some ns \<Rightarrow> (Inr (Some ns), m, s)
      | None \<Rightarrow>
          (case GetNamespace name s of
             (Inl err, s') \<Rightarrow> (Inl err, m, s')
           | (Inr None, s') \<Rightarrow> (Inr None, m, s')
           | (Inr (Some ns), s') \<Rightarrow> (Inr (Some ns), mput name ns m, s')))"

definition nsm_List :: "NamespaceManager \<Rightarrow> Namespace list" where
  "nsm_List m = mvals m"

definition nsm_Update ::
    "int \<Rightarrow> int \<Rightarrow> Namespace \<Rightarrow> NamespaceManager \<Rightarrow> Store \<Rightarrow> Namespace go \<times> NamespaceManager \<times> Store" where
  "nsm_Update now now' ns0 m s =
     (case map_of m (ns_Name ns0) of
        None \<Rightarrow> (Inl (Errorf (''namespace not found: '' @ ns_Name ns0)), m, s)
      | Some existing \<Rightarrow>
          (let ns = ns0\<lparr>ns_Version := ns_Version existing\<rparr> in
           case UpdateNamespace now now' ns s of
             (Inl err, s') \<Rightarrow> (Inl err, m, s')
           | (Inr ns', s') \<Rightarrow> (Inr ns', mput (ns_Name ns) ns' m, s')))"

definition nsm_Delete ::
    "string \<Rightarrow> bool \<Rightarrow> NamespaceManager \<Rightarrow> Store \<Rightarrow> (nat \<times> nat) go \<times> NamespaceManager \<times> Store" where
  "nsm_Delete name force m s =
     (case map_of m name of
        None \<Rightarrow> (Inl (Errorf (''namespace not found: '' @ name)), m, s)
      | Some _ \<Rightarrow>
          (case DeleteNamespace name force s of
             (Inl err, s') \<Rightarrow> (Inl err, m, s')
           | (Inr n, s') \<Rightarrow> (Inr n, mdel name m, s')))"

definition nsm_Exists :: "string \<Rightarrow> NamespaceManager \<Rightarrow> bool" where
  "nsm_Exists name m \<longleftrightarrow> map_of m name \<noteq> None"

definition nsm_GetStats :: "string \<Rightarrow> NamespaceStats sql" where
  "nsm_GetStats name = GetNamespaceStats name"

definition nsm_GetDefaults :: "string \<Rightarrow> NamespaceManager \<Rightarrow> PollerDefaults option" where
  "nsm_GetDefaults name m =
     (case map_of m name of
        None \<Rightarrow> None
      | Some ns \<Rightarrow> (case ns_Config ns of None \<Rightarrow> None | Some c \<Rightarrow> nc_Defaults c))"

text \<open>The cached object is changed first; the store may then refuse the change.\<close>

definition nsm_SetDefaults ::
    "int \<Rightarrow> int \<Rightarrow> string \<Rightarrow> PollerDefaults option \<Rightarrow> NamespaceManager \<Rightarrow> Store \<Rightarrow>
     unit go \<times> NamespaceManager \<times> Store" where
  "nsm_SetDefaults now now' name defaults m s =
     (case map_of m name of
        None \<Rightarrow> (Inl (Errorf (''namespace not found: '' @ name)), m, s)
      | Some ns0 \<Rightarrow>
          (let config = (case ns_Config ns0 of None \<Rightarrow> \<lparr>nc_Defaults = None\<rparr> | Some c \<Rightarrow> c);
               ns = ns0\<lparr>ns_Config := Some (config\<lparr>nc_Defaults := defaults\<rparr>)\<rparr>;
               m1 = mput name ns m
           in case UpdateNamespace now now' ns s of
                (Inl err, s') \<Rightarrow> (Inl err, m1, s')
              | (Inr ns', s') \<Rightarrow> (Inr (), mput name ns' m1, s')))"

definition nsm_Count :: "NamespaceManager \<Rightarrow> nat" where
  "nsm_Count m = length m"

section \<open>The target manager\<close>

type_synonym TargetManager = "(string, Target) gomap"

definition NewTargetManager :: TargetManager where
  "NewTargetManager = []"

definition targetKey :: "string \<Rightarrow> string \<Rightarrow> string" where
  "targetKey namespace name = namespace @ ''/'' @ name"

text \<open>The loop over the namespaces stops at the first error, with what it has loaded so far.\<close>

fun load_targets :: "Namespace list \<Rightarrow> TargetManager \<Rightarrow> Store \<Rightarrow> unit go \<times> TargetManager \<times> Store" where
  "load_targets [] m s = (Inr (), m, s)"
| "load_targets (ns # nss) m s =
     (case ListTargets (ns_Name ns) s of
        (Inl err, s') \<Rightarrow> (Inl err, m, s')
      | (Inr targets, s') \<Rightarrow>
          load_targets nss (foldl (\<lambda>m t. mput (targetKey (t_Namespace t) (t_Name t)) t m) m targets) s')"

definition tm_Load :: "TargetManager \<Rightarrow> Store \<Rightarrow> unit go \<times> TargetManager \<times> Store" where
  "tm_Load m s =
     (case ListNamespaces s of
        (Inl err, s') \<Rightarrow> (Inl err, m, s')
      | (Inr namespaces, s') \<Rightarrow> load_targets namespaces [] s')"

definition tm_Create ::
    "int \<Rightarrow> int \<Rightarrow> Target \<Rightarrow> TargetManager \<Rightarrow> Store \<Rightarrow> Target go \<times> TargetManager \<times> Store" where
  "tm_Create now now' t m s =
     (let key = targetKey (t_Namespace t) (t_Name t) in
      if map_of m key \<noteq> None
      then (Inl (Errorf (''target already exists: '' @ t_Namespace t @ ''/'' @ t_Name t)), m, s)
      else if \<not> isValidName (t_Name t)
      then (Inl (Errorf (''invalid target name: '' @ t_Name t)), m, s)
      else case CreateTarget now now' t s of
             (Inl err, s') \<Rightarrow> (Inl err, m, s')
           | (Inr t', s') \<Rightarrow> (Inr t', mput key t' m, s'))"

definition tm_Get ::
    "string \<Rightarrow> string \<Rightarrow> TargetManager \<Rightarrow> Store \<Rightarrow> Target option go \<times> TargetManager \<times> Store" where
  "tm_Get namespace name m s =
     (let key = targetKey namespace name in
      case map_of m key of
        Some t \<Rightarrow> (Inr (Some t), m, s)
      | None \<Rightarrow>
          (case GetTarget namespace name s of
             (Inl err, s') \<Rightarrow> (Inl err, m, s')
           | (Inr None, s') \<Rightarrow> (Inr None, m, s')
           | (Inr (Some t), s') \<Rightarrow> (Inr (Some t), mput key t m, s')))"

definition tm_List :: "string \<Rightarrow> TargetManager \<Rightarrow> Target list" where
  "tm_List namespace m = filter (\<lambda>t. t_Namespace t = namespace) (mvals m)"

definition tm_ListFiltered ::
    "string \<Rightarrow> (string, string) gomap \<Rightarrow> nat \<Rightarrow> string \<Rightarrow> (Target list \<times> string) sql" where
  "tm_ListFiltered namespace labels limit cursor = ListTargetsFiltered namespace labels limit cursor"

definition tm_Update ::
    "int \<Rightarrow> int \<Rightarrow> Target \<Rightarrow> TargetManager \<Rightarrow> Store \<Rightarrow> Target go \<times> TargetManager \<times> Store" where
  "tm_Update now now' t0 m s =
     (let key = targetKey (t_Namespace t0) (t_Name t0) in
      case map_of m key of
        None \<Rightarrow> (Inl (Errorf (''target not found: '' @ t_Namespace t0 @ ''/'' @ t_Name t0)), m, s)
      | Some existing \<Rightarrow>
          (let t = t0\<lparr>t_Version := t_Version existing\<rparr> in
           case UpdateTarget now now' t s of
             (Inl err, s') \<Rightarrow> (Inl err, m, s')
           | (Inr t', s') \<Rightarrow> (Inr t', mput key t' m, s')))"

definition tm_Delete ::
    "string \<Rightarrow> string \<Rightarrow> bool \<Rightarrow> TargetManager \<Rightarrow> Store \<Rightarrow> (nat \<times> nat) go \<times> TargetManager \<times> Store" where
  "tm_Delete namespace name force m s =
     (let key = targetKey namespace name in
      case map_of m key of
        None \<Rightarrow> (Inl (Errorf (''target not found: '' @ namespace @ ''/'' @ name)), m, s)
      | Some _ \<Rightarrow>
          (case DeleteTarget namespace name force s of
             (Inl err, s') \<Rightarrow> (Inl err, m, s')
           | (Inr n, s') \<Rightarrow> (Inr n, mdel key m, s')))"

definition tm_Exists :: "string \<Rightarrow> string \<Rightarrow> TargetManager \<Rightarrow> bool" where
  "tm_Exists namespace name m \<longleftrightarrow> map_of m (targetKey namespace name) \<noteq> None"

definition tm_GetStats :: "string \<Rightarrow> string \<Rightarrow> TargetStats sql" where
  "tm_GetStats namespace name = GetTargetStats namespace name"

definition tm_GetDefaults :: "string \<Rightarrow> string \<Rightarrow> TargetManager \<Rightarrow> PollerDefaults option" where
  "tm_GetDefaults namespace name m =
     (case map_of m (targetKey namespace name) of
        None \<Rightarrow> None
      | Some t \<Rightarrow> (case t_Config t of None \<Rightarrow> None | Some c \<Rightarrow> tc_Defaults c))"

definition tm_SetDefaults ::
    "int \<Rightarrow> int \<Rightarrow> string \<Rightarrow> string \<Rightarrow> PollerDefaults option \<Rightarrow> TargetManager \<Rightarrow> Store \<Rightarrow>
     unit go \<times> TargetManager \<times> Store" where
  "tm_SetDefaults now now' namespace name defaults m s =
     (let key = targetKey namespace name in
      case map_of m key of
        None \<Rightarrow> (Inl (Errorf (''target not found: '' @ namespace @ ''/'' @ name)), m, s)
      | Some t0 \<Rightarrow>
          (let config = (case t_Config t0 of None \<Rightarrow> \<lparr>tc_Defaults = None\<rparr> | Some c \<Rightarrow> c);
               t = t0\<lparr>t_Config := Some (config\<lparr>tc_Defaults := defaults\<rparr>)\<rparr>;
               m1 = mput key t m
           in case UpdateTarget now now' t s of
                (Inl err, s') \<Rightarrow> (Inl err, m1, s')
              | (Inr t', s') \<Rightarrow> (Inr (), mput key t' m1, s')))"

definition tm_SetLabels ::
    "int \<Rightarrow> int \<Rightarrow> string \<Rightarrow> string \<Rightarrow> (string, string) gomap \<Rightarrow> TargetManager \<Rightarrow> Store \<Rightarrow>
     unit go \<times> TargetManager \<times> Store" where
  "tm_SetLabels now now' namespace name labels m s =
     (let key = targetKey namespace name in
      case map_of m key of
        None \<Rightarrow> (Inl (Errorf (''target not found: '' @ namespace @ ''/'' @ name)), m, s)
      | Some t0 \<Rightarrow>
          (let t = t0\<lparr>t_Labels := labels\<rparr>; m1 = mput key t m
           in case UpdateTarget now now' t s of
                (Inl err, s') \<Rightarrow> (Inl err, m1, s')
              | (Inr t', s') \<Rightarrow> (Inr (), mput key t' m1, s')))"

definition tm_Count :: "TargetManager \<Rightarrow> nat" where
  "tm_Count m = length m"

definition tm_CountInNamespace :: "string \<Rightarrow> TargetManager \<Rightarrow> nat" where
  "tm_CountInNamespace namespace m =
     foldl (\<lambda>count t. if t_Namespace t = namespace then count + 1 else count) 0 (mvals m)"

definition tm_InvalidateCache :: "string \<Rightarrow> string \<Rightarrow> TargetManager \<Rightarrow> TargetManager" where
  "tm_InvalidateCache namespace name m = mdel (targetKey namespace name) m"

section \<open>The caches agree with the store\<close>

text \<open>What a cached entity and its row agree in.\<close>

definition ns_view :: "Namespace \<Rightarrow> string \<times> string \<times> PollerDefaults option \<times> int" where
  "ns_view ns = (ns_Name ns, ns_Description ns,
     (case ns_Config ns of None \<Rightarrow> None | Some c \<Rightarrow> nc_Defaults c), ns_Version ns)"

definition t_view ::
    "Target \<Rightarrow> (string \<times> string) \<times> string \<times> (string, string) gomap \<times> PollerDefaults option \<times> int" where
  "t_view t = (target_key t, t_Description t, t_Labels t,
     (case t_Config t of None \<Rightarrow> None | Some c \<Rightarrow> tc_Defaults c), t_Version t)"

definition legal_target :: "string \<times> string \<Rightarrow> bool" where
  "legal_target k \<longleftrightarrow> CHR ''/'' \<notin> set (fst k)"

interpretation nsc: entity_cache ns_Name ns_view "\<lambda>k. k" "\<lambda>_. True"
  by unfold_locales (auto simp: ns_view_def)

interpretation tc: entity_cache target_key t_view "\<lambda>(ns, n). targetKey ns n" legal_target
proof unfold_locales
  fix k k' assume "legal_target k" "legal_target k'"
    "(case k of (ns, n) \<Rightarrow> targetKey ns n) = (case k' of (ns, n) \<Rightarrow> targetKey ns n)"
  then show "k = k'"
    using append_sep_inject [of "CHR ''/''" "fst k" "fst k'" "snd k" "snd k'"]
    by (cases k; cases k') (auto simp: legal_target_def targetKey_def)
qed (auto simp: t_view_def)

lemma ns_view_read [simp]: "ns_view (read_Namespace r) = ns_view r" "ns_Name (read_Namespace r) = ns_Name r"
  by (simp_all add: ns_view_def read_Namespace_def split: option.split)

lemma t_view_read [simp]: "t_view (read_Target r) = t_view r" "target_key (read_Target r) = target_key r"
  by (simp_all add: t_view_def read_Target_def split: option.split)

definition nsm_ok :: "NamespaceManager \<Rightarrow> Store \<Rightarrow> bool" where
  "nsm_ok m s \<longleftrightarrow> nsc.coherent m (db_namespaces (st_db s))"

definition tm_ok :: "TargetManager \<Rightarrow> Store \<Rightarrow> bool" where
  "tm_ok m s \<longleftrightarrow> tc.coherent m (db_targets (st_db s))"

text \<open>Queries leave the tables alone.\<close>

lemma wrap_query:
  "wrap w (query f) s = (case st_fault s (st_tick s) of
     Some e \<Rightarrow> (Inl (Errorf (w @ '': '' @ error_msg (Errorf e))), s\<lparr>st_tick := st_tick s + 1\<rparr>)
   | None \<Rightarrow> (Inr (f (st_db s)), s\<lparr>st_tick := st_tick s + 1\<rparr>))"
  by (simp add: wrap_def query_def stmt_def split: option.split)

lemma query_result:
  assumes "wrap w (query f) s = (r, s')"
  shows "st_db s' = st_db s" "r = Inr x \<Longrightarrow> x = f (st_db s)"
  using assms by (auto simp: wrap_query split: option.splits)

lemma GetNamespace_db:
  assumes "GetNamespace name s = (r, s')"
  shows "st_db s' = st_db s"
    "r = Inr x \<Longrightarrow> x = map_option read_Namespace (sql_first (\<lambda>r. ns_Name r = name) (db_namespaces (st_db s)))"
  using query_result [OF assms [unfolded GetNamespace_def]] by blast+

lemma GetTarget_db:
  assumes "GetTarget namespace name s = (r, s')"
  shows "st_db s' = st_db s"
    "r = Inr x \<Longrightarrow> x = map_option read_Target
       (sql_first (\<lambda>r. target_key r = (namespace, name)) (db_targets (st_db s)))"
  using query_result [OF assms [unfolded GetTarget_def]] by blast+

lemma ListNamespaces_db:
  assumes "ListNamespaces s = (r, s')"
  shows "st_db s' = st_db s"
    "r = Inr x \<Longrightarrow> x = map read_Namespace (sort_key ns_Name (db_namespaces (st_db s)))"
  using query_result [OF assms [unfolded ListNamespaces_def]] by blast+

lemma ListTargets_db:
  assumes "ListTargets namespace s = (r, s')"
  shows "st_db s' = st_db s"
    "r = Inr x \<Longrightarrow> x = map read_Target (sort_key t_Name
       (filter (\<lambda>r. t_Namespace r = namespace) (db_targets (st_db s))))"
  using query_result [OF assms [unfolded ListTargets_def]] by blast+

lemma nsm_ok_db: "nsm_ok m s \<Longrightarrow> st_db s' = st_db s \<Longrightarrow> nsm_ok m s'"
  by (simp add: nsm_ok_def)

lemma nsm_Load_ok: "nsm_ok m s \<Longrightarrow> nsm_Load m s = (r, m', s') \<Longrightarrow> nsm_ok m' s'"
proof -
  assume ok: "nsm_ok m s" and L: "nsm_Load m s = (r, m', s')"
  obtain q t where q: "ListNamespaces s = (q, t)" by fastforce
  note db = ListNamespaces_db [OF q]
  show ?thesis
  proof (cases q)
    case (Inl e)
    then show ?thesis using L q db ok by (auto simp: nsm_Load_def nsm_ok_def)
  next
    case (Inr nss)
    have "nsc.coherent (foldl (\<lambda>m c. mput (ns_Name c) c m) [] nss) (db_namespaces (st_db s))"
      by (rule nsc.coherent_load [OF nsc.coherent_Nil]) (auto simp: db(2) [OF Inr])
    then show ?thesis using L q Inr db by (auto simp: nsm_Load_def nsm_ok_def)
  qed
qed

text \<open>What a writing method of the store leaves: everything as it was, or what \<open>P\<close> says.\<close>

lemma store_step:
  assumes "safe m" "runs m P"
  obtains (failed) e t where "m s = (Inl e, t)" "st_db t = st_db s"
  | (worked) x t where "m s = (Inr x, t)" "P (st_db s) x (st_db t)"
proof -
  obtain q t where q: "m s = (q, t)" by fastforce
  show thesis
  proof (cases q)
    case (Inl e)
    then show thesis using failed q safeD [OF assms(1)] by blast
  next
    case (Inr x)
    then show thesis using worked q runsD [OF assms(2)] by blast
  qed
qed

lemma nsm_Create_ok:
  assumes "nsm_ok m s" "nsm_Create now now' ns m s = (r, m', s')"
  shows "nsm_ok m' s'"
proof (rule store_step [OF _ runs_CreateNamespace, of now now' ns s])
  fix e t assume "CreateNamespace now now' ns s = (Inl e, t)" "st_db t = st_db s"
  then show ?thesis using assms by (auto simp: nsm_Create_def nsm_ok_def split: if_splits)
next
  fix x t
  assume R: "CreateNamespace now now' ns s = (Inr x, t)"
    "x = ns\<lparr>ns_Version := 1, ns_CreatedAt := now', ns_UpdatedAt := now'\<rparr> \<and>
     ns_Name ns \<notin> ns_Name ` set (db_namespaces (st_db s)) \<and>
     st_db t = (st_db s)\<lparr>db_namespaces := db_namespaces (st_db s) @
       [ns\<lparr>ns_CreatedAt := now, ns_UpdatedAt := now, ns_Version := 1\<rparr>]\<rparr>"
  then have "nsc.coherent (mput (ns_Name ns) x m) (db_namespaces (st_db t))"
    using assms(1) by (auto simp: nsm_ok_def ns_view_def intro!: nsc.coherent_insert)
  then show ?thesis using assms R by (auto simp: nsm_Create_def nsm_ok_def split: if_splits)
qed simp

lemma nsm_Get_ok:
  assumes "nsm_ok m s" "nsm_Get name m s = (r, m', s')"
  shows "nsm_ok m' s'"
proof -
  obtain q t where q: "GetNamespace name s = (q, t)" by fastforce
  note db = GetNamespace_db [OF q]
  show ?thesis
  proof (cases "\<exists>ns. map_of m name = None \<and> q = Inr (Some ns)")
    case False
    then show ?thesis using assms q db
      by (auto simp: nsm_Get_def nsm_ok_def split: option.splits sum.splits)
  next
    case True
    then obtain ns where ns: "map_of m name = None" "q = Inr (Some ns)" by blast
    obtain row where row: "sql_first (\<lambda>r. ns_Name r = name) (db_namespaces (st_db s)) = Some row"
      "ns = read_Namespace row" using db(2) [OF ns(2)] by (auto simp: map_option_case split: option.splits)
    then have "row \<in> set (db_namespaces (st_db s))" "ns_Name row = name" using sql_first_Some by fastforce+
    then have "nsc.coherent (mput name ns m) (db_namespaces (st_db s))"
      using assms(1) row(2) by (auto simp: nsm_ok_def intro!: nsc.coherent_put [of _ _ row])
    then show ?thesis using assms q ns db by (auto simp: nsm_Get_def nsm_ok_def)
  qed
qed

lemma nsc_updated:
  assumes "nsc.coherent m (db_namespaces d)" "sql_count (ns_current ns) (db_namespaces d) \<noteq> 0"
    "x = ns\<lparr>ns_Version := ns_Version ns + 1, ns_UpdatedAt := now'\<rparr>"
  shows "nsc.coherent (mput (ns_Name ns) x m) (sql_update (ns_current ns) (ns_write now ns) (db_namespaces d))"
proof -
  obtain r where r: "r \<in> set (db_namespaces d)" "ns_current ns r"
    using assms(2) by (auto simp: sql_count_0)
  have a: "\<forall>q. ns_current ns q \<longrightarrow> ns_Name q = ns_Name x" by (simp add: assms(3) ns_current_def)
  have b: "ns_view (ns_write now ns r) = ns_view x"
    using r(2) by (simp add: assms(3) ns_current_def ns_view_def ns_write_def)
  have n: "ns_Name ns = ns_Name x" by (simp add: assms(3))
  show ?thesis
    unfolding n by (rule nsc.coherent_update [where P = "ns_current ns" and f = "ns_write now ns" and row = r, OF assms(1) a r b TrueI refl])
qed

lemma nsm_Update_ok:
  assumes "nsm_ok m s" "nsm_Update now now' ns0 m s = (r, m', s')"
  shows "nsm_ok m' s'"
proof (cases "map_of m (ns_Name ns0)")
  case None
  then show ?thesis using assms by (simp add: nsm_Update_def)
next
  case (Some existing)
  define ns where "ns = ns0\<lparr>ns_Version := ns_Version existing\<rparr>"
  show ?thesis
  proof (rule store_step [OF _ runs_UpdateNamespace, of now now' ns s])
    fix e t assume "UpdateNamespace now now' ns s = (Inl e, t)" "st_db t = st_db s"
    then show ?thesis using assms Some by (auto simp: nsm_Update_def nsm_ok_def ns_def)
  next
    fix x t
    assume R: "UpdateNamespace now now' ns s = (Inr x, t)"
      "x = ns\<lparr>ns_Version := ns_Version ns + 1, ns_UpdatedAt := now'\<rparr> \<and>
       sql_count (ns_current ns) (db_namespaces (st_db s)) \<noteq> 0 \<and>
       st_db t = (st_db s)\<lparr>db_namespaces :=
         sql_update (ns_current ns) (ns_write now ns) (db_namespaces (st_db s))\<rparr>"
    then have "nsc.coherent (mput (ns_Name ns) x m) (db_namespaces (st_db t))"
      using nsc_updated [of m "st_db s" ns x now' now] assms(1) by (simp add: nsm_ok_def)
    then show ?thesis using assms(2) Some R(1) by (simp add: nsm_Update_def nsm_ok_def ns_def Let_def)
  qed simp
qed

lemma nsm_SetDefaults_ok:
  assumes "nsm_ok m s" "nsm_SetDefaults now now' name defaults m s = (Inr u, m', s')"
  shows "nsm_ok m' s'"
proof (cases "map_of m name")
  case None
  then show ?thesis using assms by (simp add: nsm_SetDefaults_def)
next
  case (Some ns0)
  define ns where "ns = ns0\<lparr>ns_Config := Some ((case ns_Config ns0 of None \<Rightarrow> \<lparr>nc_Defaults = None\<rparr>
     | Some c \<Rightarrow> c)\<lparr>nc_Defaults := defaults\<rparr>)\<rparr>"
  have name: "ns_Name ns = name"
    using nsc.coherentD(2) [OF assms(1) [unfolded nsm_ok_def] Some] by (simp add: ns_def)
  show ?thesis
  proof (rule store_step [OF _ runs_UpdateNamespace, of now now' ns s])
    fix e t assume "UpdateNamespace now now' ns s = (Inl e, t)"
    then show ?thesis using assms(2) Some by (simp add: nsm_SetDefaults_def Let_def ns_def)
  next
    fix x t
    assume R: "UpdateNamespace now now' ns s = (Inr x, t)"
      "x = ns\<lparr>ns_Version := ns_Version ns + 1, ns_UpdatedAt := now'\<rparr> \<and>
       sql_count (ns_current ns) (db_namespaces (st_db s)) \<noteq> 0 \<and>
       st_db t = (st_db s)\<lparr>db_namespaces :=
         sql_update (ns_current ns) (ns_write now ns) (db_namespaces (st_db s))\<rparr>"
    then have c: "nsc.coherent (mput name x m) (db_namespaces (st_db t))"
      using nsc_updated [of m "st_db s" ns x now' now] assms(1) by (simp add: nsm_ok_def name)
    have "mput name x (mput name ns m) = mput name x m" by (rule put_put)
    with c show ?thesis using assms(2) Some R(1)
      by (simp add: nsm_SetDefaults_def nsm_ok_def Let_def ns_def)
  qed simp
qed

lemma nsm_Delete_ok:
  assumes "nsm_ok m s" "nsm_Delete name force m s = (r, m', s')"
  shows "nsm_ok m' s'"
proof (cases "map_of m name")
  case None
  then show ?thesis using assms by (simp add: nsm_Delete_def)
next
  case (Some ns)
  show ?thesis
  proof (rule store_step [OF _ runs_DeleteNamespace, of name force s])
    fix e t assume "DeleteNamespace name force s = (Inl e, t)" "st_db t = st_db s"
    then show ?thesis using assms Some by (simp add: nsm_Delete_def nsm_ok_def)
  next
    fix x t
    assume R: "DeleteNamespace name force s = (Inr x, t)"
      "x = (sql_count (\<lambda>r. t_Namespace r = name) (db_targets (st_db s)),
            sql_count (\<lambda>r. p_Namespace r = name) (db_pollers (st_db s))) \<and>
       (sql_count (\<lambda>r. t_Namespace r = name) (db_targets (st_db s)) > 0 \<longrightarrow> force) \<and>
       st_db t = without_namespace name (st_db s)"
    then have "nsc.coherent (mdel name m) (db_namespaces (st_db t))"
      using nsc.coherent_delete [where cache = m and rows = "db_namespaces (st_db s)" and k = name and P = "\<lambda>r. ns_Name r = name"] assms(1)
      by (simp add: nsm_ok_def without_namespace_def)
    then show ?thesis using assms(2) Some R(1) by (simp add: nsm_Delete_def nsm_ok_def)
  qed simp
qed

text \<open>The same for targets; the namespaces in play have no slash.\<close>

lemma tc_updated:
  assumes "tc.coherent m (db_targets d)" "sql_count (t_current q) (db_targets d) \<noteq> 0"
    "x = q\<lparr>t_Version := t_Version q + 1, t_UpdatedAt := now'\<rparr>" "CHR ''/'' \<notin> set (t_Namespace q)"
  shows "tc.coherent (mput (targetKey (t_Namespace q) (t_Name q)) x m)
    (sql_update (t_current q) (t_write now q) (db_targets d))"
proof -
  obtain r where r: "r \<in> set (db_targets d)" "t_current q r"
    using assms(2) by (auto simp: sql_count_0)
  have a: "\<forall>r. t_current q r \<longrightarrow> target_key r = target_key x" by (simp add: assms(3) t_current_def)
  have b: "t_view (t_write now q r) = t_view x"
    using r(2) by (simp add: assms(3) t_current_def t_view_def t_write_def)
  have l: "legal_target (target_key x)" using assms(4) by (simp add: assms(3) legal_target_def)
  have k: "targetKey (t_Namespace q) (t_Name q) = (case target_key x of (ns, n) \<Rightarrow> targetKey ns n)"
    by (simp add: assms(3))
  show ?thesis
    by (rule tc.coherent_update [where P = "t_current q" and f = "t_write now q" and row = r,
          OF assms(1) a r b l k])
qed

lemma tm_cached:
  assumes "tm_ok m s" "map_of m key = Some t"
  shows "CHR ''/'' \<notin> set (t_Namespace t)" "key = targetKey (t_Namespace t) (t_Name t)"
  using tc.coherentD(1,2) [OF assms(1) [unfolded tm_ok_def] assms(2)] by (auto simp: legal_target_def)

lemma tm_same_key:
  assumes "tm_ok m s" "map_of m (targetKey ns n) = Some t" "CHR ''/'' \<notin> set ns"
  shows "t_Namespace t = ns" "t_Name t = n"
  using append_sep_inject [of "CHR ''/''" ns "t_Namespace t" n "t_Name t"] assms(3) tm_cached [OF assms(1,2)]
  by (auto simp: targetKey_def)

lemma load_targets_ok:
  assumes "tc.coherent m (db_targets (st_db s))" "load_targets nss m s = (r, m', s')"
    "\<forall>t \<in> set (db_targets (st_db s)). CHR ''/'' \<notin> set (t_Namespace t)"
  shows "tc.coherent m' (db_targets (st_db s)) \<and> st_db s' = st_db s"
  using assms
proof (induction nss m s rule: load_targets.induct)
  case (2 ns nss m s)
  obtain q t where q: "ListTargets (ns_Name ns) s = (q, t)" by fastforce
  note db = ListTargets_db [OF q]
  show ?case
  proof (cases q)
    case (Inl e)
    then show ?thesis using 2 q db by auto
  next
    case (Inr ts)
    have all: "\<forall>c \<in> set ts. legal_target (target_key c) \<and> (\<exists>r \<in> set (db_targets (st_db s)). t_view r = t_view c)"
    proof
      fix c assume "c \<in> set ts"
      then obtain r where r: "r \<in> set (db_targets (st_db s))" "c = read_Target r"
        unfolding db(2) [OF Inr] by auto
      have "legal_target (target_key r)" using r(1) 2(4) by (simp add: legal_target_def)
      then have "legal_target (target_key c)" by (simp only: r(2) t_view_read)
      then show "legal_target (target_key c) \<and> (\<exists>r \<in> set (db_targets (st_db s)). t_view r = t_view c)"
        using r t_view_read(1) by metis
    qed
    have "tc.coherent (foldl (\<lambda>m c. mput (case target_key c of (ns, n) \<Rightarrow> targetKey ns n) c m) m ts)
        (db_targets (st_db s))"
      by (rule tc.coherent_load [OF 2(2) all])
    then have c: "tc.coherent (foldl (\<lambda>m t. mput (targetKey (t_Namespace t) (t_Name t)) t m) m ts)
        (db_targets (st_db t))"
      by (simp add: db(1))
    show ?thesis
      using 2(1) [OF q [symmetric] Inr c] 2(3,4) q Inr db(1) by simp
  qed
qed simp

lemma tm_Load_ok:
  assumes "tm_ok m s" "tm_Load m s = (r, m', s')"
    "\<forall>t \<in> set (db_targets (st_db s)). CHR ''/'' \<notin> set (t_Namespace t)"
  shows "tm_ok m' s'"
proof -
  obtain q t where q: "ListNamespaces s = (q, t)" by fastforce
  note db = ListNamespaces_db [OF q]
  show ?thesis
    using assms q db load_targets_ok [OF tc.coherent_Nil, of _ t r m' s']
    by (cases q) (auto simp: tm_Load_def tm_ok_def)
qed

lemma tm_Create_ok:
  assumes "tm_ok m s" "tm_Create now now' t m s = (r, m', s')" "CHR ''/'' \<notin> set (t_Namespace t)"
  shows "tm_ok m' s'"
proof (rule store_step [OF _ runs_CreateTarget, of now now' t s])
  fix e s1 assume "CreateTarget now now' t s = (Inl e, s1)" "st_db s1 = st_db s"
  then show ?thesis using assms by (auto simp: tm_Create_def tm_ok_def Let_def split: if_splits)
next
  fix x s1
  assume R: "CreateTarget now now' t s = (Inr x, s1)"
    "x = t\<lparr>t_Version := 1, t_CreatedAt := now', t_UpdatedAt := now'\<rparr> \<and>
     target_key t \<notin> target_key ` set (db_targets (st_db s)) \<and>
     st_db s1 = (st_db s)\<lparr>db_targets := db_targets (st_db s) @
       [t\<lparr>t_CreatedAt := now, t_UpdatedAt := now, t_Version := 1\<rparr>]\<rparr>"
  let ?r = "t\<lparr>t_CreatedAt := now, t_UpdatedAt := now, t_Version := 1\<rparr>"
  have "tc.coherent (mput (targetKey (t_Namespace t) (t_Name t)) x m) (db_targets (st_db s) @ [?r])"
    by (rule tc.coherent_insert) (use assms R in \<open>auto simp: tm_ok_def t_view_def legal_target_def\<close>)
  then show ?thesis using assms R by (auto simp: tm_Create_def tm_ok_def Let_def split: if_splits)
qed simp

lemma tm_Get_ok:
  assumes "tm_ok m s" "tm_Get namespace name m s = (r, m', s')" "CHR ''/'' \<notin> set namespace"
  shows "tm_ok m' s'"
proof -
  obtain q s1 where q: "GetTarget namespace name s = (q, s1)" by fastforce
  note db = GetTarget_db [OF q]
  show ?thesis
  proof (cases "\<exists>t. map_of m (targetKey namespace name) = None \<and> q = Inr (Some t)")
    case False
    then show ?thesis using assms q db
      by (auto simp: tm_Get_def tm_ok_def Let_def split: option.splits sum.splits)
  next
    case True
    then obtain t where t: "map_of m (targetKey namespace name) = None" "q = Inr (Some t)" by blast
    obtain row where row: "sql_first (\<lambda>r. target_key r = (namespace, name)) (db_targets (st_db s)) = Some row"
      "t = read_Target row" using db(2) [OF t(2)] by (cases "sql_first (\<lambda>r. target_key r = (namespace, name)) (db_targets (st_db s))") auto
    have in_row: "row \<in> set (db_targets (st_db s))" "target_key row = (namespace, name)"
      using sql_first_Some [OF row(1)] by blast+
    have key: "target_key t = (namespace, name)" using in_row(2) by (simp only: row(2) t_view_read)
    have "tc.coherent (mput (targetKey namespace name) t m) (db_targets (st_db s))"
      by (rule tc.coherent_put [OF assms(1) [unfolded tm_ok_def] in_row(1)])
         (use assms(3) key in \<open>simp_all only: row(2) t_view_read legal_target_def fst_conv prod.case simp_thms\<close>)
    then show ?thesis using assms q t db by (auto simp: tm_Get_def tm_ok_def Let_def)
  qed
qed

lemma tm_Update_ok:
  assumes "tm_ok m s" "tm_Update now now' q0 m s = (r, m', s')" "CHR ''/'' \<notin> set (t_Namespace q0)"
  shows "tm_ok m' s'"
proof (cases "map_of m (targetKey (t_Namespace q0) (t_Name q0))")
  case None
  then show ?thesis using assms by (simp add: tm_Update_def Let_def)
next
  case (Some existing)
  define q where "q = q0\<lparr>t_Version := t_Version existing\<rparr>"
  show ?thesis
  proof (rule store_step [OF _ runs_UpdateTarget, of now now' q s])
    fix e t assume "UpdateTarget now now' q s = (Inl e, t)" "st_db t = st_db s"
    then show ?thesis using assms Some by (auto simp: tm_Update_def tm_ok_def q_def Let_def)
  next
    fix x t
    assume R: "UpdateTarget now now' q s = (Inr x, t)"
      "x = q\<lparr>t_Version := t_Version q + 1, t_UpdatedAt := now'\<rparr> \<and>
       sql_count (t_current q) (db_targets (st_db s)) \<noteq> 0 \<and>
       st_db t = (st_db s)\<lparr>db_targets := sql_update (t_current q) (t_write now q) (db_targets (st_db s))\<rparr>"
    then have "tc.coherent (mput (targetKey (t_Namespace q) (t_Name q)) x m) (db_targets (st_db t))"
      using tc_updated [of m "st_db s" q x now' now] assms(1,3) by (simp add: tm_ok_def q_def)
    then show ?thesis using assms(2) Some R(1) by (simp add: tm_Update_def tm_ok_def q_def Let_def)
  qed simp
qed

lemma tm_changed_ok:
  assumes "tm_ok m s" "map_of m (targetKey ns n) = Some q0" "CHR ''/'' \<notin> set ns"
    "target_key q = target_key q0" "UpdateTarget now now' q s = (Inr x, t)"
  shows "tm_ok (mput (targetKey ns n) x (mput (targetKey ns n) q m)) t"
proof -
  note R = runsD [OF runs_UpdateTarget assms(5)]
  have k: "t_Namespace q = ns" "t_Name q = n" using tm_same_key [OF assms(1-3)] assms(4) by simp_all
  then have "tc.coherent (mput (targetKey ns n) x m) (db_targets (st_db t))"
    using tc_updated [of m "st_db s" q x now' now] R assms(1,3) by (simp add: tm_ok_def)
  then show ?thesis by (simp add: put_put tm_ok_def)
qed

lemma tm_Set_ok:
  assumes "tm_ok m s" "CHR ''/'' \<notin> set namespace"
  shows "tm_SetDefaults now now' namespace name defaults m s = (Inr u, m', s') \<Longrightarrow> tm_ok m' s'"
    "tm_SetLabels now now' namespace name labels m s = (Inr u, m', s') \<Longrightarrow> tm_ok m' s'"
proof -
  note changed = tm_changed_ok [OF assms(1) _ assms(2)]
  show "tm_ok m' s'" if "tm_SetDefaults now now' namespace name defaults m s = (Inr u, m', s')"
  proof (cases "map_of m (targetKey namespace name)")
    case None
    with that show ?thesis by (simp add: tm_SetDefaults_def Let_def)
  next
    case (Some q0)
    define q where "q = q0\<lparr>t_Config := Some ((case t_Config q0 of None \<Rightarrow> \<lparr>tc_Defaults = None\<rparr>
       | Some c \<Rightarrow> c)\<lparr>tc_Defaults := defaults\<rparr>)\<rparr>"
    obtain r t where u: "UpdateTarget now now' q s = (r, t)" by fastforce
    with that Some obtain x where x: "r = Inr x" by (cases r) (auto simp: tm_SetDefaults_def Let_def q_def)
    have k: "target_key q = target_key q0" by (simp add: q_def)
    have "tm_ok (mput (targetKey namespace name) x (mput (targetKey namespace name) q m)) t"
      by (rule changed [OF Some k u [unfolded x]])
    moreover have "m' = mput (targetKey namespace name) x (mput (targetKey namespace name) q m)" "s' = t"
      using that Some u x by (simp_all add: tm_SetDefaults_def Let_def q_def [symmetric])
    ultimately show ?thesis by simp
  qed
  show "tm_ok m' s'" if "tm_SetLabels now now' namespace name labels m s = (Inr u, m', s')"
  proof (cases "map_of m (targetKey namespace name)")
    case None
    with that show ?thesis by (simp add: tm_SetLabels_def Let_def)
  next
    case (Some q0)
    define q where "q = q0\<lparr>t_Labels := labels\<rparr>"
    obtain r t where u: "UpdateTarget now now' q s = (r, t)" by fastforce
    with that Some obtain x where x: "r = Inr x" by (cases r) (auto simp: tm_SetLabels_def Let_def q_def)
    have k: "target_key q = target_key q0" by (simp add: q_def)
    have "tm_ok (mput (targetKey namespace name) x (mput (targetKey namespace name) q m)) t"
      by (rule changed [OF Some k u [unfolded x]])
    moreover have "m' = mput (targetKey namespace name) x (mput (targetKey namespace name) q m)" "s' = t"
      using that Some u x by (simp_all add: tm_SetLabels_def Let_def q_def [symmetric])
    ultimately show ?thesis by simp
  qed
qed

lemma tm_Delete_ok:
  assumes "tm_ok m s" "tm_Delete namespace name force m s = (r, m', s')" "CHR ''/'' \<notin> set namespace"
  shows "tm_ok m' s'"
proof (cases "map_of m (targetKey namespace name)")
  case None
  then show ?thesis using assms by (simp add: tm_Delete_def Let_def)
next
  case (Some q)
  show ?thesis
  proof (rule store_step [OF _ runs_DeleteTarget, of namespace name force s])
    fix e t assume "DeleteTarget namespace name force s = (Inl e, t)" "st_db t = st_db s"
    then show ?thesis using assms Some by (simp add: tm_Delete_def tm_ok_def Let_def)
  next
    fix x t
    assume R: "DeleteTarget namespace name force s = (Inr x, t)"
      "x = (sql_count (\<lambda>r. p_Namespace r = namespace \<and> p_Target r = name) (db_pollers (st_db s)),
            sql_count (links_to_target namespace name) (db_tree (st_db s))) \<and>
       (sql_count (\<lambda>r. p_Namespace r = namespace \<and> p_Target r = name) (db_pollers (st_db s)) > 0 \<longrightarrow> force) \<and>
       st_db t = without_target namespace name (st_db s)"
    then have "tc.coherent (mdel (targetKey namespace name) m) (db_targets (st_db t))"
      using tc.coherent_delete [where cache = m and rows = "db_targets (st_db s)" and k = "(namespace, name)"
          and P = "\<lambda>r. t_Namespace r = namespace \<and> t_Name r = name"] assms(1,3)
      by (simp add: tm_ok_def without_target_def legal_target_def)
    then show ?thesis using assms(2) Some R(1) by (simp add: tm_Delete_def tm_ok_def Let_def)
  qed simp
qed

section \<open>Properties\<close>



text \<open>\<open>Get\<close> of the namespace manager answers what the store has, whether the namespace is cached
  or not: the entity agrees with the row of that name, and nil means there is no such row.\<close>

theorem namespace_get_transparent:
  assumes "nsm_ok m s" "db_ok (st_db s)" "nsm_Get name m s = (Inr x, m', s')"
  shows "map_option ns_view x = map_option ns_view
    (sql_first (\<lambda>r. ns_Name r = name) (db_namespaces (st_db s))) \<and> st_db s' = st_db s"
proof (cases "map_of m name")
  case (Some ns)
  have "distinct (map ns_Name (db_namespaces (st_db s)))" using assms(2) by (simp add: db_ok_def)
  then obtain r where "sql_first (\<lambda>r. ns_Name r = name) (db_namespaces (st_db s)) = Some r"
    "ns_view r = ns_view ns"
    using nsc.hit_row [OF assms(1) [unfolded nsm_ok_def] Some] by blast
  moreover have "x = Some ns" "s' = s" using assms(3) Some by (auto simp: nsm_Get_def)
  ultimately show ?thesis by simp
next
  case None
  obtain q t where q: "GetNamespace name s = (q, t)" by fastforce
  note db = GetNamespace_db [OF q]
  have "q = Inr x \<and> st_db s' = st_db s"
    using assms(3) None q db(1) by (auto simp: nsm_Get_def split: sum.splits option.splits)
  moreover have "map_option ns_view (map_option read_Namespace y) = map_option ns_view y" for y
    by (cases y) simp_all
  ultimately show ?thesis using db(2) [of x] by simp
qed

lemma namespace_get_transparent_witness:
  "\<exists>x. map_option ns_view x = map_option ns_view
    (sql_first (\<lambda>r. ns_Name r = ''n'') (db_namespaces (st_db ex_store))) \<and>
    fst (nsm_Get ''n'' [] ex_store) = Inr x"
proof -
  have a: "nsm_ok [] ex_store" by (simp add: nsm_ok_def nsc.coherent_Nil)
  have b: "db_ok (st_db ex_store)" by code_simp
  have "\<not> isl (fst (nsm_Get ''n'' [] ex_store))" by code_simp
  then obtain x where x: "fst (nsm_Get ''n'' [] ex_store) = Inr x"
    by (cases "fst (nsm_Get ''n'' [] ex_store)") auto
  then have "nsm_Get ''n'' [] ex_store = (Inr x, fst (snd (nsm_Get ''n'' [] ex_store)), snd (snd (nsm_Get ''n'' [] ex_store)))"
    by (metis prod.collapse)
  from namespace_get_transparent [OF a b this] x show ?thesis by blast
qed

text \<open>The manager replaces the version a caller sends by the cached one, so an update of a cached
  namespace never fails for a stale version: with the engine working it succeeds, whichever
  version the caller read, and overwrites what was written since.\<close>

theorem update_ignores_callers_version:
  assumes "nsm_ok m s" "faultless s" "map_of m (ns_Name ns) = Some existing"
  shows "nsm_Update now now' (ns\<lparr>ns_Version := v\<rparr>) m s = nsm_Update now now' ns m s \<and>
    (\<exists>ns' m' s'. nsm_Update now now' ns m s = (Inr ns', m', s') \<and>
       ns' = ns\<lparr>ns_Version := ns_Version existing + 1, ns_UpdatedAt := now'\<rparr> \<and>
       (\<exists>r \<in> set (db_namespaces (st_db s')). ns_view r = ns_view ns'))"
proof -
  note ex = assms(3)
  obtain row where row: "row \<in> set (db_namespaces (st_db s))" "ns_view row = ns_view existing"
    using nsc.coherentD(3) [OF assms(1) [unfolded nsm_ok_def] ex] by blast
  have name: "ns_Name existing = ns_Name ns"
    using nsc.coherentD(2) [OF assms(1) [unfolded nsm_ok_def] ex] .
  define ns1 where "ns1 = ns\<lparr>ns_Version := ns_Version existing\<rparr>"
  have "ns_current ns1 row" using row(2) name by (simp add: ns_current_def ns1_def ns_view_def)
  then have c: "sql_count (ns_current ns1) (db_namespaces (st_db s)) \<noteq> 0"
    using row(1) by (auto simp: sql_count_0)
  have f: "st_fault s (st_tick s) = None" using assms(2) by (simp add: faultless_def)
  obtain x t where u: "UpdateNamespace now now' ns1 s = (Inr x, t)"
    using c f by (auto simp: UpdateNamespace_def bnd_def wrap_def stmt_def check_rows_def ret_def Let_def
        ns_current_def [abs_def])
  have up: "nsm_Update now now' ns m s = (Inr x, mput (ns_Name ns) x m, t)"
    using ex u by (simp add: nsm_Update_def Let_def ns1_def)
  have "nsm_ok (mput (ns_Name ns) x m) t" by (rule nsm_Update_ok [OF assms(1) up])
  then have "\<exists>r \<in> set (db_namespaces (st_db t)). ns_view r = ns_view x"
    using nsc.coherentD(3) [of "mput (ns_Name ns) x m" "db_namespaces (st_db t)" "ns_Name ns" x]
    by (simp add: nsm_ok_def)
  moreover have "nsm_Update now now' (ns\<lparr>ns_Version := v\<rparr>) m s = nsm_Update now now' ns m s"
    by (simp add: nsm_Update_def Let_def cong: option.case_cong)
  moreover have "x = ns\<lparr>ns_Version := ns_Version existing + 1, ns_UpdatedAt := now'\<rparr>"
    using runsD [OF runs_UpdateNamespace u] by (simp add: ns1_def)
  ultimately show ?thesis using up by blast
qed

definition ex_cache :: NamespaceManager where
  "ex_cache = [(''n'', read_Namespace ex_ns)]"

lemma ex_cache_ok: "nsm_ok ex_cache ex_store"
proof -
  have row: "db_namespaces (st_db ex_store) = [ex_ns]" by (simp add: ex_store_def open_store_def empty_db_def)
  have "ns_Name ex_ns = ''n''" by (simp add: ex_ns_def)
  then show ?thesis by (simp add: nsm_ok_def ex_cache_def nsc.coherent_def row gomap_ok_def)
qed

lemma update_ignores_callers_version_witness:
  "\<exists>ns' m' s'. nsm_Update 5 6 (ex_ns\<lparr>ns_Description := ''old reader'', ns_Version := -7\<rparr>) ex_cache ex_store =
     (Inr ns', m', s') \<and> ns_Description ns' = ''old reader''"
proof -
  have f: "faultless ex_store" by (simp add: faultless_def ex_store_def open_store_def)
  have c: "map_of ex_cache (ns_Name (ex_ns\<lparr>ns_Description := ''old reader''\<rparr>)) = Some (read_Namespace ex_ns)"
    by (simp add: ex_cache_def ex_ns_def)
  from update_ignores_callers_version [OF ex_cache_ok f c, of 5 6 "-7"] show ?thesis by auto
qed

text \<open>Deleting a namespace with its targets does not touch the cache of the target manager: no
  target of the namespace is left in the store, and \<open>Get\<close> still answers with the cached ones.\<close>

theorem deleted_targets_stay_cached:
  assumes "nsm_Delete namespace True m s = (Inr n, m', s')"
    "map_of tm (targetKey namespace name) = Some t"
  shows "sql_first (\<lambda>r. target_key r = (namespace, name)) (db_targets (st_db s')) = None \<and>
    tm_Get namespace name tm s' = (Inr (Some t), tm, s') \<and> tm_Exists namespace name tm"
proof -
  have "DeleteNamespace namespace True s = (Inr n, s')"
    using assms(1) by (auto simp: nsm_Delete_def split: option.splits prod.splits sum.splits)
  then have "st_db s' = without_namespace namespace (st_db s)"
    using runsD [OF runs_DeleteNamespace] by blast
  then have "sql_first (\<lambda>r. target_key r = (namespace, name)) (db_targets (st_db s')) = None"
    by (auto simp: sql_first_None without_namespace_def)
  then show ?thesis using assms(2) by (simp add: tm_Get_def tm_Exists_def Let_def)
qed

lemma deleted_targets_stay_cached_witness:
  "fst (tm_Get ''n'' ''t'' [(''n/t'', ex_target ''t'')] (snd (snd (nsm_Delete ''n'' True ex_cache ex_store)))) =
     Inr (Some (ex_target ''t''))"
proof -
  let ?d = "nsm_Delete ''n'' True ex_cache ex_store"
  have "\<not> isl (fst ?d)" by code_simp
  then obtain k where k: "fst ?d = Inr k" by (cases "fst ?d") auto
  have d: "?d = (Inr k, fst (snd ?d), snd (snd ?d))" unfolding k [symmetric] by simp
  have t: "map_of [(''n/t'', ex_target ''t'')] (targetKey ''n'' ''t'') = Some (ex_target ''t'')"
    by (simp add: targetKey_def)
  from deleted_targets_stay_cached [OF d t] show ?thesis by simp
qed

text \<open>A \<open>SetDefaults\<close> the store refuses has changed the cached namespace all the same.\<close>

lemma failed_set_defaults_stays_cached:
  assumes "map_of m name = Some ns0" "nsm_SetDefaults now now' name defaults m s = (Inl err, m', s')"
  shows "nsm_GetDefaults name m' = defaults \<and> st_db s' = st_db s"
proof -
  define ns where "ns = ns0\<lparr>ns_Config := Some ((case ns_Config ns0 of None \<Rightarrow> \<lparr>nc_Defaults = None\<rparr>
     | Some c \<Rightarrow> c)\<lparr>nc_Defaults := defaults\<rparr>)\<rparr>"
  obtain r t where u: "UpdateNamespace now now' ns s = (r, t)" by fastforce
  with assms obtain e where r: "r = Inl e" by (cases r) (auto simp: nsm_SetDefaults_def Let_def ns_def)
  then have "st_db t = st_db s" using u safeD [of "UpdateNamespace now now' ns"] by simp
  then show ?thesis
    using assms u r by (auto simp: nsm_SetDefaults_def nsm_GetDefaults_def Let_def ns_def)
qed

end
