(* ===== verification/RevIndex.thy ===== *)
theory RevIndex
  imports Prelude "HOL-Library.List_Lexorder" "HOL-Library.Char_ord"
begin

text \<open>
  The reverse index the program uses in many places: a \<open>map[K]map[V]struct{}\<close> from a key to the
  set of ids filed under it. It is the by-namespace and by-target index of the poller manager, the
  subscription index of the session manager, and the tag, state, protocol and host indices of the
  server.

  \<^item> Filing makes the inner set when it is missing; taking out deletes the key with its last id.
  \<^item> \<open>idx_has m k v\<close> is what a lookup answers; \<open>idx_ok m\<close> says that keys and ids are distinct and
    no inner set is empty.
  \<^item> The locale \<open>reverse_index\<close> states the contract, and its lemmas cover the loops that file or take
    out many keys for one id. The Go maps are its interpretation.
\<close>

type_synonym ('k, 'v) revidx = "('k, 'v list) gomap"

definition idx_get :: "'k \<Rightarrow> ('k, 'v) revidx \<Rightarrow> 'v list" where
  "idx_get k m = (case map_of m k of None \<Rightarrow> [] | Some vs \<Rightarrow> vs)"

definition idx_has :: "('k, 'v) revidx \<Rightarrow> 'k \<Rightarrow> 'v \<Rightarrow> bool" where
  "idx_has m k v \<longleftrightarrow> v \<in> set (idx_get k m)"

text \<open>\<open>if m[k] == nil { m[k] = make(...) }; m[k][v] = struct{}{}\<close>.\<close>

definition idx_add :: "'k \<Rightarrow> 'v \<Rightarrow> ('k, 'v) revidx \<Rightarrow> ('k, 'v) revidx" where
  "idx_add k v m = mput k (sadd v (idx_get k m)) m"

text \<open>\<open>if vs, ok := m[k]; ok { delete(vs, v); if len(vs) == 0 { delete(m, k) } }\<close>.\<close>

definition idx_del :: "'k \<Rightarrow> 'v \<Rightarrow> ('k, 'v) revidx \<Rightarrow> ('k, 'v) revidx" where
  "idx_del k v m =
     (case map_of m k of
        None \<Rightarrow> m
      | Some vs \<Rightarrow> (let vs' = sdel v vs in if vs' = [] then mdel k m else mput k vs' m))"

definition idx_ok :: "('k, 'v) revidx \<Rightarrow> bool" where
  "idx_ok m \<longleftrightarrow> gomap_ok m \<and> (\<forall>(k, vs) \<in> set m. distinct vs \<and> vs \<noteq> [])"

lemma idx_ok_Nil [simp]: "idx_ok []"
  by (simp add: idx_ok_def)

lemma idx_has_Nil [simp]: "\<not> idx_has [] k v"
  by (simp add: idx_has_def idx_get_def)

lemma idx_ok_get:
  assumes "idx_ok m"
  shows "distinct (idx_get k m)" "map_of m k = Some vs \<Longrightarrow> vs \<noteq> []"
  using assms by (auto simp: idx_ok_def idx_get_def split: option.split dest!: map_of_SomeD)

lemma idx_get_add: "idx_get k' (idx_add k v m) = (if k' = k then sadd v (idx_get k m) else idx_get k' m)"
  unfolding idx_add_def by (simp add: idx_get_def)

lemma idx_get_del: "idx_get k' (idx_del k v m) = (if k' = k then sdel v (idx_get k m) else idx_get k' m)"
  by (auto simp: idx_del_def idx_get_def Let_def split: option.split)

lemma idx_has_add: "idx_has (idx_add k v m) k' v' \<longleftrightarrow> (k' = k \<and> v' = v) \<or> idx_has m k' v'"
  by (auto simp: idx_has_def idx_get_add)

lemma idx_has_del: "idx_has (idx_del k v m) k' v' \<longleftrightarrow> \<not> (k' = k \<and> v' = v) \<and> idx_has m k' v'"
  by (auto simp: idx_has_def idx_get_del)

lemma idx_ok_put:
  assumes "idx_ok m" "distinct vs" "vs \<noteq> []"
  shows "idx_ok (mput k vs m)"
proof -
  have g: "gomap_ok m" using assms(1) by (simp add: idx_ok_def)
  show ?thesis
    using assms unfolding idx_ok_def set_put [OF g] by auto
qed

lemma idx_ok_add: "idx_ok m \<Longrightarrow> idx_ok (idx_add k v m)"
  unfolding idx_add_def using idx_ok_get(1) [of m k] by (intro idx_ok_put) auto

lemma idx_ok_del:
  assumes "idx_ok m"
  shows "idx_ok (idx_del k v m)"
proof (cases "map_of m k")
  case None
  then show ?thesis using assms by (simp add: idx_del_def)
next
  case (Some vs)
  have d: "distinct (sdel v vs)"
    using assms Some by (auto simp: idx_ok_def distinct_removeAll dest!: map_of_SomeD)
  have "idx_ok (mdel k m)" using assms by (auto simp: idx_ok_def set_del)
  then show ?thesis using Some d assms by (simp add: idx_del_def Let_def idx_ok_put)
qed

section \<open>The contract\<close>

locale reverse_index =
  fixes has :: "'m \<Rightarrow> 'k \<Rightarrow> 'v \<Rightarrow> bool"
    and add :: "'k \<Rightarrow> 'v \<Rightarrow> 'm \<Rightarrow> 'm"
    and del :: "'k \<Rightarrow> 'v \<Rightarrow> 'm \<Rightarrow> 'm"
    and ok :: "'m \<Rightarrow> bool"
  assumes has_add: "has (add k v m) k' v' \<longleftrightarrow> (k' = k \<and> v' = v) \<or> has m k' v'"
    and has_del: "has (del k v m) k' v' \<longleftrightarrow> \<not> (k' = k \<and> v' = v) \<and> has m k' v'"
    and ok_add: "ok m \<Longrightarrow> ok (add k v m)"
    and ok_del: "ok m \<Longrightarrow> ok (del k v m)"
begin

lemma has_adds:
  "has (foldl (\<lambda>m k. add k v m) m ks) k' v' \<longleftrightarrow> (k' \<in> set ks \<and> v' = v) \<or> has m k' v'"
  by (induction ks arbitrary: m) (auto simp: has_add)

lemma has_dels:
  "has (foldl (\<lambda>m k. del k v m) m ks) k' v' \<longleftrightarrow> \<not> (k' \<in> set ks \<and> v' = v) \<and> has m k' v'"
  by (induction ks arbitrary: m) (auto simp: has_del)

lemma ok_adds: "ok m \<Longrightarrow> ok (foldl (\<lambda>m k. add k v m) m ks)"
  by (induction ks arbitrary: m) (auto simp: ok_add)

lemma ok_dels: "ok m \<Longrightarrow> ok (foldl (\<lambda>m k. del k v m) m ks)"
  by (induction ks arbitrary: m) (auto simp: ok_del)

text \<open>The index is the relation \<open>R\<close>; refiling an id replaces its part of the relation.\<close>

definition represents :: "'m \<Rightarrow> ('k \<Rightarrow> 'v \<Rightarrow> bool) \<Rightarrow> bool" where
  "represents m R \<longleftrightarrow> ok m \<and> (\<forall>k v. has m k v \<longleftrightarrow> R k v)"

lemma represents_add:
  "represents m R \<Longrightarrow> represents (add k v m) (\<lambda>k' v'. (k' = k \<and> v' = v) \<or> R k' v')"
  by (simp add: represents_def has_add ok_add)

lemma represents_del:
  "represents m R \<Longrightarrow> represents (del k v m) (\<lambda>k' v'. \<not> (k' = k \<and> v' = v) \<and> R k' v')"
  by (simp add: represents_def has_del ok_del)

lemma represents_adds:
  "represents m R \<Longrightarrow>
   represents (foldl (\<lambda>m k. add k v m) m ks) (\<lambda>k' v'. (k' \<in> set ks \<and> v' = v) \<or> R k' v')"
  by (simp add: represents_def has_adds ok_adds)

lemma represents_dels:
  "represents m R \<Longrightarrow>
   represents (foldl (\<lambda>m k. del k v m) m ks) (\<lambda>k' v'. \<not> (k' \<in> set ks \<and> v' = v) \<and> R k' v')"
  by (simp add: represents_def has_dels ok_dels)

end

interpretation ridx: reverse_index idx_has idx_add idx_del idx_ok
  by unfold_locales (simp_all add: idx_has_add idx_has_del idx_ok_add idx_ok_del)

section \<open>Sorted results\<close>

text \<open>\<open>sort.Strings\<close> of the ids of a set.\<close>

definition sorted_ids :: "string list \<Rightarrow> string list" where
  "sorted_ids ids = sort ids"

lemma sorted_ids [simp]: "set (sorted_ids ids) = set ids" "sorted (sorted_ids ids)"
  "distinct (sorted_ids ids) = distinct ids" "length (sorted_ids ids) = length ids"
  by (simp_all add: sorted_ids_def)

end
