(* ===== verification/TagIndex.thy ===== *)
theory TagIndex
  imports RevIndex
begin

text \<open>
  The hierarchical tag index of internal/server/tagindex.go. A tag is a path such as
  \<open>type/network/router\<close>; the index files a target under every leading part of each of its tags, so
  that a query for \<open>type/network\<close> is one lookup.

  The locked and the unlocked variants of an operation are the same function here. Results that
  the code sorts are sorted; a \<open>range\<close> over a map visits the entries in the order of the list.
\<close>

record TagIndex =
  ti_tagToTargets :: "(string, string) revidx"
  ti_targetToTags :: "(string, string list) gomap"

definition NewTagIndex :: TagIndex where
  "NewTagIndex = \<lparr>ti_tagToTargets = [], ti_targetToTags = []\<rparr>"

text \<open>\<open>for i := 1; i <= len(parts); i++ { prefix := strings.Join(parts[:i], "/") ... }\<close>.\<close>

definition tag_prefixes :: "string \<Rightarrow> string list" where
  "tag_prefixes tag =
     (let parts = split_on (CHR ''/'') tag in
      map (\<lambda>i. join_with (CHR ''/'') (take i parts)) [1..<Suc (length parts)])"

definition addTagLocked :: "string \<Rightarrow> string \<Rightarrow> TagIndex \<Rightarrow> TagIndex" where
  "addTagLocked targetID tag idx =
     idx\<lparr>ti_tagToTargets :=
       foldl (\<lambda>m pre. idx_add pre targetID m) (ti_tagToTargets idx) (tag_prefixes tag)\<rparr>"

definition removeLocked :: "string \<Rightarrow> TagIndex \<Rightarrow> TagIndex" where
  "removeLocked targetID idx =
     (case map_of (ti_targetToTags idx) targetID of
        None \<Rightarrow> idx
      | Some tags \<Rightarrow>
          idx\<lparr>ti_targetToTags := mdel targetID (ti_targetToTags idx),
              ti_tagToTargets := foldl (\<lambda>m tag. foldl (\<lambda>m pre. idx_del pre targetID m) m (tag_prefixes tag))
                (ti_tagToTargets idx) tags\<rparr>)"

text \<open>Store the tags of a target that has none and file it under them.\<close>

definition put_tags :: "string \<Rightarrow> string list \<Rightarrow> TagIndex \<Rightarrow> TagIndex" where
  "put_tags targetID tags idx =
     foldl (\<lambda>idx tag. addTagLocked targetID tag idx)
       (idx\<lparr>ti_targetToTags := mput targetID tags (ti_targetToTags idx)\<rparr>) tags"

definition TagIndex_Add :: "string \<Rightarrow> string list \<Rightarrow> TagIndex \<Rightarrow> TagIndex" where
  "TagIndex_Add targetID tags idx0 =
     (let idx = removeLocked targetID idx0 in
      if tags = [] then idx else put_tags targetID tags idx)"

definition TagIndex_Remove :: "string \<Rightarrow> TagIndex \<Rightarrow> TagIndex" where
  "TagIndex_Remove targetID idx = removeLocked targetID idx"

definition GetTags :: "TagIndex \<Rightarrow> string \<Rightarrow> string list" where
  "GetTags idx targetID = (case map_of (ti_targetToTags idx) targetID of None \<Rightarrow> [] | Some tags \<Rightarrow> tags)"

text \<open>
  \<open>tagSet\<close> is a set built in the order current, then without \<open>remove\<close>, then with the non-empty tags of
  \<open>add\<close>; sorting makes its order irrelevant. The returned slice is the one that was sorted.
\<close>

definition new_tags :: "string list \<Rightarrow> string list \<Rightarrow> string list \<Rightarrow> string list \<Rightarrow> string list" where
  "new_tags currentTags add remove setTags =
     (if setTags \<noteq> [] then setTags
      else (let tagSet0 = foldl (\<lambda>ts t. sadd t ts) [] currentTags;
                tagSet1 = foldl (\<lambda>ts t. sdel t ts) tagSet0 remove
            in foldl (\<lambda>ts t. if t \<noteq> [] then sadd t ts else ts) tagSet1 add))"

definition UpdateTags ::
    "string \<Rightarrow> string list \<Rightarrow> string list \<Rightarrow> string list \<Rightarrow> TagIndex \<Rightarrow> string list \<times> TagIndex" where
  "UpdateTags targetID add remove setTags idx =
     (let newTags = new_tags (GetTags idx targetID) add remove setTags;
          idx1 = removeLocked targetID idx
      in if newTags = [] then ([], idx1)
         else (sort newTags, put_tags targetID (sort newTags) idx1))"

section \<open>Queries\<close>

definition TagIndex_Query :: "TagIndex \<Rightarrow> string \<Rightarrow> string list" where
  "TagIndex_Query idx tag = sorted_ids (idx_get tag (ti_tagToTargets idx))"

text \<open>The first tag with the fewest targets.\<close>

fun pick_smallest :: "TagIndex \<Rightarrow> string \<Rightarrow> string list \<Rightarrow> string" where
  "pick_smallest idx smallest [] = smallest"
| "pick_smallest idx smallest (tag # tags) =
     pick_smallest idx
       (if length (idx_get tag (ti_tagToTargets idx)) < length (idx_get smallest (ti_tagToTargets idx))
        then tag else smallest) tags"

definition QueryAND :: "TagIndex \<Rightarrow> string list \<Rightarrow> string list" where
  "QueryAND idx tags =
     (case tags of
        [] \<Rightarrow> []
      | tag0 # rest \<Rightarrow>
          (let smallest = pick_smallest idx tag0 rest in
           if length (idx_get smallest (ti_tagToTargets idx)) = 0 then []
           else sorted_ids (filter (\<lambda>i. list_all (\<lambda>tag. idx_has (ti_tagToTargets idx) tag i) tags)
                  (idx_get smallest (ti_tagToTargets idx)))))"

definition QueryOR :: "TagIndex \<Rightarrow> string list \<Rightarrow> string list" where
  "QueryOR idx tags =
     sorted_ids (foldl (\<lambda>seen tag. foldl (\<lambda>seen i. sadd i seen) seen (idx_get tag (ti_tagToTargets idx)))
       [] tags)"

definition TagIndex_Count :: "TagIndex \<Rightarrow> string \<Rightarrow> nat" where
  "TagIndex_Count idx tag = length (idx_get tag (ti_tagToTargets idx))"

definition HasTag :: "TagIndex \<Rightarrow> string \<Rightarrow> string \<Rightarrow> bool" where
  "HasTag idx targetID tag = idx_has (ti_tagToTargets idx) tag targetID"

text \<open>
  The next segment of a tag: up to the first slash, unless the slash is the first character or
  there is none; then all of it.
\<close>

definition next_segment :: "string \<Rightarrow> string" where
  "next_segment rest =
     (let seg = takeWhile (\<lambda>c. c \<noteq> CHR ''/'') rest in if seg \<noteq> [] then seg else rest)"

definition child_segment :: "string \<Rightarrow> string \<Rightarrow> string option" where
  "child_segment pre tag =
     (if pre = [] then Some (next_segment tag)
      else if has_prefix tag (pre @ ''/'') then
        (let rest = drop (length pre + 1) tag in if rest = [] then None else Some (next_segment rest))
      else None)"

definition ListChildren :: "TagIndex \<Rightarrow> string \<Rightarrow> string list \<times> string list" where
  "ListChildren idx pre =
     (let dirSet = foldl (\<lambda>ds tag. case child_segment pre tag of
                       None \<Rightarrow> ds
                     | Some segment \<Rightarrow> if segment \<noteq> [] then sadd segment ds else ds)
                   [] (mkeys (ti_tagToTargets idx));
          targetIDs = map fst (filter (\<lambda>(_, tags). pre \<in> set tags) (ti_targetToTags idx))
      in (sort dirSet, sort targetIDs))"

definition GetRootCategories :: "TagIndex \<Rightarrow> string list" where
  "GetRootCategories idx = fst (ListChildren idx [])"

definition AllTargets :: "TagIndex \<Rightarrow> string list" where
  "AllTargets idx = sort (mkeys (ti_targetToTags idx))"

definition TagIndex_Size :: "TagIndex \<Rightarrow> nat" where
  "TagIndex_Size idx = length (ti_targetToTags idx)"

section \<open>Leading parts of a tag\<close>

definition under :: "string \<Rightarrow> string \<Rightarrow> bool" where
  "under p tag \<longleftrightarrow> tag = p \<or> has_prefix tag (p @ ''/'')"

lemma split_on_join_append: "split_on c (p @ c # r) = split_on c p @ split_on c r"
proof (induction p)
  case (Cons x p)
  obtain q qs where "split_on c p = q # qs" by (meson neq_Nil_conv split_on_not_Nil)
  with Cons show ?case by auto
qed simp

lemma tag_join_append: "ps \<noteq> [] \<Longrightarrow> qs \<noteq> [] \<Longrightarrow> join_with c (ps @ qs) = join_with c ps @ c # join_with c qs"
proof (induction c ps rule: join_with.induct)
  case (2 c p)
  then show ?case by (cases qs) auto
qed auto

lemma tag_prefixes_iff:
  "p \<in> set (tag_prefixes tag) \<longleftrightarrow>
   (\<exists>i \<in> {1..<Suc (length (split_on (CHR ''/'') tag))}. p = join_with (CHR ''/'') (take i (split_on (CHR ''/'') tag)))"
  by (simp only: tag_prefixes_def Let_def set_map set_upt image_iff)

lemma split_on_length: "1 \<le> length (split_on c s)"
  by (cases "split_on c s") simp_all

lemma tag_prefixes_under: "p \<in> set (tag_prefixes tag) \<longleftrightarrow> under p tag"
proof
  assume "p \<in> set (tag_prefixes tag)"
  then obtain i where "i \<in> {1..<Suc (length (split_on (CHR ''/'') tag))}"
    and p: "p = join_with (CHR ''/'') (take i (split_on (CHR ''/'') tag))"
    unfolding tag_prefixes_iff by (rule bexE)
  then have i: "1 \<le> i" "i \<le> length (split_on (CHR ''/'') tag)" by simp_all
  show "under p tag"
  proof (cases "i = length (split_on (CHR ''/'') tag)")
    case True
    with p show ?thesis by (simp add: under_def)
  next
    case False
    have "take i (split_on (CHR ''/'') tag) \<noteq> []" using i(1) by simp
    moreover have "drop i (split_on (CHR ''/'') tag) \<noteq> []" using i(2) False by simp
    ultimately have "join_with (CHR ''/'') (split_on (CHR ''/'') tag) =
        p @ CHR ''/'' # join_with (CHR ''/'') (drop i (split_on (CHR ''/'') tag))"
      unfolding p using tag_join_append by (metis append_take_drop_id)
    then have "\<exists>r. tag = p @ CHR ''/'' # r" unfolding join_split by (rule exI)
    then show ?thesis unfolding under_def has_prefix_iff by simp
  qed
next
  assume "under p tag"
  then consider "tag = p" | r where "tag = p @ CHR ''/'' # r"
    by (auto simp: under_def has_prefix_iff)
  then obtain i where i: "1 \<le> i" "i \<le> length (split_on (CHR ''/'') tag)"
    and p: "p = join_with (CHR ''/'') (take i (split_on (CHR ''/'') tag))"
  proof cases
    case 1
    show ?thesis
      by (rule that [of "length (split_on (CHR ''/'') p)"])
        (use split_on_length [of "CHR ''/''" p] in \<open>simp_all add: 1\<close>)
  next
    case 2
    show ?thesis
      by (rule that [of "length (split_on (CHR ''/'') p)"])
        (use split_on_length [of "CHR ''/''" p] in \<open>simp_all add: 2 split_on_join_append\<close>)
  qed
  from i have "i \<in> {1..<Suc (length (split_on (CHR ''/'') tag))}" by simp
  with p show "p \<in> set (tag_prefixes tag)" unfolding tag_prefixes_iff by (rule bexI)
qed

section \<open>The index files exactly the leading parts of the tags\<close>

definition tag_ok :: "TagIndex \<Rightarrow> bool" where
  "tag_ok idx \<longleftrightarrow> gomap_ok (ti_targetToTags idx) \<and> (\<forall>(i, tags) \<in> set (ti_targetToTags idx). tags \<noteq> []) \<and>
     ridx.represents (ti_tagToTargets idx) (\<lambda>p i. \<exists>tag \<in> set (GetTags idx i). under p tag)"

lemma tag_ok_New: "tag_ok NewTagIndex"
  by (simp add: tag_ok_def NewTagIndex_def ridx.represents_def GetTags_def)

lemma foldl_foldl_concat: "foldl (\<lambda>m x. foldl g m (f x)) m xs = foldl g m (concat (map f xs))"
  by (induction xs arbitrary: m) simp_all

lemma under_some_prefix: "p \<in> set (concat (map tag_prefixes tags)) \<longleftrightarrow> (\<exists>tag \<in> set tags. under p tag)"
  by (auto simp: tag_prefixes_under)

lemma foldl_addTagLocked:
  "foldl (\<lambda>idx tag. addTagLocked i tag idx) idx tags =
   idx\<lparr>ti_tagToTargets := foldl (\<lambda>m pre. idx_add pre i m) (ti_tagToTargets idx) (concat (map tag_prefixes tags))\<rparr>"
  by (induction tags arbitrary: idx) (simp_all add: addTagLocked_def)

lemma GetTags_upd [simp]: "GetTags (idx\<lparr>ti_tagToTargets := m\<rparr>) i = GetTags idx i"
  by (simp add: GetTags_def)

lemma GetTags_put [simp]:
  "GetTags (idx\<lparr>ti_targetToTags := mput i tags (ti_targetToTags idx)\<rparr>) j =
   (if j = i then tags else GetTags idx j)"
  by (simp add: GetTags_def)

lemma GetTags_put_tags: "GetTags (put_tags i tags idx) j = (if j = i then tags else GetTags idx j)"
  by (simp add: put_tags_def foldl_addTagLocked)

lemma GetTags_removeLocked: "GetTags (removeLocked i idx) j = (if j = i then [] else GetTags idx j)"
  by (auto simp: removeLocked_def GetTags_def split: option.split)

lemma sel_upd: "ti_tagToTargets (idx\<lparr>ti_targetToTags := a, ti_tagToTargets := b\<rparr>) = b"
  by simp

lemma tag_ok_removeLocked:
  assumes "tag_ok idx"
  shows "tag_ok (removeLocked i idx)"
proof (cases "map_of (ti_targetToTags idx) i")
  case None
  then show ?thesis using assms by (simp add: removeLocked_def)
next
  case (Some tags)
  have tags: "GetTags idx i = tags" by (simp add: GetTags_def Some)
  have rep: "ridx.represents (ti_tagToTargets idx) (\<lambda>p j. \<exists>tag \<in> set (GetTags idx j). under p tag)"
    using assms by (simp add: tag_ok_def)
  have eq: "removeLocked i idx = idx\<lparr>ti_targetToTags := mdel i (ti_targetToTags idx),
      ti_tagToTargets := foldl (\<lambda>m pre. idx_del pre i m) (ti_tagToTargets idx) (concat (map tag_prefixes tags))\<rparr>"
    by (simp add: removeLocked_def Some foldl_foldl_concat)
  have "(\<lambda>p j. \<not> (p \<in> set (concat (map tag_prefixes tags)) \<and> j = i) \<and>
        (\<exists>tag \<in> set (GetTags idx j). under p tag)) =
      (\<lambda>p j. \<exists>tag \<in> set (GetTags (removeLocked i idx) j). under p tag)"
    unfolding under_some_prefix GetTags_removeLocked using tags by (auto simp: fun_eq_iff)
  with ridx.represents_dels [OF rep, where ks = "concat (map tag_prefixes tags)" and v = i]
  have "ridx.represents (ti_tagToTargets (removeLocked i idx))
      (\<lambda>p j. \<exists>tag \<in> set (GetTags (removeLocked i idx) j). under p tag)"
    by (simp only: eq sel_upd)
  moreover have "gomap_ok (ti_targetToTags (removeLocked i idx)) \<and>
      (\<forall>(i, tags) \<in> set (ti_targetToTags (removeLocked i idx)). tags \<noteq> [])"
    using assms by (auto simp: eq tag_ok_def set_del)
  ultimately show ?thesis by (simp add: tag_ok_def)
qed

lemma tag_ok_put_tags:
  assumes "tag_ok idx" "GetTags idx i = []" "tags \<noteq> []"
  shows "tag_ok (put_tags i tags idx)"
proof -
  have rep: "ridx.represents (ti_tagToTargets idx) (\<lambda>p j. \<exists>tag \<in> set (GetTags idx j). under p tag)"
    and g: "gomap_ok (ti_targetToTags idx)"
    using assms(1) by (simp_all add: tag_ok_def)
  have eq: "put_tags i tags idx = idx\<lparr>ti_targetToTags := mput i tags (ti_targetToTags idx),
      ti_tagToTargets := foldl (\<lambda>m pre. idx_add pre i m) (ti_tagToTargets idx) (concat (map tag_prefixes tags))\<rparr>"
    by (simp add: put_tags_def foldl_addTagLocked)
  have "(\<lambda>p j. (p \<in> set (concat (map tag_prefixes tags)) \<and> j = i) \<or>
        (\<exists>tag \<in> set (GetTags idx j). under p tag)) =
      (\<lambda>p j. \<exists>tag \<in> set (GetTags (put_tags i tags idx) j). under p tag)"
    unfolding under_some_prefix GetTags_put_tags using assms(2) by (auto simp: fun_eq_iff)
  with ridx.represents_adds [OF rep, where ks = "concat (map tag_prefixes tags)" and v = i]
  have "ridx.represents (ti_tagToTargets (put_tags i tags idx))
      (\<lambda>p j. \<exists>tag \<in> set (GetTags (put_tags i tags idx) j). under p tag)"
    by (simp only: eq sel_upd)
  moreover have "gomap_ok (ti_targetToTags (put_tags i tags idx)) \<and>
      (\<forall>(i, tags) \<in> set (ti_targetToTags (put_tags i tags idx)). tags \<noteq> [])"
    using assms by (auto simp: eq tag_ok_def set_put)
  ultimately show ?thesis by (simp add: tag_ok_def)
qed

section \<open>Any sequence of updates\<close>

datatype tag_op =
    OpAdd string "string list"
  | OpRemove string
  | OpUpdate string "string list" "string list" "string list"

fun tag_step :: "tag_op \<Rightarrow> TagIndex \<Rightarrow> TagIndex" where
  "tag_step (OpAdd i tags) idx = TagIndex_Add i tags idx"
| "tag_step (OpRemove i) idx = TagIndex_Remove i idx"
| "tag_step (OpUpdate i add remove setTags) idx = snd (UpdateTags i add remove setTags idx)"

definition tag_run :: "tag_op list \<Rightarrow> TagIndex" where
  "tag_run ops = foldl (\<lambda>idx p. tag_step p idx) NewTagIndex ops"

text \<open>The reference: the tags of every target, and nothing else.\<close>

fun tags_step :: "tag_op \<Rightarrow> (string \<Rightarrow> string list) \<Rightarrow> string \<Rightarrow> string list" where
  "tags_step (OpAdd i tags) f = f(i := tags)"
| "tags_step (OpRemove i) f = f(i := [])"
| "tags_step (OpUpdate i add remove setTags) f = f(i := sort (new_tags (f i) add remove setTags))"

definition tags_after :: "tag_op list \<Rightarrow> string \<Rightarrow> string list" where
  "tags_after ops = foldl (\<lambda>f p. tags_step p f) (\<lambda>_. []) ops"

text \<open>With an empty \<open>setTags\<close> the new tags are the current ones and the non-empty added ones, less those
  removed and not added again.\<close>

lemma set_foldl_sadd: "set (foldl (\<lambda>ts t. sadd t ts) ts xs) = set ts \<union> set xs"
  by (induction xs arbitrary: ts) auto

lemma set_foldl_sdel: "set (foldl (\<lambda>ts t. sdel t ts) ts xs) = set ts - set xs"
  by (induction xs arbitrary: ts) auto

lemma set_foldl_add_tags:
  "set (foldl (\<lambda>ts t. if t \<noteq> [] then sadd t ts else ts) ts xs) = set ts \<union> (set xs - {[]})"
  by (induction xs arbitrary: ts) auto

lemma set_new_tags:
  "set (new_tags cur add remove []) = (set cur - set remove) \<union> (set add - {[]})"
  by (simp add: new_tags_def Let_def set_foldl_add_tags set_foldl_sdel set_foldl_sadd)

lemma tag_step_ok:
  assumes "tag_ok idx"
  shows "tag_ok (tag_step p idx) \<and> GetTags (tag_step p idx) = tags_step p (GetTags idx)"
proof -
  have rm: "tag_ok (removeLocked i idx)" "GetTags (removeLocked i idx) i = []" for i
    using assms by (simp_all add: tag_ok_removeLocked GetTags_removeLocked)
  show ?thesis
  proof (cases p)
    case (OpAdd i tags)
    then show ?thesis using rm
      by (auto simp: TagIndex_Add_def Let_def tag_ok_put_tags GetTags_put_tags GetTags_removeLocked fun_eq_iff)
  next
    case (OpRemove i)
    then show ?thesis using rm by (auto simp: TagIndex_Remove_def GetTags_removeLocked fun_eq_iff)
  next
    case (OpUpdate i add remove setTags)
    define new where "new = new_tags (GetTags idx i) add remove setTags"
    have "sort new \<noteq> []" if "new \<noteq> []" using that by (metis set_empty set_sort)
    then show ?thesis using rm OpUpdate
      by (auto simp: UpdateTags_def Let_def tag_ok_put_tags GetTags_put_tags GetTags_removeLocked
          fun_eq_iff new_def [symmetric])
  qed
qed

lemma tag_run_ok: "tag_ok (tag_run ops) \<and> GetTags (tag_run ops) = tags_after ops"
proof (induction ops rule: rev_induct)
  case Nil
  show ?case by (simp add: tag_run_def tags_after_def tag_ok_New) (simp add: GetTags_def NewTagIndex_def fun_eq_iff)
next
  case (snoc p ops)
  then show ?case using tag_step_ok [of "tag_run ops" p] by (simp add: tag_run_def tags_after_def)
qed

lemma tag_ok_has: "tag_ok idx \<Longrightarrow> idx_has (ti_tagToTargets idx) p i \<longleftrightarrow> (\<exists>tag \<in> set (GetTags idx i). under p tag)"
  by (simp add: tag_ok_def ridx.represents_def)

lemma tag_ok_idx: "tag_ok idx \<Longrightarrow> idx_ok (ti_tagToTargets idx)"
  by (simp add: tag_ok_def ridx.represents_def)

lemma query_spec:
  assumes "tag_ok idx"
  shows "set (TagIndex_Query idx tag) = {i. \<exists>t \<in> set (GetTags idx i). under tag t}"
    "sorted (TagIndex_Query idx tag)" "distinct (TagIndex_Query idx tag)"
  using tag_ok_has [OF assms] idx_ok_get(1) [OF tag_ok_idx [OF assms]]
  by (auto simp: TagIndex_Query_def idx_has_def)

text \<open>C21: whatever the sequence of additions, removals and updates, the index answers as the reference
  does, which keeps nothing but the tags of each target: a query for a tag gives, sorted and
  without repetition, the targets that have it or a tag below it.\<close>

theorem tag_index_refines_tags:
  "GetTags (tag_run ops) i = tags_after ops i \<and>
   set (TagIndex_Query (tag_run ops) tag) = {i. \<exists>t \<in> set (tags_after ops i). under tag t} \<and>
   sorted (TagIndex_Query (tag_run ops) tag) \<and> distinct (TagIndex_Query (tag_run ops) tag) \<and>
   TagIndex_Count (tag_run ops) tag = card {i. \<exists>t \<in> set (tags_after ops i). under tag t} \<and>
   HasTag (tag_run ops) i tag = (\<exists>t \<in> set (tags_after ops i). under tag t)"
proof -
  have ok: "tag_ok (tag_run ops)" and g: "GetTags (tag_run ops) = tags_after ops"
    using tag_run_ok by simp_all
  have "card (set (TagIndex_Query (tag_run ops) tag)) = TagIndex_Count (tag_run ops) tag"
    using query_spec(3) [OF ok, of tag] distinct_card
    by (fastforce simp: TagIndex_Query_def TagIndex_Count_def)
  then show ?thesis
    using query_spec [OF ok, of tag] tag_ok_has [OF ok] by (simp add: g HasTag_def)
qed

section \<open>Conjunctive and disjunctive queries\<close>

lemma pick_smallest_in: "pick_smallest idx t ts \<in> insert t (set ts)"
  by (induction idx t ts rule: pick_smallest.induct) auto

lemma sorted_eq:
  fixes xs :: "string list"
  assumes "sorted xs" "distinct xs" "sorted ys" "distinct ys" "set xs = set ys"
  shows "xs = ys"
  using assms by (metis sorted_distinct_set_unique)

lemma foldl_sadd_distinct: "distinct ts \<Longrightarrow> distinct (foldl (\<lambda>ts t. sadd t ts) ts xs)"
  by (induction xs arbitrary: ts) auto

text \<open>\<open>QueryAND\<close> and \<open>QueryOR\<close> are the intersection and the union of the single queries: starting
  from the smallest set and stopping at the first tag that does not match changes nothing.\<close>

theorem query_and_or_combine:
  "QueryAND (tag_run ops) (t # ts) =
     filter (\<lambda>i. list_all (\<lambda>tag. i \<in> set (TagIndex_Query (tag_run ops) tag)) ts)
       (TagIndex_Query (tag_run ops) t) \<and>
   QueryAND (tag_run ops) [] = [] \<and>
   QueryOR (tag_run ops) tags =
     sorted_list_of_set (\<Union>tag \<in> set tags. set (TagIndex_Query (tag_run ops) tag))"
proof -
  define idx where "idx = tag_run ops"
  define g where "g = (\<lambda>tag. idx_get tag (ti_tagToTargets idx))"
  have ok: "tag_ok idx" using tag_run_ok by (simp add: idx_def)
  have q: "set (TagIndex_Query idx tag) = set (g tag)" for tag by (simp add: TagIndex_Query_def g_def)
  have dg: "distinct (g tag)" for tag unfolding g_def by (rule idx_ok_get(1) [OF tag_ok_idx [OF ok]])
  define s where "s = pick_smallest idx t ts"
  have s: "s = t \<or> s \<in> set ts" using pick_smallest_in [of idx t ts] by (auto simp: s_def)
  have "QueryAND idx (t # ts) = sorted_ids (filter (\<lambda>i. \<forall>tag \<in> set (t # ts). i \<in> set (g tag)) (g s))"
    unfolding QueryAND_def Let_def list.case s_def [symmetric]
    by (auto simp: g_def idx_has_def list_all_iff sorted_ids_def)
  moreover have "\<dots> = filter (\<lambda>i. \<forall>tag \<in> set ts. i \<in> set (TagIndex_Query idx tag)) (TagIndex_Query idx t)"
  proof (rule sorted_eq)
    show "set (sorted_ids (filter (\<lambda>i. \<forall>tag \<in> set (t # ts). i \<in> set (g tag)) (g s))) =
        set (filter (\<lambda>i. \<forall>tag \<in> set ts. i \<in> set (TagIndex_Query idx tag)) (TagIndex_Query idx t))"
      using s by (auto simp: q)
    show "sorted (filter (\<lambda>i. \<forall>tag \<in> set ts. i \<in> set (TagIndex_Query idx tag)) (TagIndex_Query idx t))"
      using query_spec(2) [OF ok] by (rule sorted_wrt_filter)
  qed (use dg query_spec(3) [OF ok] in simp_all)
  moreover have "QueryOR idx tags = sorted_list_of_set (\<Union>tag \<in> set tags. set (TagIndex_Query idx tag))"
  proof (rule sorted_eq)
    have c: "QueryOR idx tags = sorted_ids (foldl (\<lambda>ts t. sadd t ts) [] (concat (map g tags)))"
      by (simp only: QueryOR_def g_def foldl_foldl_concat)
    show "set (QueryOR idx tags) = set (sorted_list_of_set (\<Union>tag \<in> set tags. set (TagIndex_Query idx tag)))"
      by (simp add: c set_foldl_sadd q)
    show "distinct (QueryOR idx tags)" by (simp only: c sorted_ids foldl_sadd_distinct distinct.simps)
    show "sorted (QueryOR idx tags)" by (simp only: c sorted_ids)
  qed simp_all
  moreover have "QueryAND idx [] = []" by (simp add: QueryAND_def)
  ultimately show ?thesis by (simp only: idx_def list_all_iff simp_thms)
qed

section \<open>Listing the children of a tag\<close>

text \<open>A tag without empty parts; the slashes of such a tag separate something.\<close>

definition good_tag :: "string \<Rightarrow> bool" where
  "good_tag t \<longleftrightarrow> [] \<notin> set (split_on (CHR ''/'') t)"

lemma under_refl [simp]: "under t t"
  by (simp add: under_def)

lemma under_trans: "under p q \<Longrightarrow> under q t \<Longrightarrow> under p t"
  by (auto simp: under_def has_prefix_iff)

lemma good_under: "good_tag t \<Longrightarrow> under p t \<Longrightarrow> good_tag p"
  by (auto simp: good_tag_def under_def has_prefix_iff split_on_join_append)

lemma next_segment_spec:
  assumes "good_tag k"
  shows "next_segment k \<noteq> []" "CHR ''/'' \<notin> set (next_segment k)" "under (next_segment k) k"
proof -
  define seg where "seg = takeWhile (\<lambda>c. c \<noteq> CHR ''/'') k"
  have k: "k = seg @ dropWhile (\<lambda>c. c \<noteq> CHR ''/'') k" by (simp add: seg_def)
  have free: "CHR ''/'' \<notin> set seg" unfolding seg_def by (auto dest: set_takeWhileD)
  have split: "dropWhile (\<lambda>c. c \<noteq> CHR ''/'') k = [] \<or>
      (\<exists>r. dropWhile (\<lambda>c. c \<noteq> CHR ''/'') k = CHR ''/'' # r)"
  proof (cases "dropWhile (\<lambda>c. c \<noteq> CHR ''/'') k")
    case (Cons x r)
    then have "x = CHR ''/''" by (simp add: dropWhile_eq_Cons_conv)
    with Cons show ?thesis by simp
  qed simp
  have u: "under seg k"
    using split k by (metis append_Nil2 has_prefix_append under_def append_Cons append_Nil append_assoc)
  have "seg \<noteq> []"
    using good_under [OF assms u] by (auto simp: good_tag_def)
  then show "next_segment k \<noteq> []" "CHR ''/'' \<notin> set (next_segment k)" "under (next_segment k) k"
    using free u by (simp_all add: next_segment_def Let_def seg_def [symmetric])
qed

lemma next_segment_free: "CHR ''/'' \<notin> set d \<Longrightarrow> d \<noteq> [] \<Longrightarrow> next_segment d = d"
  unfolding next_segment_def Let_def by (subst (1 2) takeWhile_eq_all_conv [THEN iffD2]) auto

abbreviation child_path :: "string \<Rightarrow> string \<Rightarrow> string" where
  "child_path pre d \<equiv> (if pre = [] then d else pre @ CHR ''/'' # d)"

lemma under_drop: "under p r \<Longrightarrow> under (q @ CHR ''/'' # p) (q @ CHR ''/'' # r)"
  by (auto simp: under_def has_prefix_iff)

lemma child_segment_spec:
  assumes "good_tag k" "child_segment pre k = Some d" "d \<noteq> []"
  shows "CHR ''/'' \<notin> set d" "under (child_path pre d) k"
proof -
  have "CHR ''/'' \<notin> set d \<and> under (child_path pre d) k"
  proof (cases "pre = []")
    case True
    with assms next_segment_spec [OF assms(1)] show ?thesis by (auto simp: child_segment_def)
  next
    case False
    with assms(2) obtain r where r: "k = pre @ CHR ''/'' # r" "r \<noteq> []" "d = next_segment r"
      by (auto simp: child_segment_def has_prefix_iff Let_def split: if_splits)
    have "good_tag r" using assms(1) r(1) by (simp add: good_tag_def split_on_join_append)
    with next_segment_spec [of r] r False under_drop [of d r pre] show ?thesis by simp
  qed
  then show "CHR ''/'' \<notin> set d" "under (child_path pre d) k" by simp_all
qed

lemma child_segment_key:
  assumes "CHR ''/'' \<notin> set d" "d \<noteq> []"
  shows "child_segment pre (child_path pre d) = Some d"
proof (cases "pre = []")
  case True
  then show ?thesis using next_segment_free [OF assms] by (simp add: child_segment_def)
next
  case False
  have "has_prefix (pre @ CHR ''/'' # d) (pre @ ''/'')" by (auto simp: has_prefix_iff)
  then show ?thesis using next_segment_free [OF assms] assms(2) False
    by (simp add: child_segment_def Let_def)
qed

lemma set_foldl_segments:
  "set (foldl (\<lambda>ds tag. case f tag of None \<Rightarrow> ds | Some s \<Rightarrow> if s \<noteq> [] then sadd s ds else ds) ds ks) =
   set ds \<union> {s. s \<noteq> [] \<and> (\<exists>k \<in> set ks. f k = Some s)}"
  by (induction ks arbitrary: ds) (auto split: option.splits)

lemma distinct_foldl_segments:
  "distinct ds \<Longrightarrow>
   distinct (foldl (\<lambda>ds tag. case f tag of None \<Rightarrow> ds | Some s \<Rightarrow> if s \<noteq> [] then sadd s ds else ds) ds ks)"
  by (induction ks arbitrary: ds) (auto split: option.splits)

lemma tag_keys:
  assumes "tag_ok idx"
  shows "k \<in> set (mkeys (ti_tagToTargets idx)) \<longleftrightarrow> (\<exists>i. \<exists>t \<in> set (GetTags idx i). under k t)"
proof -
  have "k \<in> set (mkeys (ti_tagToTargets idx)) \<longleftrightarrow> (\<exists>i. idx_has (ti_tagToTargets idx) k i)"
  proof (cases "map_of (ti_tagToTargets idx) k")
    case None
    then show ?thesis by (simp add: mkeys_dom dom_def idx_has_def idx_get_def del: set_map)
  next
    case (Some vs)
    then have "vs \<noteq> []" using idx_ok_get(2) [OF tag_ok_idx [OF assms]] by blast
    with Some show ?thesis
      by (auto simp: mkeys_dom dom_def idx_has_def idx_get_def ex_in_conv simp del: set_map)
  qed
  then show ?thesis using tag_ok_has [OF assms] by simp
qed

text \<open>C22: for tags and a path without empty parts, \<open>ListChildren\<close> lists as directories exactly the next
  parts of the tags below the path, and as targets exactly those tagged with the path itself.\<close>

theorem list_children_exact:
  assumes "\<forall>i. \<forall>t \<in> set (tags_after ops i). good_tag t"
  shows "ListChildren (tag_run ops) pre =
    (sorted_list_of_set {d. d \<noteq> [] \<and> CHR ''/'' \<notin> set d \<and>
       (\<exists>i. \<exists>t \<in> set (tags_after ops i). under (child_path pre d) t)},
     sorted_list_of_set {i. pre \<in> set (tags_after ops i)})"
proof -
  define idx where "idx = tag_run ops"
  have ok: "tag_ok idx" and g: "GetTags idx = tags_after ops" using tag_run_ok by (simp_all add: idx_def)
  define keys where "keys = mkeys (ti_tagToTargets idx)"
  define dirs where "dirs = foldl (\<lambda>ds tag. case child_segment pre tag of None \<Rightarrow> ds
      | Some s \<Rightarrow> if s \<noteq> [] then sadd s ds else ds) [] keys"
  define tgts where "tgts = map fst (filter (\<lambda>(_, tags). pre \<in> set tags) (ti_targetToTags idx))"
  have lc: "ListChildren idx pre = (sort dirs, sort tgts)"
    unfolding ListChildren_def Let_def dirs_def keys_def tgts_def ..
  have keys: "k \<in> set keys \<longleftrightarrow> (\<exists>i. \<exists>t \<in> set (tags_after ops i). under k t)" for k
    unfolding keys_def tag_keys [OF ok] g ..
  have dirs: "set dirs = {d. d \<noteq> [] \<and> CHR ''/'' \<notin> set d \<and> child_path pre d \<in> set keys}"
  proof (intro set_eqI iffI)
    fix d assume "d \<in> set dirs"
    then obtain k where k: "k \<in> set keys" "child_segment pre k = Some d" "d \<noteq> []"
      unfolding dirs_def set_foldl_segments by auto
    obtain i t where t: "t \<in> set (tags_after ops i)" "under k t" using keys k(1) by blast
    have "good_tag k" using good_under [OF _ t(2)] assms t(1) by blast
    then have "CHR ''/'' \<notin> set d" "under (child_path pre d) k" using child_segment_spec k by blast+
    then show "d \<in> {d. d \<noteq> [] \<and> CHR ''/'' \<notin> set d \<and> child_path pre d \<in> set keys}"
      using k(3) keys t under_trans by blast
  next
    fix d assume "d \<in> {d. d \<noteq> [] \<and> CHR ''/'' \<notin> set d \<and> child_path pre d \<in> set keys}"
    then have "d \<noteq> []" "CHR ''/'' \<notin> set d" "child_path pre d \<in> set keys" by simp_all
    then show "d \<in> set dirs"
      unfolding dirs_def set_foldl_segments using child_segment_key by blast
  qed
  have tg: "distinct tgts" "set tgts = {i. pre \<in> set (tags_after ops i)}"
  proof -
    have gm: "gomap_ok (ti_targetToTags idx)" using ok by (simp add: tag_ok_def)
    show "distinct tgts"
      using gomap_ok_filter [OF gm] unfolding tgts_def gomap_ok_def .
    show "set tgts = {i. pre \<in> set (tags_after ops i)}"
      unfolding tgts_def g [symmetric]
    proof (intro set_eqI iffI)
      fix i assume "i \<in> set (map fst (filter (\<lambda>(_, tags). pre \<in> set tags) (ti_targetToTags idx)))"
      then obtain tags where "(i, tags) \<in> set (ti_targetToTags idx)" "pre \<in> set tags" by auto
      then show "i \<in> {i. pre \<in> set (GetTags idx i)}"
        by (simp add: GetTags_def gomap_in_set [OF gm])
    next
      fix i assume "i \<in> {i. pre \<in> set (GetTags idx i)}"
      then obtain tags where "map_of (ti_targetToTags idx) i = Some tags" "pre \<in> set tags"
        by (cases "map_of (ti_targetToTags idx) i") (auto simp: GetTags_def)
      then show "i \<in> set (map fst (filter (\<lambda>(_, tags). pre \<in> set tags) (ti_targetToTags idx)))"
        by (force dest: map_of_SomeD)
    qed
  qed
  have dd: "distinct dirs" unfolding dirs_def by (rule distinct_foldl_segments) simp
  have sd: "sort dirs = sorted_list_of_set (set dirs)"
    by (simp add: sorted_list_of_set_sort_remdups distinct_remdups_id dd)
  have st: "sort tgts = sorted_list_of_set (set tgts)"
    by (simp add: sorted_list_of_set_sort_remdups distinct_remdups_id tg(1))
  have A: "set dirs = {d. d \<noteq> [] \<and> CHR ''/'' \<notin> set d \<and>
      (\<exists>i. \<exists>t \<in> set (tags_after ops i). under (child_path pre d) t)}"
    unfolding dirs keys ..
  show ?thesis
    unfolding idx_def [symmetric] A [symmetric] tg(2) [symmetric] by (simp only: lc sd st)
qed

definition ex_tag_ops :: "tag_op list" where
  "ex_tag_ops = [OpAdd ''r1'' [''type/router'', ''dc1''], OpAdd ''s1'' [''type/switch/core''], OpRemove ''r1'',
     OpUpdate ''r2'' [''type/router''] [] []]"

lemma list_children_exact_witness:
  "ListChildren (tag_run ex_tag_ops) ''type'' =
    (sorted_list_of_set {d. d \<noteq> [] \<and> CHR ''/'' \<notin> set d \<and>
       (\<exists>i. \<exists>t \<in> set (tags_after ex_tag_ops i). under (child_path ''type'' d) t)},
     sorted_list_of_set {i. ''type'' \<in> set (tags_after ex_tag_ops i)})"
proof -
  have "\<forall>i. \<forall>t \<in> set (tags_after ex_tag_ops i). good_tag t"
    by (simp add: tags_after_def ex_tag_ops_def new_tags_def good_tag_def)
  then show ?thesis by (rule list_children_exact)
qed

end
