(* ===== verification/Indices.thy ===== *)
theory Indices
  imports TagIndex
begin

text \<open>
  The secondary indices over targets of internal/server/indices.go: string sets, the indices by
  state, protocol and host, the tag index, and the combined filter query.

  A \<open>StringSet\<close> is the list of its distinct elements. \<open>path.Match\<close> of the standard library, which
  the host filter uses, is modelled on bytes: hosts and patterns are ASCII.
\<close>

section \<open>String sets\<close>

type_synonym StringSet = "string list"

definition NewStringSet :: StringSet where
  "NewStringSet = []"

definition ss_Add :: "string \<Rightarrow> StringSet \<Rightarrow> StringSet" where
  "ss_Add val s = sadd val s"

definition ss_Remove :: "string \<Rightarrow> StringSet \<Rightarrow> StringSet" where
  "ss_Remove val s = sdel val s"

definition ss_Contains :: "StringSet \<Rightarrow> string \<Rightarrow> bool" where
  "ss_Contains s val \<longleftrightarrow> val \<in> set s"

definition ss_Len :: "StringSet \<Rightarrow> nat" where
  "ss_Len s = length s"

definition ss_ToSlice :: "StringSet \<Rightarrow> string list" where
  "ss_ToSlice s = sort s"

definition ss_Clone :: "StringSet \<Rightarrow> StringSet" where
  "ss_Clone s = foldl (\<lambda>result v. ss_Add v result) NewStringSet s"

definition ss_Intersect :: "StringSet \<Rightarrow> StringSet \<Rightarrow> StringSet" where
  "ss_Intersect s other =
     (let (small, large) = (if length s > length other then (other, s) else (s, other))
      in foldl (\<lambda>result v. if ss_Contains large v then ss_Add v result else result) NewStringSet small)"

definition ss_Union :: "StringSet \<Rightarrow> StringSet \<Rightarrow> StringSet" where
  "ss_Union s other = foldl (\<lambda>result v. ss_Add v result) (ss_Clone s) other"

lemma set_foldl_Add: "set (foldl (\<lambda>r v. ss_Add v r) r vs) = set r \<union> set vs"
  unfolding ss_Add_def by (rule set_foldl_sadd)

lemma distinct_foldl_Add: "distinct r \<Longrightarrow> distinct (foldl (\<lambda>r v. ss_Add v r) r vs)"
  unfolding ss_Add_def by (rule foldl_sadd_distinct)

lemma set_foldl_if_Add:
  "set (foldl (\<lambda>r v. if P v then ss_Add v r else r) r vs) = set r \<union> {v \<in> set vs. P v}"
  by (induction vs arbitrary: r) (auto simp: ss_Add_def)

lemma distinct_foldl_if_Add: "distinct r \<Longrightarrow> distinct (foldl (\<lambda>r v. if P v then ss_Add v r else r) r vs)"
  by (induction vs arbitrary: r) (auto simp: ss_Add_def)

lemma ss_Clone [simp]: "set (ss_Clone s) = set s" "distinct (ss_Clone s)"
  by (simp_all add: ss_Clone_def NewStringSet_def set_foldl_Add distinct_foldl_Add)

lemma ss_Intersect [simp]: "set (ss_Intersect s t) = set s \<inter> set t" "distinct (ss_Intersect s t)"
  by (auto simp: ss_Intersect_def NewStringSet_def set_foldl_if_Add distinct_foldl_if_Add ss_Contains_def)

lemma ss_Union [simp]: "set (ss_Union s t) = set s \<union> set t" "distinct (ss_Union s t)"
  by (simp_all add: ss_Union_def set_foldl_Add distinct_foldl_Add)

section \<open>path.Match\<close>

text \<open>One character of a class, escaped or not; something must follow it.\<close>

definition get_esc :: "string \<Rightarrow> (char \<times> string) option" where
  "get_esc chunk =
     (case chunk of
        [] \<Rightarrow> None
      | c # cs \<Rightarrow>
          if c = CHR ''-'' \<or> c = CHR '']'' then None
          else if c = CHR 0x5C
          then (case cs of x # y # r \<Rightarrow> Some (x, y # r) | _ \<Rightarrow> None)
          else (case cs of [] \<Rightarrow> None | _ \<Rightarrow> Some (c, cs)))"

lemma get_esc_shorter: "get_esc chunk = Some (c, r) \<Longrightarrow> length r < length chunk"
  by (auto simp: get_esc_def split: list.splits if_splits)

text \<open>The ranges of a class up to its closing bracket: whether the character is in one, and the rest.\<close>

function class_ranges :: "string \<Rightarrow> char \<Rightarrow> bool \<Rightarrow> bool \<Rightarrow> (bool \<times> string) option" where
  "class_ranges chunk r matched some =
     (if some \<and> chunk \<noteq> [] \<and> hd chunk = CHR '']'' then Some (matched, tl chunk)
      else case get_esc chunk of
        None \<Rightarrow> None
      | Some (lo, rest) \<Rightarrow>
          if hd rest = CHR ''-'' then
            (case get_esc (tl rest) of
               None \<Rightarrow> None
             | Some (hi, rest') \<Rightarrow> class_ranges rest' r (matched \<or> lo \<le> r \<and> r \<le> hi) True)
          else class_ranges rest r (matched \<or> lo = r) True)"
  by pat_completeness auto
termination
proof (relation "measure (\<lambda>(chunk, _). length chunk)")
  fix chunk :: string and r :: char and matched some :: bool and x lo rest x2 hi rest'
  assume "get_esc chunk = Some x" "(lo, rest) = x" "get_esc (tl rest) = Some x2" "(hi, rest') = x2"
  then show "((rest', r, matched \<or> lo \<le> r \<and> r \<le> hi, True), chunk, r, matched, some)
      \<in> measure (\<lambda>(chunk, _). length chunk)"
    using get_esc_shorter [of chunk lo rest] get_esc_shorter [of "tl rest" hi rest'] by auto
qed (auto dest: get_esc_shorter)

declare class_ranges.simps [simp del]

lemma class_ranges_shorter: "class_ranges chunk r m s = Some (b, rest) \<Longrightarrow> length rest \<le> length chunk"
proof (induction chunk r m s rule: class_ranges.induct)
  case (1 chunk r matched some)
  show ?case
  proof (cases "some \<and> chunk \<noteq> [] \<and> hd chunk = CHR '']''")
    case True
    with 1(3) show ?thesis by (subst (asm) class_ranges.simps) auto
  next
    case F: False
    with 1(3) obtain lo r1 where e: "get_esc chunk = Some (lo, r1)"
      by (subst (asm) class_ranges.simps) (auto split: option.splits)
    show ?thesis
    proof (cases "hd r1 = CHR ''-''")
      case T: True
      with 1(3) F e obtain hi r2 where e2: "get_esc (tl r1) = Some (hi, r2)"
        by (subst (asm) class_ranges.simps) (auto split: option.splits)
      with 1(3) F e T have "class_ranges r2 r (matched \<or> lo \<le> r \<and> r \<le> hi) True = Some (b, rest)"
        by (subst (asm) class_ranges.simps) simp
      then have "length rest \<le> length r2" using 1(1) [OF F e refl T e2 refl] by blast
      then show ?thesis using get_esc_shorter [OF e] get_esc_shorter [OF e2] by simp
    next
      case T: False
      with 1(3) F e have "class_ranges r1 r (matched \<or> lo = r) True = Some (b, rest)"
        by (subst (asm) class_ranges.simps) simp
      then have "length rest \<le> length r1" using 1(2) [OF F e refl T] by blast
      then show ?thesis using get_esc_shorter [OF e] by simp
    qed
  qed
qed

text \<open>A class after its opening bracket.\<close>

definition match_class :: "string \<Rightarrow> char \<Rightarrow> (bool \<times> string) option" where
  "match_class chunk r =
     (if chunk \<noteq> [] \<and> hd chunk = CHR ''^''
      then map_option (\<lambda>(m, rest). (\<not> m, rest)) (class_ranges (tl chunk) r False False)
      else class_ranges chunk r False False)"

lemma match_class_shorter: "match_class chunk r = Some (b, rest) \<Longrightarrow> length rest \<le> length chunk"
  by (auto simp: match_class_def split: if_splits dest!: class_ranges_shorter)

function path_Match :: "string \<Rightarrow> string \<Rightarrow> bool" where
  "path_Match [] name = (name = [])"
| "path_Match (p # ps) name =
     (if p = CHR ''*'' then
        path_Match ps name \<or>
        (case name of [] \<Rightarrow> False | c # name' \<Rightarrow> c \<noteq> CHR ''/'' \<and> path_Match (p # ps) name')
      else if p = CHR ''?'' then
        (case name of [] \<Rightarrow> False | c # name' \<Rightarrow> c \<noteq> CHR ''/'' \<and> path_Match ps name')
      else if p = CHR ''['' then
        (case name of [] \<Rightarrow> False
         | c # name' \<Rightarrow> (case match_class ps c of None \<Rightarrow> False
                        | Some (ok, rest) \<Rightarrow> ok \<and> path_Match rest name'))
      else if p = CHR 0x5C then
        (case ps of [] \<Rightarrow> False
         | q # qs \<Rightarrow> (case name of [] \<Rightarrow> False | c # name' \<Rightarrow> c = q \<and> path_Match qs name'))
      else (case name of [] \<Rightarrow> False | c # name' \<Rightarrow> c = p \<and> path_Match ps name'))"
  by pat_completeness auto
termination
  by (relation "measure (\<lambda>(p, n). length p + length n)") (auto dest: match_class_shorter)

declare path_Match.simps(2) [simp del]

text \<open>A pattern without special characters matches itself only.\<close>

lemma path_Match_plain:
  assumes "set pat \<inter> {CHR ''*'', CHR ''?'', CHR ''['', CHR 0x5C} = {}"
  shows "path_Match pat name \<longleftrightarrow> name = pat"
  using assms
proof (induction pat arbitrary: name)
  case (Cons p ps)
  then show ?case by (cases name) (auto simp: path_Match.simps(2))
qed simp

text \<open>A single star at the end matches any suffix without a slash.\<close>

lemma path_Match_star: "path_Match [CHR ''*''] name \<longleftrightarrow> CHR ''/'' \<notin> set name"
  by (induction name) (auto simp: path_Match.simps(2))

section \<open>The indices\<close>

record Indices =
  ix_tags :: TagIndex
  ix_byState :: "(string, string) revidx"
  ix_byProtocol :: "(string, string) revidx"
  ix_byHost :: "(string, string) revidx"

definition NewIndices :: Indices where
  "NewIndices = \<lparr>ix_tags = NewTagIndex, ix_byState = [], ix_byProtocol = [], ix_byHost = []\<rparr>"

definition Indices_Add ::
    "string \<Rightarrow> string \<Rightarrow> string \<Rightarrow> string \<Rightarrow> string list \<Rightarrow> Indices \<Rightarrow> Indices" where
  "Indices_Add i state protocol host tags idx =
     idx\<lparr>ix_byState := idx_add state i (ix_byState idx),
         ix_byProtocol := idx_add protocol i (ix_byProtocol idx),
         ix_byHost := idx_add host i (ix_byHost idx),
         ix_tags := TagIndex_Add i tags (ix_tags idx)\<rparr>"

definition Indices_Remove :: "string \<Rightarrow> string \<Rightarrow> string \<Rightarrow> string \<Rightarrow> Indices \<Rightarrow> Indices" where
  "Indices_Remove i state protocol host idx =
     idx\<lparr>ix_byState := idx_del state i (ix_byState idx),
         ix_byProtocol := idx_del protocol i (ix_byProtocol idx),
         ix_byHost := idx_del host i (ix_byHost idx),
         ix_tags := TagIndex_Remove i (ix_tags idx)\<rparr>"

definition UpdateState :: "string \<Rightarrow> string \<Rightarrow> string \<Rightarrow> Indices \<Rightarrow> Indices" where
  "UpdateState i oldState newState idx =
     (if oldState = newState then idx
      else idx\<lparr>ix_byState := idx_add newState i (idx_del oldState i (ix_byState idx))\<rparr>)"

definition Indices_UpdateTags ::
    "string \<Rightarrow> string list \<Rightarrow> string list \<Rightarrow> string list \<Rightarrow> Indices \<Rightarrow> string list \<times> Indices" where
  "Indices_UpdateTags i add remove setTags idx =
     (case UpdateTags i add remove setTags (ix_tags idx) of
        (ts, tags) \<Rightarrow> (ts, idx\<lparr>ix_tags := tags\<rparr>))"

definition QueryByState :: "Indices \<Rightarrow> string \<Rightarrow> StringSet" where
  "QueryByState idx state =
     (case map_of (ix_byState idx) state of Some s \<Rightarrow> ss_Clone s | None \<Rightarrow> NewStringSet)"

definition QueryByProtocol :: "Indices \<Rightarrow> string \<Rightarrow> StringSet" where
  "QueryByProtocol idx protocol =
     (case map_of (ix_byProtocol idx) protocol of Some s \<Rightarrow> ss_Clone s | None \<Rightarrow> NewStringSet)"

definition QueryByHost :: "Indices \<Rightarrow> string \<Rightarrow> StringSet" where
  "QueryByHost idx pattern =
     (if CHR ''*'' \<notin> set pattern \<and> CHR ''?'' \<notin> set pattern
      then (case map_of (ix_byHost idx) pattern of Some s \<Rightarrow> ss_Clone s | None \<Rightarrow> NewStringSet)
      else foldl (\<lambda>result (host, s). if path_Match pattern host
                    then foldl (\<lambda>result i. ss_Add i result) result s else result)
             NewStringSet (ix_byHost idx))"

definition QueryByTag :: "Indices \<Rightarrow> string \<Rightarrow> StringSet" where
  "QueryByTag idx tag = foldl (\<lambda>result i. ss_Add i result) NewStringSet (TagIndex_Query (ix_tags idx) tag)"

definition QueryByTags :: "Indices \<Rightarrow> string list \<Rightarrow> StringSet" where
  "QueryByTags idx tags =
     (if tags = [] then NewStringSet
      else foldl (\<lambda>result i. ss_Add i result) NewStringSet (QueryAND (ix_tags idx) tags))"

record Filter =
  f_Tags :: "string list"
  f_State :: string
  f_Protocol :: string
  f_Host :: string

definition Filter_IsEmpty :: "Filter \<Rightarrow> bool" where
  "Filter_IsEmpty f \<longleftrightarrow> f_Tags f = [] \<and> f_State f = [] \<and> f_Protocol f = [] \<and> f_Host f = []"

text \<open>
  \<open>result\<close> and \<open>initialized\<close> of \<open>Query\<close> are one option: \<open>None\<close> until \<open>apply\<close> saw a non-empty set.
\<close>

definition apply_set :: "StringSet \<Rightarrow> StringSet option \<Rightarrow> StringSet option" where
  "apply_set s result =
     (if s = [] then (case result of None \<Rightarrow> None | Some _ \<Rightarrow> Some NewStringSet)
      else (case result of None \<Rightarrow> Some s | Some r \<Rightarrow> Some (ss_Intersect r s)))"

text \<open>\<open>None\<close> is the nil set: the caller is to use all targets.\<close>

definition Indices_Query :: "Indices \<Rightarrow> Filter \<Rightarrow> StringSet option" where
  "Indices_Query idx f =
     (if Filter_IsEmpty f then None
      else (let r0 = None;
                r1 = (if f_State f \<noteq> [] then apply_set (QueryByState idx (f_State f)) r0 else r0);
                r2 = (if f_Protocol f \<noteq> [] then apply_set (QueryByProtocol idx (f_Protocol f)) r1 else r1);
                r3 = (if f_Tags f \<noteq> [] then apply_set (QueryByTags idx (f_Tags f)) r2 else r2)
            in if f_Host f \<noteq> [] then apply_set (QueryByHost idx (f_Host f)) r3 else r3))"

definition Indices_Stats :: "Indices \<Rightarrow> (string, nat) gomap" where
  "Indices_Stats idx =
     (let stats0 = [(''states'', length (ix_byState idx)), (''protocols'', length (ix_byProtocol idx)),
                    (''hosts'', length (ix_byHost idx))];
          stats1 = foldl (\<lambda>m (state, s). mput (''state_'' @ state) (ss_Len s) m) stats0 (ix_byState idx)
      in foldl (\<lambda>m (proto, s). mput (''protocol_'' @ proto) (ss_Len s) m) stats1 (ix_byProtocol idx))"

section \<open>The indices against the targets they index\<close>

text \<open>The reference: state, protocol, host and tags of every target that was added.\<close>

record TargetRef =
  tr_state :: string
  tr_protocol :: string
  tr_host :: string
  tr_tags :: "string list"

datatype ix_op =
    IxAdd string string string string "string list"
  | IxRemove string
  | IxUpdateState string string
  | IxUpdateTags string "string list" "string list" "string list"

text \<open>
  The caller's side of the contract: it adds a target it has not added, removes it and moves its
  state with the values it has. \<open>ix_do\<close> makes the call a caller that knows \<open>T\<close> makes.
\<close>

fun ix_legal :: "ix_op \<Rightarrow> (string \<Rightarrow> TargetRef option) \<Rightarrow> bool" where
  "ix_legal (IxAdd i st pr h ts) T = (T i = None)"
| "ix_legal (IxRemove i) T = (T i \<noteq> None)"
| "ix_legal (IxUpdateState i st) T = (T i \<noteq> None)"
| "ix_legal (IxUpdateTags i a r s) T = (T i \<noteq> None)"

fun ix_ref :: "ix_op \<Rightarrow> (string \<Rightarrow> TargetRef option) \<Rightarrow> string \<Rightarrow> TargetRef option" where
  "ix_ref (IxAdd i st pr h ts) T = T(i \<mapsto> \<lparr>tr_state = st, tr_protocol = pr, tr_host = h, tr_tags = ts\<rparr>)"
| "ix_ref (IxRemove i) T = T(i := None)"
| "ix_ref (IxUpdateState i st) T = T(i := map_option (\<lambda>r. r\<lparr>tr_state := st\<rparr>) (T i))"
| "ix_ref (IxUpdateTags i a r s) T =
     T(i := map_option (\<lambda>x. x\<lparr>tr_tags := sort (new_tags (tr_tags x) a r s)\<rparr>) (T i))"

fun ix_do :: "ix_op \<Rightarrow> (string \<Rightarrow> TargetRef option) \<Rightarrow> Indices \<Rightarrow> Indices" where
  "ix_do (IxAdd i st pr h ts) T idx = Indices_Add i st pr h ts idx"
| "ix_do (IxRemove i) T idx =
     (case T i of None \<Rightarrow> idx | Some r \<Rightarrow> Indices_Remove i (tr_state r) (tr_protocol r) (tr_host r) idx)"
| "ix_do (IxUpdateState i st) T idx =
     (case T i of None \<Rightarrow> idx | Some r \<Rightarrow> UpdateState i (tr_state r) st idx)"
| "ix_do (IxUpdateTags i a r s) T idx = snd (Indices_UpdateTags i a r s idx)"

inductive ix_reach :: "Indices \<Rightarrow> (string \<Rightarrow> TargetRef option) \<Rightarrow> bool" where
  new: "ix_reach NewIndices (\<lambda>_. None)"
| step: "ix_reach idx T \<Longrightarrow> ix_legal p T \<Longrightarrow> ix_reach (ix_do p T idx) (ix_ref p T)"

definition files_by :: "(TargetRef \<Rightarrow> string) \<Rightarrow> (string \<Rightarrow> TargetRef option) \<Rightarrow> string \<Rightarrow> string \<Rightarrow> bool" where
  "files_by f T k i \<longleftrightarrow> (\<exists>r. T i = Some r \<and> f r = k)"

definition ix_inv :: "Indices \<Rightarrow> (string \<Rightarrow> TargetRef option) \<Rightarrow> bool" where
  "ix_inv idx T \<longleftrightarrow>
     ridx.represents (ix_byState idx) (files_by tr_state T) \<and>
     ridx.represents (ix_byProtocol idx) (files_by tr_protocol T) \<and>
     ridx.represents (ix_byHost idx) (files_by tr_host T) \<and>
     tag_ok (ix_tags idx) \<and>
     (\<forall>i. GetTags (ix_tags idx) i = (case T i of None \<Rightarrow> [] | Some r \<Rightarrow> tr_tags r))"

lemma files_add:
  assumes "ridx.represents m (files_by f T)" "T i = None"
  shows "ridx.represents (idx_add (f r) i m) (files_by f (T(i \<mapsto> r)))"
proof -
  have "(\<lambda>k' v'. (k' = f r \<and> v' = i) \<or> files_by f T k' v') = files_by f (T(i \<mapsto> r))"
    using assms(2) by (auto simp: files_by_def fun_eq_iff)
  then show ?thesis using ridx.represents_add [OF assms(1), of "f r" i] by simp
qed

lemma files_del:
  assumes "ridx.represents m (files_by f T)" "T i = Some r"
  shows "ridx.represents (idx_del (f r) i m) (files_by f (T(i := None)))"
proof -
  have "(\<lambda>k' v'. \<not> (k' = f r \<and> v' = i) \<and> files_by f T k' v') = files_by f (T(i := None))"
    using assms(2) by (auto simp: files_by_def fun_eq_iff)
  then show ?thesis using ridx.represents_del [OF assms(1), of "f r" i] by simp
qed

lemma files_same:
  assumes "ridx.represents m (files_by f T)" "T i = Some r" "f r' = f r"
  shows "ridx.represents m (files_by f (T(i \<mapsto> r')))"
proof -
  have "files_by f (T(i \<mapsto> r')) = files_by f T" using assms(2,3) by (auto simp: files_by_def fun_eq_iff)
  with assms(1) show ?thesis by simp
qed

lemma ix_inv_tag_step:
  assumes "tag_ok t" "\<forall>i. GetTags t i = (case T i of None \<Rightarrow> [] | Some r \<Rightarrow> tr_tags r)"
  shows "tag_ok (tag_step p t)" "GetTags (tag_step p t) = tags_step p (\<lambda>i. case T i of None \<Rightarrow> [] | Some r \<Rightarrow> tr_tags r)"
  using tag_step_ok [OF assms(1), of p] assms(2) by (simp_all add: fun_eq_iff [symmetric])

lemma files_move:
  assumes "ridx.represents m (files_by f T)" "T i = Some r" "f r \<noteq> f r'"
  shows "ridx.represents (idx_add (f r') i (idx_del (f r) i m)) (files_by f (T(i \<mapsto> r')))"
  using files_add [where T = "T(i := None)" and i = i and r = r', OF files_del [OF assms(1,2)]] by simp

lemma ix_inv_tags:
  assumes "ix_inv idx T" "\<forall>j. (case T' j of None \<Rightarrow> [] | Some r \<Rightarrow> tr_tags r) =
      tags_step p (\<lambda>i. case T i of None \<Rightarrow> [] | Some r \<Rightarrow> tr_tags r) j"
  shows "tag_ok (tag_step p (ix_tags idx)) \<and>
    (\<forall>j. GetTags (tag_step p (ix_tags idx)) j = (case T' j of None \<Rightarrow> [] | Some r \<Rightarrow> tr_tags r))"
proof -
  have t: "tag_ok (ix_tags idx)"
    "\<forall>i. GetTags (ix_tags idx) i = (case T i of None \<Rightarrow> [] | Some r \<Rightarrow> tr_tags r)"
    using assms(1) by (simp_all add: ix_inv_def)
  show ?thesis using ix_inv_tag_step [OF t, of p] assms(2) by simp
qed

lemma ix_inv_new: "ix_inv NewIndices (\<lambda>_. None)"
  by (simp add: ix_inv_def NewIndices_def ridx.represents_def files_by_def tag_ok_New)
     (simp add: GetTags_def NewTagIndex_def)

lemma ix_inv_step:
  assumes "ix_inv idx T" "ix_legal p T"
  shows "ix_inv (ix_do p T idx) (ix_ref p T)"
proof (cases p)
  case (IxAdd i st pr h ts)
  let ?r = "\<lparr>tr_state = st, tr_protocol = pr, tr_host = h, tr_tags = ts\<rparr>"
  have none: "T i = None" using assms(2) IxAdd by simp
  have "tag_ok (tag_step (OpAdd i ts) (ix_tags idx)) \<and>
      (\<forall>j. GetTags (tag_step (OpAdd i ts) (ix_tags idx)) j =
        (case (T(i \<mapsto> ?r)) j of None \<Rightarrow> [] | Some r \<Rightarrow> tr_tags r))"
    by (rule ix_inv_tags [OF assms(1)]) simp
  then show ?thesis
    using assms(1) IxAdd files_add [where T = T and i = i and f = tr_state and r = ?r, OF _ none] files_add [where T = T and i = i and f = tr_protocol and r = ?r, OF _ none]
      files_add [where T = T and i = i and f = tr_host and r = ?r, OF _ none]
    by (simp add: ix_inv_def Indices_Add_def)
next
  case (IxRemove i)
  obtain r where r: "T i = Some r" using assms(2) IxRemove by auto
  have "tag_ok (tag_step (OpRemove i) (ix_tags idx)) \<and>
      (\<forall>j. GetTags (tag_step (OpRemove i) (ix_tags idx)) j =
        (case (T(i := None)) j of None \<Rightarrow> [] | Some r \<Rightarrow> tr_tags r))"
    by (rule ix_inv_tags [OF assms(1)]) simp
  then show ?thesis
    using assms(1) IxRemove r files_del [where T = T and i = i and f = tr_state, OF _ r] files_del [where T = T and i = i and f = tr_protocol, OF _ r]
      files_del [where T = T and i = i and f = tr_host, OF _ r]
    by (simp add: ix_inv_def Indices_Remove_def)
next
  case (IxUpdateState i st)
  obtain r where r: "T i = Some r" using assms(2) IxUpdateState by auto
  let ?r' = "r\<lparr>tr_state := st\<rparr>"
  have eq: "ix_ref p T = T(i \<mapsto> ?r')" by (simp add: IxUpdateState r)
  have tags: "GetTags (ix_tags idx) j = (case (T(i \<mapsto> ?r')) j of None \<Rightarrow> [] | Some r \<Rightarrow> tr_tags r)" for j
    using assms(1) r by (simp add: ix_inv_def)
  have st: "ridx.represents (ix_byState (UpdateState i (tr_state r) st idx)) (files_by tr_state (T(i \<mapsto> ?r')))"
  proof (cases "tr_state r = st")
    case True
    then show ?thesis using files_same [where T = T and i = i and f = tr_state and r' = ?r', OF _ r] assms(1)
      by (simp add: UpdateState_def ix_inv_def)
  next
    case False
    then show ?thesis using files_move [where T = T and i = i and f = tr_state and r' = ?r', OF _ r] assms(1)
      by (simp add: UpdateState_def ix_inv_def)
  qed
  have frame: "ix_byProtocol (UpdateState i (tr_state r) st idx) = ix_byProtocol idx"
    "ix_byHost (UpdateState i (tr_state r) st idx) = ix_byHost idx"
    "ix_tags (UpdateState i (tr_state r) st idx) = ix_tags idx"
    by (simp_all add: UpdateState_def)
  show ?thesis
    unfolding eq using st frame tags assms(1) files_same [where T = T and i = i and f = tr_protocol and r' = ?r', OF _ r]
      files_same [where T = T and i = i and f = tr_host and r' = ?r', OF _ r]
    by (simp add: ix_inv_def IxUpdateState r)
next
  case (IxUpdateTags i a rm s)
  obtain r where r: "T i = Some r" using assms(2) IxUpdateTags by auto
  let ?r' = "r\<lparr>tr_tags := sort (new_tags (tr_tags r) a rm s)\<rparr>"
  have eq: "ix_ref p T = T(i \<mapsto> ?r')" by (simp add: IxUpdateTags r)
  have tags: "tag_ok (tag_step (OpUpdate i a rm s) (ix_tags idx)) \<and>
      (\<forall>j. GetTags (tag_step (OpUpdate i a rm s) (ix_tags idx)) j =
        (case (T(i \<mapsto> ?r')) j of None \<Rightarrow> [] | Some r \<Rightarrow> tr_tags r))"
    by (rule ix_inv_tags [OF assms(1)]) (simp add: r)
  have tg: "ix_tags (ix_do p T idx) = tag_step (OpUpdate i a rm s) (ix_tags idx)"
    "ix_byState (ix_do p T idx) = ix_byState idx" "ix_byProtocol (ix_do p T idx) = ix_byProtocol idx"
    "ix_byHost (ix_do p T idx) = ix_byHost idx"
    by (simp_all add: IxUpdateTags Indices_UpdateTags_def split: prod.split)
  show ?thesis
    unfolding eq using tags tg assms(1) files_same [where T = T and i = i and f = tr_state and r' = ?r', OF _ r]
      files_same [where T = T and i = i and f = tr_protocol and r' = ?r', OF _ r] files_same [where T = T and i = i and f = tr_host and r' = ?r', OF _ r]
    by (simp add: ix_inv_def)
qed

lemma ix_reach_inv: "ix_reach idx T \<Longrightarrow> ix_inv idx T"
  by (induction rule: ix_reach.induct) (auto intro: ix_inv_new ix_inv_step)

section \<open>What the queries answer\<close>

lemma clone_lookup:
  "set (case map_of m k of Some s \<Rightarrow> ss_Clone s | None \<Rightarrow> NewStringSet) = {i. idx_has m k i}"
  by (auto simp: idx_has_def idx_get_def NewStringSet_def split: option.splits)

lemma rep_has: "ridx.represents m R \<Longrightarrow> idx_has m k i \<longleftrightarrow> R k i"
  by (simp add: ridx.represents_def)

lemma set_foldl_host:
  "set (foldl (\<lambda>result (host, s). if P host then foldl (\<lambda>result i. ss_Add i result) result s else result) r m) =
   set r \<union> {i. \<exists>(host, s) \<in> set m. P host \<and> i \<in> set s}"
  by (induction m arbitrary: r) (auto simp: set_foldl_Add)

text \<open>The host pattern of a filter: without \<open>*\<close> and \<open>?\<close> it is taken literally.\<close>

definition host_matches :: "string \<Rightarrow> string \<Rightarrow> bool" where
  "host_matches pattern host \<longleftrightarrow>
     (if CHR ''*'' \<notin> set pattern \<and> CHR ''?'' \<notin> set pattern then host = pattern
      else path_Match pattern host)"

lemma query_sets:
  assumes "ix_inv idx T"
  shows "set (QueryByState idx st) = {i. \<exists>r. T i = Some r \<and> tr_state r = st}"
    "set (QueryByProtocol idx pr) = {i. \<exists>r. T i = Some r \<and> tr_protocol r = pr}"
    "set (QueryByHost idx pat) = {i. \<exists>r. T i = Some r \<and> host_matches pat (tr_host r)}"
    "set (QueryByTag idx tag) = {i. \<exists>r. T i = Some r \<and> (\<exists>t \<in> set (tr_tags r). under tag t)}"
proof -
  note inv = assms [unfolded ix_inv_def]
  show "set (QueryByState idx st) = {i. \<exists>r. T i = Some r \<and> tr_state r = st}"
    unfolding QueryByState_def clone_lookup using inv by (auto simp: rep_has files_by_def)
  show "set (QueryByProtocol idx pr) = {i. \<exists>r. T i = Some r \<and> tr_protocol r = pr}"
    unfolding QueryByProtocol_def clone_lookup using inv by (auto simp: rep_has files_by_def)
  have ok: "gomap_ok (ix_byHost idx)" using inv by (simp add: ridx.represents_def idx_ok_def)
  have host: "(\<exists>(h, s) \<in> set (ix_byHost idx). P h \<and> i \<in> set s) \<longleftrightarrow> (\<exists>r. T i = Some r \<and> P (tr_host r))" for P i
  proof -
    have "(\<exists>(h, s) \<in> set (ix_byHost idx). P h \<and> i \<in> set s) \<longleftrightarrow> (\<exists>h. P h \<and> idx_has (ix_byHost idx) h i)"
    proof
      assume "\<exists>(h, s) \<in> set (ix_byHost idx). P h \<and> i \<in> set s"
      then obtain h s where "map_of (ix_byHost idx) h = Some s" "P h" "i \<in> set s"
        using gomap_in_set [OF ok] by auto
      then show "\<exists>h. P h \<and> idx_has (ix_byHost idx) h i" by (auto simp: idx_has_def idx_get_def)
    next
      assume "\<exists>h. P h \<and> idx_has (ix_byHost idx) h i"
      then obtain h where "P h" "i \<in> set (idx_get h (ix_byHost idx))" by (auto simp: idx_has_def)
      then obtain s where "map_of (ix_byHost idx) h = Some s" "i \<in> set s" "P h"
        by (cases "map_of (ix_byHost idx) h") (auto simp: idx_get_def)
      then show "\<exists>(h, s) \<in> set (ix_byHost idx). P h \<and> i \<in> set s"
        using map_of_SomeD by fastforce
    qed
    then show ?thesis using inv by (auto simp: rep_has files_by_def)
  qed
  show "set (QueryByHost idx pat) = {i. \<exists>r. T i = Some r \<and> host_matches pat (tr_host r)}"
  proof (cases "CHR ''*'' \<notin> set pat \<and> CHR ''?'' \<notin> set pat")
    case True
    then have "set (QueryByHost idx pat) = {i. idx_has (ix_byHost idx) pat i}"
      unfolding QueryByHost_def by (simp only: simp_thms if_True clone_lookup)
    then show ?thesis using True inv by (auto simp: rep_has files_by_def host_matches_def)
  next
    case False
    then show ?thesis
      unfolding QueryByHost_def host_matches_def if_not_P [OF False] set_foldl_host host
      by (simp add: NewStringSet_def)
  qed
  show "set (QueryByTag idx tag) = {i. \<exists>r. T i = Some r \<and> (\<exists>t \<in> set (tr_tags r). under tag t)}"
  proof -
    have "set (QueryByTag idx tag) = {i. \<exists>t \<in> set (GetTags (ix_tags idx) i). under tag t}"
      unfolding QueryByTag_def using inv query_spec(1) [of "ix_tags idx" tag]
      by (simp add: set_foldl_Add NewStringSet_def)
    moreover have "(\<exists>t \<in> set (GetTags (ix_tags idx) i). under tag t) \<longleftrightarrow>
        (\<exists>r. T i = Some r \<and> (\<exists>t \<in> set (tr_tags r). under tag t))" for i
      using inv by (cases "T i") simp_all
    ultimately show ?thesis by simp
  qed
qed

text \<open>C23: as long as a caller adds a target once and removes it or moves its state with the values it
  has, each single query gives exactly the targets that match.\<close>

theorem index_queries_exact:
  assumes "ix_reach idx T"
  shows "set (QueryByState idx st) = {i. \<exists>r. T i = Some r \<and> tr_state r = st} \<and>
    set (QueryByProtocol idx pr) = {i. \<exists>r. T i = Some r \<and> tr_protocol r = pr} \<and>
    set (QueryByHost idx pat) = {i. \<exists>r. T i = Some r \<and> host_matches pat (tr_host r)} \<and>
    set (QueryByTag idx tag) = {i. \<exists>r. T i = Some r \<and> (\<exists>t \<in> set (tr_tags r). under tag t)}"
  using query_sets [OF ix_reach_inv [OF assms]] by blast

definition ex_ix :: Indices where
  "ex_ix = Indices_Add ''r2'' ''down'' ''http'' ''10.0.1.1'' [''dc2'']
     (Indices_Add ''r1'' ''up'' ''snmp'' ''10.0.0.1'' [''dc1/row2''] NewIndices)"

definition ex_ix_ref :: "string \<Rightarrow> TargetRef option" where
  "ex_ix_ref = (\<lambda>_. None)(''r1'' \<mapsto> \<lparr>tr_state = ''up'', tr_protocol = ''snmp'', tr_host = ''10.0.0.1'',
       tr_tags = [''dc1/row2'']\<rparr>,
     ''r2'' \<mapsto> \<lparr>tr_state = ''down'', tr_protocol = ''http'', tr_host = ''10.0.1.1'', tr_tags = [''dc2'']\<rparr>)"

lemma ex_ix_reach: "ix_reach ex_ix ex_ix_ref"
proof -
  let ?p = "IxAdd ''r1'' ''up'' ''snmp'' ''10.0.0.1'' [''dc1/row2'']"
  let ?q = "IxAdd ''r2'' ''down'' ''http'' ''10.0.1.1'' [''dc2'']"
  have "ix_reach (ix_do ?p (\<lambda>_. None) NewIndices) (ix_ref ?p (\<lambda>_. None))"
    by (rule ix_reach.step [OF ix_reach.new]) simp
  then have "ix_reach (ix_do ?q (ix_ref ?p (\<lambda>_. None)) (ix_do ?p (\<lambda>_. None) NewIndices))
      (ix_ref ?q (ix_ref ?p (\<lambda>_. None)))"
    by (rule ix_reach.step) simp
  then show ?thesis by (simp add: ex_ix_def ex_ix_ref_def)
qed

lemma index_queries_exact_witness:
  "set (QueryByHost ex_ix ''10.0.0.*'') = {i. \<exists>r. ex_ix_ref i = Some r \<and> host_matches ''10.0.0.*'' (tr_host r)}"
  using index_queries_exact [OF ex_ix_reach] by blast

section \<open>The combined filter\<close>

definition filter_sets :: "Indices \<Rightarrow> Filter \<Rightarrow> StringSet list" where
  "filter_sets idx f =
     (if f_State f \<noteq> [] then [QueryByState idx (f_State f)] else []) @
     (if f_Protocol f \<noteq> [] then [QueryByProtocol idx (f_Protocol f)] else []) @
     (if f_Tags f \<noteq> [] then [QueryByTags idx (f_Tags f)] else []) @
     (if f_Host f \<noteq> [] then [QueryByHost idx (f_Host f)] else [])"

text \<open>What \<open>apply\<close> makes of the sets of the given criteria: the empty ones at the front are skipped.\<close>

definition combine :: "StringSet list \<Rightarrow> string set option" where
  "combine sets = (case dropWhile (\<lambda>s. s = []) sets of [] \<Rightarrow> None
     | s # ss \<Rightarrow> Some (set s \<inter> (\<Inter>x \<in> set ss. set x)))"

lemma Query_fold: "Indices_Query idx f = foldl (\<lambda>r s. apply_set s r) None (filter_sets idx f)"
  by (simp add: Indices_Query_def filter_sets_def Filter_IsEmpty_def Let_def)

lemma apply_Some: "\<exists>r'. apply_set s (Some r) = Some r' \<and> set r' = set r \<inter> set s"
  by (simp add: apply_set_def NewStringSet_def)

lemma foldl_apply_Some:
  "\<exists>r'. foldl (\<lambda>r s. apply_set s r) (Some r) ss = Some r' \<and> set r' = set r \<inter> (\<Inter>x \<in> set ss. set x)"
proof (induction ss arbitrary: r)
  case (Cons s ss)
  obtain r1 where r1: "apply_set s (Some r) = Some r1" "set r1 = set r \<inter> set s"
    using apply_Some by blast
  obtain r2 where "foldl (\<lambda>r s. apply_set s r) (Some r1) ss = Some r2"
    "set r2 = set r1 \<inter> (\<Inter>x \<in> set ss. set x)"
    using Cons.IH by blast
  with r1 show ?case by auto
qed simp

lemma foldl_apply_combine: "map_option set (foldl (\<lambda>r s. apply_set s r) None ss) = combine ss"
proof (induction ss)
  case Nil
  show ?case by (simp add: combine_def)
next
  case (Cons s ss)
  show ?case
  proof (cases "s = []")
    case True
    then show ?thesis using Cons by (simp add: apply_set_def combine_def)
  next
    case False
    then have "foldl (\<lambda>r s. apply_set s r) None (s # ss) = foldl (\<lambda>r s. apply_set s r) (Some s) ss"
      by (simp add: apply_set_def)
    then show ?thesis using foldl_apply_Some [of s ss] False by (auto simp: combine_def)
  qed
qed

lemma in_filter_sets:
  "i \<in> (\<Inter>s \<in> set (filter_sets idx f). set s) \<longleftrightarrow>
     (f_State f \<noteq> [] \<longrightarrow> i \<in> set (QueryByState idx (f_State f))) \<and>
     (f_Protocol f \<noteq> [] \<longrightarrow> i \<in> set (QueryByProtocol idx (f_Protocol f))) \<and>
     (f_Tags f \<noteq> [] \<longrightarrow> i \<in> set (QueryByTags idx (f_Tags f))) \<and>
     (f_Host f \<noteq> [] \<longrightarrow> i \<in> set (QueryByHost idx (f_Host f)))"
  unfolding filter_sets_def by auto

text \<open>What a filter asks for.\<close>

definition matches :: "Filter \<Rightarrow> TargetRef \<Rightarrow> bool" where
  "matches f r \<longleftrightarrow>
     (f_State f \<noteq> [] \<longrightarrow> tr_state r = f_State f) \<and>
     (f_Protocol f \<noteq> [] \<longrightarrow> tr_protocol r = f_Protocol f) \<and>
     (\<forall>tag \<in> set (f_Tags f). \<exists>t \<in> set (tr_tags r). under tag t) \<and>
     (f_Host f \<noteq> [] \<longrightarrow> host_matches (f_Host f) (tr_host r))"

lemma QueryAND_spec:
  assumes "tag_ok t" "tags \<noteq> []"
  shows "set (QueryAND t tags) = {i. \<forall>tag \<in> set tags. \<exists>u \<in> set (GetTags t i). under tag u}"
proof -
  obtain tag0 rest where tags: "tags = tag0 # rest" using assms(2) by (cases tags) auto
  define s where "s = pick_smallest t tag0 rest"
  have s: "s \<in> set tags" using pick_smallest_in [of t tag0 rest] by (simp add: s_def tags)
  have "set (QueryAND t tags) = {i \<in> set (idx_get s (ti_tagToTargets t)).
      list_all (\<lambda>tag. idx_has (ti_tagToTargets t) tag i) tags}"
    unfolding QueryAND_def tags list.case Let_def s_def [symmetric] by simp
  also have "\<dots> = {i. \<forall>tag \<in> set tags. idx_has (ti_tagToTargets t) tag i}"
    using s by (auto simp: list_all_iff idx_has_def)
  finally show ?thesis unfolding tag_ok_has [OF assms(1)] .
qed

lemma QueryByTags_set:
  assumes "ix_inv idx T" "tags \<noteq> []"
  shows "set (QueryByTags idx tags) =
    {i. \<exists>r. T i = Some r \<and> (\<forall>tag \<in> set tags. \<exists>t \<in> set (tr_tags r). under tag t)}"
proof -
  note inv = assms(1) [unfolded ix_inv_def]
  have "set (QueryByTags idx tags) = {i. \<forall>tag \<in> set tags. \<exists>u \<in> set (GetTags (ix_tags idx) i). under tag u}"
    using assms(2) inv QueryAND_spec [of "ix_tags idx" tags]
    by (simp add: QueryByTags_def set_foldl_Add NewStringSet_def)
  moreover have "(\<forall>tag \<in> set tags. \<exists>u \<in> set (GetTags (ix_tags idx) i). under tag u) \<longleftrightarrow>
      (\<exists>r. T i = Some r \<and> (\<forall>tag \<in> set tags. \<exists>t \<in> set (tr_tags r). under tag t))" for i
    using inv assms(2) by (cases "T i") (auto simp: neq_Nil_conv)
  ultimately show ?thesis by simp
qed

text \<open>C24: when every criterion of a filter matches some target, \<open>Query\<close> gives exactly the targets that
  meet all of them.\<close>

theorem query_filter_exact:
  assumes "ix_reach idx T" "\<not> Filter_IsEmpty f" "\<forall>s \<in> set (filter_sets idx f). s \<noteq> []"
  shows "\<exists>s. Indices_Query idx f = Some s \<and> set s = {i. \<exists>r. T i = Some r \<and> matches f r}"
proof -
  have inv: "ix_inv idx T" by (rule ix_reach_inv [OF assms(1)])
  have ne: "filter_sets idx f \<noteq> []" using assms(2) by (auto simp: filter_sets_def Filter_IsEmpty_def)
  then obtain s0 ss where ss: "filter_sets idx f = s0 # ss" by (cases "filter_sets idx f") auto
  have "combine (filter_sets idx f) = Some (\<Inter>s \<in> set (filter_sets idx f). set s)"
    using assms(3) unfolding ss combine_def by simp
  then obtain s where s: "Indices_Query idx f = Some s" "set s = (\<Inter>s \<in> set (filter_sets idx f). set s)"
    using foldl_apply_combine [of "filter_sets idx f"] unfolding Query_fold [symmetric] by auto
  have "i \<in> (\<Inter>s \<in> set (filter_sets idx f). set s) \<longleftrightarrow> (\<exists>r. T i = Some r \<and> matches f r)" for i
  proof (cases "T i")
    case None
    have "i \<notin> set s0"
      using ss None query_sets [OF inv] QueryByTags_set [OF inv]
      by (auto simp: filter_sets_def split: if_splits)
    then show ?thesis using None ss by auto
  next
    case (Some r)
    have "i \<in> set (QueryByTags idx (f_Tags f)) \<longleftrightarrow>
        (\<forall>tag \<in> set (f_Tags f). \<exists>t \<in> set (tr_tags r). under tag t)" if "f_Tags f \<noteq> []"
      unfolding QueryByTags_set [OF inv that] using Some by simp
    moreover have "i \<in> set (QueryByState idx (f_State f)) \<longleftrightarrow> tr_state r = f_State f"
      "i \<in> set (QueryByProtocol idx (f_Protocol f)) \<longleftrightarrow> tr_protocol r = f_Protocol f"
      "i \<in> set (QueryByHost idx (f_Host f)) \<longleftrightarrow> host_matches (f_Host f) (tr_host r)"
      unfolding query_sets [OF inv] using Some by simp_all
    ultimately show ?thesis
      using Some unfolding in_filter_sets matches_def by (cases "f_Tags f = []") simp_all
  qed
  then have "(\<Inter>s \<in> set (filter_sets idx f). set s) = {i. \<exists>r. T i = Some r \<and> matches f r}" by blast
  with s show ?thesis by auto
qed

lemma query_filter_exact_witness:
  "\<exists>s. Indices_Query ex_ix \<lparr>f_Tags = [''dc1''], f_State = ''up'', f_Protocol = [], f_Host = ''10.*''\<rparr> = Some s \<and>
     set s = {i. \<exists>r. ex_ix_ref i = Some r \<and>
       matches \<lparr>f_Tags = [''dc1''], f_State = ''up'', f_Protocol = [], f_Host = ''10.*''\<rparr> r}"
proof -
  let ?f = "\<lparr>f_Tags = [''dc1''], f_State = ''up'', f_Protocol = [], f_Host = ''10.*''\<rparr>"
  have "list_all (\<lambda>s. s \<noteq> []) (filter_sets ex_ix ?f)" by code_simp
  then have "\<forall>s \<in> set (filter_sets ex_ix ?f). s \<noteq> []" by (simp add: list_all_iff)
  moreover have "\<not> Filter_IsEmpty ?f" by (simp add: Filter_IsEmpty_def)
  ultimately show ?thesis using query_filter_exact [OF ex_ix_reach] by blast
qed

text \<open>A criterion that matches no target and comes before all that do is ignored: the result is
  that of the other criteria, and a filter that matches nothing at all gives nil, the value that
  stands for all targets.\<close>

theorem query_ignores_leading_empty:
  "(case Indices_Query idx f of None \<Rightarrow> concat (filter_sets idx f) = []
     | Some r \<Rightarrow> \<exists>s ss. dropWhile (\<lambda>s. s = []) (filter_sets idx f) = s # ss \<and>
         set r = set s \<inter> (\<Inter>x \<in> set ss. set x)) \<and>
   Indices_Query ex_ix \<lparr>f_Tags = [], f_State = ''gone'', f_Protocol = ''snmp'', f_Host = []\<rparr> = Some [''r1''] \<and>
   Indices_Query ex_ix \<lparr>f_Tags = [], f_State = ''gone'', f_Protocol = [], f_Host = []\<rparr> = None"
proof (intro conjI)
  have c: "map_option set (Indices_Query idx f) = combine (filter_sets idx f)"
    unfolding Query_fold by (rule foldl_apply_combine)
  show "case Indices_Query idx f of None \<Rightarrow> concat (filter_sets idx f) = []
     | Some r \<Rightarrow> \<exists>s ss. dropWhile (\<lambda>s. s = []) (filter_sets idx f) = s # ss \<and>
         set r = set s \<inter> (\<Inter>x \<in> set ss. set x)"
  proof (cases "dropWhile (\<lambda>s. s = []) (filter_sets idx f)")
    case Nil
    have "map_option set (Indices_Query idx f) = None"
      using c unfolding combine_def Nil by (simp only: list.case)
    then have "Indices_Query idx f = None" by simp
    with Nil show ?thesis by (simp add: dropWhile_eq_Nil_conv)
  next
    case (Cons s ss)
    then obtain r where "Indices_Query idx f = Some r" "set r = set s \<inter> (\<Inter>x \<in> set ss. set x)"
      using c by (auto simp: combine_def)
    with Cons show ?thesis by simp
  qed
qed code_simp+

end
