(* ===== verification/PollerMgr.thy ===== *)
theory PollerMgr
  imports EntityCaches Sync ConfigResolver RevIndex
begin

text \<open>
  The poller manager of internal/manager/poller.go: the cache of pollers with its two indices, the
  admin and operational commands, and the callbacks that tell the scheduler.

  The record has the fields of the Go struct; the store, the state and statistics managers and the
  config resolver it points to are fields too. A call of a callback is recorded in \<open>pm_calls\<close>; \<open>SetCallbacks\<close>
  sets all three, so one flag says whether they are there. A method takes the record and returns
  its result and the record. The times it reads the clock at are arguments.
\<close>

datatype sched_call =
    PollerCreated string string string "32 word"
  | PollerDeleted string string string
  | PollerUpdated string string string "32 word"

record PollerManager =
  pm_store :: Store
  pm_states :: StateManager
  pm_stats :: StatsManager
  pm_resolver :: ConfigResolver
  pm_pollers :: "(string, Poller) gomap"
  pm_byNamespace :: "(string, string) revidx"
  pm_byTarget :: "(string, string) revidx"
  pm_wired :: bool
  pm_calls :: "sched_call list"

definition NewPollerManager :: "Store \<Rightarrow> StateManager \<Rightarrow> StatsManager \<Rightarrow> ConfigResolver \<Rightarrow> PollerManager" where
  "NewPollerManager s stateMgr statsMgr cfgResolver =
     \<lparr>pm_store = s, pm_states = stateMgr, pm_stats = statsMgr, pm_resolver = cfgResolver,
      pm_pollers = [], pm_byNamespace = [], pm_byTarget = [], pm_wired = False, pm_calls = []\<rparr>"

definition pollerKey :: "string \<Rightarrow> string \<Rightarrow> string \<Rightarrow> string" where
  "pollerKey namespace target name = namespace @ ''/'' @ target @ ''/'' @ name"

definition SetCallbacks :: "PollerManager \<Rightarrow> PollerManager" where
  "SetCallbacks m = m\<lparr>pm_wired := True\<rparr>"

definition call_back :: "sched_call \<Rightarrow> PollerManager \<Rightarrow> PollerManager" where
  "call_back c m = (if pm_wired m then m\<lparr>pm_calls := pm_calls m @ [c]\<rparr> else m)"

text \<open>A store method on the manager's store.\<close>

definition on_store :: "'a sql \<Rightarrow> PollerManager \<Rightarrow> 'a go \<times> PollerManager" where
  "on_store f m = (case f (pm_store m) of (r, s) \<Rightarrow> (r, m\<lparr>pm_store := s\<rparr>))"

section \<open>Indices\<close>

definition addToIndexes :: "string \<Rightarrow> string \<Rightarrow> string \<Rightarrow> PollerManager \<Rightarrow> PollerManager" where
  "addToIndexes namespace target key m =
     m\<lparr>pm_byNamespace := idx_add namespace key (pm_byNamespace m),
       pm_byTarget := idx_add (namespace @ ''/'' @ target) key (pm_byTarget m)\<rparr>"

definition removeFromIndexes :: "string \<Rightarrow> string \<Rightarrow> string \<Rightarrow> PollerManager \<Rightarrow> PollerManager" where
  "removeFromIndexes namespace target key m =
     m\<lparr>pm_byNamespace := idx_del namespace key (pm_byNamespace m),
       pm_byTarget := idx_del (namespace @ ''/'' @ target) key (pm_byTarget m)\<rparr>"

section \<open>Loading\<close>

abbreviation poller_id_of :: "Poller \<Rightarrow> poller_id" where
  "poller_id_of p \<equiv> (p_Namespace p, p_Target p, p_Name p)"

definition restore_state :: "Poller \<Rightarrow> StateRow \<Rightarrow> PollerState \<Rightarrow> PollerState" where
  "restore_state p r ps =
     ps\<lparr>ps_AdminState := p_AdminState p, ps_OperState := sr_OperState r,
        ps_HealthState := sr_HealthState r, ps_LastError := sr_LastError r,
        ps_ConsecutiveFailures := sr_ConsecutiveFailures r, ps_LastPollAt := sr_LastPollAt r,
        ps_LastSuccessAt := sr_LastSuccessAt r, ps_LastFailureAt := sr_LastFailureAt r\<rparr>"

definition restore_stats :: "StatsRow \<Rightarrow> PollerStats \<Rightarrow> PollerStats" where
  "restore_stats r ps =
     ps\<lparr>st_PollsTotal := tr_PollsTotal r, st_PollsSuccess := tr_PollsSuccess r,
        st_PollsFailed := tr_PollsFailed r, st_PollsTimeout := tr_PollsTimeout r\<rparr>"

text \<open>One turn of the loop: cache, indices, then state and statistics, whose errors are skipped.\<close>

definition load_poller :: "Poller \<Rightarrow> PollerManager \<Rightarrow> PollerManager" where
  "load_poller p m0 =
     (let key = pollerKey (p_Namespace p) (p_Target p) (p_Name p);
          m1 = addToIndexes (p_Namespace p) (p_Target p) key (m0\<lparr>pm_pollers := mput key p (pm_pollers m0)\<rparr>);
          (state, m2) = on_store (GetPollerState (p_Namespace p) (p_Target p) (p_Name p)) m1;
          m3 = (case state of
                  Inr (Some r) \<Rightarrow> m2\<lparr>pm_states := with_state (poller_id_of p) (restore_state p r) (pm_states m2)\<rparr>
                | _ \<Rightarrow> m2);
          (stats, m4) = on_store (GetPollerStats (p_Namespace p) (p_Target p) (p_Name p)) m3
      in case stats of
           Inr (Some r) \<Rightarrow> m4\<lparr>pm_stats := with_stats (poller_id_of p) (restore_stats r) (pm_stats m4)\<rparr>
         | _ \<Rightarrow> m4)"

definition pm_Load :: "PollerManager \<Rightarrow> unit go \<times> PollerManager" where
  "pm_Load m =
     (case on_store ListAllPollers m of
        (Inl err, m') \<Rightarrow> (Inl err, m')
      | (Inr pollers, m') \<Rightarrow>
          (Inr (), foldl (\<lambda>m p. load_poller p m)
             (m'\<lparr>pm_pollers := [], pm_byNamespace := [], pm_byTarget := []\<rparr>) pollers))"

section \<open>Create, look up, list\<close>

definition pm_Create :: "int \<Rightarrow> Poller \<Rightarrow> PollerManager \<Rightarrow> Poller go \<times> PollerManager" where
  "pm_Create now p0 m =
     (let key = pollerKey (p_Namespace p0) (p_Target p0) (p_Name p0) in
      if map_of (pm_pollers m) key \<noteq> None
      then (Inl (Errorf (''poller already exists: '' @ key)), m)
      else if \<not> isValidName (p_Name p0)
      then (Inl (Errorf (''invalid poller name: '' @ p_Name p0)), m)
      else
        (let p = (if p_AdminState p0 = [] then p0\<lparr>p_AdminState := AdminStateDisabled\<rparr> else p0) in
         case on_store (CreatePoller now p) m of
           (Inl err, m') \<Rightarrow> (Inl err, m')
         | (Inr p', m') \<Rightarrow>
             (let m1 = addToIndexes (p_Namespace p') (p_Target p') key
                         (m'\<lparr>pm_pollers := mput key p' (pm_pollers m')\<rparr>);
                  m2 = m1\<lparr>pm_states := with_state (poller_id_of p')
                            (\<lambda>st. st\<lparr>ps_AdminState := p_AdminState p'\<rparr>) (pm_states m1)\<rparr>
              in (Inr p', m2\<lparr>pm_stats := snd (StatsManager_Get (pm_stats m2) (poller_id_of p'))\<rparr>))))"

text \<open>The miss path fills the cache and not the indices.\<close>

definition pm_Get :: "string \<Rightarrow> string \<Rightarrow> string \<Rightarrow> PollerManager \<Rightarrow> Poller option go \<times> PollerManager" where
  "pm_Get namespace target name m =
     (let key = pollerKey namespace target name in
      case map_of (pm_pollers m) key of
        Some p \<Rightarrow> (Inr (Some p), m)
      | None \<Rightarrow>
          (case on_store (GetPoller namespace target name) m of
             (Inl err, m') \<Rightarrow> (Inl err, m')
           | (Inr None, m') \<Rightarrow> (Inr None, m')
           | (Inr (Some p), m') \<Rightarrow> (Inr (Some p), m'\<lparr>pm_pollers := mput key p (pm_pollers m')\<rparr>)))"

definition cached_of :: "PollerManager \<Rightarrow> string list \<Rightarrow> Poller list" where
  "cached_of m keys = List.map_filter (\<lambda>key. map_of (pm_pollers m) key) keys"

definition pm_List :: "string \<Rightarrow> string \<Rightarrow> PollerManager \<Rightarrow> Poller list" where
  "pm_List namespace target m =
     (case map_of (pm_byTarget m) (namespace @ ''/'' @ target) of
        None \<Rightarrow> [] | Some keys \<Rightarrow> cached_of m keys)"

definition pm_ListInNamespace :: "string \<Rightarrow> PollerManager \<Rightarrow> Poller list" where
  "pm_ListInNamespace namespace m =
     (case map_of (pm_byNamespace m) namespace of None \<Rightarrow> [] | Some keys \<Rightarrow> cached_of m keys)"

section \<open>Update and delete\<close>

definition getEffectiveInterval :: "int \<Rightarrow> int \<Rightarrow> Poller \<Rightarrow> PollerManager \<Rightarrow> 32 word \<times> PollerManager" where
  "getEffectiveInterval now now' p m =
     (case (case p_PollingConfig p of None \<Rightarrow> None | Some c \<Rightarrow> pc_IntervalMs c) of
        Some i \<Rightarrow> (i, m)
      | None \<Rightarrow>
          (case Resolve now now' (p_Namespace p) (p_Target p) (p_Name p) (pm_resolver m) (pm_store m) of
             (r, res, s) \<Rightarrow>
               ((case r of Inr cfg \<Rightarrow> rc_IntervalMs cfg | Inl _ \<Rightarrow> 1000),
                m\<lparr>pm_resolver := res, pm_store := s\<rparr>)))"

definition pm_Update :: "int \<Rightarrow> int \<Rightarrow> Poller \<Rightarrow> PollerManager \<Rightarrow> Poller go \<times> PollerManager" where
  "pm_Update now now' p0 m =
     (let key = pollerKey (p_Namespace p0) (p_Target p0) (p_Name p0) in
      case map_of (pm_pollers m) key of
        None \<Rightarrow> (Inl (Errorf (''poller not found: '' @ key)), m)
      | Some existing \<Rightarrow>
          (let p = p0\<lparr>p_Version := p_Version existing\<rparr>;
               (oldInterval, m1) = getEffectiveInterval now now' existing m
           in case on_store (UpdatePoller now now' p) m1 of
                (Inl err, m2) \<Rightarrow> (Inl err, m2)
              | (Inr p', m2) \<Rightarrow>
                  (let m3 = m2\<lparr>pm_pollers := mput key p' (pm_pollers m2)\<rparr>;
                       (newInterval, m4) = getEffectiveInterval now now' p' m3
                   in (Inr p', if oldInterval \<noteq> newInterval
                               then call_back (PollerUpdated (p_Namespace p') (p_Target p') (p_Name p') newInterval) m4
                               else m4))))"

definition pm_Delete :: "string \<Rightarrow> string \<Rightarrow> string \<Rightarrow> PollerManager \<Rightarrow> nat go \<times> PollerManager" where
  "pm_Delete namespace target name m =
     (let key = pollerKey namespace target name in
      case map_of (pm_pollers m) key of
        None \<Rightarrow> (Inl (Errorf (''poller not found: '' @ key)), m)
      | Some _ \<Rightarrow>
          (case on_store (DeletePoller namespace target name)
                  (call_back (PollerDeleted namespace target name) m) of
             (Inl err, m1) \<Rightarrow> (Inl err, m1)
           | (Inr linksDeleted, m1) \<Rightarrow>
               (let m2 = removeFromIndexes namespace target key (m1\<lparr>pm_pollers := mdel key (pm_pollers m1)\<rparr>)
                in (Inr linksDeleted,
                    m2\<lparr>pm_states := StateManager_Remove (pm_states m2) (namespace, target, name),
                       pm_stats := StatsManager_Remove (pm_stats m2) (namespace, target, name),
                       pm_resolver := Invalidate namespace target name (pm_resolver m2)\<rparr>))))"

section \<open>Commands\<close>

text \<open>The method of a poller's state, run on the entry of the state manager.\<close>

definition on_state :: "poller_id \<Rightarrow> (PollerState \<Rightarrow> PollerState go) \<Rightarrow> PollerManager \<Rightarrow> unit go \<times> PollerManager" where
  "on_state q f m =
     (case StateManager_Get (pm_states m) q of (st, sts) \<Rightarrow>
       case f st of
         Inl err \<Rightarrow> (Inl err, m\<lparr>pm_states := sts\<rparr>)
       | Inr st' \<Rightarrow> (Inr (), m\<lparr>pm_states := mput (state_key q) st' sts\<rparr>))"

text \<open>\<open>Enable\<close> and \<open>Disable\<close> set the admin state of the cached poller, then of the row, then of the
  state.\<close>

definition set_admin ::
    "int \<Rightarrow> string \<Rightarrow> (PollerState \<Rightarrow> PollerState go) \<Rightarrow> string \<Rightarrow> string \<Rightarrow> string \<Rightarrow> PollerManager \<Rightarrow>
     unit go \<times> PollerManager" where
  "set_admin now adminState command namespace target name m =
     (let key = pollerKey namespace target name in
      case map_of (pm_pollers m) key of
        None \<Rightarrow> (Inl (Errorf (''poller not found: '' @ key)), m)
      | Some p \<Rightarrow>
          (let m1 = m\<lparr>pm_pollers := mput key (p\<lparr>p_AdminState := adminState\<rparr>) (pm_pollers m)\<rparr> in
           case on_store (UpdatePollerAdminState now namespace target name adminState) m1 of
             (Inl err, m2) \<Rightarrow> (Inl err, m2)
           | (Inr _, m2) \<Rightarrow> on_state (namespace, target, name) command m2))"

definition pm_Enable :: "int \<Rightarrow> string \<Rightarrow> string \<Rightarrow> string \<Rightarrow> PollerManager \<Rightarrow> unit go \<times> PollerManager" where
  "pm_Enable now namespace target name m =
     set_admin now AdminStateEnabled ps_Enable namespace target name m"

definition pm_Disable :: "int \<Rightarrow> string \<Rightarrow> string \<Rightarrow> string \<Rightarrow> PollerManager \<Rightarrow> unit go \<times> PollerManager" where
  "pm_Disable now namespace target name m =
     set_admin now AdminStateDisabled ps_Disable namespace target name m"

definition pm_Start :: "int \<Rightarrow> int \<Rightarrow> string \<Rightarrow> string \<Rightarrow> string \<Rightarrow> PollerManager \<Rightarrow> unit go \<times> PollerManager" where
  "pm_Start now now' namespace target name m =
     (case on_state (namespace, target, name) ps_Start m of
        (Inl err, m1) \<Rightarrow> (Inl err, m1)
      | (Inr _, m1) \<Rightarrow>
          (Inr (),
           if \<not> pm_wired m1 then m1
           else case map_of (pm_pollers m1) (pollerKey namespace target name) of
                  None \<Rightarrow> m1
                | Some p \<Rightarrow>
                    (case getEffectiveInterval now now' p m1 of
                       (interval, m2) \<Rightarrow> call_back (PollerCreated namespace target name interval) m2)))"

definition pm_Stop :: "string \<Rightarrow> string \<Rightarrow> string \<Rightarrow> PollerManager \<Rightarrow> unit go \<times> PollerManager" where
  "pm_Stop namespace target name m = on_state (namespace, target, name) ps_Stop m"

section \<open>Reading\<close>

definition pm_GetState :: "string \<Rightarrow> string \<Rightarrow> string \<Rightarrow> PollerManager \<Rightarrow> PollerState \<times> PollerManager" where
  "pm_GetState namespace target name m =
     (case StateManager_Get (pm_states m) (namespace, target, name) of (st, sts) \<Rightarrow> (st, m\<lparr>pm_states := sts\<rparr>))"

definition pm_GetStats :: "string \<Rightarrow> string \<Rightarrow> string \<Rightarrow> PollerManager \<Rightarrow> PollerStats \<times> PollerManager" where
  "pm_GetStats namespace target name m =
     (case StatsManager_Get (pm_stats m) (namespace, target, name) of (st, sts) \<Rightarrow> (st, m\<lparr>pm_stats := sts\<rparr>))"

definition pm_GetResolvedConfig ::
    "int \<Rightarrow> int \<Rightarrow> string \<Rightarrow> string \<Rightarrow> string \<Rightarrow> PollerManager \<Rightarrow> ResolvedPollerConfig go \<times> PollerManager" where
  "pm_GetResolvedConfig now now' namespace target name m =
     (case Resolve now now' namespace target name (pm_resolver m) (pm_store m) of
        (r, res, s) \<Rightarrow> (r, m\<lparr>pm_resolver := res, pm_store := s\<rparr>))"

definition pm_Exists :: "string \<Rightarrow> string \<Rightarrow> string \<Rightarrow> PollerManager \<Rightarrow> bool" where
  "pm_Exists namespace target name m \<longleftrightarrow> map_of (pm_pollers m) (pollerKey namespace target name) \<noteq> None"

definition pm_Count :: "PollerManager \<Rightarrow> nat" where
  "pm_Count m = length (pm_pollers m)"

definition pm_CountInTarget :: "string \<Rightarrow> string \<Rightarrow> PollerManager \<Rightarrow> nat" where
  "pm_CountInTarget namespace target m =
     (case map_of (pm_byTarget m) (namespace @ ''/'' @ target) of None \<Rightarrow> 0 | Some keys \<Rightarrow> length keys)"

definition pm_GetEnabledPollers :: "PollerManager \<Rightarrow> Poller list" where
  "pm_GetEnabledPollers m = filter (\<lambda>p. p_AdminState p = AdminStateEnabled) (mvals (pm_pollers m))"

text \<open>\<open>json.Unmarshal\<close> into a map is the parameter \<open>unmarshal\<close>.\<close>

definition pm_GetPollerConfig ::
    "(string \<Rightarrow> 'cfg go) \<Rightarrow> string \<Rightarrow> string \<Rightarrow> string \<Rightarrow> PollerManager \<Rightarrow> string \<times> 'cfg go" where
  "pm_GetPollerConfig unmarshal namespace target name m =
     (let key = pollerKey namespace target name in
      case map_of (pm_pollers m) key of
        None \<Rightarrow> ([], Inl (Errorf (''poller not found: '' @ key)))
      | Some p \<Rightarrow> (p_Protocol p, unmarshal (p_ProtocolConfig p)))"

definition pm_InvalidateCache :: "string \<Rightarrow> string \<Rightarrow> string \<Rightarrow> PollerManager \<Rightarrow> PollerManager" where
  "pm_InvalidateCache namespace target name m =
     m\<lparr>pm_pollers := mdel (pollerKey namespace target name) (pm_pollers m)\<rparr>"

section \<open>The indices are those of the cached pollers\<close>

text \<open>
  \<open>pollerKey\<close> can be read back when namespace and target have no slash, which
  \<open>isValidName\<close> sees to when they are made; the name is the rest, whatever it holds.
\<close>

definition slash_free :: "Poller \<Rightarrow> bool" where
  "slash_free p \<longleftrightarrow> CHR ''/'' \<notin> set (p_Namespace p) \<and> CHR ''/'' \<notin> set (p_Target p)"

abbreviation poller_str :: "Poller \<Rightarrow> string" where
  "poller_str p \<equiv> pollerKey (p_Namespace p) (p_Target p) (p_Name p)"

abbreviation target_str :: "Poller \<Rightarrow> string" where
  "target_str p \<equiv> p_Namespace p @ ''/'' @ p_Target p"

lemma pollerKey_inject:
  assumes "CHR ''/'' \<notin> set n" "CHR ''/'' \<notin> set t" "CHR ''/'' \<notin> set n'" "CHR ''/'' \<notin> set t'"
    "pollerKey n t x = pollerKey n' t' x'"
  shows "n = n' \<and> t = t' \<and> x = x'"
proof -
  have "n @ CHR ''/'' # (t @ CHR ''/'' # x) = n' @ CHR ''/'' # (t' @ CHR ''/'' # x')"
    using assms(5) by (simp add: pollerKey_def)
  from append_sep_inject [OF assms(1,3) this]
  have "n = n'" "t @ CHR ''/'' # x = t' @ CHR ''/'' # x'" by blast+
  with append_sep_inject [OF assms(2,4) this(2)] show ?thesis by blast
qed

lemma pollerKey_state_key: "pollerKey n t x = state_key (n, t, x)"
  by (simp add: pollerKey_def state_key_def)

lemma target_str_inject:
  assumes "CHR ''/'' \<notin> set n" "CHR ''/'' \<notin> set n'" "n @ ''/'' @ t = n' @ ''/'' @ t'"
  shows "n = n' \<and> t = t'"
  using append_sep_inject [OF assms(1,2), of t t'] assms(3) by simp

definition cache_ok :: "(string, Poller) gomap \<Rightarrow> bool" where
  "cache_ok c \<longleftrightarrow> gomap_ok c \<and> (\<forall>k p. map_of c k = Some p \<longrightarrow> k = poller_str p \<and> slash_free p)"

definition filed_by :: "(Poller \<Rightarrow> string) \<Rightarrow> (string, Poller) gomap \<Rightarrow> string \<Rightarrow> string \<Rightarrow> bool" where
  "filed_by f c x k \<longleftrightarrow> (\<exists>p. map_of c k = Some p \<and> f p = x)"

definition pm_ok :: "PollerManager \<Rightarrow> bool" where
  "pm_ok m \<longleftrightarrow> cache_ok (pm_pollers m) \<and>
     ridx.represents (pm_byNamespace m) (filed_by p_Namespace (pm_pollers m)) \<and>
     ridx.represents (pm_byTarget m) (filed_by target_str (pm_pollers m))"

text \<open>What the invariant is about; most helpers leave it alone.\<close>

definition pm_view :: "PollerManager \<Rightarrow> (string, Poller) gomap \<times> (string, string) revidx \<times> (string, string) revidx" where
  "pm_view m = (pm_pollers m, pm_byNamespace m, pm_byTarget m)"

lemma pm_ok_view: "pm_view m = pm_view m' \<Longrightarrow> pm_ok m \<Longrightarrow> pm_ok m'"
  by (simp add: pm_ok_def pm_view_def)

lemma pm_view_simps [simp]:
  "pm_view (m\<lparr>pm_store := s\<rparr>) = pm_view m" "pm_view (m\<lparr>pm_states := sts\<rparr>) = pm_view m"
  "pm_view (m\<lparr>pm_stats := sx\<rparr>) = pm_view m" "pm_view (m\<lparr>pm_resolver := r\<rparr>) = pm_view m"
  "pm_view (m\<lparr>pm_wired := b\<rparr>) = pm_view m" "pm_view (m\<lparr>pm_calls := cs\<rparr>) = pm_view m"
  by (simp_all add: pm_view_def)

lemma on_store_frame:
  assumes "on_store f m = (r, m')"
  shows "pm_view m' = pm_view m" "pm_calls m' = pm_calls m" "pm_states m' = pm_states m"
    "pm_stats m' = pm_stats m" "pm_pollers m' = pm_pollers m" "pm_wired m' = pm_wired m"
    "f (pm_store m) = (r, pm_store m')" "pm_resolver m' = pm_resolver m"
  using assms by (auto simp: on_store_def split: prod.splits)

lemma call_back_frame [simp]: "pm_view (call_back c m) = pm_view m" "pm_pollers (call_back c m) = pm_pollers m"
  "pm_store (call_back c m) = pm_store m" "pm_states (call_back c m) = pm_states m"
  "pm_wired (call_back c m) = pm_wired m"
  by (simp_all add: call_back_def)

lemma getEffectiveInterval_frame:
  "getEffectiveInterval now now' p m = (i, m') \<Longrightarrow>
   pm_view m' = pm_view m \<and> pm_pollers m' = pm_pollers m \<and> pm_calls m' = pm_calls m \<and>
   pm_wired m' = pm_wired m \<and> pm_states m' = pm_states m"
  by (auto simp: getEffectiveInterval_def split: option.splits prod.splits)

lemma on_state_frame:
  "on_state q f m = (r, m') \<Longrightarrow> pm_view m' = pm_view m \<and> pm_calls m' = pm_calls m \<and>
   pm_pollers m' = pm_pollers m \<and> pm_wired m' = pm_wired m \<and> pm_store m' = pm_store m"
  by (auto simp: on_state_def split: prod.splits sum.splits)

text \<open>Filing one poller, replacing one, taking one out.\<close>

lemma cache_ok_put: "cache_ok c \<Longrightarrow> slash_free p \<Longrightarrow> cache_ok (mput (poller_str p) p c)"
  by (simp add: cache_ok_def)

lemma cache_ok_del: "cache_ok c \<Longrightarrow> cache_ok (mdel k c)"
  by (simp add: cache_ok_def)

lemma filed_put:
  assumes "\<And>q. map_of c k = Some q \<Longrightarrow> f q = f p"
  shows "filed_by f (mput k p c) = (\<lambda>x k'. (x = f p \<and> k' = k) \<or> filed_by f c x k')"
  using assms by (intro ext) (auto simp: filed_by_def)

lemma filed_del:
  assumes "map_of c k = Some p"
  shows "filed_by f (mdel k c) = (\<lambda>x k'. \<not> (x = f p \<and> k' = k) \<and> filed_by f c x k')"
  using assms by (intro ext) (auto simp: filed_by_def)

lemma slash_free_same:
  assumes "slash_free p" "slash_free q" "poller_str p = poller_str q"
  shows "p_Namespace p = p_Namespace q" "p_Target p = p_Target q" "p_Name p = p_Name q"
  using pollerKey_inject assms unfolding slash_free_def by blast+

lemma cache_same:
  assumes "cache_ok c" "slash_free p" "map_of c (poller_str p) = Some q"
  shows "p_Namespace q = p_Namespace p" "target_str q = target_str p"
proof -
  have "poller_str p = poller_str q" "slash_free q" using assms(1,3) by (auto simp: cache_ok_def)
  then show "p_Namespace q = p_Namespace p" "target_str q = target_str p"
    using slash_free_same [OF assms(2)] by simp_all
qed

lemma index_fields:
  "pm_pollers (addToIndexes n t k m) = pm_pollers m"
  "pm_byNamespace (addToIndexes n t k m) = idx_add n k (pm_byNamespace m)"
  "pm_byTarget (addToIndexes n t k m) = idx_add (n @ ''/'' @ t) k (pm_byTarget m)"
  "pm_pollers (removeFromIndexes n t k m) = pm_pollers m"
  "pm_byNamespace (removeFromIndexes n t k m) = idx_del n k (pm_byNamespace m)"
  "pm_byTarget (removeFromIndexes n t k m) = idx_del (n @ ''/'' @ t) k (pm_byTarget m)"
  "pm_pollers (m\<lparr>pm_pollers := c\<rparr>) = c" "pm_byNamespace (m\<lparr>pm_pollers := c\<rparr>) = pm_byNamespace m"
  "pm_byTarget (m\<lparr>pm_pollers := c\<rparr>) = pm_byTarget m"
  by (simp_all add: addToIndexes_def removeFromIndexes_def)

lemma pm_ok_file:
  assumes "pm_ok m" "slash_free p"
  shows "pm_ok (addToIndexes (p_Namespace p) (p_Target p) (poller_str p)
    (m\<lparr>pm_pollers := mput (poller_str p) p (pm_pollers m)\<rparr>))"
proof -
  have c: "cache_ok (pm_pollers m)" using assms(1) by (simp add: pm_ok_def)
  note same = cache_same [OF c assms(2)]
  have "filed_by p_Namespace (mput (poller_str p) p (pm_pollers m)) =
      (\<lambda>x k'. (x = p_Namespace p \<and> k' = poller_str p) \<or> filed_by p_Namespace (pm_pollers m) x k')"
    "filed_by target_str (mput (poller_str p) p (pm_pollers m)) =
      (\<lambda>x k'. (x = target_str p \<and> k' = poller_str p) \<or> filed_by target_str (pm_pollers m) x k')"
    using same by (intro filed_put; blast)+
  note new = this
  have r: "ridx.represents (pm_byNamespace m) (filed_by p_Namespace (pm_pollers m))"
    "ridx.represents (pm_byTarget m) (filed_by target_str (pm_pollers m))"
    using assms(1) unfolding pm_ok_def by blast+
  note added = ridx.represents_add [OF r(1), of "p_Namespace p" "poller_str p", folded new(1)]
    ridx.represents_add [OF r(2), of "target_str p" "poller_str p", folded new(2)]
  show ?thesis
    unfolding pm_ok_def index_fields
    using added cache_ok_put [OF c assms(2)] by blast
qed

lemma pm_ok_replace:
  assumes "pm_ok m" "slash_free p" "map_of (pm_pollers m) (poller_str p) = Some q"
  shows "pm_ok (m\<lparr>pm_pollers := mput (poller_str p) p (pm_pollers m)\<rparr>)"
proof -
  have c: "cache_ok (pm_pollers m)" using assms(1) by (simp add: pm_ok_def)
  note same = cache_same [OF c assms(2,3)]
  have "filed_by f (mput (poller_str p) p (pm_pollers m)) = filed_by f (pm_pollers m)" if "f q = f p" for f
    using that assms(3) by (intro ext) (auto simp: filed_by_def)
  then show ?thesis
    using assms(1) cache_ok_put [OF c assms(2)] same unfolding pm_ok_def by simp
qed

lemma pm_ok_remove:
  assumes "pm_ok m" "map_of (pm_pollers m) (poller_str p) = Some q" "slash_free p"
  shows "pm_ok (removeFromIndexes (p_Namespace p) (p_Target p) (poller_str p)
    (m\<lparr>pm_pollers := mdel (poller_str p) (pm_pollers m)\<rparr>))"
proof -
  have c: "cache_ok (pm_pollers m)" using assms(1) by (simp add: pm_ok_def)
  note same = cache_same [OF c assms(3,2)]
  note d = filed_del [OF assms(2), of p_Namespace, unfolded same(1)]
    filed_del [OF assms(2), of target_str, unfolded same(2)]
  have r: "ridx.represents (pm_byNamespace m) (filed_by p_Namespace (pm_pollers m))"
    "ridx.represents (pm_byTarget m) (filed_by target_str (pm_pollers m))"
    using assms(1) unfolding pm_ok_def by blast+
  note gone = ridx.represents_del [OF r(1), of "p_Namespace p" "poller_str p", folded d(1)]
    ridx.represents_del [OF r(2), of "target_str p" "poller_str p", folded d(2)]
  show ?thesis
    unfolding pm_ok_def index_fields
    using gone cache_ok_del [OF c] by blast
qed

text \<open>Every method keeps the invariant, for pollers whose key can be read back.\<close>

lemma pm_ok_empty: "pm_ok (m\<lparr>pm_pollers := [], pm_byNamespace := [], pm_byTarget := []\<rparr>)"
  by (simp add: pm_ok_def cache_ok_def filed_by_def ridx.represents_def)

lemma load_poller_view:
  "pm_view (load_poller p m) =
   pm_view (addToIndexes (p_Namespace p) (p_Target p) (poller_str p)
     (m\<lparr>pm_pollers := mput (poller_str p) p (pm_pollers m)\<rparr>))"
  unfolding load_poller_def Let_def
  by (auto split: prod.splits sum.splits option.splits dest!: on_store_frame(1))

lemma load_pollers_ok:
  "pm_ok m \<Longrightarrow> list_all slash_free ps \<Longrightarrow> pm_ok (foldl (\<lambda>m p. load_poller p m) m ps)"
proof (induction ps arbitrary: m)
  case (Cons p ps)
  have "pm_ok (load_poller p m)"
    using pm_ok_view [OF load_poller_view [symmetric]] pm_ok_file Cons.prems by auto
  with Cons show ?case by simp
qed simp

lemma ListAllPollers_rows:
  "runs ListAllPollers (\<lambda>d ps d'. mset ps = image_mset read_Poller (mset (db_pollers d)) \<and> d' = d)"
  unfolding ListAllPollers_def
  by (rule runs_mono [OF runs_wrap [OF runs_query]]) simp

lemma pm_Load_ok:
  assumes "pm_ok m" "list_all slash_free (db_pollers (st_db (pm_store m)))" "pm_Load m = (r, m')"
  shows "pm_ok m'"
proof (cases "on_store ListAllPollers m")
  case (Pair l m1)
  note fr = on_store_frame [OF Pair]
  show ?thesis
  proof (cases l)
    case (Inl e)
    then show ?thesis using assms Pair pm_ok_view [OF fr(1) [symmetric]] by (simp add: pm_Load_def)
  next
    case (Inr ps)
    have "set ps = read_Poller ` set (db_pollers (st_db (pm_store m)))"
      using runsD [OF ListAllPollers_rows, of "pm_store m" ps "pm_store m1"] fr(7) Inr
      by (metis set_mset_mset set_image_mset)
    then have "list_all slash_free ps"
      using assms(2) by (auto simp: list_all_iff slash_free_def read_Poller_def)
    from load_pollers_ok [OF pm_ok_empty this]
    show ?thesis using assms(3) Pair Inr by (auto simp: pm_Load_def)
  qed
qed

lemma created_row:
  "runs (CreatePoller now p) (\<lambda>d x d'. p_Namespace x = p_Namespace p \<and> p_Target x = p_Target p \<and> p_Name x = p_Name p)"
  by (rule runs_mono [OF runs_CreatePoller]) simp

lemma updated_row:
  "runs (UpdatePoller now now' p) (\<lambda>d x d'. p_Namespace x = p_Namespace p \<and> p_Target x = p_Target p \<and> p_Name x = p_Name p)"
  by (rule runs_mono [OF runs_UpdatePoller]) simp

lemma same_names: "p_Namespace p = p_Namespace q \<and> p_Target p = p_Target q \<and> p_Name p = p_Name q \<Longrightarrow>
  poller_str p = poller_str q \<and> (slash_free p \<longleftrightarrow> slash_free q)"
  by (simp add: slash_free_def)

lemma pm_Create_ok:
  assumes "pm_ok m" "slash_free p0" "pm_Create now p0 m = (r, m')"
  shows "pm_ok m'"
proof -
  define p where "p = (if p_AdminState p0 = [] then p0\<lparr>p_AdminState := AdminStateDisabled\<rparr> else p0)"
  obtain c m1 where c: "on_store (CreatePoller now p) m = (c, m1)" by fastforce
  note fr = on_store_frame [OF c]
  have m1: "pm_ok m1" using pm_ok_view [OF fr(1) [symmetric] assms(1)] .
  have made: "pm_ok m'" if "c = Inr p'"
    "pm_view m' = pm_view (addToIndexes (p_Namespace p') (p_Target p') (poller_str p0)
       (m1\<lparr>pm_pollers := mput (poller_str p0) p' (pm_pollers m1)\<rparr>))" for p'
  proof -
    have "p_Namespace p' = p_Namespace p0 \<and> p_Target p' = p_Target p0 \<and> p_Name p' = p_Name p0"
      using runsD [OF created_row, of now p "pm_store m" p' "pm_store m1"] fr(7) that(1) by (simp add: p_def)
    with same_names have k: "poller_str p' = poller_str p0" "slash_free p'" using assms(2) by blast+
    show ?thesis by (rule pm_ok_view [OF that(2) [symmetric]]) (use pm_ok_file [OF m1 k(2)] k(1) in simp)
  qed
  show ?thesis
  proof (cases "map_of (pm_pollers m) (poller_str p0) \<noteq> None \<or> \<not> isValidName (p_Name p0)")
    case True
    then show ?thesis using assms by (auto simp: pm_Create_def Let_def split: if_splits)
  next
    case False
    show ?thesis
    proof (cases c)
      case (Inl e)
      then show ?thesis using False assms(3) c m1 by (simp add: pm_Create_def Let_def p_def [symmetric])
    next
      case (Inr p')
      show ?thesis by (rule made [OF Inr]) (use False assms(3) c Inr in \<open>auto simp: pm_Create_def Let_def p_def [symmetric]\<close>)
    qed
  qed
qed

lemma pm_Update_ok:
  assumes "pm_ok m" "slash_free p0" "pm_Update now now' p0 m = (r, m')"
  shows "pm_ok m'"
proof (cases "map_of (pm_pollers m) (poller_str p0)")
  case None
  then show ?thesis using assms by (simp add: pm_Update_def)
next
  case (Some old)
  define p where "p = p0\<lparr>p_Version := p_Version old\<rparr>"
  obtain i m1 where i: "getEffectiveInterval now now' old m = (i, m1)" by fastforce
  obtain c m2 where c: "on_store (UpdatePoller now now' p) m1 = (c, m2)" by fastforce
  note fr = on_store_frame [OF c] and fi = getEffectiveInterval_frame [OF i]
  have m2: "pm_ok m2" "map_of (pm_pollers m2) (poller_str p0) = Some old"
    using pm_ok_view [of m m2] fr(1,5) fi assms(1) Some by auto
  show ?thesis
  proof (cases c)
    case (Inl e)
    then show ?thesis using Some assms(3) i c m2 by (simp add: pm_Update_def Let_def p_def [symmetric])
  next
    case (Inr p')
    define m3 where "m3 = m2\<lparr>pm_pollers := mput (poller_str p0) p' (pm_pollers m2)\<rparr>"
    obtain j m4 where j: "getEffectiveInterval now now' p' m3 = (j, m4)" by fastforce
    have "p_Namespace p' = p_Namespace p0 \<and> p_Target p' = p_Target p0 \<and> p_Name p' = p_Name p0"
      using runsD [OF updated_row, of now now' p "pm_store m1" p' "pm_store m2"] fr(7) Inr by (simp add: p_def)
    with same_names have k: "poller_str p' = poller_str p0" "slash_free p'" using assms(2) by blast+
    have "pm_ok m3" unfolding m3_def using pm_ok_replace [OF m2(1) k(2)] k(1) m2(2) by simp
    moreover have "pm_view m' = pm_view m3"
      using Some assms(3) i c Inr j getEffectiveInterval_frame [OF j]
      by (auto simp: pm_Update_def Let_def p_def [symmetric] m3_def [symmetric] split: if_splits)
    ultimately show ?thesis using pm_ok_view by metis
  qed
qed

lemma pm_Delete_ok:
  assumes "pm_ok m" "CHR ''/'' \<notin> set n" "CHR ''/'' \<notin> set t" "pm_Delete n t x m = (r, m')"
  shows "pm_ok m'"
proof (cases "map_of (pm_pollers m) (pollerKey n t x)")
  case None
  then show ?thesis using assms by (simp add: pm_Delete_def)
next
  case (Some p)
  have "pollerKey n t x = poller_str p" "slash_free p"
    using assms(1) Some by (auto simp: pm_ok_def cache_ok_def)
  with pollerKey_inject [OF assms(2,3)] have k: "n = p_Namespace p" "t = p_Target p" "x = p_Name p"
    unfolding slash_free_def by blast+
  obtain c m1 where c: "on_store (DeletePoller n t x) (call_back (PollerDeleted n t x) m) = (c, m1)" by fastforce
  note fr = on_store_frame [OF c]
  have m1: "pm_ok m1" "pm_pollers m1 = pm_pollers m"
    using pm_ok_view [of m m1] fr(1,5) assms(1) by auto
  show ?thesis
  proof (cases c)
    case (Inl e)
    then show ?thesis using Some assms(4) c m1 by (simp add: pm_Delete_def Let_def)
  next
    case (Inr links)
    have "pm_view m' = pm_view (removeFromIndexes n t (pollerKey n t x)
        (m1\<lparr>pm_pollers := mdel (pollerKey n t x) (pm_pollers m1)\<rparr>))"
      using Some assms(4) c Inr by (auto simp: pm_Delete_def Let_def)
    moreover have "pm_ok (removeFromIndexes n t (pollerKey n t x)
        (m1\<lparr>pm_pollers := mdel (pollerKey n t x) (pm_pollers m1)\<rparr>))"
      using pm_ok_remove [OF m1(1), of p p] Some m1(2) \<open>slash_free p\<close> unfolding k by simp
    ultimately show ?thesis using pm_ok_view by metis
  qed
qed

lemma set_admin_ok:
  assumes "pm_ok m" "set_admin now a f n t x m = (r, m')"
  shows "pm_ok m'"
proof (cases "map_of (pm_pollers m) (pollerKey n t x)")
  case None
  then show ?thesis using assms by (simp add: set_admin_def)
next
  case (Some p)
  have k: "pollerKey n t x = poller_str p" "slash_free p"
    using assms(1) Some by (auto simp: pm_ok_def cache_ok_def)
  define m1 where "m1 = m\<lparr>pm_pollers := mput (pollerKey n t x) (p\<lparr>p_AdminState := a\<rparr>) (pm_pollers m)\<rparr>"
  have m1: "pm_ok m1"
    using pm_ok_replace [OF assms(1), of "p\<lparr>p_AdminState := a\<rparr>" p] k Some
    unfolding m1_def by (simp add: slash_free_def)
  obtain c m2 where c: "on_store (UpdatePollerAdminState now n t x a) m1 = (c, m2)" by fastforce
  have "pm_view m' = pm_view m1"
    using Some assms(2) c on_store_frame(1) [OF c]
    by (auto simp: set_admin_def Let_def m1_def [symmetric] split: sum.splits dest!: on_state_frame)
  then show ?thesis using m1 pm_ok_view by metis
qed

lemma pm_commands_view:
  "pm_Start now now' n t x m = (r, m') \<Longrightarrow> pm_view m' = pm_view m"
  "pm_Stop n t x m = (r, m') \<Longrightarrow> pm_view m' = pm_view m"
  "pm_view (snd (pm_GetState n t x m)) = pm_view m" "pm_view (snd (pm_GetStats n t x m)) = pm_view m"
  "pm_view (snd (pm_GetResolvedConfig now now' n t x m)) = pm_view m"
proof -
  show "pm_view m' = pm_view m" if "pm_Start now now' n t x m = (r, m')"
  proof -
    obtain c m1 where c: "on_state (n, t, x) ps_Start m = (c, m1)" by fastforce
    have "pm_view m' = pm_view m1"
      using that c by (auto simp: pm_Start_def split: sum.splits if_splits option.splits prod.splits
          dest!: getEffectiveInterval_frame)
    then show ?thesis using on_state_frame [OF c] by simp
  qed
qed (auto simp: pm_Stop_def pm_GetState_def pm_GetStats_def pm_GetResolvedConfig_def
     split: prod.splits dest: on_state_frame)

text \<open>
  A run of the manager: its methods in any order, the store changing under it at any time. The
  cache filling of \<open>Get\<close> is left out; see \<open>get_caches_unlisted\<close>.
\<close>

inductive pm_step :: "PollerManager \<Rightarrow> PollerManager \<Rightarrow> bool" where
  environment: "pm_step m (m\<lparr>pm_store := s\<rparr>)"
| callbacks: "pm_step m (SetCallbacks m)"
| load: "list_all slash_free (db_pollers (st_db (pm_store m))) \<Longrightarrow> pm_Load m = (r, m') \<Longrightarrow> pm_step m m'"
| create: "slash_free p \<Longrightarrow> pm_Create now p m = (q, m') \<Longrightarrow> pm_step m m'"
| update: "slash_free p \<Longrightarrow> pm_Update now now' p m = (q, m') \<Longrightarrow> pm_step m m'"
| delete: "CHR ''/'' \<notin> set n \<Longrightarrow> CHR ''/'' \<notin> set t \<Longrightarrow> pm_Delete n t x m = (l, m') \<Longrightarrow> pm_step m m'"
| enable: "pm_Enable now n t x m = (r, m') \<Longrightarrow> pm_step m m'"
| disable: "pm_Disable now n t x m = (r, m') \<Longrightarrow> pm_step m m'"
| start: "pm_Start now now' n t x m = (r, m') \<Longrightarrow> pm_step m m'"
| stop: "pm_Stop n t x m = (r, m') \<Longrightarrow> pm_step m m'"
| read_state: "pm_step m (snd (pm_GetState n t x m))"
| read_stats: "pm_step m (snd (pm_GetStats n t x m))"
| read_config: "pm_step m (snd (pm_GetResolvedConfig now now' n t x m))"

inductive pm_reachable :: "PollerManager \<Rightarrow> bool" where
  new: "pm_reachable (NewPollerManager s sts sx r)"
| step: "pm_reachable m \<Longrightarrow> pm_step m m' \<Longrightarrow> pm_reachable m'"

lemma pm_step_ok:
  assumes "pm_step m m'" "pm_ok m"
  shows "pm_ok m'"
  using assms
proof cases
  case load
  then show ?thesis using pm_Load_ok assms(2) by blast
next
  case create
  then show ?thesis using pm_Create_ok assms(2) by blast
next
  case update
  then show ?thesis using pm_Update_ok assms(2) by blast
next
  case delete
  then show ?thesis using pm_Delete_ok assms(2) by blast
next
  case enable
  then show ?thesis using set_admin_ok assms(2) unfolding pm_Enable_def by blast
next
  case disable
  then show ?thesis using set_admin_ok assms(2) unfolding pm_Disable_def by blast
next
  case start
  then show ?thesis using pm_commands_view(1) pm_ok_view assms(2) by metis
next
  case stop
  then show ?thesis using pm_commands_view(2) pm_ok_view assms(2) by metis
next
  case environment
  then show ?thesis using pm_ok_view [OF pm_view_simps(1) [symmetric] assms(2)] by simp
next
  case callbacks
  then show ?thesis using pm_ok_view [OF pm_view_simps(5) [symmetric] assms(2)] by (simp add: SetCallbacks_def)
next
  case (read_state n t x)
  show ?thesis unfolding read_state by (rule pm_ok_view [OF pm_commands_view(3) [symmetric] assms(2)])
next
  case (read_stats n t x)
  show ?thesis unfolding read_stats by (rule pm_ok_view [OF pm_commands_view(4) [symmetric] assms(2)])
next
  case (read_config now now' n t x)
  show ?thesis unfolding read_config by (rule pm_ok_view [OF pm_commands_view(5) [symmetric] assms(2)])
qed

lemma pm_reachable_ok: "pm_reachable m \<Longrightarrow> pm_ok m"
proof (induction rule: pm_reachable.induct)
  case (new s sts sx r)
  then show ?case
    using pm_ok_empty [of "NewPollerManager s sts sx r"] by (simp add: NewPollerManager_def)
qed (rule pm_step_ok)

text \<open>What the listings read off exact indices.\<close>

lemma cached_of_filed:
  assumes "cache_ok c" "idx_ok i" "\<And>k. idx_has i x k \<longleftrightarrow> filed_by f c x k"
  shows "distinct (idx_get x i)"
    "set (List.map_filter (map_of c) (idx_get x i)) = {p. p \<in> set (mvals c) \<and> f p = x}"
    "distinct (List.map_filter (map_of c) (idx_get x i))"
    "length (List.map_filter (map_of c) (idx_get x i)) = length (idx_get x i)"
proof -
  have keys: "k \<in> set (idx_get x i) \<longleftrightarrow> (\<exists>p. map_of c k = Some p \<and> f p = x)" for k
    using assms(3) by (simp add: idx_has_def filed_by_def)
  have g: "gomap_ok c" "\<And>k p. map_of c k = Some p \<Longrightarrow> k = poller_str p"
    using assms(1) by (auto simp: cache_ok_def)
  have vals: "p \<in> set (mvals c) \<longleftrightarrow> (\<exists>k. map_of c k = Some p)" for p
    using gomap_in_set [OF g(1)] by force
  show d: "distinct (idx_get x i)" by (rule idx_ok_get(1) [OF assms(2)])
  have mf: "List.map_filter (map_of c) ks = map (\<lambda>k. the (map_of c k)) ks"
    if "\<forall>k \<in> set ks. map_of c k \<noteq> None" for ks
    using that by (induction ks) (auto simp: List.map_filter_simps)
  have all: "\<forall>k \<in> set (idx_get x i). map_of c k \<noteq> None" using keys by auto
  note mf = mf [OF all]
  show "set (List.map_filter (map_of c) (idx_get x i)) = {p. p \<in> set (mvals c) \<and> f p = x}"
    unfolding mf set_map
  proof (intro set_eqI iffI)
    fix p assume "p \<in> (\<lambda>k. the (map_of c k)) ` set (idx_get x i)"
    then obtain k where k: "p = the (map_of c k)" "k \<in> set (idx_get x i)" by blast
    then obtain q where "map_of c k = Some q" "f q = x" using keys by blast
    then show "p \<in> {p. p \<in> snd ` set c \<and> f p = x}" using k(1) vals [of q] by auto
  next
    fix p assume "p \<in> {p. p \<in> snd ` set c \<and> f p = x}"
    then obtain k where "map_of c k = Some p" "f p = x" using vals [of p] by auto
    then show "p \<in> (\<lambda>k. the (map_of c k)) ` set (idx_get x i)"
      using keys [of k] by (intro image_eqI [of _ _ k]) auto
  qed
  show "length (List.map_filter (map_of c) (idx_get x i)) = length (idx_get x i)"
    unfolding mf by simp
  have "inj_on (\<lambda>k. the (map_of c k)) (set (idx_get x i))"
    using keys g(2) by (intro inj_onI) (metis option.sel)
  then show "distinct (List.map_filter (map_of c) (idx_get x i))"
    unfolding mf using d by (simp add: distinct_map)
qed


definition ex_poller :: "string \<Rightarrow> Poller" where
  "ex_poller name = \<lparr>p_Namespace = ''n'', p_Target = ''t'', p_Name = name, p_Description = [],
     p_Protocol = ''snmp'', p_ProtocolConfig = [], p_PollingConfig = None,
     p_AdminState = AdminStateEnabled, p_CreatedAt = 0, p_UpdatedAt = 0, p_Version = 0\<rparr>"

definition ex_pm :: PollerManager where
  "ex_pm = snd (pm_Create 0 (ex_poller ''b'') (snd (pm_Create 0 (ex_poller ''a'')
     (SetCallbacks (NewPollerManager (open_store (\<lambda>_. None) None) [] [] NewConfigResolver)))))"

lemma ex_pm_reachable: "pm_reachable ex_pm"
proof -
  have s: "slash_free (ex_poller x)" for x by (simp add: slash_free_def ex_poller_def)
  have c: "pm_reachable m \<Longrightarrow> pm_reachable (snd (pm_Create 0 (ex_poller x) m))" for x m
    by (erule pm_reachable.step) (rule create [OF s prod.collapse [symmetric]])
  show ?thesis unfolding ex_pm_def by (intro c pm_reachable.step [OF new callbacks])
qed


text \<open>A poller that \<open>Get\<close> has taken from the store into the cache exists for the manager and is
  in no listing.\<close>

theorem get_caches_unlisted:
  "let m0 = NewPollerManager (pm_store ex_pm) [] [] NewConfigResolver;
       m = snd (pm_Get ''n'' ''t'' ''a'' m0)
   in pm_Exists ''n'' ''t'' ''a'' m \<and> pm_List ''n'' ''t'' m = [] \<and> pm_Count m = 1"
  by code_simp

text \<open>\<open>Delete\<close> tells the scheduler before it asks the store: when the store then fails, the poller
  is still there, listed and enabled, and has been taken off the schedule.\<close>

theorem failed_delete_unschedules:
  "let m0 = ex_pm\<lparr>pm_store := (pm_store ex_pm)\<lparr>st_fault := \<lambda>_. Some ''io error''\<rparr>\<rparr>;
       (r, m) = pm_Delete ''n'' ''t'' ''a'' m0
   in isl r \<and> map p_Name (pm_GetEnabledPollers m) = [''a'', ''b''] \<and>
      pm_calls m = [PollerDeleted ''n'' ''t'' ''a'']"
  by code_simp

section \<open>A restart\<close>

text \<open>One turn of \<open>Load\<close>'s loop, while the engine works.\<close>

lemma works_query:
  assumes "faultless s"
  shows "wrap w (query f) s = (Inr (f (st_db s)), s\<lparr>st_tick := st_tick s + 1\<rparr>)"
  using assms by (simp add: wrap_def query_def stmt_def faultless_def)

lemma faultless_tick [simp]: "faultless (s\<lparr>st_tick := k\<rparr>) = faultless s"
  by (simp add: faultless_def)

definition restored :: "Poller \<Rightarrow> DB \<Rightarrow> StateManager \<Rightarrow> StateManager" where
  "restored p d sts = (case sql_first (\<lambda>r. state_row_key r = poller_key p) (db_states d) of
     None \<Rightarrow> sts | Some r \<Rightarrow> with_state (poller_key p) (restore_state p r) sts)"

definition restored_stats :: "Poller \<Rightarrow> DB \<Rightarrow> StatsManager \<Rightarrow> StatsManager" where
  "restored_stats p d sx = (case sql_first (\<lambda>r. stats_row_key r = poller_key p) (db_stats d) of
     None \<Rightarrow> sx | Some r \<Rightarrow> with_stats (poller_key p) (restore_stats r) sx)"

lemma load_poller_works:
  assumes "faultless (pm_store m)"
  shows "faultless (pm_store (load_poller p m))" "st_db (pm_store (load_poller p m)) = st_db (pm_store m)"
    "pm_states (load_poller p m) = restored p (st_db (pm_store m)) (pm_states m)"
    "pm_stats (load_poller p m) = restored_stats p (st_db (pm_store m)) (pm_stats m)"
  using assms
  by (simp_all add: load_poller_def Let_def on_store_def GetPollerState_def GetPollerStats_def works_query
      addToIndexes_def restored_def restored_stats_def split: option.split)

lemma load_pollers_works:
  assumes "faultless (pm_store m)"
  shows "pm_states (foldl (\<lambda>m p. load_poller p m) m ps) =
      foldl (\<lambda>sts p. restored p (st_db (pm_store m)) sts) (pm_states m) ps"
    "pm_stats (foldl (\<lambda>m p. load_poller p m) m ps) =
      foldl (\<lambda>sx p. restored_stats p (st_db (pm_store m)) sx) (pm_stats m) ps"
  using assms by (induction ps arbitrary: m) (simp_all add: load_poller_works)

text \<open>A loop that rewrites, for each poller, that poller's entry of a registry.\<close>

lemma foldl_one_entry:
  assumes frame: "\<And>p m k. k \<noteq> key p \<Longrightarrow> map_of (upd p m) k = map_of m k"
    and "q \<in> set ps" "inj_on key (set ps)" "distinct ps"
    and hit: "\<And>m. map_of m (key q) = map_of m0 (key q) \<Longrightarrow> map_of (upd q m) (key q) = v"
  shows "map_of (foldl (\<lambda>m p. upd p m) m0 ps) (key q) = v"
proof -
  obtain as bs where ps: "ps = as @ q # bs" using split_list [OF assms(2)] by blast
  have other: "map_of (foldl (\<lambda>m p. upd p m) m xs) (key q) = map_of m (key q)"
    if "key q \<notin> key ` set xs" for m xs
    using that by (induction xs arbitrary: m) (auto simp: frame)
  have "key q \<notin> key ` set as" "key q \<notin> key ` set bs"
    using assms(3,4) unfolding ps by (auto simp: inj_on_def)
  then show ?thesis unfolding ps by (simp add: other hit)
qed

lemma restored_frame: "k \<noteq> state_key (poller_key p) \<Longrightarrow> map_of (restored p d sts) k = map_of sts k"
  "k \<noteq> state_key (poller_key p) \<Longrightarrow> map_of (restored_stats p d sx) k = map_of sx k"
  by (simp_all add: restored_def restored_stats_def with_state_other with_stats_other split: option.split)

text \<open>The pollers \<open>ListAllPollers\<close> gives, in the order it gives them.\<close>

definition all_pollers :: "DB \<Rightarrow> Poller list" where
  "all_pollers d = map read_Poller (sort_key p_Namespace (sort_key p_Target (sort_key p_Name (db_pollers d))))"

lemma all_pollers:
  assumes "db_ok d" "list_all slash_free (db_pollers d)"
  shows "set (all_pollers d) = read_Poller ` set (db_pollers d)" "distinct (all_pollers d)"
    "inj_on (\<lambda>p. state_key (poller_key p)) (set (all_pollers d))"
proof -
  show "set (all_pollers d) = read_Poller ` set (db_pollers d)" by (simp add: all_pollers_def)
  have "mset (map poller_key (all_pollers d)) = mset (map poller_key (db_pollers d))"
    unfolding all_pollers_def map_map mset_map mset_sort by (simp add: comp_def read_Poller_def)
  note same = mset_eq_imp_distinct_iff [OF this]
  have keys: "distinct (map poller_key (all_pollers d))"
    unfolding same using assms(1) unfolding db_ok_def by blast
  then show "distinct (all_pollers d)" by (simp add: distinct_map)
  have free: "slash_free x" if "x \<in> set (all_pollers d)" for x
    using that assms(2) by (auto simp: all_pollers_def list_all_iff slash_free_def read_Poller_def)
  show "inj_on (\<lambda>p. state_key (poller_key p)) (set (all_pollers d))"
  proof (rule inj_onI)
    fix x y
    assume xy: "x \<in> set (all_pollers d)" "y \<in> set (all_pollers d)"
      "state_key (poller_key x) = state_key (poller_key y)"
    then have "poller_key x = poller_key y"
      using slash_free_same [OF free free, of x y] by (simp add: pollerKey_state_key)
    then show "x = y" using keys xy(1,2) by (simp add: distinct_map inj_on_def)
  qed
qed

lemma pm_Load_works:
  assumes "faultless s" "pm_Load (NewPollerManager s [] [] r) = (res, m)"
  shows "res = Inr ()" "pm_states m = foldl (\<lambda>sts p. restored p (st_db s) sts) [] (all_pollers (st_db s))"
    "pm_stats m = foldl (\<lambda>sx p. restored_stats p (st_db s) sx) [] (all_pollers (st_db s))"
proof -
  define m0 where "m0 = NewPollerManager s [] [] r"
  define m2 where "m2 = m0\<lparr>pm_store := s\<lparr>st_tick := st_tick s + 1\<rparr>, pm_pollers := [], pm_byNamespace := [],
    pm_byTarget := []\<rparr>"
  have "on_store ListAllPollers m0 = (Inr (all_pollers (st_db s)), m0\<lparr>pm_store := s\<lparr>st_tick := st_tick s + 1\<rparr>\<rparr>)"
    by (simp add: on_store_def m0_def NewPollerManager_def ListAllPollers_def works_query [OF assms(1)] all_pollers_def)
  then have res: "res = Inr ()" "m = foldl (\<lambda>m p. load_poller p m) m2 (all_pollers (st_db s))"
    using assms(2) by (simp_all add: pm_Load_def m0_def [symmetric] m2_def)
  have m2: "faultless (pm_store m2)" "st_db (pm_store m2) = st_db s" "pm_states m2 = []" "pm_stats m2 = []"
    using assms(1) by (simp_all add: m2_def m0_def NewPollerManager_def)
  show "res = Inr ()" "pm_states m = foldl (\<lambda>sts p. restored p (st_db s) sts) [] (all_pollers (st_db s))"
    "pm_stats m = foldl (\<lambda>sx p. restored_stats p (st_db s) sx) [] (all_pollers (st_db s))"
    using res load_pollers_works [OF m2(1), unfolded m2(2-4)] by simp_all
qed

text \<open>What the rows of the synchronisation become.\<close>

abbreviation restarted :: "Poller \<Rightarrow> PollerState \<Rightarrow> PollerState" where
  "restarted p st \<equiv> st\<lparr>ps_AdminState := p_AdminState p, ps_RecentSuccesses := 0, ps_dirty := False\<rparr>"

abbreviation restarted_stats :: "PollerStats \<Rightarrow> PollerStats" where
  "restarted_stats sx \<equiv>
     sx\<lparr>st_pollMsSum := 0, st_pollMsMin := -1, st_pollMsMax := 0, st_pollMsCount := 0, st_dirty := False\<rparr>"

lemma restored_rows:
  assumes "db_ok d" "poller_key q = poller_key p" "p_AdminState q = p_AdminState p"
  shows "(ps_Namespace st, ps_Target st, ps_Poller st) = poller_key p \<Longrightarrow> state_row st \<in> set (db_states d) \<Longrightarrow>
      map_of sts (state_key (poller_key q)) = None \<Longrightarrow>
      map_of (restored q d sts) (state_key (poller_key q)) = Some (restarted p st)"
    "(st_Namespace sx, st_Target sx, st_Poller sx) = poller_key p \<Longrightarrow> stats_row sx \<in> set (db_stats d) \<Longrightarrow>
      map_of sxs (state_key (poller_key q)) = None \<Longrightarrow>
      map_of (restored_stats q d sxs) (state_key (poller_key q)) = Some (restarted_stats sx)"
proof -
  assume st: "(ps_Namespace st, ps_Target st, ps_Poller st) = poller_key p" "state_row st \<in> set (db_states d)"
    "map_of sts (state_key (poller_key q)) = None"
  have "sql_first (\<lambda>r. state_row_key r = poller_key q) (db_states d) = Some (state_row st)"
    using assms st(1,2) by (intro sql_first_key) (auto simp: db_ok_def state_row_def)
  then show "map_of (restored q d sts) (state_key (poller_key q)) = Some (restarted p st)"
    using st(1,3) assms(2,3) by (simp add: restored_def with_state_same)
      (cases st, simp add: StateManager_Get_def restore_state_def state_row_def NewPollerState_def Let_def)
next
  assume sx: "(st_Namespace sx, st_Target sx, st_Poller sx) = poller_key p" "stats_row sx \<in> set (db_stats d)"
    "map_of sxs (state_key (poller_key q)) = None"
  have "sql_first (\<lambda>r. stats_row_key r = poller_key q) (db_stats d) = Some (stats_row sx)"
    using assms sx(1,2) by (intro sql_first_key) (auto simp: db_ok_def stats_row_def Let_def)
  then show "map_of (restored_stats q d sxs) (state_key (poller_key q)) = Some (restarted_stats sx)"
    using sx(1,3) assms(2) by (simp add: restored_stats_def with_stats_same)
      (cases sx, simp add: StatsManager_Get_def restore_stats_def stats_row_def GetStats_def Let_def NewPollerStats_def)
qed

lemma pm_Load_restores:
  assumes "faultless s" "db_ok (st_db s)" "list_all slash_free (db_pollers (st_db s))"
    "p \<in> set (db_pollers (st_db s))"
    "(ps_Namespace st, ps_Target st, ps_Poller st) = poller_key p" "state_row st \<in> set (db_states (st_db s))"
    "(st_Namespace sx, st_Target sx, st_Poller sx) = poller_key p" "stats_row sx \<in> set (db_stats (st_db s))"
    "pm_Load (NewPollerManager s [] [] r) = (res, m)"
  shows "res = Inr () \<and> map_of (pm_states m) (poller_str p) = Some (restarted p st) \<and>
    map_of (pm_stats m) (poller_str p) = Some (restarted_stats sx)"
proof -
  let ?q = "read_Poller p"
  note all = all_pollers [OF assms(2,3)] and loaded = pm_Load_works [OF assms(1,9)]
  have q: "poller_key ?q = poller_key p" "p_AdminState ?q = p_AdminState p" by (simp_all add: read_Poller_def)
  have inq: "?q \<in> set (all_pollers (st_db s))" using assms(4) all(1) by blast
  note hit = restored_rows(1) [OF assms(2) q assms(5,6)] restored_rows(2) [OF assms(2) q assms(7,8)]
  have "map_of (pm_states m) (state_key (poller_key ?q)) = Some (restarted p st)"
    unfolding loaded(2) 
    by (rule foldl_one_entry [where upd = "\<lambda>p. restored p (st_db s)", OF restored_frame(1) inq all(3,2) hit(1)]) simp_all
  moreover have "map_of (pm_stats m) (state_key (poller_key ?q)) = Some (restarted_stats sx)"
    unfolding loaded(3) 
    by (rule foldl_one_entry [where upd = "\<lambda>p. restored_stats p (st_db s)", OF restored_frame(2) inq all(3,2) hit(2)]) simp_all
  ultimately show ?thesis using loaded(1) unfolding q(1) pollerKey_state_key by blast
qed

text \<open>C26: what a restart restores. When the rows of a poller are those the synchronisation wrote for its
  state and its counters, a fresh manager that loads the store has that state again, with the
  admin state of the poller's row, no recent successes counted and nothing dirty, and the four counters; the poll
  times start afresh.\<close>

theorem restart_restores_state:
  assumes "faultless s" "db_ok (st_db s)" "list_all slash_free (db_pollers (st_db s))"
    "p \<in> set (db_pollers (st_db s))"
    "(ps_Namespace st, ps_Target st, ps_Poller st) = poller_key p" "state_row st \<in> set (db_states (st_db s))"
    "(st_Namespace sx, st_Target sx, st_Poller sx) = poller_key p" "stats_row sx \<in> set (db_stats (st_db s))"
    "pm_Load (NewPollerManager s [] [] r) = (res, m)"
  shows "res = Inr () \<and> map_of (pm_states m) (poller_str p) = Some (restarted p st) \<and>
    map_of (pm_stats m) (poller_str p) = Some (restarted_stats sx)"
  by (rule pm_Load_restores [OF assms])

definition ex_saved :: PollerState where
  "ex_saved = (NewPollerState ''n'' ''t'' ''a'')\<lparr>ps_AdminState := AdminStateEnabled, ps_OperState := OperStateRunning,
     ps_HealthState := HealthStateDegraded, ps_ConsecutiveFailures := 4, ps_LastError := ''timeout''\<rparr>"

definition ex_saved_stats :: PollerStats where
  "ex_saved_stats = RecordPolls [(True, False, 7), (False, True, 5000)] (NewPollerStats ''n'' ''t'' ''a'')"

definition ex_saved_store :: Store where
  "ex_saved_store = (open_store (\<lambda>_. None) None)\<lparr>st_db :=
     put_stats (stats_row ex_saved_stats) (put_state (state_row ex_saved) (st_db (pm_store ex_pm)))\<rparr>"

lemma restart_restores_state_witness:
  "let p = hd (db_pollers (st_db ex_saved_store));
       m = snd (pm_Load (NewPollerManager ex_saved_store [] [] NewConfigResolver))
   in map_of (pm_states m) (poller_str p) = Some (restarted p ex_saved) \<and>
      map_option st_PollsTotal (map_of (pm_stats m) (poller_str p)) = Some 2"
proof -
  define p where "p = hd (db_pollers (st_db ex_saved_store))"
  define m where "m = snd (pm_Load (NewPollerManager ex_saved_store [] [] NewConfigResolver))"
  have "faultless ex_saved_store" by (simp add: faultless_def ex_saved_store_def open_store_def)
  moreover have "db_ok (st_db ex_saved_store)" by code_simp
  moreover have "list_all slash_free (db_pollers (st_db ex_saved_store))" by code_simp
  moreover have "p \<in> set (db_pollers (st_db ex_saved_store))" unfolding p_def by code_simp
  moreover have "(ps_Namespace ex_saved, ps_Target ex_saved, ps_Poller ex_saved) = poller_key p" unfolding p_def by code_simp
  moreover have "state_row ex_saved \<in> set (db_states (st_db ex_saved_store))" by code_simp
  moreover have "(st_Namespace ex_saved_stats, st_Target ex_saved_stats, st_Poller ex_saved_stats) = poller_key p"
    unfolding p_def by code_simp
  moreover have "stats_row ex_saved_stats \<in> set (db_stats (st_db ex_saved_store))" by code_simp
  ultimately have "map_of (pm_states m) (poller_str p) = Some (restarted p ex_saved)"
    "map_of (pm_stats m) (poller_str p) = Some (restarted_stats ex_saved_stats)"
    using restart_restores_state [OF _ _ _ _ _ _ _ _ prod.collapse [symmetric]] unfolding m_def by blast+
  moreover have "st_PollsTotal ex_saved_stats = 2" by code_simp
  ultimately show ?thesis unfolding p_def [symmetric] m_def [symmetric] Let_def by simp
qed

end
