(* ===== verification/TreeMgr.thy ===== *)
theory TreeMgr
  imports PollerMgr
begin

text \<open>
  The tree manager of internal/manager/tree.go: a read cache of tree nodes in front of the store,
  its invalidation after each writing operation, link references, and browsing with links resolved.

  The file has its own \<open>normalizePath\<close>, which is the store's word for word. \<open>Browse\<close> asks the
  other two managers, so it works on the store the poller manager points to.
\<close>

type_synonym TreeManager = "(string, TreeNode) gomap"

definition NewTreeManager :: TreeManager where
  "NewTreeManager = []"

definition treeKey :: "string \<Rightarrow> string \<Rightarrow> string" where
  "treeKey namespace nodePath = namespace @ '':'' @ normalizePath nodePath"

text \<open>\<open>node.LinkRef\<close>, the empty string for a node without one.\<close>

definition link_ref :: "TreeNode \<Rightarrow> string" where
  "link_ref n = (case tn_LinkRef n of None \<Rightarrow> [] | Some r \<Rightarrow> r)"

definition tree_Load :: "string \<Rightarrow> TreeManager \<Rightarrow> unit go \<times> TreeManager" where
  "tree_Load namespace m = (Inr (), m)"

section \<open>Invalidation\<close>

definition invalidatePath :: "string \<Rightarrow> string \<Rightarrow> TreeManager \<Rightarrow> TreeManager" where
  "invalidatePath namespace nodePath m = mdel (treeKey namespace nodePath) m"

text \<open>\<open>for k := range m.nodes { if strings.HasPrefix(k, prefix) { delete(m.nodes, k) } }\<close>.\<close>

definition drop_keys :: "string \<Rightarrow> TreeManager \<Rightarrow> TreeManager" where
  "drop_keys pre m = filter (\<lambda>e. \<not> has_prefix (fst e) pre) m"

definition invalidateAllForNamespace :: "string \<Rightarrow> TreeManager \<Rightarrow> TreeManager" where
  "invalidateAllForNamespace namespace m = drop_keys (namespace @ '':'') m"

section \<open>Operations\<close>

definition tree_CreateDirectory ::
    "int \<Rightarrow> string \<Rightarrow> string \<Rightarrow> string \<Rightarrow> TreeManager \<Rightarrow> Store \<Rightarrow> unit go \<times> TreeManager \<times> Store" where
  "tree_CreateDirectory now namespace nodePath0 description m s =
     (let nodePath = normalizePath nodePath0 in
      case CreateTreeDirectory now namespace nodePath description s of
        (Inl err, s') \<Rightarrow> (Inl err, m, s')
      | (Inr _, s') \<Rightarrow> (Inr (), invalidatePath namespace nodePath m, s'))"

definition tree_CreateLink ::
    "int \<Rightarrow> string \<Rightarrow> string \<Rightarrow> string \<Rightarrow> string \<Rightarrow> string \<Rightarrow> TreeManager \<Rightarrow> Store \<Rightarrow>
     unit go \<times> TreeManager \<times> Store" where
  "tree_CreateLink now namespace treePath0 linkName linkType linkRef m s =
     (let treePath = normalizePath treePath0 in
      case (if treePath \<noteq> ''/'' then CreateTreeDirectory now namespace treePath [] s else (Inr (), s)) of
        (Inl err, s1) \<Rightarrow> (Inl err, m, s1)
      | (Inr _, s1) \<Rightarrow>
          (case CreateTreeLink now namespace treePath linkName linkType linkRef s1 of
             (Inl err, s2) \<Rightarrow> (Inl err, m, s2)
           | (Inr _, s2) \<Rightarrow> (Inr (), invalidatePath namespace (path_Join treePath linkName) m, s2)))"

definition tree_Get ::
    "string \<Rightarrow> string \<Rightarrow> TreeManager \<Rightarrow> Store \<Rightarrow> TreeNode option go \<times> TreeManager \<times> Store" where
  "tree_Get namespace nodePath0 m s =
     (let nodePath = normalizePath nodePath0; key = treeKey namespace nodePath in
      case map_of m key of
        Some node \<Rightarrow> (Inr (Some node), m, s)
      | None \<Rightarrow>
          (case GetTreeNode namespace nodePath s of
             (Inl err, s') \<Rightarrow> (Inl err, m, s')
           | (Inr None, s') \<Rightarrow> (Inr None, m, s')
           | (Inr (Some node), s') \<Rightarrow> (Inr (Some node), mput key node m, s')))"

definition tree_ListChildren :: "string \<Rightarrow> string \<Rightarrow> TreeNode list sql" where
  "tree_ListChildren namespace parentPath = ListTreeChildren namespace (normalizePath parentPath)"

definition tree_Delete ::
    "string \<Rightarrow> string \<Rightarrow> bool \<Rightarrow> bool \<Rightarrow> TreeManager \<Rightarrow> Store \<Rightarrow> nat go \<times> TreeManager \<times> Store" where
  "tree_Delete namespace nodePath0 recursive force m s =
     (let nodePath = normalizePath nodePath0 in
      case DeleteTreeNode namespace nodePath recursive force s of
        (Inl err, s') \<Rightarrow> (Inl err, m, s')
      | (Inr deleted, s') \<Rightarrow>
          (let m1 = invalidatePath namespace nodePath m in
           (Inr deleted, if recursive then drop_keys (treeKey namespace nodePath @ ''/'') m1 else m1, s')))"

definition ResolvePath ::
    "string \<Rightarrow> string \<Rightarrow> TreeManager \<Rightarrow> Store \<Rightarrow> (string \<times> string) go \<times> TreeManager \<times> Store" where
  "ResolvePath namespace nodePath0 m s =
     (let nodePath = normalizePath nodePath0 in
      case tree_Get namespace nodePath m s of
        (Inl err, m', s') \<Rightarrow> (Inl err, m', s')
      | (Inr None, m', s') \<Rightarrow> (Inl (Errorf (''path not found: '' @ nodePath)), m', s')
      | (Inr (Some node), m', s') \<Rightarrow> (Inr (tn_NodeType node, link_ref node), m', s'))"

definition tree_GetLinksToTarget :: "string \<Rightarrow> string \<Rightarrow> string list sql" where
  "tree_GetLinksToTarget namespace targetName = GetLinksToTarget namespace targetName"

definition tree_GetLinksToPoller :: "string \<Rightarrow> string \<Rightarrow> string \<Rightarrow> string list sql" where
  "tree_GetLinksToPoller namespace targetName pollerName = GetLinksToPoller namespace targetName pollerName"

definition delete_links :: "nat sql \<Rightarrow> string \<Rightarrow> TreeManager \<Rightarrow> Store \<Rightarrow> nat go \<times> TreeManager \<times> Store" where
  "delete_links f namespace m s =
     (case f s of
        (Inl err, s') \<Rightarrow> (Inl err, m, s')
      | (Inr deleted, s') \<Rightarrow> (Inr deleted, invalidateAllForNamespace namespace m, s'))"

definition tree_DeleteLinksToTarget ::
    "string \<Rightarrow> string \<Rightarrow> TreeManager \<Rightarrow> Store \<Rightarrow> nat go \<times> TreeManager \<times> Store" where
  "tree_DeleteLinksToTarget namespace targetName =
     delete_links (DeleteLinksToTarget namespace targetName) namespace"

definition tree_DeleteLinksToPoller ::
    "string \<Rightarrow> string \<Rightarrow> string \<Rightarrow> TreeManager \<Rightarrow> Store \<Rightarrow> nat go \<times> TreeManager \<times> Store" where
  "tree_DeleteLinksToPoller namespace targetName pollerName =
     delete_links (DeleteLinksToPoller namespace targetName pollerName) namespace"

definition tree_DeleteLinksToTargetAndPollers ::
    "string \<Rightarrow> string \<Rightarrow> TreeManager \<Rightarrow> Store \<Rightarrow> nat go \<times> TreeManager \<times> Store" where
  "tree_DeleteLinksToTargetAndPollers namespace targetName =
     delete_links (DeleteLinksToTargetAndPollers namespace targetName) namespace"

section \<open>Link references\<close>

text \<open>The link type, the target and the poller, which is empty for a target.\<close>

definition ParseLinkRef :: "string \<Rightarrow> (string \<times> string \<times> string) go" where
  "ParseLinkRef ref =
     (if has_prefix ref ''target:'' then Inr (''target'', drop 7 ref, [])
      else if has_prefix ref ''poller:'' then
        (let parts = split_n slash 2 (drop 7 ref) in
         if length parts \<noteq> 2 then Inl (Errorf (''invalid poller reference: '' @ ref))
         else Inr (''poller'', parts ! 0, parts ! 1))
      else Inl (Errorf (''unknown link type: '' @ ref)))"

record TreeBrowseResult =
  br_Path :: string
  br_NodeType :: string
  br_Description :: string
  br_LinkRef :: string
  br_LinkedTarget :: "Target option"
  br_LinkedPoller :: "Poller option"

text \<open>
  One turn of \<open>Browse\<close>'s loop. An unreadable reference, a lookup that fails and one that finds
  nothing all leave the link unresolved.
\<close>

definition browse_child ::
    "string \<Rightarrow> bool \<Rightarrow> TreeNode \<Rightarrow> TargetManager \<Rightarrow> PollerManager \<Rightarrow>
     TreeBrowseResult \<times> TargetManager \<times> PollerManager" where
  "browse_child namespace resolveLinks child tm pm =
     (let result = \<lparr>br_Path = tn_Path child, br_NodeType = tn_NodeType child,
            br_Description = (case tn_Description child of None \<Rightarrow> [] | Some d \<Rightarrow> d),
            br_LinkRef = link_ref child, br_LinkedTarget = None, br_LinkedPoller = None\<rparr>
      in if \<not> resolveLinks \<or> link_ref child = [] then (result, tm, pm)
         else case ParseLinkRef (link_ref child) of
           Inl _ \<Rightarrow> (result, tm, pm)
         | Inr (linkType, targetName, pollerName) \<Rightarrow>
             if linkType = ''target'' then
               (case tm_Get namespace targetName tm (pm_store pm) of
                  (r, tm', s') \<Rightarrow>
                    ((case r of Inr (Some t) \<Rightarrow> result\<lparr>br_LinkedTarget := Some t\<rparr> | _ \<Rightarrow> result),
                     tm', pm\<lparr>pm_store := s'\<rparr>))
             else
               (case pm_Get namespace targetName pollerName pm of
                  (r, pm') \<Rightarrow>
                    ((case r of Inr (Some p) \<Rightarrow> result\<lparr>br_LinkedPoller := Some p\<rparr> | _ \<Rightarrow> result), tm, pm')))"

fun browse_children ::
    "string \<Rightarrow> bool \<Rightarrow> TreeNode list \<Rightarrow> TargetManager \<Rightarrow> PollerManager \<Rightarrow>
     TreeBrowseResult list \<times> TargetManager \<times> PollerManager" where
  "browse_children namespace resolveLinks [] tm pm = ([], tm, pm)"
| "browse_children namespace resolveLinks (child # children) tm pm =
     (case browse_child namespace resolveLinks child tm pm of
        (result, tm1, pm1) \<Rightarrow>
          (case browse_children namespace resolveLinks children tm1 pm1 of
             (results, tm2, pm2) \<Rightarrow> (result # results, tm2, pm2)))"

definition tree_Browse ::
    "string \<Rightarrow> string \<Rightarrow> bool \<Rightarrow> TargetManager \<Rightarrow> PollerManager \<Rightarrow>
     TreeBrowseResult list go \<times> TargetManager \<times> PollerManager" where
  "tree_Browse namespace parentPath resolveLinks tm pm =
     (case on_store (tree_ListChildren namespace parentPath) pm of
        (Inl err, pm1) \<Rightarrow> (Inl err, tm, pm1)
      | (Inr children, pm1) \<Rightarrow>
          (case browse_children namespace resolveLinks children tm pm1 of
             (results, tm2, pm2) \<Rightarrow> (Inr results, tm2, pm2)))"

section \<open>The cache agrees with the tree\<close>

definition plain_ns :: "string \<times> string \<Rightarrow> bool" where
  "plain_ns k \<longleftrightarrow> CHR '':'' \<notin> set (fst k)"

definition node_str :: "string \<times> string \<Rightarrow> string" where
  "node_str k = fst k @ '':'' @ snd k"

interpretation trc: entity_cache node_key "\<lambda>n. n" node_str plain_ns
proof unfold_locales
  fix k k' assume "plain_ns k" "plain_ns k'"
    "node_str k = node_str k'"
  then show "k = k'"
    using append_sep_inject [of "CHR '':''" "fst k" "fst k'" "snd k" "snd k'"]
    by (cases k; cases k') (auto simp: plain_ns_def node_str_def)
qed auto

definition tree_ok :: "TreeManager \<Rightarrow> Store \<Rightarrow> bool" where
  "tree_ok m s \<longleftrightarrow> trc.coherent m (db_tree (st_db s))"

lemma tree_ok_mono:
  assumes "tree_ok m s" "set (db_tree (st_db s)) \<subseteq> set (db_tree (st_db s'))"
  shows "tree_ok m s'" "tree_ok (invalidatePath namespace p m) s'"
  using trc.coherent_mono [OF assms(1) [unfolded tree_ok_def] assms(2)] trc.coherent_drop
  by (auto simp: tree_ok_def invalidatePath_def)

text \<open>Rows that are deleted go from the cache when every key of theirs is dropped.\<close>

lemma tree_ok_purge:
  assumes "trc.coherent m rows" "\<And>n. P n \<Longrightarrow> n \<in> set rows \<Longrightarrow> Q (node_str (node_key n))"
  shows "trc.coherent (filter (\<lambda>e. \<not> Q (fst e)) m) (sql_delete P rows)"
  unfolding trc.coherent_def
proof (intro conjI allI impI)
  have g: "gomap_ok m" using assms(1) by (simp add: trc.coherent_def)
  then show "gomap_ok (filter (\<lambda>e. \<not> Q (fst e)) m)" by (rule gomap_ok_filter)
  fix k c assume "map_of (filter (\<lambda>e. \<not> Q (fst e)) m) k = Some c"
  then have kc: "map_of m k = Some c" "\<not> Q k" using map_of_filter_key [of "\<lambda>k. \<not> Q k" m k] by (auto split: if_splits)
  note c = trc.coherentD [OF assms(1) kc(1)]
  show "plain_ns (node_key c)" "node_str (node_key c) = k" using c(1,2) by blast+
  then show "\<exists>r \<in> set (sql_delete P rows). r = c" using c(3) assms(2) kc(2) by auto
qed

lemma normalize_twice: "canonical (normalizePath (normalizePath p))"
proof (rule normalize_canonical)
  define q where "q = (if \<not> has_prefix (path_Clean p) ''/'' then ''/'' @ path_Clean p else path_Clean p)"
  obtain r where q: "q = slash # r" unfolding q_def by (cases "has_prefix (path_Clean p) ''/''") (auto simp: has_prefix_slash)
  have "normalizePath p = (if r \<noteq> [] \<and> has_suffix q ''/'' then take (length r) q else q)"
    by (simp add: normalizePath_def Let_def q_def [symmetric] trim_suffix_def q)
  then show "has_prefix (normalizePath p) ''/''" by (cases r) (auto simp: q has_prefix_slash)
qed

lemma normalize_thrice: "normalizePath (normalizePath (normalizePath p)) = normalizePath (normalizePath p)"
  by (rule canonical_fixed [OF normalize_twice])

text \<open>Creating adds rows and changes none, however far it gets.\<close>

lemma keeps_if: "keeps J m \<Longrightarrow> keeps J m' \<Longrightarrow> keeps J (if c then m else m')"
  by simp

lemma make_dirs_grow: "keeps (\<lambda>d. R \<subseteq> set (db_tree d)) (make_dirs now namespace description cur parts)"
proof (induction parts arbitrary: cur)
  case (Cons part parts)
  have "keeps (\<lambda>d. R \<subseteq> set (db_tree d)) (exec (insert_dir now namespace p desc))" for p desc
    by (rule keeps_exec) (auto simp: insert_dir_def)
  then show ?case by (auto simp: Let_def intro!: keeps_bnd keeps_wrap keeps_ret Cons.IH)
qed (simp add: keeps_ret)

lemma CreateTreeDirectory_grows: "keeps (\<lambda>d. R \<subseteq> set (db_tree d)) (CreateTreeDirectory now namespace p description)"
  unfolding CreateTreeDirectory_def Let_def by (rule keeps_Transaction [OF make_dirs_grow])

lemma keeps_validate: "keeps J (validateLinkRef namespace linkType linkRef)"
  unfolding validateLinkRef_def TargetExists_def PollerExists_def Let_def
  by (intro keeps_if keeps_query keeps_fail)

lemma CreateTreeLink_grows:
  "keeps (\<lambda>d. R \<subseteq> set (db_tree d)) (CreateTreeLink now namespace p name linkType linkRef)"
  unfolding CreateTreeLink_def Let_def
  by (intro keeps_if keeps_fail keeps_bnd keeps_validate keeps_stmt)
     (auto simp: sql_insert_def split: sum.splits if_splits)

lemma keepsD: "keeps J m \<Longrightarrow> m s = (r, s') \<Longrightarrow> J (st_db s) \<Longrightarrow> J (st_db s')"
  unfolding keeps_def by (metis snd_conv)

lemma tree_CreateDirectory_ok:
  assumes "tree_ok m s" "tree_CreateDirectory now namespace p description m s = (r, m', s')"
  shows "tree_ok m' s'"
proof -
  obtain q s1 where q: "CreateTreeDirectory now namespace (normalizePath p) description s = (q, s1)" by fastforce
  have "set (db_tree (st_db s)) \<subseteq> set (db_tree (st_db s1))"
    by (rule keepsD [OF CreateTreeDirectory_grows q]) simp
  note ok = tree_ok_mono [OF assms(1) this]
  show ?thesis using assms(2) q ok by (cases q) (auto simp: tree_CreateDirectory_def Let_def)
qed

lemma tree_CreateLink_ok:
  assumes "tree_ok m s" "tree_CreateLink now namespace p name linkType linkRef m s = (r, m', s')"
  shows "tree_ok m' s'"
proof -
  let ?p = "normalizePath p"
  obtain q s1 where q: "(if ?p \<noteq> ''/'' then CreateTreeDirectory now namespace ?p [] s else (Inr (), s)) = (q, s1)"
    by fastforce
  have sub: "set (db_tree (st_db s)) \<subseteq> set (db_tree (st_db s1))"
  proof (cases "?p = ''/''")
    case False
    then have "CreateTreeDirectory now namespace ?p [] s = (q, s1)" using q by simp
    then show ?thesis by (rule keepsD [OF CreateTreeDirectory_grows]) simp
  qed (use q in simp)
  obtain q2 s2 where q2: "CreateTreeLink now namespace ?p name linkType linkRef s1 = (q2, s2)" by fastforce
  have "set (db_tree (st_db s1)) \<subseteq> set (db_tree (st_db s2))"
    by (rule keepsD [OF CreateTreeLink_grows q2]) simp
  with sub have sub2: "set (db_tree (st_db s)) \<subseteq> set (db_tree (st_db s2))" by blast
  note ok = tree_ok_mono [OF assms(1) sub] tree_ok_mono [OF assms(1) sub2]
  show ?thesis
    using assms(2) unfolding tree_CreateLink_def Let_def q prod.case
    using q2 ok by (cases q; cases q2) auto
qed

lemma GetTreeNode_db:
  assumes "GetTreeNode namespace p s = (r, s')"
  shows "st_db s' = st_db s"
    "r = Inr x \<Longrightarrow> x = sql_first (\<lambda>n. node_key n = (namespace, normalizePath p)) (db_tree (st_db s))"
  using query_result [OF assms [unfolded GetTreeNode_def Let_def]] by blast+

lemma tree_Get_ok:
  assumes "tree_ok m s" "tree_Get namespace p m s = (r, m', s')" "CHR '':'' \<notin> set namespace"
  shows "tree_ok m' s'"
proof -
  let ?p = "normalizePath p"
  obtain q s1 where q: "GetTreeNode namespace ?p s = (q, s1)" by fastforce
  note db = GetTreeNode_db [OF q]
  show ?thesis
  proof (cases "\<exists>n. map_of m (treeKey namespace ?p) = None \<and> q = Inr (Some n)")
    case False
    then show ?thesis using assms(1,2) q db
      by (auto simp: tree_Get_def tree_ok_def Let_def split: option.splits sum.splits)
  next
    case True
    then obtain n where n: "map_of m (treeKey namespace ?p) = None" "q = Inr (Some n)" by blast
    have row: "n \<in> set (db_tree (st_db s))" "node_key n = (namespace, normalizePath ?p)"
      using sql_first_Some [OF db(2) [OF n(2), symmetric]] by blast+
    have "trc.coherent (mput (treeKey namespace ?p) n m) (db_tree (st_db s))"
      by (rule trc.coherent_put [OF assms(1) [unfolded tree_ok_def] row(1) refl])
         (use assms(3) row(2) in \<open>auto simp: plain_ns_def node_str_def treeKey_def\<close>)
    then show ?thesis using assms(2) q n db by (auto simp: tree_Get_def tree_ok_def Let_def)
  qed
qed

lemma ResolvePath_ok:
  assumes "tree_ok m s" "ResolvePath namespace p m s = (r, m', s')" "CHR '':'' \<notin> set namespace"
  shows "tree_ok m' s'"
proof -
  obtain q m1 s1 where q: "tree_Get namespace (normalizePath p) m s = (q, m1, s1)" by (metis prod_cases3)
  have "m' = m1" "s' = s1" using assms(2) q by (auto simp: ResolvePath_def Let_def split: sum.splits option.splits)
  then show ?thesis using tree_Get_ok [OF assms(1) q assms(3)] by simp
qed

definition doomed :: "string \<Rightarrow> string \<Rightarrow> bool \<Rightarrow> TreeNode \<Rightarrow> bool" where
  "doomed namespace q recursive n \<longleftrightarrow> tn_Namespace n = namespace \<and>
     (tn_Path n = q \<or> recursive \<and> sql_like (tn_Path n) (q @ ''/%''))"

lemma runs_if: "runs m P \<Longrightarrow> runs m' P \<Longrightarrow> runs (if c then m else m') P"
  by simp

lemma runs_delete_nodes:
  "runs (delete_nodes P) (\<lambda>d x d'. x = sql_count P (db_tree d) \<and> d' = d\<lparr>db_tree := sql_delete P (db_tree d)\<rparr>)"
  unfolding delete_nodes_def by (rule runs_mono [OF runs_stmt]) auto

lemma runs_DeleteTreeNode:
  "runs (DeleteTreeNode namespace p recursive force)
     (\<lambda>d x d'. d' = d\<lparr>db_tree := sql_delete (doomed namespace (normalizePath p) recursive) (db_tree d)\<rparr>)"
  (is "runs _ ?P")
proof -
  let ?q = "normalizePath p"
  have d: "(\<lambda>n. tn_Namespace n = namespace \<and> (tn_Path n = ?q \<or> sql_like (tn_Path n) (?q @ ''/%''))) = doomed namespace ?q True"
    "(\<lambda>n. tn_Namespace n = namespace \<and> tn_Path n = ?q) = doomed namespace ?q False"
    by (simp_all add: doomed_def fun_eq_iff)
  have t: "runs (Transaction (if recursive then delete_nodes (doomed namespace ?q True)
      else delete_nodes (doomed namespace ?q False))) ?P"
    by (rule runs_mono [OF runs_Transaction [of _ ?P]])
       (auto intro: runs_mono [OF runs_delete_nodes])
  have l: "runs (ListTreeChildren namespace ?q) (\<lambda>d x d'. d' = d)"
    unfolding ListTreeChildren_def Let_def by (rule runs_mono [OF runs_wrap [OF runs_query]]) simp
  have "runs (if (c :: TreeNode list) \<noteq> [] \<and> \<not> recursive \<and> \<not> force then fail e
      else Transaction (if recursive then delete_nodes (doomed namespace ?q True)
        else delete_nodes (doomed namespace ?q False))) ?P" for c e
    by (rule runs_if [OF runs_fail t])
  from runs_bnd [OF l this]
  show ?thesis
    unfolding DeleteTreeNode_def Let_def d by (rule runs_mono) auto
qed

lemma safe_DeleteTreeNode: "safe (DeleteTreeNode namespace p recursive force)"
proof -
  have "safe (if (c :: TreeNode list) \<noteq> [] \<and> \<not> recursive \<and> \<not> force then fail e else Transaction m)" for c e m
    by simp
  then show ?thesis
    unfolding DeleteTreeNode_def ListTreeChildren_def Let_def by (rule safe_wrap_query_bnd)
qed

text \<open>Without wildcards in the path, the pattern is the prefix the invalidation uses.\<close>

lemma like_below:
  assumes "CHR ''%'' \<notin> set q" "CHR ''_'' \<notin> set q"
  shows "sql_like s (q @ ''/%'') \<longleftrightarrow> has_prefix s (q @ ''/'')"
proof -
  have all: "sql_like r ''%''" for r by (induction r) auto
  have "sql_like s ((q @ ''/'') @ ''%'') \<longleftrightarrow> (\<exists>r. s = (q @ ''/'') @ r \<and> sql_like r ''%'')"
    by (rule like_no_wildcards) (use assms in auto)
  then show ?thesis using all by (auto simp: has_prefix_iff)
qed

lemma path_chars:
  "set (path_Clean p) \<subseteq> set p \<union> {slash, CHR ''.''}" "set (normalizePath p) \<subseteq> set p \<union> {slash, CHR ''.''}"
proof -
  have part: "set c \<subseteq> set p" if "c \<in> set (split_on slash p)" for c
    using that
  proof (induction p arbitrary: c)
    case (Cons x xs)
    show ?case
    proof (cases "split_on slash xs")
      case split: (Cons a ps)
      have "set a \<subseteq> set xs" "\<forall>c \<in> set ps. set c \<subseteq> set xs" using Cons.IH split by auto
      then show ?thesis using Cons.prems split by (auto split: if_splits)
    qed simp
  qed simp
  have step: "\<Union> (set ` set (foldl (clean_step r) out cs)) \<subseteq> \<Union> (set ` set out) \<union> \<Union> (set ` set cs)" for r out cs
  proof (induction cs arbitrary: out)
    case (Cons c cs)
    have "\<Union> (set ` set (clean_step r out c)) \<subseteq> \<Union> (set ` set out) \<union> set c"
      by (auto simp: clean_step_def dest: in_set_butlastD)
    with Cons [of "clean_step r out c"] show ?case by auto
  qed simp
  have join: "set (join_with slash cs) \<subseteq> \<Union> (set ` set cs) \<union> {slash}" for cs
    by (induction slash cs rule: join_with.induct) auto
  have out: "set (join_with slash (foldl (clean_step r) [] (split_on slash p))) \<subseteq> set p \<union> {slash}" for r
  proof -
    have "\<Union> (set ` set (split_on slash p)) \<subseteq> set p" using part by blast
    then have "\<Union> (set ` set (foldl (clean_step r) [] (split_on slash p))) \<subseteq> set p"
      using step [of r "[]" "split_on slash p"] by simp
    then show ?thesis using join [of "foldl (clean_step r) [] (split_on slash p)"] by blast
  qed
  then show c: "set (path_Clean p) \<subseteq> set p \<union> {slash, CHR ''.''}"
    by (auto simp: path_Clean_def Let_def)
  define q where "q = (if \<not> has_prefix (path_Clean p) ''/'' then ''/'' @ path_Clean p else path_Clean p)"
  have "normalizePath p = q \<or> (\<exists>k. normalizePath p = take k q)"
    by (simp add: normalizePath_def Let_def q_def [symmetric] trim_suffix_def) blast
  then have "set (normalizePath p) \<subseteq> set q" using set_take_subset by fastforce
  also have "set q \<subseteq> insert slash (set (path_Clean p))" by (simp add: q_def subset_insertI)
  finally have "set (normalizePath p) \<subseteq> insert slash (set (path_Clean p))" .
  with c show "set (normalizePath p) \<subseteq> set p \<union> {slash, CHR ''.''}" by blast
qed

lemma tree_Delete_ok:
  assumes "tree_ok m s" "tree_Delete namespace p recursive force m s = (r, m', s')"
    "recursive \<longrightarrow> CHR ''%'' \<notin> set p \<and> CHR ''_'' \<notin> set p"
  shows "tree_ok m' s'"
proof (rule store_step [OF safe_DeleteTreeNode runs_DeleteTreeNode, of namespace "normalizePath p" recursive force s])
  fix e t assume "DeleteTreeNode namespace (normalizePath p) recursive force s = (Inl e, t)" "st_db t = st_db s"
  then show ?thesis using assms(1,2) by (simp add: tree_Delete_def tree_ok_def Let_def)
next
  let ?q = "normalizePath (normalizePath p)"
  fix x t
  assume R: "DeleteTreeNode namespace (normalizePath p) recursive force s = (Inr x, t)"
    "st_db t = (st_db s)\<lparr>db_tree := sql_delete (doomed namespace ?q recursive) (db_tree (st_db s))\<rparr>"
  have key: "treeKey namespace (normalizePath p) = namespace @ '':'' @ ?q"
    by (simp add: treeKey_def)
  define Q where "Q k \<longleftrightarrow> k = namespace @ '':'' @ ?q \<or>
     recursive \<and> has_prefix k ((namespace @ '':'' @ ?q) @ ''/'')" for k
  have hit: "Q (node_str (node_key n))" if n: "doomed namespace ?q recursive n" for n
  proof (cases "tn_Path n = ?q")
    case True
    then show ?thesis using n by (simp add: Q_def doomed_def node_str_def)
  next
    case False
    have rec: "recursive" "sql_like (tn_Path n) (?q @ ''/%'')" "tn_Namespace n = namespace"
      using n False unfolding doomed_def by blast+
    have "CHR ''%'' \<notin> set ?q" "CHR ''_'' \<notin> set ?q"
      using path_chars(2) [of "normalizePath p"] path_chars(2) [of p] assms(3) rec(1) by auto
    from like_below [OF this] rec(2) have "has_prefix (tn_Path n) (?q @ ''/'')" by blast
    then obtain r where "tn_Path n = (?q @ ''/'') @ r" unfolding has_prefix_iff by blast
    then have "node_str (node_key n) = ((namespace @ '':'' @ ?q) @ ''/'') @ r"
      by (simp add: node_str_def rec(3))
    then show ?thesis using rec(1) unfolding Q_def has_prefix_iff by blast
  qed
  have m': "m' = filter (\<lambda>e. \<not> Q (fst e)) m" "s' = t"
  proof -
    have d: "mdel k m = filter (\<lambda>e. fst e \<noteq> k) m" for k
      by (induction m) auto
    show "m' = filter (\<lambda>e. \<not> Q (fst e)) m"
      using assms(2) R(1) by (cases recursive)
        (auto simp: tree_Delete_def Let_def invalidatePath_def drop_keys_def key d Q_def intro!: filter_cong)
    show "s' = t" using assms(2) R(1) by (simp add: tree_Delete_def Let_def)
  qed
  have db: "db_tree (st_db t) = sql_delete (doomed namespace ?q recursive) (db_tree (st_db s))"
    using R(2) by simp
  show ?thesis
    unfolding tree_ok_def m' db
    by (rule tree_ok_purge [OF assms(1) [unfolded tree_ok_def], of "doomed namespace ?q recursive" Q]) (rule hit)
qed

lemma delete_links_ok:
  assumes "tree_ok m s" "delete_links (delete_nodes P) namespace m s = (r, m', s')"
    "\<And>n. P n \<Longrightarrow> tn_Namespace n = namespace"
  shows "tree_ok m' s'"
proof (rule store_step [OF _ runs_delete_nodes, of P s])
  fix e t assume "delete_nodes P s = (Inl e, t)" "st_db t = st_db s"
  then show ?thesis using assms(1,2) by (simp add: delete_links_def tree_ok_def)
next
  fix x t
  assume R: "delete_nodes P s = (Inr x, t)"
    "x = sql_count P (db_tree (st_db s)) \<and> st_db t = (st_db s)\<lparr>db_tree := sql_delete P (db_tree (st_db s))\<rparr>"
  have m': "m' = filter (\<lambda>e. \<not> has_prefix (fst e) (namespace @ '':'')) m" "s' = t"
    using assms(2) R(1) by (auto simp: delete_links_def invalidateAllForNamespace_def drop_keys_def)
  have hit: "has_prefix (node_str (node_key n)) (namespace @ '':'')" if "P n" for n
    using assms(3) [OF that] unfolding has_prefix_iff node_str_def by simp
  have db: "db_tree (st_db t) = sql_delete P (db_tree (st_db s))" using R(2) by simp
  show ?thesis
    unfolding tree_ok_def m' db
    by (rule tree_ok_purge [OF assms(1) [unfolded tree_ok_def], of P "\<lambda>k. has_prefix k (namespace @ '':'')"])
       (rule hit)
qed (simp add: delete_nodes_def)

section \<open>Runs\<close>

text \<open>
  The methods in any order. A recursive \<open>Delete\<close> is of a path without the wildcards of \<open>LIKE\<close>; what
  other managers do to the tree behind the cache is not a step, see \<open>deleted_target_link_stays_cached\<close>.
\<close>

inductive tree_step :: "TreeManager \<times> Store \<Rightarrow> TreeManager \<times> Store \<Rightarrow> bool" where
  make_dir: "tree_CreateDirectory now ns p description m s = (r, m', s') \<Longrightarrow> tree_step (m, s) (m', s')"
| make_link: "tree_CreateLink now ns p name linkType linkRef m s = (r, m', s') \<Longrightarrow> tree_step (m, s) (m', s')"
| get: "tree_Get ns p m s = (q, m', s') \<Longrightarrow> CHR '':'' \<notin> set ns \<Longrightarrow> tree_step (m, s) (m', s')"
| resolve: "ResolvePath ns p m s = (l, m', s') \<Longrightarrow> CHR '':'' \<notin> set ns \<Longrightarrow> tree_step (m, s) (m', s')"
| delete: "tree_Delete ns p recursive force m s = (k, m', s') \<Longrightarrow>
    recursive \<longrightarrow> CHR ''%'' \<notin> set p \<and> CHR ''_'' \<notin> set p \<Longrightarrow> tree_step (m, s) (m', s')"
| unlink_target: "tree_DeleteLinksToTarget ns t m s = (k, m', s') \<Longrightarrow> tree_step (m, s) (m', s')"
| unlink_poller: "tree_DeleteLinksToPoller ns t x m s = (k, m', s') \<Longrightarrow> tree_step (m, s) (m', s')"
| unlink_all: "tree_DeleteLinksToTargetAndPollers ns t m s = (k, m', s') \<Longrightarrow> tree_step (m, s) (m', s')"

definition nodes_ok :: "DB \<Rightarrow> bool" where
  "nodes_ok d \<longleftrightarrow> distinct (map node_key (db_tree d))"

lemma keeps_nodes:
  "keeps nodes_ok (CreateTreeDirectory now ns p description)" "keeps nodes_ok (CreateTreeLink now ns p name lt lr)"
  "keeps nodes_ok (GetTreeNode ns p)" "keeps nodes_ok (delete_nodes P)"
  "keeps nodes_ok (DeleteTreeNode ns p recursive force)"
proof -
  have e: "keeps nodes_ok (exec (insert_dir now ns q desc))" for q desc
    by (rule keeps_exec) (auto simp: insert_dir_def nodes_ok_def)
  have "keeps nodes_ok (make_dirs now ns description cur parts)" for cur parts
    by (induction parts arbitrary: cur) (auto simp: Let_def intro!: keeps_bnd keeps_wrap keeps_ret e)
  then show "keeps nodes_ok (CreateTreeDirectory now ns p description)"
    unfolding CreateTreeDirectory_def Let_def by (rule keeps_Transaction)
  show "keeps nodes_ok (CreateTreeLink now ns p name lt lr)"
    unfolding CreateTreeLink_def Let_def
    by (intro keeps_if keeps_fail keeps_bnd keeps_validate keeps_stmt)
       (auto simp: nodes_ok_def dest: sql_insert_distinct split: sum.splits)
  show "keeps nodes_ok (GetTreeNode ns p)"
    unfolding GetTreeNode_def Let_def by (intro keeps_wrap keeps_query)
  show d: "keeps nodes_ok (delete_nodes P)" for P
    unfolding delete_nodes_def by (rule keeps_stmt) (auto simp: nodes_ok_def)
  show "keeps nodes_ok (DeleteTreeNode ns p recursive force)"
    unfolding DeleteTreeNode_def ListTreeChildren_def Let_def
    by (intro keeps_bnd keeps_if keeps_fail keeps_Transaction keeps_wrap keeps_query d)
qed

definition tree_inv :: "TreeManager \<times> Store \<Rightarrow> bool" where
  "tree_inv ms \<longleftrightarrow> tree_ok (fst ms) (snd ms) \<and> nodes_ok (st_db (snd ms))"

lemma tree_step_inv:
  assumes "tree_step ms ms'" "tree_inv ms"
  shows "tree_inv ms'"
proof -
  have "nodes_ok (st_db (snd ms'))"
    using assms
  proof (cases rule: tree_step.cases)
    case (make_dir now ns p description m s r m' s')
    obtain q t where q: "CreateTreeDirectory now ns (normalizePath p) description s = (q, t)" by fastforce
    have "s' = t" using make_dir(3) q by (cases q) (auto simp: tree_CreateDirectory_def Let_def)
    then show ?thesis using keepsD [OF keeps_nodes(1) q] assms(2) make_dir(1,2) by (simp add: tree_inv_def)
  next
    case (make_link now ns p name lt lr m s r m' s')
    let ?p = "normalizePath p"
    obtain q t where q: "(if ?p \<noteq> ''/'' then CreateTreeDirectory now ns ?p [] s else (Inr (), s)) = (q, t)"
      by fastforce
    obtain q2 t2 where q2: "CreateTreeLink now ns ?p name lt lr t = (q2, t2)" by fastforce
    have t: "nodes_ok (st_db t)"
      using q keepsD [OF keeps_nodes(1), of now ns ?p "[]" s q t] assms(2) make_link(1)
      by (cases "?p = ''/''") (auto simp: tree_inv_def)
    have "s' = t \<or> s' = t2"
      using make_link(3) unfolding tree_CreateLink_def Let_def q prod.case using q2 by (cases q; cases q2) auto
    then show ?thesis using t keepsD [OF keeps_nodes(2) q2 t] make_link(2) by auto
  next
    case (get ns p m s q m' s')
    obtain c t where c: "GetTreeNode ns (normalizePath p) s = (c, t)" by fastforce
    have "s' = s \<or> s' = t" using get(3) c
      by (auto simp: tree_Get_def Let_def split: option.splits sum.splits)
    then show ?thesis using keepsD [OF keeps_nodes(3) c] assms(2) get(1,2) by (auto simp: tree_inv_def)
  next
    case (resolve ns p m s l m' s')
    obtain c t where c: "GetTreeNode ns (normalizePath (normalizePath p)) s = (c, t)" by fastforce
    have "s' = s \<or> s' = t" using resolve(3) c
      by (auto simp: ResolvePath_def tree_Get_def Let_def split: option.splits sum.splits)
    then show ?thesis using keepsD [OF keeps_nodes(3) c] assms(2) resolve(1,2) by (auto simp: tree_inv_def)
  next
    case (delete ns p recursive force m s k m' s')
    obtain q t where q: "DeleteTreeNode ns (normalizePath p) recursive force s = (q, t)" by fastforce
    have "s' = t" using delete(3) q by (cases q) (auto simp: tree_Delete_def Let_def)
    then show ?thesis using keepsD [OF keeps_nodes(5) q] assms(2) delete(1,2) by (simp add: tree_inv_def)
  qed (auto simp: tree_inv_def tree_DeleteLinksToTarget_def tree_DeleteLinksToPoller_def
      tree_DeleteLinksToTargetAndPollers_def delete_links_def DeleteLinksToTarget_def DeleteLinksToPoller_def
      DeleteLinksToTargetAndPollers_def split: prod.splits sum.splits dest: keepsD [OF keeps_nodes(4)])
  moreover have "tree_ok (fst ms') (snd ms')"
    using assms
  proof cases
    case make_dir
    then show ?thesis using tree_CreateDirectory_ok assms(2) unfolding tree_inv_def by fastforce
  next
    case make_link
    then show ?thesis using tree_CreateLink_ok assms(2) unfolding tree_inv_def by fastforce
  next
    case get
    then show ?thesis using tree_Get_ok assms(2) unfolding tree_inv_def by fastforce
  next
    case resolve
    then show ?thesis using ResolvePath_ok assms(2) unfolding tree_inv_def by fastforce
  next
    case delete
    then show ?thesis using tree_Delete_ok assms(2) unfolding tree_inv_def by fastforce
  next
    case (unlink_target ns t m s k m' s')
    then show ?thesis
      using delete_links_ok [OF _ unlink_target(3) [unfolded tree_DeleteLinksToTarget_def DeleteLinksToTarget_def]]
        assms(2) by (simp add: tree_inv_def)
  next
    case (unlink_poller ns t x m s k m' s')
    then show ?thesis
      using delete_links_ok [OF _ unlink_poller(3) [unfolded tree_DeleteLinksToPoller_def DeleteLinksToPoller_def]]
        assms(2) by (simp add: tree_inv_def)
  next
    case (unlink_all ns t m s k m' s')
    have "tree_ok m s" using assms(2) unlink_all(1) by (simp add: tree_inv_def)
    from delete_links_ok [OF this unlink_all(3) [unfolded tree_DeleteLinksToTargetAndPollers_def
        DeleteLinksToTargetAndPollers_def]]
    have "tree_ok m' s'" by (auto simp: links_to_target_def)
    then show ?thesis using unlink_all(2) by simp
  qed
  ultimately show ?thesis by (simp add: tree_inv_def)
qed

lemma tree_run_inv:
  assumes "rtranclp tree_step ([], s) ms" "nodes_ok (st_db s)"
  shows "tree_inv ms"
  using assms(1)
proof (induction rule: rtranclp_induct)
  case base
  then show ?case using assms(2) trc.coherent_Nil by (simp add: tree_inv_def tree_ok_def)
qed (rule tree_step_inv)

lemma tree_Get_fresh:
  assumes "tree_inv (m, s)" "CHR '':'' \<notin> set ns" "tree_Get ns p m s = (Inr x, m', s')"
  shows "x = sql_first (\<lambda>n. node_key n = (ns, normalizePath (normalizePath p))) (db_tree (st_db s))"
proof -
  let ?q = "normalizePath (normalizePath p)"
  have ok: "trc.coherent m (db_tree (st_db s))" "distinct (map node_key (db_tree (st_db s)))"
    using assms(1) by (simp_all add: tree_inv_def tree_ok_def nodes_ok_def)
  have key: "treeKey ns (normalizePath p) = node_str (ns, ?q)" by (simp add: treeKey_def node_str_def)
  show ?thesis
  proof (cases "map_of m (node_str (ns, ?q))")
    case None
    obtain r t where r: "GetTreeNode ns (normalizePath p) s = (r, t)" by fastforce
    then show ?thesis
      using assms(3) None GetTreeNode_db(2) [OF r]
      by (auto simp: tree_Get_def Let_def key split: sum.splits option.splits)
  next
    case (Some c)
    have "plain_ns (ns, ?q)" using assms(2) by (simp add: plain_ns_def)
    from trc.hit_row [OF ok(1) Some this ok(2)]
    have "sql_first (\<lambda>n. node_key n = (ns, ?q)) (db_tree (st_db s)) = Some c" by blast
    moreover have "x = Some c" using assms(3) Some by (simp add: tree_Get_def Let_def key)
    ultimately show ?thesis by (simp only:)
  qed
qed


section \<open>Links\<close>

lemma join_plain:
  assumes "\<forall>c \<in> set cs. plain c" "plain c"
  shows "path_Join (path_of cs) c = path_of (cs @ [c])"
proof -
  have ne: "c \<noteq> []" "slash \<notin> set c" using assms(2) by (simp_all add: plain_def)
  have "path_Clean (slash # join_with slash cs @ slash # c) = path_of (cs @ [c])"
  proof (cases "cs = []")
    case True
    have "split_on slash (slash # c) = [[], c]" using ne by simp
    then show ?thesis using foldl_clean_plain [of "[c]" True "[]"] assms(2) True
      by (simp add: clean_rooted clean_step_def)
  next
    case False
    have "split_on slash (join_with slash cs @ slash # c) = cs @ [c]"
      using split_join_append [OF False, of slash c] assms(1) ne by (simp add: plain_def)
    moreover have "foldl (clean_step True) [] (cs @ [c]) = cs @ [c]"
      using foldl_clean_plain [of "cs @ [c]" True "[]"] assms by simp
    ultimately show ?thesis by (simp only: clean_rooted)
  qed
  then show ?thesis using ne by (simp add: path_Join_def path_of_def)
qed

lemma runs_fail_or: "runs (if c then fail e else m) (\<lambda>d x d'. \<not> c \<and> P d x d')" if "runs m P"
  using that runs_fail by (cases c) (auto simp: runs_def fail_def)

text \<open>What a link that could be made looks like.\<close>

lemma runs_CreateTreeLink:
  "runs (CreateTreeLink now ns p name linkType linkRef) (\<lambda>d x d'.
     (linkType = ''target'' \<or> linkType = ''poller'' \<and> length (split_n slash 2 linkRef) = 2) \<and>
     (\<exists>n \<in> set (db_tree d'). node_key n = (ns, path_Join (normalizePath p) name) \<and>
        tn_NodeType n = ''link_'' @ linkType \<and> link_ref n = linkType @ '':'' @ linkRef))"
proof -
  define n where "n = \<lparr>tn_Namespace = ns, tn_Path = path_Join (normalizePath p) name,
    tn_NodeType = (if linkType = ''target'' then ''link_target'' else ''link_poller''),
    tn_LinkRef = Some (linkType @ '':'' @ linkRef), tn_Description = None, tn_CreatedAt = now\<rparr>"
  have ins: "runs (stmt (\<lambda>d. case sql_insert node_key n (db_tree d) of
      Inl e \<Rightarrow> Inl e | Inr rows \<Rightarrow> Inr ((), d\<lparr>db_tree := rows\<rparr>))) (\<lambda>d x d'. n \<in> set (db_tree d'))"
    by (rule runs_mono [OF runs_stmt]) (auto simp: sql_insert_def split: if_splits)
  have val: "runs (validateLinkRef ns linkType linkRef) (\<lambda>d x d'.
      linkType = ''target'' \<or> linkType = ''poller'' \<and> length (split_n slash 2 linkRef) = 2)"
    by (auto simp: validateLinkRef_def runs_def fail_def Let_def split: if_splits)
  have "runs (CreateTreeLink now ns p name linkType linkRef) (\<lambda>d x d'.
      (linkType = ''target'' \<or> linkType = ''poller'') \<and> (\<exists>y d1.
        (linkType = ''target'' \<or> linkType = ''poller'' \<and> length (split_n slash 2 linkRef) = 2) \<and>
        y \<and> n \<in> set (db_tree d')))"
    unfolding CreateTreeLink_def Let_def n_def [symmetric]
    by (rule runs_mono [OF runs_fail_or [OF runs_bnd [OF val runs_fail_or [OF ins]]]]) auto
  then show ?thesis
    by (rule runs_mono) (auto simp: n_def link_ref_def intro!: bexI [of _ n])
qed

lemma parse_made_ref:
  assumes "linkType = ''target'' \<or> linkType = ''poller'' \<and> length (split_n slash 2 linkRef) = 2"
  shows "ParseLinkRef (linkType @ '':'' @ linkRef) =
    Inr (linkType, (if linkType = ''target'' then linkRef else split_n slash 2 linkRef ! 0),
      (if linkType = ''target'' then [] else split_n slash 2 linkRef ! 1))"
proof (cases "linkType = ''target''")
  case True
  have "has_prefix (''target:'' @ linkRef) ''target:''" by (rule has_prefix_append)
  then show ?thesis by (simp add: True ParseLinkRef_def)
next
  case False
  then have p: "linkType = ''poller''" "length (split_n slash 2 linkRef) = 2" using assms by blast+
  have "has_prefix (''poller:'' @ linkRef) ''poller:''" by (rule has_prefix_append)
  moreover have "\<not> has_prefix (''poller:'' @ linkRef) ''target:''" by (simp add: has_prefix_def)
  ultimately show ?thesis using p(2) by (simp add: p(1) ParseLinkRef_def Let_def)
qed

lemma tree_Get_works:
  assumes "faultless s" "tree_Get ns p m s = (r, m', s')"
  shows "\<exists>x. r = Inr x"
proof -
  obtain y t where y: "GetTreeNode ns (normalizePath p) s = (Inr y, t)"
    by (simp add: GetTreeNode_def Let_def works_query [OF assms(1)])
  show ?thesis
    using assms(2) unfolding tree_Get_def Let_def y
    by (cases "map_of m (treeKey ns (normalizePath p))"; cases y) auto
qed

text \<open>C28: a link that \<open>CreateLink\<close> has made at a path resolves: \<open>ResolvePath\<close> of the directory's path joined with the link's
  name gives the type and the reference it was made with, and \<open>ParseLinkRef\<close> reads that reference
  back as its type and parts.\<close>

theorem link_resolves:
  assumes "rtranclp tree_step ([], s0) (m, s)" "distinct (map node_key (db_tree (st_db s0)))"
    "CHR '':'' \<notin> set ns" "has_prefix p ''/''"
    "name \<noteq> []" "name \<noteq> ''.''" "name \<noteq> ''..''" "slash \<notin> set name"
    "tree_CreateLink now ns p name linkType linkRef m s = (Inr u, m', s')" "faultless s'"
  shows "fst (ResolvePath ns (path_Join (normalizePath p) name) m' s') =
      Inr (''link_'' @ linkType, linkType @ '':'' @ linkRef) \<and>
    ParseLinkRef (linkType @ '':'' @ linkRef) =
      Inr (linkType, (if linkType = ''target'' then linkRef else split_n slash 2 linkRef ! 0),
        (if linkType = ''target'' then [] else split_n slash 2 linkRef ! 1))"
proof -
  obtain cs where cs: "\<forall>c \<in> set cs. plain c" "normalizePath p = path_of cs"
    using normalize_canonical [OF assms(4)] by (auto simp: canonical_def)
  have name: "plain name" using assms(5-8) by (simp add: plain_def)
  let ?q = "path_of (cs @ [name])"
  have full: "path_Join (normalizePath p) name = ?q" using join_plain [OF cs(1) name] cs(2) by simp
  have fixed: "normalizePath ?q = ?q" "normalizePath (path_of cs) = path_of cs"
    by (rule normalize_canonical_form, use cs(1) name in simp)+
  obtain q s1 where q: "(if normalizePath p \<noteq> ''/'' then CreateTreeDirectory now ns (normalizePath p) [] s else (Inr (), s)) = (q, s1)"
    by fastforce
  obtain q2 s2 where q2: "CreateTreeLink now ns (normalizePath p) name linkType linkRef s1 = (q2, s2)" by fastforce
  have "s2 = s' \<and> q2 = Inr ()"
    using assms(9) unfolding tree_CreateLink_def Let_def q prod.case using q2 by (cases q; cases q2) auto
  then have made: "CreateTreeLink now ns (normalizePath p) name linkType linkRef s1 = (Inr (), s')" using q2 by simp
  from runsD [OF runs_CreateTreeLink made]
  have lt: "linkType = ''target'' \<or> linkType = ''poller'' \<and> length (split_n slash 2 linkRef) = 2"
    and "\<exists>n \<in> set (db_tree (st_db s')). node_key n = (ns, path_Join (normalizePath (normalizePath p)) name) \<and>
      tn_NodeType n = ''link_'' @ linkType \<and> link_ref n = linkType @ '':'' @ linkRef" by blast+
  then obtain n where n: "n \<in> set (db_tree (st_db s'))" "node_key n = (ns, ?q)"
    "tn_NodeType n = ''link_'' @ linkType" "link_ref n = linkType @ '':'' @ linkRef"
    using full cs(2) fixed(2) by auto
  have inv: "tree_inv (m', s')"
    using tree_step_inv [OF make_link [OF assms(9)]] tree_run_inv [OF assms(1)] assms(2) by (simp add: nodes_ok_def)
  then have "distinct (map node_key (db_tree (st_db s')))" by (simp add: tree_inv_def nodes_ok_def)
  from sql_first_key [OF this n(1,2)]
  have row: "sql_first (\<lambda>n. node_key n = (ns, ?q)) (db_tree (st_db s')) = Some n" .
  obtain g m2 s3 where g: "tree_Get ns ?q m' s' = (g, m2, s3)" by (metis prod_cases3)
  obtain x where x: "g = Inr x" using tree_Get_works [OF assms(10) g] by blast
  have "x = Some n" using tree_Get_fresh [OF inv assms(3) g [unfolded x]] row by (simp only: fixed)
  then have "fst (ResolvePath ns ?q m' s') = Inr (''link_'' @ linkType, linkType @ '':'' @ linkRef)"
    using g x n(3,4) by (simp add: ResolvePath_def Let_def fixed(1))
  with parse_made_ref [OF lt] show ?thesis by (simp only: full)
qed

lemma CreateTarget_fault: "same_fault (CreateTarget now now' t)"
  unfolding CreateTarget_def by (intro same_fault_intros)

lemma tree_CreateLink_fault:
  "st_fault (snd (snd (tree_CreateLink now ns p name linkType linkRef m s))) = st_fault s"
proof -
  have dirs: "same_fault (make_dirs now ns description cur parts)" for description cur parts
    by (induction parts arbitrary: cur) (auto simp: Let_def intro!: same_fault_intros)
  have dir: "same_fault (CreateTreeDirectory now ns q description)" for q description
    unfolding CreateTreeDirectory_def Let_def by (intro same_fault_intros dirs)
  have link: "same_fault (CreateTreeLink now ns q name linkType linkRef)" for q
    unfolding CreateTreeLink_def validateLinkRef_def TargetExists_def PollerExists_def Let_def
    by (intro same_fault_intros)
  let ?p = "normalizePath p"
  obtain q s1 where q: "(if ?p \<noteq> ''/'' then CreateTreeDirectory now ns ?p [] s else (Inr (), s)) = (q, s1)"
    by fastforce
  have s1: "st_fault s1 = st_fault s"
    using q same_faultD [OF dir, of ?p "[]" s] by (cases "?p = ''/''") simp_all
  obtain q2 s2 where q2: "CreateTreeLink now ns ?p name linkType linkRef s1 = (q2, s2)" by fastforce
  have "st_fault s2 = st_fault s1" using q2 same_faultD [OF link, of ?p s1] by simp
  then show ?thesis
    unfolding tree_CreateLink_def Let_def q prod.case using q2 s1 by (cases q; cases q2) simp_all
qed

definition ex_tree_store :: Store where
  "ex_tree_store = snd (CreateTarget 0 0 \<lparr>t_Namespace = ''n'', t_Name = ''t'', t_Description = [], t_Labels = [],
     t_Config = None, t_CreatedAt = 0, t_UpdatedAt = 0, t_Version = 0\<rparr> (open_store (\<lambda>_. None) None))"

definition ex_tree_link :: "unit go \<times> TreeManager \<times> Store" where
  "ex_tree_link = tree_CreateLink 0 ''n'' ''/core//'' ''r1'' ''target'' ''t'' NewTreeManager ex_tree_store"

text \<open>Deleting a target removes its links from the tree behind the tree manager's back; a link it
  has cached still resolves.\<close>

theorem deleted_target_link_stays_cached:
  "let (_, m, s) = ex_tree_link;
       (_, m1, s1) = tree_Get ''n'' ''/core/r1'' m s;
       (_, s2) = DeleteTarget ''n'' ''t'' True s1
   in db_targets (st_db s2) = [] \<and> map tn_Path (db_tree (st_db s2)) = [''/core''] \<and>
      fst (ResolvePath ''n'' ''/core/r1'' m1 s2) = Inr (''link_target'', ''target:t'')"
  by code_simp

text \<open>A recursive delete of a path with an underscore deletes what the pattern matches, which is
  more than what the cache drops.\<close>

theorem wildcard_delete_leaves_cached:
  "let (_, m, s) = tree_CreateDirectory 0 ''n'' ''/a_b/x'' [] NewTreeManager (open_store (\<lambda>_. None) None);
       (_, m1, s1) = tree_CreateDirectory 0 ''n'' ''/acb/y'' [] m s;
       (_, m2, s2) = tree_Get ''n'' ''/acb/y'' m1 s1;
       (n, m3, s3) = tree_Delete ''n'' ''/a_b'' True False m2 s2
   in n = Inr 3 \<and> map tn_Path (db_tree (st_db s3)) = [''/acb''] \<and>
      map_sum id (map_option tn_Path) (fst (tree_Get ''n'' ''/acb/y'' m3 s3)) = Inr (Some ''/acb/y'')"
  by code_simp

lemma ex_tree_run: "rtranclp tree_step ([], ex_tree_store) (snd ex_tree_link)"
proof -
  have "tree_step ([], ex_tree_store) (fst (snd ex_tree_link), snd (snd ex_tree_link))"
    unfolding ex_tree_link_def NewTreeManager_def
    by (rule make_link [of 0 "''n''" "''/core//''" "''r1''" "''target''" "''t''" _ _ "fst ex_tree_link"])
       (simp add: ex_tree_link_def NewTreeManager_def)
  then show ?thesis by simp
qed


lemma link_resolves_witness:
  "fst ex_tree_link = Inr () \<and>
   fst (ResolvePath ''n'' (path_Join (normalizePath ''/core//'') ''r1'') (fst (snd ex_tree_link)) (snd (snd ex_tree_link))) =
     Inr (''link_target'', ''target:t'')"
proof -
  have e: "fst ex_tree_link = Inr ()" by code_simp
  have l: "tree_CreateLink 0 ''n'' ''/core//'' ''r1'' ''target'' ''t'' [] ex_tree_store =
      (Inr (), fst (snd ex_tree_link), snd (snd ex_tree_link))"
    using e by (simp add: ex_tree_link_def NewTreeManager_def prod_eq_iff)
  have d: "distinct (map node_key (db_tree (st_db ex_tree_store)))" by code_simp
  have c: "CHR '':'' \<notin> set ''n''" by simp
  have h: "has_prefix ''/core//'' ''/''" by code_simp
  have n: "''r1'' \<noteq> []" "''r1'' \<noteq> ''.''" "''r1'' \<noteq> ''..''" "slash \<notin> set ''r1''" by simp_all
  have "st_fault (snd (snd ex_tree_link)) = st_fault ex_tree_store"
    unfolding ex_tree_link_def by (rule tree_CreateLink_fault)
  then have f: "faultless (snd (snd ex_tree_link))"
    by (simp add: faultless_def ex_tree_store_def same_faultD [OF CreateTarget_fault] open_store_def)
  have "fst (ResolvePath ''n'' (path_Join (normalizePath ''/core//'') ''r1'') (fst (snd ex_tree_link)) (snd (snd ex_tree_link))) =
      Inr (''link_'' @ ''target'', ''target'' @ '':'' @ ''t'')"
    using link_resolves [OF rtranclp.rtrancl_refl d c h n l f] by (rule conjunct1)
  with e show ?thesis by simp
qed

end
