(* ===== verification/Manager.thy ===== *)
theory Manager
  imports TreeMgr
begin

text \<open>
  The manager of internal/manager/manager.go: the entity managers, the runtime managers and the
  sync manager over one store, and the operations that go through several of them.

  The managers share the store, the state and stats managers and the resolver by pointer. The
  record keeps them once, in the poller manager; \<open>with_sync\<close> lends the first three to the sync manager for
  the time of a call, and the namespace, target and tree managers get the store as an argument. Log lines are not
  modelled.
\<close>

record Manager =
  mg_Namespaces :: NamespaceManager
  mg_Targets :: TargetManager
  mg_Pollers :: PollerManager
  mg_Tree :: TreeManager
  mg_Sync :: SyncManager
  mg_startedAt :: int
  mg_version :: string

abbreviation mg_store :: "Manager \<Rightarrow> Store" where
  "mg_store m \<equiv> pm_store (mg_Pollers m)"

abbreviation mg_States :: "Manager \<Rightarrow> StateManager" where
  "mg_States m \<equiv> pm_states (mg_Pollers m)"

abbreviation mg_Stats :: "Manager \<Rightarrow> StatsManager" where
  "mg_Stats m \<equiv> pm_stats (mg_Pollers m)"

definition on_pollers :: "(PollerManager \<Rightarrow> 'a \<times> PollerManager) \<Rightarrow> Manager \<Rightarrow> 'a \<times> Manager" where
  "on_pollers f m = (case f (mg_Pollers m) of (r, p) \<Rightarrow> (r, m\<lparr>mg_Pollers := p\<rparr>))"

definition set_store :: "Store \<Rightarrow> Manager \<Rightarrow> Manager" where
  "set_store s m = m\<lparr>mg_Pollers := (mg_Pollers m)\<lparr>pm_store := s\<rparr>\<rparr>"

text \<open>\<open>New\<close>, given what \<open>store.New\<close> returned.\<close>

definition mg_New :: "Store go \<Rightarrow> SyncConfig option \<Rightarrow> string \<Rightarrow> int \<Rightarrow> Manager go" where
  "mg_New opened syncConfig version now =
     (case opened of
        Inl err \<Rightarrow> Inl (Errorf (''create store: '' @ error_msg err))
      | Inr s \<Rightarrow>
          Inr \<lparr>mg_Namespaces = NewNamespaceManager, mg_Targets = NewTargetManager,
               mg_Pollers = NewPollerManager s [] [] NewConfigResolver, mg_Tree = NewTreeManager,
               mg_Sync = NewSyncManager [] [] syncConfig, mg_startedAt = now, mg_version = version\<rparr>)"

definition wrap_err :: "string \<Rightarrow> gerror \<Rightarrow> gerror" where
  "wrap_err what e = Errorf (what @ '': '' @ error_msg e)"

definition mg_Load :: "Manager \<Rightarrow> unit go \<times> Manager" where
  "mg_Load m =
     (case nsm_Load (mg_Namespaces m) (mg_store m) of
        (Inl err, ns, s1) \<Rightarrow>
          (Inl (wrap_err ''load namespaces'' err), set_store s1 (m\<lparr>mg_Namespaces := ns\<rparr>))
      | (Inr _, ns, s1) \<Rightarrow>
          (let m1 = set_store s1 (m\<lparr>mg_Namespaces := ns\<rparr>) in
           case tm_Load (mg_Targets m1) (mg_store m1) of
             (Inl err, ts, s2) \<Rightarrow>
               (Inl (wrap_err ''load targets'' err), set_store s2 (m1\<lparr>mg_Targets := ts\<rparr>))
           | (Inr _, ts, s2) \<Rightarrow>
               (let m2 = set_store s2 (m1\<lparr>mg_Targets := ts\<rparr>) in
                case on_pollers pm_Load m2 of
                  (Inl err, m3) \<Rightarrow> (Inl (wrap_err ''load pollers'' err), m3)
                | (Inr _, m3) \<Rightarrow> (Inr (), m3))))"

definition with_sync :: "(SyncManager \<times> Store \<Rightarrow> SyncManager \<times> Store) \<Rightarrow> Manager \<Rightarrow> Manager" where
  "with_sync f m =
     (let p = mg_Pollers m; sm = (mg_Sync m)\<lparr>sm_states := pm_states p, sm_stats := pm_stats p\<rparr> in
      case f (sm, pm_store p) of
        (sm', s') \<Rightarrow>
          m\<lparr>mg_Sync := sm',
            mg_Pollers := p\<lparr>pm_store := s', pm_states := sm_states sm', pm_stats := sm_stats sm'\<rparr>\<rparr>)"

text \<open>\<open>Stop\<close>: the flush loops end, then the final flush of \<open>Sync.Stop\<close>; the store is closed.\<close>

definition mg_Stop :: "Manager \<Rightarrow> Manager" where
  "mg_Stop m = with_sync FlushAll m"

section \<open>Information\<close>

record ServerInfo =
  si_Version :: string
  si_StartedAt :: int
  si_Uptime :: int
  si_NamespaceCount :: nat
  si_TargetCount :: nat
  si_PollerCount :: nat
  si_PollersRunning :: nat
  si_PollersUp :: nat
  si_PollersDown :: nat
  si_PollsTotal :: int
  si_PollsSuccess :: int
  si_PollsFailed :: int

definition GetServerInfo :: "int \<Rightarrow> Manager \<Rightarrow> ServerInfo" where
  "GetServerInfo now m =
     (let operCounts = CountByOperState (mg_States m);
          healthCounts = CountByHealthState (mg_States m)
      in case Aggregate (mg_Stats m) of
           (pollsTotal, pollsSuccess, pollsFailed, _) \<Rightarrow>
             \<lparr>si_Version = mg_version m, si_StartedAt = mg_startedAt m, si_Uptime = now - mg_startedAt m,
              si_NamespaceCount = nsm_Count (mg_Namespaces m), si_TargetCount = tm_Count (mg_Targets m),
              si_PollerCount = pm_Count (mg_Pollers m),
              si_PollersRunning = count_of operCounts OperStateRunning,
              si_PollersUp = count_of healthCounts HealthStateUp,
              si_PollersDown = count_of healthCounts HealthStateDown,
              si_PollsTotal = pollsTotal, si_PollsSuccess = pollsSuccess, si_PollsFailed = pollsFailed\<rparr>)"

record PollerFullInfo =
  pf_Poller :: Poller
  pf_AdminState :: string
  pf_OperState :: string
  pf_HealthState :: string
  pf_LastError :: string
  pf_ResolvedConfig :: "ResolvedPollerConfig option"
  pf_Stats :: stats_view

text \<open>The error of \<open>Resolve\<close> is dropped: the configuration is then nil. The last seven fields of the Go struct are
  the values of \<open>GetStats\<close>.\<close>

definition GetPollerFullInfo ::
    "int \<Rightarrow> int \<Rightarrow> string \<Rightarrow> string \<Rightarrow> string \<Rightarrow> Manager \<Rightarrow> PollerFullInfo go \<times> Manager" where
  "GetPollerFullInfo now now' namespace target poller m =
     (case on_pollers (pm_Get namespace target poller) m of
        (Inl err, m1) \<Rightarrow> (Inl err, m1)
      | (Inr None, m1) \<Rightarrow>
          (Inl (Errorf (''poller not found: '' @ namespace @ ''/'' @ target @ ''/'' @ poller)), m1)
      | (Inr (Some p), m1) \<Rightarrow>
          (case on_pollers (pm_GetState namespace target poller) m1 of
             (state, m2) \<Rightarrow>
               (case on_pollers (pm_GetStats namespace target poller) m2 of
                  (stats, m3) \<Rightarrow>
                    (case on_pollers (pm_GetResolvedConfig now now' namespace target poller) m3 of
                       (cfg, m4) \<Rightarrow>
                         (case ps_GetState state of
                            (admin, oper, health) \<Rightarrow>
                              (Inr \<lparr>pf_Poller = p, pf_AdminState = admin, pf_OperState = oper,
                                    pf_HealthState = health, pf_LastError = ps_GetLastError state,
                                    pf_ResolvedConfig = (case cfg of Inl _ \<Rightarrow> None | Inr c \<Rightarrow> Some c),
                                    pf_Stats = GetStats stats\<rparr>, m4))))))"

section \<open>Poll results and start up\<close>

definition mg_RecordPollResult ::
    "int \<Rightarrow> string \<Rightarrow> string \<Rightarrow> string \<Rightarrow> bool \<Rightarrow> bool \<Rightarrow> string \<Rightarrow> int \<Rightarrow> Sample option \<Rightarrow>
     Manager \<Rightarrow> Manager" where
  "mg_RecordPollResult now namespace target poller success timeout pollErr pollMs sample m =
     (let q = (namespace, target, poller); p = mg_Pollers m;
          m1 = m\<lparr>mg_Pollers := p\<lparr>pm_states := with_state q (ps_RecordPollResult success pollErr pollMs now) (pm_states p),
                                 pm_stats := with_stats q (RecordPoll success timeout pollMs) (pm_stats p)\<rparr>\<rparr>
      in case sample of None \<Rightarrow> m1 | Some x \<Rightarrow> with_sync (AddSample x) m1)"

text \<open>One turn of the loop of \<open>StartEnabledPollers\<close>.\<close>

definition start_enabled :: "Poller \<Rightarrow> nat \<times> Manager \<Rightarrow> nat \<times> Manager" where
  "start_enabled p nm =
     (case nm of (started, m) \<Rightarrow>
       case on_pollers (pm_GetState (p_Namespace p) (p_Target p) (p_Name p)) m of
         (state, m1) \<Rightarrow>
           if ps_CanRun state then
             (case on_pollers (on_state (poller_key p) ps_Start) m1 of
                (Inl _, m2) \<Rightarrow> (started, m2)
              | (Inr _, m2) \<Rightarrow> (started + 1, m2))
           else (started, m1))"

definition StartEnabledPollers :: "Manager \<Rightarrow> nat \<times> Manager" where
  "StartEnabledPollers m =
     foldl (\<lambda>nm p. start_enabled p nm) (0, m) (pm_GetEnabledPollers (mg_Pollers m))"

section \<open>Recording results poller by poller\<close>

text \<open>A result as \<open>RecordPollResult\<close> gets it.\<close>

record poll_report =
  rp_poller :: "string \<times> string \<times> string"
  rp_success :: bool
  rp_timeout :: bool
  rp_err :: string
  rp_ms :: int
  rp_now :: int
  rp_sample :: "Sample option"

definition record_report :: "poll_report \<Rightarrow> Manager \<Rightarrow> Manager" where
  "record_report r m =
     (case rp_poller r of (n, t, p) \<Rightarrow>
       mg_RecordPollResult (rp_now r) n t p (rp_success r) (rp_timeout r) (rp_err r) (rp_ms r) (rp_sample r) m)"

definition record_reports :: "poll_report list \<Rightarrow> Manager \<Rightarrow> Manager" where
  "record_reports rs m = foldl (\<lambda>m r. record_report r m) m rs"

abbreviation event_of :: "poll_report \<Rightarrow> poll_event" where
  "event_of r \<equiv> (rp_success r, rp_err r, rp_ms r, rp_now r)"

abbreviation obs_of :: "poll_report \<Rightarrow> poll_obs" where
  "obs_of r \<equiv> (rp_success r, rp_timeout r, rp_ms r)"

definition free_id :: "string \<times> string \<times> string \<Rightarrow> bool" where
  "free_id q \<longleftrightarrow> CHR ''/'' \<notin> set (fst q) \<and> CHR ''/'' \<notin> set (fst (snd q))"

lemma state_key_inject:
  assumes "free_id q" "free_id q'" "state_key q = state_key q'"
  shows "q = q'"
proof -
  obtain n t p n' t' p' where q: "q = (n, t, p)" "q' = (n', t', p')" by (metis prod_cases3)
  have "n = n' \<and> t = t' \<and> p = p'"
    by (rule pollerKey_inject) (use assms q in \<open>simp_all add: free_id_def pollerKey_state_key\<close>)
  then show ?thesis using q by simp
qed

lemma state_entry: "fst (StateManager_Get m q) =
  (case map_of m (state_key q) of None \<Rightarrow> (case q of (n, t, p) \<Rightarrow> NewPollerState n t p) | Some st \<Rightarrow> st)"
  by (simp add: StateManager_Get_def Let_def split: option.split)

lemma stats_entry: "fst (StatsManager_Get m q) =
  (case map_of m (state_key q) of None \<Rightarrow> (case q of (n, t, p) \<Rightarrow> NewPollerStats n t p) | Some st \<Rightarrow> st)"
  by (simp add: StatsManager_Get_def Let_def split: option.split)

lemma with_state_get:
  assumes "free_id q" "free_id q'"
  shows "fst (StateManager_Get (with_state q f m) q') = (if q' = q then f else id) (fst (StateManager_Get m q'))"
proof (cases "q' = q")
  case True
  then show ?thesis unfolding state_entry [of "with_state q f m"] by (simp add: with_state_same)
next
  case False
  then have "state_key q' \<noteq> state_key q" using state_key_inject assms by blast
  then show ?thesis using False by (simp add: state_entry with_state_other)
qed

lemma with_stats_get:
  assumes "free_id q" "free_id q'"
  shows "fst (StatsManager_Get (with_stats q f m) q') = (if q' = q then f else id) (fst (StatsManager_Get m q'))"
proof (cases "q' = q")
  case True
  then show ?thesis unfolding stats_entry [of "with_stats q f m"] by (simp add: with_stats_same)
next
  case False
  then have "state_key q' \<noteq> state_key q" using state_key_inject assms by blast
  then show ?thesis using False by (simp add: stats_entry with_stats_other)
qed

text \<open>Buffering a sample touches neither the states nor the counters.\<close>

lemma AddSample_frame: "AddSample x (m, s) = (m', s') \<Longrightarrow> sm_states m' = sm_states m \<and> sm_stats m' = sm_stats m"
  by (auto simp: AddSample_def flushSamples_def Let_def split: if_splits)

lemma with_sync_AddSample:
  "mg_States (with_sync (AddSample x) m) = mg_States m" "mg_Stats (with_sync (AddSample x) m) = mg_Stats m"
  using AddSample_frame [of x "(mg_Sync m)\<lparr>sm_states := mg_States m, sm_stats := mg_Stats m\<rparr>" "mg_store m"]
  by (auto simp: with_sync_def Let_def split: prod.split)

lemma record_report_tables:
  "mg_States (record_report r m) = with_state (rp_poller r)
     (ps_RecordPollResult (rp_success r) (rp_err r) (rp_ms r) (rp_now r)) (mg_States m)"
  "mg_Stats (record_report r m) = with_stats (rp_poller r)
     (RecordPoll (rp_success r) (rp_timeout r) (rp_ms r)) (mg_Stats m)"
  by (cases "rp_poller r"; simp add: record_report_def mg_RecordPollResult_def Let_def with_sync_AddSample
        split: option.split)+

lemma record_reports_entry:
  assumes "list_all (\<lambda>r. free_id (rp_poller r)) rs" "free_id q"
  shows "fst (StateManager_Get (mg_States (record_reports rs m)) q) =
      ps_record_all (map event_of (filter (\<lambda>r. rp_poller r = q) rs)) (fst (StateManager_Get (mg_States m) q))"
    "fst (StatsManager_Get (mg_Stats (record_reports rs m)) q) =
      RecordPolls (map obs_of (filter (\<lambda>r. rp_poller r = q) rs)) (fst (StatsManager_Get (mg_Stats m) q))"
proof -
  have "fst (StateManager_Get (mg_States (record_reports rs m)) q) =
      ps_record_all (map event_of (filter (\<lambda>r. rp_poller r = q) rs)) (fst (StateManager_Get (mg_States m) q)) \<and>
    fst (StatsManager_Get (mg_Stats (record_reports rs m)) q) =
      RecordPolls (map obs_of (filter (\<lambda>r. rp_poller r = q) rs)) (fst (StatsManager_Get (mg_Stats m) q))"
    using assms(1)
  proof (induction rs rule: rev_induct)
    case Nil
    show ?case by (simp add: record_reports_def ps_record_all_def)
  next
    case (snoc r rs)
    have step: "record_reports (rs @ [r]) m = record_report r (record_reports rs m)"
      by (simp add: record_reports_def)
    show ?case
      using snoc assms(2)
      by (simp add: step record_report_tables with_state_get with_stats_get record_all_snoc)
  qed
  then show "fst (StateManager_Get (mg_States (record_reports rs m)) q) =
      ps_record_all (map event_of (filter (\<lambda>r. rp_poller r = q) rs)) (fst (StateManager_Get (mg_States m) q))"
    "fst (StatsManager_Get (mg_Stats (record_reports rs m)) q) =
      RecordPolls (map obs_of (filter (\<lambda>r. rp_poller r = q) rs)) (fst (StatsManager_Get (mg_Stats m) q))"
    by blast+
qed

section \<open>The tables of the runtime managers\<close>

abbreviation ps_id :: "PollerState \<Rightarrow> string \<times> string \<times> string" where
  "ps_id st \<equiv> (ps_Namespace st, ps_Target st, ps_Poller st)"

abbreviation st_id :: "PollerStats \<Rightarrow> string \<times> string \<times> string" where
  "st_id st \<equiv> (st_Namespace st, st_Target st, st_Poller st)"

text \<open>Every entry is stored under the key of the poller it names.\<close>

definition entries_ok :: "('e \<Rightarrow> string \<times> string \<times> string) \<Rightarrow> (string, 'e) gomap \<Rightarrow> bool" where
  "entries_ok f m \<longleftrightarrow> gomap_ok m \<and> (\<forall>k e. map_of m k = Some e \<longrightarrow> free_id (f e) \<and> k = state_key (f e))"

definition runtime_ok :: "Manager \<Rightarrow> bool" where
  "runtime_ok m \<longleftrightarrow> entries_ok ps_id (mg_States m) \<and> entries_ok st_id (mg_Stats m)"

lemma entries_ok_put: "entries_ok f m \<Longrightarrow> free_id (f e) \<Longrightarrow> k = state_key (f e) \<Longrightarrow> entries_ok f (mput k e m)"
  by (simp add: entries_ok_def)

lemma entries_keyed:
  "entries_ok ps_id sts \<Longrightarrow> states_ok sts" "entries_ok st_id sxs \<Longrightarrow> stats_ok sxs"
  by (auto simp: entries_ok_def states_ok_def stats_ok_def gomap_in_set ps_Key_def st_Key_def state_key_def)

lemma entry_id:
  assumes "entries_ok f m" "free_id q" "map_of m (state_key q) = Some e"
  shows "f e = q"
  using state_key_inject [of "f e" q] assms by (simp add: entries_ok_def)

lemma state_entry_id:
  assumes "entries_ok ps_id m" "free_id q"
  shows "ps_id (fst (StateManager_Get m q)) = q"
proof (cases "map_of m (state_key q)")
  case None
  then show ?thesis unfolding state_entry by (cases q) (simp add: NewPollerState_def)
next
  case (Some e)
  then show ?thesis unfolding state_entry using entry_id [OF assms Some] by (simp only: option.case)
qed

lemma stats_entry_id:
  assumes "entries_ok st_id m" "free_id q"
  shows "st_id (fst (StatsManager_Get m q)) = q"
proof (cases "map_of m (state_key q)")
  case None
  then show ?thesis unfolding stats_entry by (cases q) (simp add: NewPollerStats_def)
next
  case (Some e)
  then show ?thesis unfolding stats_entry using entry_id [OF assms Some] by (simp only: option.case)
qed

lemma with_state_put: "with_state q f m = mput (state_key q) (f (fst (StateManager_Get m q))) m"
  by (auto simp: with_state_def StateManager_Get_def put_put Let_def split: option.split)

lemma with_stats_put: "with_stats q f m = mput (state_key q) (f (fst (StatsManager_Get m q))) m"
  by (auto simp: with_stats_def StatsManager_Get_def put_put Let_def split: option.split)

lemma record_report_ok:
  assumes "runtime_ok m" "free_id (rp_poller r)"
  shows "runtime_ok (record_report r m)"
proof -
  have ok: "entries_ok ps_id (mg_States m)" "entries_ok st_id (mg_Stats m)"
    using assms(1) by (simp_all add: runtime_ok_def)
  note ids = state_entry_id [OF ok(1) assms(2)] stats_entry_id [OF ok(2) assms(2)]
  show ?thesis
    unfolding runtime_ok_def record_report_tables with_state_put with_stats_put
    by (intro conjI entries_ok_put ok; simp only: record_frame RecordPoll_fields ids assms(2))
qed

text \<open>The store keeps all its tables but the samples, which get those of the reports.\<close>

definition samples_of :: "Manager \<Rightarrow> Sample list" where
  "samples_of m = db_samples (st_db (mg_store m)) @ sm_sampleBuffer (mg_Sync m)"

abbreviation rest_of_db :: "DB \<Rightarrow> DB" where
  "rest_of_db d \<equiv> d\<lparr>db_samples := []\<rparr>"

lemma flushSamples_rest:
  assumes "flushSamples (m, s) = (m', s')"
  shows "rest_of_db (st_db s') = rest_of_db (st_db s)"
proof (cases "sm_sampleBuffer m = []")
  case False
  obtain r t where r: "InsertSamplesBatch (sm_sampleBuffer m) s = (r, t)" by fastforce
  then have "s' = t" using False assms by (auto simp: flushSamples_def)
  then show ?thesis
    using r safeD [OF safe_InsertSamplesBatch] runsD [OF runs_InsertSamplesBatch] by (cases r) fastforce+
qed (use assms in \<open>auto simp: flushSamples_def\<close>)

lemma AddSample_effect:
  assumes "AddSample x (m, s) = (m', s')" "faultless s"
  shows "rest_of_db (st_db s') = rest_of_db (st_db s)" "faultless s'"
    "samples_held (m', s') = samples_held (m, s) @ [x]"
proof -
  show "faultless s'" "samples_held (m', s') = samples_held (m, s) @ [x]"
    using sync_step_held [of "OpAdd x" "(m, s)"] assms by simp_all
  show "rest_of_db (st_db s') = rest_of_db (st_db s)"
    using assms(1) flushSamples_rest by (auto simp: AddSample_def Let_def split: if_splits)
qed

lemma record_report_store:
  assumes "faultless (mg_store m)"
  shows "rest_of_db (st_db (mg_store (record_report r m))) = rest_of_db (st_db (mg_store m))"
    "faultless (mg_store (record_report r m))"
    "samples_of (record_report r m) = samples_of m @ (case rp_sample r of None \<Rightarrow> [] | Some x \<Rightarrow> [x])"
proof -
  obtain n t p where q: "rp_poller r = (n, t, p)" by (metis prod_cases3)
  define m1 where "m1 = mg_RecordPollResult (rp_now r) n t p (rp_success r) (rp_timeout r) (rp_err r) (rp_ms r) None m"
  have m1: "mg_store m1 = mg_store m" "mg_Sync m1 = mg_Sync m"
    by (simp_all add: m1_def mg_RecordPollResult_def Let_def)
  define sm where "sm = (mg_Sync m1)\<lparr>sm_states := mg_States m1, sm_stats := mg_Stats m1\<rparr>"
  have held: "samples_held (sm, mg_store m1) = samples_of m"
    by (simp add: samples_held_def samples_of_def sm_def m1)
  have goal: "rest_of_db (st_db (mg_store (record_report r m))) = rest_of_db (st_db (mg_store m)) \<and>
    faultless (mg_store (record_report r m)) \<and>
    samples_of (record_report r m) = samples_of m @ (case rp_sample r of None \<Rightarrow> [] | Some x \<Rightarrow> [x])"
  proof (cases "rp_sample r")
    case None
    then have "record_report r m = m1" by (simp add: record_report_def q m1_def)
    then show ?thesis using None m1 assms by (simp add: samples_of_def)
  next
    case (Some x)
    obtain sm' s' where a: "AddSample x (sm, mg_store m1) = (sm', s')" by fastforce
    have f: "faultless (mg_store m1)" using m1 assms by simp
    note eff = AddSample_effect [OF a f]
    have "record_report r m = with_sync (AddSample x) m1"
      using Some by (simp add: record_report_def q m1_def mg_RecordPollResult_def Let_def)
    then have "mg_store (record_report r m) = s'" "mg_Sync (record_report r m) = sm'"
      using a by (simp_all add: with_sync_def Let_def sm_def)
    then show ?thesis using eff Some held m1 by (simp add: samples_of_def samples_held_def)
  qed
  then show "rest_of_db (st_db (mg_store (record_report r m))) = rest_of_db (st_db (mg_store m))"
    "faultless (mg_store (record_report r m))"
    "samples_of (record_report r m) = samples_of m @ (case rp_sample r of None \<Rightarrow> [] | Some x \<Rightarrow> [x])" by blast+
qed

definition report_samples :: "poll_report list \<Rightarrow> Sample list" where
  "report_samples rs = List.map_filter rp_sample rs"

lemma record_reports_run:
  assumes "faultless (mg_store m)" "runtime_ok m" "list_all (\<lambda>r. free_id (rp_poller r)) rs"
  shows "runtime_ok (record_reports rs m) \<and> faultless (mg_store (record_reports rs m)) \<and>
    rest_of_db (st_db (mg_store (record_reports rs m))) = rest_of_db (st_db (mg_store m)) \<and>
    samples_of (record_reports rs m) = samples_of m @ report_samples rs"
  using assms(3)
proof (induction rs rule: rev_induct)
  case Nil
  then show ?case using assms(1,2) by (simp add: record_reports_def report_samples_def List.map_filter_simps)
next
  case (snoc r rs)
  have step: "record_reports (rs @ [r]) m = record_report r (record_reports rs m)"
    by (simp add: record_reports_def)
  have s: "report_samples (rs @ [r]) = report_samples rs @ (case rp_sample r of None \<Rightarrow> [] | Some x \<Rightarrow> [x])"
    by (simp add: report_samples_def List.map_filter_def split: option.split)
  have IH: "runtime_ok (record_reports rs m)" "faultless (mg_store (record_reports rs m))"
    "rest_of_db (st_db (mg_store (record_reports rs m))) = rest_of_db (st_db (mg_store m))"
    "samples_of (record_reports rs m) = samples_of m @ report_samples rs" "free_id (rp_poller r)"
    using snoc by auto
  show ?case
    unfolding step s using record_report_ok [OF IH(1,5)] record_report_store [OF IH(2), of r] IH(3,4) by simp
qed

section \<open>From a poll to the next start\<close>

lemma flushed_is_row_after: "flushed_state = fl_states.row_after" "flushed_stats = fl_stats.row_after"
  by (simp_all add: flushed_state_def flushed_stats_def fl_states.row_after_def fl_stats.row_after_def fun_eq_iff)

lemma flushed_row:
  assumes "entries_ok ps_id sts" "map_of sts k = Some st" "ps_IsDirty st" "ps_id st \<in> state_row_key ` set rows"
  shows "state_row st \<in> set (map (flushed_state (mvals sts)) rows)"
proof -
  from assms(4) obtain r where r: "ps_id st = state_row_key r" "r \<in> set rows" by (rule imageE)
  have ok: "states_ok sts" by (rule entries_keyed(1) [OF assms(1)])
  have d: "distinct (map ps_Key (mvals sts))"
    by (rule keyed_distinct) (use ok in \<open>auto simp: states_ok_def\<close>)
  have e: "st \<in> set (mvals sts)" using map_of_SomeD [OF assms(2)] by force
  have "state_row_key (state_row st) = state_row_key r" unfolding r(1) [symmetric] by (simp add: state_row_def)
  from fl_states.row_after_dirty [OF d e assms(3) this]
  show ?thesis unfolding flushed_is_row_after set_map by (rule image_eqI [OF sym r(2)])
qed

lemma flushed_stats_row:
  assumes "entries_ok st_id sts" "map_of sts k = Some st" "st_IsDirty st" "st_id st \<in> stats_row_key ` set rows"
  shows "stats_row st \<in> set (map (flushed_stats (mvals sts)) rows)"
proof -
  from assms(4) obtain r where r: "st_id st = stats_row_key r" "r \<in> set rows" by (rule imageE)
  have ok: "stats_ok sts" by (rule entries_keyed(2) [OF assms(1)])
  have d: "distinct (map st_Key (mvals sts))"
    by (rule keyed_distinct) (use ok in \<open>auto simp: stats_ok_def\<close>)
  have e: "st \<in> set (mvals sts)" using map_of_SomeD [OF assms(2)] by force
  have "stats_row_key (stats_row st) = stats_row_key r" unfolding r(1) [symmetric] by (simp add: stats_row_def Let_def)
  from fl_stats.row_after_dirty [OF d e assms(3) this]
  show ?thesis unfolding flushed_is_row_after set_map by (rule image_eqI [OF sym r(2)])
qed

text \<open>Stopping the manager writes what is dirty and keeps the tables in shape.\<close>

lemma mg_Stop_writes:
  assumes "runtime_ok m" "faultless (mg_store m)"
  shows "st_db (mg_store (mg_Stop m)) = (st_db (mg_store m))\<lparr>
      db_states := map (flushed_state (mvals (mg_States m))) (db_states (st_db (mg_store m))),
      db_stats := map (flushed_stats (mvals (mg_Stats m))) (db_stats (st_db (mg_store m))),
      db_samples := samples_of m\<rparr>" "faultless (mg_store (mg_Stop m))"
proof -
  define sm where "sm = (mg_Sync m)\<lparr>sm_states := mg_States m, sm_stats := mg_Stats m\<rparr>"
  obtain sm' s' where f: "FlushAll (sm, mg_store m) = (sm', s')" by fastforce
  have ok: "states_ok (sm_states sm)" "stats_ok (sm_stats sm)"
    using assms(1) entries_keyed by (simp_all add: sm_def runtime_ok_def)
  have "mg_store (mg_Stop m) = s'" using f by (simp add: mg_Stop_def with_sync_def Let_def sm_def)
  with FlushAll_works [OF ok assms(2) f]
  show "st_db (mg_store (mg_Stop m)) = (st_db (mg_store m))\<lparr>
      db_states := map (flushed_state (mvals (mg_States m))) (db_states (st_db (mg_store m))),
      db_stats := map (flushed_stats (mvals (mg_Stats m))) (db_stats (st_db (mg_store m))),
      db_samples := samples_of m\<rparr>" "faultless (mg_store (mg_Stop m))"
    by (simp_all add: sm_def StateManager_GetAll_def StatsManager_GetAll_def samples_of_def)
qed

lemma db_ok_same_keys:
  assumes "db_namespaces d' = db_namespaces d" "db_targets d' = db_targets d" "db_pollers d' = db_pollers d"
    "map state_row_key (db_states d') = map state_row_key (db_states d)"
    "map stats_row_key (db_stats d') = map stats_row_key (db_stats d)"
  shows "db_ok d' \<longleftrightarrow> db_ok d"
  unfolding db_ok_def assms map_eq_image [OF assms(4)] map_eq_image [OF assms(5)] by (rule refl)

lemma db_ok_flushed:
  assumes "db_ok d"
  shows "db_ok (d\<lparr>db_states := map (flushed_state sts) (db_states d),
    db_stats := map (flushed_stats sxs) (db_stats d), db_samples := xs\<rparr>)"
proof -
  have k: "map state_row_key (map (flushed_state sts) rs) = map state_row_key rs"
    "map stats_row_key (map (flushed_stats sxs) rs') = map stats_row_key rs'" for rs rs'
    unfolding flushed_is_row_after using fl_states.row_after_key fl_stats.row_after_key by simp_all
  let ?d = "d\<lparr>db_states := map (flushed_state sts) (db_states d),
    db_stats := map (flushed_stats sxs) (db_stats d), db_samples := xs\<rparr>"
  have sel: "db_namespaces ?d = db_namespaces d" "db_targets ?d = db_targets d" "db_pollers ?d = db_pollers d"
    "db_states ?d = map (flushed_state sts) (db_states d)" "db_stats ?d = map (flushed_stats sxs) (db_stats d)"
    by simp_all
  have "db_ok ?d = db_ok d" by (rule db_ok_same_keys) (simp_all only: sel k)
  with assms show ?thesis by simp
qed

lemma rest_of_db_same:
  assumes "rest_of_db d' = rest_of_db d"
  shows "db_ok d' = db_ok d" "db_pollers d' = db_pollers d" "db_states d' = db_states d" "db_stats d' = db_stats d"
proof -
  have f: "db_namespaces d' = db_namespaces d" "db_targets d' = db_targets d" "db_pollers d' = db_pollers d"
    "db_states d' = db_states d" "db_stats d' = db_stats d"
    using assms by (cases d; cases d'; simp)+
  then show "db_pollers d' = db_pollers d" "db_states d' = db_states d" "db_stats d' = db_stats d" by blast+
  show "db_ok d' = db_ok d" by (rule db_ok_same_keys) (simp_all only: f)
qed

text \<open>The last report leaves the entry dirty.\<close>

lemma record_all_dirty: "evs \<noteq> [] \<Longrightarrow> ps_dirty (ps_record_all evs s)"
proof (cases evs rule: rev_cases)
  case (snoc ys y)
  then show ?thesis by (cases y) (simp add: record_all_snoc)
qed simp

lemma RecordPolls_dirty: "ps \<noteq> [] \<Longrightarrow> st_dirty (RecordPolls ps s)"
  by (cases ps rule: rev_cases) simp_all

lemma reported_entry:
  assumes "list_all (\<lambda>r. free_id (rp_poller r)) rs" "r \<in> set rs" "rp_poller r = q"
  shows "map_of (mg_States (record_reports rs m)) (state_key q) =
      Some (fst (StateManager_Get (mg_States (record_reports rs m)) q))"
    "map_of (mg_Stats (record_reports rs m)) (state_key q) =
      Some (fst (StatsManager_Get (mg_Stats (record_reports rs m)) q))"
proof -
  have "map_of (mg_States (record_reports rs m)) (state_key q) \<noteq> None \<and>
      map_of (mg_Stats (record_reports rs m)) (state_key q) \<noteq> None"
    using assms(2)
  proof (induction rs rule: rev_induct)
    case (snoc r' rs)
    have step: "record_reports (rs @ [r']) m = record_report r' (record_reports rs m)"
      by (simp add: record_reports_def)
    show ?case
      using snoc assms(3) by (auto simp: step record_report_tables with_state_put with_stats_put)
  qed simp
  then show "map_of (mg_States (record_reports rs m)) (state_key q) =
      Some (fst (StateManager_Get (mg_States (record_reports rs m)) q))"
    "map_of (mg_Stats (record_reports rs m)) (state_key q) =
      Some (fst (StatsManager_Get (mg_Stats (record_reports rs m)) q))"
    by (auto simp: state_entry stats_entry)
qed

text \<open>C29: from a poll to the next start of the server. The manager gets any reports, of any pollers interleaved, and stops; the engine
  fails no statement. A fresh manager on that store has, for every poller that was reported on, the state that
  poller's own reports lead to, in their order, and its counters; and the
  samples of all reports are stored, in order, after those there were.\<close>

theorem polls_survive_restart:
  assumes "runtime_ok m" "faultless (mg_store m)" "db_ok (st_db (mg_store m))"
    "list_all slash_free (db_pollers (st_db (mg_store m)))" "list_all (\<lambda>r. free_id (rp_poller r)) rs"
    "p \<in> set (db_pollers (st_db (mg_store m)))" "r \<in> set rs" "rp_poller r = poller_key p"
    "mg_Stop (record_reports rs m) = m'"
    "pm_Load (NewPollerManager (mg_store m') [] [] res) = (x, pm)"
  shows "map_of (pm_states pm) (poller_str p) = Some (restarted p
      (ps_record_all (map event_of (filter (\<lambda>r. rp_poller r = poller_key p) rs))
         (fst (StateManager_Get (mg_States m) (poller_key p))))) \<and>
    map_of (pm_stats pm) (poller_str p) = Some (restarted_stats
      (RecordPolls (map obs_of (filter (\<lambda>r. rp_poller r = poller_key p) rs))
         (fst (StatsManager_Get (mg_Stats m) (poller_key p))))) \<and>
    db_samples (st_db (mg_store m')) = samples_of m @ report_samples rs"
proof -
  let ?q = "poller_key p"
  define M where "M = record_reports rs m"
  have run: "runtime_ok M" "faultless (mg_store M)" "rest_of_db (st_db (mg_store M)) = rest_of_db (st_db (mg_store m))"
    "samples_of M = samples_of m @ report_samples rs"
    using record_reports_run [OF assms(2,1,5)] by (simp_all add: M_def)
  have q: "free_id ?q" using assms(4,6) by (auto simp: list_all_iff slash_free_def free_id_def)
  define st where "st = fst (StateManager_Get (mg_States M) ?q)"
  define sx where "sx = fst (StatsManager_Get (mg_Stats M) ?q)"
  have ent: "map_of (mg_States M) (state_key ?q) = Some st" "map_of (mg_Stats M) (state_key ?q) = Some sx"
    using reported_entry [OF assms(5,7,8), of m] by (simp_all add: M_def st_def sx_def)
  have eqs: "st = ps_record_all (map event_of (filter (\<lambda>r. rp_poller r = ?q) rs)) (fst (StateManager_Get (mg_States m) ?q))"
    "sx = RecordPolls (map obs_of (filter (\<lambda>r. rp_poller r = ?q) rs)) (fst (StatsManager_Get (mg_Stats m) ?q))"
    using record_reports_entry [OF assms(5) q, of m] unfolding st_def sx_def M_def by blast+
  have some: "filter (\<lambda>r. rp_poller r = ?q) rs \<noteq> []" using assms(7,8) unfolding filter_empty_conv by blast
  have dirty: "ps_IsDirty st" "st_IsDirty sx"
    unfolding eqs ps_IsDirty_def st_IsDirty_def using some record_all_dirty RecordPolls_dirty by simp_all
  have ok: "entries_ok ps_id (mg_States M)" "entries_ok st_id (mg_Stats M)" using run(1) by (simp_all add: runtime_ok_def)
  note ids = state_entry_id [OF ok(1) q, folded st_def] stats_entry_id [OF ok(2) q, folded sx_def]
  note same = rest_of_db_same [OF run(3)]
  have dbM: "db_ok (st_db (mg_store M))" using same(1) assms(3) by simp
  note stop = mg_Stop_writes [OF run(1,2)]
  have m': "m' = mg_Stop M" using assms(9) by (simp add: M_def)
  let ?d = "st_db (mg_store m')"
  have d: "db_ok ?d" "db_pollers ?d = db_pollers (st_db (mg_store m))"
    "db_states ?d = map (flushed_state (mvals (mg_States M))) (db_states (st_db (mg_store m)))"
    "db_stats ?d = map (flushed_stats (mvals (mg_Stats M))) (db_stats (st_db (mg_store m)))"
    "db_samples ?d = samples_of m @ report_samples rs"
    unfolding m' stop(1) using db_ok_flushed [OF dbM] same(2-4) run(4) by simp_all
  have key: "?q \<in> poller_key ` set (db_pollers (st_db (mg_store m)))" using assms(6) by (rule imageI)
  have rows: "ps_id st \<in> state_row_key ` set (db_states (st_db (mg_store m)))"
    "st_id sx \<in> stats_row_key ` set (db_stats (st_db (mg_store m)))"
    unfolding ids using key assms(3) unfolding db_ok_def by (simp_all only:)
  have written: "state_row st \<in> set (db_states ?d)" "stats_row sx \<in> set (db_stats ?d)"
    unfolding d(3,4) using flushed_row [OF ok(1) ent(1) dirty(1) rows(1)]
      flushed_stats_row [OF ok(2) ent(2) dirty(2) rows(2)] by blast+
  have f: "faultless (mg_store m')" unfolding m' by (rule stop(2))
  have pl: "list_all slash_free (db_pollers ?d)" "p \<in> set (db_pollers ?d)" unfolding d(2) using assms(4,6) by blast+
  from pm_Load_restores [OF f d(1) pl ids(1) written(1) ids(2) written(2) assms(10)]
  show ?thesis using d(5) unfolding eqs by blast
qed


definition ex_manager :: Manager where
  "ex_manager = (case mg_New (Inr ((open_store (\<lambda>_. None) None)\<lparr>st_db := st_db (pm_store ex_pm)\<rparr>)) None ''v'' 0 of
     Inr m \<Rightarrow> m)"

definition ex_reports :: "poll_report list" where
  "ex_reports = [
     \<lparr>rp_poller = (''n'', ''t'', ''a''), rp_success = False, rp_timeout = True, rp_err = ''timeout'', rp_ms = 5000,
      rp_now = 1, rp_sample = None\<rparr>,
     \<lparr>rp_poller = (''n'', ''t'', ''b''), rp_success = False, rp_timeout = False, rp_err = ''refused'', rp_ms = 3,
      rp_now = 2, rp_sample = None\<rparr>,
     \<lparr>rp_poller = (''n'', ''t'', ''a''), rp_success = True, rp_timeout = False, rp_err = [], rp_ms = 20,
      rp_now = 3, rp_sample = Some (ex_sample 3 7)\<rparr>]"

lemma polls_survive_restart_witness:
  "let p = hd (db_pollers (st_db (mg_store ex_manager)));
       m' = mg_Stop (record_reports ex_reports ex_manager);
       pm = snd (pm_Load (NewPollerManager (mg_store m') [] [] NewConfigResolver))
   in map_option ps_HealthState (map_of (pm_states pm) (poller_str p)) = Some HealthStateUp \<and>
      map_option st_PollsTimeout (map_of (pm_stats pm) (poller_str p)) = Some 1 \<and>
      db_samples (st_db (mg_store m')) = [ex_sample 3 7]"
proof -
  define p where "p = hd (db_pollers (st_db (mg_store ex_manager)))"
  define m' where "m' = mg_Stop (record_reports ex_reports ex_manager)"
  define pm where "pm = snd (pm_Load (NewPollerManager (mg_store m') [] [] NewConfigResolver))"
  have a: "runtime_ok ex_manager" "faultless (mg_store ex_manager)"
    by (simp_all add: ex_manager_def mg_New_def NewPollerManager_def runtime_ok_def entries_ok_def faultless_def open_store_def)
  have b: "db_ok (st_db (mg_store ex_manager))" by code_simp
  have c: "list_all slash_free (db_pollers (st_db (mg_store ex_manager)))" by code_simp
  have d: "list_all (\<lambda>r. free_id (rp_poller r)) ex_reports" by code_simp
  have e: "p \<in> set (db_pollers (st_db (mg_store ex_manager)))" unfolding p_def by code_simp
  have f: "hd ex_reports \<in> set ex_reports" by (simp add: ex_reports_def)
  have g: "rp_poller (hd ex_reports) = poller_key p" unfolding p_def by code_simp
  have k: "poller_key p = (''n'', ''t'', ''a'')" unfolding p_def by code_simp
  have ld: "pm_Load (NewPollerManager (mg_store m') [] [] NewConfigResolver) =
      (fst (pm_Load (NewPollerManager (mg_store m') [] [] NewConfigResolver)), pm)" by (simp add: pm_def)
  have st: "ps_HealthState (ps_record_all (map event_of (filter (\<lambda>r. rp_poller r = (''n'', ''t'', ''a'')) ex_reports))
      (fst (StateManager_Get (mg_States ex_manager) (''n'', ''t'', ''a'')))) = HealthStateUp" by code_simp
  have sx: "st_PollsTimeout (RecordPolls (map obs_of (filter (\<lambda>r. rp_poller r = (''n'', ''t'', ''a'')) ex_reports))
      (fst (StatsManager_Get (mg_Stats ex_manager) (''n'', ''t'', ''a'')))) = 1" by code_simp
  have sa: "samples_of ex_manager @ report_samples ex_reports = [ex_sample 3 7]" by code_simp
  note all = polls_survive_restart [OF a b c d e f g m'_def [symmetric] ld, unfolded k sa]
  show ?thesis
    unfolding p_def [symmetric] m'_def [symmetric] pm_def [symmetric] Let_def
    using all st sx by simp
qed

end
