(* ===== verification/Session.thy ===== *)
theory Session
  imports RevIndex
begin

text \<open>
  Client sessions: internal/handler/session.go.

  A \<open>*Session\<close> is a pointer, the number of the session in the order of creation; the manager's heap \<open>sg_heap\<close> maps it to
  its value, and the maps of the manager hold pointers. The id of a session is
  the first eight characters of a random UUID, an argument here. A connection is an opaque number. The send channel is
  the list of queued messages and a flag for closed: \<open>Send\<close> and \<open>Close\<close> on a closed channel
  panic, which is the result \<open>None\<close>.

  Each method holds the lock of its object and is one step; \<open>Cleanup\<close> drops the lock between collecting the
  expired sessions and removing them, which are two definitions.
\<close>

record Session =
  sn_ID :: string
  sn_TokenID :: string
  sn_Namespace :: string
  sn_Conn :: nat
  sn_CreatedAt :: int
  sn_LostAt :: "int option"
  sn_subscriptions :: "string list"
  sn_sendCh :: "string list"
  sn_closed :: bool

definition NewSession :: "string \<Rightarrow> string \<Rightarrow> nat \<Rightarrow> int \<Rightarrow> Session" where
  "NewSession sid tokenID conn now =
     \<lparr>sn_ID = sid, sn_TokenID = tokenID, sn_Namespace = [], sn_Conn = conn, sn_CreatedAt = now,
      sn_LostAt = None, sn_subscriptions = [], sn_sendCh = [], sn_closed = False\<rparr>"

section \<open>One session\<close>

definition sn_BindNamespace :: "string \<Rightarrow> Session \<Rightarrow> Session go" where
  "sn_BindNamespace namespace s =
     (if sn_Namespace s \<noteq> [] \<and> sn_Namespace s \<noteq> namespace
      then Inl (Errorf (''session already bound to namespace '' @ sn_Namespace s))
      else Inr (s\<lparr>sn_Namespace := namespace\<rparr>))"

definition sn_GetNamespace :: "Session \<Rightarrow> string" where
  "sn_GetNamespace s = sn_Namespace s"

definition sn_IsBound :: "Session \<Rightarrow> bool" where
  "sn_IsBound s \<longleftrightarrow> sn_Namespace s \<noteq> []"

definition sn_Subscribe :: "string \<Rightarrow> Session \<Rightarrow> Session" where
  "sn_Subscribe key s = s\<lparr>sn_subscriptions := sadd key (sn_subscriptions s)\<rparr>"

definition sn_Unsubscribe :: "string \<Rightarrow> Session \<Rightarrow> Session" where
  "sn_Unsubscribe key s = s\<lparr>sn_subscriptions := sdel key (sn_subscriptions s)\<rparr>"

definition sn_UnsubscribeAll :: "Session \<Rightarrow> string list \<times> Session" where
  "sn_UnsubscribeAll s = (sn_subscriptions s, s\<lparr>sn_subscriptions := []\<rparr>)"

definition sn_IsSubscribed :: "string \<Rightarrow> Session \<Rightarrow> bool" where
  "sn_IsSubscribed key s \<longleftrightarrow> key \<in> set (sn_subscriptions s)"

definition sn_GetSubscriptions :: "Session \<Rightarrow> string list" where
  "sn_GetSubscriptions s = sn_subscriptions s"

definition sn_SubscriptionCount :: "Session \<Rightarrow> nat" where
  "sn_SubscriptionCount s = length (sn_subscriptions s)"

definition sn_Send :: "string \<Rightarrow> Session \<Rightarrow> (bool \<times> Session) option" where
  "sn_Send data s =
     (if sn_closed s then None
      else if length (sn_sendCh s) < 1000 then Some (True, s\<lparr>sn_sendCh := sn_sendCh s @ [data]\<rparr>)
      else Some (False, s))"

definition sn_MarkLost :: "int \<Rightarrow> Session \<Rightarrow> Session" where
  "sn_MarkLost now s = s\<lparr>sn_LostAt := Some now\<rparr>"

definition sn_IsLost :: "Session \<Rightarrow> bool" where
  "sn_IsLost s \<longleftrightarrow> sn_LostAt s \<noteq> None"

definition sn_LostDuration :: "int \<Rightarrow> Session \<Rightarrow> int" where
  "sn_LostDuration now s = (case sn_LostAt s of None \<Rightarrow> 0 | Some t \<Rightarrow> now - t)"

definition sn_Restore :: "nat \<Rightarrow> Session \<Rightarrow> Session" where
  "sn_Restore conn s = s\<lparr>sn_Conn := conn, sn_LostAt := None, sn_sendCh := [], sn_closed := False\<rparr>"

section \<open>The session manager\<close>

record TokenConfig =
  tk_ID :: string
  tk_Token :: string
  tk_Namespaces :: "string list"

record SessionManagerConfig =
  sc_ReconnectWindow :: int
  sc_AuthTimeout :: int
  sc_Tokens :: "TokenConfig list"

type_synonym sptr = nat

record SessionManager =
  sg_heap :: "(sptr, Session) gomap"
  sg_next :: sptr
  sg_sessions :: "(string, sptr) gomap"
  sg_tokens :: "(string, TokenConfig) gomap"
  sg_byToken :: "(string, sptr list) gomap"
  sg_subscriptionIndex :: "(string, string) revidx"
  sg_reconnectWindow :: int
  sg_authTimeout :: int
  sg_onClosed :: bool
  sg_closedCalls :: "sptr list"

definition NewSessionManager :: "SessionManagerConfig \<Rightarrow> SessionManager" where
  "NewSessionManager cfg =
     \<lparr>sg_heap = [], sg_next = 0, sg_sessions = [],
      sg_tokens = foldl (\<lambda>m t. mput (tk_ID t) t m) [] (sc_Tokens cfg),
      sg_byToken = [], sg_subscriptionIndex = [],
      sg_reconnectWindow = sc_ReconnectWindow cfg, sg_authTimeout = sc_AuthTimeout cfg,
      sg_onClosed = False, sg_closedCalls = []\<rparr>"

definition SetOnSessionClosed :: "SessionManager \<Rightarrow> SessionManager" where
  "SetOnSessionClosed m = m\<lparr>sg_onClosed := True\<rparr>"

text \<open>The session at a pointer, and a method run on it.\<close>

definition deref :: "SessionManager \<Rightarrow> sptr \<Rightarrow> Session" where
  "deref m x = (case map_of (sg_heap m) x of None \<Rightarrow> NewSession [] [] 0 0 | Some s \<Rightarrow> s)"

definition on_session :: "sptr \<Rightarrow> (Session \<Rightarrow> Session) \<Rightarrow> SessionManager \<Rightarrow> SessionManager" where
  "on_session x f m = m\<lparr>sg_heap := mput x (f (deref m x)) (sg_heap m)\<rparr>"

text \<open>The first token, in the order of the loop, that is equal.\<close>

definition ValidateToken :: "string \<Rightarrow> SessionManager \<Rightarrow> TokenConfig option" where
  "ValidateToken token m = List.find (\<lambda>t. tk_Token t = token) (mvals (sg_tokens m))"

definition CanAccessNamespace :: "string \<Rightarrow> string \<Rightarrow> SessionManager \<Rightarrow> bool" where
  "CanAccessNamespace tokenID namespace m =
     (case map_of (sg_tokens m) tokenID of
        None \<Rightarrow> False
      | Some t \<Rightarrow> if tk_Namespaces t = [] then True else list_ex (\<lambda>ns. ns = namespace) (tk_Namespaces t))"

definition sessions_of :: "SessionManager \<Rightarrow> string \<Rightarrow> sptr list" where
  "sessions_of m tokenID = (case map_of (sg_byToken m) tokenID of None \<Rightarrow> [] | Some xs \<Rightarrow> xs)"

definition CreateSession ::
    "string \<Rightarrow> int \<Rightarrow> string \<Rightarrow> nat \<Rightarrow> SessionManager \<Rightarrow> sptr \<times> SessionManager" where
  "CreateSession sid now tokenID conn m =
     (let x = sg_next m in
      (x, m\<lparr>sg_heap := mput x (NewSession sid tokenID conn now) (sg_heap m), sg_next := x + 1,
            sg_sessions := mput sid x (sg_sessions m),
            sg_byToken := mput tokenID (sessions_of m tokenID @ [x]) (sg_byToken m)\<rparr>))"

definition GetSession :: "string \<Rightarrow> SessionManager \<Rightarrow> sptr option" where
  "GetSession sid m = map_of (sg_sessions m) sid"

definition restorable :: "int \<Rightarrow> SessionManager \<Rightarrow> sptr \<Rightarrow> bool" where
  "restorable now m x \<longleftrightarrow>
     sn_IsLost (deref m x) \<and> sn_LostDuration now (deref m x) < sg_reconnectWindow m"

definition TryRestore :: "int \<Rightarrow> string \<Rightarrow> nat \<Rightarrow> SessionManager \<Rightarrow> sptr option \<times> SessionManager" where
  "TryRestore now tokenID conn m =
     (case List.find (restorable now m) (sessions_of m tokenID) of
        None \<Rightarrow> (None, m)
      | Some x \<Rightarrow> (Some x, on_session x (sn_Restore conn) m))"

text \<open>\<open>append(ts[:i], ts[i+1:]...)\<close> at the first session of the id.\<close>

fun drop_session :: "SessionManager \<Rightarrow> string \<Rightarrow> sptr list \<Rightarrow> sptr list" where
  "drop_session m sid [] = []"
| "drop_session m sid (x # xs) = (if sn_ID (deref m x) = sid then xs else x # drop_session m sid xs)"

definition removeSession :: "string \<Rightarrow> SessionManager \<Rightarrow> SessionManager" where
  "removeSession sid m =
     (case map_of (sg_sessions m) sid of
        None \<Rightarrow> m
      | Some x \<Rightarrow>
          (let tok = sn_TokenID (deref m x);
               m1 = m\<lparr>sg_sessions := mdel sid (sg_sessions m)\<rparr>;
               tokenSessions = sessions_of m1 tok;
               m2 = (if drop_session m1 sid tokenSessions = tokenSessions then m1
                     else m1\<lparr>sg_byToken := mput tok (drop_session m1 sid tokenSessions) (sg_byToken m1)\<rparr>)
           in if sg_onClosed m2 then m2\<lparr>sg_closedCalls := sg_closedCalls m2 @ [x]\<rparr> else m2))"

text \<open>\<open>Session.Close\<close>: the channel, the connection, and the callback \<open>CreateSession\<close> has set.\<close>

definition sn_Close :: "sptr \<Rightarrow> SessionManager \<Rightarrow> SessionManager option" where
  "sn_Close x m =
     (if sn_closed (deref m x) then None
      else Some (removeSession (sn_ID (deref m x)) (on_session x (\<lambda>s. s\<lparr>sn_closed := True\<rparr>) m)))"

definition GetSessions :: "SessionManager \<Rightarrow> sptr list" where
  "GetSessions m = mvals (sg_sessions m)"

definition GetSessionsInNamespace :: "string \<Rightarrow> SessionManager \<Rightarrow> sptr list" where
  "GetSessionsInNamespace namespace m =
     filter (\<lambda>x. sn_GetNamespace (deref m x) = namespace) (mvals (sg_sessions m))"

definition GetSubscribersFor :: "string \<Rightarrow> string \<Rightarrow> SessionManager \<Rightarrow> sptr list" where
  "GetSubscribersFor namespace key m =
     (case map_of (sg_subscriptionIndex m) (namespace @ ''/'' @ key) of
        None \<Rightarrow> []
      | Some sessionIDs \<Rightarrow>
          List.map_filter (\<lambda>sessionID. case map_of (sg_sessions m) sessionID of
              None \<Rightarrow> None
            | Some x \<Rightarrow> if \<not> sn_IsLost (deref m x) then Some x else None) sessionIDs)"

definition SubscribeSession :: "string \<Rightarrow> string \<Rightarrow> string \<Rightarrow> SessionManager \<Rightarrow> SessionManager" where
  "SubscribeSession sessionID namespace key m =
     m\<lparr>sg_subscriptionIndex := idx_add (namespace @ ''/'' @ key) sessionID (sg_subscriptionIndex m)\<rparr>"

definition UnsubscribeSession :: "string \<Rightarrow> string \<Rightarrow> string \<Rightarrow> SessionManager \<Rightarrow> SessionManager" where
  "UnsubscribeSession sessionID namespace key m =
     m\<lparr>sg_subscriptionIndex := idx_del (namespace @ ''/'' @ key) sessionID (sg_subscriptionIndex m)\<rparr>"

definition UnsubscribeAllForSession :: "string \<Rightarrow> string \<Rightarrow> SessionManager \<Rightarrow> SessionManager" where
  "UnsubscribeAllForSession sessionID namespace m =
     (let pre = namespace @ ''/'';
          hits = filter (\<lambda>fullKey. length fullKey > length pre \<and> take (length pre) fullKey = pre)
                   (mkeys (sg_subscriptionIndex m))
      in m\<lparr>sg_subscriptionIndex := foldl (\<lambda>idx fullKey. idx_del fullKey sessionID idx) (sg_subscriptionIndex m) hits\<rparr>)"

definition sg_Count :: "SessionManager \<Rightarrow> nat" where
  "sg_Count m = length (sg_sessions m)"

definition CountActive :: "SessionManager \<Rightarrow> nat" where
  "CountActive m = length (filter (\<lambda>x. \<not> sn_IsLost (deref m x)) (mvals (sg_sessions m)))"

definition CountLost :: "SessionManager \<Rightarrow> nat" where
  "CountLost m = length (filter (\<lambda>x. sn_IsLost (deref m x)) (mvals (sg_sessions m)))"

definition expired :: "int \<Rightarrow> SessionManager \<Rightarrow> string list" where
  "expired now m =
     map fst (filter (\<lambda>(sid, x). sn_IsLost (deref m x) \<and> sn_LostDuration now (deref m x) > sg_reconnectWindow m)
       (sg_sessions m))"

definition Cleanup :: "int \<Rightarrow> SessionManager \<Rightarrow> nat \<times> SessionManager" where
  "Cleanup now m =
     (let toRemove = expired now m in
      (length toRemove, foldl (\<lambda>m sid. removeSession sid m) m toRemove))"

definition AuthTimeout :: "SessionManager \<Rightarrow> int" where
  "AuthTimeout m = sg_authTimeout m"

definition ReconnectWindow :: "SessionManager \<Rightarrow> int" where
  "ReconnectWindow m = sg_reconnectWindow m"

section \<open>The registry\<close>

lemma deref_on_session [simp]: "deref (on_session x f m) y = (if y = x then f (deref m x) else deref m y)"
  by (simp add: deref_def on_session_def)

lemma on_session_fields [simp]:
  "sg_next (on_session x f m) = sg_next m" "sg_sessions (on_session x f m) = sg_sessions m"
  "sg_byToken (on_session x f m) = sg_byToken m" "sg_tokens (on_session x f m) = sg_tokens m"
  "sg_subscriptionIndex (on_session x f m) = sg_subscriptionIndex m"
  "sg_reconnectWindow (on_session x f m) = sg_reconnectWindow m"
  "sg_onClosed (on_session x f m) = sg_onClosed m" "sessions_of (on_session x f m) = sessions_of m"
  by (simp_all add: on_session_def sessions_of_def fun_eq_iff)

text \<open>
  The session at \<open>x\<close> is the one registered under its id. \<open>sg_reg\<close>: a registered session has been
  created and is filed under its own id, and the list of a token holds exactly the registered
  sessions of the token, each once. \<open>sg_ok\<close>: registered sessions are also open.
\<close>

definition registered :: "SessionManager \<Rightarrow> sptr \<Rightarrow> bool" where
  "registered m x \<longleftrightarrow> GetSession (sn_ID (deref m x)) m = Some x"

definition sg_reg :: "SessionManager \<Rightarrow> bool" where
  "sg_reg m \<longleftrightarrow>
     gomap_ok (sg_sessions m) \<and>
     (\<forall>sid x. GetSession sid m = Some x \<longrightarrow> x < sg_next m \<and> sn_ID (deref m x) = sid) \<and>
     (\<forall>tok x. x \<in> set (sessions_of m tok) \<longleftrightarrow> sn_TokenID (deref m x) = tok \<and> registered m x) \<and>
     (\<forall>tok. distinct (sessions_of m tok))"

definition sg_ok :: "SessionManager \<Rightarrow> bool" where
  "sg_ok m \<longleftrightarrow> sg_reg m \<and> (\<forall>x. registered m x \<longrightarrow> \<not> sn_closed (deref m x))"

lemma sg_regD:
  assumes "sg_reg m"
  shows "gomap_ok (sg_sessions m)"
    and "GetSession sid m = Some x \<Longrightarrow> x < sg_next m"
    and "GetSession sid m = Some x \<Longrightarrow> sn_ID (deref m x) = sid"
    and "x \<in> set (sessions_of m tok) \<longleftrightarrow> sn_TokenID (deref m x) = tok \<and> registered m x"
    and "distinct (sessions_of m tok)"
  using assms by (auto simp: sg_reg_def)

lemma registered_less: "sg_reg m \<Longrightarrow> registered m x \<Longrightarrow> x < sg_next m"
  by (auto simp: registered_def dest: sg_regD)

lemma registered_iff: "sg_reg m \<Longrightarrow> registered m x \<longleftrightarrow> (\<exists>sid. GetSession sid m = Some x)"
  by (auto simp: registered_def dest: sg_regD(3))

lemma registered_id:
  assumes "sg_reg m" "GetSession sid m = Some x" "registered m y"
  shows "sn_ID (deref m y) = sid \<longleftrightarrow> y = x"
proof
  assume "sn_ID (deref m y) = sid"
  then show "y = x" using assms(2,3) unfolding registered_def by simp
next
  assume "y = x"
  then show "sn_ID (deref m y) = sid" using sg_regD(3) [OF assms(1,2)] by blast
qed

lemma registered_get: "sg_reg m \<Longrightarrow> GetSession sid m = Some x \<Longrightarrow> registered m x"
  by (simp add: registered_iff) blast

lemma sg_ok_new: "sg_ok (NewSessionManager cfg)"
  by (simp add: sg_ok_def sg_reg_def NewSessionManager_def GetSession_def sessions_of_def registered_def)

subsection \<open>A change of one session\<close>

lemma GetSession_on_session [simp]: "GetSession sid (on_session x f m) = GetSession sid m"
  by (simp add: GetSession_def)

lemma registered_on_session:
  "sn_ID (f (deref m x)) = sn_ID (deref m x) \<Longrightarrow> registered (on_session x f m) y = registered m y"
  by (simp add: registered_def)

lemma sg_reg_on_session:
  assumes "sg_reg m" "sn_ID (f (deref m x)) = sn_ID (deref m x)" "sn_TokenID (f (deref m x)) = sn_TokenID (deref m x)"
  shows "sg_reg (on_session x f m)"
  using assms unfolding sg_reg_def by (auto simp: registered_on_session)

lemma sg_ok_on_session:
  assumes "sg_ok m" "sn_ID (f (deref m x)) = sn_ID (deref m x)" "sn_TokenID (f (deref m x)) = sn_TokenID (deref m x)"
    "\<not> sn_closed (deref m x) \<Longrightarrow> \<not> sn_closed (f (deref m x))"
  shows "sg_ok (on_session x f m)"
  using assms by (auto simp: sg_ok_def registered_on_session intro: sg_reg_on_session)

subsection \<open>Creating\<close>

lemma CreateSession_eqs:
  assumes "CreateSession sid now tok conn m = (x, m')"
  shows "x = sg_next m" "sg_next m' = x + 1" "sg_sessions m' = mput sid x (sg_sessions m)"
    "sg_reconnectWindow m' = sg_reconnectWindow m" "sg_tokens m' = sg_tokens m"
    "deref m' y = (if y = x then NewSession sid tok conn now else deref m y)"
    "sessions_of m' t = (if t = tok then sessions_of m tok @ [x] else sessions_of m t)"
  using assms by (auto simp: CreateSession_def Let_def deref_def sessions_of_def)

lemma registered_create:
  assumes ok: "sg_reg m" and cr: "CreateSession sid now tok conn m = (x, m')" and fresh: "GetSession sid m = None"
  shows "registered m' y \<longleftrightarrow> y = x \<or> registered m y" "\<not> registered m x"
    "GetSession s m' = (if s = sid then Some x else GetSession s m)"
proof -
  note eqs = CreateSession_eqs [OF cr]
  show get: "GetSession s m' = (if s = sid then Some x else GetSession s m)" for s
    by (simp add: GetSession_def eqs(3))
  show notx: "\<not> registered m x" using registered_less [OF ok] eqs(1) by blast
  show "registered m' y \<longleftrightarrow> y = x \<or> registered m y"
    using fresh sg_regD(2) [OF ok] eqs(1) notx by (auto simp: registered_def get eqs(6) NewSession_def)
qed

lemma sg_ok_create:
  assumes ok: "sg_ok m" and cr: "CreateSession sid now tok conn m = (x, m')" and fresh: "GetSession sid m = None"
  shows "sg_ok m'"
proof -
  note eqs = CreateSession_eqs [OF cr]
  have rg: "sg_reg m" and op: "\<And>y. registered m y \<Longrightarrow> \<not> sn_closed (deref m y)"
    using ok by (auto simp: sg_ok_def)
  note reg = registered_create [OF rg cr fresh]
  have "y < sg_next m' \<and> sn_ID (deref m' y) = s" if "GetSession s m' = Some y" for s y
    using that sg_regD(2,3) [OF rg, of s y] eqs(1,2) by (auto simp: reg(3) eqs(6) NewSession_def split: if_splits)
  moreover have "y \<in> set (sessions_of m' t) \<longleftrightarrow> sn_TokenID (deref m' y) = t \<and> registered m' y" for y t
    using sg_regD(4) [OF rg, of y t] reg(2) by (auto simp: reg(1) eqs(6,7) NewSession_def)
  moreover have "distinct (sessions_of m' t)" for t
    using sg_regD(4,5) [OF rg] reg(2) by (auto simp: eqs(7))
  moreover have "\<not> sn_closed (deref m' y)" if "registered m' y" for y
    using that op by (auto simp: reg(1) eqs(6) NewSession_def)
  ultimately show ?thesis using sg_regD(1) [OF rg] unfolding sg_ok_def sg_reg_def by (auto simp: eqs(3))
qed

subsection \<open>Removing\<close>

lemma drop_session_remove1:
  "x \<in> set xs \<Longrightarrow> (\<And>y. y \<in> set xs \<Longrightarrow> sn_ID (deref m y) = sid \<longleftrightarrow> y = x) \<Longrightarrow>
   drop_session m sid xs = remove1 x xs"
  by (induction xs) auto

lemma removeSession_absent: "GetSession sid m = None \<Longrightarrow> removeSession sid m = m"
  by (simp add: removeSession_def GetSession_def)

lemma mdel_absent: "map_of m k = None \<Longrightarrow> mdel k m = m"
  by (simp add: delete_idem map_of_eq_None_iff)

lemma removeSession_frame:
  "deref (removeSession sid m) = deref m" "sg_sessions (removeSession sid m) = mdel sid (sg_sessions m)"
  "sg_next (removeSession sid m) = sg_next m" "sg_reconnectWindow (removeSession sid m) = sg_reconnectWindow m"
  by (auto simp: removeSession_def Let_def deref_def fun_eq_iff mdel_absent split: option.split)

lemma GetSession_remove: "GetSession s (removeSession sid m) = (if s = sid then None else GetSession s m)"
  by (simp add: GetSession_def removeSession_frame)

lemma sessions_of_remove:
  assumes ok: "sg_reg m" and get: "GetSession sid m = Some x"
  shows "sessions_of (removeSession sid m) t = remove1 x (sessions_of m t)"
proof -
  define tok where "tok = sn_TokenID (deref m x)"
  have x: "x \<in> set (sessions_of m tok)"
    using registered_get [OF ok get] by (simp add: sg_regD(4) [OF ok] tok_def)
  have der: "deref (m\<lparr>sg_sessions := a\<rparr>) = deref m" for a by (simp add: deref_def fun_eq_iff)
  have ids: "sn_ID (deref (m\<lparr>sg_sessions := a\<rparr>) y) = sid \<longleftrightarrow> y = x" if "y \<in> set (sessions_of m tok)" for y a
    using that registered_id [OF ok get, of y] by (simp add: sg_regD(4) [OF ok] der)
  have so: "sessions_of (m\<lparr>sg_sessions := a\<rparr>) = sessions_of m" for a
    by (simp add: sessions_of_def fun_eq_iff)
  have drop: "drop_session (m\<lparr>sg_sessions := a\<rparr>) sid (sessions_of m tok) = remove1 x (sessions_of m tok)" for a
    by (rule drop_session_remove1 [OF x ids])
  have notin: "remove1 x (sessions_of m t) = sessions_of m t" if "t \<noteq> tok" for t
    using sg_regD(4) [OF ok] that by (simp add: tok_def remove1_idem)
  have "sessions_of (removeSession sid m) t =
      (if t = tok then remove1 x (sessions_of m tok) else sessions_of m t)"
    using get unfolding removeSession_def GetSession_def
    by (simp add: Let_def so drop flip: tok_def) (simp add: sessions_of_def)
  then show ?thesis by (simp add: notin)
qed

lemma registered_remove:
  assumes ok: "sg_reg m"
  shows "registered (removeSession sid m) y \<longleftrightarrow> registered m y \<and> sn_ID (deref m y) \<noteq> sid"
  by (auto simp: registered_def removeSession_frame GetSession_remove)

lemma sg_reg_remove:
  assumes ok: "sg_reg m"
  shows "sg_reg (removeSession sid m)"
proof (cases "GetSession sid m")
  case (Some x)
  note so = sessions_of_remove [OF ok Some]
  note id = registered_id [OF ok Some]
  have "y \<in> set (sessions_of (removeSession sid m) t) \<longleftrightarrow>
      sn_TokenID (deref m y) = t \<and> registered m y \<and> sn_ID (deref m y) \<noteq> sid" for y t
    using sg_regD(4) [OF ok, of y t] sg_regD(5) [OF ok, of t] id by (auto simp: so)
  moreover have "distinct (sessions_of (removeSession sid m) t)" for t using sg_regD(5) [OF ok] by (simp add: so)
  ultimately show ?thesis
    using sg_regD(1-3) [OF ok] unfolding sg_reg_def registered_remove [OF ok]
    by (auto simp: GetSession_remove removeSession_frame)
qed (use ok in \<open>simp add: removeSession_absent\<close>)

lemma sg_ok_remove: "sg_ok m \<Longrightarrow> sg_ok (removeSession sid m)"
  by (auto simp: sg_ok_def sg_reg_remove registered_remove removeSession_frame)

lemma sg_ok_close:
  assumes ok: "sg_ok m" and c: "sn_Close x m = Some m'"
  shows "sg_ok m'"
proof -
  have m': "m' = removeSession (sn_ID (deref m x)) (on_session x (\<lambda>s. s\<lparr>sn_closed := True\<rparr>) m)"
    using c by (simp add: sn_Close_def split: if_splits)
  have rg: "sg_reg (on_session x (\<lambda>s. s\<lparr>sn_closed := True\<rparr>) m)"
    using ok by (intro sg_reg_on_session) (auto simp: sg_ok_def)
  show ?thesis
    using ok rg unfolding m' sg_ok_def
    by (auto simp: sg_reg_remove registered_remove removeSession_frame registered_on_session)
qed

lemma removed_sessions:
  "sg_reg m \<Longrightarrow> sg_reg (foldl (\<lambda>m sid. removeSession sid m) m ids) \<and>
   deref (foldl (\<lambda>m sid. removeSession sid m) m ids) = deref m \<and>
   sg_reconnectWindow (foldl (\<lambda>m sid. removeSession sid m) m ids) = sg_reconnectWindow m \<and>
   (\<forall>s. GetSession s (foldl (\<lambda>m sid. removeSession sid m) m ids) = (if s \<in> set ids then None else GetSession s m)) \<and>
   (\<forall>t. sessions_of (foldl (\<lambda>m sid. removeSession sid m) m ids) t =
        filter (\<lambda>x. sn_ID (deref m x) \<notin> set ids) (sessions_of m t))"
proof (induction ids arbitrary: m)
  case (Cons sid ids)
  have one: "sessions_of (removeSession sid m) t = filter (\<lambda>x. sn_ID (deref m x) \<noteq> sid) (sessions_of m t)" for t
  proof (cases "GetSession sid m")
    case None
    have "registered m x" if "x \<in> set (sessions_of m t)" for x
      using that by (simp add: sg_regD(4) [OF Cons.prems])
    then have "\<forall>x \<in> set (sessions_of m t). sn_ID (deref m x) \<noteq> sid"
      using None unfolding registered_def by auto
    then show ?thesis by (simp add: removeSession_absent [OF None])
  next
    case (Some x)
    have "sn_ID (deref m y) = sid \<longleftrightarrow> y = x" if "y \<in> set (sessions_of m t)" for y
      using that registered_id [OF Cons.prems Some, of y] by (simp add: sg_regD(4) [OF Cons.prems])
    then have "filter (\<lambda>x. sn_ID (deref m x) \<noteq> sid) (sessions_of m t) = filter (\<lambda>y. x \<noteq> y) (sessions_of m t)"
      by (intro filter_cong) auto
    then show ?thesis
      unfolding sessions_of_remove [OF Cons.prems Some] distinct_remove1_removeAll [OF sg_regD(5) [OF Cons.prems]]
      by (simp add: removeAll_filter_not_eq)
  qed
  note IH = Cons.IH [OF sg_reg_remove [OF Cons.prems, of sid]]
  then show ?case
    by (simp add: removeSession_frame GetSession_remove one conj_commute)
qed simp

text \<open>The sessions \<open>Cleanup\<close> takes out: lost for longer than the window.\<close>

definition overdue :: "int \<Rightarrow> SessionManager \<Rightarrow> sptr \<Rightarrow> bool" where
  "overdue now m x \<longleftrightarrow> sn_IsLost (deref m x) \<and> sn_LostDuration now (deref m x) > sg_reconnectWindow m"

lemma expired_iff: "sg_reg m \<Longrightarrow> sid \<in> set (expired now m) \<longleftrightarrow> (\<exists>x. GetSession sid m = Some x \<and> overdue now m x)"
  unfolding expired_def overdue_def GetSession_def
  by (frule sg_regD(1)) (force simp: gomap_ok_def)

lemma overdue_not_restorable:
  "overdue now m x \<Longrightarrow> now \<le> now' \<Longrightarrow> \<not> restorable now' m x"
  by (auto simp: overdue_def restorable_def sn_LostDuration_def sn_IsLost_def)

lemma Cleanup_eqs:
  assumes ok: "sg_reg m"
  shows "sg_reg (snd (Cleanup now m))" "deref (snd (Cleanup now m)) = deref m"
    "sg_reconnectWindow (snd (Cleanup now m)) = sg_reconnectWindow m"
    "GetSession s (snd (Cleanup now m)) =
      (case GetSession s m of None \<Rightarrow> None | Some x \<Rightarrow> if overdue now m x then None else Some x)"
    "sessions_of (snd (Cleanup now m)) t = filter (\<lambda>x. \<not> overdue now m x) (sessions_of m t)"
    "registered (snd (Cleanup now m)) x \<longleftrightarrow> registered m x \<and> \<not> overdue now m x"
proof -
  note rs = removed_sessions [OF ok, of "expired now m"]
  have c: "snd (Cleanup now m) = foldl (\<lambda>m sid. removeSession sid m) m (expired now m)"
    by (simp add: Cleanup_def Let_def)
  show "sg_reg (snd (Cleanup now m))" "deref (snd (Cleanup now m)) = deref m"
    "sg_reconnectWindow (snd (Cleanup now m)) = sg_reconnectWindow m"
    using rs unfolding c by blast+
  show get: "GetSession s (snd (Cleanup now m)) =
      (case GetSession s m of None \<Rightarrow> None | Some x \<Rightarrow> if overdue now m x then None else Some x)" for s
    using rs unfolding c by (auto simp: expired_iff [OF ok] split: option.split)
  have "sn_ID (deref m x) \<notin> set (expired now m) \<longleftrightarrow> \<not> overdue now m x" if "registered m x" for x
    using that by (simp add: expired_iff [OF ok] registered_def)
  then show "sessions_of (snd (Cleanup now m)) t = filter (\<lambda>x. \<not> overdue now m x) (sessions_of m t)"
    using rs unfolding c by (auto simp: sg_regD(4) [OF ok] intro: filter_cong)
  show "registered (snd (Cleanup now m)) x \<longleftrightarrow> registered m x \<and> \<not> overdue now m x"
  proof -
    have d: "deref (snd (Cleanup now m)) = deref m" using rs unfolding c by blast
    show ?thesis unfolding registered_def get d by (auto split: option.split)
  qed
qed

section \<open>Runs\<close>

text \<open>
  What the server does with the manager and its sessions. The ids of new sessions are fresh; every
  method takes the session as it is at the time.
\<close>

inductive sg_step :: "SessionManager \<Rightarrow> SessionManager \<Rightarrow> bool" where
  create: "GetSession sid m = None \<Longrightarrow> sg_step m (snd (CreateSession sid now tokenID conn m))"
| restore: "sg_step m (snd (TryRestore now tokenID conn m))"
| lose: "sg_step m (on_session x (sn_MarkLost now) m)"
| bind: "sn_BindNamespace ns (deref m x) = Inr s \<Longrightarrow> sg_step m (on_session x (\<lambda>_. s) m)"
| subscribe: "sg_step m (on_session x (sn_Subscribe key) m)"
| unsubscribe: "sg_step m (on_session x (sn_Unsubscribe key) m)"
| unsubscribe_all: "sg_step m (on_session x (\<lambda>s. snd (sn_UnsubscribeAll s)) m)"
| send: "sn_Send data (deref m x) = Some (r, s) \<Longrightarrow> sg_step m (on_session x (\<lambda>_. s) m)"
| close: "sn_Close x m = Some m' \<Longrightarrow> sg_step m m'"
| cleanup: "sg_step m (snd (Cleanup now m))"
| callback: "sg_step m (SetOnSessionClosed m)"
| index: "sg_step m (SubscribeSession sid ns key m)"
| unindex: "sg_step m (UnsubscribeSession sid ns key m)"
| unindex_all: "sg_step m (UnsubscribeAllForSession sid ns m)"

inductive sg_reach :: "SessionManager \<Rightarrow> bool" where
  start: "sg_reach (NewSessionManager cfg)"
| step: "sg_reach m \<Longrightarrow> sg_step m m' \<Longrightarrow> sg_reach m'"

lemma sg_ok_fields:
  "sg_ok (m\<lparr>sg_subscriptionIndex := i\<rparr>) = sg_ok m" "sg_ok (m\<lparr>sg_onClosed := b\<rparr>) = sg_ok m"
  by (simp_all add: sg_ok_def sg_reg_def registered_def GetSession_def deref_def sessions_of_def)

lemma sg_ok_step: "sg_step m m' \<Longrightarrow> sg_ok m \<Longrightarrow> sg_ok m'"
proof (induction rule: sg_step.induct)
  case (create sid m now tokenID conn)
  then show ?case by (metis prod.collapse sg_ok_create)
next
  case (restore m now tokenID conn)
  then show ?case
    by (auto simp: TryRestore_def sn_Restore_def split: option.split intro!: sg_ok_on_session)
next
  case (bind ns m x s)
  then show ?case by (auto simp: sn_BindNamespace_def split: if_splits intro!: sg_ok_on_session)
next
  case (send data m x r s)
  then show ?case by (auto simp: sn_Send_def split: if_splits intro!: sg_ok_on_session)
next
  case (close x m m')
  then show ?case using sg_ok_close by blast
next
  case (cleanup m now)
  then have "sg_reg m" by (simp add: sg_ok_def)
  then show ?case using cleanup by (simp add: sg_ok_def Cleanup_eqs)
qed (auto simp: sn_MarkLost_def sn_Subscribe_def sn_Unsubscribe_def sn_UnsubscribeAll_def SetOnSessionClosed_def
    SubscribeSession_def UnsubscribeSession_def UnsubscribeAllForSession_def Let_def
    sg_ok_fields intro!: sg_ok_on_session)

lemma sg_ok_reach: "sg_reach m \<Longrightarrow> sg_ok m"
  by (induction rule: sg_reach.induct) (auto intro: sg_ok_new sg_ok_step)

lemma sg_reg_reach: "sg_reach m \<Longrightarrow> sg_reg m"
  using sg_ok_reach by (simp add: sg_ok_def)

section \<open>Properties\<close>

lemma find_filter: "(\<And>x. P x \<Longrightarrow> Q x) \<Longrightarrow> List.find P (filter Q xs) = List.find P xs"
  by (induction xs) auto

lemma TryRestore_fst: "fst (TryRestore now tok conn m) = List.find (restorable now m) (sessions_of m tok)"
  by (simp add: TryRestore_def split: option.split)

lemma restore_spec:
  assumes "sg_reg m"
  shows "case TryRestore now tok conn m of
      (None, m') \<Rightarrow> m' = m \<and> \<not> (\<exists>x. registered m x \<and> sn_TokenID (deref m x) = tok \<and> restorable now m x)
    | (Some x, m') \<Rightarrow>
        registered m x \<and> sn_TokenID (deref m x) = tok \<and> restorable now m x \<and>
        deref m' x = (deref m x)\<lparr>sn_Conn := conn, sn_LostAt := None, sn_sendCh := [], sn_closed := False\<rparr> \<and>
        (\<forall>y. y = x \<or> deref m' y = deref m y) \<and> (\<forall>y. registered m' y = registered m y)"
  using sg_regD(4) [OF assms, of _ tok]
  by (auto simp: TryRestore_def sn_Restore_def registered_on_session find_None_iff find_Some_iff
      split: option.split) (metis nth_mem)+

text \<open>C30: 
  C1: A reconnecting client gets back only its own session. In every reachable state
  \<open>TryRestore\<close> returns a session only when it is registered, was made for the same token and
  has been lost for less than the window; the session keeps its id, its namespace and its
  subscriptions and gets the new connection and an empty queue, and no other session changes.
  It returns nothing exactly when the token has no such session.
\<close>

theorem restore_never_steals:
  assumes "sg_reach m"
  shows "case TryRestore now tok conn m of
      (None, m') \<Rightarrow> m' = m \<and> \<not> (\<exists>x. registered m x \<and> sn_TokenID (deref m x) = tok \<and>
          sn_IsLost (deref m x) \<and> sn_LostDuration now (deref m x) < ReconnectWindow m)
    | (Some x, m') \<Rightarrow>
        registered m x \<and> sn_TokenID (deref m x) = tok \<and>
        sn_IsLost (deref m x) \<and> sn_LostDuration now (deref m x) < ReconnectWindow m \<and>
        deref m' x = (deref m x)\<lparr>sn_Conn := conn, sn_LostAt := None, sn_sendCh := [], sn_closed := False\<rparr> \<and>
        (\<forall>y. y = x \<or> deref m' y = deref m y) \<and> (\<forall>y. registered m' y = registered m y)"
  using restore_spec [OF sg_reg_reach [OF assms], where now = now and tok = tok and conn = conn] unfolding restorable_def ReconnectWindow_def conj_assoc .

text \<open>Two clients of one token; the second is lost at 50 and reconnects at 55.\<close>

definition ex_sessions :: SessionManager where
  "ex_sessions =
     (let m0 = NewSessionManager \<lparr>sc_ReconnectWindow = 10, sc_AuthTimeout = 5, sc_Tokens = []\<rparr>;
          m1 = snd (CreateSession ''a'' 1 ''t'' 7 m0);
          m2 = snd (CreateSession ''b'' 2 ''t'' 8 m1)
      in on_session 1 (sn_MarkLost 50) m2)"

lemma ex_sessions_reach: "sg_reach ex_sessions"
proof -
  let ?m0 = "NewSessionManager \<lparr>sc_ReconnectWindow = 10, sc_AuthTimeout = 5, sc_Tokens = []\<rparr>"
  have 0: "sg_reach ?m0" by (rule sg_reach.start)
  have 1: "sg_reach (snd (CreateSession ''a'' 1 ''t'' 7 ?m0))"
    by (rule sg_reach.step [OF 0], rule sg_step.create) code_simp
  have 2: "sg_reach (snd (CreateSession ''b'' 2 ''t'' 8 (snd (CreateSession ''a'' 1 ''t'' 7 ?m0))))"
    by (rule sg_reach.step [OF 1], rule sg_step.create) code_simp
  show ?thesis unfolding ex_sessions_def Let_def by (rule sg_reach.step [OF 2], rule sg_step.lose)
qed

lemma ex_sessions_restore: "fst (TryRestore 55 ''t'' 9 ex_sessions) = Some 1"
  by code_simp

lemma restore_never_steals_witness:
  "\<exists>m'. TryRestore 55 ''t'' 9 ex_sessions = (Some 1, m') \<and> registered ex_sessions 1 \<and>
     sn_TokenID (deref ex_sessions 1) = ''t'' \<and> deref m' 0 = deref ex_sessions 0"
proof -
  obtain m' where t: "TryRestore 55 ''t'' 9 ex_sessions = (Some 1, m')"
    using ex_sessions_restore by (cases "TryRestore 55 ''t'' 9 ex_sessions") simp
  show ?thesis using restore_never_steals [OF ex_sessions_reach, where now = 55 and tok = "''t''" and conn = 9] unfolding t by auto
qed

text \<open>C31: 
  C2: \<open>Cleanup\<close> takes out exactly the sessions lost for longer than the window and never one a
  client could still get back: in every reachable state the ids it drops are those of the overdue
  sessions and every other id is answered as before, and any \<open>TryRestore\<close> after it, at the same
  time or later, returns what it would have returned without it.
\<close>

theorem cleanup_exact:
  assumes "sg_reach m" and "now \<le> now'"
  shows "GetSession sid (snd (Cleanup now m)) =
      (case GetSession sid m of None \<Rightarrow> None | Some x \<Rightarrow> if overdue now m x then None else Some x) \<and>
    fst (Cleanup now m) = length (filter (\<lambda>x. overdue now m x) (GetSessions m)) \<and>
    fst (TryRestore now' tok conn (snd (Cleanup now m))) = fst (TryRestore now' tok conn m)"
proof (intro conjI)
  note c = Cleanup_eqs [OF sg_reg_reach [OF assms(1)]]
  show "GetSession sid (snd (Cleanup now m)) =
      (case GetSession sid m of None \<Rightarrow> None | Some x \<Rightarrow> if overdue now m x then None else Some x)"
    by (rule c(4))
  show "fst (Cleanup now m) = length (filter (\<lambda>x. overdue now m x) (GetSessions m))"
    by (simp add: Cleanup_def expired_def GetSessions_def overdue_def filter_map o_def case_prod_unfold)
  have "restorable now' (snd (Cleanup now m)) = restorable now' m"
    by (simp add: restorable_def c(2,3) fun_eq_iff)
  then show "fst (TryRestore now' tok conn (snd (Cleanup now m))) = fst (TryRestore now' tok conn m)"
    using overdue_not_restorable [OF _ assms(2)]
    by (simp add: TryRestore_fst c(5)) (rule find_filter, blast)
qed

lemma cleanup_exact_witness:
  "fst (TryRestore 55 ''t'' 9 (snd (Cleanup 52 ex_sessions))) = Some 1"
  using cleanup_exact [OF ex_sessions_reach, where now = 52 and now' = 55 and tok = "''t''" and conn = 9] ex_sessions_restore by simp

text \<open>A message for a registered session never meets a closed channel.\<close>

lemma registered_send: "sg_reach m \<Longrightarrow> GetSession sid m = Some x \<Longrightarrow> sn_Send data (deref m x) \<noteq> None"
  using sg_ok_reach [of m] registered_get [of m sid x] by (auto simp: sg_ok_def sn_Send_def)

text \<open>\<open>removeSession\<close> leaves the subscription index alone: the id of a closed session stays filed.\<close>

lemma closed_session_stays_subscribed:
  "sn_Close x m = Some m' \<Longrightarrow> sg_subscriptionIndex m' = sg_subscriptionIndex m"
  by (auto simp: sn_Close_def removeSession_def Let_def split: if_splits option.splits)

end
