(* ===== verification/StoreSecrets.thy ===== *)
theory StoreSecrets
  imports StoreData
begin

text \<open>
  The metadata of secrets, internal/store/secret.go: reading, listing and deleting, with the count
  of the configurations that mention a secret.

  The count runs \<open>LIKE\<close> over the text of the JSON columns, so the text that \<open>json.Marshal\<close> gives
  for the configuration types is modelled here: the members in the order of the struct, left out
  when they are nil or empty, strings with the escapes of encoding/json. Bytes from 128 on are
  taken to be valid UTF-8 text, which is copied.
\<close>

section \<open>The text of a JSON column\<close>

definition json_quote :: char where
  "json_quote = CHR 0x22"

definition hex_digit :: "nat \<Rightarrow> char" where
  "hex_digit n = (if n < 10 then char_of (48 + n) else char_of (87 + n))"

definition json_char :: "char \<Rightarrow> string" where
  "json_char c =
     (if c = json_quote then [CHR 0x5C, json_quote]
      else if c = CHR 0x5C then [CHR 0x5C, CHR 0x5C]
      else if c = CHR 0x08 then [CHR 0x5C, CHR ''b'']
      else if c = CHR 0x0C then [CHR 0x5C, CHR ''f'']
      else if c = CHR 0x0A then [CHR 0x5C, CHR ''n'']
      else if c = CHR 0x0D then [CHR 0x5C, CHR ''r'']
      else if c = CHR 0x09 then [CHR 0x5C, CHR ''t'']
      else if of_char c < (32::nat) \<or> c \<in> set ''<>&''
      then CHR 0x5C # ''u00'' @ [hex_digit (of_char c div 16), hex_digit (of_char c mod 16)]
      else [c])"

definition json_string :: "string \<Rightarrow> string" where
  "json_string s = json_quote # concat (map json_char s) @ [json_quote]"

text \<open>A member of an object, absent when the value is.\<close>

definition member :: "string \<Rightarrow> string option \<Rightarrow> string list" where
  "member key v = (case v of None \<Rightarrow> [] | Some t \<Rightarrow> [json_string key @ '':'' @ t])"

definition json_object :: "string list list \<Rightarrow> string" where
  "json_object ms = ''{'' @ join_with (CHR '','') (concat ms) @ ''}''"

definition str_member :: "string \<Rightarrow> string \<Rightarrow> string list" where
  "str_member key v = member key (if v = [] then None else Some (json_string v))"

definition num_member :: "string \<Rightarrow> 32 word option \<Rightarrow> string list" where
  "num_member key v = member key (map_option (\<lambda>w. show_nat (unat w)) v)"

definition json_SNMPv3Defaults :: "SNMPv3Defaults \<Rightarrow> string" where
  "json_SNMPv3Defaults v = json_object
     [str_member ''security_name'' (v3_SecurityName v), str_member ''security_level'' (v3_SecurityLevel v),
      str_member ''auth_protocol'' (v3_AuthProtocol v), str_member ''auth_password'' (v3_AuthPassword v),
      str_member ''auth_secret_ref'' (v3_AuthSecretRef v), str_member ''priv_protocol'' (v3_PrivProtocol v),
      str_member ''priv_password'' (v3_PrivPassword v), str_member ''priv_secret_ref'' (v3_PrivSecretRef v)]"

definition json_PollerDefaults :: "PollerDefaults \<Rightarrow> string" where
  "json_PollerDefaults d = json_object
     [member ''snmp_community'' (map_option json_string (d_SNMPCommunity d)),
      member ''snmpv3'' (map_option json_SNMPv3Defaults (d_SNMPv3 d)),
      num_member ''interval_ms'' (d_IntervalMs d), num_member ''timeout_ms'' (d_TimeoutMs d),
      num_member ''retries'' (d_Retries d), num_member ''buffer_size'' (d_BufferSize d)]"

definition json_defaults :: "PollerDefaults option option \<Rightarrow> string" where
  "json_defaults c = (case c of None \<Rightarrow> ''null''
     | Some d \<Rightarrow> json_object [member ''defaults'' (map_option json_PollerDefaults d)])"

definition ns_config_text :: "Namespace \<Rightarrow> string" where
  "ns_config_text n = json_defaults (map_option nc_Defaults (ns_Config n))"

definition t_config_text :: "Target \<Rightarrow> string" where
  "t_config_text t = json_defaults (map_option tc_Defaults (t_Config t))"

section \<open>Metadata\<close>

record Secret =
  sx_Namespace :: string
  sx_Name :: string
  sx_SecretType :: string
  sx_CreatedAt :: int
  sx_UpdatedAt :: int
  sx_UsedByCount :: nat

text \<open>\<open>QueryRow(...).Scan(&count)\<close> with the error dropped: the count is then 0.\<close>

definition count_or_zero :: "(DB \<Rightarrow> nat) \<Rightarrow> nat sql" where
  "count_or_zero f s = (case query f s of (Inl _, s') \<Rightarrow> (Inr 0, s') | (Inr n, s') \<Rightarrow> (Inr n, s'))"

definition countSecretUsage :: "string \<Rightarrow> string \<Rightarrow> nat sql" where
  "countSecretUsage namespace secretName =
     (let secretRef = ''secret:'' @ secretName; pat = ''%'' @ secretRef @ ''%'' in
      bnd (count_or_zero (\<lambda>d. sql_count (\<lambda>n. ns_Name n = namespace \<and>
             (sql_like (ns_config_text n) pat \<or> sql_like (ns_config_text n) pat)) (db_namespaces d))) (\<lambda>nsCount.
      bnd (count_or_zero (\<lambda>d. sql_count (\<lambda>t. t_Namespace t = namespace \<and>
             (sql_like (t_config_text t) pat \<or> sql_like (t_config_text t) pat)) (db_targets d))) (\<lambda>targetCount.
      bnd (count_or_zero (\<lambda>d. sql_count (\<lambda>p. p_Namespace p = namespace \<and>
             (sql_like (p_ProtocolConfig p) pat \<or> sql_like (p_ProtocolConfig p) pat)) (db_pollers d))) (\<lambda>pollerCount.
      ret (nsCount + targetCount + pollerCount)))))"

definition secret_meta :: "SecretRow \<Rightarrow> Secret" where
  "secret_meta r = \<lparr>sx_Namespace = se_Namespace r, sx_Name = se_Name r, sx_SecretType = se_SecretType r,
     sx_CreatedAt = se_CreatedAt r, sx_UpdatedAt = se_UpdatedAt r, sx_UsedByCount = 0\<rparr>"

definition with_usage :: "Secret \<Rightarrow> Secret sql" where
  "with_usage x s =
     (case countSecretUsage (sx_Namespace x) (sx_Name x) s of
        (Inl _, s') \<Rightarrow> (Inr x, s') | (Inr n, s') \<Rightarrow> (Inr (x\<lparr>sx_UsedByCount := n\<rparr>), s'))"

definition GetSecret :: "string \<Rightarrow> string \<Rightarrow> Secret option sql" where
  "GetSecret namespace name =
     bnd (wrap ''query secret'' (query (\<lambda>d.
            sql_first (\<lambda>r. secret_key r = (namespace, name)) (db_secrets d))))
         (\<lambda>row. case row of
            None \<Rightarrow> ret None
          | Some r \<Rightarrow> bnd (with_usage (secret_meta r)) (\<lambda>x. ret (Some x)))"

fun list_usage :: "SecretRow list \<Rightarrow> Secret list sql" where
  "list_usage [] = ret []"
| "list_usage (r # rs) = bnd (with_usage (secret_meta r)) (\<lambda>x. bnd (list_usage rs) (\<lambda>xs. ret (x # xs)))"

definition ListSecrets :: "string \<Rightarrow> Secret list sql" where
  "ListSecrets namespace =
     bnd (wrap ''query secrets'' (query (\<lambda>d.
            sort_key se_Name (filter (\<lambda>r. se_Namespace r = namespace) (db_secrets d)))))
         list_usage"

definition DeleteSecret :: "string \<Rightarrow> string \<Rightarrow> bool \<Rightarrow> nat sql" where
  "DeleteSecret namespace name force =
     bnd (countSecretUsage namespace name) (\<lambda>usageCount.
       if usageCount > 0 \<and> \<not> force
       then fail (Errorf (''secret is used by '' @ show_nat usageCount @ '' pollers (use force to delete)''))
       else bnd (stmt (\<lambda>d. let P = (\<lambda>r. secret_key r = (namespace, name)) in
                   Inr (sql_count P (db_secrets d), d\<lparr>db_secrets := sql_delete P (db_secrets d)\<rparr>)))
              (\<lambda>rows. if rows = 0 then fail (Errorf ''secret not found'') else ret usageCount))"

lemma count_or_zero_works: "\<exists>n s'. count_or_zero f s = (Inr n, s') \<and> st_db s' = st_db s"
  by (auto simp: count_or_zero_def query_def stmt_def split: option.split)

text \<open>
  The count never fails and never changes the database, so \<open>DeleteSecret\<close> without \<open>force\<close> on
  a database whose statements fail does not see the uses.
\<close>

lemma countSecretUsage_works: "\<exists>n s'. countSecretUsage namespace name s = (Inr n, s') \<and> st_db s' = st_db s"
proof -
  have "\<exists>n s'. bnd (count_or_zero f) g s = (Inr n, s') \<and> st_db s' = st_db s"
    if "\<And>n s. \<exists>m s'. g n s = (Inr m, s') \<and> st_db s' = st_db s" for f s and g :: "nat \<Rightarrow> nat sql"
  proof -
    obtain n s1 where "count_or_zero f s = (Inr n, s1)" "st_db s1 = st_db s" using count_or_zero_works by blast
    then show ?thesis using that [of n s1] by (simp add: bnd_def)
  qed
  note step = this
  show ?thesis unfolding countSecretUsage_def Let_def by (intro step) (simp add: ret_def)
qed

end
