(* ===== verification/HandlerBase.thy ===== *)
theory HandlerBase
  imports Manager Session
begin

text \<open>
  The request handler of internal/handler/handler.go: its errors, the context of a request and the two
  guards every handler starts with.

  The handler owns the manager and the session manager. A request's context points to its session,
  and the manager in it is the handler's. An operation of a handler takes and gives the state and
  returns a \<open>HandlerError\<close> or a response. \<open>Errorf(code, err.Error())\<close> uses a message as a format
  string without arguments; \<open>sprintf0\<close> is \<open>fmt.Sprintf\<close> on it, with verbs of one byte.
\<close>

section \<open>\<open>Sprintf\<close> without arguments\<close>

definition digits_value :: "string \<Rightarrow> nat" where
  "digits_value ds = foldl (\<lambda>n c. 10 * n + (of_char c - 48)) 0 ds"

definition is_digit :: "char \<Rightarrow> bool" where
  "is_digit c \<longleftrightarrow> of_char c \<ge> (48::nat) \<and> of_char c \<le> (57::nat)"

text \<open>\<open>parsenum\<close>: whether there is a number, and what follows; past a million it gives up at the end.\<close>

definition parsenum :: "string \<Rightarrow> bool \<times> string" where
  "parsenum s =
     (let ds = takeWhile is_digit s in
      if list_ex (\<lambda>k. digits_value (take k ds) > 1000000) [0..<length ds] then (False, [])
      else (ds \<noteq> [], drop (length ds) s))"

text \<open>\<open>argNumber\<close> without arguments: whether \<open>[n]\<close> was read, whether it is out of range, and the rest.\<close>

definition argNumber :: "string \<Rightarrow> bool \<times> bool \<times> string" where
  "argNumber s =
     (case s of
        [] \<Rightarrow> (False, False, s)
      | c # r \<Rightarrow>
          if c \<noteq> CHR ''['' then (False, False, s)
          else if length s < 3 \<or> CHR '']'' \<notin> set r then (False, True, r)
          else (let n = takeWhile (\<lambda>x. x \<noteq> CHR '']'') r
                in (parsenum n = (True, []), True, drop (length n + 1) r)))"

definition star_or_num :: "string \<Rightarrow> bool \<Rightarrow> string \<Rightarrow> string \<times> bool \<times> bool \<times> string" where
  "star_or_num complaint afterIndex s =
     (case s of
        c # r \<Rightarrow> if c = CHR ''*'' then (complaint, False, False, r)
                 else (case parsenum s of (present, t) \<Rightarrow> ([], afterIndex, afterIndex \<and> present, t))
      | [] \<Rightarrow> ([], afterIndex, False, []))"

text \<open>One verb, after its \<open>%\<close>: what is written, and the rest of the format.\<close>

definition one_verb :: "string \<Rightarrow> string \<times> string" where
  "one_verb s =
     (let s0 = dropWhile (\<lambda>c. c \<in> set ''#0+- '') s;
          (after1, bad1, s1) = argNumber s0;
          (out2, after2, bad2, s2) = star_or_num ''%!(BADWIDTH)'' after1 s1;
          (out3, after3, bad3, s3) =
            (if s2 \<noteq> [] \<and> hd s2 = CHR ''.''
             then (let (a, b, t) = argNumber (tl s2);
                       (out, a', _, t') = star_or_num ''%!(BADPREC)'' a t
                   in (out, a', after2 \<or> b, t'))
             else ([], after2, False, s2));
          (_, bad4, s4) = (if after3 then (True, False, s3) else argNumber s3);
          out = out2 @ out3
      in case s4 of
           [] \<Rightarrow> (out @ ''%!(NOVERB)'', [])
         | v # r \<Rightarrow>
             (out @ (if v = CHR ''%'' then ''%''
                     else if bad1 \<or> bad2 \<or> bad3 \<or> bad4 then ''%!'' @ [v] @ ''(BADINDEX)''
                     else ''%!'' @ [v] @ ''(MISSING)''), r))"

lemma argNumber_Nil [simp]: "argNumber [] = (False, False, [])"
  by (simp add: argNumber_def)

lemma argNumber_length: "argNumber s = (a, b, t) \<Longrightarrow> length t \<le> length s"
  by (auto simp: argNumber_def Let_def split: list.splits if_splits)

lemma parsenum_length: "parsenum s = (p, t) \<Longrightarrow> length t \<le> length s"
  by (auto simp: parsenum_def Let_def split: if_splits)

lemma star_or_num_length: "star_or_num w a s = (out, a', b, t) \<Longrightarrow> length t \<le> length s"
  by (auto simp: star_or_num_def split: list.splits if_splits prod.splits dest: parsenum_length)

lemma one_verb_length: "length (snd (one_verb s)) \<le> length s"
proof -
  define s0 where "s0 = dropWhile (\<lambda>c. c \<in> set ''#0+- '') s"
  obtain a1 b1 s1 where 1: "argNumber s0 = (a1, b1, s1)" by (metis prod_cases3)
  obtain o2 a2 b2 s2 where 2: "star_or_num ''%!(BADWIDTH)'' a1 s1 = (o2, a2, b2, s2)" by (metis prod_cases4)
  obtain a b t where 3: "argNumber (tl s2) = (a, b, t)" by (metis prod_cases3)
  obtain o3 a3 b3 s3 where 4: "star_or_num ''%!(BADPREC)'' a t = (o3, a3, b3, s3)" by (metis prod_cases4)
  obtain a5 b5 s5 where 5: "argNumber s3 = (a5, b5, s5)" by (metis prod_cases3)
  obtain a6 b6 s6 where 6: "argNumber s2 = (a6, b6, s6)" by (metis prod_cases3)
  have l: "length s1 \<le> length s" "length s2 \<le> length s1" "length t \<le> length s2" "length s3 \<le> length t"
    "length s5 \<le> length s3" "length s6 \<le> length s2"
    using argNumber_length [OF 1] star_or_num_length [OF 2] argNumber_length [OF 3] star_or_num_length [OF 4]
      argNumber_length [OF 5] argNumber_length [OF 6] length_dropWhile_le [of "\<lambda>c. c \<in> set ''#0+- ''" s]
    by (simp_all add: s0_def)
  show ?thesis
    unfolding one_verb_def s0_def [symmetric]
    using l by (auto simp: Let_def 1 2 3 4 5 6 split: list.splits)
qed

function sprintf0 :: "string \<Rightarrow> string" where
  "sprintf0 [] = []"
| "sprintf0 (c # s) =
     (if c \<noteq> CHR ''%'' then c # sprintf0 s
      else fst (one_verb s) @ sprintf0 (snd (one_verb s)))"
  by pat_completeness auto
termination
  by (relation "measure length") (auto simp: le_imp_less_Suc one_verb_length)

lemma sprintf0_plain: "CHR ''%'' \<notin> set s \<Longrightarrow> sprintf0 s = s"
  by (induction s) auto

section \<open>Errors\<close>

abbreviation ErrUnknown :: int where "ErrUnknown \<equiv> 1"
abbreviation ErrAuthFailed :: int where "ErrAuthFailed \<equiv> 2"
abbreviation ErrNotAuthenticated :: int where "ErrNotAuthenticated \<equiv> 3"
abbreviation ErrNotBound :: int where "ErrNotBound \<equiv> 4"
abbreviation ErrInvalidRequest :: int where "ErrInvalidRequest \<equiv> 5"
abbreviation ErrNotFound :: int where "ErrNotFound \<equiv> 6"
abbreviation ErrAlreadyExists :: int where "ErrAlreadyExists \<equiv> 7"
abbreviation ErrNotAuthorized :: int where "ErrNotAuthorized \<equiv> 8"
abbreviation ErrInternal :: int where "ErrInternal \<equiv> 9"
abbreviation ErrConcurrentMod :: int where "ErrConcurrentMod \<equiv> 10"
abbreviation ErrInUse :: int where "ErrInUse \<equiv> 11"

record HandlerError =
  he_Code :: int
  he_Message :: string

definition NewError :: "int \<Rightarrow> string \<Rightarrow> HandlerError" where
  "NewError code msg = \<lparr>he_Code = code, he_Message = msg\<rparr>"

text \<open>\<open>Errorf(code, err.Error())\<close> and \<open>Errorf(code, "what: %v", err)\<close>.\<close>

definition as_format :: "int \<Rightarrow> gerror \<Rightarrow> HandlerError" where
  "as_format code err = NewError code (sprintf0 (error_msg err))"

definition as_value :: "int \<Rightarrow> string \<Rightarrow> gerror \<Rightarrow> HandlerError" where
  "as_value code what err = NewError code (what @ '': '' @ error_msg err)"

definition ErrSessionNotBound :: HandlerError where
  "ErrSessionNotBound = NewError ErrNotBound ''session not bound to namespace''"

section \<open>The handler and the context of a request\<close>

record Handler =
  h_mgr :: Manager
  h_sessionManager :: SessionManager

definition NewHandler :: "Manager \<Rightarrow> SessionManager \<Rightarrow> Handler" where
  "NewHandler mgr sm = \<lparr>h_mgr = mgr, h_sessionManager = sm\<rparr>"

record RequestContext =
  cx_Session :: sptr
  cx_RequestID :: "64 word"

definition NewContext :: "sptr \<Rightarrow> 64 word \<Rightarrow> RequestContext" where
  "NewContext session requestID = \<lparr>cx_Session = session, cx_RequestID = requestID\<rparr>"

definition ctx_session :: "RequestContext \<Rightarrow> Handler \<Rightarrow> Session" where
  "ctx_session ctx h = deref (h_sessionManager h) (cx_Session ctx)"

definition ctx_Namespace :: "RequestContext \<Rightarrow> Handler \<Rightarrow> string go" where
  "ctx_Namespace ctx h =
     (let ns = sn_GetNamespace (ctx_session ctx h)
      in if ns = [] then Inl (Errorf ''session not bound to namespace'') else Inr ns)"

text \<open>\<open>None\<close> is the panic.\<close>

definition MustNamespace :: "RequestContext \<Rightarrow> Handler \<Rightarrow> string option" where
  "MustNamespace ctx h = (case ctx_Namespace ctx h of Inl _ \<Rightarrow> None | Inr ns \<Rightarrow> Some ns)"

definition RequireNamespace :: "RequestContext \<Rightarrow> Handler \<Rightarrow> HandlerError option" where
  "RequireNamespace ctx h = (if \<not> sn_IsBound (ctx_session ctx h) then Some ErrSessionNotBound else None)"

definition RequireNamespaceAccess :: "RequestContext \<Rightarrow> string \<Rightarrow> Handler \<Rightarrow> HandlerError option" where
  "RequireNamespaceAccess ctx namespace h =
     (if \<not> CanAccessNamespace (sn_TokenID (ctx_session ctx h)) namespace (h_sessionManager h)
      then Some (NewError ErrNotAuthorized (''not authorized to access namespace '' @ namespace))
      else None)"

type_synonym 'a hnd = "Handler \<Rightarrow> (HandlerError + 'a) \<times> Handler"

text \<open>The start of most handlers: \<open>RequireNamespace\<close>, then \<open>MustNamespace\<close>, which then does not panic.\<close>

definition bound :: "RequestContext \<Rightarrow> (string \<Rightarrow> 'a hnd) \<Rightarrow> 'a hnd" where
  "bound ctx f h =
     (case RequireNamespace ctx h of
        Some err \<Rightarrow> (Inl err, h)
      | None \<Rightarrow> f (sn_GetNamespace (ctx_session ctx h)) h)"

lemma must_namespace_after_require:
  "RequireNamespace ctx h = None \<Longrightarrow> MustNamespace ctx h = Some (sn_GetNamespace (ctx_session ctx h))"
  by (auto simp: RequireNamespace_def MustNamespace_def ctx_Namespace_def sn_IsBound_def sn_GetNamespace_def
      split: if_splits)

section \<open>Calls into the managers\<close>

definition on_mgr :: "(Manager \<Rightarrow> 'a \<times> Manager) \<Rightarrow> Handler \<Rightarrow> 'a \<times> Handler" where
  "on_mgr f h = (case f (h_mgr h) of (r, m) \<Rightarrow> (r, h\<lparr>h_mgr := m\<rparr>))"

abbreviation on_pm :: "(PollerManager \<Rightarrow> 'a \<times> PollerManager) \<Rightarrow> Handler \<Rightarrow> 'a \<times> Handler" where
  "on_pm f \<equiv> on_mgr (on_pollers f)"

definition on_ns :: "(NamespaceManager \<Rightarrow> Store \<Rightarrow> 'a \<times> NamespaceManager \<times> Store) \<Rightarrow> Handler \<Rightarrow> 'a \<times> Handler" where
  "on_ns f = on_mgr (\<lambda>m. case f (mg_Namespaces m) (mg_store m) of
     (r, ns, s) \<Rightarrow> (r, set_store s (m\<lparr>mg_Namespaces := ns\<rparr>)))"

definition on_targets :: "(TargetManager \<Rightarrow> Store \<Rightarrow> 'a \<times> TargetManager \<times> Store) \<Rightarrow> Handler \<Rightarrow> 'a \<times> Handler" where
  "on_targets f = on_mgr (\<lambda>m. case f (mg_Targets m) (mg_store m) of
     (r, ts, s) \<Rightarrow> (r, set_store s (m\<lparr>mg_Targets := ts\<rparr>)))"

definition on_tree :: "(TreeManager \<Rightarrow> Store \<Rightarrow> 'a \<times> TreeManager \<times> Store) \<Rightarrow> Handler \<Rightarrow> 'a \<times> Handler" where
  "on_tree f = on_mgr (\<lambda>m. case f (mg_Tree m) (mg_store m) of
     (r, t, s) \<Rightarrow> (r, set_store s (m\<lparr>mg_Tree := t\<rparr>)))"

definition on_sql :: "'a sql \<Rightarrow> Handler \<Rightarrow> 'a go \<times> Handler" where
  "on_sql f = on_mgr (\<lambda>m. case f (mg_store m) of (r, s) \<Rightarrow> (r, set_store s m))"

text \<open>\<open>x, _ := ...\<close>: the value is nil when the call failed.\<close>

definition or_nil :: "'a go \<times> Handler \<Rightarrow> 'a option \<times> Handler" where
  "or_nil rh = (case rh of (Inl _, h) \<Rightarrow> (None, h) | (Inr x, h) \<Rightarrow> (Some x, h))"

text \<open>The loops that build a list of infos.\<close>

fun for_each :: "('a \<Rightarrow> Handler \<Rightarrow> 'b \<times> Handler) \<Rightarrow> 'a list \<Rightarrow> Handler \<Rightarrow> 'b list \<times> Handler" where
  "for_each f [] h = ([], h)"
| "for_each f (x # xs) h = (case f x h of (y, h1) \<Rightarrow> case for_each f xs h1 of (ys, h2) \<Rightarrow> (y # ys, h2))"

end
