(* ===== verification/EntityHandlers.thy ===== *)
theory EntityHandlers
  imports HandlerBase
begin

text \<open>
  The handlers of internal/handler/namespace.go, target.go and poller.go.

  \<open>Get\<close> of a manager returns the object its cache holds (a miss puts it there first), and the update
  handlers write the fields of the request into that object before they call \<open>Update\<close>: here the
  changed value is put back into the cache first, so \<open>Update\<close> sees it as the existing entry,
  and it stays there when \<open>Update\<close> fails. Each moment the clock is read at is an argument.
\<close>

section \<open>Namespaces\<close>

record BindNamespaceRequest =
  bq_Namespace :: string

record BindNamespaceResponse =
  ba_Namespace :: string

definition nsh_BindNamespace :: "RequestContext \<Rightarrow> BindNamespaceRequest \<Rightarrow> BindNamespaceResponse hnd" where
  "nsh_BindNamespace ctx req h =
     (case on_ns (nsm_Get (bq_Namespace req)) h of
        (Inl err, h1) \<Rightarrow> (Inl (as_value ErrInternal ''get namespace'' err), h1)
      | (Inr None, h1) \<Rightarrow> (Inl (NewError ErrNotFound (''namespace not found: '' @ bq_Namespace req)), h1)
      | (Inr (Some _), h1) \<Rightarrow>
          (case RequireNamespaceAccess ctx (bq_Namespace req) h1 of
             Some err \<Rightarrow> (Inl err, h1)
           | None \<Rightarrow>
               (case sn_BindNamespace (bq_Namespace req) (ctx_session ctx h1) of
                  Inl err \<Rightarrow> (Inl (as_format ErrInvalidRequest err), h1)
                | Inr s \<Rightarrow>
                    (Inr \<lparr>ba_Namespace = bq_Namespace req\<rparr>,
                     h1\<lparr>h_sessionManager := on_session (cx_Session ctx) (\<lambda>_. s) (h_sessionManager h1)\<rparr>))))"

record NamespaceInfo =
  ni_Name :: string
  ni_Description :: string
  ni_Stats :: "NamespaceStats option"

record ListNamespacesResponse =
  la_Namespaces :: "NamespaceInfo list"

definition namespace_info :: "Namespace \<Rightarrow> Handler \<Rightarrow> NamespaceInfo \<times> Handler" where
  "namespace_info ns h =
     (case or_nil (on_sql (nsm_GetStats (ns_Name ns)) h) of
        (stats, h1) \<Rightarrow> (\<lparr>ni_Name = ns_Name ns, ni_Description = ns_Description ns, ni_Stats = stats\<rparr>, h1))"

definition nsh_ListNamespaces :: "RequestContext \<Rightarrow> ListNamespacesResponse hnd" where
  "nsh_ListNamespaces ctx h =
     (let all = nsm_List (mg_Namespaces (h_mgr h));
          accessible = filter (\<lambda>ns. CanAccessNamespace (sn_TokenID (ctx_session ctx h)) (ns_Name ns)
                                      (h_sessionManager h)) all
      in case for_each namespace_info accessible h of
           (namespaces, h1) \<Rightarrow> (Inr \<lparr>la_Namespaces = namespaces\<rparr>, h1))"

record GetNamespaceRequest =
  gq_Name :: string

record GetNamespaceResponse =
  ga_Namespace :: Namespace
  ga_Stats :: "NamespaceStats option"

definition nsh_GetNamespace :: "RequestContext \<Rightarrow> GetNamespaceRequest \<Rightarrow> GetNamespaceResponse hnd" where
  "nsh_GetNamespace ctx req h =
     (case RequireNamespaceAccess ctx (gq_Name req) h of
        Some err \<Rightarrow> (Inl err, h)
      | None \<Rightarrow>
          (case on_ns (nsm_Get (gq_Name req)) h of
             (Inl err, h1) \<Rightarrow> (Inl (as_value ErrInternal ''get namespace'' err), h1)
           | (Inr None, h1) \<Rightarrow> (Inl (NewError ErrNotFound (''namespace not found: '' @ gq_Name req)), h1)
           | (Inr (Some ns), h1) \<Rightarrow>
               (case or_nil (on_sql (nsm_GetStats (gq_Name req)) h1) of
                  (stats, h2) \<Rightarrow> (Inr \<lparr>ga_Namespace = ns, ga_Stats = stats\<rparr>, h2))))"

record CreateNamespaceRequest =
  cq_Name :: string
  cq_Description :: string
  cq_Config :: "NamespaceConfig option"

record CreateNamespaceResponse =
  ca_Namespace :: Namespace

definition nsh_CreateNamespace ::
    "int \<Rightarrow> int \<Rightarrow> RequestContext \<Rightarrow> CreateNamespaceRequest \<Rightarrow> CreateNamespaceResponse hnd" where
  "nsh_CreateNamespace now now' ctx req h =
     (let ns = \<lparr>ns_Name = cq_Name req, ns_Description = cq_Description req, ns_Config = cq_Config req,
                ns_CreatedAt = 0, ns_UpdatedAt = 0, ns_Version = 0\<rparr>
      in case on_ns (nsm_Create now now' ns) h of
           (Inl err, h1) \<Rightarrow>
             (if error_msg err = ''namespace already exists: '' @ cq_Name req
              then (Inl (as_format ErrAlreadyExists err), h1)
              else (Inl (as_format ErrInvalidRequest err), h1))
         | (Inr ns', h1) \<Rightarrow> (Inr \<lparr>ca_Namespace = ns'\<rparr>, h1))"

record UpdateNamespaceRequest =
  uq_Name :: string
  uq_Description :: "string option"
  uq_Config :: "NamespaceConfig option"

record UpdateNamespaceResponse =
  ua_Namespace :: Namespace

definition update_namespace_fields :: "UpdateNamespaceRequest \<Rightarrow> Namespace \<Rightarrow> Namespace" where
  "update_namespace_fields req ns =
     (let ns1 = (case uq_Description req of None \<Rightarrow> ns | Some d \<Rightarrow> ns\<lparr>ns_Description := d\<rparr>)
      in case uq_Config req of None \<Rightarrow> ns1 | Some c \<Rightarrow> ns1\<lparr>ns_Config := Some c\<rparr>)"

text \<open>The error of a failed \<open>Update\<close>, in each of the three update handlers.\<close>

definition update_error :: "string \<Rightarrow> gerror \<Rightarrow> HandlerError" where
  "update_error what err =
     (if err = ErrConcurrentModification
      then NewError ErrConcurrentMod (what @ '' was modified by another client'')
      else as_value ErrInternal (''update '' @ what) err)"

definition nsh_UpdateNamespace ::
    "int \<Rightarrow> int \<Rightarrow> RequestContext \<Rightarrow> UpdateNamespaceRequest \<Rightarrow> UpdateNamespaceResponse hnd" where
  "nsh_UpdateNamespace now now' ctx req h =
     (case RequireNamespaceAccess ctx (uq_Name req) h of
        Some err \<Rightarrow> (Inl err, h)
      | None \<Rightarrow>
          (case on_ns (nsm_Get (uq_Name req)) h of
             (Inl err, h1) \<Rightarrow> (Inl (as_value ErrInternal ''get namespace'' err), h1)
           | (Inr None, h1) \<Rightarrow> (Inl (NewError ErrNotFound (''namespace not found: '' @ uq_Name req)), h1)
           | (Inr (Some ns0), h1) \<Rightarrow>
               (let ns = update_namespace_fields req ns0 in
                case on_ns (\<lambda>m s. nsm_Update now now' ns (mput (uq_Name req) ns m) s) h1 of
                  (Inl err, h2) \<Rightarrow> (Inl (update_error ''namespace'' err), h2)
                | (Inr ns', h2) \<Rightarrow> (Inr \<lparr>ua_Namespace = ns'\<rparr>, h2))))"

record DeleteNamespaceRequest =
  dq_Name :: string
  dq_Force :: bool

record DeleteNamespaceResponse =
  da_TargetsDeleted :: nat
  da_PollersDeleted :: nat

definition nsh_DeleteNamespace :: "RequestContext \<Rightarrow> DeleteNamespaceRequest \<Rightarrow> DeleteNamespaceResponse hnd" where
  "nsh_DeleteNamespace ctx req h =
     (case RequireNamespaceAccess ctx (dq_Name req) h of
        Some err \<Rightarrow> (Inl err, h)
      | None \<Rightarrow>
          (case on_ns (nsm_Delete (dq_Name req) (dq_Force req)) h of
             (Inl err, h1) \<Rightarrow>
               (if error_msg err = ''namespace not found: '' @ dq_Name req
                then (Inl (as_format ErrNotFound err), h1)
                else (Inl (as_format ErrInvalidRequest err), h1))
           | (Inr (targets, pollers), h1) \<Rightarrow>
               (Inr \<lparr>da_TargetsDeleted = targets, da_PollersDeleted = pollers\<rparr>, h1)))"

section \<open>Targets\<close>

record ListTargetsRequest =
  ltq_Labels :: "(string, string) gomap"
  ltq_Limit :: int
  ltq_Cursor :: string

record TargetInfo =
  ti_Target :: Target
  ti_Stats :: "TargetStats option"

record ListTargetsResponse =
  lta_Targets :: "TargetInfo list"
  lta_NextCursor :: string

definition target_info :: "string \<Rightarrow> Target \<Rightarrow> Handler \<Rightarrow> TargetInfo \<times> Handler" where
  "target_info namespace t h =
     (case or_nil (on_sql (tm_GetStats namespace (t_Name t)) h) of
        (stats, h1) \<Rightarrow> (\<lparr>ti_Target = t, ti_Stats = stats\<rparr>, h1))"

definition th_ListTargets :: "RequestContext \<Rightarrow> ListTargetsRequest \<Rightarrow> ListTargetsResponse hnd" where
  "th_ListTargets ctx req = bound ctx (\<lambda>namespace h.
     if ltq_Labels req \<noteq> [] \<or> ltq_Limit req > 0 \<or> ltq_Cursor req \<noteq> []
     then (let limit = (if ltq_Limit req = 0 then 100 else ltq_Limit req) in
           case on_sql (tm_ListFiltered namespace (ltq_Labels req) (nat limit) (ltq_Cursor req)) h of
             (Inl err, h1) \<Rightarrow> (Inl (as_value ErrInternal ''list targets'' err), h1)
           | (Inr (targets, nextCursor), h1) \<Rightarrow>
               (case for_each (target_info namespace) targets h1 of
                  (infos, h2) \<Rightarrow> (Inr \<lparr>lta_Targets = infos, lta_NextCursor = nextCursor\<rparr>, h2)))
     else (case for_each (target_info namespace) (tm_List namespace (mg_Targets (h_mgr h))) h of
             (infos, h1) \<Rightarrow> (Inr \<lparr>lta_Targets = infos, lta_NextCursor = []\<rparr>, h1)))"

record GetTargetRequest =
  gtq_Name :: string

record PollerSummary =
  su_Name :: string
  su_Protocol :: string
  su_AdminState :: string
  su_OperState :: string
  su_HealthState :: string

record GetTargetResponse =
  gta_Target :: Target
  gta_Stats :: "TargetStats option"
  gta_Pollers :: "PollerSummary list"

definition poller_summary :: "string \<Rightarrow> string \<Rightarrow> Poller \<Rightarrow> Handler \<Rightarrow> PollerSummary \<times> Handler" where
  "poller_summary namespace target p h =
     (case on_pm (pm_GetState namespace target (p_Name p)) h of
        (state, h1) \<Rightarrow>
          (case ps_GetState state of
             (admin, oper, health) \<Rightarrow>
               (\<lparr>su_Name = p_Name p, su_Protocol = p_Protocol p, su_AdminState = admin, su_OperState = oper,
                 su_HealthState = health\<rparr>, h1)))"

definition th_GetTarget :: "RequestContext \<Rightarrow> GetTargetRequest \<Rightarrow> GetTargetResponse hnd" where
  "th_GetTarget ctx req = bound ctx (\<lambda>namespace h.
     case on_targets (tm_Get namespace (gtq_Name req)) h of
       (Inl err, h1) \<Rightarrow> (Inl (as_value ErrInternal ''get target'' err), h1)
     | (Inr None, h1) \<Rightarrow> (Inl (NewError ErrNotFound (''target not found: '' @ gtq_Name req)), h1)
     | (Inr (Some target), h1) \<Rightarrow>
         (case or_nil (on_sql (tm_GetStats namespace (gtq_Name req)) h1) of
            (stats, h2) \<Rightarrow>
              (case for_each (poller_summary namespace (gtq_Name req))
                      (pm_List namespace (gtq_Name req) (mg_Pollers (h_mgr h2))) h2 of
                 (summaries, h3) \<Rightarrow>
                   (Inr \<lparr>gta_Target = target, gta_Stats = stats, gta_Pollers = summaries\<rparr>, h3))))"

record CreateTargetRequest =
  ctq_Name :: string
  ctq_Description :: string
  ctq_Labels :: "(string, string) gomap"
  ctq_Config :: "TargetConfig option"

record CreateTargetResponse =
  cta_Target :: Target

definition th_CreateTarget ::
    "int \<Rightarrow> int \<Rightarrow> RequestContext \<Rightarrow> CreateTargetRequest \<Rightarrow> CreateTargetResponse hnd" where
  "th_CreateTarget now now' ctx req = bound ctx (\<lambda>namespace h.
     let target = \<lparr>t_Namespace = namespace, t_Name = ctq_Name req, t_Description = ctq_Description req,
                   t_Labels = ctq_Labels req, t_Config = ctq_Config req, t_CreatedAt = 0, t_UpdatedAt = 0,
                   t_Version = 0\<rparr>
     in case on_targets (tm_Create now now' target) h of
          (Inl err, h1) \<Rightarrow> (Inl (as_format ErrInvalidRequest err), h1)
        | (Inr target', h1) \<Rightarrow> (Inr \<lparr>cta_Target = target'\<rparr>, h1))"

text \<open>A nil map of labels is \<open>None\<close>.\<close>

record UpdateTargetRequest =
  utq_Name :: string
  utq_Description :: "string option"
  utq_Labels :: "(string, string) gomap option"
  utq_Config :: "TargetConfig option"

record UpdateTargetResponse =
  uta_Target :: Target

definition update_target_fields :: "UpdateTargetRequest \<Rightarrow> Target \<Rightarrow> Target" where
  "update_target_fields req t0 =
     (let t1 = (case utq_Description req of None \<Rightarrow> t0 | Some d \<Rightarrow> t0\<lparr>t_Description := d\<rparr>);
          t2 = (case utq_Labels req of None \<Rightarrow> t1 | Some l \<Rightarrow> t1\<lparr>t_Labels := l\<rparr>)
      in case utq_Config req of None \<Rightarrow> t2 | Some c \<Rightarrow> t2\<lparr>t_Config := Some c\<rparr>)"

definition th_UpdateTarget ::
    "int \<Rightarrow> int \<Rightarrow> RequestContext \<Rightarrow> UpdateTargetRequest \<Rightarrow> UpdateTargetResponse hnd" where
  "th_UpdateTarget now now' ctx req = bound ctx (\<lambda>namespace h.
     case on_targets (tm_Get namespace (utq_Name req)) h of
       (Inl err, h1) \<Rightarrow> (Inl (as_value ErrInternal ''get target'' err), h1)
     | (Inr None, h1) \<Rightarrow> (Inl (NewError ErrNotFound (''target not found: '' @ utq_Name req)), h1)
     | (Inr (Some target0), h1) \<Rightarrow>
         (let target = update_target_fields req target0 in
          case on_targets (\<lambda>m s. tm_Update now now' target (mput (targetKey namespace (utq_Name req)) target m) s) h1 of
            (Inl err, h2) \<Rightarrow> (Inl (update_error ''target'' err), h2)
          | (Inr target', h2) \<Rightarrow> (Inr \<lparr>uta_Target = target'\<rparr>, h2)))"

record DeleteTargetRequest =
  dtq_Name :: string
  dtq_Force :: bool

record DeleteTargetResponse =
  dta_PollersDeleted :: nat
  dta_LinksDeleted :: nat

definition th_DeleteTarget :: "RequestContext \<Rightarrow> DeleteTargetRequest \<Rightarrow> DeleteTargetResponse hnd" where
  "th_DeleteTarget ctx req = bound ctx (\<lambda>namespace h.
     case on_targets (tm_Delete namespace (dtq_Name req) (dtq_Force req)) h of
       (Inl err, h1) \<Rightarrow> (Inl (as_format ErrInvalidRequest err), h1)
     | (Inr (pollers, links), h1) \<Rightarrow> (Inr \<lparr>dta_PollersDeleted = pollers, dta_LinksDeleted = links\<rparr>, h1))"

record SetLabelsRequest =
  slq_Name :: string
  slq_Labels :: "(string, string) gomap"

record SetLabelsResponse =
  sla_Target :: "Target option"

definition th_SetLabels :: "int \<Rightarrow> int \<Rightarrow> RequestContext \<Rightarrow> SetLabelsRequest \<Rightarrow> SetLabelsResponse hnd" where
  "th_SetLabels now now' ctx req = bound ctx (\<lambda>namespace h.
     case on_targets (tm_SetLabels now now' namespace (slq_Name req) (slq_Labels req)) h of
       (Inl err, h1) \<Rightarrow> (Inl (as_format ErrInvalidRequest err), h1)
     | (Inr _, h1) \<Rightarrow>
         (case or_nil (on_targets (tm_Get namespace (slq_Name req)) h1) of
            (target, h2) \<Rightarrow> (Inr \<lparr>sla_Target = Option.bind target id\<rparr>, h2)))"

section \<open>Pollers\<close>

record ListPollersRequest =
  lpq_Target :: string

record PollerInfo =
  pi_Poller :: Poller
  pi_AdminState :: string
  pi_OperState :: string
  pi_HealthState :: string
  pi_LastError :: string
  pi_PollsTotal :: int
  pi_PollsOK :: int
  pi_PollsFailed :: int

record ListPollersResponse =
  lpa_Pollers :: "PollerInfo list"

definition poller_info :: "string \<Rightarrow> string \<Rightarrow> Poller \<Rightarrow> Handler \<Rightarrow> PollerInfo \<times> Handler" where
  "poller_info namespace target p h =
     (case on_pm (pm_GetState namespace target (p_Name p)) h of
        (state, h1) \<Rightarrow>
          (case on_pm (pm_GetStats namespace target (p_Name p)) h1 of
             (stats, h2) \<Rightarrow>
               (case ps_GetState state of
                  (admin, oper, health) \<Rightarrow>
                    (\<lparr>pi_Poller = p, pi_AdminState = admin, pi_OperState = oper, pi_HealthState = health,
                      pi_LastError = ps_GetLastError state, pi_PollsTotal = sv_total (GetStats stats),
                      pi_PollsOK = sv_success (GetStats stats), pi_PollsFailed = sv_failed (GetStats stats)\<rparr>, h2))))"

definition ph_ListPollers :: "RequestContext \<Rightarrow> ListPollersRequest \<Rightarrow> ListPollersResponse hnd" where
  "ph_ListPollers ctx req = bound ctx (\<lambda>namespace h.
     case for_each (poller_info namespace (lpq_Target req))
            (pm_List namespace (lpq_Target req) (mg_Pollers (h_mgr h))) h of
       (infos, h1) \<Rightarrow> (Inr \<lparr>lpa_Pollers = infos\<rparr>, h1))"

record GetPollerRequest =
  gpq_Target :: string
  gpq_Name :: string

definition ph_GetPoller :: "int \<Rightarrow> int \<Rightarrow> RequestContext \<Rightarrow> GetPollerRequest \<Rightarrow> PollerFullInfo hnd" where
  "ph_GetPoller now now' ctx req = bound ctx (\<lambda>namespace h.
     case on_mgr (GetPollerFullInfo now now' namespace (gpq_Target req) (gpq_Name req)) h of
       (Inl err, h1) \<Rightarrow> (Inl (as_format ErrNotFound err), h1)
     | (Inr info, h1) \<Rightarrow> (Inr info, h1))"

record CreatePollerRequest =
  cpq_Target :: string
  cpq_Name :: string
  cpq_Description :: string
  cpq_Protocol :: string
  cpq_ProtocolConfig :: string
  cpq_PollingConfig :: "PollingConfig option"
  cpq_AdminState :: string

record CreatePollerResponse =
  cpa_Poller :: Poller

definition ph_CreatePoller :: "int \<Rightarrow> RequestContext \<Rightarrow> CreatePollerRequest \<Rightarrow> CreatePollerResponse hnd" where
  "ph_CreatePoller now ctx req = bound ctx (\<lambda>namespace h.
     case on_targets (tm_Get namespace (cpq_Target req)) h of
       (Inl err, h1) \<Rightarrow> (Inl (as_value ErrInternal ''get target'' err), h1)
     | (Inr None, h1) \<Rightarrow> (Inl (NewError ErrNotFound (''target not found: '' @ cpq_Target req)), h1)
     | (Inr (Some _), h1) \<Rightarrow>
         (let adminState = (if cpq_AdminState req = [] then AdminStateDisabled else cpq_AdminState req);
              poller = \<lparr>p_Namespace = namespace, p_Target = cpq_Target req, p_Name = cpq_Name req,
                        p_Description = cpq_Description req, p_Protocol = cpq_Protocol req,
                        p_ProtocolConfig = cpq_ProtocolConfig req, p_PollingConfig = cpq_PollingConfig req,
                        p_AdminState = adminState, p_CreatedAt = 0, p_UpdatedAt = 0, p_Version = 0\<rparr>
          in case on_pm (pm_Create now poller) h1 of
               (Inl err, h2) \<Rightarrow> (Inl (as_format ErrInvalidRequest err), h2)
             | (Inr poller', h2) \<Rightarrow> (Inr \<lparr>cpa_Poller = poller'\<rparr>, h2)))"

text \<open>A nil protocol configuration is \<open>None\<close>.\<close>

record UpdatePollerRequest =
  upq_Target :: string
  upq_Name :: string
  upq_Description :: "string option"
  upq_ProtocolConfig :: "string option"
  upq_PollingConfig :: "PollingConfig option"

record UpdatePollerResponse =
  upa_Poller :: Poller

definition update_poller_fields :: "UpdatePollerRequest \<Rightarrow> Poller \<Rightarrow> Poller" where
  "update_poller_fields req p0 =
     (let p1 = (case upq_Description req of None \<Rightarrow> p0 | Some d \<Rightarrow> p0\<lparr>p_Description := d\<rparr>);
          p2 = (case upq_ProtocolConfig req of None \<Rightarrow> p1 | Some c \<Rightarrow> p1\<lparr>p_ProtocolConfig := c\<rparr>)
      in case upq_PollingConfig req of None \<Rightarrow> p2 | Some c \<Rightarrow> p2\<lparr>p_PollingConfig := Some c\<rparr>)"

text \<open>The cached poller replaced, as a write through the pointer does.\<close>

definition write_cached :: "string \<Rightarrow> Poller \<Rightarrow> PollerManager \<Rightarrow> PollerManager" where
  "write_cached key p m = m\<lparr>pm_pollers := mput key p (pm_pollers m)\<rparr>"

definition ph_UpdatePoller ::
    "int \<Rightarrow> int \<Rightarrow> RequestContext \<Rightarrow> UpdatePollerRequest \<Rightarrow> UpdatePollerResponse hnd" where
  "ph_UpdatePoller now now' ctx req = bound ctx (\<lambda>namespace h.
     case on_pm (pm_Get namespace (upq_Target req) (upq_Name req)) h of
       (Inl err, h1) \<Rightarrow> (Inl (as_value ErrInternal ''get poller'' err), h1)
     | (Inr None, h1) \<Rightarrow>
         (Inl (NewError ErrNotFound (''poller not found: '' @ upq_Target req @ ''/'' @ upq_Name req)), h1)
     | (Inr (Some poller0), h1) \<Rightarrow>
         (let poller = update_poller_fields req poller0;
              key = pollerKey namespace (upq_Target req) (upq_Name req)
          in case on_pm (\<lambda>m. pm_Update now now' poller (write_cached key poller m)) h1 of
               (Inl err, h2) \<Rightarrow> (Inl (update_error ''poller'' err), h2)
             | (Inr poller', h2) \<Rightarrow> (Inr \<lparr>upa_Poller = poller'\<rparr>, h2)))"

record DeletePollerRequest =
  dpq_Target :: string
  dpq_Name :: string

record DeletePollerResponse =
  dpa_LinksDeleted :: nat

definition ph_DeletePoller :: "RequestContext \<Rightarrow> DeletePollerRequest \<Rightarrow> DeletePollerResponse hnd" where
  "ph_DeletePoller ctx req = bound ctx (\<lambda>namespace h.
     case on_pm (pm_GetState namespace (dpq_Target req) (dpq_Name req)) h of
       (state, h1) \<Rightarrow>
         if ps_IsRunning state
         then (Inl (NewError ErrInvalidRequest ''cannot delete running poller, disable it first''), h1)
         else (case on_pm (pm_Delete namespace (dpq_Target req) (dpq_Name req)) h1 of
                 (Inl err, h2) \<Rightarrow> (Inl (as_format ErrInvalidRequest err), h2)
               | (Inr links, h2) \<Rightarrow> (Inr \<lparr>dpa_LinksDeleted = links\<rparr>, h2)))"

text \<open>The requests and the responses of \<open>EnablePoller\<close> and \<open>DisablePoller\<close> have the same fields.\<close>

record EnablePollerRequest =
  epq_Target :: string
  epq_Name :: string

record EnablePollerResponse =
  epa_AdminState :: string
  epa_OperState :: string
  epa_HealthState :: string

definition states_of :: "string \<Rightarrow> EnablePollerRequest \<Rightarrow> EnablePollerResponse hnd" where
  "states_of namespace req h =
     (case on_pm (pm_GetState namespace (epq_Target req) (epq_Name req)) h of
        (state, h1) \<Rightarrow>
          (case ps_GetState state of
             (admin, oper, health) \<Rightarrow>
               (Inr \<lparr>epa_AdminState = admin, epa_OperState = oper, epa_HealthState = health\<rparr>, h1)))"

definition ph_EnablePoller :: "int \<Rightarrow> RequestContext \<Rightarrow> EnablePollerRequest \<Rightarrow> EnablePollerResponse hnd" where
  "ph_EnablePoller now ctx req = bound ctx (\<lambda>namespace h.
     case on_pm (pm_Enable now namespace (epq_Target req) (epq_Name req)) h of
       (Inl err, h1) \<Rightarrow> (Inl (as_format ErrInvalidRequest err), h1)
     | (Inr _, h1) \<Rightarrow> states_of namespace req h1)"

definition ph_DisablePoller :: "int \<Rightarrow> RequestContext \<Rightarrow> EnablePollerRequest \<Rightarrow> EnablePollerResponse hnd" where
  "ph_DisablePoller now ctx req = bound ctx (\<lambda>namespace h.
     case on_pm (pm_Disable now namespace (epq_Target req) (epq_Name req)) h of
       (Inl err, h1) \<Rightarrow> (Inl (as_format ErrInvalidRequest err), h1)
     | (Inr _, h1) \<Rightarrow> states_of namespace req h1)"

record GetHistoryRequest =
  ghq_Target :: string
  ghq_Poller :: string
  ghq_Limit :: int
  ghq_SinceMs :: int
  ghq_UntilMs :: int

record GetHistoryResponse =
  gha_Samples :: "Sample list"

definition ph_GetHistory :: "RequestContext \<Rightarrow> GetHistoryRequest \<Rightarrow> GetHistoryResponse hnd" where
  "ph_GetHistory ctx req = bound ctx (\<lambda>namespace h.
     let limit = (if ghq_Limit req = 0 then 100 else ghq_Limit req) in
     case on_sql (GetSamples namespace (ghq_Target req) (ghq_Poller req) limit (ghq_SinceMs req) (ghq_UntilMs req)) h of
       (Inl err, h1) \<Rightarrow> (Inl (as_value ErrInternal ''get samples'' err), h1)
     | (Inr samples, h1) \<Rightarrow> (Inr \<lparr>gha_Samples = samples\<rparr>, h1))"

record GetResolvedConfigRequest =
  grq_Target :: string
  grq_Poller :: string

record GetResolvedConfigResponse =
  gra_Config :: ResolvedPollerConfig

definition ph_GetResolvedConfig ::
    "int \<Rightarrow> int \<Rightarrow> RequestContext \<Rightarrow> GetResolvedConfigRequest \<Rightarrow> GetResolvedConfigResponse hnd" where
  "ph_GetResolvedConfig now now' ctx req = bound ctx (\<lambda>namespace h.
     case on_pm (pm_GetResolvedConfig now now' namespace (grq_Target req) (grq_Poller req)) h of
       (Inl err, h1) \<Rightarrow> (Inl (as_value ErrInternal ''resolve config'' err), h1)
     | (Inr config, h1) \<Rightarrow> (Inr \<lparr>gra_Config = config\<rparr>, h1))"

end
