(* ===== verification/BrowseHandlers.thy ===== *)
theory BrowseHandlers
  imports EntityHandlers
begin

text \<open>
  The handlers of internal/handler/browse.go and subscription.go: the virtual file system of targets and
  tree, the changes of the tree, and the subscriptions of a session.

  browse.go has a \<open>normalizePath\<close> of its own, which unlike the store's does not clean the path:
  \<open>browse_path\<close>. Only the session keeps a subscription; the index that \<open>BroadcastSample\<close> reads is never
  written here. \<open>None\<close> is a panic.
\<close>

section \<open>Paths\<close>

definition browse_path :: "string \<Rightarrow> string" where
  "browse_path p0 =
     (if p0 = [] then ''/''
      else let p = (if \<not> has_prefix p0 ''/'' then ''/'' @ p0 else p0)
           in if length p > 1 \<and> has_suffix p ''/'' then butlast p else p)"

definition lastName :: "string \<Rightarrow> string" where
  "lastName path = (if path = ''/'' then ''/'' else last (split_on (CHR ''/'') path))"

section \<open>Browsing\<close>

record BrowseEntry =
  be_Name :: string
  be_Path :: string
  be_Type :: string
  be_Description :: string
  be_LinkRef :: string
  be_Target :: "Target option"
  be_Stats :: "TargetStats option"
  be_Poller :: "Poller option"
  be_AdminState :: string
  be_OperState :: string
  be_HealthState :: string

record BrowseRequest =
  brq_Path :: string

record BrowseResponse =
  bra_Path :: string
  bra_Entries :: "BrowseEntry list"

definition entry :: "string \<Rightarrow> string \<Rightarrow> string \<Rightarrow> string \<Rightarrow> BrowseEntry" where
  "entry name path type descr =
     \<lparr>be_Name = name, be_Path = path, be_Type = type, be_Description = descr, be_LinkRef = [], be_Target = None,
      be_Stats = None, be_Poller = None, be_AdminState = [], be_OperState = [], be_HealthState = []\<rparr>"

definition browseRoot :: "BrowseResponse hnd" where
  "browseRoot h =
     (Inr \<lparr>bra_Path = ''/'',
           bra_Entries = [entry ''targets'' ''/targets'' ''directory'' ''All targets'',
                          entry ''tree'' ''/tree'' ''directory'' ''Hierarchical tree view'']\<rparr>, h)"

definition target_entry :: "string \<Rightarrow> Target \<Rightarrow> Handler \<Rightarrow> BrowseEntry \<times> Handler" where
  "target_entry namespace t h =
     (case or_nil (on_sql (tm_GetStats namespace (t_Name t)) h) of
        (stats, h1) \<Rightarrow>
          ((entry (t_Name t) (''/targets/'' @ t_Name t) ''target'' (t_Description t))
             \<lparr>be_Target := Some t, be_Stats := stats\<rparr>, h1))"

definition browseTargets :: "string \<Rightarrow> BrowseResponse hnd" where
  "browseTargets namespace h =
     (case for_each (target_entry namespace) (tm_List namespace (mg_Targets (h_mgr h))) h of
        (entries, h1) \<Rightarrow> (Inr \<lparr>bra_Path = ''/targets'', bra_Entries = entries\<rparr>, h1))"

definition with_states :: "string \<times> string \<times> string \<Rightarrow> BrowseEntry \<Rightarrow> BrowseEntry" where
  "with_states st e =
     (case st of (admin, oper, health) \<Rightarrow>
        e\<lparr>be_AdminState := admin, be_OperState := oper, be_HealthState := health\<rparr>)"

definition poller_entry :: "string \<Rightarrow> string \<Rightarrow> Poller \<Rightarrow> Handler \<Rightarrow> BrowseEntry \<times> Handler" where
  "poller_entry namespace targetName p h =
     (case on_pm (pm_GetState namespace targetName (p_Name p)) h of
        (state, h1) \<Rightarrow>
          (with_states (ps_GetState state)
             ((entry (p_Name p) (''/targets/'' @ targetName @ ''/'' @ p_Name p) ''poller'' (p_Description p))
                \<lparr>be_Poller := Some p\<rparr>), h1))"

definition browseTarget :: "string \<Rightarrow> string \<Rightarrow> BrowseResponse hnd" where
  "browseTarget namespace targetName h =
     (case on_targets (tm_Get namespace targetName) h of
        (Inl err, h1) \<Rightarrow> (Inl (as_value ErrInternal ''get target'' err), h1)
      | (Inr None, h1) \<Rightarrow> (Inl (NewError ErrNotFound (''target not found: '' @ targetName)), h1)
      | (Inr (Some _), h1) \<Rightarrow>
          (case for_each (poller_entry namespace targetName)
                  (pm_List namespace targetName (mg_Pollers (h_mgr h1))) h1 of
             (entries, h2) \<Rightarrow>
               (Inr \<lparr>bra_Path = ''/targets/'' @ targetName, bra_Entries = entries\<rparr>, h2)))"

definition browsePoller :: "int \<Rightarrow> int \<Rightarrow> string \<Rightarrow> string \<Rightarrow> string \<Rightarrow> BrowseResponse hnd" where
  "browsePoller now now' namespace targetName pollerName h =
     (case on_mgr (GetPollerFullInfo now now' namespace targetName pollerName) h of
        (Inl err, h1) \<Rightarrow> (Inl (as_format ErrNotFound err), h1)
      | (Inr info, h1) \<Rightarrow>
          (let path = ''/targets/'' @ targetName @ ''/'' @ pollerName;
               e = (with_states (pf_AdminState info, pf_OperState info, pf_HealthState info)
                      (entry pollerName path ''poller'' (p_Description (pf_Poller info))))
                     \<lparr>be_Poller := Some (pf_Poller info)\<rparr>
           in (Inr \<lparr>bra_Path = path, bra_Entries = [e]\<rparr>, h1)))"

definition tree_entry :: "string \<Rightarrow> TreeBrowseResult \<Rightarrow> Handler \<Rightarrow> BrowseEntry \<times> Handler" where
  "tree_entry namespace r h =
     (let e = (entry (lastName (br_Path r)) (''/tree'' @ br_Path r) [] (br_Description r))\<lparr>be_LinkRef := br_LinkRef r\<rparr>
      in if br_NodeType r = ''directory'' then (e\<lparr>be_Type := ''directory''\<rparr>, h)
         else if br_NodeType r = ''link_target'' then
           (case br_LinkedTarget r of
              None \<Rightarrow> (e\<lparr>be_Type := ''target''\<rparr>, h)
            | Some t \<Rightarrow>
                (case or_nil (on_sql (tm_GetStats namespace (t_Name t)) h) of
                   (stats, h1) \<Rightarrow> (e\<lparr>be_Type := ''target'', be_Target := Some t, be_Stats := stats\<rparr>, h1)))
         else if br_NodeType r = ''link_poller'' then
           (case br_LinkedPoller r of
              None \<Rightarrow> (e\<lparr>be_Type := ''poller''\<rparr>, h)
            | Some p \<Rightarrow>
                (case on_pm (pm_GetState namespace (p_Target p) (p_Name p)) h of
                   (state, h1) \<Rightarrow>
                     (with_states (ps_GetState state) (e\<lparr>be_Type := ''poller'', be_Poller := Some p\<rparr>), h1)))
         else (e, h))"

definition browseTree :: "string \<Rightarrow> string \<Rightarrow> BrowseResponse hnd" where
  "browseTree namespace treePath h =
     (case on_mgr (\<lambda>m. case tree_Browse namespace treePath True (mg_Targets m) (mg_Pollers m) of
                          (r, ts, ps) \<Rightarrow> (r, m\<lparr>mg_Targets := ts, mg_Pollers := ps\<rparr>)) h of
        (Inl err, h1) \<Rightarrow> (Inl (as_value ErrInternal ''browse tree'' err), h1)
      | (Inr results, h1) \<Rightarrow>
          (case for_each (tree_entry namespace) results h1 of
             (entries, h2) \<Rightarrow> (Inr \<lparr>bra_Path = ''/tree'' @ treePath, bra_Entries = entries\<rparr>, h2)))"

definition bh_Browse :: "int \<Rightarrow> int \<Rightarrow> RequestContext \<Rightarrow> BrowseRequest \<Rightarrow> BrowseResponse hnd" where
  "bh_Browse now now' ctx req = bound ctx (\<lambda>namespace h.
     let path = browse_path (brq_Path req) in
     if path = ''/'' then browseRoot h
     else if path = ''/targets'' then browseTargets namespace h
     else if has_prefix path ''/targets/'' then
       (let parts = split_on (CHR ''/'') (trim_prefix path ''/targets/'') in
        if length parts = 1 then browseTarget namespace (parts ! 0) h
        else if length parts = 2 then browsePoller now now' namespace (parts ! 0) (parts ! 1) h
        else (Inl (NewError ErrNotFound (''invalid path: '' @ path)), h))
     else if path = ''/tree'' then browseTree namespace ''/'' h
     else if has_prefix path ''/tree/'' then browseTree namespace (trim_prefix path ''/tree'') h
     else (Inl (NewError ErrNotFound (''invalid path: '' @ path)), h))"

section \<open>Changes of the tree\<close>

record CreateDirectoryRequest =
  cdq_Path :: string
  cdq_Description :: string

record CreateDirectoryResponse =
  cda_Path :: string

definition bh_CreateDirectory ::
    "int \<Rightarrow> RequestContext \<Rightarrow> CreateDirectoryRequest \<Rightarrow> CreateDirectoryResponse hnd" where
  "bh_CreateDirectory now ctx req = bound ctx (\<lambda>namespace h.
     let path = browse_path (cdq_Path req) in
     case on_tree (tree_CreateDirectory now namespace path (cdq_Description req)) h of
       (Inl err, h1) \<Rightarrow> (Inl (as_format ErrInvalidRequest err), h1)
     | (Inr _, h1) \<Rightarrow> (Inr \<lparr>cda_Path = path\<rparr>, h1))"

record CreateLinkRequest =
  clq_Path :: string
  clq_LinkName :: string
  clq_LinkType :: string
  clq_LinkRef :: string

record CreateLinkResponse =
  cla_Path :: string

definition bh_CreateLink :: "int \<Rightarrow> RequestContext \<Rightarrow> CreateLinkRequest \<Rightarrow> CreateLinkResponse hnd" where
  "bh_CreateLink now ctx req = bound ctx (\<lambda>namespace h.
     let path = browse_path (clq_Path req) in
     case on_tree (tree_CreateLink now namespace path (clq_LinkName req) (clq_LinkType req) (clq_LinkRef req)) h of
       (Inl err, h1) \<Rightarrow> (Inl (as_format ErrInvalidRequest err), h1)
     | (Inr _, h1) \<Rightarrow> (Inr \<lparr>cla_Path = path @ ''/'' @ clq_LinkName req\<rparr>, h1))"

record DeleteTreeNodeRequest =
  dnq_Path :: string
  dnq_Recursive :: bool
  dnq_Force :: bool

record DeleteTreeNodeResponse =
  dna_Deleted :: nat

definition bh_DeleteTreeNode :: "RequestContext \<Rightarrow> DeleteTreeNodeRequest \<Rightarrow> DeleteTreeNodeResponse hnd" where
  "bh_DeleteTreeNode ctx req = bound ctx (\<lambda>namespace h.
     let path = browse_path (dnq_Path req) in
     case on_tree (tree_Delete namespace path (dnq_Recursive req) (dnq_Force req)) h of
       (Inl err, h1) \<Rightarrow> (Inl (as_format ErrInvalidRequest err), h1)
     | (Inr deleted, h1) \<Rightarrow> (Inr \<lparr>dna_Deleted = deleted\<rparr>, h1))"

section \<open>Resolving a path\<close>

record ResolvePathRequest =
  rpq_Path :: string

record ResolvePathResponse =
  rpa_Type :: string
  rpa_Namespace :: string
  rpa_Target :: string
  rpa_Poller :: string

definition resolved :: "string \<Rightarrow> string \<Rightarrow> string \<Rightarrow> string \<Rightarrow> ResolvePathResponse" where
  "resolved type namespace target poller =
     \<lparr>rpa_Type = type, rpa_Namespace = namespace, rpa_Target = target, rpa_Poller = poller\<rparr>"

text \<open>The part of \<open>ResolvePath\<close> for a node of the tree; \<open>None\<close> falls through to the error at the end.\<close>

definition resolve_node :: "string \<Rightarrow> string \<Rightarrow> string \<Rightarrow> ResolvePathResponse option" where
  "resolve_node namespace nodeType linkRef =
     (if nodeType = ''directory'' then Some (resolved ''directory'' namespace [] [])
      else if nodeType = ''link_target'' then
        (case ParseLinkRef linkRef of
           Inl _ \<Rightarrow> None
         | Inr (linkType, targetName, _) \<Rightarrow>
             if linkType = ''target'' then Some (resolved ''target'' namespace targetName []) else None)
      else if nodeType = ''link_poller'' then
        (case ParseLinkRef linkRef of
           Inl _ \<Rightarrow> None
         | Inr (linkType, targetName, pollerName) \<Rightarrow>
             if linkType = ''poller'' then Some (resolved ''poller'' namespace targetName pollerName) else None)
      else None)"

definition bh_ResolvePath :: "RequestContext \<Rightarrow> ResolvePathRequest \<Rightarrow> ResolvePathResponse hnd" where
  "bh_ResolvePath ctx req = bound ctx (\<lambda>namespace h.
     let path = browse_path (rpq_Path req);
         parts = split_on (CHR ''/'') (trim_prefix path ''/targets/'');
         no = NewError ErrNotFound (''cannot resolve path: '' @ path)
     in if has_prefix path ''/targets/'' \<and> length parts = 1
        then (Inr (resolved ''target'' namespace (parts ! 0) []), h)
        else if has_prefix path ''/targets/'' \<and> length parts = 2
        then (Inr (resolved ''poller'' namespace (parts ! 0) (parts ! 1)), h)
        else if has_prefix path ''/tree/'' then
          (case on_tree (ResolvePath namespace (trim_prefix path ''/tree'')) h of
             (Inl err, h1) \<Rightarrow> (Inl (as_format ErrNotFound err), h1)
           | (Inr (nodeType, linkRef), h1) \<Rightarrow>
               (case resolve_node namespace nodeType linkRef of
                  Some r \<Rightarrow> (Inr r, h1) | None \<Rightarrow> (Inl no, h1)))
        else (Inl no, h))"

section \<open>Subscriptions\<close>

definition subscriptionKey :: "string \<Rightarrow> string \<Rightarrow> string" where
  "subscriptionKey target poller = target @ ''/'' @ poller"

record SubscriptionSpec =
  ss_Target :: string
  ss_Poller :: string

record SubscribeRequest =
  sbq_Subscriptions :: "SubscriptionSpec list"

record SubscribeResponse =
  sba_Subscribed :: "string list"
  sba_Invalid :: "string list"

text \<open>A method of the context's session.\<close>

definition on_ctx :: "RequestContext \<Rightarrow> (Session \<Rightarrow> Session) \<Rightarrow> Handler \<Rightarrow> Handler" where
  "on_ctx ctx f h = h\<lparr>h_sessionManager := on_session (cx_Session ctx) f (h_sessionManager h)\<rparr>"

text \<open>One key: the session takes it and the response names it.\<close>

definition take_key :: "RequestContext \<Rightarrow> string \<Rightarrow> SubscribeResponse \<times> Handler \<Rightarrow> SubscribeResponse \<times> Handler" where
  "take_key ctx key rh =
     (case rh of (resp, h) \<Rightarrow>
        (resp\<lparr>sba_Subscribed := sba_Subscribed resp @ [key]\<rparr>, on_ctx ctx (sn_Subscribe key) h))"

definition reject_key :: "string \<Rightarrow> SubscribeResponse \<times> Handler \<Rightarrow> SubscribeResponse \<times> Handler" where
  "reject_key key rh = (case rh of (resp, h) \<Rightarrow> (resp\<lparr>sba_Invalid := sba_Invalid resp @ [key]\<rparr>, h))"

text \<open>All pollers of a target, or the rejection of \<open>bad\<close> when it has none.\<close>

definition take_target ::
    "RequestContext \<Rightarrow> string \<Rightarrow> string \<Rightarrow> string \<Rightarrow> SubscribeResponse \<times> Handler \<Rightarrow> SubscribeResponse \<times> Handler" where
  "take_target ctx namespace target bad rh =
     (let pollers = pm_List namespace target (mg_Pollers (h_mgr (snd rh)));
          rh1 = foldl (\<lambda>rh p. take_key ctx (subscriptionKey target (p_Name p)) rh) rh pollers
      in if length pollers = 0 then reject_key bad rh1 else rh1)"

definition subscribe_spec ::
    "RequestContext \<Rightarrow> string \<Rightarrow> SubscribeResponse \<times> Handler \<Rightarrow> SubscriptionSpec \<Rightarrow> SubscribeResponse \<times> Handler" where
  "subscribe_spec ctx namespace rh spec =
     (if ss_Poller spec \<noteq> []
      then (let key = subscriptionKey (ss_Target spec) (ss_Poller spec) in
            if pm_Exists namespace (ss_Target spec) (ss_Poller spec) (mg_Pollers (h_mgr (snd rh)))
            then take_key ctx key rh else reject_key key rh)
      else take_target ctx namespace (ss_Target spec) (ss_Target spec @ ''/*'') rh)"

definition empty_response :: SubscribeResponse where
  "empty_response = \<lparr>sba_Subscribed = [], sba_Invalid = []\<rparr>"

definition suh_Subscribe :: "RequestContext \<Rightarrow> SubscribeRequest \<Rightarrow> SubscribeResponse hnd" where
  "suh_Subscribe ctx req = bound ctx (\<lambda>namespace h.
     case foldl (subscribe_spec ctx namespace) (empty_response, h) (sbq_Subscriptions req) of
       (resp, h1) \<Rightarrow> (Inr resp, h1))"

record UnsubscribeRequest =
  usq_Keys :: "string list"

record UnsubscribeResponse =
  usa_Unsubscribed :: "string list"

definition unsubscribe_key :: "RequestContext \<Rightarrow> string list \<times> Handler \<Rightarrow> string \<Rightarrow> string list \<times> Handler" where
  "unsubscribe_key ctx rh key =
     (case rh of (unsubscribed, h) \<Rightarrow>
        if sn_IsSubscribed key (ctx_session ctx h)
        then (unsubscribed @ [key], on_ctx ctx (sn_Unsubscribe key) h) else (unsubscribed, h))"

definition suh_Unsubscribe :: "RequestContext \<Rightarrow> UnsubscribeRequest \<Rightarrow> UnsubscribeResponse hnd" where
  "suh_Unsubscribe ctx req h =
     (if usq_Keys req = []
      then (Inr \<lparr>usa_Unsubscribed = fst (sn_UnsubscribeAll (ctx_session ctx h))\<rparr>,
            on_ctx ctx (\<lambda>s. snd (sn_UnsubscribeAll s)) h)
      else (case foldl (unsubscribe_key ctx) ([], h) (usq_Keys req) of
              (unsubscribed, h1) \<Rightarrow> (Inr \<lparr>usa_Unsubscribed = unsubscribed\<rparr>, h1)))"

record ListSubscriptionsResponse =
  lsa_Subscriptions :: "string list"
  lsa_Count :: nat

definition suh_ListSubscriptions :: "RequestContext \<Rightarrow> ListSubscriptionsResponse hnd" where
  "suh_ListSubscriptions ctx h =
     (let subs = sn_GetSubscriptions (ctx_session ctx h)
      in (Inr \<lparr>lsa_Subscriptions = subs, lsa_Count = length subs\<rparr>, h))"

fun send_each :: "string \<Rightarrow> sptr list \<Rightarrow> nat \<Rightarrow> SessionManager \<Rightarrow> (nat \<times> SessionManager) option" where
  "send_each sample [] sent m = Some (sent, m)"
| "send_each sample (x # xs) sent m =
     (case sn_Send sample (deref m x) of
        None \<Rightarrow> None
      | Some (ok, s) \<Rightarrow> send_each sample xs (if ok then sent + 1 else sent) (on_session x (\<lambda>_. s) m))"

definition BroadcastSample ::
    "string \<Rightarrow> string \<Rightarrow> string \<Rightarrow> string \<Rightarrow> Handler \<Rightarrow> (nat \<times> Handler) option" where
  "BroadcastSample namespace target poller sample h =
     (let key = subscriptionKey target poller;
          subscribers = GetSubscribersFor namespace key (h_sessionManager h)
      in case send_each sample subscribers 0 (h_sessionManager h) of
           None \<Rightarrow> None
         | Some (sent, m) \<Rightarrow> Some (sent, h\<lparr>h_sessionManager := m\<rparr>))"

record SubscribeByPathRequest =
  spq_Paths :: "string list"

definition subscribe_path ::
    "RequestContext \<Rightarrow> string \<Rightarrow> SubscribeResponse \<times> Handler \<Rightarrow> string \<Rightarrow> SubscribeResponse \<times> Handler" where
  "subscribe_path ctx namespace rh path =
     (case bh_ResolvePath ctx \<lparr>rpq_Path = path\<rparr> (snd rh) of
        (Inl _, h1) \<Rightarrow> reject_key path (fst rh, h1)
      | (Inr r, h1) \<Rightarrow>
          if rpa_Type r = ''poller''
          then (if pm_Exists namespace (rpa_Target r) (rpa_Poller r) (mg_Pollers (h_mgr h1))
                then take_key ctx (subscriptionKey (rpa_Target r) (rpa_Poller r)) (fst rh, h1)
                else reject_key path (fst rh, h1))
          else if rpa_Type r = ''target''
          then take_target ctx namespace (rpa_Target r) path (fst rh, h1)
          else reject_key (path @ '' (not a poller/target)'') (fst rh, h1))"

definition suh_SubscribeByPath :: "RequestContext \<Rightarrow> SubscribeByPathRequest \<Rightarrow> SubscribeResponse hnd" where
  "suh_SubscribeByPath ctx req = bound ctx (\<lambda>namespace h.
     case foldl (subscribe_path ctx namespace) (empty_response, h) (spq_Paths req) of
       (resp, h1) \<Rightarrow> (Inr resp, h1))"

end
