(* ===== verification/StatusHandlers.thy ===== *)
theory StatusHandlers
  imports BrowseHandlers StoreSecrets
begin

text \<open>
  The handlers of internal/handler/status.go and secret.go. The clock, the nonce of a new secret and
  the cipher are arguments.
\<close>

section \<open>Status\<close>

record GetServerStatusResponse =
  gsa_Version :: string
  gsa_StartedAt :: int
  gsa_UptimeMs :: int
  gsa_SessionsActive :: nat
  gsa_SessionsLost :: nat
  gsa_NamespaceCount :: nat
  gsa_TargetCount :: nat
  gsa_PollerCount :: nat
  gsa_PollersRunning :: nat
  gsa_PollersStopped :: nat
  gsa_PollersError :: nat
  gsa_PollersUp :: nat
  gsa_PollersDown :: nat
  gsa_PollersDegraded :: nat
  gsa_PollsTotal :: int
  gsa_PollsSuccess :: int
  gsa_PollsFailed :: int
  gsa_BufferedSamples :: nat

definition sth_GetServerStatus :: "int \<Rightarrow> RequestContext \<Rightarrow> GetServerStatusResponse hnd" where
  "sth_GetServerStatus now ctx h =
     (let m = h_mgr h;
          info = GetServerInfo now m;
          operCounts = CountByOperState (mg_States m);
          healthCounts = CountByHealthState (mg_States m)
      in (Inr \<lparr>gsa_Version = si_Version info, gsa_StartedAt = si_StartedAt info, gsa_UptimeMs = si_Uptime info,
               gsa_SessionsActive = CountActive (h_sessionManager h),
               gsa_SessionsLost = CountLost (h_sessionManager h),
               gsa_NamespaceCount = si_NamespaceCount info, gsa_TargetCount = si_TargetCount info,
               gsa_PollerCount = si_PollerCount info,
               gsa_PollersRunning = count_of operCounts ''running'',
               gsa_PollersStopped = count_of operCounts ''stopped'',
               gsa_PollersError = count_of operCounts ''error'',
               gsa_PollersUp = count_of healthCounts ''up'', gsa_PollersDown = count_of healthCounts ''down'',
               gsa_PollersDegraded = count_of healthCounts ''degraded'',
               gsa_PollsTotal = si_PollsTotal info, gsa_PollsSuccess = si_PollsSuccess info,
               gsa_PollsFailed = si_PollsFailed info,
               gsa_BufferedSamples = GetBufferedSampleCount (mg_Sync m)\<rparr>, h))"

record GetSessionInfoResponse =
  gia_SessionID :: string
  gia_TokenID :: string
  gia_Namespace :: string
  gia_CreatedAt :: int
  gia_Subscriptions :: "string list"

definition sth_GetSessionInfo :: "RequestContext \<Rightarrow> GetSessionInfoResponse hnd" where
  "sth_GetSessionInfo ctx h =
     (let s = ctx_session ctx h in
      (Inr \<lparr>gia_SessionID = sn_ID s, gia_TokenID = sn_TokenID s, gia_Namespace = sn_GetNamespace s,
            gia_CreatedAt = sn_CreatedAt s, gia_Subscriptions = sn_GetSubscriptions s\<rparr>, h))"

record GetNamespaceStatusResponse =
  gna_Namespace :: string
  gna_TargetCount :: nat
  gna_PollerCount :: nat
  gna_PollersEnabled :: nat
  gna_PollersDisabled :: nat
  gna_PollersRunning :: nat
  gna_PollersUp :: nat
  gna_PollersDown :: nat
  gna_PollsTotal :: int
  gna_PollsSuccess :: int
  gna_PollsFailed :: int

text \<open>One turn of the loop: the states of a poller counted.\<close>

definition count_states ::
    "string \<times> string \<times> string \<Rightarrow> GetNamespaceStatusResponse \<Rightarrow> GetNamespaceStatusResponse" where
  "count_states st resp =
     (case st of (admin, oper, health) \<Rightarrow>
       let r1 = (if admin = ''enabled'' then resp\<lparr>gna_PollersEnabled := gna_PollersEnabled resp + 1\<rparr>
                 else resp\<lparr>gna_PollersDisabled := gna_PollersDisabled resp + 1\<rparr>);
           r2 = (if oper = ''running'' then r1\<lparr>gna_PollersRunning := gna_PollersRunning r1 + 1\<rparr> else r1)
       in if health = ''up'' then r2\<lparr>gna_PollersUp := gna_PollersUp r2 + 1\<rparr>
          else if health = ''down'' then r2\<lparr>gna_PollersDown := gna_PollersDown r2 + 1\<rparr>
          else r2)"

definition count_poller ::
    "string \<Rightarrow> GetNamespaceStatusResponse \<times> Handler \<Rightarrow> Poller \<Rightarrow> GetNamespaceStatusResponse \<times> Handler" where
  "count_poller namespace rh p =
     (case rh of (resp, h) \<Rightarrow>
       case on_pm (pm_GetState namespace (p_Target p) (p_Name p)) h of
         (state, h1) \<Rightarrow> (count_states (ps_GetState state) resp, h1))"

definition sth_GetNamespaceStatus :: "RequestContext \<Rightarrow> GetNamespaceStatusResponse hnd" where
  "sth_GetNamespaceStatus ctx = bound ctx (\<lambda>namespace h.
     let pollers = pm_ListInNamespace namespace (mg_Pollers (h_mgr h));
         resp = \<lparr>gna_Namespace = namespace, gna_TargetCount = tm_CountInNamespace namespace (mg_Targets (h_mgr h)),
                 gna_PollerCount = length pollers, gna_PollersEnabled = 0, gna_PollersDisabled = 0,
                 gna_PollersRunning = 0, gna_PollersUp = 0, gna_PollersDown = 0, gna_PollsTotal = 0,
                 gna_PollsSuccess = 0, gna_PollsFailed = 0\<rparr>
     in case foldl (count_poller namespace) (resp, h) pollers of
          (resp1, h1) \<Rightarrow>
            (case AggregateByNamespace namespace (mg_Stats (h_mgr h1)) of
               (pollsTotal, pollsSuccess, pollsFailed) \<Rightarrow>
                 (Inr (resp1\<lparr>gna_PollsTotal := pollsTotal, gna_PollsSuccess := pollsSuccess, gna_PollsFailed := pollsFailed\<rparr>), h1)))"

section \<open>Secrets\<close>

record ListSecretsResponse =
  lra_Secrets :: "Secret list"

definition sch_ListSecrets :: "RequestContext \<Rightarrow> ListSecretsResponse hnd" where
  "sch_ListSecrets ctx = bound ctx (\<lambda>namespace h.
     case on_sql (ListSecrets namespace) h of
       (Inl err, h1) \<Rightarrow> (Inl (as_value ErrInternal ''list secrets'' err), h1)
     | (Inr secrets, h1) \<Rightarrow> (Inr \<lparr>lra_Secrets = secrets\<rparr>, h1))"

record GetSecretRequest =
  gcq_Name :: string

record GetSecretResponse =
  gca_Secret :: Secret

definition sch_GetSecret :: "RequestContext \<Rightarrow> GetSecretRequest \<Rightarrow> GetSecretResponse hnd" where
  "sch_GetSecret ctx req = bound ctx (\<lambda>namespace h.
     case on_sql (GetSecret namespace (gcq_Name req)) h of
       (Inl err, h1) \<Rightarrow> (Inl (as_value ErrInternal ''get secret'' err), h1)
     | (Inr None, h1) \<Rightarrow> (Inl (NewError ErrNotFound (''secret not found: '' @ gcq_Name req)), h1)
     | (Inr (Some secret), h1) \<Rightarrow> (Inr \<lparr>gca_Secret = secret\<rparr>, h1))"

record CreateSecretRequest =
  ccq_Name :: string
  ccq_SecretType :: string
  ccq_Value :: string

record CreateSecretResponse =
  cca_Secret :: "Secret option"

text \<open>The secret read back after a change; nil when that fails.\<close>

definition read_back :: "string \<Rightarrow> string \<Rightarrow> Handler \<Rightarrow> Secret option \<times> Handler" where
  "read_back namespace name h =
     (case or_nil (on_sql (GetSecret namespace name) h) of (secret, h1) \<Rightarrow> (Option.bind secret id, h1))"

definition sch_CreateSecret ::
    "seal \<Rightarrow> string \<Rightarrow> int \<Rightarrow> RequestContext \<Rightarrow> CreateSecretRequest \<Rightarrow> CreateSecretResponse hnd" where
  "sch_CreateSecret seal nonce now ctx req = bound ctx (\<lambda>namespace h.
     if \<not> HasSecretKey (mg_store (h_mgr h))
     then (Inl (NewError ErrInvalidRequest ''secret encryption not configured on server''), h)
     else case on_sql (SecretExists namespace (ccq_Name req)) h of
       (Inl err, h1) \<Rightarrow> (Inl (as_value ErrInternal ''check secret'' err), h1)
     | (Inr exists, h1) \<Rightarrow>
         if exists then (Inl (NewError ErrAlreadyExists (''secret already exists: '' @ ccq_Name req)), h1)
         else (case on_sql (CreateSecret seal nonce now namespace (ccq_Name req) (ccq_SecretType req) (ccq_Value req)) h1 of
                 (Inl err, h2) \<Rightarrow> (Inl (as_value ErrInternal ''create secret'' err), h2)
               | (Inr _, h2) \<Rightarrow>
                   (case read_back namespace (ccq_Name req) h2 of
                      (secret, h3) \<Rightarrow> (Inr \<lparr>cca_Secret = secret\<rparr>, h3))))"

record UpdateSecretRequest =
  ucq_Name :: string
  ucq_Value :: string

record UpdateSecretResponse =
  uca_Secret :: "Secret option"

definition sch_UpdateSecret ::
    "seal \<Rightarrow> string \<Rightarrow> int \<Rightarrow> RequestContext \<Rightarrow> UpdateSecretRequest \<Rightarrow> UpdateSecretResponse hnd" where
  "sch_UpdateSecret seal nonce now ctx req = bound ctx (\<lambda>namespace h.
     case on_sql (UpdateSecret seal nonce now namespace (ucq_Name req) (ucq_Value req)) h of
       (Inl err, h1) \<Rightarrow> (Inl (as_format ErrInvalidRequest err), h1)
     | (Inr _, h1) \<Rightarrow>
         (case read_back namespace (ucq_Name req) h1 of (secret, h2) \<Rightarrow> (Inr \<lparr>uca_Secret = secret\<rparr>, h2)))"

record DeleteSecretRequest =
  dcq_Name :: string
  dcq_Force :: bool

record DeleteSecretResponse =
  dca_UsersAffected :: nat

definition sch_DeleteSecret :: "RequestContext \<Rightarrow> DeleteSecretRequest \<Rightarrow> DeleteSecretResponse hnd" where
  "sch_DeleteSecret ctx req = bound ctx (\<lambda>namespace h.
     case on_sql (DeleteSecret namespace (dcq_Name req) (dcq_Force req)) h of
       (Inl err, h1) \<Rightarrow> (Inl (as_format ErrInvalidRequest err), h1)
     | (Inr affected, h1) \<Rightarrow> (Inr \<lparr>dca_UsersAffected = affected\<rparr>, h1))"

end
