(* ===== verification/SnmpPoller.thy ===== *)
theory SnmpPoller
  imports Scheduler
begin

text \<open>
  The SNMP poller of internal/scheduler/snmp.go: the defaults of a configuration, the parameters of the
  client, and the result of a poll.

  The library gosnmp is a parameter: \<open>client\<close> takes the parameters and the object identifier and
  answers with the error of \<open>Connect\<close>, the error of \<open>Get\<close>, or the variables of the response.
  \<open>gosnmp.ToBigInt\<close> is the integer a variable carries; \<open>big.Int.Uint64\<close> is the low 64 bits of its
  absolute value. \<open>json.Unmarshal\<close> into the configuration is the parameter \<open>unmarshal\<close>. The clock is read at the
  start and at the end of a poll, in milliseconds.
\<close>

record SNMPConfig =
  sc_Host :: string
  sc_Port :: "16 word"
  sc_OID :: string
  sc_Community :: string
  sc_Version :: int
  sc_SecurityName :: string
  sc_SecurityLevel :: string
  sc_AuthProtocol :: string
  sc_AuthPassword :: string
  sc_PrivProtocol :: string
  sc_PrivPassword :: string
  sc_ContextName :: string
  sc_TimeoutMs :: "32 word"
  sc_Retries :: "32 word"

text \<open>The part of \<open>ParseSNMPConfig\<close> after \<open>Unmarshal\<close>.\<close>

definition config_defaults :: "SNMPConfig \<Rightarrow> SNMPConfig" where
  "config_defaults cfg0 =
     (let c1 = (if sc_Port cfg0 = 0 then cfg0\<lparr>sc_Port := 161\<rparr> else cfg0);
          c2 = (if sc_TimeoutMs c1 = 0 then c1\<lparr>sc_TimeoutMs := 5000\<rparr> else c1);
          c3 = (if sc_Retries c2 = 0 then c2\<lparr>sc_Retries := 2\<rparr> else c2);
          c4 = (if sc_Version c3 = 0 then c3\<lparr>sc_Version := 2\<rparr> else c3)
      in if sc_Community c4 = [] \<and> sc_Version c4 = 2 then c4\<lparr>sc_Community := ''public''\<rparr> else c4)"

definition ParseSNMPConfig :: "(string \<Rightarrow> SNMPConfig go) \<Rightarrow> string \<Rightarrow> SNMPConfig go" where
  "ParseSNMPConfig unmarshal data =
     (case unmarshal data of Inl err \<Rightarrow> Inl err | Inr cfg \<Rightarrow> Inr (config_defaults cfg))"

section \<open>The client's parameters\<close>

datatype auth_protocol = MD5 | SHA | SHA224 | SHA256 | SHA384 | SHA512 | NoAuth

datatype priv_protocol = DES | AES | AES192 | AES256 | NoPriv

datatype msg_flags = NoAuthNoPriv | AuthNoPriv | AuthPriv

definition mapAuthProtocol :: "string \<Rightarrow> auth_protocol" where
  "mapAuthProtocol s =
     (if s = ''MD5'' then MD5
      else if s = ''SHA'' \<or> s = ''SHA1'' then SHA
      else if s = ''SHA224'' then SHA224
      else if s = ''SHA256'' then SHA256
      else if s = ''SHA384'' then SHA384
      else if s = ''SHA512'' then SHA512
      else NoAuth)"

definition mapPrivProtocol :: "string \<Rightarrow> priv_protocol" where
  "mapPrivProtocol s =
     (if s = ''DES'' then DES
      else if s = ''AES'' \<or> s = ''AES128'' then AES
      else if s = ''AES192'' then AES192
      else if s = ''AES256'' then AES256
      else NoPriv)"

datatype security =
    V2c string
  | V3 string msg_flags string auth_protocol string priv_protocol string

record client_params =
  cp_Target :: string
  cp_Port :: "16 word"
  cp_TimeoutMs :: "32 word"
  cp_Retries :: "32 word"
  cp_Security :: security

datatype variable =
    Number int
  | OctetString "string option"
  | NoSuchObject
  | NoSuchInstance
  | OtherType

datatype reply = ConnectError string | GetError string | Variables "variable list"

type_synonym snmp_client = "client_params \<Rightarrow> string \<Rightarrow> reply"

record SNMPPoller =
  sp_defaultTimeoutMs :: "32 word"
  sp_defaultRetries :: "32 word"

definition NewSNMPPoller :: "32 word \<Rightarrow> 32 word \<Rightarrow> SNMPPoller" where
  "NewSNMPPoller timeoutMs retries = \<lparr>sp_defaultTimeoutMs = timeoutMs, sp_defaultRetries = retries\<rparr>"

section \<open>Timeouts by the text of the error\<close>

text \<open>The loop of \<open>containsAt\<close> from position \<open>i\<close> on; its bound is negative when \<open>sub\<close> is the longer.\<close>

fun contains_from :: "string \<Rightarrow> string \<Rightarrow> bool" where
  "contains_from s sub =
     (if length s < length sub then False
      else if take (length sub) s = sub then True
      else (case s of [] \<Rightarrow> False | _ # r \<Rightarrow> contains_from r sub))"

declare contains_from.simps [simp del]

definition containsAt :: "string \<Rightarrow> string \<Rightarrow> bool" where
  "containsAt s sub = contains_from s sub"

definition contains :: "string \<Rightarrow> string \<Rightarrow> bool" where
  "contains s sub \<longleftrightarrow> length s \<ge> length sub \<and> (s = sub \<or> length s > 0 \<and> containsAt s sub)"

definition isTimeout :: "string \<Rightarrow> bool" where
  "isTimeout err \<longleftrightarrow> contains err ''timeout'' \<or> contains err ''deadline''"

section \<open>A poll\<close>

definition client_of :: "SNMPPoller \<Rightarrow> SNMPConfig \<Rightarrow> client_params" where
  "client_of p cfg =
     (let timeoutMs = (if sc_TimeoutMs cfg = 0 then sp_defaultTimeoutMs p else sc_TimeoutMs cfg);
          retries = (if sc_Retries cfg = 0 then sp_defaultRetries p else sc_Retries cfg);
          flags = (if sc_SecurityLevel cfg = ''noAuthNoPriv'' then NoAuthNoPriv
                   else if sc_SecurityLevel cfg = ''authNoPriv'' then AuthNoPriv
                   else AuthPriv)
      in \<lparr>cp_Target = sc_Host cfg, cp_Port = sc_Port cfg, cp_TimeoutMs = timeoutMs, cp_Retries = retries,
          cp_Security =
            (if sc_Version cfg = 3
             then V3 (sc_ContextName cfg) flags (sc_SecurityName cfg) (mapAuthProtocol (sc_AuthProtocol cfg))
                     (sc_AuthPassword cfg) (mapPrivProtocol (sc_PrivProtocol cfg)) (sc_PrivPassword cfg)
             else V2c (sc_Community cfg))\<rparr>)"

definition read_variable :: "variable \<Rightarrow> PollResult \<Rightarrow> PollResult" where
  "read_variable v result =
     (case v of
        Number n \<Rightarrow> result\<lparr>pr_Counter := Some (word_of_int (abs n)), pr_Success := True\<rparr>
      | OctetString b \<Rightarrow> result\<lparr>pr_Text := b, pr_Success := True\<rparr>
      | NoSuchObject \<Rightarrow> result\<lparr>pr_Success := False, pr_Error := ''no such object''\<rparr>
      | NoSuchInstance \<Rightarrow> result\<lparr>pr_Success := False, pr_Error := ''no such object''\<rparr>
      | OtherType \<Rightarrow> result\<lparr>pr_Success := False, pr_Error := ''unsupported type''\<rparr>)"

definition Poll :: "snmp_client \<Rightarrow> int \<Rightarrow> int \<Rightarrow> SNMPPoller \<Rightarrow> PollerKey \<Rightarrow> SNMPConfig \<Rightarrow> PollResult" where
  "Poll client start finish p key cfg =
     (let result = \<lparr>pr_Key = key, pr_TimestampMs = start, pr_Success = False, pr_Timeout = False, pr_Error = [],
                    pr_PollMs = 0, pr_Counter = None, pr_Text = None, pr_Gauge = None\<rparr>;
          failed = (\<lambda>err. result\<lparr>pr_Success := False, pr_Error := err, pr_Timeout := isTimeout err,
                                  pr_PollMs := finish - start\<rparr>)
      in case client (client_of p cfg) (sc_OID cfg) of
           ConnectError err \<Rightarrow> failed err
         | GetError err \<Rightarrow> failed err
         | Variables [] \<Rightarrow> result\<lparr>pr_Success := False, pr_Error := ''no variables returned'', pr_PollMs := finish - start\<rparr>
         | Variables (v # _) \<Rightarrow> (read_variable v result)\<lparr>pr_PollMs := finish - start\<rparr>)"

section \<open>Properties\<close>

lemma contains_from_iff: "contains_from s sub \<longleftrightarrow> (\<exists>a b. s = a @ sub @ b)"
proof (induction s)
  case Nil
  show ?case by (subst contains_from.simps) auto
next
  case (Cons c s)
  have unf: "contains_from (c # s) sub \<longleftrightarrow>
      length sub \<le> length (c # s) \<and> (has_prefix (c # s) sub \<or> contains_from s sub)"
    by (subst contains_from.simps) (auto simp: has_prefix_def not_less)
  show ?case
  proof
    assume "contains_from (c # s) sub"
    then show "\<exists>a b. c # s = a @ sub @ b"
      unfolding unf Cons.IH has_prefix_iff by (metis append_Cons append_Nil)
  next
    assume "\<exists>a b. c # s = a @ sub @ b"
    then obtain a b where ab: "c # s = a @ sub @ b" by blast
    have "length (c # s) = length a + (length sub + length b)" unfolding ab by simp
    then have len: "length sub \<le> length (c # s)" by simp
    show "contains_from (c # s) sub"
      unfolding unf Cons.IH has_prefix_iff using ab len by (cases a) auto
  qed
qed

lemma contains_iff: "contains s sub \<longleftrightarrow> (\<exists>a b. s = a @ sub @ b)"
proof
  assume "contains s sub"
  then show "\<exists>a b. s = a @ sub @ b"
    unfolding contains_def containsAt_def contains_from_iff by (metis append_Nil append_Nil2)
next
  assume "\<exists>a b. s = a @ sub @ b"
  then obtain a b where ab: "s = a @ sub @ b" by blast
  then have "contains_from s sub" unfolding contains_from_iff by blast
  then show "contains s sub" unfolding contains_def containsAt_def using ab by (cases s) auto
qed

lemma config_defaults_fields:
  "sc_Port (config_defaults c) = (if sc_Port c = 0 then 161 else sc_Port c)"
  "sc_TimeoutMs (config_defaults c) = (if sc_TimeoutMs c = 0 then 5000 else sc_TimeoutMs c)"
  "sc_Retries (config_defaults c) = (if sc_Retries c = 0 then 2 else sc_Retries c)"
  "sc_Version (config_defaults c) = (if sc_Version c = 0 then 2 else sc_Version c)"
  "sc_Community (config_defaults c) =
    (if sc_Community c = [] \<and> (sc_Version c = 0 \<or> sc_Version c = 2) then ''public'' else sc_Community c)"
  by (cases c, simp add: config_defaults_def Let_def)+

lemma config_defaults_set:
  "sc_Port (config_defaults c) \<noteq> 0" "sc_TimeoutMs (config_defaults c) \<noteq> 0" "sc_Retries (config_defaults c) \<noteq> 0"
  "sc_Version (config_defaults c) \<noteq> 0" "sc_Version (config_defaults c) = 2 \<Longrightarrow> sc_Community (config_defaults c) \<noteq> []"
  by (auto simp: config_defaults_fields split: if_splits)

text \<open>C32: 
  C1: A poll ends in exactly one kind of result. It is for the asked poller and carries the time it
  began; it succeeds exactly when the first variable of a response is a number or an octet string;
  it counts as a timeout exactly when connecting or reading failed with an error whose text has
  \<open>timeout\<close> or \<open>deadline\<close> in it; and a poll that fails carries no value.
\<close>

theorem poll_classifies:
  "pr_Key (Poll client start finish p key cfg) = key \<and>
   pr_TimestampMs (Poll client start finish p key cfg) = start \<and>
   pr_PollMs (Poll client start finish p key cfg) = finish - start \<and>
   (pr_Success (Poll client start finish p key cfg) \<longleftrightarrow>
      (\<exists>v vs. client (client_of p cfg) (sc_OID cfg) = Variables (v # vs) \<and>
              ((\<exists>n. v = Number n) \<or> (\<exists>b. v = OctetString b)))) \<and>
   (pr_Timeout (Poll client start finish p key cfg) \<longleftrightarrow>
      (\<exists>e a b. (client (client_of p cfg) (sc_OID cfg) = ConnectError e \<or>
                client (client_of p cfg) (sc_OID cfg) = GetError e) \<and>
               (e = a @ ''timeout'' @ b \<or> e = a @ ''deadline'' @ b))) \<and>
   (pr_Success (Poll client start finish p key cfg) \<or>
      pr_Counter (Poll client start finish p key cfg) = None \<and> pr_Text (Poll client start finish p key cfg) = None)"
  unfolding Poll_def Let_def
  by (cases "client (client_of p cfg) (sc_OID cfg)")
    (auto simp: isTimeout_def contains_iff read_variable_def split: list.split variable.split)

text \<open>A negative number is reported as its absolute value.\<close>

lemma negative_reading_loses_sign:
  "client (client_of p cfg) (sc_OID cfg) = Variables [Number (- 5)] \<Longrightarrow>
   pr_Counter (Poll client start finish p key cfg) = Some 5"
  by (simp add: Poll_def Let_def read_variable_def)

end
