(* ===== verification/Server.thy ===== *)
theory Server
  imports StatusHandlers SnmpPoller
begin

text \<open>
  The server of internal/server/server.go: it owns the handler (and through it the managers and the
  sessions), the scheduler and the SNMP poller, and wires them together.

  \<^item> The poller manager records the scheduler callbacks it makes; \<open>drain\<close> runs them on the
    scheduler. A callback touches only the scheduler, so running it right after the operation is
    running it inside.
  \<^item> \<open>sv_rnd n\<close> is the random number of the \<open>n\<close>-th item the scheduler makes; \<open>rand.Int63n\<close> brings
    it below the interval. An operation that may panic has an option as its result: a zero interval
    in \<open>Add\<close> and a send on a closed channel do.
  \<^item> The clock of an operation is a function: \<open>clock i\<close> is what the \<open>i\<close>-th \<open>time.Now()\<close> of it gives, in
    milliseconds.
  \<^item> The listener, TLS and the connections are not modelled; a connection is a number and the first
    message of a client is its token.
\<close>

section \<open>Configuration and construction\<close>

record SrvConfig =
  cf_Manager :: "Manager option"
  cf_Listen :: string
  cf_TLSCertFile :: string
  cf_TLSKeyFile :: string
  cf_Tokens :: "TokenConfig list"
  cf_AuthTimeoutSec :: int
  cf_ReconnectWindowSec :: int
  cf_PollerWorkers :: nat
  cf_PollerQueueSize :: nat
  cf_DBPath :: string
  cf_SecretKeyPath :: string
  cf_DefaultTimeoutMs :: "32 word"
  cf_DefaultRetries :: "32 word"
  cf_DefaultIntervalMs :: "32 word"
  cf_DefaultBufferSize :: "32 word"

definition srv_DefaultConfig :: SrvConfig where
  "srv_DefaultConfig =
     \<lparr>cf_Manager = None, cf_Listen = ''0.0.0.0:9161'', cf_TLSCertFile = [], cf_TLSKeyFile = [], cf_Tokens = [],
      cf_AuthTimeoutSec = 30, cf_ReconnectWindowSec = 600, cf_PollerWorkers = 100, cf_PollerQueueSize = 10000,
      cf_DBPath = ''snmpproxy.db'', cf_SecretKeyPath = [], cf_DefaultTimeoutMs = 5000, cf_DefaultRetries = 2,
      cf_DefaultIntervalMs = 1000, cf_DefaultBufferSize = 3600\<rparr>"

record Server =
  sv_cfg :: SrvConfig
  sv_handler :: Handler
  sv_scheduler :: Scheduler
  sv_snmpPoller :: SNMPPoller
  sv_rnd :: "nat \<Rightarrow> int"

abbreviation sv_mgr :: "Server \<Rightarrow> Manager" where
  "sv_mgr srv \<equiv> h_mgr (sv_handler srv)"

abbreviation sv_sessions :: "Server \<Rightarrow> SessionManager" where
  "sv_sessions srv \<equiv> h_sessionManager (sv_handler srv)"

definition set_mgr :: "Manager \<Rightarrow> Server \<Rightarrow> Server" where
  "set_mgr m srv = srv\<lparr>sv_handler := (sv_handler srv)\<lparr>h_mgr := m\<rparr>\<rparr>"

definition set_sessions :: "SessionManager \<Rightarrow> Server \<Rightarrow> Server" where
  "set_sessions sm srv = srv\<lparr>sv_handler := (sv_handler srv)\<lparr>h_sessionManager := sm\<rparr>\<rparr>"

text \<open>
  The manager \<open>New\<close> uses, given what \<open>store.New\<close> returned for the configured path: the one it was given,
  or a new one with the server defaults in its store, whose error is dropped. An error ends the
  program.
\<close>

definition server_manager :: "SrvConfig \<Rightarrow> Store go \<Rightarrow> string \<Rightarrow> int \<Rightarrow> Manager go" where
  "server_manager cfg opened version now =
     (case cf_Manager cfg of
        Some m \<Rightarrow> Inr m
      | None \<Rightarrow>
          (case mg_New opened None version now of
             Inl err \<Rightarrow> Inl err
           | Inr m \<Rightarrow>
               Inr (set_store (snd (UpdateServerConfig
                     \<lparr>sc_DefaultTimeoutMs = cf_DefaultTimeoutMs cfg, sc_DefaultRetries = cf_DefaultRetries cfg,
                      sc_DefaultIntervalMs = cf_DefaultIntervalMs cfg,
                      sc_DefaultBufferSize = cf_DefaultBufferSize cfg\<rparr> (mg_store m))) m)))"

definition srv_New :: "SrvConfig option \<Rightarrow> Store go \<Rightarrow> string \<Rightarrow> int \<Rightarrow> (nat \<Rightarrow> int) \<Rightarrow> Server go" where
  "srv_New cfg0 opened version now rnd =
     (let cfg = (case cfg0 of None \<Rightarrow> srv_DefaultConfig | Some c \<Rightarrow> c) in
      case server_manager cfg opened version now of
        Inl err \<Rightarrow> Inl err
      | Inr mgr \<Rightarrow>
          (let sessions = NewSessionManager
                 \<lparr>sc_ReconnectWindow = cf_ReconnectWindowSec cfg * 1000, sc_AuthTimeout = cf_AuthTimeoutSec cfg * 1000,
                  sc_Tokens = cf_Tokens cfg\<rparr>;
               wired = mgr\<lparr>mg_Pollers := SetCallbacks (mg_Pollers mgr)\<rparr>
           in Inr \<lparr>sv_cfg = cfg, sv_handler = NewHandler wired sessions,
                   sv_scheduler = New (Some \<lparr>cfg_Workers = cf_PollerWorkers cfg, cfg_QueueSize = cf_PollerQueueSize cfg\<rparr>),
                   sv_snmpPoller = NewSNMPPoller (cf_DefaultTimeoutMs cfg) (cf_DefaultRetries cfg),
                   sv_rnd = rnd\<rparr>))"

section \<open>The scheduler callbacks\<close>

definition poller_key_of :: "string \<Rightarrow> string \<Rightarrow> string \<Rightarrow> PollerKey" where
  "poller_key_of namespace target poller = \<lparr>pk_Namespace = namespace, pk_Target = target, pk_Poller = poller\<rparr>"

definition sched_add :: "int \<Rightarrow> PollerKey \<Rightarrow> 32 word \<Rightarrow> Server \<Rightarrow> Server option" where
  "sched_add now key intervalMs srv =
     (case Add key intervalMs (sv_rnd srv (s_next (sv_scheduler srv)) mod uint intervalMs) now (sv_scheduler srv) of
        Inl _ \<Rightarrow> None | Inr s \<Rightarrow> Some (srv\<lparr>sv_scheduler := s\<rparr>))"

definition onPollerCreated :: "int \<Rightarrow> string \<Rightarrow> string \<Rightarrow> string \<Rightarrow> 32 word \<Rightarrow> Server \<Rightarrow> Server option" where
  "onPollerCreated now namespace target poller intervalMs srv =
     (let key = poller_key_of namespace target poller in sched_add now key intervalMs srv)"

definition onPollerDeleted :: "string \<Rightarrow> string \<Rightarrow> string \<Rightarrow> Server \<Rightarrow> Server" where
  "onPollerDeleted namespace target poller srv =
     (let key = poller_key_of namespace target poller in srv\<lparr>sv_scheduler := Remove key (sv_scheduler srv)\<rparr>)"

definition onPollerUpdated :: "string \<Rightarrow> string \<Rightarrow> string \<Rightarrow> 32 word \<Rightarrow> Server \<Rightarrow> Server" where
  "onPollerUpdated namespace target poller intervalMs srv =
     (let key = poller_key_of namespace target poller
      in srv\<lparr>sv_scheduler := UpdateInterval key intervalMs (sv_scheduler srv)\<rparr>)"

fun run_calls :: "int \<Rightarrow> sched_call list \<Rightarrow> Server \<Rightarrow> Server option" where
  "run_calls now [] srv = Some srv"
| "run_calls now (PollerCreated n t p i # cs) srv =
     (case onPollerCreated now n t p i srv of None \<Rightarrow> None | Some srv1 \<Rightarrow> run_calls now cs srv1)"
| "run_calls now (PollerDeleted n t p # cs) srv = run_calls now cs (onPollerDeleted n t p srv)"
| "run_calls now (PollerUpdated n t p i # cs) srv = run_calls now cs (onPollerUpdated n t p i srv)"

definition drain :: "int \<Rightarrow> Server \<Rightarrow> Server option" where
  "drain now srv =
     (let m = sv_mgr srv in
      run_calls now (pm_calls (mg_Pollers m)) (set_mgr (m\<lparr>mg_Pollers := (mg_Pollers m)\<lparr>pm_calls := []\<rparr>\<rparr>) srv))"

text \<open>An operation of the manager, or a handler, run by the server.\<close>

definition srv_mgr :: "int \<Rightarrow> (Manager \<Rightarrow> 'a \<times> Manager) \<Rightarrow> Server \<Rightarrow> ('a \<times> Server) option" where
  "srv_mgr now f srv =
     (case f (sv_mgr srv) of (r, m) \<Rightarrow>
       case drain now (set_mgr m srv) of None \<Rightarrow> None | Some srv1 \<Rightarrow> Some (r, srv1))"

definition srv_handle :: "int \<Rightarrow> 'a hnd \<Rightarrow> Server \<Rightarrow> ((HandlerError + 'a) \<times> Server) option" where
  "srv_handle now f srv =
     (case f (sv_handler srv) of (r, h) \<Rightarrow>
       case drain now (srv\<lparr>sv_handler := h\<rparr>) of None \<Rightarrow> None | Some srv1 \<Rightarrow> Some (r, srv1))"

section \<open>Start and stop\<close>

text \<open>A method of a poller's state; the error is dropped.\<close>

definition state_do :: "poller_id \<Rightarrow> (PollerState \<Rightarrow> PollerState go) \<Rightarrow> Server \<Rightarrow> Server" where
  "state_do q f srv = set_mgr (snd (on_pollers (on_state q f) (sv_mgr srv))) srv"

definition start_and_run :: "poller_id \<Rightarrow> Server \<Rightarrow> Server" where
  "start_and_run q srv = state_do q (\<lambda>st. Inr (ps_MarkRunning st)) (state_do q ps_Start srv)"

definition stop_and_mark :: "poller_id \<Rightarrow> Server \<Rightarrow> Server" where
  "stop_and_mark q srv = state_do q (\<lambda>st. Inr (ps_MarkStopped st)) (state_do q ps_Stop srv)"

definition schedule_one :: "(nat \<Rightarrow> int) \<Rightarrow> Poller \<Rightarrow> nat \<times> Server \<Rightarrow> (nat \<times> Server) option" where
  "schedule_one clock p cs =
     (case cs of (started, srv) \<Rightarrow>
       case srv_mgr (clock 2) (on_pollers (pm_GetResolvedConfig (clock 0) (clock 1) (p_Namespace p) (p_Target p) (p_Name p))) srv of
         None \<Rightarrow> None
       | Some (Inl _, srv1) \<Rightarrow> Some (started, srv1)
       | Some (Inr cfg, srv1) \<Rightarrow>
           (case sched_add (clock 2) (poller_key_of (p_Namespace p) (p_Target p) (p_Name p)) (rc_IntervalMs cfg) srv1 of
              None \<Rightarrow> None
            | Some srv2 \<Rightarrow> Some (started + 1, start_and_run (p_Namespace p, p_Target p, p_Name p) srv2)))"

fun schedule_all :: "(nat \<Rightarrow> int) \<Rightarrow> Poller list \<Rightarrow> nat \<times> Server \<Rightarrow> (nat \<times> Server) option" where
  "schedule_all clock [] cs = Some cs"
| "schedule_all clock (p # ps) cs =
     (case schedule_one clock p cs of None \<Rightarrow> None | Some cs1 \<Rightarrow> schedule_all clock ps cs1)"

definition scheduleEnabledPollers :: "(nat \<Rightarrow> int) \<Rightarrow> Server \<Rightarrow> (nat \<times> Server) option" where
  "scheduleEnabledPollers clock srv = schedule_all clock (pm_GetEnabledPollers (mg_Pollers (sv_mgr srv))) (0, srv)"

text \<open>\<open>Run\<close> up to the listener, and \<open>Shutdown\<close>.\<close>

definition srv_Run :: "(nat \<Rightarrow> int) \<Rightarrow> Server \<Rightarrow> (unit go \<times> Server) option" where
  "srv_Run clock srv =
     (case mg_Load (sv_mgr srv) of
        (Inl err, m) \<Rightarrow> Some (Inl (wrap_err ''load data'' err), set_mgr m srv)
      | (Inr _, m) \<Rightarrow>
          (case scheduleEnabledPollers clock (set_mgr m srv) of
             None \<Rightarrow> None | Some (_, srv1) \<Rightarrow> Some (Inr (), srv1)))"

definition srv_Shutdown :: "Server \<Rightarrow> Server" where
  "srv_Shutdown srv = set_mgr (mg_Stop (sv_mgr srv)) srv"

section \<open>Connections\<close>

text \<open>
  \<open>handleConn\<close> up to the read loop: the token of the first message (\<open>None\<close> when it is not an
  authentication), then a restored or a new session. \<open>None\<close> is a closed connection.
\<close>

definition handleConn :: "int \<Rightarrow> string \<Rightarrow> nat \<Rightarrow> string option \<Rightarrow> Server \<Rightarrow> sptr option \<times> Server" where
  "handleConn now sid conn auth srv =
     (case auth of
        None \<Rightarrow> (None, srv)
      | Some token \<Rightarrow>
          (case ValidateToken token (sv_sessions srv) of
             None \<Rightarrow> (None, srv)
           | Some tokenCfg \<Rightarrow>
               (case TryRestore now (tk_ID tokenCfg) conn (sv_sessions srv) of
                  (Some x, sm) \<Rightarrow> (Some x, set_sessions sm srv)
                | (None, sm) \<Rightarrow>
                    (case CreateSession sid now (tk_ID tokenCfg) conn sm of
                       (x, sm1) \<Rightarrow> (Some x, set_sessions sm1 srv)))))"

text \<open>After the read loop.\<close>

definition disconnect :: "int \<Rightarrow> sptr \<Rightarrow> Server \<Rightarrow> Server" where
  "disconnect now x srv = set_sessions (on_session x (sn_MarkLost now) (sv_sessions srv)) srv"

definition cleanup_tick :: "int \<Rightarrow> Server \<Rightarrow> Server" where
  "cleanup_tick now srv = set_sessions (snd (Cleanup now (sv_sessions srv))) srv"

section \<open>Polling\<close>

definition poll_failure :: "PollerKey \<Rightarrow> int \<Rightarrow> string \<Rightarrow> PollResult" where
  "poll_failure key now err =
     \<lparr>pr_Key = key, pr_TimestampMs = now, pr_Success = False, pr_Timeout = False, pr_Error = err, pr_PollMs = 0,
      pr_Counter = None, pr_Text = None, pr_Gauge = None\<rparr>"

definition apply_resolved :: "ResolvedPollerConfig \<Rightarrow> SNMPConfig \<Rightarrow> SNMPConfig" where
  "apply_resolved r cfg0 =
     (let c1 = (if sc_TimeoutMs cfg0 = 0 then cfg0\<lparr>sc_TimeoutMs := rc_TimeoutMs r\<rparr> else cfg0);
          c2 = (if sc_Retries c1 = 0 then c1\<lparr>sc_Retries := rc_Retries r\<rparr> else c1)
      in if (sc_Community c2 = [] \<or> sc_Community c2 = ''public'') \<and> rc_Community r \<noteq> []
         then c2\<lparr>sc_Community := rc_Community r\<rparr> else c2)"

definition srv_executePoll ::
    "(string \<Rightarrow> SNMPConfig go) \<Rightarrow> snmp_client \<Rightarrow> (nat \<Rightarrow> int) \<Rightarrow> PollerKey \<Rightarrow> Server \<Rightarrow> PollResult \<times> Server" where
  "srv_executePoll unmarshal client clock key srv =
     (case on_pollers (pm_Get (pk_Namespace key) (pk_Target key) (pk_Poller key)) (sv_mgr srv) of
        (Inl _, m) \<Rightarrow> (poll_failure key (clock 0) ''poller not found'', set_mgr m srv)
      | (Inr None, m) \<Rightarrow> (poll_failure key (clock 0) ''poller not found'', set_mgr m srv)
      | (Inr (Some p), m) \<Rightarrow>
          if p_Protocol p = ''snmp'' then
            (case ParseSNMPConfig unmarshal (p_ProtocolConfig p) of
               Inl err \<Rightarrow> (poll_failure key (clock 0) (''parse config: '' @ error_msg err), set_mgr m srv)
             | Inr cfg \<Rightarrow>
                 (case on_pollers (pm_GetResolvedConfig (clock 0) (clock 1) (pk_Namespace key) (pk_Target key) (pk_Poller key)) m of
                    (Inl _, m1) \<Rightarrow> (Poll client (clock 2) (clock 3) (sv_snmpPoller srv) key cfg, set_mgr m1 srv)
                  | (Inr r, m1) \<Rightarrow>
                      (Poll client (clock 2) (clock 3) (sv_snmpPoller srv) key (apply_resolved r cfg), set_mgr m1 srv)))
          else (poll_failure key (clock 0) (''unknown protocol: '' @ p_Protocol p), set_mgr m srv))"

definition sample_of :: "PollResult \<Rightarrow> Sample" where
  "sample_of result =
     \<lparr>sa_Namespace = pk_Namespace (pr_Key result), sa_Target = pk_Target (pr_Key result),
      sa_Poller = pk_Poller (pr_Key result), sa_TimestampMs = pr_TimestampMs result,
      sa_ValueCounter = pr_Counter result, sa_ValueText = pr_Text result, sa_ValueGauge = pr_Gauge result,
      sa_Valid = pr_Success result, sa_Error = pr_Error result, sa_PollMs = pr_PollMs result\<rparr>"

text \<open>The broadcast of an empty message; its count is dropped.\<close>

definition handlePollResult :: "int \<Rightarrow> PollResult \<Rightarrow> Server \<Rightarrow> Server option" where
  "handlePollResult now result srv =
     (let key = pr_Key result;
          m = mg_RecordPollResult now (pk_Namespace key) (pk_Target key) (pk_Poller key) (pr_Success result)
                (pr_Timeout result) (pr_Error result) (pr_PollMs result) (Some (sample_of result)) (sv_mgr srv);
          h = (sv_handler srv)\<lparr>h_mgr := m\<rparr>
      in case BroadcastSample (pk_Namespace key) (pk_Target key) (pk_Poller key) [] h of
           None \<Rightarrow> None | Some (_, h1) \<Rightarrow> Some (srv\<lparr>sv_handler := h1\<rparr>))"

end
