(* ===== verification/Dispatch.thy ===== *)
theory Dispatch
  imports Server
begin

text \<open>
  The message dispatcher of internal/server/dispatch.go. A message has a type and a payload; a
  payload is the request of one of the handlers or something else, and each handler function checks
  that it got its own kind. Creating, enabling and disabling a poller also drives the scheduler and the
  poller's state.

  \<open>env\<close> gathers what a request takes from outside: the clock, the cipher and a fresh nonce.
  \<open>None\<close> is a panic.
\<close>

record env =
  en_clock :: "nat \<Rightarrow> int"
  en_seal :: seal
  en_nonce :: string

datatype payload =
    PBindNamespace BindNamespaceRequest
  | PListNamespaces
  | PGetNamespace GetNamespaceRequest
  | PCreateNamespace CreateNamespaceRequest
  | PUpdateNamespace UpdateNamespaceRequest
  | PDeleteNamespace DeleteNamespaceRequest
  | PListTargets ListTargetsRequest
  | PGetTarget GetTargetRequest
  | PCreateTarget CreateTargetRequest
  | PUpdateTarget UpdateTargetRequest
  | PDeleteTarget DeleteTargetRequest
  | PSetLabels SetLabelsRequest
  | PListPollers ListPollersRequest
  | PGetPoller GetPollerRequest
  | PCreatePoller CreatePollerRequest
  | PUpdatePoller UpdatePollerRequest
  | PDeletePoller DeletePollerRequest
  | PEnablePoller EnablePollerRequest
  | PDisablePoller EnablePollerRequest
  | PGetHistory GetHistoryRequest
  | PGetResolvedConfig GetResolvedConfigRequest
  | PBrowse BrowseRequest
  | PCreateDirectory CreateDirectoryRequest
  | PCreateLink CreateLinkRequest
  | PDeleteTreeNode DeleteTreeNodeRequest
  | PSubscribe SubscribeRequest
  | PUnsubscribe UnsubscribeRequest
  | PListSubscriptions
  | PSubscribeByPath SubscribeByPathRequest
  | PGetServerStatus
  | PGetSessionInfo
  | PGetNamespaceStatus
  | PListSecrets
  | PGetSecret GetSecretRequest
  | PCreateSecret CreateSecretRequest
  | PUpdateSecret UpdateSecretRequest
  | PDeleteSecret DeleteSecretRequest
  | POther

datatype response =
    RBindNamespace BindNamespaceResponse
  | RListNamespaces ListNamespacesResponse
  | RGetNamespace GetNamespaceResponse
  | RCreateNamespace CreateNamespaceResponse
  | RUpdateNamespace UpdateNamespaceResponse
  | RDeleteNamespace DeleteNamespaceResponse
  | RListTargets ListTargetsResponse
  | RGetTarget GetTargetResponse
  | RCreateTarget CreateTargetResponse
  | RUpdateTarget UpdateTargetResponse
  | RDeleteTarget DeleteTargetResponse
  | RSetLabels SetLabelsResponse
  | RListPollers ListPollersResponse
  | RGetPoller PollerFullInfo
  | RCreatePoller CreatePollerResponse
  | RUpdatePoller UpdatePollerResponse
  | RDeletePoller DeletePollerResponse
  | REnablePoller EnablePollerResponse
  | RDisablePoller EnablePollerResponse
  | RGetHistory GetHistoryResponse
  | RGetResolvedConfig GetResolvedConfigResponse
  | RBrowse BrowseResponse
  | RCreateDirectory CreateDirectoryResponse
  | RCreateLink CreateLinkResponse
  | RDeleteTreeNode DeleteTreeNodeResponse
  | RSubscribe SubscribeResponse
  | RUnsubscribe UnsubscribeResponse
  | RListSubscriptions ListSubscriptionsResponse
  | RSubscribeByPath SubscribeResponse
  | RGetServerStatus GetServerStatusResponse
  | RGetSessionInfo GetSessionInfoResponse
  | RGetNamespaceStatus GetNamespaceStatusResponse
  | RListSecrets ListSecretsResponse
  | RGetSecret GetSecretResponse
  | RCreateSecret CreateSecretResponse
  | RUpdateSecret UpdateSecretResponse
  | RDeleteSecret DeleteSecretResponse

datatype dispatch_error = Handled HandlerError | Plain gerror

type_synonym outcome = "((dispatch_error + response) \<times> Server) option"

definition invalid_payload :: "Server \<Rightarrow> outcome" where
  "invalid_payload srv = Some (Inl (Plain (Errorf ''invalid payload type'')), srv)"

definition respond :: "('a \<Rightarrow> response) \<Rightarrow> ((HandlerError + 'a) \<times> Server) option \<Rightarrow> outcome" where
  "respond mk out =
     (case out of
        None \<Rightarrow> None
      | Some (Inl err, srv) \<Rightarrow> Some (Inl (Handled err), srv)
      | Some (Inr a, srv) \<Rightarrow> Some (Inr (mk a), srv))"

section \<open>Pollers and the scheduler\<close>

text \<open>\<open>cfg, _ := ConfigResolver.Resolve(...)\<close>: nil when it fails.\<close>

definition resolve_or_nil ::
    "env \<Rightarrow> string \<Rightarrow> string \<Rightarrow> string \<Rightarrow> Server \<Rightarrow> ResolvedPollerConfig option \<times> Server" where
  "resolve_or_nil env namespace target name srv =
     (case on_pollers (pm_GetResolvedConfig (en_clock env 2) (en_clock env 3) namespace target name) (sv_mgr srv) of
        (Inl _, m) \<Rightarrow> (None, set_mgr m srv)
      | (Inr cfg, m) \<Rightarrow> (Some cfg, set_mgr m srv))"

definition handleCreatePoller :: "env \<Rightarrow> RequestContext \<Rightarrow> payload \<Rightarrow> Server \<Rightarrow> outcome" where
  "handleCreatePoller env ctx payload srv =
     (case payload of
        PCreatePoller req \<Rightarrow>
          (case srv_handle (en_clock env 4) (ph_CreatePoller (en_clock env 0) ctx req) srv of
             None \<Rightarrow> None
           | Some (Inl err, srv1) \<Rightarrow> Some (Inl (Handled err), srv1)
           | Some (Inr resp, srv1) \<Rightarrow>
               (let p = cpa_Poller resp in
                if p_AdminState p = ''enabled''
                then (case resolve_or_nil env (p_Namespace p) (p_Target p) (p_Name p) srv1 of
                        (None, srv2) \<Rightarrow> Some (Inr (RCreatePoller resp), srv2)
                      | (Some cfg, srv2) \<Rightarrow>
                          (case onPollerCreated (en_clock env 4) (p_Namespace p) (p_Target p) (p_Name p) (rc_IntervalMs cfg) srv2 of
                             None \<Rightarrow> None
                           | Some srv3 \<Rightarrow> Some (Inr (RCreatePoller resp), srv3)))
                else Some (Inr (RCreatePoller resp), srv1)))
      | _ \<Rightarrow> invalid_payload srv)"

definition handleEnablePoller :: "env \<Rightarrow> RequestContext \<Rightarrow> payload \<Rightarrow> Server \<Rightarrow> outcome" where
  "handleEnablePoller env ctx payload srv =
     (case payload of
        PEnablePoller req \<Rightarrow>
          (case srv_handle (en_clock env 4) (ph_EnablePoller (en_clock env 0) ctx req) srv of
             None \<Rightarrow> None
           | Some (Inl err, srv1) \<Rightarrow> Some (Inl (Handled err), srv1)
           | Some (Inr resp, srv1) \<Rightarrow>
               (let ns = sn_GetNamespace (ctx_session ctx (sv_handler srv1)) in
                case resolve_or_nil env ns (epq_Target req) (epq_Name req) srv1 of
                  (None, srv2) \<Rightarrow> Some (Inr (REnablePoller resp), srv2)
                | (Some cfg, srv2) \<Rightarrow>
                    (case onPollerCreated (en_clock env 4) ns (epq_Target req) (epq_Name req) (rc_IntervalMs cfg) srv2 of
                       None \<Rightarrow> None
                     | Some srv3 \<Rightarrow>
                         Some (Inr (REnablePoller resp), start_and_run (ns, epq_Target req, epq_Name req) srv3))))
      | _ \<Rightarrow> invalid_payload srv)"

definition handleDisablePoller :: "env \<Rightarrow> RequestContext \<Rightarrow> payload \<Rightarrow> Server \<Rightarrow> outcome" where
  "handleDisablePoller env ctx payload srv =
     (case payload of
        PDisablePoller req \<Rightarrow>
          (case srv_handle (en_clock env 4) (ph_DisablePoller (en_clock env 0) ctx req) srv of
             None \<Rightarrow> None
           | Some (Inl err, srv1) \<Rightarrow> Some (Inl (Handled err), srv1)
           | Some (Inr resp, srv1) \<Rightarrow>
               (let ns = sn_GetNamespace (ctx_session ctx (sv_handler srv1));
                    srv2 = onPollerDeleted ns (epq_Target req) (epq_Name req) srv1
                in Some (Inr (RDisablePoller resp), stop_and_mark (ns, epq_Target req, epq_Name req) srv2)))
      | _ \<Rightarrow> invalid_payload srv)"

section \<open>The other handlers\<close>

definition handleBindNamespace :: "env \<Rightarrow> RequestContext \<Rightarrow> payload \<Rightarrow> Server \<Rightarrow> outcome" where
  "handleBindNamespace env ctx payload srv =
     (case payload of PBindNamespace req \<Rightarrow> respond RBindNamespace (srv_handle (en_clock env 4) (nsh_BindNamespace ctx req) srv) | _ \<Rightarrow> invalid_payload srv)"

definition handleListNamespaces :: "env \<Rightarrow> RequestContext \<Rightarrow> payload \<Rightarrow> Server \<Rightarrow> outcome" where
  "handleListNamespaces env ctx payload srv = respond RListNamespaces (srv_handle (en_clock env 4) (nsh_ListNamespaces ctx) srv)"

definition handleGetNamespace :: "env \<Rightarrow> RequestContext \<Rightarrow> payload \<Rightarrow> Server \<Rightarrow> outcome" where
  "handleGetNamespace env ctx payload srv =
     (case payload of PGetNamespace req \<Rightarrow> respond RGetNamespace (srv_handle (en_clock env 4) (nsh_GetNamespace ctx req) srv) | _ \<Rightarrow> invalid_payload srv)"

definition handleCreateNamespace :: "env \<Rightarrow> RequestContext \<Rightarrow> payload \<Rightarrow> Server \<Rightarrow> outcome" where
  "handleCreateNamespace env ctx payload srv =
     (case payload of PCreateNamespace req \<Rightarrow> respond RCreateNamespace (srv_handle (en_clock env 4) (nsh_CreateNamespace (en_clock env 0) (en_clock env 1) ctx req) srv) | _ \<Rightarrow> invalid_payload srv)"

definition handleUpdateNamespace :: "env \<Rightarrow> RequestContext \<Rightarrow> payload \<Rightarrow> Server \<Rightarrow> outcome" where
  "handleUpdateNamespace env ctx payload srv =
     (case payload of PUpdateNamespace req \<Rightarrow> respond RUpdateNamespace (srv_handle (en_clock env 4) (nsh_UpdateNamespace (en_clock env 0) (en_clock env 1) ctx req) srv) | _ \<Rightarrow> invalid_payload srv)"

definition handleDeleteNamespace :: "env \<Rightarrow> RequestContext \<Rightarrow> payload \<Rightarrow> Server \<Rightarrow> outcome" where
  "handleDeleteNamespace env ctx payload srv =
     (case payload of PDeleteNamespace req \<Rightarrow> respond RDeleteNamespace (srv_handle (en_clock env 4) (nsh_DeleteNamespace ctx req) srv) | _ \<Rightarrow> invalid_payload srv)"

definition handleListTargets :: "env \<Rightarrow> RequestContext \<Rightarrow> payload \<Rightarrow> Server \<Rightarrow> outcome" where
  "handleListTargets env ctx payload srv =
     (let req = (case payload of PListTargets req \<Rightarrow> req | _ \<Rightarrow> \<lparr>ltq_Labels = [], ltq_Limit = 0, ltq_Cursor = []\<rparr>)
      in respond RListTargets (srv_handle (en_clock env 4) (th_ListTargets ctx req) srv))"

definition handleGetTarget :: "env \<Rightarrow> RequestContext \<Rightarrow> payload \<Rightarrow> Server \<Rightarrow> outcome" where
  "handleGetTarget env ctx payload srv =
     (case payload of PGetTarget req \<Rightarrow> respond RGetTarget (srv_handle (en_clock env 4) (th_GetTarget ctx req) srv) | _ \<Rightarrow> invalid_payload srv)"

definition handleCreateTarget :: "env \<Rightarrow> RequestContext \<Rightarrow> payload \<Rightarrow> Server \<Rightarrow> outcome" where
  "handleCreateTarget env ctx payload srv =
     (case payload of PCreateTarget req \<Rightarrow> respond RCreateTarget (srv_handle (en_clock env 4) (th_CreateTarget (en_clock env 0) (en_clock env 1) ctx req) srv) | _ \<Rightarrow> invalid_payload srv)"

definition handleUpdateTarget :: "env \<Rightarrow> RequestContext \<Rightarrow> payload \<Rightarrow> Server \<Rightarrow> outcome" where
  "handleUpdateTarget env ctx payload srv =
     (case payload of PUpdateTarget req \<Rightarrow> respond RUpdateTarget (srv_handle (en_clock env 4) (th_UpdateTarget (en_clock env 0) (en_clock env 1) ctx req) srv) | _ \<Rightarrow> invalid_payload srv)"

definition handleDeleteTarget :: "env \<Rightarrow> RequestContext \<Rightarrow> payload \<Rightarrow> Server \<Rightarrow> outcome" where
  "handleDeleteTarget env ctx payload srv =
     (case payload of PDeleteTarget req \<Rightarrow> respond RDeleteTarget (srv_handle (en_clock env 4) (th_DeleteTarget ctx req) srv) | _ \<Rightarrow> invalid_payload srv)"

definition handleSetLabels :: "env \<Rightarrow> RequestContext \<Rightarrow> payload \<Rightarrow> Server \<Rightarrow> outcome" where
  "handleSetLabels env ctx payload srv =
     (case payload of PSetLabels req \<Rightarrow> respond RSetLabels (srv_handle (en_clock env 4) (th_SetLabels (en_clock env 0) (en_clock env 1) ctx req) srv) | _ \<Rightarrow> invalid_payload srv)"

definition handleListPollers :: "env \<Rightarrow> RequestContext \<Rightarrow> payload \<Rightarrow> Server \<Rightarrow> outcome" where
  "handleListPollers env ctx payload srv =
     (case payload of PListPollers req \<Rightarrow> respond RListPollers (srv_handle (en_clock env 4) (ph_ListPollers ctx req) srv) | _ \<Rightarrow> invalid_payload srv)"

definition handleGetPoller :: "env \<Rightarrow> RequestContext \<Rightarrow> payload \<Rightarrow> Server \<Rightarrow> outcome" where
  "handleGetPoller env ctx payload srv =
     (case payload of PGetPoller req \<Rightarrow> respond RGetPoller (srv_handle (en_clock env 4) (ph_GetPoller (en_clock env 0) (en_clock env 1) ctx req) srv) | _ \<Rightarrow> invalid_payload srv)"

definition handleUpdatePoller :: "env \<Rightarrow> RequestContext \<Rightarrow> payload \<Rightarrow> Server \<Rightarrow> outcome" where
  "handleUpdatePoller env ctx payload srv =
     (case payload of PUpdatePoller req \<Rightarrow> respond RUpdatePoller (srv_handle (en_clock env 4) (ph_UpdatePoller (en_clock env 0) (en_clock env 1) ctx req) srv) | _ \<Rightarrow> invalid_payload srv)"

definition handleDeletePoller :: "env \<Rightarrow> RequestContext \<Rightarrow> payload \<Rightarrow> Server \<Rightarrow> outcome" where
  "handleDeletePoller env ctx payload srv =
     (case payload of PDeletePoller req \<Rightarrow> respond RDeletePoller (srv_handle (en_clock env 4) (ph_DeletePoller ctx req) srv) | _ \<Rightarrow> invalid_payload srv)"

definition handleGetHistory :: "env \<Rightarrow> RequestContext \<Rightarrow> payload \<Rightarrow> Server \<Rightarrow> outcome" where
  "handleGetHistory env ctx payload srv =
     (case payload of PGetHistory req \<Rightarrow> respond RGetHistory (srv_handle (en_clock env 4) (ph_GetHistory ctx req) srv) | _ \<Rightarrow> invalid_payload srv)"

definition handleGetResolvedConfig :: "env \<Rightarrow> RequestContext \<Rightarrow> payload \<Rightarrow> Server \<Rightarrow> outcome" where
  "handleGetResolvedConfig env ctx payload srv =
     (case payload of PGetResolvedConfig req \<Rightarrow> respond RGetResolvedConfig (srv_handle (en_clock env 4) (ph_GetResolvedConfig (en_clock env 0) (en_clock env 1) ctx req) srv) | _ \<Rightarrow> invalid_payload srv)"

definition handleBrowse :: "env \<Rightarrow> RequestContext \<Rightarrow> payload \<Rightarrow> Server \<Rightarrow> outcome" where
  "handleBrowse env ctx payload srv =
     (case payload of PBrowse req \<Rightarrow> respond RBrowse (srv_handle (en_clock env 4) (bh_Browse (en_clock env 0) (en_clock env 1) ctx req) srv) | _ \<Rightarrow> invalid_payload srv)"

definition handleCreateDirectory :: "env \<Rightarrow> RequestContext \<Rightarrow> payload \<Rightarrow> Server \<Rightarrow> outcome" where
  "handleCreateDirectory env ctx payload srv =
     (case payload of PCreateDirectory req \<Rightarrow> respond RCreateDirectory (srv_handle (en_clock env 4) (bh_CreateDirectory (en_clock env 0) ctx req) srv) | _ \<Rightarrow> invalid_payload srv)"

definition handleCreateLink :: "env \<Rightarrow> RequestContext \<Rightarrow> payload \<Rightarrow> Server \<Rightarrow> outcome" where
  "handleCreateLink env ctx payload srv =
     (case payload of PCreateLink req \<Rightarrow> respond RCreateLink (srv_handle (en_clock env 4) (bh_CreateLink (en_clock env 0) ctx req) srv) | _ \<Rightarrow> invalid_payload srv)"

definition handleDeleteTreeNode :: "env \<Rightarrow> RequestContext \<Rightarrow> payload \<Rightarrow> Server \<Rightarrow> outcome" where
  "handleDeleteTreeNode env ctx payload srv =
     (case payload of PDeleteTreeNode req \<Rightarrow> respond RDeleteTreeNode (srv_handle (en_clock env 4) (bh_DeleteTreeNode ctx req) srv) | _ \<Rightarrow> invalid_payload srv)"

definition handleSubscribe :: "env \<Rightarrow> RequestContext \<Rightarrow> payload \<Rightarrow> Server \<Rightarrow> outcome" where
  "handleSubscribe env ctx payload srv =
     (case payload of PSubscribe req \<Rightarrow> respond RSubscribe (srv_handle (en_clock env 4) (suh_Subscribe ctx req) srv) | _ \<Rightarrow> invalid_payload srv)"

definition handleUnsubscribe :: "env \<Rightarrow> RequestContext \<Rightarrow> payload \<Rightarrow> Server \<Rightarrow> outcome" where
  "handleUnsubscribe env ctx payload srv =
     (case payload of PUnsubscribe req \<Rightarrow> respond RUnsubscribe (srv_handle (en_clock env 4) (suh_Unsubscribe ctx req) srv) | _ \<Rightarrow> invalid_payload srv)"

definition handleListSubscriptions :: "env \<Rightarrow> RequestContext \<Rightarrow> payload \<Rightarrow> Server \<Rightarrow> outcome" where
  "handleListSubscriptions env ctx payload srv = respond RListSubscriptions (srv_handle (en_clock env 4) (suh_ListSubscriptions ctx) srv)"

definition handleSubscribeByPath :: "env \<Rightarrow> RequestContext \<Rightarrow> payload \<Rightarrow> Server \<Rightarrow> outcome" where
  "handleSubscribeByPath env ctx payload srv =
     (case payload of PSubscribeByPath req \<Rightarrow> respond RSubscribeByPath (srv_handle (en_clock env 4) (suh_SubscribeByPath ctx req) srv) | _ \<Rightarrow> invalid_payload srv)"

definition handleGetServerStatus :: "env \<Rightarrow> RequestContext \<Rightarrow> payload \<Rightarrow> Server \<Rightarrow> outcome" where
  "handleGetServerStatus env ctx payload srv = respond RGetServerStatus (srv_handle (en_clock env 4) (sth_GetServerStatus (en_clock env 0) ctx) srv)"

definition handleGetSessionInfo :: "env \<Rightarrow> RequestContext \<Rightarrow> payload \<Rightarrow> Server \<Rightarrow> outcome" where
  "handleGetSessionInfo env ctx payload srv = respond RGetSessionInfo (srv_handle (en_clock env 4) (sth_GetSessionInfo ctx) srv)"

definition handleGetNamespaceStatus :: "env \<Rightarrow> RequestContext \<Rightarrow> payload \<Rightarrow> Server \<Rightarrow> outcome" where
  "handleGetNamespaceStatus env ctx payload srv = respond RGetNamespaceStatus (srv_handle (en_clock env 4) (sth_GetNamespaceStatus ctx) srv)"

definition handleListSecrets :: "env \<Rightarrow> RequestContext \<Rightarrow> payload \<Rightarrow> Server \<Rightarrow> outcome" where
  "handleListSecrets env ctx payload srv = respond RListSecrets (srv_handle (en_clock env 4) (sch_ListSecrets ctx) srv)"

definition handleGetSecret :: "env \<Rightarrow> RequestContext \<Rightarrow> payload \<Rightarrow> Server \<Rightarrow> outcome" where
  "handleGetSecret env ctx payload srv =
     (case payload of PGetSecret req \<Rightarrow> respond RGetSecret (srv_handle (en_clock env 4) (sch_GetSecret ctx req) srv) | _ \<Rightarrow> invalid_payload srv)"

definition handleCreateSecret :: "env \<Rightarrow> RequestContext \<Rightarrow> payload \<Rightarrow> Server \<Rightarrow> outcome" where
  "handleCreateSecret env ctx payload srv =
     (case payload of PCreateSecret req \<Rightarrow> respond RCreateSecret (srv_handle (en_clock env 4) (sch_CreateSecret (en_seal env) (en_nonce env) (en_clock env 0) ctx req) srv) | _ \<Rightarrow> invalid_payload srv)"

definition handleUpdateSecret :: "env \<Rightarrow> RequestContext \<Rightarrow> payload \<Rightarrow> Server \<Rightarrow> outcome" where
  "handleUpdateSecret env ctx payload srv =
     (case payload of PUpdateSecret req \<Rightarrow> respond RUpdateSecret (srv_handle (en_clock env 4) (sch_UpdateSecret (en_seal env) (en_nonce env) (en_clock env 0) ctx req) srv) | _ \<Rightarrow> invalid_payload srv)"

definition handleDeleteSecret :: "env \<Rightarrow> RequestContext \<Rightarrow> payload \<Rightarrow> Server \<Rightarrow> outcome" where
  "handleDeleteSecret env ctx payload srv =
     (case payload of PDeleteSecret req \<Rightarrow> respond RDeleteSecret (srv_handle (en_clock env 4) (sch_DeleteSecret ctx req) srv) | _ \<Rightarrow> invalid_payload srv)"

section \<open>The dispatcher\<close>

definition srv_Dispatch ::
    "env \<Rightarrow> sptr \<Rightarrow> 64 word \<Rightarrow> string \<Rightarrow> payload \<Rightarrow> Server \<Rightarrow> outcome" where
  "srv_Dispatch env session requestID msgType payload srv =
     (let ctx = NewContext session requestID in
      if msgType = ''bind_namespace'' then handleBindNamespace env ctx payload srv
      else if msgType = ''list_namespaces'' then handleListNamespaces env ctx payload srv
      else if msgType = ''get_namespace'' then handleGetNamespace env ctx payload srv
      else if msgType = ''create_namespace'' then handleCreateNamespace env ctx payload srv
      else if msgType = ''update_namespace'' then handleUpdateNamespace env ctx payload srv
      else if msgType = ''delete_namespace'' then handleDeleteNamespace env ctx payload srv
      else if msgType = ''list_targets'' then handleListTargets env ctx payload srv
      else if msgType = ''get_target'' then handleGetTarget env ctx payload srv
      else if msgType = ''create_target'' then handleCreateTarget env ctx payload srv
      else if msgType = ''update_target'' then handleUpdateTarget env ctx payload srv
      else if msgType = ''delete_target'' then handleDeleteTarget env ctx payload srv
      else if msgType = ''set_labels'' then handleSetLabels env ctx payload srv
      else if msgType = ''list_pollers'' then handleListPollers env ctx payload srv
      else if msgType = ''get_poller'' then handleGetPoller env ctx payload srv
      else if msgType = ''create_poller'' then handleCreatePoller env ctx payload srv
      else if msgType = ''update_poller'' then handleUpdatePoller env ctx payload srv
      else if msgType = ''delete_poller'' then handleDeletePoller env ctx payload srv
      else if msgType = ''enable_poller'' then handleEnablePoller env ctx payload srv
      else if msgType = ''disable_poller'' then handleDisablePoller env ctx payload srv
      else if msgType = ''get_history'' then handleGetHistory env ctx payload srv
      else if msgType = ''get_resolved_config'' then handleGetResolvedConfig env ctx payload srv
      else if msgType = ''browse'' then handleBrowse env ctx payload srv
      else if msgType = ''create_directory'' then handleCreateDirectory env ctx payload srv
      else if msgType = ''create_link'' then handleCreateLink env ctx payload srv
      else if msgType = ''delete_tree_node'' then handleDeleteTreeNode env ctx payload srv
      else if msgType = ''subscribe'' then handleSubscribe env ctx payload srv
      else if msgType = ''unsubscribe'' then handleUnsubscribe env ctx payload srv
      else if msgType = ''list_subscriptions'' then handleListSubscriptions env ctx payload srv
      else if msgType = ''subscribe_by_path'' then handleSubscribeByPath env ctx payload srv
      else if msgType = ''get_server_status'' then handleGetServerStatus env ctx payload srv
      else if msgType = ''get_session_info'' then handleGetSessionInfo env ctx payload srv
      else if msgType = ''get_namespace_status'' then handleGetNamespaceStatus env ctx payload srv
      else if msgType = ''list_secrets'' then handleListSecrets env ctx payload srv
      else if msgType = ''get_secret'' then handleGetSecret env ctx payload srv
      else if msgType = ''create_secret'' then handleCreateSecret env ctx payload srv
      else if msgType = ''update_secret'' then handleUpdateSecret env ctx payload srv
      else if msgType = ''delete_secret'' then handleDeleteSecret env ctx payload srv
      else Some (Inl (Plain (Errorf (''unknown message type: '' @ msgType))), srv))"

text \<open>\<open>wire.NewError\<close> makes a message of an id, a code and a text, with the codes of the wire, where an
  internal error is 7.\<close>

abbreviation "wire_ErrInternal \<equiv> (7::int)"

definition MakeErrorResponse :: "64 word \<Rightarrow> dispatch_error \<Rightarrow> 64 word \<times> int \<times> string" where
  "MakeErrorResponse id0 err =
     (case err of
        Handled e \<Rightarrow> (id0, he_Code e, he_Message e)
      | Plain e \<Rightarrow> (id0, wire_ErrInternal, error_msg e))"

end
