(* ===== verification/ServerRuns.thy ===== *)
theory ServerRuns
  imports Dispatch
begin

text \<open>
  The server as a transition system: what its goroutines do to its state, one critical section at a time. The
  scheduler's own steps (taking due pollers, taking results) change the scheduler only. A step that
  panics has no successor.
\<close>

inductive srv_step :: "Server \<Rightarrow> Server \<Rightarrow> bool" where
  run: "srv_Run clock srv = Some (r, srv') \<Longrightarrow> srv_step srv srv'"
| connect: "handleConn now sid conn token srv = (x, srv') \<Longrightarrow> srv_step srv srv'"
| request: "srv_Dispatch env x rid msgType payload srv = Some (r, srv') \<Longrightarrow> srv_step srv srv'"
| disconnect: "srv_step srv (disconnect now x srv)"
| cleanup: "srv_step srv (cleanup_tick now srv)"
| poll: "srv_executePoll unmarshal client clock key srv = (result, srv') \<Longrightarrow> srv_step srv srv'"
| poll_result: "handlePollResult now result srv = Some srv' \<Longrightarrow> srv_step srv srv'"
| flush: "f \<in> {flushStates, flushStats, flushSamples} \<Longrightarrow> srv_step srv (set_mgr (with_sync f (sv_mgr srv)) srv)"
| scheduler: "srv_step srv (srv\<lparr>sv_scheduler := s\<rparr>)"
| stop: "srv_step srv (srv_Shutdown srv)"

text \<open>A server started by \<open>New\<close> on the store it opened.\<close>

inductive srv_reach :: "Store \<Rightarrow> Server \<Rightarrow> bool" for s where
  start: "srv_New (Some cfg) (Inr s) version now rnd = Inr srv \<Longrightarrow> cf_Manager cfg = None \<Longrightarrow> srv_reach s srv"
| step: "srv_reach s srv \<Longrightarrow> srv_step srv srv' \<Longrightarrow> srv_reach s srv'"

end
