(* ===== verification/Confinement.thy ===== *)
theory Confinement
  imports ServerRuns
begin

text \<open>
  Namespaces are tenants: a token names the namespaces its sessions may use. This theory shows that a
  request changes no row of a namespace its token has no access to.

  \<^item> \<open>others C d\<close> is the database without the rows of the namespaces in \<open>C\<close>. Each statement that works
    in a namespace of \<open>C\<close> keeps it, by the rules of \<open>keeps\<close>.
  \<^item> \<open>hok\<close> is the invariant behind it: no namespace has a slash in its name, the entries of the caches
    are filed under their own keys (so a key leads into the namespace it begins with), and
    a session is bound only to a namespace its token may use.
  \<^item> \<open>within C x f\<close>: the handler \<open>f\<close>, run for the session \<open>x\<close>, keeps the invariant, the other rows,
    and who is bound to what. Its rules follow the shape of the handlers.
\<close>

named_theorems within_intros

section \<open>The rows of the other namespaces\<close>

definition others :: "(string \<Rightarrow> bool) \<Rightarrow> DB \<Rightarrow> DB" where
  "others C d =
     d\<lparr>db_namespaces := filter (\<lambda>r. \<not> C (ns_Name r)) (db_namespaces d),
       db_targets := filter (\<lambda>r. \<not> C (t_Namespace r)) (db_targets d),
       db_pollers := filter (\<lambda>r. \<not> C (p_Namespace r)) (db_pollers d),
       db_states := filter (\<lambda>r. \<not> C (sr_Namespace r)) (db_states d),
       db_stats := filter (\<lambda>r. \<not> C (tr_Namespace r)) (db_stats d),
       db_samples := filter (\<lambda>r. \<not> C (sa_Namespace r)) (db_samples d),
       db_tree := filter (\<lambda>r. \<not> C (tn_Namespace r)) (db_tree d),
       db_secrets := filter (\<lambda>r. \<not> C (se_Namespace r)) (db_secrets d)\<rparr>"

abbreviation plain_name :: "string \<Rightarrow> bool" where
  "plain_name n \<equiv> CHR ''/'' \<notin> set n"

definition names_ok :: "DB \<Rightarrow> bool" where
  "names_ok d \<longleftrightarrow>
     (\<forall>r \<in> set (db_namespaces d). plain_name (ns_Name r)) \<and>
     (\<forall>r \<in> set (db_targets d). plain_name (t_Namespace r)) \<and>
     (\<forall>r \<in> set (db_pollers d). plain_name (p_Namespace r))"

text \<open>What a statement confined to \<open>C\<close> keeps.\<close>

definition apart :: "(string \<Rightarrow> bool) \<Rightarrow> DB \<Rightarrow> DB \<Rightarrow> bool" where
  "apart C D d \<longleftrightarrow> others C d = D \<and> names_ok d"

lemma filter_update:
  assumes "\<And>r. P r \<Longrightarrow> \<not> Q r" "\<And>r. Q (f r) = Q r"
  shows "filter Q (sql_update P f rows) = filter Q rows"
  using assms by (induction rows) (auto simp: sql_update_def)

lemma filter_delete: "(\<And>r. P r \<Longrightarrow> \<not> Q r) \<Longrightarrow> filter Q (sql_delete P rows) = filter Q rows"
  by (induction rows) (auto simp: sql_delete_def)

lemma filter_insert: "sql_insert key r rows = Inr rows' \<Longrightarrow> \<not> Q r \<Longrightarrow> filter Q rows' = filter Q rows"
  using sql_insert_InrD(1) by fastforce

lemma set_update: "r \<in> set (sql_update P f rows) \<Longrightarrow> \<exists>q \<in> set rows. r = q \<or> r = f q"
  by (auto simp: sql_update_def)

lemma set_insert: "sql_insert key r rows = Inr rows' \<Longrightarrow> q \<in> set rows' \<Longrightarrow> q = r \<or> q \<in> set rows"
  using sql_insert_InrD(1) by fastforce

lemma apart_delete:
  assumes "apart C D d"
  shows "(\<And>r. P r \<Longrightarrow> C (sa_Namespace r)) \<Longrightarrow> apart C D (d\<lparr>db_samples := sql_delete P (db_samples d)\<rparr>)"
    and "(\<And>r. P1 r \<Longrightarrow> C (sr_Namespace r)) \<Longrightarrow> apart C D (d\<lparr>db_states := sql_delete P1 (db_states d)\<rparr>)"
    and "(\<And>r. P2 r \<Longrightarrow> C (tr_Namespace r)) \<Longrightarrow> apart C D (d\<lparr>db_stats := sql_delete P2 (db_stats d)\<rparr>)"
    and "(\<And>r. P3 r \<Longrightarrow> C (p_Namespace r)) \<Longrightarrow> apart C D (d\<lparr>db_pollers := sql_delete P3 (db_pollers d)\<rparr>)"
    and "(\<And>r. P4 r \<Longrightarrow> C (tn_Namespace r)) \<Longrightarrow> apart C D (d\<lparr>db_tree := sql_delete P4 (db_tree d)\<rparr>)"
    and "(\<And>r. P5 r \<Longrightarrow> C (se_Namespace r)) \<Longrightarrow> apart C D (d\<lparr>db_secrets := sql_delete P5 (db_secrets d)\<rparr>)"
    and "(\<And>r. P6 r \<Longrightarrow> C (t_Namespace r)) \<Longrightarrow> apart C D (d\<lparr>db_targets := sql_delete P6 (db_targets d)\<rparr>)"
    and "(\<And>r. P7 r \<Longrightarrow> C (ns_Name r)) \<Longrightarrow> apart C D (d\<lparr>db_namespaces := sql_delete P7 (db_namespaces d)\<rparr>)"
  using assms by (auto simp: apart_def others_def names_ok_def filter_delete)

lemma apart_update:
  assumes "apart C D d"
  shows "(\<And>r. P r \<Longrightarrow> C (ns_Name r)) \<Longrightarrow> (\<And>r. ns_Name (f r) = ns_Name r) \<Longrightarrow>
      apart C D (d\<lparr>db_namespaces := sql_update P f (db_namespaces d)\<rparr>)"
    and "(\<And>r. P1 r \<Longrightarrow> C (t_Namespace r)) \<Longrightarrow> (\<And>r. t_Namespace (f1 r) = t_Namespace r) \<Longrightarrow>
      apart C D (d\<lparr>db_targets := sql_update P1 f1 (db_targets d)\<rparr>)"
    and "(\<And>r. P2 r \<Longrightarrow> C (p_Namespace r)) \<Longrightarrow> (\<And>r. p_Namespace (f2 r) = p_Namespace r) \<Longrightarrow>
      apart C D (d\<lparr>db_pollers := sql_update P2 f2 (db_pollers d)\<rparr>)"
    and "(\<And>r. P3 r \<Longrightarrow> C (se_Namespace r)) \<Longrightarrow> (\<And>r. se_Namespace (f3 r) = se_Namespace r) \<Longrightarrow>
      apart C D (d\<lparr>db_secrets := sql_update P3 f3 (db_secrets d)\<rparr>)"
  using assms by (auto simp: apart_def others_def names_ok_def filter_update dest!: set_update)

lemma apart_insert:
  assumes "apart C D d"
  shows "sql_insert k r (db_namespaces d) = Inr rows \<Longrightarrow> C (ns_Name r) \<Longrightarrow> plain_name (ns_Name r) \<Longrightarrow>
      apart C D (d\<lparr>db_namespaces := rows\<rparr>)"
    and "sql_insert k1 r1 (db_targets d) = Inr rows1 \<Longrightarrow> C (t_Namespace r1) \<Longrightarrow> plain_name (t_Namespace r1) \<Longrightarrow>
      apart C D (d\<lparr>db_targets := rows1\<rparr>)"
    and "sql_insert k2 r2 (db_pollers d) = Inr rows2 \<Longrightarrow> C (p_Namespace r2) \<Longrightarrow> plain_name (p_Namespace r2) \<Longrightarrow>
      apart C D (d\<lparr>db_pollers := rows2\<rparr>)"
    and "sql_insert k3 r3 (db_states d) = Inr rows3 \<Longrightarrow> C (sr_Namespace r3) \<Longrightarrow> apart C D (d\<lparr>db_states := rows3\<rparr>)"
    and "sql_insert k4 r4 (db_stats d) = Inr rows4 \<Longrightarrow> C (tr_Namespace r4) \<Longrightarrow> apart C D (d\<lparr>db_stats := rows4\<rparr>)"
    and "sql_insert k5 r5 (db_tree d) = Inr rows5 \<Longrightarrow> C (tn_Namespace r5) \<Longrightarrow> apart C D (d\<lparr>db_tree := rows5\<rparr>)"
    and "sql_insert k6 r6 (db_secrets d) = Inr rows6 \<Longrightarrow> C (se_Namespace r6) \<Longrightarrow> apart C D (d\<lparr>db_secrets := rows6\<rparr>)"
  using assms by (auto simp: apart_def others_def names_ok_def dest!: sql_insert_InrD(1))

section \<open>The statements\<close>

text \<open>A statement confined to \<open>C\<close>.\<close>

abbreviation confined :: "(string \<Rightarrow> bool) \<Rightarrow> 'a sql \<Rightarrow> bool" where
  "confined C f \<equiv> \<forall>D. keeps (apart C D) f"

lemma confined_basic [within_intros]:
  "confined C (ret x)" "confined C (fail e)" "confined C (query q)"
  by (simp_all add: keeps_ret keeps_fail keeps_query)

lemma confined_bnd [within_intros]: "confined C m \<Longrightarrow> (\<And>x. confined C (k x)) \<Longrightarrow> confined C (bnd m k)"
  by (simp add: keeps_bnd)

lemma confined_wrap [within_intros]: "confined C m \<Longrightarrow> confined C (wrap w m)"
  by (simp add: keeps_wrap)

lemma confined_Transaction [within_intros]: "confined C m \<Longrightarrow> confined C (Transaction m)"
  by (simp add: keeps_Transaction)

lemma confined_if [within_intros]: "confined C m \<Longrightarrow> confined C m' \<Longrightarrow> confined C (if c then m else m')"
  by simp

lemma confined_exec: "(\<And>D d. apart C D d \<Longrightarrow> apart C D (f d)) \<Longrightarrow> confined C (exec f)"
  by (simp add: keeps_exec)

lemma confined_option [within_intros]:
  "confined C m \<Longrightarrow> (\<And>x. confined C (k x)) \<Longrightarrow> confined C (case v of None \<Rightarrow> m | Some x \<Rightarrow> k x)"
  by (simp split: option.split)

lemma confined_each [within_intros]: "(\<And>x. x \<in> set xs \<Longrightarrow> confined C (f x)) \<Longrightarrow> confined C (each f xs)"
  by (induction xs) (auto intro: keeps_ret keeps_bnd)

lemma confined_stmt: "(\<And>D d x d'. q d = Inr (x, d') \<Longrightarrow> apart C D d \<Longrightarrow> apart C D d') \<Longrightarrow> confined C (stmt q)"
  by (auto intro: keeps_stmt)

lemma check_rows_confined [within_intros]: "confined C (check_rows rows x)"
  by (auto simp: check_rows_def intro: keeps_ret keeps_fail)

lemma namespaces_confined:
  assumes "C n"
  shows "confined C (DeleteNamespace n force)" "ns_Name x = n \<Longrightarrow> confined C (UpdateNamespace now now' x)"
    "ns_Name x = n \<Longrightarrow> plain_name n \<Longrightarrow> confined C (CreateNamespace now now' x)"
  subgoal
    unfolding DeleteNamespace_def each.simps
    by (intro within_intros confined_exec apart_delete) (use assms in simp_all)
  subgoal
    unfolding UpdateNamespace_def
    by (intro within_intros confined_stmt) (use assms in \<open>auto simp: Let_def intro!: apart_update\<close>)
  subgoal
    unfolding CreateNamespace_def
    by (intro within_intros confined_stmt) (use assms in \<open>auto split: sum.splits intro: apart_insert\<close>)
  done

lemma targets_confined:
  assumes "C n"
  shows "confined C (DeleteTarget n name force)" "t_Namespace x = n \<Longrightarrow> confined C (UpdateTarget now now' x)"
    "t_Namespace x = n \<Longrightarrow> plain_name n \<Longrightarrow> confined C (CreateTarget now now' x)"
  subgoal
    unfolding DeleteTarget_def
    by (intro within_intros confined_exec apart_delete) (use assms in \<open>simp_all add: links_to_target_def\<close>)
  subgoal
    unfolding UpdateTarget_def
    by (intro within_intros confined_stmt) (use assms in \<open>auto simp: Let_def intro!: apart_update\<close>)
  subgoal
    unfolding CreateTarget_def
    by (intro within_intros confined_stmt) (use assms in \<open>auto split: sum.splits intro: apart_insert\<close>)
  done

lemma pollers_confined:
  assumes "C n"
  shows "confined C (DeletePoller n target name)" "p_Namespace x = n \<Longrightarrow> confined C (UpdatePoller now now' x)"
    "p_Namespace x = n \<Longrightarrow> plain_name n \<Longrightarrow> confined C (CreatePoller now x)"
    "confined C (UpdatePollerAdminState now n target name admin)"
  subgoal
    unfolding DeletePoller_def
    by (intro within_intros confined_exec apart_delete) (use assms in simp_all)
  subgoal
    unfolding UpdatePoller_def
    by (intro within_intros confined_stmt) (use assms in \<open>auto simp: Let_def intro!: apart_update\<close>)
  subgoal
    unfolding CreatePoller_def
    by (intro within_intros confined_stmt) (use assms in \<open>auto split: sum.splits intro: apart_insert\<close>)
  subgoal
    unfolding UpdatePollerAdminState_def
    by (intro confined_exec apart_update) (use assms in auto)
  done

lemma insert_dir_apart: "C n \<Longrightarrow> apart C D d \<Longrightarrow> apart C D (insert_dir now n path desc d)"
  by (auto simp: insert_dir_def apart_def others_def names_ok_def)

lemma make_dirs_confined: "C n \<Longrightarrow> confined C (make_dirs now n description cur parts)"
proof (induction parts arbitrary: cur)
  case Nil
  show ?case unfolding make_dirs.simps by (intro within_intros)
next
  case (Cons part parts)
  show ?case
    unfolding make_dirs.simps Let_def
    by (intro within_intros confined_exec insert_dir_apart Cons.IH Cons.prems)
qed

lemma delete_nodes_confined: "(\<And>n. P n \<Longrightarrow> C (tn_Namespace n)) \<Longrightarrow> confined C (delete_nodes P)"
  unfolding delete_nodes_def by (rule confined_stmt) (auto intro: apart_delete)

lemma tree_confined:
  assumes "C n"
  shows "confined C (CreateTreeDirectory now n path description)"
    "confined C (CreateTreeLink now n path name type linkRef)" "confined C (DeleteTreeNode n path recursive force)"
  subgoal
    unfolding CreateTreeDirectory_def Let_def by (intro within_intros make_dirs_confined assms)
  subgoal
    unfolding CreateTreeLink_def validateLinkRef_def TargetExists_def PollerExists_def Let_def
    by (intro within_intros confined_stmt) (use assms in \<open>auto split: sum.splits intro: apart_insert\<close>)
  subgoal
    unfolding DeleteTreeNode_def ListTreeChildren_def Let_def
    by (intro within_intros delete_nodes_confined) (use assms in auto)
  done

lemma count_or_zero_confined: "confined C (count_or_zero f)"
  by (simp add: keeps_def) (metis count_or_zero_works snd_conv)

lemma countSecretUsage_confined [within_intros]: "confined C (countSecretUsage n name)"
  unfolding countSecretUsage_def Let_def by (intro within_intros count_or_zero_confined)

lemma with_usage_confined [within_intros]: "confined C (with_usage x)"
proof -
  have "keeps (apart C D) (with_usage x)" for D
    using countSecretUsage_confined [of C "sx_Namespace x" "sx_Name x"]
    by (fastforce simp: keeps_def with_usage_def split: prod.splits sum.splits)
  then show ?thesis by blast
qed

lemma list_usage_confined: "confined C (list_usage rows)"
proof (induction rows)
  case Nil
  show ?case unfolding list_usage.simps by (intro within_intros)
next
  case (Cons r rows)
  show ?case unfolding list_usage.simps by (intro within_intros Cons.IH)
qed

lemma confined_sum [within_intros]:
  "(\<And>e. confined C (f e)) \<Longrightarrow> (\<And>x. confined C (g x)) \<Longrightarrow> confined C (case v of Inl e \<Rightarrow> f e | Inr x \<Rightarrow> g x)"
  by (simp split: sum.split)

lemma confined_case_key:
  "(\<And>k. keeps J (f k)) \<Longrightarrow> (\<And>s. m s = (case st_secretKey s of None \<Rightarrow> fail e s | Some k \<Rightarrow> f k s)) \<Longrightarrow> keeps J m"
  by (auto simp: keeps_def fail_def split: option.split)

lemma secrets_confined:
  assumes "C n"
  shows "confined C (CreateSecret seal nonce now n name type v)"
    "confined C (UpdateSecret seal nonce now n name v)" "confined C (DeleteSecret n name force)"
  subgoal
  proof
    fix D
    show "keeps (apart C D) (CreateSecret seal nonce now n name type v)"
      by (rule confined_case_key [OF _ CreateSecret_def], rule keeps_stmt)
        (use assms in \<open>auto split: sum.splits intro: apart_insert\<close>)
  qed
  subgoal
  proof
    fix D
    show "keeps (apart C D) (UpdateSecret seal nonce now n name v)"
      by (rule confined_case_key [OF _ UpdateSecret_def], intro keeps_bnd keeps_stmt)
        (use assms in \<open>auto simp: Let_def intro!: apart_update keeps_ret keeps_fail\<close>)
  qed
  subgoal
    unfolding DeleteSecret_def
    by (intro within_intros confined_stmt) (use assms in \<open>auto simp: Let_def intro!: apart_delete\<close>)
  done

lemma confined_prod [within_intros]: "(\<And>a b. confined C (f a b)) \<Longrightarrow> confined C (case v of (a, b) \<Rightarrow> f a b)"
  by (simp split: prod.split)

lemma reads_confined:
  "confined C (GetSecret n name)" "confined C (ListSecrets n)" "confined C (SecretExists n name)"
  "confined C (nsm_GetStats n)" "confined C (tm_GetStats n name)" "confined C (tree_ListChildren n path)"
  "confined C (GetSamples n t p limit since until)" "confined C (tm_ListFiltered n labels k cursor)"
  subgoal unfolding GetSecret_def by (intro within_intros)
  subgoal unfolding ListSecrets_def by (intro within_intros list_usage_confined)
  subgoal unfolding SecretExists_def by (intro within_intros)
  subgoal unfolding nsm_GetStats_def GetNamespaceStats_def by (intro within_intros)
  subgoal unfolding tm_GetStats_def GetTargetStats_def by (intro within_intros)
  subgoal unfolding tree_ListChildren_def ListTreeChildren_def Let_def by (intro within_intros)
  subgoal unfolding GetSamples_def by (intro within_intros)
  subgoal unfolding tm_ListFiltered_def ListTargetsFiltered_def by (intro within_intros)
  done

lemma resolve_cold_confined: "confined C (resolve_cold n t p)"
  unfolding resolve_cold_def GetServerConfig_def GetNamespace_def GetTarget_def GetPoller_def Let_def
  by (intro within_intros)

section \<open>Caches and store together\<close>

text \<open>The caches filed under their own keys.\<close>

definition ns_filed :: "NamespaceManager \<Rightarrow> bool" where
  "ns_filed c \<longleftrightarrow> (\<forall>k x. map_of c k = Some x \<longrightarrow> ns_Name x = k \<and> plain_name k)"

definition t_filed :: "TargetManager \<Rightarrow> bool" where
  "t_filed c \<longleftrightarrow> (\<forall>k x. map_of c k = Some x \<longrightarrow> k = targetKey (t_Namespace x) (t_Name x) \<and> plain_name (t_Namespace x))"

definition p_filed :: "(string, Poller) gomap \<Rightarrow> bool" where
  "p_filed c \<longleftrightarrow> (\<forall>k x. map_of c k = Some x \<longrightarrow> k = poller_str x \<and> plain_name (p_Namespace x))"

lemma filed_Nil: "ns_filed []" "t_filed []" "p_filed []"
  by (simp_all add: ns_filed_def t_filed_def p_filed_def)

lemma ns_filed_put: "ns_filed c \<Longrightarrow> ns_Name x = k \<Longrightarrow> plain_name k \<Longrightarrow> ns_filed (mput k x c)"
  by (simp add: ns_filed_def)

lemma ns_filed_del: "ns_filed c \<Longrightarrow> ns_filed (mdel k c)"
  by (simp add: ns_filed_def)

lemma t_filed_put: "t_filed c \<Longrightarrow> k = targetKey (t_Namespace x) (t_Name x) \<Longrightarrow> plain_name (t_Namespace x) \<Longrightarrow> t_filed (mput k x c)"
  by (simp add: t_filed_def)

lemma t_filed_del: "t_filed c \<Longrightarrow> t_filed (mdel k c)"
  by (simp add: t_filed_def)

lemma p_filed_put: "p_filed c \<Longrightarrow> k = poller_str x \<Longrightarrow> plain_name (p_Namespace x) \<Longrightarrow> p_filed (mput k x c)"
  by (simp add: p_filed_def)

lemma p_filed_del: "p_filed c \<Longrightarrow> p_filed (mdel k c)"
  by (simp add: p_filed_def)

lemma target_at: "t_filed c \<Longrightarrow> map_of c (targetKey n name) = Some x \<Longrightarrow> plain_name n \<Longrightarrow> t_Namespace x = n \<and> t_Name x = name"
  using append_sep_inject [of "CHR ''/''" "t_Namespace x" n "t_Name x" name]
  by (auto simp: t_filed_def targetKey_def)

lemma poller_at:
  assumes "p_filed c" "map_of c (pollerKey n t name) = Some x" "plain_name n"
  shows "p_Namespace x = n \<and> pollerKey n t name = poller_str x"
  using assms append_sep_inject [of "CHR ''/''" "p_Namespace x" n "p_Target x @ ''/'' @ p_Name x" "t @ ''/'' @ name"]
  by (fastforce simp: p_filed_def pollerKey_def)

text \<open>A cache operation that stays within \<open>C\<close>, and what holds of its result.\<close>

definition cache_op ::
    "(string \<Rightarrow> bool) \<Rightarrow> ('c \<Rightarrow> bool) \<Rightarrow> ('c \<Rightarrow> Store \<Rightarrow> 'a \<times> 'c \<times> Store) \<Rightarrow> ('a \<Rightarrow> bool) \<Rightarrow> bool" where
  "cache_op C F f P \<longleftrightarrow>
     (\<forall>D c s r c' s'. f c s = (r, c', s') \<longrightarrow> apart C D (st_db s) \<longrightarrow> F c \<longrightarrow>
        apart C D (st_db s') \<and> F c' \<and> P r)"

lemma confinedD: "confined C m \<Longrightarrow> m s = (r, s') \<Longrightarrow> apart C D (st_db s) \<Longrightarrow> apart C D (st_db s')"
  by (blast intro: keepsD)

lemma confinedE:
  assumes "confined C m" "apart C D (st_db s)"
  obtains r s' where "m s = (r, s')" "apart C D (st_db s')"
  using confinedD [OF assms(1) _ assms(2)] by (cases "m s") blast

lemma names_okD:
  assumes "apart C D (st_db s)"
  shows "sql_first (\<lambda>r. ns_Name r = n) (db_namespaces (st_db s)) = Some x \<Longrightarrow> ns_Name x = n \<and> plain_name n"
    and "sql_first (\<lambda>r. target_key r = (n, t)) (db_targets (st_db s)) = Some y \<Longrightarrow> target_key y = (n, t) \<and> plain_name n"
    and "sql_first (\<lambda>r. poller_key r = (n, t, p)) (db_pollers (st_db s)) = Some z \<Longrightarrow> poller_key z = (n, t, p) \<and> plain_name n"
  using assms by (auto simp: apart_def names_ok_def dest!: sql_first_Some)

lemma nsm_Get_op: "cache_op C ns_filed (nsm_Get n) (\<lambda>r. \<forall>x. r = Inr (Some x) \<longrightarrow> ns_Name x = n \<and> plain_name n)"
  unfolding cache_op_def
proof (intro allI impI, goal_cases)
  case (1 D c s r c' s')
  show ?case
  proof (cases "map_of c n")
    case (Some x)
    with 1 show ?thesis by (auto simp: nsm_Get_def ns_filed_def)
  next
    case None
    obtain q s1 where g: "GetNamespace n s = (q, s1)" by fastforce
    note d = GetNamespace_db(1) [OF g]
    show ?thesis
    proof (cases q)
      case (Inl e)
      with 1 None g d show ?thesis by (auto simp: nsm_Get_def)
    next
      case (Inr v)
      have v: "v = map_option read_Namespace (sql_first (\<lambda>r. ns_Name r = n) (db_namespaces (st_db s)))"
        using GetNamespace_db(2) [OF g] Inr by blast
      have key: "ns_Name x = n \<and> plain_name n" if x: "v = Some x" for x
      proof -
        from v [symmetric, unfolded x map_option_eq_Some] obtain y where y: "sql_first (\<lambda>r. ns_Name r = n) (db_namespaces (st_db s)) = Some y" "x = read_Namespace y"
          by blast
        from names_okD(1) [OF 1(2) y(1)] show ?thesis by (simp add: y(2))
      qed
      have step: "nsm_Get n c s = (case v of None \<Rightarrow> (Inr None, c, s1) | Some x \<Rightarrow> (Inr (Some x), mput n x c, s1))"
        by (simp add: nsm_Get_def None g Inr split: option.split)
      have filed: "v = Some x \<Longrightarrow> ns_filed (mput n x c)" for x
        using ns_filed_put [OF 1(3)] key by blast
      have a: "apart C D (st_db s1)" using 1(2) by (simp add: d)
      show ?thesis
      proof (cases v)
        case None
        with step 1(1) have "r = Inr None" "c' = c" "s' = s1" by simp_all
        with a 1(3) show ?thesis by simp
      next
        case (Some x)
        with step 1(1) have "r = Inr (Some x)" "c' = mput n x c" "s' = s1" by simp_all
        with a filed [OF Some] key [OF Some] show ?thesis by simp
      qed
    qed
  qed
qed

lemma tm_Get_op: "plain_name n \<Longrightarrow> cache_op C t_filed (tm_Get n t)
    (\<lambda>r. \<forall>x. r = Inr (Some x) \<longrightarrow> t_Namespace x = n \<and> t_Name x = t)"
  unfolding cache_op_def
proof (intro allI impI, goal_cases)
  case (1 D c s r c' s')
  show ?case
  proof (cases "map_of c (targetKey n t)")
    case (Some x)
    with 1 target_at [OF 1(4) Some 1(1)] show ?thesis by (auto simp: tm_Get_def)
  next
    case None
    obtain q s1 where g: "GetTarget n t s = (q, s1)" by fastforce
    note d = GetTarget_db(1) [OF g]
    show ?thesis
    proof (cases q)
      case (Inl e)
      with 1 None g d show ?thesis by (auto simp: tm_Get_def)
    next
      case (Inr v)
      have v: "v = map_option read_Target (sql_first (\<lambda>r. target_key r = (n, t)) (db_targets (st_db s)))"
        using GetTarget_db(2) [OF g] Inr by blast
      have key: "target_key x = (n, t)" if x: "v = Some x" for x
      proof -
        from v [symmetric, unfolded x map_option_eq_Some] obtain y where y: "sql_first (\<lambda>r. target_key r = (n, t)) (db_targets (st_db s)) = Some y" "x = read_Target y"
          by blast
        from names_okD(2) [OF 1(3) y(1)] show ?thesis by (simp add: y(2))
      qed
      have step: "tm_Get n t c s =
          (case v of None \<Rightarrow> (Inr None, c, s1) | Some x \<Rightarrow> (Inr (Some x), mput (targetKey n t) x c, s1))"
        by (simp add: tm_Get_def None g Inr split: option.split)
      have filed: "v = Some x \<Longrightarrow> t_filed (mput (targetKey n t) x c)" for x
        using t_filed_put [OF 1(4)] key 1(1) by auto
      have a: "apart C D (st_db s1)" using 1(3) by (simp add: d)
      show ?thesis
      proof (cases v)
        case None
        with step 1(2) have "r = Inr None" "c' = c" "s' = s1" by simp_all
        with a 1(4) show ?thesis by simp
      next
        case (Some x)
        with step 1(2) have "r = Inr (Some x)" "c' = mput (targetKey n t) x c" "s' = s1" by simp_all
        with a filed [OF Some] key [OF Some] show ?thesis by simp
      qed
    qed
  qed
qed

text \<open>Most operations ask the store once and then file what it returned.\<close>

definition stays :: "(string \<Rightarrow> bool) \<Rightarrow> ('c \<Rightarrow> bool) \<Rightarrow> 'c \<Rightarrow> Store \<Rightarrow> 'a \<times> 'c \<times> Store \<Rightarrow> bool" where
  "stays C F c s out \<longleftrightarrow> (\<forall>D. apart C D (st_db s) \<longrightarrow> F c \<longrightarrow>
     (case out of (r, c', s') \<Rightarrow> apart C D (st_db s') \<and> F c'))"

abbreviation cache_stays :: "(string \<Rightarrow> bool) \<Rightarrow> ('c \<Rightarrow> bool) \<Rightarrow> ('c \<Rightarrow> Store \<Rightarrow> 'a \<times> 'c \<times> Store) \<Rightarrow> bool" where
  "cache_stays C F f \<equiv> cache_op C F f (\<lambda>_. True)"

lemma cache_opI: "(\<And>c s. F c \<Longrightarrow> stays C F c s (f c s)) \<Longrightarrow> cache_stays C F f"
  by (fastforce simp: cache_op_def stays_def)

lemma stays_same: "stays C F c s (r, c, s)"
  by (simp add: stays_def)

lemma stays_if: "(b \<Longrightarrow> stays C F c s x) \<Longrightarrow> (\<not> b \<Longrightarrow> stays C F c s y) \<Longrightarrow> stays C F c s (if b then x else y)"
  by simp

lemma stays_store:
  assumes "confined C g" "F c1" "\<And>x s s'. g s = (Inr x, s') \<Longrightarrow> F (k x)"
  shows "stays C F c s (case g s of (Inl e, s') \<Rightarrow> (Inl e, c1, s') | (Inr x, s') \<Rightarrow> (Inr (h x), k x, s'))"
proof -
  obtain r s' where g: "g s = (r, s')" by fastforce
  show ?thesis
    using confinedD [OF assms(1) g] assms(2) assms(3) [of s _ s'] g by (cases r) (simp_all add: stays_def)
qed

lemma returned_name:
  "CreateNamespace now now' ns s = (Inr x, s') \<Longrightarrow> ns_Name x = ns_Name ns"
  "UpdateNamespace now now' ns s = (Inr x, s') \<Longrightarrow> ns_Name x = ns_Name ns"
  "CreateTarget now now' t s = (Inr y, s') \<Longrightarrow> target_key y = target_key t"
  "UpdateTarget now now' t s = (Inr y, s') \<Longrightarrow> target_key y = target_key t"
  "CreatePoller now p s = (Inr z, s') \<Longrightarrow> poller_key z = poller_key p"
  "UpdatePoller now now' p s = (Inr z, s') \<Longrightarrow> poller_key z = poller_key p"
  by (auto dest!: runsD [OF runs_CreateNamespace] runsD [OF runs_UpdateNamespace] runsD [OF runs_CreateTarget]
      runsD [OF runs_UpdateTarget] runsD [OF runs_CreatePoller] runsD [OF runs_UpdatePoller])

lemma isValidName_plain: "isValidName n \<Longrightarrow> plain_name n"
  using isValidName_free by blast

lemma nsm_Create_op: "C (ns_Name ns) \<Longrightarrow> cache_stays C ns_filed (nsm_Create now now' ns)"
  unfolding nsm_Create_def
  by (intro cache_opI stays_if stays_same stays_store namespaces_confined)
    (auto dest: isValidName_plain returned_name(1) intro: ns_filed_put)

lemma nsm_Update_op:
  assumes "C n" "ns_Name x = n" "plain_name n"
  shows "cache_stays C ns_filed (\<lambda>m s. nsm_Update now now' x (mput n x m) s)"
proof (rule cache_opI)
  fix c s
  assume f: "ns_filed c"
  have step: "nsm_Update now now' x (mput n x c) s = (case UpdateNamespace now now' (x\<lparr>ns_Version := ns_Version x\<rparr>) s of
      (Inl e, s') \<Rightarrow> (Inl e, mput n x c, s') | (Inr ns', s') \<Rightarrow> (Inr ns', mput (ns_Name x) ns' (mput n x c), s'))"
    by (simp add: nsm_Update_def assms(2))
  show "stays C ns_filed c s (nsm_Update now now' x (mput n x c) s)"
    unfolding step
    by (rule stays_store [where h = "\<lambda>x. x", OF namespaces_confined(2) [where C = C and n = n, OF assms(1)]])
      (use assms f in \<open>auto intro!: ns_filed_put dest: returned_name(2)\<close>)
qed

lemma nsm_Delete_op: "C n \<Longrightarrow> cache_stays C ns_filed (nsm_Delete n force)"
proof (rule cache_opI)
  fix c s
  assume n: "C n" and f: "ns_filed c"
  have "stays C ns_filed c s (case DeleteNamespace n force s of (Inl e, s') \<Rightarrow> (Inl e, c, s') | (Inr x, s') \<Rightarrow> (Inr x, mdel n c, s'))"
    by (rule stays_store [where h = "\<lambda>x. x", OF namespaces_confined(1) [where C = C and n = n, OF n]]) (simp_all add: f ns_filed_del)
  then show "stays C ns_filed c s (nsm_Delete n force c s)"
    by (simp add: nsm_Delete_def Let_def stays_same split: option.split)
qed

lemma tm_Create_op:
  "C (t_Namespace t) \<Longrightarrow> plain_name (t_Namespace t) \<Longrightarrow> cache_stays C t_filed (tm_Create now now' t)"
  unfolding tm_Create_def Let_def
  by (intro cache_opI stays_if stays_same stays_store [where h = "\<lambda>x. x"] targets_confined)
    (auto dest!: returned_name(3) intro!: t_filed_put)

lemma tm_Update_op:
  assumes "C n" "target_key x = (n, t)" "plain_name n"
  shows "cache_stays C t_filed (\<lambda>m s. tm_Update now now' x (mput (targetKey n t) x m) s)"
proof (rule cache_opI)
  fix c s
  assume f: "t_filed c"
  have step: "tm_Update now now' x (mput (targetKey n t) x c) s = (case UpdateTarget now now' (x\<lparr>t_Version := t_Version x\<rparr>) s of
      (Inl e, s') \<Rightarrow> (Inl e, mput (targetKey n t) x c, s')
    | (Inr t', s') \<Rightarrow> (Inr t', mput (targetKey n t) t' (mput (targetKey n t) x c), s'))"
    using assms(2) by (simp add: tm_Update_def Let_def)
  show "stays C t_filed c s (tm_Update now now' x (mput (targetKey n t) x c) s)"
    unfolding step
    by (rule stays_store [where h = "\<lambda>x. x", OF targets_confined(2) [where C = C and n = n, OF assms(1)]])
      (use assms f in \<open>auto intro!: t_filed_put dest!: returned_name(4)\<close>)
qed

lemma tm_Delete_op: "C n \<Longrightarrow> cache_stays C t_filed (tm_Delete n t force)"
proof (rule cache_opI)
  fix c s
  assume n: "C n" and f: "t_filed c"
  have "stays C t_filed c s (case DeleteTarget n t force s of (Inl e, s') \<Rightarrow> (Inl e, c, s') | (Inr x, s') \<Rightarrow> (Inr x, mdel (targetKey n t) c, s'))"
    by (rule stays_store [where h = "\<lambda>x. x", OF targets_confined(1) [where C = C and n = n, OF n]]) (simp_all add: f t_filed_del)
  then show "stays C t_filed c s (tm_Delete n t force c s)"
    by (simp add: tm_Delete_def Let_def stays_same split: option.split)
qed

lemma tm_SetLabels_op:
  assumes "C n" "plain_name n"
  shows "cache_stays C t_filed (tm_SetLabels now now' n t labels)"
proof (rule cache_opI)
  fix c s
  assume f: "t_filed c"
  show "stays C t_filed c s (tm_SetLabels now now' n t labels c s)"
  proof (cases "map_of c (targetKey n t)")
    case None
    then show ?thesis by (simp add: tm_SetLabels_def Let_def stays_same)
  next
    case (Some x)
    let ?x = "x\<lparr>t_Labels := labels\<rparr>"
    have key: "t_Namespace x = n \<and> t_Name x = t" using target_at [OF f Some assms(2)] .
    have step: "tm_SetLabels now now' n t labels c s = (case UpdateTarget now now' ?x s of
        (Inl e, s') \<Rightarrow> (Inl e, mput (targetKey n t) ?x c, s')
      | (Inr t', s') \<Rightarrow> (Inr ((\<lambda>_. ()) t'), mput (targetKey n t) t' (mput (targetKey n t) ?x c), s'))"
      by (simp add: tm_SetLabels_def Let_def Some)
    show ?thesis
      unfolding step
      by (rule stays_store [where h = "\<lambda>_. ()", OF targets_confined(2) [where C = C and n = n, OF assms(1)]])
        (use assms f key in \<open>auto intro!: t_filed_put dest!: returned_name(4)\<close>)
  qed
qed

lemma tree_op:
  assumes "C n"
  shows "cache_stays C (\<lambda>_. True) (tree_CreateDirectory now n path description)"
    "cache_stays C (\<lambda>_. True) (tree_CreateLink now n path name type linkRef)"
    "cache_stays C (\<lambda>_. True) (tree_Delete n path recursive force)"
    "cache_stays C (\<lambda>_. True) (ResolvePath n path)"
  subgoal
    unfolding tree_CreateDirectory_def Let_def
    by (intro cache_opI stays_store [where h = "\<lambda>_. ()", OF tree_confined(1) [where C = C and n = n, OF assms]]) auto
  subgoal
    unfolding cache_op_def tree_CreateLink_def Let_def
    by (auto split: prod.splits sum.splits if_splits
        dest: confinedD [OF tree_confined(1) [where C = C and n = n, OF assms]]
          confinedD [OF tree_confined(2) [where C = C and n = n, OF assms]])
  subgoal
    unfolding tree_Delete_def Let_def
    by (intro cache_opI stays_store [where h = "\<lambda>x. x", OF tree_confined(3) [where C = C and n = n, OF assms]]) auto
  subgoal
    unfolding cache_op_def ResolvePath_def tree_Get_def Let_def
    by (auto split: prod.splits sum.splits option.splits dest: GetTreeNode_db(1))
  done

section \<open>The poller manager\<close>

definition pheld :: "(string \<Rightarrow> bool) \<Rightarrow> DB \<Rightarrow> PollerManager \<Rightarrow> bool" where
  "pheld C D m \<longleftrightarrow> apart C D (st_db (pm_store m)) \<and> p_filed (pm_pollers m)"

lemma pheld_fields [simp]:
  "pheld C D (m\<lparr>pm_states := x1\<rparr>) = pheld C D m" "pheld C D (m\<lparr>pm_stats := x2\<rparr>) = pheld C D m"
  "pheld C D (m\<lparr>pm_resolver := x3\<rparr>) = pheld C D m" "pheld C D (m\<lparr>pm_calls := x4\<rparr>) = pheld C D m"
  "pheld C D (m\<lparr>pm_wired := x5\<rparr>) = pheld C D m" "pheld C D (m\<lparr>pm_byNamespace := x6\<rparr>) = pheld C D m"
  "pheld C D (m\<lparr>pm_byTarget := x7\<rparr>) = pheld C D m" "pheld C D (call_back c m) = pheld C D m"
  "pheld C D (addToIndexes a b k m) = pheld C D m" "pheld C D (removeFromIndexes a b k m) = pheld C D m"
  by (simp_all add: pheld_def call_back_def addToIndexes_def removeFromIndexes_def)

lemma pheld_put: "pheld C D m \<Longrightarrow> k = poller_str x \<Longrightarrow> plain_name (p_Namespace x) \<Longrightarrow>
    pheld C D (m\<lparr>pm_pollers := mput k x (pm_pollers m)\<rparr>)"
  by (simp add: pheld_def p_filed_put)

lemma pheld_del: "pheld C D m \<Longrightarrow> pheld C D (m\<lparr>pm_pollers := mdel k (pm_pollers m)\<rparr>)"
  by (simp add: pheld_def p_filed_del)

lemma on_store_pheld:
  assumes "on_store g m = (r, m')" "confined C g" "pheld C D m"
  shows "pheld C D m'" "\<exists>s'. g (pm_store m) = (r, s')" "pm_pollers m' = pm_pollers m"
  using assms confinedD [OF assms(2), of "pm_store m"] by (auto simp: on_store_def pheld_def split: prod.splits)

lemma on_state_pheld: "on_state q f m = (r, m') \<Longrightarrow> pheld C D m' = pheld C D m"
  by (auto simp: on_state_def split: prod.splits sum.splits)

lemma pm_GetState_pheld: "pm_GetState n t p m = (r, m') \<Longrightarrow> pheld C D m' = pheld C D m"
  by (auto simp: pm_GetState_def split: prod.splits)

lemma pm_GetStats_pheld: "pm_GetStats n t p m = (r, m') \<Longrightarrow> pheld C D m' = pheld C D m"
  by (auto simp: pm_GetStats_def split: prod.splits)

lemma Resolve_apart:
  assumes "Resolve now now' n t p r s = (x, r', s')" "apart C D (st_db s)"
  shows "apart C D (st_db s')"
  using assms confinedD [OF resolve_cold_confined, where s = s]
  by (auto simp: Resolve_def Let_def split: option.splits prod.splits sum.splits if_splits)

lemma pm_GetResolvedConfig_pheld:
  "pm_GetResolvedConfig now now' n t p m = (r, m') \<Longrightarrow> pheld C D m \<Longrightarrow> pheld C D m'"
  by (auto simp: pm_GetResolvedConfig_def pheld_def split: prod.splits dest: Resolve_apart)

lemma getEffectiveInterval_pheld:
  "getEffectiveInterval now now' p m = (r, m') \<Longrightarrow> pheld C D m \<Longrightarrow> pheld C D m' \<and> pm_pollers m' = pm_pollers m"
  by (auto simp: getEffectiveInterval_def pheld_def split: prod.splits option.splits dest: Resolve_apart)

lemma GetPoller_confined: "confined C (GetPoller n t p)"
  unfolding GetPoller_def by (intro within_intros)

lemma GetPoller_key:
  assumes "GetPoller n t p s = (Inr (Some x), s')"
  shows "poller_key x = (n, t, p)"
proof -
  have "Some x = map_option read_Poller (sql_first (\<lambda>r. poller_key r = (n, t, p)) (db_pollers (st_db s)))"
    using query_result(2) [OF assms [unfolded GetPoller_def]] by blast
  from this [symmetric, unfolded map_option_eq_Some]
  obtain y where "sql_first (\<lambda>r. poller_key r = (n, t, p)) (db_pollers (st_db s)) = Some y" "x = read_Poller y" by blast
  then show ?thesis by (auto dest!: sql_first_Some simp: read_Poller_def)
qed

lemma pm_Get_pheld:
  assumes "pm_Get n t p m = (r, m')" "pheld C D m" "plain_name n"
  shows "pheld C D m' \<and> (\<forall>x. r = Inr (Some x) \<longrightarrow> p_Namespace x = n \<and> pollerKey n t p = poller_str x)"
proof (cases "map_of (pm_pollers m) (pollerKey n t p)")
  case (Some x)
  moreover have "p_Namespace x = n \<and> pollerKey n t p = poller_str x"
    using poller_at [OF _ Some assms(3)] assms(2) by (simp add: pheld_def)
  ultimately show ?thesis using assms(1,2) by (auto simp: pm_Get_def Let_def)
next
  case None
  obtain q m1 where g: "on_store (GetPoller n t p) m = (q, m1)" by fastforce
  note g' = on_store_pheld [OF g GetPoller_confined assms(2)]
  show ?thesis
  proof (cases "\<exists>x. q = Inr (Some x)")
    case True
    then obtain x where x: "q = Inr (Some x)" by blast
    have key: "poller_key x = (n, t, p)" using g'(2) x GetPoller_key by blast
    have "r = Inr (Some x)" "m' = m1\<lparr>pm_pollers := mput (pollerKey n t p) x (pm_pollers m1)\<rparr>"
      using assms(1) None g x by (auto simp: pm_Get_def)
    with key pheld_put [OF g'(1), of "pollerKey n t p" x] assms(3) show ?thesis by auto
  next
    case False
    with assms(1) None g g'(1) show ?thesis
      by (auto simp: pm_Get_def split: sum.splits option.splits)
  qed
qed

lemma pm_Create_pheld:
  assumes "pm_Create now p m = (r, m')" "pheld C D m" "C (p_Namespace p)" "plain_name (p_Namespace p)"
  shows "pheld C D m'"
proof -
  define q where "q = (if p_AdminState p = [] then p\<lparr>p_AdminState := AdminStateDisabled\<rparr> else p)"
  have q: "poller_key q = poller_key p" by (simp add: q_def)
  obtain w m1 where c: "on_store (CreatePoller now q) m = (w, m1)" by fastforce
  have "confined C (CreatePoller now q)"
    using pollers_confined(3) [where C = C and n = "p_Namespace p", OF assms(3)] q assms(4) by simp
  note h = on_store_pheld [OF c this assms(2)]
  consider "m' = m" | "m' = m1" "\<exists>e. w = Inl e" | x where "w = Inr x"
      "pheld C D m' = pheld C D (m1\<lparr>pm_pollers := mput (poller_str p) x (pm_pollers m1)\<rparr>)"
    using assms(1) unfolding pm_Create_def Let_def q_def [symmetric] c
    by (auto split: if_splits sum.splits)
  then show ?thesis
  proof cases
    case 3
    obtain s' where "CreatePoller now q (pm_store m) = (Inr x, s')" using h(2) 3(1) by blast
    from returned_name(5) [OF this] q have "poller_key x = poller_key p" by simp
    with 3 pheld_put [OF h(1), of "poller_str p" x] assms(4) show ?thesis by simp
  qed (use h(1) assms(2) in simp_all)
qed

lemma pm_Update_pheld:
  assumes "pm_Update now now' p (write_cached (poller_str p) p m) = (r, m')" "pheld C D m" "C (p_Namespace p)"
    "plain_name (p_Namespace p)"
  shows "pheld C D m'"
proof -
  let ?m = "write_cached (poller_str p) p m"
  have at: "map_of (pm_pollers ?m) (poller_str p) = Some p" by (simp add: write_cached_def)
  have m: "pheld C D ?m" using pheld_put [OF assms(2) refl assms(4)] by (simp add: write_cached_def)
  obtain i m1 where i: "getEffectiveInterval now now' p ?m = (i, m1)" by fastforce
  have m1: "pheld C D m1" using getEffectiveInterval_pheld [OF i m] by blast
  obtain w m2 where u: "on_store (UpdatePoller now now' p) m1 = (w, m2)" by fastforce
  have "confined C (UpdatePoller now now' p)"
    using pollers_confined(2) [where C = C and n = "p_Namespace p", OF assms(3)] by simp
  note h = on_store_pheld [OF u this m1]
  show ?thesis
  proof (cases w)
    case (Inl e)
    with assms(1) at i u h(1) show ?thesis by (simp add: pm_Update_def Let_def)
  next
    case (Inr x)
    have key: "poller_key x = poller_key p" using h(2) Inr returned_name(6) by blast
    let ?m3 = "m2\<lparr>pm_pollers := mput (poller_str p) x (pm_pollers m2)\<rparr>"
    have m3: "pheld C D ?m3" by (rule pheld_put [OF h(1)]) (use key assms(4) in simp_all)
    obtain j m4 where j: "getEffectiveInterval now now' x ?m3 = (j, m4)" by fastforce
    have m4: "pheld C D m4" using getEffectiveInterval_pheld [OF j m3] by blast
    show ?thesis
      using assms(1) at i u j m4 Inr by (auto simp: pm_Update_def Let_def split: if_splits)
  qed
qed

lemma pm_Delete_pheld:
  assumes "pm_Delete n t p m = (r, m')" "pheld C D m" "C n"
  shows "pheld C D m'"
proof (cases "map_of (pm_pollers m) (pollerKey n t p)")
  case None
  with assms(1,2) show ?thesis by (simp add: pm_Delete_def Let_def)
next
  case (Some x)
  obtain w m1 where d: "on_store (DeletePoller n t p) (call_back (PollerDeleted n t p) m) = (w, m1)" by fastforce
  have "pheld C D (call_back (PollerDeleted n t p) m)" using assms(2) by simp
  note h = on_store_pheld [OF d pollers_confined(1) [where C = C and n = n, OF assms(3)] this]
  show ?thesis
    using assms(1) Some d h(1) by (cases w) (auto simp: pm_Delete_def Let_def intro!: pheld_del)
qed

lemma set_admin_pheld:
  assumes "set_admin now admin f n t p m = (r, m')" "pheld C D m" "C n" "plain_name n"
  shows "pheld C D m'"
proof (cases "map_of (pm_pollers m) (pollerKey n t p)")
  case None
  with assms(1,2) show ?thesis by (simp add: set_admin_def Let_def)
next
  case (Some x)
  let ?x = "x\<lparr>p_AdminState := admin\<rparr>"
  let ?m1 = "m\<lparr>pm_pollers := mput (pollerKey n t p) ?x (pm_pollers m)\<rparr>"
  have key: "p_Namespace x = n \<and> pollerKey n t p = poller_str x"
    using poller_at [OF _ Some assms(4)] assms(2) by (simp add: pheld_def)
  have m1: "pheld C D ?m1" by (rule pheld_put [OF assms(2)]) (use key assms(4) in auto)
  obtain w m2 where u: "on_store (UpdatePollerAdminState now n t p admin) ?m1 = (w, m2)" by fastforce
  note h = on_store_pheld [OF u pollers_confined(4) [where C = C and n = n, OF assms(3)] m1]
  show ?thesis
  proof (cases w)
    case (Inl e)
    with assms(1) Some u h(1) show ?thesis by (simp add: set_admin_def Let_def)
  next
    case (Inr y)
    with assms(1) Some u have "on_state (n, t, p) f m2 = (r, m')" by (simp add: set_admin_def Let_def)
    from on_state_pheld [OF this] h(1) show ?thesis by blast
  qed
qed

end
