(* ===== verification/Tenants.thy ===== *)
theory Tenants
  imports Confinement
begin

text \<open>
  From the statements and the caches to the requests. \<open>fine C h out P\<close>: the outcome of a part of a
  handler, run in \<open>h\<close>, keeps the rows outside \<open>C\<close>, the caches filed and who is bound to what, and its
  result satisfies \<open>P\<close>. The rules follow the shape of the handlers; \<open>permits\<close> is what a request may
  rely on about its session.
\<close>

section \<open>The handler's state\<close>

definition held :: "(string \<Rightarrow> bool) \<Rightarrow> DB \<Rightarrow> Manager \<Rightarrow> bool" where
  "held C D m \<longleftrightarrow> pheld C D (mg_Pollers m) \<and> ns_filed (mg_Namespaces m) \<and> t_filed (mg_Targets m)"

text \<open>The tokens, and the token and the namespace of each session.\<close>

definition auth :: "SessionManager \<Rightarrow> (string, TokenConfig) gomap \<times> (sptr \<Rightarrow> string \<times> string)" where
  "auth m = (sg_tokens m, \<lambda>x. (sn_TokenID (deref m x), sn_Namespace (deref m x)))"

definition access :: "SessionManager \<Rightarrow> sptr \<Rightarrow> string \<Rightarrow> bool" where
  "access m x n \<longleftrightarrow> CanAccessNamespace (sn_TokenID (deref m x)) n m"

text \<open>A session is bound to a namespace its token may use.\<close>

definition bound_ok :: "SessionManager \<Rightarrow> bool" where
  "bound_ok m \<longleftrightarrow> (\<forall>x n. sn_Namespace (deref m x) = n \<longrightarrow> n \<noteq> [] \<longrightarrow> plain_name n \<and> access m x n)"

lemma auth_eqD:
  assumes "auth m = auth m'"
  shows "sn_Namespace (deref m x) = sn_Namespace (deref m' x)" "sn_TokenID (deref m x) = sn_TokenID (deref m' x)"
    "sg_tokens m = sg_tokens m'"
  using assms by (auto simp: auth_def dest: fun_cong [where x = x])

lemma access_auth: "auth m = auth m' \<Longrightarrow> access m x n = access m' x n"
  using auth_eqD(1,2) [of m m' x] auth_eqD(3) [of m m'] by (simp add: access_def CanAccessNamespace_def)

lemma bound_ok_auth: "auth m = auth m' \<Longrightarrow> bound_ok m = bound_ok m'"
  using auth_eqD(1) [of m m'] access_auth [of m m'] by (simp add: bound_ok_def)

definition fine :: "(string \<Rightarrow> bool) \<Rightarrow> Handler \<Rightarrow> 'a \<times> Handler \<Rightarrow> ('a \<Rightarrow> bool) \<Rightarrow> bool" where
  "fine C h out P \<longleftrightarrow> (\<forall>D. held C D (h_mgr h) \<longrightarrow>
     held C D (h_mgr (snd out)) \<and> auth (h_sessionManager (snd out)) = auth (h_sessionManager h) \<and> P (fst out))"

abbreviation fair :: "(string \<Rightarrow> bool) \<Rightarrow> Handler \<Rightarrow> 'a \<times> Handler \<Rightarrow> bool" where
  "fair C h out \<equiv> fine C h out (\<lambda>_. True)"

lemma fine_ret: "P r \<Longrightarrow> fine C h (r, h) P"
  by (simp add: fine_def)

lemma fine_weaken: "fine C h out P \<Longrightarrow> fair C h out"
  by (simp add: fine_def)

lemma fine_case:
  assumes "fine C h out Q" "\<And>r h1. Q r \<Longrightarrow> auth (h_sessionManager h1) = auth (h_sessionManager h) \<Longrightarrow> fine C h1 (k r h1) P"
  shows "fine C h (case out of (r, h1) \<Rightarrow> k r h1) P"
proof -
  obtain r h1 where o: "out = (r, h1)" by fastforce
  have "held C D (h_mgr (snd (k r h1))) \<and>
      auth (h_sessionManager (snd (k r h1))) = auth (h_sessionManager h) \<and> P (fst (k r h1))"
    if d: "held C D (h_mgr h)" for D
  proof -
    have h1: "held C D (h_mgr h1)" "auth (h_sessionManager h1) = auth (h_sessionManager h)" "Q r"
      using assms(1) d unfolding fine_def o by simp_all
    from assms(2) [OF h1(3,2)] h1(1,2) show ?thesis unfolding fine_def by simp
  qed
  then show ?thesis unfolding fine_def o by simp
qed

lemma fair_case [within_intros]:
  assumes "fair C h out" "\<And>r h1. fine C h1 (k r h1) P"
  shows "fine C h (case out of (r, h1) \<Rightarrow> k r h1) P"
  by (rule fine_case [OF assms(1)]) (rule assms(2))

lemma fair_splits [within_intros]:
  "(\<And>e. v = Inl e \<Longrightarrow> fine C h (f e) P) \<Longrightarrow> (\<And>x. v = Inr x \<Longrightarrow> fine C h (g x) P) \<Longrightarrow>
     fine C h (case v of Inl e \<Rightarrow> f e | Inr x \<Rightarrow> g x) P"
  "(w = None \<Longrightarrow> fine C h a P) \<Longrightarrow> (\<And>x. w = Some x \<Longrightarrow> fine C h (b x) P) \<Longrightarrow>
     fine C h (case w of None \<Rightarrow> a | Some x \<Rightarrow> b x) P"
  "fine C h a' P \<Longrightarrow> fine C h b' P \<Longrightarrow> fine C h (if c then a' else b') P"
  by (auto split: sum.split option.split)

lemma fair_tuple [within_intros]:
  "(\<And>a b. fine C h (f a b) P) \<Longrightarrow> fine C h (case v of (a, b) \<Rightarrow> f a b) P"
  by (simp split: prod.split)

lemma fair_let [within_intros]: "(\<And>x. fine C h (f x) P) \<Longrightarrow> fine C h (let x = v in f x) P"
  by simp

lemma fair_ret [within_intros]: "fair C h (r, h)"
  by (simp add: fine_def)

lemma fair_or_nil [within_intros]: "fair C h out \<Longrightarrow> fair C h (or_nil out)"
  by (cases out, cases "fst out") (simp_all add: fine_def or_nil_def)

lemma fair_for_each [within_intros]: "(\<And>x h. fair C h (f x h)) \<Longrightarrow> fair C h (for_each f xs h)"
proof (induction xs arbitrary: h)
  case Nil
  show ?case unfolding for_each.simps by (rule fair_ret)
next
  case (Cons x xs)
  show ?case unfolding for_each.simps by (intro within_intros Cons)
qed

lemma fair_foldl:
  assumes "\<And>r h x. fair C h (f (r, h) x)"
  shows "fair C h (foldl f (r, h) xs)"
proof (induction xs arbitrary: r h)
  case Nil
  show ?case by (simp add: fair_ret)
next
  case (Cons x xs)
  have "fair C h (case f (r, h) x of (r1, h1) \<Rightarrow> foldl f (r1, h1) xs)"
    by (intro within_intros assms Cons.IH)
  then show ?case by simp
qed

section \<open>Calls into the managers\<close>

lemma on_mgr_fine:
  assumes "\<And>D. held C D (h_mgr h) \<Longrightarrow> held C D (snd (f (h_mgr h))) \<and> P (fst (f (h_mgr h)))"
  shows "fine C h (on_mgr f h) P"
  using assms by (auto simp: fine_def on_mgr_def split: prod.split)

lemma on_pm_fine:
  assumes "\<And>D m r m'. f m = (r, m') \<Longrightarrow> pheld C D m \<Longrightarrow> pheld C D m' \<and> P r"
  shows "fine C h (on_pm f h) P"
  by (rule on_mgr_fine) (use assms in \<open>auto simp: on_pollers_def held_def split: prod.split\<close>)

lemma pheld_store: "pheld C D (p\<lparr>pm_store := s\<rparr>) \<longleftrightarrow> apart C D (st_db s) \<and> p_filed (pm_pollers p)"
  by (simp add: pheld_def)

lemma on_ns_fine:
  assumes "cache_op C ns_filed f P"
  shows "fine C h (on_ns f h) P"
proof -
  obtain r ns s where f: "f (mg_Namespaces (h_mgr h)) (mg_store (h_mgr h)) = (r, ns, s)" by (metis prod_cases3)
  have "held C D (h_mgr h) \<Longrightarrow> apart C D (st_db s) \<and> ns_filed ns \<and> P r" for D
    using assms [unfolded cache_op_def, rule_format, OF f, of D] by (simp add: held_def pheld_def)
  then show ?thesis
    unfolding on_ns_def by (intro on_mgr_fine) (auto simp: f set_store_def held_def pheld_def)
qed

lemma on_targets_fine:
  assumes "cache_op C t_filed f P"
  shows "fine C h (on_targets f h) P"
proof -
  obtain r ts s where f: "f (mg_Targets (h_mgr h)) (mg_store (h_mgr h)) = (r, ts, s)" by (metis prod_cases3)
  have "held C D (h_mgr h) \<Longrightarrow> apart C D (st_db s) \<and> t_filed ts \<and> P r" for D
    using assms [unfolded cache_op_def, rule_format, OF f, of D] by (simp add: held_def pheld_def)
  then show ?thesis
    unfolding on_targets_def by (intro on_mgr_fine) (auto simp: f set_store_def held_def pheld_def)
qed

lemma on_tree_fair:
  assumes "cache_stays C (\<lambda>_. True) f"
  shows "fair C h (on_tree f h)"
proof -
  obtain r t s where f: "f (mg_Tree (h_mgr h)) (mg_store (h_mgr h)) = (r, t, s)" by (metis prod_cases3)
  have "held C D (h_mgr h) \<Longrightarrow> apart C D (st_db s)" for D
    using assms [unfolded cache_op_def, rule_format, OF f, of D] by (simp add: held_def pheld_def)
  then show ?thesis
    unfolding on_tree_def by (intro on_mgr_fine) (auto simp: f set_store_def held_def pheld_def)
qed

lemma on_sql_fair:
  assumes "confined C f"
  shows "fair C h (on_sql f h)"
proof -
  obtain r s where f: "f (mg_store (h_mgr h)) = (r, s)" by fastforce
  have "held C D (h_mgr h) \<Longrightarrow> apart C D (st_db s)" for D
    using confinedD [OF assms f, of D] by (simp add: held_def pheld_def)
  then show ?thesis
    unfolding on_sql_def by (intro on_mgr_fine) (auto simp: f set_store_def held_def pheld_def)
qed

lemma reads_fair [within_intros]:
  "fair C h (on_sql (GetSecret n name) h)" "fair C h (on_sql (ListSecrets n) h)" "fair C h (on_sql (SecretExists n name) h)"
  "fair C h (on_sql (nsm_GetStats n) h)" "fair C h (on_sql (tm_GetStats n name) h)"
  "fair C h (on_sql (GetSamples n t p limit since until) h)" "fair C h (on_sql (tm_ListFiltered n labels k cursor) h)"
  by (intro on_sql_fair reads_confined)+

lemma get_fine:
  "fine C h (on_ns (nsm_Get n) h) (\<lambda>r. \<forall>x. r = Inr (Some x) \<longrightarrow> ns_Name x = n \<and> plain_name n)"
  "plain_name n \<Longrightarrow> fine C h (on_targets (tm_Get n t) h) (\<lambda>r. \<forall>x. r = Inr (Some x) \<longrightarrow> t_Namespace x = n \<and> t_Name x = t)"
  "plain_name n \<Longrightarrow> fine C h (on_pm (pm_Get n t p) h)
     (\<lambda>r. \<forall>x. r = Inr (Some x) \<longrightarrow> p_Namespace x = n \<and> pollerKey n t p = poller_str x)"
  by (auto intro: on_ns_fine nsm_Get_op on_targets_fine tm_Get_op intro!: on_pm_fine dest: pm_Get_pheld)

lemmas get_fair [within_intros] = get_fine [THEN fine_weaken]

lemma state_fair [within_intros]:
  "fair C h (on_pm (pm_GetState n t p) h)" "fair C h (on_pm (pm_GetStats n t p) h)"
  "fair C h (on_pm (pm_GetResolvedConfig now now' n t p) h)"
  by (auto intro!: on_pm_fine simp: pm_GetState_pheld pm_GetStats_pheld dest: pm_GetResolvedConfig_pheld)

section \<open>The handlers\<close>

definition permits :: "(string \<Rightarrow> bool) \<Rightarrow> RequestContext \<Rightarrow> Handler \<Rightarrow> bool" where
  "permits C ctx h \<longleftrightarrow> bound_ok (h_sessionManager h) \<and> (\<forall>n. access (h_sessionManager h) (cx_Session ctx) n \<longrightarrow> C n)"

lemma fair_bound:
  assumes "permits C ctx h" "\<And>n. C n \<Longrightarrow> plain_name n \<Longrightarrow> fair C h (f n h)"
  shows "fair C h (bound ctx f h)"
proof (cases "sn_Namespace (deref (h_sessionManager h) (cx_Session ctx)) = []")
  case True
  then show ?thesis
    by (simp add: bound_def RequireNamespace_def sn_IsBound_def ctx_session_def fair_ret)
next
  case False
  with assms(1) have "C (sn_Namespace (deref (h_sessionManager h) (cx_Session ctx)))"
    "plain_name (sn_Namespace (deref (h_sessionManager h) (cx_Session ctx)))"
    by (simp_all add: permits_def bound_ok_def)
  from assms(2) [OF this] False show ?thesis
    by (simp add: bound_def RequireNamespace_def sn_IsBound_def sn_GetNamespace_def ctx_session_def)
qed

lemma fair_access:
  assumes "permits C ctx h" "C n \<Longrightarrow> fair C h out"
  shows "fair C h (case RequireNamespaceAccess ctx n h of Some err \<Rightarrow> (Inl err, h) | None \<Rightarrow> out)"
proof (cases "access (h_sessionManager h) (cx_Session ctx) n")
  case True
  with assms show ?thesis
    by (simp add: RequireNamespaceAccess_def permits_def access_def ctx_session_def)
next
  case False
  then show ?thesis
    by (simp add: RequireNamespaceAccess_def access_def ctx_session_def fair_ret)
qed

lemma namespace_handlers_fair:
  assumes "permits C ctx h"
  shows "fair C h (nsh_ListNamespaces ctx h)" "fair C h (nsh_GetNamespace ctx q1 h)"
    "fair C h (nsh_UpdateNamespace now now' ctx q2 h)" "fair C h (nsh_DeleteNamespace ctx q3 h)"
  subgoal
    unfolding nsh_ListNamespaces_def namespace_info_def Let_def by (intro within_intros)
  subgoal
    unfolding nsh_GetNamespace_def by (intro fair_access assms within_intros)
  subgoal
  proof -
    have step: "fair C h1 (on_ns (\<lambda>m s. nsm_Update now now' (update_namespace_fields q2 ns0)
        (mput (uq_Name q2) (update_namespace_fields q2 ns0) m) s) h1)"
      if "C (uq_Name q2)" "ns_Name ns0 = uq_Name q2 \<and> plain_name (uq_Name q2)" for ns0 h1
      using that by (intro on_ns_fine nsm_Update_op) (simp_all add: update_namespace_fields_def Let_def split: option.split)
    show ?thesis
      unfolding nsh_UpdateNamespace_def Let_def
      by (intro fair_access assms fine_case [OF get_fine(1)] within_intros step) auto
  qed
  subgoal
    unfolding nsh_DeleteNamespace_def
    by (intro fair_access assms within_intros on_ns_fine nsm_Delete_op)
  done

lemma target_handlers_fair:
  assumes "permits C ctx h"
  shows "fair C h (th_ListTargets ctx q1 h)" "fair C h (th_GetTarget ctx q2 h)"
    "fair C h (th_CreateTarget now now' ctx q3 h)" "fair C h (th_UpdateTarget now now' ctx q4 h)"
    "fair C h (th_DeleteTarget ctx q5 h)" "fair C h (th_SetLabels now now' ctx q6 h)"
  subgoal
    unfolding th_ListTargets_def target_info_def Let_def by (intro fair_bound assms within_intros)
  subgoal
    unfolding th_GetTarget_def poller_summary_def by (intro fair_bound assms within_intros)
  subgoal
    unfolding th_CreateTarget_def Let_def
    by (intro fair_bound assms within_intros on_targets_fine tm_Create_op) simp_all
  subgoal
  proof -
    have step: "fair C h1 (on_targets (\<lambda>m s. tm_Update now now' (update_target_fields q4 t0)
        (mput (targetKey n (utq_Name q4)) (update_target_fields q4 t0) m) s) h1)"
      if "C n" "plain_name n" "t_Namespace t0 = n \<and> t_Name t0 = utq_Name q4" for n t0 h1
      using that by (intro on_targets_fine tm_Update_op) (simp_all add: update_target_fields_def Let_def split: option.split)
    show ?thesis
      unfolding th_UpdateTarget_def Let_def
      by (intro fair_bound assms fine_case [OF get_fine(2)] within_intros step) auto
  qed
  subgoal
    unfolding th_DeleteTarget_def by (intro fair_bound assms within_intros on_targets_fine tm_Delete_op)
  subgoal
    unfolding th_SetLabels_def by (intro fair_bound assms within_intros on_targets_fine tm_SetLabels_op)
  done

lemma GetPollerFullInfo_fair:
  assumes "plain_name n"
  shows "fair C h (on_mgr (GetPollerFullInfo now now' n t p) h)"
proof (rule on_mgr_fine)
  fix D
  assume "held C D (h_mgr h)"
  then show "held C D (snd (GetPollerFullInfo now now' n t p (h_mgr h))) \<and> True"
    using assms
    by (auto simp: GetPollerFullInfo_def on_pollers_def held_def split: prod.splits sum.splits option.splits
        dest!: pm_Get_pheld pm_GetState_pheld [where C = C and D = D] pm_GetStats_pheld [where C = C and D = D]
          pm_GetResolvedConfig_pheld)
qed

lemma poller_ops_fair:
  "C (p_Namespace x) \<Longrightarrow> plain_name (p_Namespace x) \<Longrightarrow> fair C h (on_pm (pm_Create now x) h)"
  "C n \<Longrightarrow> fair C h (on_pm (pm_Delete n t p) h)"
  "C n \<Longrightarrow> plain_name n \<Longrightarrow> fair C h (on_pm (pm_Enable now n t p) h)"
  "C n \<Longrightarrow> plain_name n \<Longrightarrow> fair C h (on_pm (pm_Disable now n t p) h)"
  unfolding pm_Enable_def pm_Disable_def
  by (auto intro!: on_pm_fine intro: pm_Create_pheld pm_Delete_pheld set_admin_pheld)

lemma poller_handlers_fair:
  assumes "permits C ctx h"
  shows "fair C h (ph_ListPollers ctx q1 h)" "fair C h (ph_GetPoller now now' ctx q2 h)"
    "fair C h (ph_CreatePoller now ctx q3 h)" "fair C h (ph_UpdatePoller now now' ctx q4 h)"
    "fair C h (ph_DeletePoller ctx q5 h)" "fair C h (ph_EnablePoller now ctx q6 h)"
    "fair C h (ph_DisablePoller now ctx q6 h)" "fair C h (ph_GetHistory ctx q7 h)"
    "fair C h (ph_GetResolvedConfig now now' ctx q8 h)"
  subgoal
    unfolding ph_ListPollers_def poller_info_def by (intro fair_bound assms within_intros)
  subgoal
    unfolding ph_GetPoller_def by (intro fair_bound assms within_intros GetPollerFullInfo_fair)
  subgoal
    unfolding ph_CreatePoller_def Let_def
    by (intro fair_bound assms within_intros poller_ops_fair) simp_all
  subgoal
  proof -
    have step: "fair C h1 (on_pm (\<lambda>m. pm_Update now now' (update_poller_fields q4 p0)
        (write_cached (pollerKey n (upq_Target q4) (upq_Name q4)) (update_poller_fields q4 p0) m)) h1)"
      if n: "C n" "plain_name n" and p: "p_Namespace p0 = n \<and> pollerKey n (upq_Target q4) (upq_Name q4) = poller_str p0"
      for n p0 h1
    proof (rule on_pm_fine)
      fix D m r m'
      let ?p = "update_poller_fields q4 p0"
      have k: "pollerKey n (upq_Target q4) (upq_Name q4) = poller_str ?p" "p_Namespace ?p = n"
        using p by (simp_all add: update_poller_fields_def Let_def split: option.split)
      assume "pm_Update now now' ?p (write_cached (pollerKey n (upq_Target q4) (upq_Name q4)) ?p m) = (r, m')" "pheld C D m"
      from pm_Update_pheld [OF this [unfolded k(1)]] n k(2) show "pheld C D m' \<and> True" by simp
    qed
    show ?thesis
      unfolding ph_UpdatePoller_def Let_def
      by (intro fair_bound assms fine_case [OF get_fine(3)] within_intros step) auto
  qed
  subgoal
    unfolding ph_DeletePoller_def
    by (intro fair_bound assms within_intros poller_ops_fair)
  subgoal
    unfolding ph_EnablePoller_def states_of_def
    by (intro fair_bound assms within_intros poller_ops_fair)
  subgoal
    unfolding ph_DisablePoller_def states_of_def
    by (intro fair_bound assms within_intros poller_ops_fair)
  subgoal
    unfolding ph_GetHistory_def Let_def by (intro fair_bound assms within_intros)
  subgoal
    unfolding ph_GetResolvedConfig_def by (intro fair_bound assms within_intros)
  done

text \<open>Browsing the tree fills two caches.\<close>

lemma tm_Get_held:
  assumes "tm_Get n t tm (pm_store pm) = (r, tm', s')" "pheld C D pm" "t_filed tm" "plain_name n"
  shows "pheld C D (pm\<lparr>pm_store := s'\<rparr>) \<and> t_filed tm'"
  using tm_Get_op [OF assms(4), of C t, unfolded cache_op_def, rule_format, OF assms(1), of D] assms(2,3)
  by (simp add: pheld_def)

lemma browse_child_held:
  assumes "browse_child n links child tm pm = (r, tm', pm')" "pheld C D pm" "t_filed tm" "plain_name n"
  shows "pheld C D pm' \<and> t_filed tm'"
proof -
  show ?thesis
  proof (cases "(\<not> links \<or> link_ref child = []) \<or> (\<exists>e. ParseLinkRef (link_ref child) = Inl e)")
    case True
    then have "tm' = tm \<and> pm' = pm"
      using assms(1) by (elim disjE exE) (simp_all add: browse_child_def Let_def split: if_splits)
    with assms(2,3) show ?thesis by simp
  next
    case False
    then obtain type t p where ref: "ParseLinkRef (link_ref child) = Inr (type, t, p)"
      by (metis prod_cases3 sumE)
    show ?thesis
    proof (cases "type = ''target''")
      case True
      obtain q tm1 s1 where g: "tm_Get n t tm (pm_store pm) = (q, tm1, s1)" by (metis prod_cases3)
      have "tm' = tm1" "pm' = pm\<lparr>pm_store := s1\<rparr>"
        using assms(1) False ref True g by (simp_all add: browse_child_def Let_def)
      with tm_Get_held [OF g assms(2-4)] show ?thesis by simp
    next
      case not_target: False
      obtain q pm1 where g: "pm_Get n t p pm = (q, pm1)" by fastforce
      have "tm' = tm" "pm' = pm1"
        using assms(1) False ref not_target g by (simp_all add: browse_child_def Let_def)
      with pm_Get_pheld [OF g assms(2,4)] assms(3) show ?thesis by simp
    qed
  qed
qed

lemma browse_children_held:
  "browse_children n links children tm pm = (r, tm', pm') \<Longrightarrow> pheld C D pm \<Longrightarrow> t_filed tm \<Longrightarrow> plain_name n \<Longrightarrow>
     pheld C D pm' \<and> t_filed tm'"
proof (induction children arbitrary: tm pm r tm' pm')
  case Nil
  then show ?case by simp
next
  case (Cons child children)
  obtain x tm1 pm1 where c: "browse_child n links child tm pm = (x, tm1, pm1)" by (metis prod_cases3)
  obtain xs tm2 pm2 where cs: "browse_children n links children tm1 pm1 = (xs, tm2, pm2)" by (metis prod_cases3)
  have "tm' = tm2" "pm' = pm2" using Cons.prems(1) c cs by simp_all
  with Cons.IH [OF cs] browse_child_held [OF c Cons.prems(2,3,4)] Cons.prems(4) show ?case by simp
qed

lemma tree_Browse_held:
  assumes "tree_Browse n path links tm pm = (r, tm', pm')" "pheld C D pm" "t_filed tm" "plain_name n"
  shows "pheld C D pm' \<and> t_filed tm'"
proof -
  obtain q pm1 where l: "on_store (tree_ListChildren n path) pm = (q, pm1)" by fastforce
  note h = on_store_pheld(1) [OF l reads_confined(6) assms(2)]
  show ?thesis
  proof (cases q)
    case (Inl e)
    with assms l h show ?thesis by (simp add: tree_Browse_def)
  next
    case (Inr children)
    obtain xs tm2 pm2 where c: "browse_children n links children tm pm1 = (xs, tm2, pm2)" by (metis prod_cases3)
    from browse_children_held [OF c h assms(3,4)] assms(1) l Inr c show ?thesis by (simp add: tree_Browse_def)
  qed
qed

lemma browseTree_fair [within_intros]: "plain_name n \<Longrightarrow> fair C h (browseTree n path h)"
proof -
  assume n: "plain_name n"
  have "fair C h (on_mgr (\<lambda>m. case tree_Browse n path True (mg_Targets m) (mg_Pollers m) of
      (r, ts, ps) \<Rightarrow> (r, m\<lparr>mg_Targets := ts, mg_Pollers := ps\<rparr>)) h)"
    by (rule on_mgr_fine) (auto simp: held_def split: prod.split dest!: tree_Browse_held [OF _ _ _ n])
  then show ?thesis
    unfolding browseTree_def tree_entry_def Let_def by (intro within_intros)
qed

lemma browse_handlers_fair:
  assumes "permits C ctx h"
  shows "fair C h (bh_Browse now now' ctx q1 h)" "fair C h (bh_CreateDirectory now ctx q2 h)"
    "fair C h (bh_CreateLink now ctx q3 h)" "fair C h (bh_DeleteTreeNode ctx q4 h)" "fair C h (bh_ResolvePath ctx q5 h)"
  subgoal
    unfolding bh_Browse_def browseRoot_def browseTargets_def target_entry_def browseTarget_def poller_entry_def
      browsePoller_def Let_def
    by (intro fair_bound assms within_intros GetPollerFullInfo_fair)
  subgoal
    unfolding bh_CreateDirectory_def Let_def by (intro fair_bound assms within_intros on_tree_fair tree_op)
  subgoal
    unfolding bh_CreateLink_def Let_def by (intro fair_bound assms within_intros on_tree_fair tree_op)
  subgoal
    unfolding bh_DeleteTreeNode_def Let_def by (intro fair_bound assms within_intros on_tree_fair tree_op)
  subgoal
    unfolding bh_ResolvePath_def Let_def by (intro fair_bound assms within_intros on_tree_fair tree_op)
  done

text \<open>Subscriptions change the session and not who it is.\<close>

lemma auth_on_session:
  "(\<And>s. sn_TokenID (f s) = sn_TokenID s \<and> sn_Namespace (f s) = sn_Namespace s) \<Longrightarrow> auth (on_session x f m) = auth m"
  by (simp add: auth_def fun_eq_iff)

lemma on_ctx_fair:
  "(\<And>s. sn_TokenID (f s) = sn_TokenID s \<and> sn_Namespace (f s) = sn_Namespace s) \<Longrightarrow> fair C h (r, on_ctx ctx f h)"
  by (simp add: fine_def on_ctx_def auth_on_session)

lemma take_key_fair: "fair C h (take_key ctx key (r, h))"
  unfolding take_key_def by (simp add: on_ctx_fair sn_Subscribe_def)

lemma reject_key_fair: "fair C h rh \<Longrightarrow> fair C h (reject_key key rh)"
  unfolding reject_key_def by (intro within_intros)

lemma take_target_fair: "fair C h (take_target ctx n t bad (r, h))"
proof -
  have "fair C h (foldl (\<lambda>rh p. take_key ctx (subscriptionKey t (p_Name p)) rh) (r, h) ps)" for ps
    by (intro fair_foldl take_key_fair)
  then show ?thesis
    unfolding take_target_def Let_def snd_conv by (intro within_intros reject_key_fair)
qed

lemma subscription_handlers_fair:
  assumes "permits C ctx h"
  shows "fair C h (suh_Subscribe ctx q1 h)" "fair C h (suh_Unsubscribe ctx q2 h)" "fair C h (suh_ListSubscriptions ctx h)"
  subgoal
  proof -
    have "fair C h1 (subscribe_spec ctx n (r, h1) spec)" for n r h1 spec
      by (simp add: subscribe_spec_def Let_def take_key_fair reject_key_fair take_target_fair fair_ret)
    then show ?thesis
      unfolding suh_Subscribe_def by (intro fair_bound assms within_intros fair_foldl)
  qed
  subgoal
  proof -
    have "fair C h1 (unsubscribe_key ctx (r, h1) key)" for r h1 key
      by (simp add: unsubscribe_key_def fair_ret on_ctx_fair sn_Unsubscribe_def)
    then show ?thesis
      unfolding suh_Unsubscribe_def
      by (intro within_intros fair_foldl on_ctx_fair) (simp_all add: sn_UnsubscribeAll_def)
  qed
  subgoal
    unfolding suh_ListSubscriptions_def Let_def by (rule fair_ret)
  done

lemma permits_auth: "auth (h_sessionManager h1) = auth (h_sessionManager h) \<Longrightarrow> permits C ctx h1 = permits C ctx h"
  using bound_ok_auth [of "h_sessionManager h1" "h_sessionManager h"] access_auth [of "h_sessionManager h1" "h_sessionManager h"]
  by (simp add: permits_def)

lemma permitted_foldl:
  assumes "\<And>r h x. permits C ctx h \<Longrightarrow> fair C h (f (r, h) x)" "permits C ctx h"
  shows "fair C h (foldl f (r, h) xs)"
  using assms(2)
proof (induction xs arbitrary: r h)
  case Nil
  show ?case by (simp add: fair_ret)
next
  case (Cons x xs)
  have "fair C h (case f (r, h) x of (r1, h1) \<Rightarrow> foldl f (r1, h1) xs)"
    by (rule fine_case [OF assms(1) [OF Cons.prems]], rule Cons.IH) (simp add: permits_auth Cons.prems)
  then show ?case by simp
qed

lemma subscribe_by_path_fair:
  assumes "permits C ctx h"
  shows "fair C h (suh_SubscribeByPath ctx q h)"
proof -
  have "fair C h1 (subscribe_path ctx n (r, h1) path)" if "permits C ctx h1" for n r h1 path
    unfolding subscribe_path_def fst_conv snd_conv
    by (intro within_intros browse_handlers_fair(5) that reject_key_fair take_key_fair take_target_fair)
  then show ?thesis
    unfolding suh_SubscribeByPath_def by (intro fair_bound assms within_intros permitted_foldl [OF _ assms])
qed

lemma status_handlers_fair:
  assumes "permits C ctx h"
  shows "fair C h (sth_GetServerStatus now ctx h)" "fair C h (sth_GetSessionInfo ctx h)"
    "fair C h (sth_GetNamespaceStatus ctx h)"
  subgoal unfolding sth_GetServerStatus_def Let_def by (rule fair_ret)
  subgoal unfolding sth_GetSessionInfo_def Let_def by (rule fair_ret)
  subgoal
  proof -
    have "fair C h1 (count_poller n (r, h1) p)" for n r h1 p
      unfolding count_poller_def by (intro within_intros)
    then show ?thesis
      unfolding sth_GetNamespaceStatus_def Let_def by (intro fair_bound assms within_intros fair_foldl)
  qed
  done

lemma secret_handlers_fair:
  assumes "permits C ctx h"
  shows "fair C h (sch_ListSecrets ctx h)" "fair C h (sch_GetSecret ctx q1 h)"
    "fair C h (sch_CreateSecret seal nonce now ctx q2 h)" "fair C h (sch_UpdateSecret seal nonce now ctx q3 h)"
    "fair C h (sch_DeleteSecret ctx q4 h)"
  subgoal unfolding sch_ListSecrets_def by (intro fair_bound assms within_intros)
  subgoal unfolding sch_GetSecret_def by (intro fair_bound assms within_intros)
  subgoal
    unfolding sch_CreateSecret_def read_back_def by (intro fair_bound assms within_intros on_sql_fair secrets_confined)
  subgoal
    unfolding sch_UpdateSecret_def read_back_def by (intro fair_bound assms within_intros on_sql_fair secrets_confined)
  subgoal
    unfolding sch_DeleteSecret_def by (intro fair_bound assms within_intros on_sql_fair secrets_confined)
  done

section \<open>Binding and creating a namespace\<close>

text \<open>What every request keeps: the caches filed, and each session bound within its access.\<close>

definition tidy :: "Handler \<Rightarrow> bool" where
  "tidy h \<longleftrightarrow> bound_ok (h_sessionManager h) \<and> (\<exists>C D. held C D (h_mgr h))"

lemma tidy_held: "tidy h \<Longrightarrow> held C (others C (st_db (mg_store (h_mgr h)))) (h_mgr h)"
  by (auto simp: tidy_def held_def pheld_def apart_def)

lemma fair_kept:
  assumes "fair C h (r, h')" "tidy h"
  shows "tidy h'" "others C (st_db (mg_store (h_mgr h'))) = others C (st_db (mg_store (h_mgr h)))"
    "auth (h_sessionManager h') = auth (h_sessionManager h)"
proof -
  have f: "held C (others C (st_db (mg_store (h_mgr h)))) (h_mgr h')"
    "auth (h_sessionManager h') = auth (h_sessionManager h)"
    using assms(1) tidy_held [OF assms(2), of C] by (simp_all add: fine_def)
  show "auth (h_sessionManager h') = auth (h_sessionManager h)" by (rule f(2))
  have "bound_ok (h_sessionManager h')" using bound_ok_auth [OF f(2)] assms(2) by (simp add: tidy_def)
  with f(1) show "tidy h'" unfolding tidy_def by blast
  show "others C (st_db (mg_store (h_mgr h'))) = others C (st_db (mg_store (h_mgr h)))"
    using f(1) by (simp add: held_def pheld_def apart_def)
qed

lemma access_on_session:
  "(\<And>s. sn_TokenID (f s) = sn_TokenID s) \<Longrightarrow> access (on_session x f m) y n = access m y n"
  by (simp add: access_def CanAccessNamespace_def)

lemma bind_kept:
  assumes "nsh_BindNamespace ctx q h = (r, h')" "tidy h"
  shows "tidy h'" "others C (st_db (mg_store (h_mgr h'))) = others C (st_db (mg_store (h_mgr h)))"
proof -
  obtain g h1 where g: "on_ns (nsm_Get (bq_Namespace q)) h = (g, h1)" by fastforce
  let ?P = "\<lambda>g. \<forall>x. g = Inr (Some x) \<longrightarrow> ns_Name x = bq_Namespace q \<and> plain_name (bq_Namespace q)"
  have f: "fine C h (g, h1) ?P" for C using get_fine(1) [of C h "bq_Namespace q"] g by simp
  note k = fair_kept [OF fine_weaken [OF f] assms(2)]
  have name: "?P g" using f [of C] tidy_held [OF assms(2), of C] unfolding fine_def by simp
  have b1: "bound_ok (h_sessionManager h1)" using k(1) by (simp add: tidy_def)
  consider "h' = h1"
    | x s where "g = Inr (Some x)" "RequireNamespaceAccess ctx (bq_Namespace q) h1 = None"
        "sn_BindNamespace (bq_Namespace q) (ctx_session ctx h1) = Inr s"
        "h' = h1\<lparr>h_sessionManager := on_session (cx_Session ctx) (\<lambda>_. s) (h_sessionManager h1)\<rparr>"
    using assms(1) g unfolding nsh_BindNamespace_def by (auto split: sum.splits option.splits)
  note cases = this
  have same: "h_mgr h' = h_mgr h1" using cases by cases simp_all
  show "others C (st_db (mg_store (h_mgr h'))) = others C (st_db (mg_store (h_mgr h)))"
    using k(2) same by simp
  from cases show "tidy h'"
  proof cases
    case 1
    with k(1) show ?thesis by simp
  next
    case (2 x s)
    have s: "on_session (cx_Session ctx) (\<lambda>_. s) (h_sessionManager h1) =
        on_session (cx_Session ctx) (\<lambda>s. s\<lparr>sn_Namespace := bq_Namespace q\<rparr>) (h_sessionManager h1)"
      using 2(3) by (simp add: sn_BindNamespace_def on_session_def ctx_session_def split: if_splits)
    have "access (h_sessionManager h1) (cx_Session ctx) (bq_Namespace q)"
      using 2(2) by (simp add: RequireNamespaceAccess_def access_def ctx_session_def split: if_splits)
    with b1 name 2(1) have "bound_ok (h_sessionManager h')"
      unfolding bound_ok_def 2(4) s ctx_session_def select_convs
      by (simp add: access_on_session)
    with k(1) same show ?thesis by (auto simp: tidy_def)
  qed
qed

lemma create_namespace_fair: "fair (\<lambda>_. True) h (nsh_CreateNamespace now now' ctx q h)"
  unfolding nsh_CreateNamespace_def Let_def by (intro within_intros on_ns_fine nsm_Create_op TrueI)

section \<open>The dispatcher\<close>

abbreviation sv_db :: "Server \<Rightarrow> DB" where
  "sv_db srv \<equiv> st_db (mg_store (sv_mgr srv))"

definition kept :: "(string \<Rightarrow> bool) \<Rightarrow> Server \<Rightarrow> ('a \<times> Server) option \<Rightarrow> bool" where
  "kept C srv out \<longleftrightarrow> (tidy (sv_handler srv) \<longrightarrow>
     (\<forall>r srv'. out = Some (r, srv') \<longrightarrow> tidy (sv_handler srv') \<and> others C (sv_db srv') = others C (sv_db srv)))"

lemma run_calls_handler: "run_calls now cs srv = Some srv' \<Longrightarrow> sv_handler srv' = sv_handler srv"
proof (induction cs arbitrary: srv)
  case Nil
  then show ?case by simp
next
  case (Cons c cs)
  then show ?case
    by (cases c) (auto simp: onPollerCreated_def sched_add_def onPollerDeleted_def onPollerUpdated_def Let_def
        split: option.splits sum.splits)
qed

lemma drain_handler:
  assumes "drain now srv = Some srv'"
  shows "sv_handler srv' = (sv_handler srv)\<lparr>h_mgr := (sv_mgr srv)\<lparr>mg_Pollers := (mg_Pollers (sv_mgr srv))\<lparr>pm_calls := []\<rparr>\<rparr>\<rparr>"
  using run_calls_handler [OF assms [unfolded drain_def Let_def]] by (simp add: set_mgr_def)

text \<open>What \<open>tidy\<close> looks at.\<close>

definition core :: "Handler \<Rightarrow> DB \<times> (string, Poller) gomap \<times> NamespaceManager \<times> TargetManager \<times> SessionManager" where
  "core h = (st_db (mg_store (h_mgr h)), pm_pollers (mg_Pollers (h_mgr h)), mg_Namespaces (h_mgr h), mg_Targets (h_mgr h),
     h_sessionManager h)"

lemma tidy_core: "core h = core h' \<Longrightarrow> tidy h = tidy h'"
  by (simp add: core_def tidy_def held_def pheld_def)

lemma drain_core: "drain now srv = Some srv' \<Longrightarrow> core (sv_handler srv') = core (sv_handler srv)"
  by (simp add: drain_handler core_def)

lemma kept_by:
  assumes "\<And>r srv'. out = Some (r, srv') \<Longrightarrow> core (sv_handler srv') = core h"
    "tidy (sv_handler srv) \<Longrightarrow> tidy h \<and> others C (st_db (mg_store (h_mgr h))) = others C (sv_db srv)"
  shows "kept C srv out"
  unfolding kept_def
proof (intro impI allI)
  fix r srv'
  assume t: "tidy (sv_handler srv)" and o: "out = Some (r, srv')"
  have c: "core (sv_handler srv') = core h" by (rule assms(1) [OF o])
  have d: "sv_db srv' = st_db (mg_store (h_mgr h))" using c by (simp add: core_def)
  show "tidy (sv_handler srv') \<and> others C (sv_db srv') = others C (sv_db srv)"
    using assms(2) [OF t] tidy_core [OF c] d by simp
qed

lemma kept_handle:
  assumes "fair C (sv_handler srv) (f (sv_handler srv))"
  shows "kept C srv (srv_handle now f srv)"
proof -
  obtain r h where f: "f (sv_handler srv) = (r, h)" by fastforce
  show ?thesis
  proof (rule kept_by)
    fix q srv'
    assume "srv_handle now f srv = Some (q, srv')"
    then have "drain now (srv\<lparr>sv_handler := h\<rparr>) = Some srv'"
      by (simp add: srv_handle_def f split: option.splits)
    from drain_core [OF this] show "core (sv_handler srv') = core h" by simp
  next
    assume "tidy (sv_handler srv)"
    from fair_kept(1,2) [OF assms [unfolded f] this]
    show "tidy h \<and> others C (st_db (mg_store (h_mgr h))) = others C (sv_db srv)" by simp
  qed
qed

lemma kept_respond:
  assumes "kept C srv out"
  shows "kept C srv (respond mk out)"
proof (cases out)
  case None
  then show ?thesis by (simp add: kept_def respond_def)
next
  case (Some rs)
  obtain r srv1 where "rs = (r, srv1)" by fastforce
  with Some assms show ?thesis by (cases r) (simp_all add: kept_def respond_def)
qed

lemma kept_invalid: "kept C srv (invalid_payload srv)"
  by (simp add: kept_def invalid_payload_def)

lemma kept_same: "kept C srv (Some (r, srv))"
  by (simp add: kept_def)

lemma kept_bind:
  "kept C srv (srv_handle now (nsh_BindNamespace ctx q) srv)"
proof -
  obtain r h where f: "nsh_BindNamespace ctx q (sv_handler srv) = (r, h)" by fastforce
  show ?thesis
  proof (rule kept_by)
    fix p srv'
    assume "srv_handle now (nsh_BindNamespace ctx q) srv = Some (p, srv')"
    then have "drain now (srv\<lparr>sv_handler := h\<rparr>) = Some srv'"
      by (simp add: srv_handle_def f split: option.splits)
    from drain_core [OF this] show "core (sv_handler srv') = core h" by simp
  next
    assume "tidy (sv_handler srv)"
    from bind_kept [OF f this]
    show "tidy h \<and> others C (st_db (mg_store (h_mgr h))) = others C (sv_db srv)" by simp
  qed
qed

text \<open>The steps that follow a handler in the three poller messages change runtime state and the scheduler only.\<close>

lemma kept_trans:
  assumes "kept C srv (Some (r, srv1))" "\<And>q srv2. out = Some (q, srv2) \<Longrightarrow> core (sv_handler srv2) = core (sv_handler srv1)"
  shows "kept C srv out"
  using assms(1) by (intro kept_by [OF assms(2)]) (simp_all add: kept_def)

lemma handler_state_frame: "on_state q f m = (r, m') \<Longrightarrow> pm_store m' = pm_store m \<and> pm_pollers m' = pm_pollers m"
  by (auto simp: on_state_def split: prod.splits sum.splits)

lemma core_state_do: "core (sv_handler (state_do q f srv)) = core (sv_handler srv)"
proof -
  obtain r m where m: "on_state q f (mg_Pollers (sv_mgr srv)) = (r, m)" by fastforce
  with handler_state_frame [OF m] show ?thesis by (simp add: state_do_def on_pollers_def set_mgr_def core_def)
qed

lemma core_start_stop:
  "core (sv_handler (start_and_run q srv)) = core (sv_handler srv)"
  "core (sv_handler (stop_and_mark q srv)) = core (sv_handler srv)"
  "core (sv_handler (onPollerDeleted n t p srv)) = core (sv_handler srv)"
  by (simp_all add: start_and_run_def stop_and_mark_def core_state_do onPollerDeleted_def Let_def)

lemma core_created: "onPollerCreated now n t p i srv = Some srv1 \<Longrightarrow> core (sv_handler srv1) = core (sv_handler srv)"
  by (auto simp: onPollerCreated_def sched_add_def Let_def split: sum.splits)

lemma Resolve_db: "Resolve now now' n t p r s = (x, r', s') \<Longrightarrow> st_db s' = st_db s"
proof -
  assume r: "Resolve now now' n t p r s = (x, r', s')"
  have "keeps (\<lambda>d. d = st_db s) (resolve_cold n t p)"
    unfolding resolve_cold_def GetServerConfig_def GetNamespace_def GetTarget_def GetPoller_def Let_def
    by (intro keeps_bnd keeps_wrap keeps_query keeps_ret)
  from keepsD [OF this] have "resolve_cold n t p s = (y, s'') \<Longrightarrow> st_db s'' = st_db s" for y s'' by blast
  with r show ?thesis by (auto simp: Resolve_def Let_def split: option.splits prod.splits sum.splits if_splits)
qed

lemma core_resolve: "resolve_or_nil env n t p srv = (r, srv1) \<Longrightarrow> core (sv_handler srv1) = core (sv_handler srv)"
  by (auto simp: resolve_or_nil_def on_pollers_def pm_GetResolvedConfig_def set_mgr_def core_def dest!: Resolve_db
      split: prod.splits sum.splits)

lemma namespace_messages_kept:
  assumes "permits C ctx (sv_handler srv)"
  shows "kept C srv (handleListNamespaces env ctx payload srv)"
    "kept C srv (handleGetNamespace env ctx payload srv)"
    "kept C srv (handleUpdateNamespace env ctx payload srv)"
    "kept C srv (handleDeleteNamespace env ctx payload srv)"
  subgoal
    unfolding handleListNamespaces_def by (intro kept_respond kept_handle namespace_handlers_fair(1) assms)
  subgoal
    unfolding handleGetNamespace_def 
    by (cases payload; simp only: payload.case kept_invalid) (intro kept_respond kept_handle namespace_handlers_fair(2) assms)+
  subgoal
    unfolding handleUpdateNamespace_def 
    by (cases payload; simp only: payload.case kept_invalid) (intro kept_respond kept_handle namespace_handlers_fair(3) assms)+
  subgoal
    unfolding handleDeleteNamespace_def 
    by (cases payload; simp only: payload.case kept_invalid) (intro kept_respond kept_handle namespace_handlers_fair(4) assms)+
  done

lemma target_messages_kept:
  assumes "permits C ctx (sv_handler srv)"
  shows "kept C srv (handleListTargets env ctx payload srv)"
    "kept C srv (handleGetTarget env ctx payload srv)"
    "kept C srv (handleCreateTarget env ctx payload srv)"
    "kept C srv (handleUpdateTarget env ctx payload srv)"
    "kept C srv (handleDeleteTarget env ctx payload srv)"
    "kept C srv (handleSetLabels env ctx payload srv)"
  subgoal
    unfolding handleListTargets_def Let_def
    by (cases payload; simp only: payload.case kept_invalid) (intro kept_respond kept_handle target_handlers_fair(1) assms)+
  subgoal
    unfolding handleGetTarget_def 
    by (cases payload; simp only: payload.case kept_invalid) (intro kept_respond kept_handle target_handlers_fair(2) assms)+
  subgoal
    unfolding handleCreateTarget_def 
    by (cases payload; simp only: payload.case kept_invalid) (intro kept_respond kept_handle target_handlers_fair(3) assms)+
  subgoal
    unfolding handleUpdateTarget_def 
    by (cases payload; simp only: payload.case kept_invalid) (intro kept_respond kept_handle target_handlers_fair(4) assms)+
  subgoal
    unfolding handleDeleteTarget_def 
    by (cases payload; simp only: payload.case kept_invalid) (intro kept_respond kept_handle target_handlers_fair(5) assms)+
  subgoal
    unfolding handleSetLabels_def 
    by (cases payload; simp only: payload.case kept_invalid) (intro kept_respond kept_handle target_handlers_fair(6) assms)+
  done

lemma poller_messages_kept:
  assumes "permits C ctx (sv_handler srv)"
  shows "kept C srv (handleListPollers env ctx payload srv)"
    "kept C srv (handleGetPoller env ctx payload srv)"
    "kept C srv (handleUpdatePoller env ctx payload srv)"
    "kept C srv (handleDeletePoller env ctx payload srv)"
    "kept C srv (handleGetHistory env ctx payload srv)"
    "kept C srv (handleGetResolvedConfig env ctx payload srv)"
  subgoal
    unfolding handleListPollers_def 
    by (cases payload; simp only: payload.case kept_invalid) (intro kept_respond kept_handle poller_handlers_fair(1) assms)+
  subgoal
    unfolding handleGetPoller_def 
    by (cases payload; simp only: payload.case kept_invalid) (intro kept_respond kept_handle poller_handlers_fair(2) assms)+
  subgoal
    unfolding handleUpdatePoller_def 
    by (cases payload; simp only: payload.case kept_invalid) (intro kept_respond kept_handle poller_handlers_fair(4) assms)+
  subgoal
    unfolding handleDeletePoller_def 
    by (cases payload; simp only: payload.case kept_invalid) (intro kept_respond kept_handle poller_handlers_fair(5) assms)+
  subgoal
    unfolding handleGetHistory_def 
    by (cases payload; simp only: payload.case kept_invalid) (intro kept_respond kept_handle poller_handlers_fair(8) assms)+
  subgoal
    unfolding handleGetResolvedConfig_def 
    by (cases payload; simp only: payload.case kept_invalid) (intro kept_respond kept_handle poller_handlers_fair(9) assms)+
  done

lemma browse_messages_kept:
  assumes "permits C ctx (sv_handler srv)"
  shows "kept C srv (handleBrowse env ctx payload srv)"
    "kept C srv (handleCreateDirectory env ctx payload srv)"
    "kept C srv (handleCreateLink env ctx payload srv)"
    "kept C srv (handleDeleteTreeNode env ctx payload srv)"
  subgoal
    unfolding handleBrowse_def 
    by (cases payload; simp only: payload.case kept_invalid) (intro kept_respond kept_handle browse_handlers_fair(1) assms)+
  subgoal
    unfolding handleCreateDirectory_def 
    by (cases payload; simp only: payload.case kept_invalid) (intro kept_respond kept_handle browse_handlers_fair(2) assms)+
  subgoal
    unfolding handleCreateLink_def 
    by (cases payload; simp only: payload.case kept_invalid) (intro kept_respond kept_handle browse_handlers_fair(3) assms)+
  subgoal
    unfolding handleDeleteTreeNode_def 
    by (cases payload; simp only: payload.case kept_invalid) (intro kept_respond kept_handle browse_handlers_fair(4) assms)+
  done

lemma subscription_messages_kept:
  assumes "permits C ctx (sv_handler srv)"
  shows "kept C srv (handleSubscribe env ctx payload srv)"
    "kept C srv (handleUnsubscribe env ctx payload srv)"
    "kept C srv (handleListSubscriptions env ctx payload srv)"
    "kept C srv (handleSubscribeByPath env ctx payload srv)"
  subgoal
    unfolding handleSubscribe_def 
    by (cases payload; simp only: payload.case kept_invalid) (intro kept_respond kept_handle subscription_handlers_fair(1) assms)+
  subgoal
    unfolding handleUnsubscribe_def 
    by (cases payload; simp only: payload.case kept_invalid) (intro kept_respond kept_handle subscription_handlers_fair(2) assms)+
  subgoal
    unfolding handleListSubscriptions_def by (intro kept_respond kept_handle subscription_handlers_fair(3) assms)
  subgoal
    unfolding handleSubscribeByPath_def 
    by (cases payload; simp only: payload.case kept_invalid) (intro kept_respond kept_handle subscribe_by_path_fair assms)+
  done

lemma status_messages_kept:
  assumes "permits C ctx (sv_handler srv)"
  shows "kept C srv (handleGetServerStatus env ctx payload srv)"
    "kept C srv (handleGetSessionInfo env ctx payload srv)"
    "kept C srv (handleGetNamespaceStatus env ctx payload srv)"
  subgoal
    unfolding handleGetServerStatus_def by (intro kept_respond kept_handle status_handlers_fair(1) assms)
  subgoal
    unfolding handleGetSessionInfo_def by (intro kept_respond kept_handle status_handlers_fair(2) assms)
  subgoal
    unfolding handleGetNamespaceStatus_def by (intro kept_respond kept_handle status_handlers_fair(3) assms)
  done

lemma secret_messages_kept:
  assumes "permits C ctx (sv_handler srv)"
  shows "kept C srv (handleListSecrets env ctx payload srv)"
    "kept C srv (handleGetSecret env ctx payload srv)"
    "kept C srv (handleCreateSecret env ctx payload srv)"
    "kept C srv (handleUpdateSecret env ctx payload srv)"
    "kept C srv (handleDeleteSecret env ctx payload srv)"
  subgoal
    unfolding handleListSecrets_def by (intro kept_respond kept_handle secret_handlers_fair(1) assms)
  subgoal
    unfolding handleGetSecret_def 
    by (cases payload; simp only: payload.case kept_invalid) (intro kept_respond kept_handle secret_handlers_fair(2) assms)+
  subgoal
    unfolding handleCreateSecret_def 
    by (cases payload; simp only: payload.case kept_invalid) (intro kept_respond kept_handle secret_handlers_fair(3) assms)+
  subgoal
    unfolding handleUpdateSecret_def 
    by (cases payload; simp only: payload.case kept_invalid) (intro kept_respond kept_handle secret_handlers_fair(4) assms)+
  subgoal
    unfolding handleDeleteSecret_def 
    by (cases payload; simp only: payload.case kept_invalid) (intro kept_respond kept_handle secret_handlers_fair(5) assms)+
  done

lemma bind_message_kept: "kept C srv (handleBindNamespace env ctx payload srv)"
  unfolding handleBindNamespace_def
  by (cases payload; simp only: payload.case kept_invalid) (intro kept_respond kept_bind)

lemma create_namespace_kept: "kept (\<lambda>_. True) srv (handleCreateNamespace env ctx payload srv)"
  unfolding handleCreateNamespace_def
  by (cases payload; simp only: payload.case kept_invalid) (intro kept_respond kept_handle create_namespace_fair)

text \<open>Creating, enabling and disabling a poller: the handler, then runtime steps on what it left.\<close>

lemma kept_via:
  assumes "kept C srv out1"
    "\<And>r srv2. out = Some (r, srv2) \<Longrightarrow>
       \<exists>r1 srv1. out1 = Some (r1, srv1) \<and> core (sv_handler srv2) = core (sv_handler srv1)"
  shows "kept C srv out"
  unfolding kept_def
proof (intro impI allI)
  fix r srv2
  assume t: "tidy (sv_handler srv)" and o: "out = Some (r, srv2)"
  obtain r1 srv1 where 1: "out1 = Some (r1, srv1)" "core (sv_handler srv2) = core (sv_handler srv1)"
    using assms(2) [OF o] by blast
  have "sv_db srv2 = sv_db srv1" using 1(2) by (simp add: core_def)
  with assms(1) t 1(1) tidy_core [OF 1(2)]
  show "tidy (sv_handler srv2) \<and> others C (sv_db srv2) = others C (sv_db srv)" by (simp add: kept_def)
qed

lemma create_steps:
  "handleCreatePoller env ctx (PCreatePoller q) srv = Some (r, srv2) \<Longrightarrow>
   \<exists>r1 srv1. srv_handle (en_clock env 4) (ph_CreatePoller (en_clock env 0) ctx q) srv = Some (r1, srv1) \<and>
     core (sv_handler srv2) = core (sv_handler srv1)"
  by (auto simp: handleCreatePoller_def Let_def split: sum.splits if_splits prod.splits option.splits
      dest!: core_resolve core_created)

lemma enable_steps:
  "handleEnablePoller env ctx (PEnablePoller q) srv = Some (r, srv2) \<Longrightarrow>
   \<exists>r1 srv1. srv_handle (en_clock env 4) (ph_EnablePoller (en_clock env 0) ctx q) srv = Some (r1, srv1) \<and>
     core (sv_handler srv2) = core (sv_handler srv1)"
  by (auto simp: handleEnablePoller_def Let_def core_start_stop split: sum.splits if_splits prod.splits option.splits
      dest!: core_resolve core_created)

lemma disable_steps:
  "handleDisablePoller env ctx (PDisablePoller q) srv = Some (r, srv2) \<Longrightarrow>
   \<exists>r1 srv1. srv_handle (en_clock env 4) (ph_DisablePoller (en_clock env 0) ctx q) srv = Some (r1, srv1) \<and>
     core (sv_handler srv2) = core (sv_handler srv1)"
  by (auto simp: handleDisablePoller_def Let_def core_start_stop split: sum.splits if_splits prod.splits option.splits)

lemma poller_commands_kept:
  assumes "permits C ctx (sv_handler srv)"
  shows "kept C srv (handleCreatePoller env ctx payload srv)" "kept C srv (handleEnablePoller env ctx payload srv)"
    "kept C srv (handleDisablePoller env ctx payload srv)"
  subgoal
  proof (cases "\<exists>q. payload = PCreatePoller q")
    case True
    then obtain q where q: "payload = PCreatePoller q" by blast
    show ?thesis unfolding q by (rule kept_via [OF kept_handle create_steps], rule poller_handlers_fair(3) [OF assms])
  next
    case False
    then show ?thesis unfolding handleCreatePoller_def by (cases payload) (simp_all add: kept_invalid)
  qed
  subgoal
  proof (cases "\<exists>q. payload = PEnablePoller q")
    case True
    then obtain q where q: "payload = PEnablePoller q" by blast
    show ?thesis unfolding q by (rule kept_via [OF kept_handle enable_steps], rule poller_handlers_fair(6) [OF assms])
  next
    case False
    then show ?thesis unfolding handleEnablePoller_def by (cases payload) (simp_all add: kept_invalid)
  qed
  subgoal
  proof (cases "\<exists>q. payload = PDisablePoller q")
    case True
    then obtain q where q: "payload = PDisablePoller q" by blast
    show ?thesis unfolding q by (rule kept_via [OF kept_handle disable_steps], rule poller_handlers_fair(7) [OF assms])
  next
    case False
    then show ?thesis unfolding handleDisablePoller_def by (cases payload) (simp_all add: kept_invalid)
  qed
  done

lemma kept_if: "(c \<Longrightarrow> kept C srv a) \<Longrightarrow> (\<not> c \<Longrightarrow> kept C srv b) \<Longrightarrow> kept C srv (if c then a else b)"
  by simp

lemma dispatch_kept:
  assumes "permits C (NewContext x rid) (sv_handler srv)" "msgType \<noteq> ''create_namespace''"
  shows "kept C srv (srv_Dispatch env x rid msgType payload srv)"
  unfolding srv_Dispatch_def Let_def
  by (intro kept_if kept_same bind_message_kept namespace_messages_kept target_messages_kept poller_messages_kept
      browse_messages_kept subscription_messages_kept status_messages_kept secret_messages_kept poller_commands_kept
      assms(1)) (use assms(2) in simp)

lemma permits_tidy: "tidy (sv_handler srv) \<Longrightarrow> permits (access (sv_sessions srv) x) (NewContext x rid) (sv_handler srv)"
  by (simp add: permits_def tidy_def NewContext_def)

lemma permits_all: "tidy (sv_handler srv) \<Longrightarrow> permits (\<lambda>_. True) ctx (sv_handler srv)"
  by (simp add: permits_def tidy_def)

lemma dispatch_tidy:
  assumes "srv_Dispatch env x rid msgType payload srv = Some (r, srv')" "tidy (sv_handler srv)"
  shows "tidy (sv_handler srv')"
proof (cases "msgType = ''create_namespace''")
  case True
  then have "srv_Dispatch env x rid msgType payload srv = handleCreateNamespace env (NewContext x rid) payload srv"
    by (simp add: srv_Dispatch_def)
  with create_namespace_kept [of srv env "NewContext x rid" payload] assms show ?thesis by (simp add: kept_def)
next
  case False
  with dispatch_kept [OF permits_all [OF assms(2)]] assms show ?thesis by (simp add: kept_def)
qed

section \<open>Every step of the server\<close>

lemma tidy_iff: "tidy h \<longleftrightarrow> bound_ok (h_sessionManager h) \<and> names_ok (st_db (mg_store (h_mgr h))) \<and>
    p_filed (pm_pollers (mg_Pollers (h_mgr h))) \<and> ns_filed (mg_Namespaces (h_mgr h)) \<and> t_filed (mg_Targets (h_mgr h))"
  by (auto simp: tidy_def held_def pheld_def apart_def)

lemma tidy_sessions: "bound_ok sm \<Longrightarrow> tidy h \<Longrightarrow> tidy (h\<lparr>h_sessionManager := sm\<rparr>)"
  by (simp add: tidy_def)

lemma bound_ok_on_session:
  "(\<And>s. sn_TokenID (f s) = sn_TokenID s \<and> sn_Namespace (f s) = sn_Namespace s) \<Longrightarrow> bound_ok (on_session x f m) = bound_ok m"
  by (rule bound_ok_auth) (rule auth_on_session)

lemma bound_ok_restore:
  assumes "TryRestore now tok conn m = (r, m')"
  shows "bound_ok m' = bound_ok m"
  using assms bound_ok_on_session [where f = "sn_Restore conn"]
  by (auto simp: TryRestore_def sn_Restore_def split: option.splits)

lemma bound_ok_create:
  assumes "CreateSession sid now tok conn m = (x, m')" "bound_ok m"
  shows "bound_ok m'"
proof -
  have d: "deref m' y = (if y = sg_next m then NewSession sid tok conn now else deref m y)" for y
    using assms(1) by (auto simp: CreateSession_def Let_def deref_def)
  have t: "sg_tokens m' = sg_tokens m" using assms(1) by (auto simp: CreateSession_def Let_def)
  show ?thesis
    using assms(2) by (simp add: bound_ok_def access_def CanAccessNamespace_def d t NewSession_def)
qed

lemma auth_remove: "auth (removeSession sid m) = auth m"
  by (simp add: removeSession_def auth_def deref_def Let_def split: option.split)

lemma auth_cleanup: "auth (snd (Cleanup now m)) = auth m"
proof -
  have "auth (foldl (\<lambda>m sid. removeSession sid m) m ids) = auth m" for ids
    by (induction ids arbitrary: m) (simp_all add: auth_remove)
  then show ?thesis by (simp add: Cleanup_def Let_def)
qed

lemma auth_send: "sn_Send data (deref m x) = Some (b, s) \<Longrightarrow> auth (on_session x (\<lambda>_. s) m) = auth m"
  by (auto simp: sn_Send_def auth_def fun_eq_iff split: if_splits)

lemma auth_send_each: "send_each data xs n m = Some (k, m') \<Longrightarrow> auth m' = auth m"
proof (induction xs arbitrary: n m)
  case Nil
  then show ?case by simp
next
  case (Cons x xs)
  then obtain b s where s: "sn_Send data (deref m x) = Some (b, s)"
    by (auto split: option.splits)
  with Cons.prems have "send_each data xs (if b then n + 1 else n) (on_session x (\<lambda>_. s) m) = Some (k, m')" by simp
  from Cons.IH [OF this] auth_send [OF s] show ?case by simp
qed

lemma connect_tidy:
  assumes "handleConn now sid conn token srv = (x, srv')" "tidy (sv_handler srv)"
  shows "tidy (sv_handler srv')"
proof -
  have b: "bound_ok (sv_sessions srv)" using assms(2) by (simp add: tidy_def)
  have "\<exists>sm. (srv' = srv \<or> srv' = set_sessions sm srv) \<and> bound_ok sm"
    using assms(1) b
    by (auto simp: handleConn_def split: option.splits prod.splits dest: bound_ok_restore bound_ok_create)
  with assms(2) show ?thesis by (auto simp: set_sessions_def tidy_sessions)
qed


text \<open>The statements of the flushes leave the three tables of entities alone.\<close>

lemma keeps_flush:
  "keeps names_ok (BatchUpdatePollerStates rows1)" "keeps names_ok (BatchUpdatePollerStats rows2)"
  "keeps names_ok (InsertSamplesBatch samples)" "keeps names_ok (UpdateServerConfig sc)"
  unfolding BatchUpdatePollerStates_def BatchUpdatePollerStats_def InsertSamplesBatch_def InsertSample_def
    UpdateServerConfig_def
  by (auto simp: put_state_def put_stats_def names_ok_def
      intro!: keeps_ret keeps_Transaction keeps_bnd keeps_exec keeps_each)

lemma sync_names:
  assumes "f \<in> {flushStates, flushStats, flushSamples, FlushAll, AddSample x}" "f (m, s) = (m', s')" "names_ok (st_db s)"
  shows "names_ok (st_db s')"
proof -
  have states: "flushStates (m, s) = (m', s') \<Longrightarrow> names_ok (st_db s) \<Longrightarrow> names_ok (st_db s')" for m s m' s'
    by (auto simp: flushStates_def write_states_def Let_def split: if_splits prod.splits sum.splits dest: keepsD [OF keeps_flush(1)])
  have stats: "flushStats (m, s) = (m', s') \<Longrightarrow> names_ok (st_db s) \<Longrightarrow> names_ok (st_db s')" for m s m' s'
    by (auto simp: flushStats_def write_stats_def Let_def split: if_splits prod.splits sum.splits dest: keepsD [OF keeps_flush(2)])
  have samples: "flushSamples (m, s) = (m', s') \<Longrightarrow> names_ok (st_db s) \<Longrightarrow> names_ok (st_db s')" for m s m' s'
    using keepsD [OF keeps_flush(3), of "sm_sampleBuffer m" s]
    by (cases "InsertSamplesBatch (sm_sampleBuffer m) s") (auto simp: flushSamples_def split: if_splits)
  obtain m1 s1 where 1: "flushStates (m, s) = (m1, s1)" by fastforce
  obtain m2 s2 where 2: "flushStats (m1, s1) = (m2, s2)" by fastforce
  consider "f = flushStates" | "f = flushStats" | "f = flushSamples" | "f = FlushAll" | "f = AddSample x"
    using assms(1) by blast
  then show ?thesis
  proof cases
    case 4
    then show ?thesis using assms(2,3) 1 2 states stats samples by (simp add: FlushAll_def)
  next
    case 5
    then show ?thesis using assms(2,3) samples by (simp add: AddSample_def Let_def split: if_splits)
  qed (use assms(2,3) states stats samples in blast)+
qed

lemma with_sync_tidy:
  assumes "f \<in> {flushStates, flushStats, flushSamples, FlushAll, AddSample x}" "tidy h"
  shows "tidy (h\<lparr>h_mgr := with_sync f (h_mgr h)\<rparr>)"
proof -
  let ?sm = "(mg_Sync (h_mgr h))\<lparr>sm_states := mg_States (h_mgr h), sm_stats := mg_Stats (h_mgr h)\<rparr>"
  obtain m s where f: "f (?sm, mg_store (h_mgr h)) = (m, s)" by fastforce
  from sync_names [OF assms(1) f] assms(2) show ?thesis
    by (simp add: tidy_iff with_sync_def Let_def f)
qed

lemma GetPoller_plain:
  assumes "GetPoller n t p s = (Inr (Some x), s')" "names_ok (st_db s)"
  shows "plain_name n"
proof -
  have "Some x = map_option read_Poller (sql_first (\<lambda>r. poller_key r = (n, t, p)) (db_pollers (st_db s)))"
    using query_result(2) [OF assms(1) [unfolded GetPoller_def]] by blast
  from this [symmetric, unfolded map_option_eq_Some]
  obtain y where "sql_first (\<lambda>r. poller_key r = (n, t, p)) (db_pollers (st_db s)) = Some y" by blast
  from sql_first_Some [OF this] assms(2) show ?thesis by (auto simp: names_ok_def)
qed

lemma pm_Get_tidy:
  assumes "pm_Get n t p m = (r, m')" "names_ok (st_db (pm_store m))" "p_filed (pm_pollers m)"
  shows "names_ok (st_db (pm_store m')) \<and> p_filed (pm_pollers m')"
proof (cases "map_of (pm_pollers m) (pollerKey n t p)")
  case (Some x)
  with assms show ?thesis by (simp add: pm_Get_def Let_def)
next
  case None
  obtain q s where g: "GetPoller n t p (pm_store m) = (q, s)" by fastforce
  have d: "st_db s = st_db (pm_store m)" using query_result(1) [OF g [unfolded GetPoller_def]] .
  show ?thesis
  proof (cases "\<exists>x. q = Inr (Some x)")
    case True
    then obtain x where x: "q = Inr (Some x)" by blast
    have "poller_key x = (n, t, p)" "plain_name n"
      using GetPoller_key g GetPoller_plain assms(2) unfolding x by blast+
    with assms None g x d show ?thesis by (auto simp: pm_Get_def on_store_def intro!: p_filed_put)
  next
    case False
    with assms None g d show ?thesis
      by (auto simp: pm_Get_def on_store_def split: sum.splits option.splits)
  qed
qed

lemma poll_tidy:
  assumes "srv_executePoll unmarshal client clock key srv = (result, srv')" "tidy (sv_handler srv)"
  shows "tidy (sv_handler srv')"
proof -
  obtain r m where g: "pm_Get (pk_Namespace key) (pk_Target key) (pk_Poller key) (mg_Pollers (sv_mgr srv)) = (r, m)"
    by fastforce
  let ?m1 = "(sv_mgr srv)\<lparr>mg_Pollers := m\<rparr>"
  obtain c m2 where c: "pm_GetResolvedConfig (clock 0) (clock 1) (pk_Namespace key) (pk_Target key) (pk_Poller key) m = (c, m2)"
    by fastforce
  let ?m2 = "?m1\<lparr>mg_Pollers := m2\<rparr>"
  have t1: "tidy (sv_handler (set_mgr ?m1 srv))"
    using pm_Get_tidy [OF g] assms(2) by (simp add: tidy_iff set_mgr_def)
  have "pm_pollers m2 = pm_pollers m" "st_db (pm_store m2) = st_db (pm_store m)"
    using c by (auto simp: pm_GetResolvedConfig_def split: prod.splits dest: Resolve_db)
  then have "core (sv_handler (set_mgr ?m2 srv)) = core (sv_handler (set_mgr ?m1 srv))"
    by (simp add: core_def set_mgr_def)
  from tidy_core [OF this] t1 have t2: "tidy (sv_handler (set_mgr ?m2 srv))" by blast
  have "srv' = set_mgr ?m1 srv \<or> srv' = set_mgr ?m2 srv"
    using assms(1) by (auto simp: srv_executePoll_def on_pollers_def g c simp del: One_nat_def split: sum.splits option.splits if_splits)
  with t1 t2 show ?thesis by blast
qed

lemma result_tidy:
  assumes "handlePollResult now result srv = Some srv'" "tidy (sv_handler srv)"
  shows "tidy (sv_handler srv')"
proof -
  let ?k = "pr_Key result"
  let ?q = "(pk_Namespace ?k, pk_Target ?k, pk_Poller ?k)"
  let ?p = "mg_Pollers (sv_mgr srv)"
  let ?m = "(sv_mgr srv)\<lparr>mg_Pollers := ?p\<lparr>pm_states := with_state ?q (ps_RecordPollResult (pr_Success result) (pr_Error result) (pr_PollMs result) now) (pm_states ?p),
      pm_stats := with_stats ?q (RecordPoll (pr_Success result) (pr_Timeout result) (pr_PollMs result)) (pm_stats ?p)\<rparr>\<rparr>"
  let ?g = "(sv_handler srv)\<lparr>h_mgr := ?m\<rparr>"
  let ?h = "(sv_handler srv)\<lparr>h_mgr := with_sync (AddSample (sample_of result)) ?m\<rparr>"
  have "core ?g = core (sv_handler srv)" by (simp add: core_def)
  from tidy_core [OF this] assms(2) have "tidy ?g" by blast
  from with_sync_tidy [where f = "AddSample (sample_of result)" and x = "sample_of result", OF _ this] have t: "tidy ?h" by simp
  obtain b h1 where b: "BroadcastSample (pk_Namespace ?k) (pk_Target ?k) (pk_Poller ?k) [] ?h = Some (b, h1)"
    and srv': "srv' = srv\<lparr>sv_handler := h1\<rparr>"
    using assms(1) by (auto simp: handlePollResult_def mg_RecordPollResult_def Let_def split: option.splits prod.splits)
  obtain m where "send_each [] (GetSubscribersFor (pk_Namespace ?k) (subscriptionKey (pk_Target ?k) (pk_Poller ?k))
      (h_sessionManager ?h)) 0 (h_sessionManager ?h) = Some (b, m)" and h1: "h1 = ?h\<lparr>h_sessionManager := m\<rparr>"
    using b by (auto simp: BroadcastSample_def Let_def split: option.splits)
  from bound_ok_auth [OF auth_send_each [OF this(1)]] t have "bound_ok m" by (simp add: tidy_def)
  from tidy_sessions [OF this t] show ?thesis by (simp add: srv' h1)
qed

lemma ListAll_plain:
  assumes "ListAllPollers s = (Inr ps, s')" "names_ok (st_db s)" "p \<in> set ps"
  shows "plain_name (p_Namespace p)"
  using query_result(2) [OF assms(1) [unfolded ListAllPollers_def]] assms(2,3)
  by (auto simp: names_ok_def read_Poller_def)

lemma load_poller_tidy:
  assumes "plain_name (p_Namespace p)" "names_ok (st_db (pm_store m))" "p_filed (pm_pollers m)"
  shows "names_ok (st_db (pm_store (load_poller p m))) \<and> p_filed (pm_pollers (load_poller p m))"
proof -
  have c: "confined C (GetPollerState a b c)" "confined C (GetPollerStats a b c)" for C a b c
    unfolding GetPollerState_def GetPollerStats_def by (intro within_intros)+
  let ?D = "others (\<lambda>_. True) (st_db (pm_store m))"
  let ?m1 = "addToIndexes (p_Namespace p) (p_Target p) (poller_str p) (m\<lparr>pm_pollers := mput (poller_str p) p (pm_pollers m)\<rparr>)"
  have h: "pheld (\<lambda>_. True) ?D m" using assms(2,3) by (simp add: pheld_def apart_def)
  have "pheld (\<lambda>_. True) ?D ?m1" using pheld_put [OF h refl assms(1)] by simp
  moreover obtain r m2 where g: "on_store (GetPollerState (p_Namespace p) (p_Target p) (p_Name p)) ?m1 = (r, m2)" by fastforce
  ultimately have m2: "pheld (\<lambda>_. True) ?D m2" using on_store_pheld(1) [OF g c(1)] by blast
  define m3 where "m3 = (case r of Inr (Some x) \<Rightarrow> m2\<lparr>pm_states := with_state (poller_id_of p) (restore_state p x) (pm_states m2)\<rparr> | _ \<Rightarrow> m2)"
  have m3: "pheld (\<lambda>_. True) ?D m3" using m2 by (simp add: m3_def split: sum.split option.split)
  obtain q m4 where g4: "on_store (GetPollerStats (p_Namespace p) (p_Target p) (p_Name p)) m3 = (q, m4)" by fastforce
  have m4: "pheld (\<lambda>_. True) ?D m4" using on_store_pheld(1) [OF g4 c(2) m3] .
  have "load_poller p m = (case q of Inr (Some x) \<Rightarrow> m4\<lparr>pm_stats := with_stats (poller_id_of p) (restore_stats x) (pm_stats m4)\<rparr> | _ \<Rightarrow> m4)"
    unfolding load_poller_def Let_def g prod.case m3_def [symmetric] g4 by (rule refl)
  with m4 show ?thesis by (simp add: pheld_def apart_def split: sum.split option.split)
qed

lemma pm_Load_tidy:
  assumes "pm_Load m = (r, m')" "names_ok (st_db (pm_store m))" "p_filed (pm_pollers m)"
  shows "names_ok (st_db (pm_store m')) \<and> p_filed (pm_pollers m')"
proof -
  obtain q s where l: "ListAllPollers (pm_store m) = (q, s)" by fastforce
  have d: "st_db s = st_db (pm_store m)" using query_result(1) [OF l [unfolded ListAllPollers_def]] .
  show ?thesis
  proof (cases q)
    case (Inl e)
    with assms l d show ?thesis by (auto simp: pm_Load_def on_store_def)
  next
    case (Inr ps)
    have plain: "\<And>p. p \<in> set ps \<Longrightarrow> plain_name (p_Namespace p)"
      using ListAll_plain l assms(2) unfolding Inr by blast
    have "names_ok (st_db (pm_store m1)) \<and> p_filed (pm_pollers m1) \<Longrightarrow>
        names_ok (st_db (pm_store (foldl (\<lambda>m p. load_poller p m) m1 ps))) \<and>
        p_filed (pm_pollers (foldl (\<lambda>m p. load_poller p m) m1 ps))" for m1
      using plain by (induction ps arbitrary: m1) (simp_all add: load_poller_tidy)
    from this [of "m\<lparr>pm_store := s, pm_pollers := [], pm_byNamespace := [], pm_byTarget := []\<rparr>"]
    show ?thesis using assms(1,2) l d Inr filed_Nil by (auto simp: pm_Load_def on_store_def)
  qed
qed

lemma nsm_Load_filed:
  assumes "nsm_Load c s = (r, c', s')" "names_ok (st_db s)" "ns_filed c"
  shows "st_db s' = st_db s \<and> ns_filed c'"
proof -
  obtain q s1 where l: "ListNamespaces s = (q, s1)" by fastforce
  note d = ListNamespaces_db(1) [OF l]
  show ?thesis
  proof (cases q)
    case (Inl e)
    with assms l d show ?thesis by (auto simp: nsm_Load_def)
  next
    case (Inr nss)
    have plain: "\<forall>x \<in> set nss. plain_name (ns_Name x)"
      using ListNamespaces_db(2) [OF l Inr] assms(2) by (auto simp: names_ok_def)
    have "ns_filed c1 \<Longrightarrow> ns_filed (foldl (\<lambda>m ns. mput (ns_Name ns) ns m) c1 nss)" for c1
      using plain by (induction nss arbitrary: c1) (simp_all add: ns_filed_put)
    from this [of "[]"] assms(1) l d Inr filed_Nil show ?thesis by (auto simp: nsm_Load_def)
  qed
qed

lemma load_targets_filed:
  "load_targets nss c s = (r, c', s') \<Longrightarrow> names_ok (st_db s) \<Longrightarrow> t_filed c \<Longrightarrow> st_db s' = st_db s \<and> t_filed c'"
proof (induction nss arbitrary: c s)
  case Nil
  then show ?case by simp
next
  case (Cons ns nss)
  obtain q s1 where l: "ListTargets (ns_Name ns) s = (q, s1)" by fastforce
  note d = ListTargets_db(1) [OF l]
  show ?case
  proof (cases q)
    case (Inl e)
    with Cons.prems l d show ?thesis by auto
  next
    case (Inr ts)
    have plain: "\<forall>x \<in> set ts. plain_name (t_Namespace x)"
      using ListTargets_db(2) [OF l Inr] Cons.prems(2) by (auto simp: names_ok_def read_Target_def)
    have "t_filed c1 \<Longrightarrow> t_filed (foldl (\<lambda>m t. mput (targetKey (t_Namespace t) (t_Name t)) t m) c1 ts)" for c1
      using plain by (induction ts arbitrary: c1) (simp_all add: t_filed_put)
    with Cons.prems(3) have f: "t_filed (foldl (\<lambda>m t. mput (targetKey (t_Namespace t) (t_Name t)) t m) c ts)" by blast
    have "load_targets nss (foldl (\<lambda>m t. mput (targetKey (t_Namespace t) (t_Name t)) t m) c ts) s1 = (r, c', s')"
      using Cons.prems(1) l Inr by simp
    from Cons.IH [OF this _ f] d Cons.prems(2) show ?thesis by simp
  qed
qed

lemma tm_Load_filed:
  assumes "tm_Load c s = (r, c', s')" "names_ok (st_db s)" "t_filed c"
  shows "st_db s' = st_db s \<and> t_filed c'"
proof -
  obtain q s1 where l: "ListNamespaces s = (q, s1)" by fastforce
  note d = ListNamespaces_db(1) [OF l]
  show ?thesis
  proof (cases q)
    case (Inl e)
    with assms l d show ?thesis by (auto simp: tm_Load_def)
  next
    case (Inr nss)
    then have "load_targets nss [] s1 = (r, c', s')" using assms(1) l by (simp add: tm_Load_def)
    from load_targets_filed [OF this] assms(2) d filed_Nil show ?thesis by simp
  qed
qed

lemma mg_Load_tidy:
  assumes "mg_Load m = (r, m')" "tidy (h\<lparr>h_mgr := m\<rparr>)"
  shows "tidy (h\<lparr>h_mgr := m'\<rparr>)"
proof -
  have t: "bound_ok (h_sessionManager h)" "names_ok (st_db (mg_store m))" "p_filed (pm_pollers (mg_Pollers m))"
    "ns_filed (mg_Namespaces m)" "t_filed (mg_Targets m)"
    using assms(2) by (simp_all add: tidy_iff)
  obtain q1 ns s1 where n: "nsm_Load (mg_Namespaces m) (mg_store m) = (q1, ns, s1)" by (metis prod_cases3)
  note n' = nsm_Load_filed [OF n t(2,4)]
  obtain q2 ts s2 where u: "tm_Load (mg_Targets m) s1 = (q2, ts, s2)" by (metis prod_cases3)
  have u': "st_db s2 = st_db (mg_store m)" "t_filed ts" using tm_Load_filed [OF u] n' t(2,5) by simp_all
  obtain q3 p where l: "pm_Load ((mg_Pollers m)\<lparr>pm_store := s2\<rparr>) = (q3, p)" by fastforce
  have l': "names_ok (st_db (pm_store p)) \<and> p_filed (pm_pollers p)"
    using pm_Load_tidy [OF l] u' t(2,3) by simp
  show ?thesis
  proof (cases q1)
    case (Inl e)
    with assms(1) n n' t show ?thesis by (auto simp: mg_Load_def tidy_iff set_store_def)
  next
    case (Inr a)
    show ?thesis
    proof (cases q2)
      case (Inl e)
      with assms(1) n n' u u' t Inr show ?thesis by (auto simp: mg_Load_def tidy_iff set_store_def Let_def)
    next
      case (Inr b)
      with \<open>q1 = Inr a\<close> assms(1) n n' u u' l l' t show ?thesis
        by (cases q3) (auto simp: mg_Load_def tidy_iff set_store_def on_pollers_def Let_def)
    qed
  qed
qed

lemma schedule_core:
  assumes "schedule_one clock p (n, srv) = Some (n', srv')"
  shows "core (sv_handler srv') = core (sv_handler srv)"
proof -
  obtain c m where c: "pm_GetResolvedConfig (clock 0) (clock 1) (p_Namespace p) (p_Target p) (p_Name p) (mg_Pollers (sv_mgr srv)) = (c, m)"
    by fastforce
  let ?s = "set_mgr ((sv_mgr srv)\<lparr>mg_Pollers := m\<rparr>) srv"
  have "pm_pollers m = pm_pollers (mg_Pollers (sv_mgr srv))" "st_db (pm_store m) = st_db (mg_store (sv_mgr srv))"
    using c by (auto simp: pm_GetResolvedConfig_def split: prod.splits dest: Resolve_db)
  then have s: "core (sv_handler ?s) = core (sv_handler srv)" by (simp add: core_def set_mgr_def)
  obtain srv1 where d: "drain (clock 2) ?s = Some srv1"
    using assms c by (auto simp: schedule_one_def srv_mgr_def on_pollers_def split: option.splits)
  have 1: "core (sv_handler srv1) = core (sv_handler srv)" using drain_core [OF d] s by simp
  consider "srv' = srv1" | srv2 i where "sched_add (clock 2) (poller_key_of (p_Namespace p) (p_Target p) (p_Name p)) i srv1 = Some srv2"
      "srv' = start_and_run (p_Namespace p, p_Target p, p_Name p) srv2"
    using assms c d by (auto simp: schedule_one_def srv_mgr_def on_pollers_def split: option.splits sum.splits)
  then show ?thesis
  proof cases
    case 2
    have "core (sv_handler srv2) = core (sv_handler srv1)" using 2(1) by (auto simp: sched_add_def split: sum.splits)
    with 1 2(2) show ?thesis by (simp add: core_start_stop)
  qed (use 1 in simp)
qed

lemma schedule_all_core:
  "schedule_all clock ps (n, srv) = Some (n', srv') \<Longrightarrow> core (sv_handler srv') = core (sv_handler srv)"
proof (induction ps arbitrary: n srv)
  case Nil
  then show ?case by simp
next
  case (Cons p ps)
  then obtain n1 srv1 where 1: "schedule_one clock p (n, srv) = Some (n1, srv1)"
    by (auto split: option.splits)
  with Cons.prems have "schedule_all clock ps (n1, srv1) = Some (n', srv')" by simp
  from Cons.IH [OF this] schedule_core [OF 1] show ?case by simp
qed

lemma run_tidy:
  assumes "srv_Run clock srv = Some (r, srv')" "tidy (sv_handler srv)"
  shows "tidy (sv_handler srv')"
proof -
  obtain q m where l: "mg_Load (sv_mgr srv) = (q, m)" by fastforce
  have "tidy ((sv_handler srv)\<lparr>h_mgr := sv_mgr srv\<rparr>)" using assms(2) by simp
  from mg_Load_tidy [OF l this] have t: "tidy (sv_handler (set_mgr m srv))" by (simp add: set_mgr_def)
  show ?thesis
  proof (cases q)
    case (Inl e)
    with assms(1) l t show ?thesis by (auto simp: srv_Run_def)
  next
    case (Inr u)
    then obtain n where "schedule_all clock (pm_GetEnabledPollers (mg_Pollers (sv_mgr (set_mgr m srv)))) (0, set_mgr m srv) = Some (n, srv')"
      using assms(1) l by (auto simp: srv_Run_def scheduleEnabledPollers_def split: option.splits)
    from tidy_core [OF schedule_all_core [OF this]] t show ?thesis by simp
  qed
qed

lemma new_tidy:
  assumes "srv_New (Some cfg) (Inr s) version now rnd = Inr srv" "cf_Manager cfg = None" "names_ok (st_db s)"
  shows "tidy (sv_handler srv)"
proof -
  let ?sc = "\<lparr>sc_DefaultTimeoutMs = cf_DefaultTimeoutMs cfg, sc_DefaultRetries = cf_DefaultRetries cfg,
    sc_DefaultIntervalMs = cf_DefaultIntervalMs cfg, sc_DefaultBufferSize = cf_DefaultBufferSize cfg\<rparr>"
  have "names_ok (st_db (snd (UpdateServerConfig ?sc s)))"
    using keeps_flush(4) assms(3) unfolding keeps_def by blast
  with assms(1,2) show ?thesis
    by (auto simp: srv_New_def server_manager_def mg_New_def tidy_iff NewHandler_def SetCallbacks_def set_store_def
        NewPollerManager_def NewNamespaceManager_def NewTargetManager_def filed_Nil bound_ok_def NewSessionManager_def
        deref_def NewSession_def Let_def split: option.splits)
qed

theorem step_tidy: "srv_step srv srv' \<Longrightarrow> tidy (sv_handler srv) \<Longrightarrow> tidy (sv_handler srv')"
proof (induction rule: srv_step.induct)
  case (disconnect srv now x)
  have "bound_ok (on_session x (sn_MarkLost now) (sv_sessions srv)) = bound_ok (sv_sessions srv)"
    by (rule bound_ok_on_session) (simp add: sn_MarkLost_def)
  then show ?case using disconnect by (simp add: disconnect_def set_sessions_def tidy_iff)
next
  case (cleanup srv now)
  then show ?case using bound_ok_auth [OF auth_cleanup] by (simp add: cleanup_tick_def set_sessions_def tidy_iff)
next
  case (flush f srv)
  from with_sync_tidy [where h = "sv_handler srv" and f = f] flush show ?case by (auto simp: set_mgr_def)
next
  case (stop srv)
  from with_sync_tidy [where h = "sv_handler srv" and f = FlushAll] stop show ?case
    by (simp add: srv_Shutdown_def mg_Stop_def set_mgr_def)
qed (auto intro: run_tidy connect_tidy dispatch_tidy poll_tidy result_tidy)

lemma reach_tidy: "srv_reach s srv \<Longrightarrow> names_ok (st_db s) \<Longrightarrow> tidy (sv_handler srv)"
  by (induction rule: srv_reach.induct) (auto intro: new_tidy step_tidy)

section \<open>The property\<close>


definition ex_tenant_store :: Store where
  "ex_tenant_store = (open_store (\<lambda>_. None) None)\<lparr>st_db := empty_db\<lparr>db_namespaces :=
     map (\<lambda>n. \<lparr>ns_Name = n, ns_Description = [], ns_Config = None, ns_CreatedAt = 0, ns_UpdatedAt = 0, ns_Version = 1\<rparr>) [''a'', ''b'']\<rparr>\<rparr>"

definition ex_tenant_cfg :: SrvConfig where
  "ex_tenant_cfg =
     \<lparr>cf_Manager = None, cf_Listen = [], cf_TLSCertFile = [], cf_TLSKeyFile = [],
      cf_Tokens = [\<lparr>tk_ID = ''u'', tk_Token = ''k'', tk_Namespaces = [''a'']\<rparr>],
      cf_AuthTimeoutSec = 3, cf_ReconnectWindowSec = 6, cf_PollerWorkers = 1, cf_PollerQueueSize = 2,
      cf_DBPath = [], cf_SecretKeyPath = [], cf_DefaultTimeoutMs = 5, cf_DefaultRetries = 2,
      cf_DefaultIntervalMs = 1, cf_DefaultBufferSize = 3\<rparr>"

definition ex_env :: env where
  "ex_env = \<lparr>en_clock = (\<lambda>n. int n), en_seal = (\<lambda>k n p. p), en_nonce = []\<rparr>"

definition ex_started :: Server where
  "ex_started = projr (srv_New (Some ex_tenant_cfg) (Inr ex_tenant_store) ''v'' 0 (\<lambda>_. 0))"

definition ex_connected :: Server where
  "ex_connected = snd (handleConn 1 ''s'' 0 (Some ''k'') ex_started)"

definition ex_update :: outcome where
  "ex_update = srv_Dispatch ex_env 0 1 ''update_namespace''
     (PUpdateNamespace \<lparr>uq_Name = ''a'', uq_Description = Some ''x'', uq_Config = None\<rparr>) ex_connected"

lemma ex_started_is: "srv_New (Some ex_tenant_cfg) (Inr ex_tenant_store) ''v'' 0 (\<lambda>_. 0) = Inr ex_started"
  by (simp add: ex_started_def srv_New_def server_manager_def mg_New_def ex_tenant_cfg_def srv_DefaultConfig_def)

lemma respond_server: "out = Some (r, srv) \<Longrightarrow> \<exists>r'. respond mk out = Some (r', srv)"
  by (cases r) (simp_all add: respond_def)

lemma ex_update_is:
  "\<exists>r srv'. ex_update = Some (r, srv') \<and> map ns_Description (db_namespaces (sv_db srv')) = [''x'', []]"
proof -
  define out where "out = srv_handle 4 (nsh_UpdateNamespace 0 1 (NewContext 0 1)
     \<lparr>uq_Name = ''a'', uq_Description = Some ''x'', uq_Config = None\<rparr>) ex_connected"
  have "map_option (\<lambda>p. map ns_Description (db_namespaces (sv_db (snd p)))) out = Some [''x'', []]"
    unfolding out_def by code_simp
  then obtain r srv' where o: "out = Some (r, srv')" "map ns_Description (db_namespaces (sv_db srv')) = [''x'', []]"
    by (auto simp del: map_eq_Cons_conv)
  have "ex_update = respond RUpdateNamespace out"
    by (simp add: ex_update_def srv_Dispatch_def handleUpdateNamespace_def out_def ex_env_def)
  with respond_server [OF o(1)] obtain r' where "ex_update = Some (r', srv')" by metis
  with o(2) show ?thesis by metis
qed

lemma ex_connected_reach: "srv_reach ex_tenant_store ex_connected"
proof (rule srv_reach.step)
  show "srv_reach ex_tenant_store ex_started"
    by (rule srv_reach.start [OF ex_started_is]) (simp add: ex_tenant_cfg_def srv_DefaultConfig_def)
  show "srv_step ex_started ex_connected"
    unfolding ex_connected_def by (rule srv_step.connect [OF prod.collapse [symmetric]])
qed

lemma ex_names: "names_ok (st_db ex_tenant_store)"
  by (simp add: ex_tenant_store_def empty_db_def names_ok_def)


text \<open>\<open>create_namespace\<close> asks for no access: the token of the example may use \<open>a\<close> only, and makes \<open>z\<close>.\<close>

lemma create_namespace_unchecked:
  "\<not> access (sv_sessions ex_connected) 0 ''z'' \<and>
   map ns_Name (db_namespaces (st_db (mg_store (h_mgr (snd (nsh_CreateNamespace 0 1 (NewContext 0 1)
     \<lparr>cq_Name = ''z'', cq_Description = [], cq_Config = None\<rparr> (sv_handler ex_connected))))))) = [''a'', ''b'', ''z'']"
  by code_simp

end
