(* ===== verification/TargetBuffer.thy ===== *)
theory TargetBuffer
  imports Prelude "HOL-Library.Signed_Division"
begin

text \<open>
  The polled target of internal/server/poller.go: its identity, its owners, its state and statistics, and the
  ring buffer of its last samples.

  The messages the code reads (\<open>CreateTargetRequest\<close>, \<open>SNMPTargetConfig\<close>) are generated types; they are
  records of the fields that are read, the rest of the SNMP configuration is the type parameter
  \<open>'c\<close>. Ports and intervals have their width, so the port is cut to 16 bits as the code does;
  counters and times are \<open>int\<close>, far below the 63 bits of the code. \<open>None\<close> is a panic: an index out of
  range, a negative length, a division by zero.
\<close>

section \<open>The target\<close>

record RingSample =
  rs_TimestampMs :: int
  rs_Counter :: "64 word"
  rs_Text :: string
  rs_Valid :: bool
  rs_Error :: string
  rs_PollMs :: int

definition zero_sample :: RingSample where
  "zero_sample = \<lparr>rs_TimestampMs = 0, rs_Counter = 0, rs_Text = [], rs_Valid = False, rs_Error = [], rs_PollMs = 0\<rparr>"

record 'c SNMPTarget =
  sx_Host :: string
  sx_Port :: "32 word"
  sx_Oid :: string
  sx_rest :: 'c

record 'c TargetRequest =
  tq_Name :: string
  tq_Description :: string
  tq_Tags :: "string list"
  tq_Persistent :: bool
  tq_IntervalMs :: "32 word"
  tq_BufferSize :: "32 word"
  tq_Snmp :: "'c SNMPTarget option"

record 'c PolledTarget =
  pt_ID :: string
  pt_Name :: string
  pt_Description :: string
  pt_Tags :: "string list"
  pt_Persistent :: bool
  pt_Protocol :: string
  pt_Host :: string
  pt_Port :: "16 word"
  pt_OID :: string
  pt_SNMP :: "'c SNMPTarget option"
  pt_IntervalMs :: "32 word"
  pt_State :: string
  pt_LastPollMs :: int
  pt_LastError :: string
  pt_ErrCount :: nat
  pt_Owners :: "(string, bool) gomap"
  pt_CreatedAt :: int
  pt_PollsTotal :: int
  pt_PollsOK :: int
  pt_PollsFailed :: int
  pt_PollMsTotal :: int
  pt_PollMsMin :: int
  pt_PollMsMax :: int
  pt_buffer :: "RingSample list"
  pt_bufSize :: nat
  pt_writeIdx :: nat
  pt_count :: nat

definition NewTarget :: "int \<Rightarrow> string \<Rightarrow> 'c TargetRequest \<Rightarrow> 32 word \<Rightarrow> 'c PolledTarget" where
  "NewTarget now ident req defaultBufSize =
     (let bufSize = (if tq_BufferSize req = 0 then unat defaultBufSize else unat (tq_BufferSize req));
          t = \<lparr>pt_ID = ident, pt_Name = tq_Name req, pt_Description = tq_Description req, pt_Tags = tq_Tags req,
               pt_Persistent = tq_Persistent req, pt_Protocol = [], pt_Host = [], pt_Port = 0, pt_OID = [],
               pt_SNMP = None, pt_IntervalMs = (if tq_IntervalMs req = 0 then 1000 else tq_IntervalMs req),
               pt_State = ''polling'', pt_LastPollMs = 0, pt_LastError = [], pt_ErrCount = 0, pt_Owners = [],
               pt_CreatedAt = now, pt_PollsTotal = 0, pt_PollsOK = 0, pt_PollsFailed = 0, pt_PollMsTotal = 0,
               pt_PollMsMin = -1, pt_PollMsMax = 0, pt_buffer = replicate bufSize zero_sample,
               pt_bufSize = bufSize, pt_writeIdx = 0, pt_count = 0\<rparr>
      in case tq_Snmp req of
           None \<Rightarrow> t
         | Some cfg \<Rightarrow>
             (let port = ucast (sx_Port cfg) in
              t\<lparr>pt_Protocol := ''snmp'', pt_Host := sx_Host cfg, pt_Port := (if port = 0 then 161 else port),
                pt_OID := sx_Oid cfg, pt_SNMP := Some cfg\<rparr>))"

definition pt_Key :: "'c PolledTarget \<Rightarrow> string" where
  "pt_Key t = pt_Host t @ '':'' @ show_nat (unat (pt_Port t)) @ ''/'' @ pt_OID t"

section \<open>Owners\<close>

definition AddOwner :: "string \<Rightarrow> 'c PolledTarget \<Rightarrow> 'c PolledTarget" where
  "AddOwner sessionID t = t\<lparr>pt_Owners := mput sessionID True (pt_Owners t)\<rparr>"

definition RemoveOwner :: "string \<Rightarrow> 'c PolledTarget \<Rightarrow> 'c PolledTarget" where
  "RemoveOwner sessionID t = t\<lparr>pt_Owners := mdel sessionID (pt_Owners t)\<rparr>"

definition GetOwners :: "'c PolledTarget \<Rightarrow> string list" where
  "GetOwners t = mkeys (pt_Owners t)"

definition HasOwners :: "'c PolledTarget \<Rightarrow> bool" where
  "HasOwners t \<longleftrightarrow> length (pt_Owners t) > 0"

definition OwnerCount :: "'c PolledTarget \<Rightarrow> nat" where
  "OwnerCount t = length (pt_Owners t)"

definition IsConfigTarget :: "'c PolledTarget \<Rightarrow> bool" where
  "IsConfigTarget t \<longleftrightarrow> map_of (pt_Owners t) ''$config'' = Some True"

section \<open>The ring buffer\<close>

text \<open>\<open>WriteSample\<close> in its three parts: the slot, the state, the timing.\<close>

definition write_slot :: "RingSample \<Rightarrow> 'c PolledTarget \<Rightarrow> 'c PolledTarget option" where
  "write_slot s t =
     (if pt_writeIdx t \<ge> length (pt_buffer t) \<or> pt_bufSize t = 0 then None
      else Some (t\<lparr>pt_buffer := (pt_buffer t)[pt_writeIdx t := s],
                   pt_writeIdx := (pt_writeIdx t + 1) mod pt_bufSize t,
                   pt_count := (if pt_count t < pt_bufSize t then pt_count t + 1 else pt_count t)\<rparr>))"

definition write_state :: "RingSample \<Rightarrow> 'c PolledTarget \<Rightarrow> 'c PolledTarget" where
  "write_state s t0 =
     (let t = t0\<lparr>pt_LastPollMs := rs_TimestampMs s, pt_PollsTotal := pt_PollsTotal t0 + 1\<rparr> in
      if rs_Valid s
      then t\<lparr>pt_State := ''polling'', pt_LastError := [], pt_ErrCount := 0, pt_PollsOK := pt_PollsOK t + 1\<rparr>
      else let t' = t\<lparr>pt_LastError := rs_Error s, pt_ErrCount := pt_ErrCount t + 1,
                      pt_PollsFailed := pt_PollsFailed t + 1\<rparr>
           in if pt_ErrCount t' \<ge> 3 then t'\<lparr>pt_State := ''unreachable''\<rparr> else t')"

definition write_timing :: "RingSample \<Rightarrow> 'c PolledTarget \<Rightarrow> 'c PolledTarget" where
  "write_timing s t =
     t\<lparr>pt_PollMsTotal := pt_PollMsTotal t + rs_PollMs s,
       pt_PollMsMin := (if pt_PollMsMin t < 0 \<or> rs_PollMs s < pt_PollMsMin t then rs_PollMs s else pt_PollMsMin t),
       pt_PollMsMax := (if rs_PollMs s > pt_PollMsMax t then rs_PollMs s else pt_PollMsMax t)\<rparr>"

definition WriteSample :: "RingSample \<Rightarrow> 'c PolledTarget \<Rightarrow> 'c PolledTarget option" where
  "WriteSample s t = map_option (\<lambda>t'. write_timing s (write_state s t')) (write_slot s t)"

definition ReadLastN :: "int \<Rightarrow> 'c PolledTarget \<Rightarrow> RingSample list option" where
  "ReadLastN n0 t =
     (let n = (if n0 > int (pt_count t) then int (pt_count t) else n0) in
      if n = 0 then Some []
      else if n < 0 \<or> pt_bufSize t = 0 then None
      else let start = nat ((int (pt_writeIdx t) - n + int (pt_bufSize t)) smod int (pt_bufSize t))
           in Some (map (\<lambda>i. pt_buffer t ! ((start + i) mod pt_bufSize t)) [0..<nat n]))"

text \<open>The samples \<open>ResizeBuffer\<close> takes out of the old buffer, oldest first.\<close>

definition kept_samples :: "nat \<Rightarrow> 'c PolledTarget \<Rightarrow> RingSample list" where
  "kept_samples samplesToKeep t =
     (if samplesToKeep > 0
      then let skipCount = pt_count t - samplesToKeep;
               start = nat ((int (pt_writeIdx t) - int (pt_count t) + int skipCount + int (pt_bufSize t))
                            smod int (pt_bufSize t))
           in map (\<lambda>i. pt_buffer t ! ((start + i) mod pt_bufSize t)) [0..<samplesToKeep]
      else [])"

definition ResizeBuffer :: "int \<Rightarrow> 'c PolledTarget \<Rightarrow> 'c PolledTarget option" where
  "ResizeBuffer newSize t =
     (if newSize = int (pt_bufSize t) then Some t
      else if newSize \<le> 0 then None
      else
        let samplesToKeep = (if int (pt_count t) > newSize then nat newSize else pt_count t);
            samples = kept_samples samplesToKeep t
        in Some (t\<lparr>pt_buffer := samples @ drop (length samples) (replicate (nat newSize) zero_sample),
                   pt_bufSize := nat newSize, pt_count := samplesToKeep,
                   pt_writeIdx := samplesToKeep mod nat newSize\<rparr>))"

definition pt_BufferSize :: "'c PolledTarget \<Rightarrow> nat" where
  "pt_BufferSize t = pt_bufSize t"

section \<open>The message\<close>

record 'c TargetMsg =
  tg_Id :: string
  tg_Name :: string
  tg_Description :: string
  tg_Tags :: "string list"
  tg_Persistent :: bool
  tg_Protocol :: string
  tg_IntervalMs :: "32 word"
  tg_BufferSize :: "32 word"
  tg_State :: string
  tg_LastPollMs :: int
  tg_LastError :: string
  tg_ErrorCount :: "32 word"
  tg_SamplesBuffered :: "32 word"
  tg_OwnerCount :: "32 word"
  tg_CreatedAtMs :: int
  tg_PollsTotal :: int
  tg_PollsSuccess :: int
  tg_PollsFailed :: int
  tg_AvgPollMs :: "32 word"
  tg_MinPollMs :: int
  tg_MaxPollMs :: int
  tg_Snmp :: "'c SNMPTarget option"

text \<open>\<open>int32(x)\<close> keeps the low 32 bits, read with a sign.\<close>

definition avg_poll :: "'c PolledTarget \<Rightarrow> 32 word" where
  "avg_poll t = (if pt_PollsTotal t > 0 then word_of_int (pt_PollMsTotal t sdiv pt_PollsTotal t) else 0)"

definition min_poll :: "'c PolledTarget \<Rightarrow> int" where
  "min_poll t = (if pt_PollMsMin t < 0 then 0 else pt_PollMsMin t)"

definition ToProto :: "'c PolledTarget \<Rightarrow> 'c TargetMsg" where
  "ToProto t =
     \<lparr>tg_Id = pt_ID t, tg_Name = pt_Name t, tg_Description = pt_Description t, tg_Tags = pt_Tags t,
      tg_Persistent = pt_Persistent t, tg_Protocol = pt_Protocol t, tg_IntervalMs = pt_IntervalMs t,
      tg_BufferSize = of_nat (pt_bufSize t), tg_State = pt_State t, tg_LastPollMs = pt_LastPollMs t,
      tg_LastError = pt_LastError t, tg_ErrorCount = of_nat (pt_ErrCount t),
      tg_SamplesBuffered = of_nat (pt_count t), tg_OwnerCount = of_nat (length (pt_Owners t)),
      tg_CreatedAtMs = pt_CreatedAt t, tg_PollsTotal = pt_PollsTotal t, tg_PollsSuccess = pt_PollsOK t,
      tg_PollsFailed = pt_PollsFailed t, tg_AvgPollMs = avg_poll t, tg_MinPollMs = min_poll t,
      tg_MaxPollMs = pt_PollMsMax t, tg_Snmp = pt_SNMP t\<rparr>"

section \<open>The buffer holds the last samples\<close>

text \<open>The last \<open>k\<close> elements of a list, and the \<open>k\<close> slots before the write position of a ring of \<open>B\<close> slots.\<close>

definition last_n :: "nat \<Rightarrow> 'a list \<Rightarrow> 'a list" where
  "last_n k xs = drop (length xs - k) xs"

definition window :: "'a list \<Rightarrow> nat \<Rightarrow> nat \<Rightarrow> nat \<Rightarrow> 'a list" where
  "window buf B w k = map (\<lambda>i. buf ! ((w + (B - k) + i) mod B)) [0..<k]"

lemma length_window [simp]: "length (window buf B w k) = k"
  by (simp add: window_def)

lemma length_last_n [simp]: "length (last_n k xs) = min k (length xs)"
  by (simp add: last_n_def)

lemma window_last:
  assumes "k \<le> m" "m \<le> B"
  shows "window buf B w k = last_n k (window buf B w m)"
proof (rule nth_equalityI)
  fix i
  assume "i < length (window buf B w k)"
  then have i: "i < k" by simp
  have e: "w + (B - k) + i = w + (B - m) + (m - k + i)" using assms by simp
  have l: "window buf B w k ! i = buf ! ((w + (B - k) + i) mod B)" using i by (simp add: window_def)
  have "last_n k (window buf B w m) ! i = window buf B w m ! (m - k + i)"
    using assms(1) i by (simp add: last_n_def)
  also have "\<dots> = buf ! ((w + (B - m) + (m - k + i)) mod B)"
  proof -
    have "m - k + i < m" using assms(1) i by simp
    then show ?thesis unfolding window_def by (subst nth_map) (simp_all only: length_upt diff_zero nth_upt add_0)
  qed
  finally show "window buf B w k ! i = last_n k (window buf B w m) ! i" unfolding l e by simp
qed (use assms in simp)

lemma window_write:
  assumes "length buf = B" "w < B" "k < B"
  shows "window (buf[w := s]) B ((w + 1) mod B) (k + 1) = window buf B w k @ [s]"
proof (rule nth_equalityI)
  show "length (window (buf[w := s]) B ((w + 1) mod B) (k + 1)) = length (window buf B w k @ [s])" by simp
next
  fix i
  assume "i < length (window (buf[w := s]) B ((w + 1) mod B) (k + 1))"
  then have i: "i \<le> k" by simp
  have "((w + 1) mod B + (B - (k + 1)) + i) mod B = (w + 1 + (B - (k + 1)) + i) mod B"
    by (metis mod_add_left_eq add.assoc)
  also have "w + 1 + (B - (k + 1)) + i = w + (B - k) + i" using assms(3) by simp
  finally have pos: "((w + 1) mod B + (B - (k + 1)) + i) mod B = (w + (B - k) + i) mod B" .
  have other: "(w + (B - k) + i) mod B \<noteq> w" if "i < k"
  proof (cases "w + (B - k) + i < B")
    case True
    with assms(3) show ?thesis by simp
  next
    case False
    with that assms(2,3) have "(w + (B - k) + i) mod B = w + (B - k) + i - B" by (simp add: mod_if)
    with that assms(2,3) False show ?thesis by simp
  qed
  show "window (buf[w := s]) B ((w + 1) mod B) (k + 1) ! i = (window buf B w k @ [s]) ! i"
  proof (cases "i < k")
    case True
    with pos other show ?thesis by (simp add: window_def nth_append)
  next
    case False
    with i have "i = k" by simp
    then have "(w + (B - k) + i) mod B = w" using assms(2,3) by simp
    with pos \<open>i = k\<close> assms show ?thesis by (simp add: window_def nth_append)
  qed
qed

definition ring_ok :: "'c PolledTarget \<Rightarrow> bool" where
  "ring_ok t \<longleftrightarrow> length (pt_buffer t) = pt_bufSize t \<and> pt_writeIdx t < pt_bufSize t \<and> pt_count t \<le> pt_bufSize t"

definition contents :: "'c PolledTarget \<Rightarrow> RingSample list" where
  "contents t = window (pt_buffer t) (pt_bufSize t) (pt_writeIdx t) (pt_count t)"

lemma write_rest:
  "pt_buffer (write_timing s (write_state s t)) = pt_buffer t" "pt_bufSize (write_timing s (write_state s t)) = pt_bufSize t"
  "pt_writeIdx (write_timing s (write_state s t)) = pt_writeIdx t" "pt_count (write_timing s (write_state s t)) = pt_count t"
  by (simp_all add: write_timing_def write_state_def Let_def)

lemma WriteSample_buffer:
  assumes "length (pt_buffer t) = pt_bufSize t" "pt_writeIdx t < pt_bufSize t" "pt_count t \<le> pt_bufSize t"
  obtains t' where "WriteSample s t = Some t'" "pt_buffer t' = (pt_buffer t)[pt_writeIdx t := s]" "pt_bufSize t' = pt_bufSize t"
    "pt_writeIdx t' = (pt_writeIdx t + 1) mod pt_bufSize t" "pt_count t' = min (pt_count t + 1) (pt_bufSize t)"
proof -
  let ?t = "t\<lparr>pt_buffer := (pt_buffer t)[pt_writeIdx t := s], pt_writeIdx := (pt_writeIdx t + 1) mod pt_bufSize t,
             pt_count := (if pt_count t < pt_bufSize t then pt_count t + 1 else pt_count t)\<rparr>"
  have "WriteSample s t = Some (write_timing s (write_state s ?t))"
    using assms by (simp add: WriteSample_def write_slot_def)
  then show ?thesis by (rule that) (use assms(3) in \<open>simp_all add: write_rest\<close>)
qed

lemma WriteSample_ring:
  assumes "ring_ok t"
  obtains t' where "WriteSample s t = Some t'" "ring_ok t'" "pt_bufSize t' = pt_bufSize t"
    "contents t' = last_n (pt_bufSize t) (contents t @ [s])"
proof -
  let ?B = "pt_bufSize t" and ?w = "pt_writeIdx t" and ?c = "pt_count t"
  have ok: "length (pt_buffer t) = ?B" "?w < ?B" "?c \<le> ?B" using assms by (auto simp: ring_ok_def)
  obtain t' where w: "WriteSample s t = Some t'" and t': "pt_buffer t' = (pt_buffer t)[?w := s]" "pt_bufSize t' = ?B"
    "pt_writeIdx t' = (?w + 1) mod ?B" "pt_count t' = min (?c + 1) ?B"
    by (rule WriteSample_buffer [OF ok])
  have j: "min (?c + 1) ?B = min ?c (?B - 1) + 1" "min ?c (?B - 1) < ?B" using ok(2,3) by auto
  have "contents t' = window (pt_buffer t) ?B ?w (min ?c (?B - 1)) @ [s]"
    unfolding contents_def t' j(1) by (rule window_write [OF ok(1,2) j(2)])
  also have "\<dots> = last_n (min ?c (?B - 1)) (contents t) @ [s]"
    using window_last [of "min ?c (?B - 1)" ?c ?B] ok by (simp add: contents_def)
  also have "\<dots> = last_n ?B (contents t @ [s])"
  proof (cases "?c = ?B")
    case True
    have "length (contents t) = ?B" using True by (simp add: contents_def)
    with ok(2) show ?thesis unfolding last_n_def True by simp
  next
    case False
    have "length (contents t) = ?c" "?c < ?B" using ok(3) False by (simp_all add: contents_def)
    then show ?thesis unfolding last_n_def by simp
  qed
  finally have "contents t' = last_n ?B (contents t @ [s])" .
  moreover have "ring_ok t'" using ok t' by (simp add: ring_ok_def)
  ultimately show ?thesis using that [OF w] t'(2) by simp
qed

lemma start_index:
  assumes "w < B" "n \<le> B"
  shows "nat ((int w - int n + int B) smod int B) = (w + (B - n)) mod B"
proof -
  define x where "x = w + (B - n)"
  have x: "int w - int n + int B = int x" using assms by (simp add: x_def)
  have "int x smod int B = int (x mod B)" by (cases "x mod B = 0") (auto simp: smod_int_alt_def zmod_int sgn_if)
  then show ?thesis unfolding x x_def [symmetric] by simp
qed

lemma ReadLastN_ring:
  assumes "ring_ok t" "n \<ge> 0"
  shows "ReadLastN n t = Some (last_n (nat n) (contents t))"
proof -
  let ?B = "pt_bufSize t" and ?w = "pt_writeIdx t" and ?c = "pt_count t"
  have ok: "length (pt_buffer t) = ?B" "?w < ?B" "?c \<le> ?B" using assms(1) by (auto simp: ring_ok_def)
  define k where "k = min (nat n) ?c"
  have k: "(if n > int ?c then int ?c else n) = int k" "k \<le> ?c" using assms(2) by (auto simp: k_def)
  have "ReadLastN n t = (if k = 0 then Some [] else Some (window (pt_buffer t) ?B ?w k))"
    using ok k(2) start_index [of ?w ?B k]
    by (simp add: ReadLastN_def Let_def k(1) window_def mod_add_left_eq)
  also have "\<dots> = Some (last_n k (contents t))"
    using window_last [OF k(2) ok(3)] ok by (auto simp: contents_def last_n_def)
  also have "last_n k (contents t) = last_n (nat n) (contents t)"
    by (auto simp: last_n_def k_def contents_def min_def)
  finally show ?thesis .
qed

lemma kept_window:
  assumes "ring_ok t" "k \<le> pt_count t"
  shows "kept_samples k t = last_n k (contents t)"
proof -
  have ok: "pt_writeIdx t < pt_bufSize t" "pt_count t \<le> pt_bufSize t" using assms(1) by (auto simp: ring_ok_def)
  have "int (pt_writeIdx t) - int (pt_count t) + int (pt_count t - k) = int (pt_writeIdx t) - int k"
    using assms(2) by simp
  then have "kept_samples k t = window (pt_buffer t) (pt_bufSize t) (pt_writeIdx t) k"
    using start_index [of "pt_writeIdx t" "pt_bufSize t" k] ok assms(2)
    by (simp add: kept_samples_def Let_def window_def mod_add_left_eq)
  then show ?thesis using window_last [OF assms(2) ok(2)] by (simp add: contents_def)
qed

lemma ResizeBuffer_ring:
  assumes "ring_ok t" "k > 0"
  obtains t' where "ResizeBuffer (int k) t = Some t'" "ring_ok t'" "pt_bufSize t' = k"
    "contents t' = last_n k (contents t)"
proof (cases "k = pt_bufSize t")
  case True
  have "ResizeBuffer (int k) t = Some t" using True by (simp add: ResizeBuffer_def)
  moreover have "contents t = last_n k (contents t)"
    using assms(1) True by (simp add: last_n_def contents_def ring_ok_def)
  ultimately show ?thesis by (rule that [OF _ assms(1) True [symmetric]])
next
  case False
  define m where "m = min k (pt_count t)"
  define xs where "xs = kept_samples m t"
  have xs: "xs = last_n m (contents t)" "length xs = m"
    using kept_window [OF assms(1), of m] by (simp_all add: xs_def m_def contents_def)
  let ?t = "t\<lparr>pt_buffer := xs @ drop m (replicate k zero_sample), pt_bufSize := k, pt_count := m, pt_writeIdx := m mod k\<rparr>"
  have m: "(if int (pt_count t) > int k then k else pt_count t) = m" "m \<le> k" by (auto simp: m_def)
  have n: "int k \<noteq> int (pt_bufSize t)" "\<not> int k \<le> 0" using False assms(2) by simp_all
  have r: "ResizeBuffer (int k) t = Some ?t"
    unfolding ResizeBuffer_def Let_def nat_int m(1) xs_def [symmetric] xs(2) by (simp only: n if_False)
  have ring: "ring_ok ?t" using assms(2) m(2) xs(2) by (simp add: ring_ok_def)
  have "contents ?t = xs"
  proof (rule nth_equalityI)
    fix i
    assume "i < length (contents ?t)"
    then have i: "i < m" by (simp add: contents_def)
    have "(m mod k + (k - m) + i) mod k = i"
      using i m(2) assms(2) by (cases "m = k") simp_all
    with i xs(2) show "contents ?t ! i = xs ! i" by (simp add: contents_def window_def nth_append)
  qed (simp add: contents_def xs(2))
  moreover have "last_n m (contents t) = last_n k (contents t)"
    by (auto simp: last_n_def m_def contents_def min_def)
  ultimately show ?thesis using that [OF r ring] xs(1) by simp
qed

section \<open>A target in use\<close>

text \<open>The calls that touch the buffer, in the order the target's mutex admits them; \<open>None\<close> is a panic.\<close>

datatype ring_op = WriteOp RingSample | ResizeOp int

fun ring_run :: "ring_op list \<Rightarrow> 'c PolledTarget \<Rightarrow> 'c PolledTarget option" where
  "ring_run [] t = Some t"
| "ring_run (WriteOp s # ops) t = Option.bind (WriteSample s t) (ring_run ops)"
| "ring_run (ResizeOp k # ops) t = Option.bind (ResizeBuffer k t) (ring_run ops)"

text \<open>What they promise: a list that keeps its last elements, and the capacity.\<close>

fun kept_run :: "ring_op list \<Rightarrow> nat \<Rightarrow> RingSample list \<Rightarrow> nat \<times> RingSample list" where
  "kept_run [] cap xs = (cap, xs)"
| "kept_run (WriteOp s # ops) cap xs = kept_run ops cap (last_n cap (xs @ [s]))"
| "kept_run (ResizeOp k # ops) cap xs = kept_run ops (nat k) (last_n (nat k) xs)"

lemma ring_run_kept:
  assumes "ring_ok t" "\<And>k. ResizeOp k \<in> set ops \<Longrightarrow> k > 0"
  shows "\<exists>t'. ring_run ops t = Some t' \<and> ring_ok t' \<and> (pt_bufSize t', contents t') = kept_run ops (pt_bufSize t) (contents t)"
  using assms
proof (induction ops arbitrary: t)
  case (Cons p ops)
  show ?case
  proof (cases p)
    case (WriteOp s)
    obtain t1 where t1: "WriteSample s t = Some t1" "ring_ok t1" "pt_bufSize t1 = pt_bufSize t"
      "contents t1 = last_n (pt_bufSize t) (contents t @ [s])"
      using WriteSample_ring [OF Cons.prems(1)] .
    with Cons.IH [OF t1(2)] Cons.prems(2) show ?thesis by (simp add: WriteOp)
  next
    case (ResizeOp k)
    then have k: "nat k > 0" "int (nat k) = k" using Cons.prems(2) [of k] by simp_all
    obtain t1 where t1: "ResizeBuffer k t = Some t1" "ring_ok t1" "pt_bufSize t1 = nat k"
      "contents t1 = last_n (nat k) (contents t)"
      using ResizeBuffer_ring [OF Cons.prems(1) k(1)] unfolding k(2) .
    with Cons.IH [OF t1(2)] Cons.prems(2) show ?thesis by (simp add: ResizeOp)
  qed
qed simp

lemma NewTarget_buffer:
  "pt_bufSize (NewTarget now ident req d) = unat (if tq_BufferSize req = 0 then d else tq_BufferSize req)"
  "pt_buffer (NewTarget now ident req d) = replicate (pt_bufSize (NewTarget now ident req d)) zero_sample"
  "pt_writeIdx (NewTarget now ident req d) = 0" "pt_count (NewTarget now ident req d) = 0"
  by (auto simp: NewTarget_def Let_def split: option.splits)

lemma NewTarget_ring:
  assumes "tq_BufferSize req \<noteq> 0 \<or> d \<noteq> 0"
  shows "ring_ok (NewTarget now ident req d)" "contents (NewTarget now ident req d) = []"
  using assms by (auto simp: ring_ok_def contents_def window_def NewTarget_buffer unat_gt_0)

text \<open>C33: The ring buffer is a list of the last samples. Take a target whose request or whose default gives it a
  buffer. Whatever sequence of samples is written and whatever sequence of positive sizes the buffer is resized
  to, nothing panics, \<open>BufferSize\<close> is the last size set, and \<open>ReadLastN\<close> gives, oldest first, the last samples
  written that every size in between left in.
\<close>

theorem ring_refines_list:
  assumes "tq_BufferSize req \<noteq> 0 \<or> d \<noteq> 0" "\<And>k. ResizeOp k \<in> set ops \<Longrightarrow> k > 0" "n \<ge> 0"
  shows "\<exists>t. ring_run ops (NewTarget now ident req d) = Some t
    \<and> pt_BufferSize t = fst (kept_run ops (unat (if tq_BufferSize req = 0 then d else tq_BufferSize req)) [])
    \<and> ReadLastN n t = Some (last_n (nat n)
          (snd (kept_run ops (unat (if tq_BufferSize req = 0 then d else tq_BufferSize req)) [])))"
proof -
  let ?t = "NewTarget now ident req d"
  obtain t where t: "ring_run ops ?t = Some t" "ring_ok t"
    "(pt_bufSize t, contents t) = kept_run ops (pt_bufSize ?t) (contents ?t)"
    using ring_run_kept [OF NewTarget_ring(1) [OF assms(1)] assms(2)] by blast
  from t(3) have "kept_run ops (unat (if tq_BufferSize req = 0 then d else tq_BufferSize req)) [] = (pt_bufSize t, contents t)"
    unfolding NewTarget_ring(2) [OF assms(1)] NewTarget_buffer(1) by (rule sym)
  with t(1) ReadLastN_ring [OF t(2) assms(3)] show ?thesis by (simp add: pt_BufferSize_def)
qed

definition ex_sample :: "nat \<Rightarrow> RingSample" where
  "ex_sample i = zero_sample\<lparr>rs_TimestampMs := int i, rs_Valid := True\<rparr>"

definition ex_request :: "unit TargetRequest" where
  "ex_request = \<lparr>tq_Name = ''r1'', tq_Description = [], tq_Tags = [], tq_Persistent = False, tq_IntervalMs = 0,
     tq_BufferSize = 3, tq_Snmp = None\<rparr>"

text \<open>Five samples into three slots, grown to four slots, one more sample, cut to two.\<close>

definition ex_ops :: "ring_op list" where
  "ex_ops = map (\<lambda>i. WriteOp (ex_sample i)) [1, 2, 3, 4, 5] @ [ResizeOp 4, WriteOp (ex_sample 6), ResizeOp 2]"

lemma ring_refines_list_witness:
  "\<exists>t. ring_run ex_ops (NewTarget 0 ''t'' ex_request 10) = Some t \<and> pt_BufferSize t = 2
     \<and> ReadLastN 3 t = Some [ex_sample 5, ex_sample 6]"
proof -
  have k: "kept_run ex_ops (unat (if tq_BufferSize ex_request = 0 then 10 else tq_BufferSize ex_request)) []
      = (2, [ex_sample 5, ex_sample 6])"
    by (simp add: ex_ops_def ex_request_def last_n_def)
  have "tq_BufferSize ex_request \<noteq> 0 \<or> (10 :: 32 word) \<noteq> 0" by (simp add: ex_request_def)
  moreover have "\<And>k. ResizeOp k \<in> set ex_ops \<Longrightarrow> k > 0" by (auto simp: ex_ops_def)
  ultimately show ?thesis
    using ring_refines_list [of ex_request 10 ex_ops 3 0 "''t''"] unfolding k by (simp add: last_n_def)
qed

section \<open>The statistics and the state of a target\<close>

lemma WriteSample_stats:
  assumes "WriteSample s t = Some t'"
  shows "pt_PollsTotal t' = pt_PollsTotal t + 1"
    "pt_PollsOK t' = pt_PollsOK t + of_bool (rs_Valid s)"
    "pt_PollsFailed t' = pt_PollsFailed t + of_bool (\<not> rs_Valid s)"
    "pt_ErrCount t' = (if rs_Valid s then 0 else pt_ErrCount t + 1)"
    "pt_State t' = (if rs_Valid s then ''polling'' else if pt_ErrCount t + 1 \<ge> 3 then ''unreachable'' else pt_State t)"
    "pt_Owners t' = pt_Owners t" "pt_Host t' = pt_Host t" "pt_Port t' = pt_Port t" "pt_OID t' = pt_OID t"
  using assms by (auto simp: WriteSample_def write_slot_def write_state_def write_timing_def Let_def split: if_splits)

text \<open>
  After every sample the state is ``unreachable'' exactly if at least three samples in a row have failed, the
  failures in a row are counted, and every poll is counted once, as good or as failed.
\<close>
lemma state_follows_samples:
  assumes "ring_run (map WriteOp ss) (NewTarget now ident req d) = Some t"
  shows "pt_ErrCount t = length (takeWhile (\<lambda>s. \<not> rs_Valid s) (rev ss))"
    and "pt_State t = (if pt_ErrCount t \<ge> 3 then ''unreachable'' else ''polling'')"
    and "pt_PollsTotal t = int (length ss)"
    and "pt_PollsOK t = int (length (filter rs_Valid ss))"
    and "pt_PollsOK t + pt_PollsFailed t = pt_PollsTotal t"
proof -
  have split: "ring_run (map WriteOp (xs @ [s])) t0 = Option.bind (ring_run (map WriteOp xs) t0) (WriteSample s)"
    for xs s and t0 :: "'a PolledTarget"
    by (induction xs arbitrary: t0) (auto simp: Option.bind_eq_Some_conv intro!: option.exhaust split: Option.bind_splits)
  have "pt_ErrCount t = length (takeWhile (\<lambda>s. \<not> rs_Valid s) (rev ss))
    \<and> pt_State t = (if pt_ErrCount t \<ge> 3 then ''unreachable'' else ''polling'')
    \<and> pt_PollsTotal t = int (length ss) \<and> pt_PollsOK t = int (length (filter rs_Valid ss))
    \<and> pt_PollsOK t + pt_PollsFailed t = pt_PollsTotal t"
    using assms
  proof (induction ss arbitrary: t rule: rev_induct)
    case Nil
    then show ?case by (auto simp: NewTarget_def Let_def split: option.splits)
  next
    case (snoc s ss)
    from snoc.prems obtain t1 where t1: "ring_run (map WriteOp ss) (NewTarget now ident req d) = Some t1" "WriteSample s t1 = Some t"
      unfolding split Option.bind_eq_Some_conv by blast
    from snoc.IH [OF t1(1)] show ?case by (simp add: WriteSample_stats [OF t1(2)])
  qed
  then show "pt_ErrCount t = length (takeWhile (\<lambda>s. \<not> rs_Valid s) (rev ss))"
    "pt_State t = (if pt_ErrCount t \<ge> 3 then ''unreachable'' else ''polling'')"
    "pt_PollsTotal t = int (length ss)" "pt_PollsOK t = int (length (filter rs_Valid ss))"
    "pt_PollsOK t + pt_PollsFailed t = pt_PollsTotal t" by simp_all
qed

end
