(* ===== verification/ConfigFile.thy ===== *)
theory ConfigFile
  imports Prelude
begin

text \<open>
  The configuration of the daemon, config/config.go: the structures a YAML file is decoded into, the defaults,
  the expansion of environment variables, and the validation.

  Decoding YAML is a parameter of \<open>Load\<close>. An \<open>int\<close> of the code is an \<open>int\<close>; a duration is a 64-bit number of
  nanoseconds, so the conversions from seconds wrap as they do in Go. A valid configuration is \<open>None\<close>,
  anything else \<open>Some\<close> error.
\<close>

section \<open>Structures\<close>

record ServerConfig =
  cf_Listen :: string

record TLSConfig =
  cf_CertFile :: string
  cf_KeyFile :: string

record TokenConfig =
  tk_ID :: string
  tk_Token :: string

record AuthConfig =
  cf_Tokens :: "TokenConfig list"

record SessionConfig =
  cf_AuthTimeoutSec :: int
  cf_ReconnectWindowSec :: int

record PollerConfig =
  cf_Workers :: int
  cf_QueueSize :: int

record StorageConfig =
  sc_DBPath :: string
  sc_SecretKeyPath :: string
  sc_SampleBatchSize :: int
  sc_SampleFlushTimeoutSec :: int
  sc_StateFlushIntervalSec :: int
  sc_StatsFlushIntervalSec :: int

record SNMPDefaults =
  sd_TimeoutMs :: "32 word"
  sd_Retries :: "32 word"
  sd_BufferSize :: "32 word"

record SNMPTargetConfig =
  stc_Host :: string
  stc_Port :: "16 word"
  stc_OID :: string
  stc_TimeoutMs :: "32 word"
  stc_Retries :: "32 word"
  stc_Community :: string
  stc_Version :: int
  stc_SecurityName :: string
  stc_SecurityLevel :: string
  stc_AuthProtocol :: string
  stc_AuthPassword :: string
  stc_PrivProtocol :: string
  stc_PrivPassword :: string
  stc_ContextName :: string

record TargetConfig =
  tc_ID :: string
  tc_Description :: string
  tc_Tags :: "string list"
  tc_IntervalMs :: "32 word"
  tc_BufferSize :: "32 word"
  tc_SNMP :: "SNMPTargetConfig option"

record Config =
  fc_Server :: ServerConfig
  fc_TLS :: TLSConfig
  fc_Auth :: AuthConfig
  fc_Session :: SessionConfig
  fc_Poller :: PollerConfig
  fc_Storage :: StorageConfig
  fc_SNMP :: SNMPDefaults
  fc_Targets :: "TargetConfig list"

definition config_Default :: Config where
  "config_Default =
     \<lparr>fc_Server = \<lparr>cf_Listen = ''0.0.0.0:9161''\<rparr>,
      fc_TLS = \<lparr>cf_CertFile = ''certs/server.crt'', cf_KeyFile = ''certs/server.key''\<rparr>,
      fc_Auth = \<lparr>cf_Tokens = []\<rparr>,
      fc_Session = \<lparr>cf_AuthTimeoutSec = 30, cf_ReconnectWindowSec = 600\<rparr>,
      fc_Poller = \<lparr>cf_Workers = 100, cf_QueueSize = 10000\<rparr>,
      fc_Storage = \<lparr>sc_DBPath = ''data/snmpproxy.db'', sc_SecretKeyPath = [], sc_SampleBatchSize = 1000,
                    sc_SampleFlushTimeoutSec = 5, sc_StateFlushIntervalSec = 5, sc_StatsFlushIntervalSec = 10\<rparr>,
      fc_SNMP = \<lparr>sd_TimeoutMs = 5000, sd_Retries = 2, sd_BufferSize = 3600\<rparr>,
      fc_Targets = []\<rparr>"

section \<open>Rendering\<close>

text \<open>\<open>%d\<close> of an \<open>int\<close>, and \<open>%q\<close> of a string whose bytes above 127 are printable text.\<close>

definition show_int :: "int \<Rightarrow> string" where
  "show_int i = (if i < 0 then CHR ''-'' # show_nat (nat (- i)) else show_nat (nat i))"

definition hex_digit :: "nat \<Rightarrow> char" where
  "hex_digit d = (if d < 10 then char_of (48 + d) else char_of (87 + d))"

definition quote_char :: "char \<Rightarrow> string" where
  "quote_char c =
     (let n = of_char c :: nat; b = char_of (92 :: nat) in
      if n = 34 \<or> n = 92 then [b, c]
      else if n = 7 then [b, CHR ''a''] else if n = 8 then [b, CHR ''b''] else if n = 12 then [b, CHR ''f'']
      else if n = 10 then [b, CHR ''n''] else if n = 13 then [b, CHR ''r''] else if n = 9 then [b, CHR ''t'']
      else if n = 11 then [b, CHR ''v'']
      else if n < 32 \<or> n = 127 then [b, CHR ''x'', hex_digit (n div 16), hex_digit (n mod 16)]
      else [c])"

definition quote_string :: "string \<Rightarrow> string" where
  "quote_string s = char_of (34 :: nat) # concat (map quote_char s) @ [char_of (34 :: nat)]"

section \<open>Targets\<close>

definition IsV3 :: "SNMPTargetConfig \<Rightarrow> bool" where
  "IsV3 c \<longleftrightarrow> stc_Version c = 3 \<or> stc_SecurityName c \<noteq> []"

definition tc_Protocol :: "TargetConfig \<Rightarrow> string" where
  "tc_Protocol tc = (if tc_SNMP tc \<noteq> None then ''snmp'' else [])"

definition snmp_Validate :: "SNMPTargetConfig \<Rightarrow> gerror option" where
  "snmp_Validate c =
     (if stc_Host c = [] then Some (Errorf ''snmp.host required'')
      else if stc_OID c = [] then Some (Errorf ''snmp.oid required'')
      else if IsV3 c then
        (if stc_SecurityName c = [] then Some (Errorf ''snmp.security_name required for v3'')
         else if stc_SecurityLevel c = [] \<or> stc_SecurityLevel c = ''noAuthNoPriv'' then None
         else if stc_SecurityLevel c = ''authNoPriv'' then
           (if stc_AuthProtocol c = [] then Some (Errorf ''snmp.auth_protocol required for authNoPriv'')
            else if stc_AuthPassword c = [] then Some (Errorf ''snmp.auth_password required for authNoPriv'')
            else None)
         else if stc_SecurityLevel c = ''authPriv'' then
           (if stc_AuthProtocol c = [] then Some (Errorf ''snmp.auth_protocol required for authPriv'')
            else if stc_AuthPassword c = [] then Some (Errorf ''snmp.auth_password required for authPriv'')
            else if stc_PrivProtocol c = [] then Some (Errorf ''snmp.priv_protocol required for authPriv'')
            else if stc_PrivPassword c = [] then Some (Errorf ''snmp.priv_password required for authPriv'')
            else None)
         else Some (Errorf (''invalid snmp.security_level: '' @ stc_SecurityLevel c @ '' (valid: noAuthNoPriv, authNoPriv, authPriv)'')))
      else None)"

definition tc_Validate :: "TargetConfig \<Rightarrow> gerror option" where
  "tc_Validate tc =
     (if tc_ID tc = [] then Some (Errorf ''target id required'')
      else
        let protocols = (if tc_SNMP tc \<noteq> None then 1 else 0 :: nat) in
        if protocols = 0 then Some (Errorf (''target '' @ tc_ID tc @ '': no protocol specified''))
        else if protocols > 1 then Some (Errorf (''target '' @ tc_ID tc @ '': multiple protocols specified''))
        else
          case (case tc_SNMP tc of None \<Rightarrow> None | Some c \<Rightarrow> snmp_Validate c) of
            Some err \<Rightarrow> Some (Errorf (''target '' @ tc_ID tc @ '': '' @ error_msg err))
          | None \<Rightarrow>
              if [] \<in> set (tc_Tags tc) then Some (Errorf (''target '' @ tc_ID tc @ '': empty tag not allowed''))
              else None)"

section \<open>Storage\<close>

definition at_least :: "string \<Rightarrow> int \<Rightarrow> int \<Rightarrow> gerror option" where
  "at_least what lo v =
     (if v < lo then Some (Errorf (what @ '' must be >= '' @ show_int lo @ '' (got '' @ show_int v @ '')'')) else None)"

definition at_most :: "string \<Rightarrow> int \<Rightarrow> int \<Rightarrow> gerror option" where
  "at_most what hi v =
     (if v > hi then Some (Errorf (what @ '' must be <= '' @ show_int hi @ '' (got '' @ show_int v @ '')'')) else None)"

text \<open>The first check that fails is the error.\<close>

fun first_error :: "gerror option list \<Rightarrow> gerror option" where
  "first_error [] = None"
| "first_error (Some e # _) = Some e"
| "first_error (None # es) = first_error es"

definition sc_Validate :: "StorageConfig \<Rightarrow> gerror option" where
  "sc_Validate sc = first_error
     [at_least ''sample_batch_size'' 100 (sc_SampleBatchSize sc),
      at_most ''sample_batch_size'' 10000 (sc_SampleBatchSize sc),
      at_least ''sample_flush_timeout_sec'' 1 (sc_SampleFlushTimeoutSec sc),
      at_most ''sample_flush_timeout_sec'' 60 (sc_SampleFlushTimeoutSec sc),
      at_least ''state_flush_interval_sec'' 1 (sc_StateFlushIntervalSec sc),
      at_most ''state_flush_interval_sec'' 60 (sc_StateFlushIntervalSec sc),
      at_least ''stats_flush_interval_sec'' 1 (sc_StatsFlushIntervalSec sc),
      at_most ''stats_flush_interval_sec'' 120 (sc_StatsFlushIntervalSec sc)]"

section \<open>The whole configuration\<close>

fun check_tokens :: "nat \<Rightarrow> TokenConfig list \<Rightarrow> gerror option" where
  "check_tokens i [] = None"
| "check_tokens i (t # ts) =
     (if tk_Token t = [] then Some (Errorf (''auth.tokens['' @ show_nat i @ ''] has empty token''))
      else check_tokens (i + 1) ts)"

fun check_targets :: "nat \<Rightarrow> string list \<Rightarrow> TargetConfig list \<Rightarrow> gerror option" where
  "check_targets i targetIDs [] = None"
| "check_targets i targetIDs (tc # tcs) =
     (case tc_Validate tc of
        Some err \<Rightarrow> Some (Errorf (''targets['' @ show_nat i @ '']: '' @ error_msg err))
      | None \<Rightarrow>
          if tc_ID tc \<in> set targetIDs
          then Some (Errorf (''targets['' @ show_nat i @ '']: duplicate id '' @ quote_string (tc_ID tc)))
          else check_targets (i + 1) (tc_ID tc # targetIDs) tcs)"

definition config_Validate :: "Config \<Rightarrow> gerror option" where
  "config_Validate c =
     (if cf_Listen (fc_Server c) = [] then Some (Errorf ''server.listen required'')
      else if cf_Tokens (fc_Auth c) = [] then Some (Errorf ''at least one auth token required'')
      else
        case check_tokens 0 (cf_Tokens (fc_Auth c)) of
          Some err \<Rightarrow> Some err
        | None \<Rightarrow>
            (case sc_Validate (fc_Storage c) of
               Some err \<Rightarrow> Some (Errorf (''storage: '' @ error_msg err))
             | None \<Rightarrow> check_targets 0 [] (fc_Targets c)))"

text \<open>\<open>time.Duration(sec) * time.Second\<close> in 64 bits.\<close>

definition seconds :: "int \<Rightarrow> int" where
  "seconds sec = signed_take_bit 63 (sec * 1000000000)"

definition sc_SampleFlushTimeout :: "StorageConfig \<Rightarrow> int" where
  "sc_SampleFlushTimeout sc = seconds (sc_SampleFlushTimeoutSec sc)"

definition sc_StateFlushInterval :: "StorageConfig \<Rightarrow> int" where
  "sc_StateFlushInterval sc = seconds (sc_StateFlushIntervalSec sc)"

definition sc_StatsFlushInterval :: "StorageConfig \<Rightarrow> int" where
  "sc_StatsFlushInterval sc = seconds (sc_StatsFlushIntervalSec sc)"

definition TLSEnabled :: "Config \<Rightarrow> bool" where
  "TLSEnabled c \<longleftrightarrow> cf_CertFile (fc_TLS c) \<noteq> [] \<and> cf_KeyFile (fc_TLS c) \<noteq> []"

definition cfg_AuthTimeout :: "Config \<Rightarrow> int" where
  "cfg_AuthTimeout c = seconds (cf_AuthTimeoutSec (fc_Session c))"

definition cfg_ReconnectWindow :: "Config \<Rightarrow> int" where
  "cfg_ReconnectWindow c = seconds (cf_ReconnectWindowSec (fc_Session c))"

section \<open>Environment variables\<close>

text \<open>\<open>os.ExpandEnv\<close> of the standard library, which \<open>Load\<close> applies to the whole text of the file.\<close>

definition is_shell_special :: "char \<Rightarrow> bool" where
  "is_shell_special c \<longleftrightarrow> c \<in> set ''*#$@!?-0123456789''"

definition is_alnum :: "char \<Rightarrow> bool" where
  "is_alnum c \<longleftrightarrow> (let n = of_char c :: nat in n = 95 \<or> 48 \<le> n \<and> n \<le> 57 \<or> 97 \<le> n \<and> n \<le> 122 \<or> 65 \<le> n \<and> n \<le> 90)"

text \<open>The name after a \<open>$\<close> and the characters it takes; the text is not empty.\<close>

definition getShellName :: "string \<Rightarrow> string \<times> nat" where
  "getShellName s =
     (if s \<noteq> [] \<and> hd s = CHR ''{'' then
        (if length s > 2 \<and> is_shell_special (s ! 1) \<and> s ! 2 = CHR ''}'' then ([s ! 1], 3)
         else
           let name = takeWhile (\<lambda>c. c \<noteq> CHR ''}'') (tl s) in
           if CHR ''}'' \<in> set (tl s) then (if name = [] then ([], 2) else (name, length name + 2))
           else ([], 1))
      else if s \<noteq> [] \<and> is_shell_special (hd s) then ([hd s], 1)
      else let name = takeWhile is_alnum s in (name, length name))"

function ExpandEnv :: "(string \<Rightarrow> string) \<Rightarrow> string \<Rightarrow> string" where
  "ExpandEnv getenv [] = []"
| "ExpandEnv getenv (c # s) =
     (if c = CHR ''$'' \<and> s \<noteq> [] then
        let (name, w) = getShellName s;
            out = (if name = [] \<and> w > 0 then [] else if name = [] then [c] else getenv name)
        in out @ ExpandEnv getenv (drop w s)
      else c # ExpandEnv getenv s)"
  by pat_completeness auto
termination by (relation "measure (\<lambda>(_, s). length s)") auto

definition config_Load :: "(string \<Rightarrow> string go) \<Rightarrow> (string \<Rightarrow> string) \<Rightarrow> (string \<Rightarrow> Config \<Rightarrow> Config go) \<Rightarrow> string \<Rightarrow> Config go" where
  "config_Load readFile getenv unmarshal path =
     (case readFile path of
        Inl err \<Rightarrow> Inl err
      | Inr data \<Rightarrow>
          (case unmarshal (ExpandEnv getenv data) config_Default of
             Inl err \<Rightarrow> Inl (Errorf (''parse config: '' @ error_msg err))
           | Inr cfg \<Rightarrow> (case config_Validate cfg of Some err \<Rightarrow> Inl err | None \<Rightarrow> Inr cfg)))"

section \<open>What validation accepts\<close>

definition needs :: "string \<Rightarrow> string list" where
  "needs level = (if level = ''authNoPriv'' then [''auth'', ''authpw''] else if level = ''authPriv'' then [''auth'', ''authpw'', ''priv'', ''privpw''] else [])"

definition credential :: "SNMPTargetConfig \<Rightarrow> string \<Rightarrow> string" where
  "credential c what =
     (if what = ''auth'' then stc_AuthProtocol c else if what = ''authpw'' then stc_AuthPassword c
      else if what = ''priv'' then stc_PrivProtocol c else stc_PrivPassword c)"

text \<open>Every credential the security level needs is there.\<close>

definition snmp_wf :: "SNMPTargetConfig \<Rightarrow> bool" where
  "snmp_wf c \<longleftrightarrow> stc_Host c \<noteq> [] \<and> stc_OID c \<noteq> []
     \<and> (stc_Version c = 3 \<or> stc_SecurityName c \<noteq> [] \<longrightarrow>
          stc_SecurityName c \<noteq> []
          \<and> stc_SecurityLevel c \<in> {[], ''noAuthNoPriv'', ''authNoPriv'', ''authPriv''}
          \<and> (\<forall>what \<in> set (needs (stc_SecurityLevel c)). credential c what \<noteq> []))"

definition storage_wf :: "StorageConfig \<Rightarrow> bool" where
  "storage_wf sc \<longleftrightarrow> sc_SampleBatchSize sc \<in> {100..10000} \<and> sc_SampleFlushTimeoutSec sc \<in> {1..60}
     \<and> sc_StateFlushIntervalSec sc \<in> {1..60} \<and> sc_StatsFlushIntervalSec sc \<in> {1..120}"

definition target_wf :: "TargetConfig \<Rightarrow> bool" where
  "target_wf tc \<longleftrightarrow> tc_ID tc \<noteq> [] \<and> [] \<notin> set (tc_Tags tc) \<and> (\<exists>c. tc_SNMP tc = Some c \<and> snmp_wf c)"

definition config_wf :: "Config \<Rightarrow> bool" where
  "config_wf c \<longleftrightarrow> cf_Listen (fc_Server c) \<noteq> [] \<and> cf_Tokens (fc_Auth c) \<noteq> []
     \<and> (\<forall>t \<in> set (cf_Tokens (fc_Auth c)). tk_Token t \<noteq> []) \<and> storage_wf (fc_Storage c)
     \<and> (\<forall>tc \<in> set (fc_Targets c). target_wf tc) \<and> distinct (map tc_ID (fc_Targets c))"

lemma snmp_Validate_wf: "snmp_Validate c = None \<longleftrightarrow> snmp_wf c"
  by (auto simp: snmp_Validate_def snmp_wf_def IsV3_def needs_def credential_def)

lemma tc_Validate_wf: "tc_Validate tc = None \<longleftrightarrow> target_wf tc"
proof (cases "tc_SNMP tc")
  case None
  then show ?thesis by (simp add: tc_Validate_def target_wf_def)
next
  case (Some c)
  then show ?thesis
    using snmp_Validate_wf [of c] by (cases "snmp_Validate c") (simp_all add: tc_Validate_def target_wf_def)
qed

lemma first_error_None: "first_error es = None \<longleftrightarrow> (\<forall>e \<in> set es. e = None)"
  by (induction es rule: first_error.induct) auto

lemma sc_Validate_wf: "sc_Validate sc = None \<longleftrightarrow> storage_wf sc"
  by (simp add: sc_Validate_def first_error_None at_least_def at_most_def storage_wf_def)

lemma check_tokens_None: "check_tokens i ts = None \<longleftrightarrow> (\<forall>t \<in> set ts. tk_Token t \<noteq> [])"
  by (induction ts arbitrary: i) auto

lemma id_taken: "i \<notin> tc_ID ` set tcs \<longleftrightarrow> (\<forall>tc \<in> set tcs. tc_ID tc \<noteq> i)"
  by auto

lemma check_targets_None:
  "check_targets i ids tcs = None \<longleftrightarrow>
     (\<forall>tc \<in> set tcs. target_wf tc \<and> tc_ID tc \<notin> set ids) \<and> distinct (map tc_ID tcs)"
proof (induction tcs arbitrary: i ids)
  case (Cons tc tcs)
  then show ?case
    using tc_Validate_wf [of tc] by (cases "tc_Validate tc") (auto simp: id_taken)
qed simp

lemma config_Validate_wf: "config_Validate c = None \<longleftrightarrow> config_wf c"
  by (simp add: config_Validate_def config_wf_def check_targets_None flip: check_tokens_None [of 0] sc_Validate_wf
      split: option.splits)

text \<open>The error of a bad token or target names the first bad one.\<close>

lemma check_tokens_first:
  assumes "\<forall>t \<in> set ts. tk_Token t \<noteq> []" "tk_Token t = []"
  shows "check_tokens i (ts @ t # rest) = Some (Errorf (''auth.tokens['' @ show_nat (i + length ts) @ ''] has empty token''))"
  using assms by (induction ts arbitrary: i) auto

lemma check_targets_first:
  assumes "\<forall>tc \<in> set tcs. target_wf tc \<and> tc_ID tc \<notin> set ids" "distinct (map tc_ID tcs)"
    "tc_Validate tc = Some err \<or> tc_Validate tc = None \<and> tc_ID tc \<in> tc_ID ` set tcs \<union> set ids"
  shows "\<exists>why. check_targets i ids (tcs @ tc # rest) = Some (Errorf (''targets['' @ show_nat (i + length tcs) @ '']: '' @ why))"
  using assms
proof (induction tcs arbitrary: i ids)
  case Nil
  then show ?case by auto
next
  case (Cons t tcs)
  have "tc_Validate t = None" using Cons.prems(1) by (simp add: tc_Validate_wf)
  moreover have "\<exists>why. check_targets (i + 1) (tc_ID t # ids) (tcs @ tc # rest) =
      Some (Errorf (''targets['' @ show_nat (i + 1 + length tcs) @ '']: '' @ why))"
    by (rule Cons.IH) (use Cons.prems in \<open>auto simp: id_taken\<close>)
  ultimately show ?case using Cons.prems(1) by simp
qed


text \<open>The defaults are well-formed but for the tokens, which have none.\<close>

lemma default_lacks_tokens:
  "config_Validate config_Default = Some (Errorf ''at least one auth token required'')"
  "t \<noteq> [] \<Longrightarrow> config_wf (config_Default\<lparr>fc_Auth := \<lparr>cf_Tokens = [\<lparr>tk_ID = u, tk_Token = t\<rparr>]\<rparr>\<rparr>)"
  by (simp_all add: config_Validate_def config_wf_def config_Default_def storage_wf_def)

text \<open>
  The intervals of a well-formed configuration are positive and do not wrap; the session times are not checked,
  and a large one wraps to a negative duration.
\<close>

lemma seconds_exact: "0 \<le> s \<Longrightarrow> s \<le> 9000000000 \<Longrightarrow> seconds s = s * 1000000000"
  unfolding seconds_def by (rule signed_take_bit_int_eq_self) simp_all

lemma intervals_do_not_wrap:
  assumes "config_wf c"
  shows "sc_SampleFlushTimeout (fc_Storage c) = sc_SampleFlushTimeoutSec (fc_Storage c) * 1000000000"
    "sc_StateFlushInterval (fc_Storage c) = sc_StateFlushIntervalSec (fc_Storage c) * 1000000000"
    "sc_StatsFlushInterval (fc_Storage c) = sc_StatsFlushIntervalSec (fc_Storage c) * 1000000000"
    "sc_SampleFlushTimeout (fc_Storage c) > 0" "sc_StateFlushInterval (fc_Storage c) > 0"
    "sc_StatsFlushInterval (fc_Storage c) > 0"
  using assms
  by (simp_all add: config_wf_def storage_wf_def sc_SampleFlushTimeout_def sc_StateFlushInterval_def
      sc_StatsFlushInterval_def seconds_exact)

lemma reconnect_window_wraps:
  "cfg_ReconnectWindow (config_Default\<lparr>fc_Session := \<lparr>cf_AuthTimeoutSec = 30, cf_ReconnectWindowSec = 10000000000\<rparr>\<rparr>) < 0"
  by (simp add: cfg_ReconnectWindow_def seconds_def signed_take_bit_eq_take_bit_shift take_bit_eq_mod)

section \<open>What expansion does to a value\<close>

lemma ExpandEnv_plain: "CHR ''$'' \<notin> set s \<Longrightarrow> ExpandEnv getenv (s @ t) = s @ ExpandEnv getenv t"
  by (induction s) auto

lemma ExpandEnv_no_dollar: "CHR ''$'' \<notin> set s \<Longrightarrow> ExpandEnv getenv s = s"
  using ExpandEnv_plain [of s getenv "[]"] by simp

text \<open>A variable in braces is replaced by its value, which is not expanded again.\<close>

lemma ExpandEnv_braces:
  assumes "v \<noteq> []" "CHR ''}'' \<notin> set v" "\<not> (length v = 1 \<and> is_shell_special (hd v))"
  shows "ExpandEnv getenv (''${'' @ v @ ''}'' @ t) = getenv v @ ExpandEnv getenv t"
proof -
  have "takeWhile (\<lambda>c. c \<noteq> CHR ''}'') (v @ CHR ''}'' # t) = v" using assms(2) by (subst takeWhile_append2) auto
  moreover have "\<not> (is_shell_special (v ! 0) \<and> (v @ CHR ''}'' # t) ! 1 = CHR ''}'')"
    using assms by (cases v rule: remdups_adj.cases) (auto simp: nth_append)
  ultimately have "getShellName (CHR ''{'' # v @ CHR ''}'' # t) = (v, length v + 2)"
    using assms(1) by (auto simp: getShellName_def Let_def nth_append)
  with assms(1) show ?thesis by simp
qed

text \<open>
  Two dollars do not stand for one: they are the variable named dollar, so a password or a community with a
  dollar in it cannot be written in the file.
\<close>

lemma doubled_dollar_is_lost: "ExpandEnv (\<lambda>_. []) ''token: pa$$word'' = ''token: paword''"
  by (simp add: getShellName_def is_shell_special_def)

lemma dollar_word_is_lost: "ExpandEnv (\<lambda>_. []) ''community: my$ecret!'' = ''community: my!''"
  by (simp add: getShellName_def is_shell_special_def is_alnum_def)

end
