(* ===== verification/Errors.thy ===== *)
theory Errors
  imports Prelude
begin

text \<open>
  The error values of internal/errors/errors.go: the sentinels, the classes of sentinels the helpers recognise, and
  the errors made around them.

  A sentinel is a pointer, so it is a constructor; \<open>fmt.Errorf\<close> with one \<open>%w\<close> keeps the error it wraps and
  puts a text in front of it; any other error is its text. \<open>None\<close> is the nil error.
\<close>

section \<open>Errors and their chains\<close>

datatype sentinel =
    ErrNotFound | ErrNamespaceNotFound | ErrTargetNotFound | ErrPollerNotFound | ErrSecretNotFound
     | ErrPathNotFound | ErrAlreadyExists | ErrNamespaceAlreadyExists | ErrTargetAlreadyExists
     | ErrPollerAlreadyExists | ErrInvalidName | ErrInvalidPath | ErrInvalidOID | ErrInvalidInterval
     | ErrInvalidConfig | ErrMissingField | ErrInvalidState | ErrInvalidTransition | ErrPollerDisabled
     | ErrPollerRunning | ErrPollerStopped | ErrNotAuthenticated | ErrNotAuthorized | ErrInvalidToken
     | ErrSessionExpired | ErrNamespaceRequired | ErrUnsupportedProtocol | ErrSNMPError | ErrTimeout
     | ErrInternal | ErrDatabase | ErrEncryption

definition sentinel_text :: "sentinel \<Rightarrow> string" where
  "sentinel_text s = (case s of
     ErrNotFound \<Rightarrow> ''not found''
   | ErrNamespaceNotFound \<Rightarrow> ''namespace not found''
   | ErrTargetNotFound \<Rightarrow> ''target not found''
   | ErrPollerNotFound \<Rightarrow> ''poller not found''
   | ErrSecretNotFound \<Rightarrow> ''secret not found''
   | ErrPathNotFound \<Rightarrow> ''path not found''
   | ErrAlreadyExists \<Rightarrow> ''already exists''
   | ErrNamespaceAlreadyExists \<Rightarrow> ''namespace already exists''
   | ErrTargetAlreadyExists \<Rightarrow> ''target already exists''
   | ErrPollerAlreadyExists \<Rightarrow> ''poller already exists''
   | ErrInvalidName \<Rightarrow> ''invalid name''
   | ErrInvalidPath \<Rightarrow> ''invalid path''
   | ErrInvalidOID \<Rightarrow> ''invalid OID''
   | ErrInvalidInterval \<Rightarrow> ''invalid interval''
   | ErrInvalidConfig \<Rightarrow> ''invalid configuration''
   | ErrMissingField \<Rightarrow> ''missing required field''
   | ErrInvalidState \<Rightarrow> ''invalid state''
   | ErrInvalidTransition \<Rightarrow> ''invalid state transition''
   | ErrPollerDisabled \<Rightarrow> ''poller is disabled''
   | ErrPollerRunning \<Rightarrow> ''poller is already running''
   | ErrPollerStopped \<Rightarrow> ''poller is already stopped''
   | ErrNotAuthenticated \<Rightarrow> ''not authenticated''
   | ErrNotAuthorized \<Rightarrow> ''not authorized''
   | ErrInvalidToken \<Rightarrow> ''invalid token''
   | ErrSessionExpired \<Rightarrow> ''session expired''
   | ErrNamespaceRequired \<Rightarrow> ''namespace binding required''
   | ErrUnsupportedProtocol \<Rightarrow> ''unsupported protocol''
   | ErrSNMPError \<Rightarrow> ''SNMP error''
   | ErrTimeout \<Rightarrow> ''timeout''
   | ErrInternal \<Rightarrow> ''internal error''
   | ErrDatabase \<Rightarrow> ''database error''
   | ErrEncryption \<Rightarrow> ''encryption error'')"

datatype goerr = Sentinel sentinel | Plain string | Wrapped string goerr

fun err_text :: "goerr \<Rightarrow> string" where
  "err_text (Sentinel s) = sentinel_text s"
| "err_text (Plain t) = t"
| "err_text (Wrapped t e) = t @ '': '' @ err_text e"

text \<open>\<open>errors.Is\<close> of the standard library for a sentinel: the chain of wrapped errors has it.\<close>

fun in_chain :: "sentinel \<Rightarrow> goerr \<Rightarrow> bool" where
  "in_chain s (Sentinel s') \<longleftrightarrow> s' = s"
| "in_chain s (Plain t) \<longleftrightarrow> False"
| "in_chain s (Wrapped t e) \<longleftrightarrow> in_chain s e"

definition errors_Is :: "goerr option \<Rightarrow> sentinel \<Rightarrow> bool" where
  "errors_Is err s = (case err of None \<Rightarrow> False | Some e \<Rightarrow> in_chain s e)"

section \<open>Classes\<close>

definition IsNotFound :: "goerr option \<Rightarrow> bool" where
  "IsNotFound err \<longleftrightarrow>
     errors_Is err ErrNotFound \<or> errors_Is err ErrNamespaceNotFound
      \<or> errors_Is err ErrTargetNotFound \<or> errors_Is err ErrPollerNotFound
      \<or> errors_Is err ErrSecretNotFound \<or> errors_Is err ErrPathNotFound"

definition IsAlreadyExists :: "goerr option \<Rightarrow> bool" where
  "IsAlreadyExists err \<longleftrightarrow>
     errors_Is err ErrAlreadyExists \<or> errors_Is err ErrNamespaceAlreadyExists
      \<or> errors_Is err ErrTargetAlreadyExists \<or> errors_Is err ErrPollerAlreadyExists"

definition IsValidation :: "goerr option \<Rightarrow> bool" where
  "IsValidation err \<longleftrightarrow>
     errors_Is err ErrInvalidName \<or> errors_Is err ErrInvalidPath \<or> errors_Is err ErrInvalidOID
      \<or> errors_Is err ErrInvalidInterval \<or> errors_Is err ErrInvalidConfig
      \<or> errors_Is err ErrMissingField"

definition IsStateError :: "goerr option \<Rightarrow> bool" where
  "IsStateError err \<longleftrightarrow>
     errors_Is err ErrInvalidState \<or> errors_Is err ErrInvalidTransition
      \<or> errors_Is err ErrPollerDisabled \<or> errors_Is err ErrPollerRunning
      \<or> errors_Is err ErrPollerStopped"

definition IsAuthError :: "goerr option \<Rightarrow> bool" where
  "IsAuthError err \<longleftrightarrow>
     errors_Is err ErrNotAuthenticated \<or> errors_Is err ErrNotAuthorized
      \<or> errors_Is err ErrInvalidToken \<or> errors_Is err ErrSessionExpired
      \<or> errors_Is err ErrNamespaceRequired"

section \<open>Making errors\<close>

definition Wrap :: "goerr option \<Rightarrow> string \<Rightarrow> goerr option" where
  "Wrap err message = (case err of None \<Rightarrow> None | Some e \<Rightarrow> Some (Wrapped message e))"

text \<open>\<open>Wrapf\<close> with \<open>fmt.Sprintf(format, args...)\<close> as its argument.\<close>

definition Wrapf :: "goerr option \<Rightarrow> string \<Rightarrow> goerr option" where
  "Wrapf err formatted = (case err of None \<Rightarrow> None | Some e \<Rightarrow> Some (Wrapped formatted e))"

definition NewNotFound :: "string \<Rightarrow> string \<Rightarrow> goerr" where
  "NewNotFound entityType identifier = Wrapped (entityType @ '' '' @ [CHR 0x27] @ identifier @ [CHR 0x27]) (Sentinel ErrNotFound)"

definition NewAlreadyExists :: "string \<Rightarrow> string \<Rightarrow> goerr" where
  "NewAlreadyExists entityType identifier =
     Wrapped (entityType @ '' '' @ [CHR 0x27] @ identifier @ [CHR 0x27]) (Sentinel ErrAlreadyExists)"

definition NewValidation :: "string \<Rightarrow> string \<Rightarrow> goerr" where
  "NewValidation field reason = Wrapped (''invalid '' @ field @ '': '' @ reason) (Sentinel ErrInvalidConfig)"

section \<open>Wrapping keeps the class\<close>

text \<open>The sentinel at the end of the chain, which is the only one it has.\<close>

fun root_of :: "goerr \<Rightarrow> sentinel option" where
  "root_of (Sentinel s) = Some s"
| "root_of (Plain t) = None"
| "root_of (Wrapped t e) = root_of e"

lemma in_chain_root: "in_chain s e \<longleftrightarrow> root_of e = Some s"
  by (induction e) auto

lemma errors_Is_wrap [simp]:
  "errors_Is (Wrap err m) s \<longleftrightarrow> errors_Is err s" "errors_Is (Wrapf err m) s \<longleftrightarrow> errors_Is err s"
  by (auto simp: errors_Is_def Wrap_def Wrapf_def split: option.splits)

lemmas class_defs = IsNotFound_def IsAlreadyExists_def IsValidation_def IsStateError_def IsAuthError_def

lemma wrap_keeps_class:
  "IsNotFound (Wrap err m) \<longleftrightarrow> IsNotFound err" "IsAlreadyExists (Wrap err m) \<longleftrightarrow> IsAlreadyExists err"
  "IsValidation (Wrap err m) \<longleftrightarrow> IsValidation err" "IsStateError (Wrap err m) \<longleftrightarrow> IsStateError err"
  "IsAuthError (Wrap err m) \<longleftrightarrow> IsAuthError err"
  by (simp_all add: class_defs)

text \<open>An error is in at most one class, however deep it is wrapped.\<close>

lemma errors_Is_unique: "errors_Is err s \<Longrightarrow> errors_Is err s' \<longleftrightarrow> s' = s"
  by (auto simp: errors_Is_def in_chain_root split: option.splits)

lemma classes_disjoint:
  "\<not> (IsNotFound err \<and> IsAlreadyExists err)" "\<not> (IsNotFound err \<and> IsValidation err)" "\<not> (IsNotFound err \<and> IsStateError err)"
  "\<not> (IsNotFound err \<and> IsAuthError err)" "\<not> (IsAlreadyExists err \<and> IsValidation err)"
  "\<not> (IsAlreadyExists err \<and> IsStateError err)" "\<not> (IsAlreadyExists err \<and> IsAuthError err)"
  "\<not> (IsValidation err \<and> IsStateError err)" "\<not> (IsValidation err \<and> IsAuthError err)" "\<not> (IsStateError err \<and> IsAuthError err)"
  unfolding class_defs by (auto dest: errors_Is_unique)

lemma made_errors:
  "IsNotFound (Some (NewNotFound t i))" "IsAlreadyExists (Some (NewAlreadyExists t i))" "IsValidation (Some (NewValidation f r))"
  by (simp_all add: class_defs errors_Is_def NewNotFound_def NewAlreadyExists_def NewValidation_def)

text \<open>A not-found error made by \<open>NewNotFound\<close> is not the sentinel of its entity, so a test for that sentinel misses it.\<close>

lemma made_not_found_has_no_entity:
  "\<not> errors_Is (Some (NewNotFound ''target'' i)) ErrTargetNotFound"
  by (simp add: errors_Is_def NewNotFound_def)

end
