(* ===== verification/Shell.thy ===== *)
theory Shell
  imports Paths
begin

text \<open>
  The shell of the command line client: the current path of cmd/snmpctl/shell/context.go, the history, the
  splitting of a line into arguments, and the command registry of cmd/snmpctl/commands/registry.go. The older
  client of cmd/snmpctl/main.go has a path resolution and a splitter of its own, and cmd/snmpctl/completer.go
  another; they are here beside the ones they differ from.

  A line is valid UTF-8, so reading it rune by rune and writing the runes back keeps its bytes; the characters
  the code looks for are all ASCII. \<open>strings.ToLower\<close> is the ASCII part of it.
\<close>

section \<open>The current path\<close>

text \<open>One part of a path in the loop of \<open>normalizePath\<close>.\<close>

definition path_part :: "string list \<Rightarrow> string \<Rightarrow> string list" where
  "path_part result part =
     (if part = [] \<or> part = ''.'' then result
      else if part = ''..'' then (if length result > 0 then take (length result - 1) result else result)
      else result @ [part])"

definition sh_normalizePath :: "string \<Rightarrow> string" where
  "sh_normalizePath path =
     (if path = [] \<or> path = ''/'' then ''/''
      else
        let result = foldl path_part [] (split_on slash path) in
        if length result = 0 then ''/'' else slash # join_with slash result)"

record ShellContext =
  sx_Path :: string
  sx_HistoryFile :: string
  sx_History :: "string list"

definition ResolvePath :: "ShellContext \<Rightarrow> string \<Rightarrow> string" where
  "ResolvePath c path =
     (if path = [] then sx_Path c
      else if has_prefix path ''/'' then sh_normalizePath path
      else if sx_Path c = ''/'' then sh_normalizePath (''/'' @ path)
      else sh_normalizePath (sx_Path c @ ''/'' @ path))"

definition valid_roots :: "string list" where
  "valid_roots = [''/targets'', ''/tags'', ''/server'', ''/session'']"

definition isValidPath :: "string \<Rightarrow> bool" where
  "isValidPath path \<longleftrightarrow> path = ''/'' \<or> (\<exists>root \<in> set valid_roots. path = root \<or> has_prefix path (root @ ''/''))"

definition Cd :: "string \<Rightarrow> ShellContext \<Rightarrow> gerror option \<times> ShellContext" where
  "Cd path c =
     (let newPath = ResolvePath c path in
      if \<not> isValidPath newPath then (Some (Errorf (''no such path: '' @ newPath)), c)
      else (None, c\<lparr>sx_Path := newPath\<rparr>))"

text \<open>The \<open>cd\<close> command: the root when there is no argument.\<close>

definition CdCmd_Execute :: "string list \<Rightarrow> ShellContext \<Rightarrow> gerror option \<times> ShellContext" where
  "CdCmd_Execute args c = (let path = (if length args > 0 then hd args else ''/'') in Cd path c)"

definition PathParts :: "ShellContext \<Rightarrow> string list" where
  "PathParts c = (if sx_Path c = ''/'' then [] else split_on slash (trim_prefix (sx_Path c) ''/''))"

definition InTargets :: "ShellContext \<Rightarrow> bool" where
  "InTargets c \<longleftrightarrow> sx_Path c = ''/targets'' \<or> has_prefix (sx_Path c) ''/targets/''"

definition InTags :: "ShellContext \<Rightarrow> bool" where
  "InTags c \<longleftrightarrow> sx_Path c = ''/tags'' \<or> has_prefix (sx_Path c) ''/tags/''"

section \<open>History\<close>

text \<open>\<open>strings.TrimSpace\<close> on ASCII white space.\<close>

definition is_space :: "char \<Rightarrow> bool" where
  "is_space c \<longleftrightarrow> (of_char c :: nat) \<in> {9, 10, 11, 12, 13, 32}"

definition trim_space :: "string \<Rightarrow> string" where
  "trim_space s = rev (dropWhile is_space (rev (dropWhile is_space s)))"

text \<open>The file read, or \<open>None\<close> when it cannot be: the trimmed lines that are not empty, the last 1000 of them.\<close>

definition loadHistory :: "string option \<Rightarrow> ShellContext \<Rightarrow> ShellContext" where
  "loadHistory data c =
     (case data of
        None \<Rightarrow> c
      | Some text \<Rightarrow>
          let h = sx_History c @ filter (\<lambda>l. l \<noteq> []) (map trim_space (split_on (char_of (10 :: nat)) text))
          in c\<lparr>sx_History := (if length h > 1000 then drop (length h - 1000) h else h)\<rparr>)"

definition NewContext :: "string \<Rightarrow> string option \<Rightarrow> ShellContext" where
  "NewContext homeDir data =
     loadHistory data \<lparr>sx_Path = ''/'', sx_HistoryFile = path_Join homeDir ''.snmpctl_history'', sx_History = []\<rparr>"

text \<open>The context and what is appended to the file, nothing when it cannot be opened.\<close>

definition SaveHistory :: "string \<Rightarrow> bool \<Rightarrow> ShellContext \<Rightarrow> ShellContext \<times> string" where
  "SaveHistory cmd can_open c =
     (c\<lparr>sx_History := sx_History c @ [cmd]\<rparr>, if can_open then cmd @ [char_of (10 :: nat)] else [])"

section \<open>Arguments of a line\<close>

abbreviation "dquote \<equiv> CHR 0x22"
abbreviation "squote \<equiv> CHR 0x27"
abbreviation "blank \<equiv> CHR 0x20"

text \<open>The arguments so far, the current one, and the quote that is open.\<close>

definition push_arg :: "string list \<Rightarrow> string \<Rightarrow> string list" where
  "push_arg args current = (if length current > 0 then args @ [current] else args)"

fun args_step :: "string list \<times> string \<times> char option \<Rightarrow> char \<Rightarrow> string list \<times> string \<times> char option" where
  "args_step (args, current, quote) r =
     (if r = dquote \<or> r = squote then
        (if quote = Some r then (args, current, None)
         else if quote = None then (args, current, Some r)
         else (args, current @ [r], quote))
      else if r = blank \<and> quote = None then (push_arg args current, [], quote)
      else (args, current @ [r], quote))"

definition ParseArgs :: "string \<Rightarrow> string list" where
  "ParseArgs line = (let (args, current, quote) = foldl args_step ([], [], None) line in push_arg args current)"

text \<open>The splitter of main.go: any quote character opens or closes.\<close>

fun main_args_step :: "string list \<times> string \<times> bool \<Rightarrow> char \<Rightarrow> string list \<times> string \<times> bool" where
  "main_args_step (args, current, inQuote) r =
     (if r = dquote \<or> r = squote then (args, current, \<not> inQuote)
      else if r = blank \<and> \<not> inQuote then (push_arg args current, [], inQuote)
      else (args, current @ [r], inQuote))"

definition main_parseArgs :: "string \<Rightarrow> string list" where
  "main_parseArgs line = (let (args, current, q) = foldl main_args_step ([], [], False) line in push_arg args current)"

text \<open>The splitter of completer.go: only the double quote.\<close>

fun complete_args_step :: "string list \<times> string \<times> bool \<Rightarrow> char \<Rightarrow> string list \<times> string \<times> bool" where
  "complete_args_step (args, current, inQuote) r =
     (if r = dquote then (args, current, \<not> inQuote)
      else if r = blank \<and> \<not> inQuote then (push_arg args current, [], inQuote)
      else (args, current @ [r], inQuote))"

definition parseArgsForComplete :: "string \<Rightarrow> string list" where
  "parseArgsForComplete line =
     (let (args, current, q) = foldl complete_args_step ([], [], False) line in push_arg args current)"

text \<open>\<open>resolvePath\<close> of main.go.\<close>

definition main_resolvePath :: "string \<Rightarrow> string \<Rightarrow> string" where
  "main_resolvePath currentPath path =
     (if path = [] then currentPath
      else if path = ''~'' \<or> path = ''/'' then ''/''
      else
        let p = (if \<not> has_prefix path ''/''
                 then (if currentPath = ''/'' then ''/'' @ path else currentPath @ ''/'' @ path) else path);
            normalized = foldl path_part [] (split_on slash p)
        in if length normalized = 0 then ''/'' else slash # join_with slash normalized)"

section \<open>The registry\<close>

definition lower_char :: "char \<Rightarrow> char" where
  "lower_char c = (let n = of_char c :: nat in if 65 \<le> n \<and> n \<le> 90 then char_of (n + 32) else c)"

definition to_lower :: "string \<Rightarrow> string" where
  "to_lower s = map lower_char s"

record Suggestion =
  sg_Text :: string
  sg_Description :: string

text \<open>A command: its names, its line of help, its completion and its execution over a state \<open>'s\<close>.\<close>

record 's Command =
  cd_Name :: string
  cd_Aliases :: "string list"
  cd_Brief :: string
  cd_Complete :: "'s \<Rightarrow> string list \<Rightarrow> string \<Rightarrow> Suggestion list"
  cd_Execute :: "'s \<Rightarrow> string list \<Rightarrow> gerror option \<times> 's"

record 's Registry =
  rg_commands :: "(string, 's Command) gomap"
  rg_aliases :: "(string, string) gomap"

definition NewRegistry :: "'s Registry" where
  "NewRegistry = \<lparr>rg_commands = [], rg_aliases = []\<rparr>"

definition Register :: "'s Command \<Rightarrow> 's Registry \<Rightarrow> 's Registry" where
  "Register cmd r =
     r\<lparr>rg_commands := mput (cd_Name cmd) cmd (rg_commands r),
       rg_aliases := foldl (\<lambda>m alias. mput alias (cd_Name cmd) m) (rg_aliases r) (cd_Aliases cmd)\<rparr>"

definition reg_Get :: "'s Registry \<Rightarrow> string \<Rightarrow> 's Command option" where
  "reg_Get r name =
     (case map_of (rg_commands r) name of
        Some cmd \<Rightarrow> Some cmd
      | None \<Rightarrow>
          (case map_of (rg_aliases r) name of
             Some primary \<Rightarrow> map_of (rg_commands r) primary
           | None \<Rightarrow> None))"

text \<open>\<open>sort.Strings\<close> orders by bytes.\<close>

fun string_le :: "string \<Rightarrow> string \<Rightarrow> bool" where
  "string_le [] t \<longleftrightarrow> True"
| "string_le (c # s) [] \<longleftrightarrow> False"
| "string_le (c # s) (d # t) \<longleftrightarrow> (of_char c :: nat) < of_char d \<or> c = d \<and> string_le s t"

fun insert_string :: "string \<Rightarrow> string list \<Rightarrow> string list" where
  "insert_string x [] = [x]"
| "insert_string x (y # ys) = (if string_le x y then x # y # ys else y # insert_string x ys)"

definition sort_strings :: "string list \<Rightarrow> string list" where
  "sort_strings xs = foldr insert_string xs []"

definition reg_List :: "'s Registry \<Rightarrow> string list" where
  "reg_List r = sort_strings (mkeys (rg_commands r))"

definition reg_All :: "'s Registry \<Rightarrow> 's Command list" where
  "reg_All r = map (\<lambda>name. the (map_of (rg_commands r) name)) (reg_List r)"

text \<open>The arrow before the name of an aliased command, in UTF-8.\<close>

definition arrow :: string where
  "arrow = [char_of (226 :: nat), char_of (134 :: nat), char_of (146 :: nat), blank]"

definition CompleteCommand :: "'s Registry \<Rightarrow> string \<Rightarrow> Suggestion list" where
  "CompleteCommand r partial = concat (map (\<lambda>cmd.
     (if partial = [] \<or> has_prefix (cd_Name cmd) partial
      then [\<lparr>sg_Text = cd_Name cmd, sg_Description = cd_Brief cmd\<rparr>] else [])
     @ map (\<lambda>alias. \<lparr>sg_Text = alias, sg_Description = arrow @ cd_Name cmd\<rparr>)
         (filter (\<lambda>alias. has_prefix alias partial) (cd_Aliases cmd))) (reg_All r))"

definition reg_Execute :: "'s Registry \<Rightarrow> 's \<Rightarrow> string \<Rightarrow> gerror option \<times> 's" where
  "reg_Execute r ctx line =
     (let args = ParseArgs line in
      if length args = 0 then (None, ctx)
      else
        let cmdName = to_lower (hd args) in
        case reg_Get r cmdName of
          None \<Rightarrow> (Some (Errorf (''unknown command: '' @ cmdName @ '' (type '' @ [squote] @ ''help'' @ [squote] @ '' for commands)'')), ctx)
        | Some cmd \<Rightarrow> cd_Execute cmd ctx (tl args))"

text \<open>\<open>None\<close> is a panic: a position before the line.\<close>

definition reg_Complete :: "'s Registry \<Rightarrow> 's \<Rightarrow> string \<Rightarrow> int \<Rightarrow> Suggestion list option" where
  "reg_Complete r ctx line pos0 =
     (let pos = (if pos0 > int (length line) then int (length line) else pos0) in
      if pos < 0 then None
      else
        let text = take (nat pos) line;
            args = ParseArgs text;
            endsWithSpace = (length text > 0 \<and> last text = blank)
        in if length args = 0 then Some (CompleteCommand r [])
           else if length args = 1 \<and> \<not> endsWithSpace then Some (CompleteCommand r (hd args))
           else
             case reg_Get r (to_lower (hd args)) of
               None \<Rightarrow> Some []
             | Some cmd \<Rightarrow>
                 let cmdArgs = tl args in
                 if length cmdArgs > 0 \<and> \<not> endsWithSpace
                 then Some (cd_Complete cmd ctx (butlast cmdArgs) (last cmdArgs))
                 else Some (cd_Complete cmd ctx cmdArgs []))"

definition FilterSuggestions :: "Suggestion list \<Rightarrow> string \<Rightarrow> Suggestion list" where
  "FilterSuggestions suggestions pre =
     (if pre = [] then suggestions
      else filter (\<lambda>s. has_prefix (to_lower (sg_Text s)) (to_lower pre)) suggestions)"

section \<open>The path is always canonical\<close>

lemma path_part_empty [simp]: "path_part out [] = out"
  by (simp add: path_part_def)

lemma path_part_clean:
  assumes "\<forall>x \<in> set out. plain x"
  shows "path_part out c = clean_step True out c"
proof (cases "out = []")
  case False
  then have "last out \<noteq> ''..''" using assms last_in_set [of out] by (auto simp: plain_def)
  with False show ?thesis by (simp add: path_part_def clean_step_def butlast_conv_take)
qed (simp add: path_part_def clean_step_def)

lemma foldl_path_part:
  assumes "\<forall>c \<in> set cs. slash \<notin> set c" "\<forall>x \<in> set out. plain x"
  shows "foldl path_part out cs = foldl (clean_step True) out cs"
  using assms
proof (induction cs arbitrary: out)
  case (Cons c cs)
  have "\<forall>x \<in> set (clean_step True out c). plain x"
    using clean_rooted_plain [of "[c]" out] Cons.prems by simp
  with Cons show ?case by (simp add: path_part_clean)
qed simp

lemma rooted_parts:
  "foldl path_part [] (split_on slash (slash # r)) = foldl (clean_step True) [] (split_on slash r)"
  using foldl_path_part [of "split_on slash r" "[]"] split_on_parts by fastforce

text \<open>The client and the store bring a rooted path into the same form.\<close>

lemma client_and_store_agree: "sh_normalizePath (slash # r) = normalizePath (slash # r)"
  using rooted_parts [of r] by (auto simp: sh_normalizePath_def normalize_rooted path_of_def clean_step_def Let_def)

lemma main_and_shell_agree:
  "path \<noteq> ''~'' \<Longrightarrow> main_resolvePath cur path = ResolvePath \<lparr>sx_Path = cur, sx_HistoryFile = f, sx_History = h\<rparr> path"
  by (auto simp: main_resolvePath_def ResolvePath_def sh_normalizePath_def has_prefix_def Let_def)

lemma normalize_rooted_canonical: "canonical (normalizePath (slash # r))"
  using normalize_canonical [of "slash # r"] by (simp add: has_prefix_slash)

lemma canonical_rooted: "canonical p \<Longrightarrow> \<exists>r. p = slash # r"
  by (auto simp: canonical_def path_of_def)

lemma canonical_root: "canonical ''/''"
  unfolding canonical_def by (rule exI [of _ "[]"]) (simp add: path_of_def)

lemma ResolvePath_canonical:
  assumes "canonical (sx_Path c)"
  shows "canonical (ResolvePath c path)"
proof -
  obtain r where r: "sx_Path c = slash # r" using canonical_rooted [OF assms] by blast
  have "\<exists>t. ResolvePath c path = normalizePath (slash # t)" if "path \<noteq> []"
    using that r by (auto simp: ResolvePath_def has_prefix_slash client_and_store_agree)
  with assms show ?thesis
    by (cases "path = []") (auto simp: ResolvePath_def normalize_rooted_canonical)
qed

definition path_ok :: "ShellContext \<Rightarrow> bool" where
  "path_ok c \<longleftrightarrow> canonical (sx_Path c) \<and> isValidPath (sx_Path c)"

lemma Cd_ok: "path_ok c \<Longrightarrow> path_ok (snd (Cd path c))"
  by (simp add: path_ok_def Cd_def Let_def ResolvePath_canonical)

lemma NewContext_ok: "path_ok (NewContext homeDir data)"
  by (simp add: path_ok_def NewContext_def loadHistory_def isValidPath_def canonical_root Let_def split: option.splits)

lemma Cds_ok: "path_ok c \<Longrightarrow> path_ok (foldl (\<lambda>c path. snd (Cd path c)) c paths)"
  by (induction paths arbitrary: c) (simp_all add: Cd_ok)

text \<open>The shell after a sequence of \<open>cd\<close> commands.\<close>

definition shell_after :: "string \<Rightarrow> string option \<Rightarrow> string list \<Rightarrow> ShellContext" where
  "shell_after homeDir data paths = foldl (\<lambda>c path. snd (Cd path c)) (NewContext homeDir data) paths"


text \<open>A failed \<open>cd\<close> stays where it was, a successful one stands on the path it resolved.\<close>

lemma Cd_result:
  "fst (Cd path c) = None \<longleftrightarrow> isValidPath (ResolvePath c path)"
  "sx_Path (snd (Cd path c)) = (if isValidPath (ResolvePath c path) then ResolvePath c path else sx_Path c)"
  by (simp_all add: Cd_def Let_def)

lemma history_bounded: "length (sx_History c) \<le> 1000 \<Longrightarrow> length (sx_History (loadHistory data c)) \<le> 1000"
  by (auto simp: loadHistory_def Let_def split: option.splits)

section \<open>Quoting an argument and splitting the line\<close>

text \<open>An argument is quoted with the quote it does not contain.\<close>

definition quote_arg :: "string \<Rightarrow> string" where
  "quote_arg a = (if dquote \<notin> set a then dquote # a @ [dquote] else squote # a @ [squote])"

lemma parse_in_quote:
  assumes "q = dquote \<or> q = squote" "q \<notin> set a"
  shows "foldl args_step (args, current, Some q) a = (args, current @ a, Some q)"
  using assms by (induction a arbitrary: current) auto

lemma parse_quoted:
  assumes "\<not> (dquote \<in> set a \<and> squote \<in> set a)"
  shows "foldl args_step (args, [], None) (quote_arg a) = (args, a, None)"
  using assms parse_in_quote [of dquote a args "[]"] parse_in_quote [of squote a args "[]"]
  by (auto simp: quote_arg_def)

lemma parse_quoted_line:
  assumes "\<forall>a \<in> set as. a \<noteq> [] \<and> \<not> (dquote \<in> set a \<and> squote \<in> set a)" "as \<noteq> []"
  shows "foldl args_step (args, [], None) (join_with blank (map quote_arg as)) = (args @ butlast as, last as, None)"
  using assms
proof (induction as arbitrary: args)
  case (Cons a as)
  have q: "foldl args_step (args, [], None) (quote_arg a) = (args, a, None)"
    using parse_quoted [of a args] Cons.prems(1) by simp
  show ?case
  proof (cases as)
    case Nil
    with q show ?thesis by simp
  next
    case (Cons b bs)
    have "a \<noteq> []" using Cons.prems(1) by simp
    then have "foldl args_step (args, [], None) (quote_arg a @ [blank]) = (args @ [a], [], None)"
      by (simp add: q push_arg_def)
    with Cons.IH [of "args @ [a]"] Cons.prems(1) Cons show ?thesis by simp
  qed
qed simp

text \<open>A line made of quoted arguments is split into those arguments again, whatever is in them, blanks and the
  other quote included, as long as none is empty and none contains both quotes.\<close>

theorem parse_args_of_quoted:
  assumes "\<forall>a \<in> set as. a \<noteq> [] \<and> \<not> (dquote \<in> set a \<and> squote \<in> set a)"
  shows "ParseArgs (join_with blank (map quote_arg as)) = as"
proof (cases "as = []")
  case True
  then show ?thesis by (simp add: ParseArgs_def push_arg_def)
next
  case False
  then have "last as \<noteq> []" using assms by simp
  with parse_quoted_line [OF assms False, of "[]"] False show ?thesis
    by (simp add: ParseArgs_def push_arg_def)
qed

definition ex_args :: "string list" where
  "ex_args = [''set'', ''target'', ''--desc=core router '' @ [squote] @ ''A'' @ [squote], [dquote, dquote]]"

lemma parse_args_of_quoted_witness: "ParseArgs (join_with blank (map quote_arg ex_args)) = ex_args"
  by (rule parse_args_of_quoted) (simp add: ex_args_def)

text \<open>Arguments without blanks and quotes need no quotes.\<close>

definition bare :: "string \<Rightarrow> bool" where
  "bare a \<longleftrightarrow> a \<noteq> [] \<and> dquote \<notin> set a \<and> squote \<notin> set a \<and> blank \<notin> set a"

lemma parse_bare: "dquote \<notin> set a \<Longrightarrow> squote \<notin> set a \<Longrightarrow> blank \<notin> set a \<Longrightarrow>
    foldl args_step (args, current, None) a = (args, current @ a, None)"
  by (induction a arbitrary: current) auto

text \<open>No argument of a line is empty: a quoted empty argument disappears.\<close>

lemma args_not_empty:
  assumes "[] \<notin> set args"
  shows "[] \<notin> set (fst (foldl args_step (args, current, quote) line))"
  using assms
proof (induction line arbitrary: args current quote)
  case (Cons r line)
  obtain args' current' quote' where s: "args_step (args, current, quote) r = (args', current', quote')"
    by (rule prod_cases3)
  then have "[] \<notin> set args'" using Cons.prems by (auto simp: push_arg_def split: if_splits)
  then show ?case unfolding foldl_Cons s by (rule Cons.IH)
qed simp

lemma empty_argument_is_lost: "[] \<notin> set (ParseArgs line)"
proof -
  obtain args current quote where f: "foldl args_step ([], [], None) line = (args, current, quote)"
    by (rule prod_cases3)
  have "[] \<notin> set args" using args_not_empty [of "[]" "[]" None line] by (simp add: f)
  then show ?thesis by (simp add: ParseArgs_def f push_arg_def)
qed

text \<open>The three splitters differ on a quote inside the other quote and on a single-quoted argument.\<close>

lemma splitters_differ:
  "ParseArgs ([dquote] @ ''it'' @ [squote] @ ''s ok'' @ [dquote] @ '' x'') = [''it'' @ [squote] @ ''s ok'', ''x'']"
  "main_parseArgs ([dquote] @ ''it'' @ [squote] @ ''s ok'' @ [dquote] @ '' x'') = [''its'', ''ok x'']"
  "ParseArgs ([squote] @ ''a b'' @ [squote]) = [''a b'']"
  "parseArgsForComplete ([squote] @ ''a b'' @ [squote]) = [[squote] @ ''a'', ''b'' @ [squote]]"
  by (simp_all add: ParseArgs_def main_parseArgs_def parseArgsForComplete_def push_arg_def)

section \<open>The registry\<close>

lemma aliases_fold:
  "map_of (foldl (\<lambda>m alias. mput alias n m) m as) a = (if a \<in> set as then Some n else map_of m a)"
  by (induction as arbitrary: m) auto

text \<open>A registered command is found by its name, and by each alias that is not the name of a command.\<close>

lemma Get_registered:
  "reg_Get (Register cmd r) (cd_Name cmd) = Some cmd"
  "a \<in> set (cd_Aliases cmd) \<Longrightarrow> map_of (rg_commands (Register cmd r)) a = None \<Longrightarrow> reg_Get (Register cmd r) a = Some cmd"
  by (auto simp: reg_Get_def Register_def aliases_fold)

text \<open>Registering a command changes nothing for the names that are neither its own nor its aliases.\<close>

lemma Get_other:
  assumes "map_of (rg_aliases r) n \<noteq> Some (cd_Name cmd)" "n \<noteq> cd_Name cmd" "n \<notin> set (cd_Aliases cmd)"
  shows "reg_Get (Register cmd r) n = reg_Get r n"
  using assms by (auto simp: reg_Get_def Register_def aliases_fold split: option.splits)

definition reg_ok :: "'s Registry \<Rightarrow> bool" where
  "reg_ok r \<longleftrightarrow> gomap_ok (rg_commands r) \<and> (\<forall>n c. map_of (rg_commands r) n = Some c \<longrightarrow> cd_Name c = n)
     \<and> ran (map_of (rg_aliases r)) \<subseteq> dom (map_of (rg_commands r))"

lemma reg_ok_New: "reg_ok NewRegistry"
  by (simp add: reg_ok_def NewRegistry_def)

lemma reg_ok_Register: "reg_ok r \<Longrightarrow> reg_ok (Register cmd r)"
  by (auto simp: reg_ok_def Register_def aliases_fold ran_def split: if_splits)

lemma string_le_total: "string_le x y \<or> string_le y x"
proof (induction x arbitrary: y)
  case (Cons c x)
  show ?case
  proof (cases y)
    case (Cons d z)
    have "c = d" if "(of_char c :: nat) = of_char d" using that by simp
    then show ?thesis using Cons.IH [of z] Cons by auto
  qed simp
qed simp

lemma string_le_trans: "string_le x y \<Longrightarrow> string_le y z \<Longrightarrow> string_le x z"
proof (induction x arbitrary: y z)
  case (Cons c x)
  then show ?case by (cases y; cases z) auto
qed simp

lemma set_insert_string: "set (insert_string x ys) = insert x (set ys)"
  by (induction ys) auto

lemma sorted_insert_string: "sorted_wrt string_le ys \<Longrightarrow> sorted_wrt string_le (insert_string x ys)"
proof (induction ys)
  case (Cons y ys)
  then show ?case using string_le_total [of x y] by (auto simp: set_insert_string intro: string_le_trans)
qed simp

lemma sort_strings_sorted: "set (sort_strings xs) = set xs" "sorted_wrt string_le (sort_strings xs)"
  by (induction xs) (simp_all add: sort_strings_def set_insert_string sorted_insert_string)

text \<open>The suggestions for a partial name: every command whose name or alias starts with it, in the order of the names.\<close>

lemma image_the_dom: "(\<lambda>n. the (m n)) ` dom m = ran m"
  by (auto simp: ran_def image_iff) force

lemma set_reg_All: "set (reg_All r) = ran (map_of (rg_commands r))"
  unfolding reg_All_def reg_List_def set_map sort_strings_sorted by (simp only: mkeys_dom [unfolded set_map] image_the_dom)

lemma suggestions_of_command:
  "sg_Text ` set ((if partial = [] \<or> has_prefix n partial then [\<lparr>sg_Text = n, sg_Description = b\<rparr>] else [])
      @ map (\<lambda>alias. \<lparr>sg_Text = alias, sg_Description = d\<rparr>) (filter (\<lambda>alias. has_prefix alias partial) as))
    = {t. has_prefix t partial \<and> (t = n \<or> t \<in> set as)}"
  by (simp only: set_append image_Un set_map image_image set_filter) (auto simp: has_prefix_def)

lemma CompleteCommand_texts:
  "sg_Text ` set (CompleteCommand r partial) =
    (\<Union>cmd \<in> ran (map_of (rg_commands r)). {t. has_prefix t partial \<and> (t = cd_Name cmd \<or> t \<in> set (cd_Aliases cmd))})"
  unfolding CompleteCommand_def set_concat set_map set_reg_All image_UN UN_simps(10) suggestions_of_command ..

text \<open>Completion panics only before the start of the line, and never while a user types at its end.\<close>

lemma Complete_total: "reg_Complete r ctx line pos = None \<longleftrightarrow> pos < 0"
proof (cases "pos < 0")
  case True
  then show ?thesis by (simp add: reg_Complete_def)
next
  case False
  define p where "p = (if pos > int (length line) then int (length line) else pos)"
  define args where "args = ParseArgs (take (nat p) line)"
  have "\<not> p < 0" using False by (simp add: p_def)
  then show ?thesis
    using False unfolding reg_Complete_def p_def [symmetric] Let_def args_def [symmetric] by (simp split: option.split)
qed

lemma Execute_blank: "\<forall>c \<in> set line. c = blank \<Longrightarrow> reg_Execute r ctx line = (None, ctx)"
proof -
  assume b: "\<forall>c \<in> set line. c = blank"
  have "foldl args_step ([], [], None) line = ([], [], None)"
    using b by (induction line) (auto simp: push_arg_def)
  then show ?thesis by (simp add: reg_Execute_def ParseArgs_def push_arg_def)
qed

text \<open>The name of a command is found in any case, its completion only in its own.\<close>

lemma filtered_suggestions: "set (FilterSuggestions ss pre) \<subseteq> set ss" "FilterSuggestions (FilterSuggestions ss pre) pre = FilterSuggestions ss pre"
  by (auto simp: FilterSuggestions_def)

end
