(* ===== verification/Oids.thy ===== *)
theory Oids
  imports Prelude
begin

text \<open>
  OID aliases of the command line client, cmd/snmpctl/oids/aliases.go: the tables, \<open>Resolve\<close> and \<open>List\<close>.
\<close>

section \<open>Tables\<close>

definition Alias :: "(string, string) gomap" where
  "Alias =
    [(''sysDescr'', ''1.3.6.1.2.1.1.1.0''), (''sysObjectID'', ''1.3.6.1.2.1.1.2.0''),
     (''sysUpTime'', ''1.3.6.1.2.1.1.3.0''), (''sysContact'', ''1.3.6.1.2.1.1.4.0''),
     (''sysName'', ''1.3.6.1.2.1.1.5.0''), (''sysLocation'', ''1.3.6.1.2.1.1.6.0''),
     (''sysServices'', ''1.3.6.1.2.1.1.7.0''), (''ifDescr'', ''1.3.6.1.2.1.2.2.1.2''),
     (''ifType'', ''1.3.6.1.2.1.2.2.1.3''), (''ifMtu'', ''1.3.6.1.2.1.2.2.1.4''),
     (''ifSpeed'', ''1.3.6.1.2.1.2.2.1.5''), (''ifAdminStatus'', ''1.3.6.1.2.1.2.2.1.7''),
     (''ifOperStatus'', ''1.3.6.1.2.1.2.2.1.8''), (''ifInOctets'', ''1.3.6.1.2.1.2.2.1.10''),
     (''ifInErrors'', ''1.3.6.1.2.1.2.2.1.14''), (''ifOutOctets'', ''1.3.6.1.2.1.2.2.1.16''),
     (''ifOutErrors'', ''1.3.6.1.2.1.2.2.1.20''), (''ifName'', ''1.3.6.1.2.1.31.1.1.1.1''),
     (''ifHCInOctets'', ''1.3.6.1.2.1.31.1.1.1.6''), (''ifHCOutOctets'', ''1.3.6.1.2.1.31.1.1.1.10''),
     (''ifAlias'', ''1.3.6.1.2.1.31.1.1.1.18''), (''ipForwarding'', ''1.3.6.1.2.1.4.1.0''),
     (''ipInReceives'', ''1.3.6.1.2.1.4.3.0''), (''ipOutRequests'', ''1.3.6.1.2.1.4.10.0''),
     (''tcpActiveOpens'', ''1.3.6.1.2.1.6.5.0''), (''tcpPassiveOpens'', ''1.3.6.1.2.1.6.6.0''),
     (''tcpCurrEstab'', ''1.3.6.1.2.1.6.9.0''), (''tcpInSegs'', ''1.3.6.1.2.1.6.10.0''),
     (''tcpOutSegs'', ''1.3.6.1.2.1.6.11.0''), (''udpInDatagrams'', ''1.3.6.1.2.1.7.1.0''),
     (''udpOutDatagrams'', ''1.3.6.1.2.1.7.4.0''), (''hrSystemUptime'', ''1.3.6.1.2.1.25.1.1.0''),
     (''hrSystemNumUsers'', ''1.3.6.1.2.1.25.1.5.0''), (''hrSystemProcesses'', ''1.3.6.1.2.1.25.1.6.0''),
     (''hrMemorySize'', ''1.3.6.1.2.1.25.2.2.0''), (''hrStorageDescr'', ''1.3.6.1.2.1.25.2.3.1.3''),
     (''hrStorageSize'', ''1.3.6.1.2.1.25.2.3.1.5''), (''hrStorageUsed'', ''1.3.6.1.2.1.25.2.3.1.6''),
     (''hrProcessorLoad'', ''1.3.6.1.2.1.25.3.3.1.2''), (''cpmCPUTotal1min'', ''1.3.6.1.4.1.9.9.109.1.1.1.1.4''),
     (''cpmCPUTotal5min'', ''1.3.6.1.4.1.9.9.109.1.1.1.1.5''), (''cpmCPUTotal1minRev'', ''1.3.6.1.4.1.9.9.109.1.1.1.1.7''),
     (''cpmCPUTotal5minRev'', ''1.3.6.1.4.1.9.9.109.1.1.1.1.8''), (''memTotalReal'', ''1.3.6.1.4.1.2021.4.5.0''),
     (''memAvailReal'', ''1.3.6.1.4.1.2021.4.6.0''), (''memTotalFree'', ''1.3.6.1.4.1.2021.4.11.0''),
     (''ssCpuUser'', ''1.3.6.1.4.1.2021.11.9.0''), (''ssCpuSystem'', ''1.3.6.1.4.1.2021.11.10.0''),
     (''ssCpuIdle'', ''1.3.6.1.4.1.2021.11.11.0''), (''laLoad1'', ''1.3.6.1.4.1.2021.10.1.3.1''),
     (''laLoad5'', ''1.3.6.1.4.1.2021.10.1.3.2''), (''laLoad15'', ''1.3.6.1.4.1.2021.10.1.3.3'')]"

definition Description :: "(string, string) gomap" where
  "Description =
    [(''sysDescr'', ''System description''), (''sysUpTime'', ''System uptime (timeticks)''),
     (''sysName'', ''System hostname''), (''sysLocation'', ''System location''),
     (''sysContact'', ''System contact''), (''ifDescr'', ''Interface description (.N)''),
     (''ifOperStatus'', ''Interface oper status (.N)''), (''ifAdminStatus'', ''Interface admin status (.N)''),
     (''ifSpeed'', ''Interface speed (.N)''), (''ifInOctets'', ''Input bytes 32-bit (.N)''),
     (''ifOutOctets'', ''Output bytes 32-bit (.N)''), (''ifHCInOctets'', ''Input bytes 64-bit (.N)''),
     (''ifHCOutOctets'', ''Output bytes 64-bit (.N)''), (''ifName'', ''Interface name (.N)''),
     (''ifAlias'', ''Interface alias (.N)''), (''hrMemorySize'', ''Total memory (KB)''),
     (''hrProcessorLoad'', ''CPU load % (.N)''), (''cpmCPUTotal5min'', ''Cisco CPU 5min %''),
     (''laLoad1'', ''Linux load avg 1min''), (''laLoad5'', ''Linux load avg 5min''),
     (''ssCpuIdle'', ''Linux CPU idle %''), (''memAvailReal'', ''Linux available memory'')]"

definition priority :: "string list" where
  "priority =
    [''sysUpTime'', ''sysDescr'', ''sysName'', ''sysLocation'', ''ifHCInOctets'', ''ifHCOutOctets'',
     ''ifOperStatus'', ''ifDescr'', ''ifName'', ''hrProcessorLoad'', ''hrMemorySize'', ''laLoad1'',
     ''laLoad5'', ''ssCpuIdle'', ''memAvailReal'', ''cpmCPUTotal5min'']"

section \<open>Resolve and List\<close>

definition oid_Resolve :: "string \<Rightarrow> string" where
  "oid_Resolve aliasOrOID =
     (if has_prefix aliasOrOID ''.'' \<or> has_prefix aliasOrOID ''1.'' then trim_prefix aliasOrOID ''.''
      else
        let parts = split_n CHR ''.'' 2 aliasOrOID;
            suffix = (if length parts = 2 then CHR ''.'' # parts ! 1 else [])
        in case map_of Alias (hd parts) of
             Some oid \<Rightarrow> oid @ suffix
           | None \<Rightarrow> aliasOrOID)"

text \<open>An entry of \<open>List\<close>: the name, the OID and the description, the OID standing in for a missing one.\<close>

definition oid_List :: "(string \<times> string \<times> string) list" where
  "oid_List = concat (map (\<lambda>name.
     case map_of Alias name of
       None \<Rightarrow> []
     | Some oid \<Rightarrow>
         (let d = (case map_of Description name of None \<Rightarrow> [] | Some d \<Rightarrow> d)
          in [(name, oid, if d = [] then oid else d)])) priority)"

section \<open>What Resolve gives\<close>

definition oid_char :: "char \<Rightarrow> bool" where
  "oid_char c \<longleftrightarrow> c \<in> set ''.0123456789''"

text \<open>The tables: distinct names without a dot, OIDs of digits and dots below 1.\<close>

lemma alias_names: "distinct (map fst Alias)" "\<forall>a \<in> set (map fst Alias). CHR ''.'' \<notin> set a \<and> a \<noteq> [] \<and> hd a \<noteq> CHR ''1''"
  by code_simp+

lemma alias_oids: "\<forall>(a, oid) \<in> set Alias. has_prefix oid ''1.'' \<and> list_all oid_char oid"
  by code_simp

lemma described_names: "\<forall>d \<in> set (map fst Description). map_of Alias d \<noteq> None"
  by code_simp

lemma List_complete: "map fst oid_List = priority" "\<forall>(n, oid, d) \<in> set oid_List. map_of Alias n = Some oid \<and> d \<noteq> []"
  by code_simp+

lemma map_of_alias: "map_of Alias a = Some oid \<Longrightarrow> CHR ''.'' \<notin> set a \<and> a \<noteq> [] \<and> hd a \<noteq> CHR ''1'' \<and> has_prefix oid ''1.'' \<and> list_all oid_char oid"
  using alias_names(2) alias_oids by (fastforce dest: map_of_SomeD)

lemma hd_prefix: "s \<noteq> [] \<Longrightarrow> has_prefix s [c] \<longleftrightarrow> hd s = c"
  by (cases s) (auto simp: has_prefix_def)

text \<open>An alias with or without an index becomes its OID with the same index.\<close>

lemma Resolve_alias:
  assumes "map_of Alias a = Some oid"
  shows "oid_Resolve a = oid" "oid_Resolve (a @ CHR ''.'' # i) = oid @ CHR ''.'' # i"
proof -
  from map_of_alias [OF assms] have a: "CHR ''.'' \<notin> set a" "a \<noteq> []" "hd a \<noteq> CHR ''1''" by simp_all
  have h: "hd a \<noteq> CHR ''.''" using a(1,2) hd_in_set by metis
  have p: "\<not> has_prefix (a @ r) ''.''" "\<not> has_prefix (a @ r) ''1.''" for r
    using a(2,3) h by (cases a; simp add: has_prefix_def)+
  have n: "(2 :: nat) = Suc (Suc 0)" by simp
  show "oid_Resolve a = oid"
    using p [of "[]"] a(1) assms by (simp add: oid_Resolve_def n)
  have "split_n CHR ''.'' 2 (a @ CHR ''.'' # i) = [a, i]"
    unfolding n using split_n_append [OF a(1), of 0 i] by simp
  with p [of "CHR ''.'' # i"] assms show "oid_Resolve (a @ CHR ''.'' # i) = oid @ CHR ''.'' # i"
    by (simp add: oid_Resolve_def)
qed

text \<open>An OID is resolved to itself without its leading dot, so resolving again changes nothing.\<close>

lemma Resolve_oid: "has_prefix s ''1.'' \<Longrightarrow> oid_Resolve s = s"
  by (auto simp: oid_Resolve_def has_prefix_iff trim_prefix_def)

lemma Resolve_dotted: "has_prefix s ''1.'' \<Longrightarrow> oid_Resolve (CHR ''.'' # s) = s"
  by (simp add: oid_Resolve_def has_prefix_def trim_prefix_def)

lemma Resolve_twice:
  assumes "map_of Alias a = Some oid"
  shows "oid_Resolve (oid_Resolve (a @ CHR ''.'' # i)) = oid_Resolve (a @ CHR ''.'' # i)"
proof -
  have "has_prefix (oid @ CHR ''.'' # i) ''1.''" using map_of_alias [OF assms] by (auto simp: has_prefix_iff)
  then show ?thesis unfolding Resolve_alias(2) [OF assms] by (rule Resolve_oid)
qed

text \<open>
  An OID below 2 or 0 is taken as a name; with a leading dot it loses it, without it is left as it is. A doubled
  dot loses one dot at each resolution.
\<close>

lemma Resolve_not_idempotent: "oid_Resolve (oid_Resolve ''..1'') \<noteq> oid_Resolve ''..1''"
  by (simp add: oid_Resolve_def has_prefix_def trim_prefix_def)

end
