(* ===== verification/Commands.thy ===== *)
theory Commands
  imports Shell Oids
begin

text \<open>
  The commands of the shell, cmd/snmpctl/commands: what each makes of its arguments, the request it sends, and the
  path and target completion.

  The connection to the server is the record \<open>Client\<close> of its calls, a request to an answer or an error; it is a
  parameter of every command. Requests and answers are generated message types; the records hold the fields the
  commands set or read, a field set through a pointer is an \<open>option\<close>. What a command prints is the text of its
  result; the tables that \<open>ls\<close>, \<open>cat\<close> and \<open>history\<close> print are left out.
\<close>

section \<open>Numbers\<close>

definition is_digit :: "char \<Rightarrow> bool" where
  "is_digit c \<longleftrightarrow> (let n = of_char c :: nat in 48 \<le> n \<and> n \<le> 57)"

definition digits_value :: "string \<Rightarrow> nat option" where
  "digits_value s =
     (if s \<noteq> [] \<and> list_all is_digit s then Some (foldl (\<lambda>v c. v * 10 + (of_char c - 48)) 0 s) else None)"

text \<open>\<open>strconv.ParseUint(s, 10, 32)\<close> and \<open>strconv.Atoi\<close>; \<open>None\<close> is an error.\<close>

definition ParseUint32 :: "string \<Rightarrow> 32 word option" where
  "ParseUint32 s = (case digits_value s of None \<Rightarrow> None | Some n \<Rightarrow> if n < 2 ^ 32 then Some (of_nat n) else None)"

definition Atoi :: "string \<Rightarrow> int option" where
  "Atoi s =
     (let neg = (s \<noteq> [] \<and> hd s = CHR ''-'');
          body = (if s \<noteq> [] \<and> (hd s = CHR ''-'' \<or> hd s = CHR ''+'') then tl s else s)
      in case digits_value body of
           None \<Rightarrow> None
         | Some n \<Rightarrow>
             if neg then (if n \<le> 2 ^ 63 then Some (- int n) else None)
             else (if n < 2 ^ 63 then Some (int n) else None))"

section \<open>Messages\<close>

datatype NodeType = NODE_DIRECTORY | NODE_TARGET | NODE_INFO

record NodeTarget =
  nt_Id :: string
  nt_Name :: string
  nt_Description :: string

record BrowseNode =
  bn_Name :: string
  bn_Type :: NodeType
  bn_Description :: string
  bn_Target :: "NodeTarget option"

record BrowseRequest =
  br_Path :: string
  br_LongFormat :: bool
  br_FilterTags :: "string list"
  br_FilterState :: string
  br_FilterHost :: string
  br_Limit :: nat

definition browse_path_only :: "string \<Rightarrow> bool \<Rightarrow> nat \<Rightarrow> BrowseRequest" where
  "browse_path_only path long limit =
     \<lparr>br_Path = path, br_LongFormat = long, br_FilterTags = [], br_FilterState = [], br_FilterHost = [], br_Limit = limit\<rparr>"

record UpdateTargetRequest =
  ut_TargetId :: string
  ut_Name :: "string option"
  ut_Description :: "string option"
  ut_IntervalMs :: "32 word option"
  ut_TimeoutMs :: "32 word option"
  ut_Retries :: "32 word option"
  ut_Persistent :: "bool option"
  ut_AddTags :: "string list"
  ut_RemoveTags :: "string list"
  ut_SetTags :: "string list"
  ut_Community :: "string option"
  ut_AuthPassword :: "string option"
  ut_PrivPassword :: "string option"

definition empty_update :: "string \<Rightarrow> UpdateTargetRequest" where
  "empty_update targetID =
     \<lparr>ut_TargetId = targetID, ut_Name = None, ut_Description = None, ut_IntervalMs = None, ut_TimeoutMs = None,
      ut_Retries = None, ut_Persistent = None, ut_AddTags = [], ut_RemoveTags = [], ut_SetTags = [],
      ut_Community = None, ut_AuthPassword = None, ut_PrivPassword = None\<rparr>"

record SetConfigRequest =
  sr_DefaultTimeoutMs :: "32 word option"
  sr_DefaultRetries :: "32 word option"
  sr_DefaultBufferSize :: "32 word option"
  sr_MinIntervalMs :: "32 word option"

record V3Config =
  v3_SecurityName :: string
  v3_SecurityLevel :: string
  v3_AuthProtocol :: string
  v3_AuthPassword :: string
  v3_PrivProtocol :: string
  v3_PrivPassword :: string

datatype SNMPVersion = V2C string | V3 V3Config

record CreateTargetRequest =
  ct_Name :: string
  ct_Tags :: "string list"
  ct_Persistent :: bool
  ct_IntervalMs :: "32 word"
  ct_Host :: string
  ct_Port :: "32 word"
  ct_Oid :: string
  ct_Version :: SNMPVersion

record CreateTargetAnswer =
  ca_TargetId :: string
  ca_TargetName :: string
  ca_Created :: bool
  ca_Message :: string

text \<open>The calls: \<open>SetConfig\<close> answers with its ok flag and a message, \<open>Subscribe\<close> with the targets it subscribed
  and the total, \<open>Unsubscribe\<close> with how many it took away and the total.\<close>

record Client =
  cl_Browse :: "BrowseRequest \<Rightarrow> BrowseNode list go"
  cl_CreateTarget :: "CreateTargetRequest \<Rightarrow> CreateTargetAnswer go"
  cl_UpdateTarget :: "UpdateTargetRequest \<Rightarrow> string go"
  cl_DeleteTarget :: "string \<Rightarrow> bool \<Rightarrow> string go"
  cl_SetConfig :: "SetConfigRequest \<Rightarrow> (bool \<times> string) go"
  cl_Subscribe :: "string list \<Rightarrow> string list \<Rightarrow> (string list \<times> nat) go"
  cl_Unsubscribe :: "string list \<Rightarrow> (nat \<times> nat) go"

section \<open>set\<close>

text \<open>The arguments after the target, with the request and \<open>hasChanges\<close> so far.\<close>

definition set_tag :: "string \<Rightarrow> UpdateTargetRequest \<Rightarrow> UpdateTargetRequest" where
  "set_tag tagVal req =
     (if has_prefix tagVal ''+'' then req\<lparr>ut_AddTags := ut_AddTags req @ [trim_prefix tagVal ''+'']\<rparr>
      else if has_prefix tagVal ''-'' then req\<lparr>ut_RemoveTags := ut_RemoveTags req @ [trim_prefix tagVal ''-'']\<rparr>
      else req\<lparr>ut_SetTags := ut_SetTags req @ [tagVal]\<rparr>)"

definition set_number :: "(32 word \<Rightarrow> UpdateTargetRequest) \<Rightarrow> string \<Rightarrow> UpdateTargetRequest \<times> bool \<Rightarrow> UpdateTargetRequest \<times> bool" where
  "set_number upd text st = (case ParseUint32 text of Some v \<Rightarrow> (upd v, True) | None \<Rightarrow> st)"

fun set_flags :: "string list \<Rightarrow> UpdateTargetRequest \<times> bool \<Rightarrow> UpdateTargetRequest \<times> bool" where
  "set_flags [] st = st"
| "set_flags (arg # args) (req, hasChanges) =
     (if has_prefix arg ''--name='' then set_flags args (req\<lparr>ut_Name := Some (trim_prefix arg ''--name='')\<rparr>, True)
      else if has_prefix arg ''--desc='' then set_flags args (req\<lparr>ut_Description := Some (trim_prefix arg ''--desc='')\<rparr>, True)
      else if has_prefix arg ''--interval='' then
        set_flags args (set_number (\<lambda>v. req\<lparr>ut_IntervalMs := Some v\<rparr>) (trim_prefix arg ''--interval='') (req, hasChanges))
      else if has_prefix arg ''--timeout='' then
        set_flags args (set_number (\<lambda>v. req\<lparr>ut_TimeoutMs := Some v\<rparr>) (trim_prefix arg ''--timeout='') (req, hasChanges))
      else if has_prefix arg ''--retries='' then
        set_flags args (set_number (\<lambda>v. req\<lparr>ut_Retries := Some v\<rparr>) (trim_prefix arg ''--retries='') (req, hasChanges))
      else if arg = ''--persistent'' then set_flags args (req\<lparr>ut_Persistent := Some True\<rparr>, True)
      else if arg = ''--no-persistent'' then set_flags args (req\<lparr>ut_Persistent := Some False\<rparr>, True)
      else if has_prefix arg ''--tag'' then
        (if has_prefix arg ''--tag='' then set_flags args (set_tag (trim_prefix arg ''--tag='') req, True)
         else case args of [] \<Rightarrow> (req, hasChanges) | v # rest \<Rightarrow> set_flags rest (set_tag v req, True))
      else if has_prefix arg ''--community='' then set_flags args (req\<lparr>ut_Community := Some (trim_prefix arg ''--community='')\<rparr>, True)
      else if has_prefix arg ''--auth-pass='' then set_flags args (req\<lparr>ut_AuthPassword := Some (trim_prefix arg ''--auth-pass='')\<rparr>, True)
      else if has_prefix arg ''--priv-pass='' then set_flags args (req\<lparr>ut_PrivPassword := Some (trim_prefix arg ''--priv-pass='')\<rparr>, True)
      else set_flags args (req, hasChanges))"

text \<open>A command gives what it prints or its error.\<close>

definition set_executeTarget :: "Client \<Rightarrow> string list \<Rightarrow> string go" where
  "set_executeTarget cl args =
     (if length args < 1 then Inl (Errorf ''usage: set target <id|name> [options]'')
      else
        let (req, hasChanges) = set_flags (tl args) (empty_update (hd args), False) in
        if \<not> hasChanges then Inl (Errorf ''no changes specified'')
        else case cl_UpdateTarget cl req of Inl err \<Rightarrow> Inl err | Inr msg \<Rightarrow> Inr (''Updated: '' @ msg))"

definition set_executeConfig :: "Client \<Rightarrow> string list \<Rightarrow> string go" where
  "set_executeConfig cl args =
     (if length args < 2 then Inl (Errorf ''usage: set config <key> <value>'')
      else
        let key = args ! 0; value = args ! 1 in
        case ParseUint32 value of
          None \<Rightarrow> Inl (Errorf (''invalid value: '' @ value @ '' (must be a number)''))
        | Some v \<Rightarrow>
            let req = \<lparr>sr_DefaultTimeoutMs = None, sr_DefaultRetries = None, sr_DefaultBufferSize = None, sr_MinIntervalMs = None\<rparr>;
                r = (if key = ''timeout'' \<or> key = ''default_timeout_ms'' then Some (req\<lparr>sr_DefaultTimeoutMs := Some v\<rparr>)
                     else if key = ''retries'' \<or> key = ''default_retries'' then Some (req\<lparr>sr_DefaultRetries := Some v\<rparr>)
                     else if key = ''buffer'' \<or> key = ''default_buffer_size'' then Some (req\<lparr>sr_DefaultBufferSize := Some v\<rparr>)
                     else if key = ''min-interval'' \<or> key = ''min_interval_ms'' then Some (req\<lparr>sr_MinIntervalMs := Some v\<rparr>)
                     else None)
            in case r of
                 None \<Rightarrow> Inl (Errorf (''unknown config key: '' @ key))
               | Some q \<Rightarrow>
                   (case cl_SetConfig cl q of
                      Inl err \<Rightarrow> Inl err
                    | Inr (ok, msg) \<Rightarrow>
                        if ok then Inr (''Config updated: '' @ key @ '' = '' @ show_nat (unat v)) else Inr (''Failed: '' @ msg)))"

definition SetCmd_Execute :: "Client \<Rightarrow> string list \<Rightarrow> string go" where
  "SetCmd_Execute cl args =
     (if length args < 2 then Inl (Errorf ''usage: set target <id> [options] OR set config <key> <value>'')
      else
        let setType = to_lower (hd args) in
        if setType = ''target'' then set_executeTarget cl (tl args)
        else if setType = ''config'' then set_executeConfig cl (tl args)
        else Inl (Errorf (''unknown type: '' @ setType @ '' (use: target, config)'')))"

section \<open>rm, sub, unsub\<close>

definition rm_executeTarget :: "Client \<Rightarrow> string list \<Rightarrow> string go" where
  "rm_executeTarget cl args =
     (if length args = 0 then Inl (Errorf ''usage: rm target <id|name> [-f]'')
      else
        let force = (\<exists>arg \<in> set (tl args). arg = ''-f'' \<or> arg = ''--force'') in
        case cl_DeleteTarget cl (hd args) force of Inl err \<Rightarrow> Inl err | Inr msg \<Rightarrow> Inr (''Removed: '' @ msg))"

definition RmCmd_Execute :: "Client \<Rightarrow> string list \<Rightarrow> string go" where
  "RmCmd_Execute cl args =
     (if length args < 2 then Inl (Errorf ''usage: rm target <id|name> [-f]'')
      else
        let rmType = to_lower (hd args) in
        if rmType = ''target'' then rm_executeTarget cl (tl args)
        else if rmType = ''tag'' then Inl (Errorf ''tag removal not yet implemented'')
        else Inl (Errorf (''unknown type: '' @ rmType @ '' (use: target, tag)'')))"

definition sub_args :: "string list \<Rightarrow> string list \<times> string list" where
  "sub_args args =
     (filter (\<lambda>arg. \<not> has_prefix arg ''--tag='' \<and> \<not> has_prefix arg ''-'') args,
      map (\<lambda>arg. trim_prefix arg ''--tag='') (filter (\<lambda>arg. has_prefix arg ''--tag='') args))"

definition newline :: char where
  "newline = char_of (10 :: nat)"

definition SubCmd_Execute :: "Client \<Rightarrow> string list \<Rightarrow> string go" where
  "SubCmd_Execute cl args =
     (if length args = 0 then Inl (Errorf ''usage: sub <target-id|name>... [--tag=TAG]'')
      else
        let (targetIDs, tags) = sub_args args in
        case cl_Subscribe cl targetIDs tags of
          Inl err \<Rightarrow> Inl err
        | Inr (ids, tot) \<Rightarrow>
            Inr ((if length ids = 0 then ''No targets matched'' @ [newline]
                  else ''Subscribed to '' @ show_nat (length ids) @ '' targets:'' @ [newline]
                       @ concat (map (\<lambda>i. ''  '' @ i @ [newline]) ids))
                 @ ''Total subscriptions: '' @ show_nat tot))"

definition UnsubCmd_Execute :: "Client \<Rightarrow> string list \<Rightarrow> string go" where
  "UnsubCmd_Execute cl args =
     (case cl_Unsubscribe cl args of
        Inl err \<Rightarrow> Inl err
      | Inr (n, tot) \<Rightarrow>
          Inr ((if length args = 0 then ''Unsubscribed from all targets'' else ''Unsubscribed from '' @ show_nat n @ '' targets'')
               @ [newline] @ ''Remaining subscriptions: '' @ show_nat tot))"

section \<open>ls\<close>

text \<open>The arguments of \<open>ls\<close>, in the order given, over the request being built; the limit is 100.\<close>

definition ls_arg :: "ShellContext \<Rightarrow> BrowseRequest \<Rightarrow> string \<Rightarrow> BrowseRequest" where
  "ls_arg ctx req arg =
     (if arg = ''-l'' \<or> arg = ''--long'' then req\<lparr>br_LongFormat := True\<rparr>
      else if has_prefix arg ''--state='' then req\<lparr>br_FilterState := trim_prefix arg ''--state=''\<rparr>
      else if has_prefix arg ''--tag='' then req\<lparr>br_FilterTags := br_FilterTags req @ [trim_prefix arg ''--tag='']\<rparr>
      else if has_prefix arg ''--host='' then req\<lparr>br_FilterHost := trim_prefix arg ''--host=''\<rparr>
      else if \<not> has_prefix arg ''-'' then req\<lparr>br_Path := ResolvePath ctx arg\<rparr>
      else req)"

definition ls_request :: "ShellContext \<Rightarrow> string list \<Rightarrow> BrowseRequest" where
  "ls_request ctx args = foldl (ls_arg ctx) (browse_path_only (sx_Path ctx) False 100) args"

definition cat_request :: "ShellContext \<Rightarrow> string list \<Rightarrow> BrowseRequest" where
  "cat_request ctx args = browse_path_only (if length args > 0 then ResolvePath ctx (hd args) else sx_Path ctx) True 0"

section \<open>add\<close>

record SnmpArgs =
  sa_Name :: string
  sa_Community :: string
  sa_Port :: "32 word"
  sa_Interval :: "32 word"
  sa_Tags :: "string list"
  sa_Persistent :: bool

definition snmp_arg :: "SnmpArgs \<Rightarrow> string \<Rightarrow> SnmpArgs" where
  "snmp_arg a arg =
     (if has_prefix arg ''--community='' then a\<lparr>sa_Community := trim_prefix arg ''--community=''\<rparr>
      else if has_prefix arg ''--port='' then
        (case Atoi (trim_prefix arg ''--port='') of Some v \<Rightarrow> a\<lparr>sa_Port := word_of_int v\<rparr> | None \<Rightarrow> a)
      else if has_prefix arg ''--interval='' then
        (case Atoi (trim_prefix arg ''--interval='') of Some v \<Rightarrow> a\<lparr>sa_Interval := word_of_int v\<rparr> | None \<Rightarrow> a)
      else if has_prefix arg ''--tag='' then a\<lparr>sa_Tags := sa_Tags a @ [trim_prefix arg ''--tag='']\<rparr>
      else if arg = ''--persistent'' then a\<lparr>sa_Persistent := True\<rparr>
      else if \<not> has_prefix arg ''-'' then (if sa_Name a = [] then a\<lparr>sa_Name := arg\<rparr> else a)
      else a)"

definition snmp_args :: "string list \<Rightarrow> SnmpArgs" where
  "snmp_args args = foldl snmp_arg
     \<lparr>sa_Name = [], sa_Community = ''public'', sa_Port = 161, sa_Interval = 1000, sa_Tags = [], sa_Persistent = False\<rparr> args"

definition upper_char :: "char \<Rightarrow> char" where
  "upper_char c = (let n = of_char c :: nat in if 97 \<le> n \<and> n \<le> 122 then char_of (n - 32) else c)"

definition to_upper :: "string \<Rightarrow> string" where
  "to_upper s = map upper_char s"

text \<open>
  The questions of the SNMPv3 wizard: the answers to the questions and the results of the password prompts. A
  question that is not asked takes none of them.
\<close>

record WizardAnswers =
  wa_SecName :: string
  wa_SecLevel :: string
  wa_AuthProto :: string
  wa_AuthPass :: "string go"
  wa_PrivProto :: string
  wa_PrivPass :: "string go"

definition answer_or :: "string \<Rightarrow> string \<Rightarrow> string" where
  "answer_or dflt text = (if trim_space text = [] then dflt else trim_space text)"

definition wizard_auth :: "WizardAnswers \<Rightarrow> V3Config \<Rightarrow> V3Config go" where
  "wizard_auth w v3 =
     (if v3_SecurityLevel v3 = ''authNoPriv'' \<or> v3_SecurityLevel v3 = ''authPriv'' then
        (case wa_AuthPass w of
           Inl err \<Rightarrow> Inl err
         | Inr p \<Rightarrow>
             if p = [] then Inl (Errorf (''auth password is required for '' @ v3_SecurityLevel v3))
             else Inr (v3\<lparr>v3_AuthProtocol := to_upper (answer_or ''SHA256'' (wa_AuthProto w)), v3_AuthPassword := p\<rparr>))
      else Inr v3)"

definition wizard_priv :: "WizardAnswers \<Rightarrow> V3Config \<Rightarrow> V3Config go" where
  "wizard_priv w v3 =
     (if v3_SecurityLevel v3 = ''authPriv'' then
        (case wa_PrivPass w of
           Inl err \<Rightarrow> Inl err
         | Inr p \<Rightarrow>
             if p = [] then Inl (Errorf ''priv password is required for authPriv'')
             else Inr (v3\<lparr>v3_PrivProtocol := to_upper (answer_or ''AES256'' (wa_PrivProto w)), v3_PrivPassword := p\<rparr>))
      else Inr v3)"

definition snmpv3Wizard :: "WizardAnswers \<Rightarrow> V3Config go" where
  "snmpv3Wizard w =
     (if trim_space (wa_SecName w) = [] then Inl (Errorf ''security name is required'')
      else
        case wizard_auth w \<lparr>v3_SecurityName = trim_space (wa_SecName w), v3_SecurityLevel = answer_or ''authPriv'' (wa_SecLevel w),
             v3_AuthProtocol = [], v3_AuthPassword = [], v3_PrivProtocol = [], v3_PrivPassword = []\<rparr> of
          Inl err \<Rightarrow> Inl err
        | Inr v3 \<Rightarrow> wizard_priv w v3)"

definition add_executeSNMP :: "Client \<Rightarrow> WizardAnswers \<Rightarrow> string list \<Rightarrow> bool \<Rightarrow> string go" where
  "add_executeSNMP cl w args isV3 =
     (if length args < 2 then
        Inl (Errorf (if isV3 then ''usage: add target snmpv3 <host> <oid> [name] [options]''
                     else ''usage: add target snmp <host> <oid> [name] [options]''))
      else
        let a = snmp_args (drop 2 args) in
        case (if isV3 then (case snmpv3Wizard w of Inl err \<Rightarrow> Inl err | Inr v3 \<Rightarrow> Inr (V3 v3)) else Inr (V2C (sa_Community a))) of
          Inl err \<Rightarrow> Inl err
        | Inr ver \<Rightarrow>
            (case cl_CreateTarget cl
               \<lparr>ct_Name = sa_Name a, ct_Tags = sa_Tags a, ct_Persistent = sa_Persistent a, ct_IntervalMs = sa_Interval a,
                ct_Host = args ! 0, ct_Port = sa_Port a, ct_Oid = oid_Resolve (args ! 1), ct_Version = ver\<rparr> of
               Inl err \<Rightarrow> Inl err
             | Inr resp \<Rightarrow>
                 let displayName = (if ca_TargetName resp \<noteq> [] then ca_TargetName resp @ '' ('' @ ca_TargetId resp @ '')''
                                    else ca_TargetId resp)
                 in Inr (if ca_Created resp then ''Created: '' @ displayName
                         else ''Joined: '' @ displayName @ '' ('' @ ca_Message resp @ '')'')))"

definition add_executeTarget :: "Client \<Rightarrow> WizardAnswers \<Rightarrow> string list \<Rightarrow> string go" where
  "add_executeTarget cl w args =
     (if length args = 0 then
        Inl (Errorf (''usage: add target <protocol> <host> <oid> [name] [options]'' @ [newline] @ ''Protocols: snmp, snmpv3, http, icmp''))
      else
        let protocol = to_lower (hd args) in
        if protocol = ''snmp'' then add_executeSNMP cl w (tl args) False
        else if protocol = ''snmpv3'' then add_executeSNMP cl w (tl args) True
        else if protocol = ''http'' then Inl (Errorf ''HTTP targets not yet implemented'')
        else if protocol = ''icmp'' then Inl (Errorf ''ICMP targets not yet implemented'')
        else Inl (Errorf (''unknown protocol: '' @ protocol)))"

definition add_executeTag :: "string list \<Rightarrow> string go" where
  "add_executeTag args =
     (if length args = 0 then Inl (Errorf ''usage: add tag <path>'')
      else
        let tagPath = hd args in
        if slash \<notin> set tagPath \<and> length tagPath < 2
        then Inl (Errorf ''tag path should be hierarchical (e.g., location/dc1)'')
        else Inr (''Tag '' @ [squote] @ tagPath @ [squote] @ '' will be created when first used.'' @ [newline]
                  @ ''Use: set <target> --tag='' @ tagPath))"

section \<open>Completion\<close>

definition last_slash :: "string \<Rightarrow> nat" where
  "last_slash s = length s - 1 - length (takeWhile (\<lambda>c. c \<noteq> slash) (rev s))"

text \<open>The directory a partial path is completed in and the prefix its entries must have.\<close>

definition complete_base :: "ShellContext \<Rightarrow> string \<Rightarrow> string \<times> string" where
  "complete_base ctx partial =
     (if has_prefix partial ''/'' then
        (if last_slash partial > 0 then (take (last_slash partial) partial, drop (last_slash partial + 1) partial)
         else (''/'', drop 1 partial))
      else if slash \<in> set partial then
        (ResolvePath ctx (take (last_slash partial) partial), drop (last_slash partial + 1) partial)
      else (sx_Path ctx, partial))"

definition full_path :: "string \<Rightarrow> string \<Rightarrow> string \<Rightarrow> string" where
  "full_path partial basePath name =
     (if has_prefix partial ''/'' then (if basePath = ''/'' then ''/'' @ name else basePath @ ''/'' @ name)
      else if slash \<in> set partial then take (last_slash partial + 1) partial @ name
      else name)"

definition completePath :: "Client \<Rightarrow> ShellContext \<Rightarrow> string \<Rightarrow> Suggestion list" where
  "completePath cl ctx partial =
     (let (basePath, pre) = complete_base ctx partial in
      case cl_Browse cl (browse_path_only basePath False 50) of
        Inl err \<Rightarrow> []
      | Inr nodes \<Rightarrow>
          map (\<lambda>node. \<lparr>sg_Text = full_path partial basePath (bn_Name node) @ (if bn_Type node = NODE_DIRECTORY then ''/'' else []),
                       sg_Description = bn_Description node\<rparr>)
            (filter (\<lambda>node. has_prefix (to_lower (bn_Name node)) (to_lower pre)) nodes))"

text \<open>Targets by id and by name; \<open>set\<close> and \<open>rm\<close> have a copy of the function each.\<close>

definition target_suggestions :: "string \<Rightarrow> NodeTarget \<Rightarrow> Suggestion list" where
  "target_suggestions partial t =
     (if partial = [] \<or> has_prefix (nt_Id t) partial
      then [\<lparr>sg_Text = nt_Id t, sg_Description = (if nt_Name t = [] then nt_Description t else nt_Name t)\<rparr>] else [])
     @ (if nt_Name t \<noteq> [] \<and> (partial = [] \<or> has_prefix (nt_Name t) partial)
        then [\<lparr>sg_Text = nt_Name t, sg_Description = arrow @ nt_Id t\<rparr>] else [])"

definition completeTargetIDs :: "Client \<Rightarrow> string \<Rightarrow> Suggestion list" where
  "completeTargetIDs cl partial =
     (case cl_Browse cl (browse_path_only ''/targets'' True 50) of
        Inl err \<Rightarrow> []
      | Inr nodes \<Rightarrow>
          concat (map (\<lambda>node.
            if bn_Type node \<noteq> NODE_TARGET then []
            else case bn_Target node of None \<Rightarrow> [] | Some t \<Rightarrow> target_suggestions partial t) nodes))"

definition set_completeTargetID :: "Client \<Rightarrow> string \<Rightarrow> Suggestion list" where
  "set_completeTargetID cl partial = completeTargetIDs cl partial"

definition rm_completeTargetID :: "Client \<Rightarrow> string \<Rightarrow> Suggestion list" where
  "rm_completeTargetID cl partial = completeTargetIDs cl partial"

definition SubCmd_Complete :: "Client \<Rightarrow> string \<Rightarrow> Suggestion list" where
  "SubCmd_Complete cl partial =
     (if has_prefix partial ''--tag='' then []
      else if has_prefix partial ''-'' then [\<lparr>sg_Text = ''--tag='', sg_Description = ''Subscribe by tag''\<rparr>]
      else completeTargetIDs cl partial)"

definition HistoryCmd_Complete :: "Client \<Rightarrow> string list \<Rightarrow> string \<Rightarrow> Suggestion list" where
  "HistoryCmd_Complete cl args partial = (if length args = 0 then completeTargetIDs cl partial else [])"

definition suggest :: "string \<Rightarrow> string \<Rightarrow> Suggestion" where
  "suggest text descr = \<lparr>sg_Text = text, sg_Description = descr\<rparr>"

definition lsFlags :: "Suggestion list" where
  "lsFlags = [suggest ''-l'' ''Long format with details'', suggest ''--long'' ''Long format with details'',
     suggest ''--state='' ''Filter by state'', suggest ''--tag='' ''Filter by tag'', suggest ''--host='' ''Filter by host pattern'']"

definition LsCmd_Complete :: "Client \<Rightarrow> ShellContext \<Rightarrow> string list \<Rightarrow> string \<Rightarrow> Suggestion list" where
  "LsCmd_Complete cl ctx args partial =
     (if has_prefix partial ''-'' then FilterSuggestions lsFlags partial
      else
        let hasPath = (\<exists>arg \<in> set args. \<not> has_prefix arg ''-'') in
        if \<not> hasPath then
          (if partial = [] then completePath cl ctx [] @ lsFlags
           else if has_prefix partial ''/'' \<or> has_prefix partial ''.'' then completePath cl ctx partial
           else completePath cl ctx partial @ FilterSuggestions lsFlags partial)
        else FilterSuggestions lsFlags partial)"

definition setTypes :: "Suggestion list" where
  "setTypes = [suggest ''target'' ''Modify a target'', suggest ''config'' ''Modify server config'']"

definition setTargetFlags :: "Suggestion list" where
  "setTargetFlags = [suggest ''--name='' ''Change name'', suggest ''--desc='' ''Change description'',
     suggest ''--interval='' ''Poll interval (ms)'', suggest ''--timeout='' ''SNMP timeout (ms)'',
     suggest ''--retries='' ''SNMP retries'', suggest ''--persistent'' ''Mark as persistent'',
     suggest ''--no-persistent'' ''Remove persistent flag'', suggest ''--tag'' ''Modify tags (+add, -remove, set)'',
     suggest ''--community='' ''SNMPv2c community'', suggest ''--auth-pass='' ''SNMPv3 auth password'',
     suggest ''--priv-pass='' ''SNMPv3 priv password'']"

definition configKeys :: "Suggestion list" where
  "configKeys = [suggest ''timeout'' ''Default SNMP timeout (ms)'', suggest ''retries'' ''Default SNMP retries'',
     suggest ''buffer'' ''Default buffer size'', suggest ''min-interval'' ''Minimum poll interval (ms)'']"

definition SetCmd_Complete :: "Client \<Rightarrow> string list \<Rightarrow> string \<Rightarrow> Suggestion list" where
  "SetCmd_Complete cl args partial =
     (if length args = 0 then FilterSuggestions setTypes partial
      else
        let setType = to_lower (hd args) in
        if setType = ''target'' then
          (if length args = 1 then set_completeTargetID cl partial else FilterSuggestions setTargetFlags partial)
        else if setType = ''config'' then (if length args = 1 then FilterSuggestions configKeys partial else [])
        else FilterSuggestions setTypes partial)"

definition rmTypes :: "Suggestion list" where
  "rmTypes = [suggest ''target'' ''Remove a target'', suggest ''tag'' ''Remove a tag'']"

definition rmFlags :: "Suggestion list" where
  "rmFlags = [suggest ''-f'' ''Force removal'', suggest ''--force'' ''Force removal'']"

definition RmCmd_Complete :: "Client \<Rightarrow> string list \<Rightarrow> string \<Rightarrow> Suggestion list" where
  "RmCmd_Complete cl args partial =
     (if length args = 0 then FilterSuggestions rmTypes partial
      else
        let rmType = to_lower (hd args) in
        if rmType = ''target'' then
          (if length args = 1 then rm_completeTargetID cl partial else FilterSuggestions rmFlags partial)
        else if rmType = ''tag'' then [] else FilterSuggestions rmTypes partial)"

text \<open>\<open>truncate\<close> of the tables, for texts longer than two; \<open>None\<close> is the panic of a smaller width.\<close>

definition truncate_text :: "string \<Rightarrow> int \<Rightarrow> string option" where
  "truncate_text s n =
     (if int (length s) \<le> n then Some s else if n - 2 < 0 then None else Some (take (nat (n - 2)) s @ ''..''))"

definition addTypes :: "Suggestion list" where
  "addTypes = [suggest ''target'' ''Add monitoring target'', suggest ''tag'' ''Create a tag'', suggest ''alias'' ''Create OID alias'']"

definition targetProtocols :: "Suggestion list" where
  "targetProtocols = [suggest ''snmp'' ''SNMPv2c target'', suggest ''snmpv3'' ''SNMPv3 target (interactive setup)'',
     suggest ''http'' ''HTTP/HTTPS endpoint (future)'', suggest ''icmp'' ''ICMP ping target (future)'']"

definition snmpFlags :: "Suggestion list" where
  "snmpFlags = [suggest ''--community='' ''Community string (default: public)'', suggest ''--port='' ''SNMP port (default: 161)'',
     suggest ''--interval='' ''Poll interval in ms (default: 1000)'', suggest ''--tag='' ''Add tag (repeatable)'',
     suggest ''--persistent'' ''Persistent target'']"

definition completeOID :: "string \<Rightarrow> Suggestion list" where
  "completeOID partial =
     map (\<lambda>(name, oid, descr). suggest name descr)
       (filter (\<lambda>(name, oid, descr). partial = [] \<or> has_prefix (to_lower name) (to_lower partial)) oid_List)
     @ (if partial = [] \<or> has_prefix partial ''.'' \<or> has_prefix partial ''1.''
        then [suggest ''<oid>'' ''Enter numeric OID (e.g., .1.3.6.1.2.1.1.3.0)''] else [])"

definition completeSNMP :: "string list \<Rightarrow> string \<Rightarrow> Suggestion list" where
  "completeSNMP args partial =
     (if length args = 0 then (if partial = [] then [suggest ''<host>'' ''Hostname or IP address''] else [])
      else if length args = 1 then completeOID partial
      else if length args = 2 then
        (if has_prefix partial ''-'' then FilterSuggestions snmpFlags partial
         else if partial = [] then suggest ''<name>'' ''Optional friendly name'' # snmpFlags
         else [])
      else FilterSuggestions snmpFlags partial)"

definition completeTarget :: "string list \<Rightarrow> string \<Rightarrow> Suggestion list" where
  "completeTarget args partial =
     (if length args = 0 then FilterSuggestions targetProtocols partial
      else
        let protocol = to_lower (hd args) in
        if protocol = ''snmp'' \<or> protocol = ''snmpv3'' then completeSNMP (tl args) partial
        else if protocol = ''http'' \<or> protocol = ''icmp'' then []
        else if length args = 1 then FilterSuggestions targetProtocols partial
        else [])"

definition completeTag :: "Client \<Rightarrow> string \<Rightarrow> Suggestion list" where
  "completeTag cl partial =
     (case cl_Browse cl (browse_path_only ''/tags'' False 50) of
        Inl err \<Rightarrow> []
      | Inr nodes \<Rightarrow>
          map (\<lambda>node. suggest (bn_Name node @ ''/'') (bn_Description node))
            (filter (\<lambda>node. bn_Type node = NODE_DIRECTORY \<and> (partial = [] \<or> has_prefix (bn_Name node) partial)) nodes))"

definition AddCmd_Complete :: "Client \<Rightarrow> string list \<Rightarrow> string \<Rightarrow> Suggestion list" where
  "AddCmd_Complete cl args partial =
     (if length args = 0 then FilterSuggestions addTypes partial
      else
        let addType = to_lower (hd args) in
        if addType = ''target'' then completeTarget (tl args) partial
        else if addType = ''tag'' then completeTag cl partial
        else if addType = ''alias'' then []
        else if length args = 1 \<and> partial = [] then addTypes
        else FilterSuggestions addTypes partial)"

section \<open>config\<close>

text \<open>\<open>formatDuration\<close>, for the milliseconds the server has been up.\<close>

definition formatDuration :: "nat \<Rightarrow> string" where
  "formatDuration ms =
     (let secs = ms div 1000; mins = secs div 60; hours = mins div 60; days = hours div 24 in
      if days > 0 then show_nat days @ ''d '' @ show_nat (hours mod 24) @ ''h '' @ show_nat (mins mod 60) @ ''m''
      else if hours > 0 then show_nat hours @ ''h '' @ show_nat (mins mod 60) @ ''m''
      else if mins > 0 then show_nat mins @ ''m '' @ show_nat (secs mod 60) @ ''s''
      else show_nat secs @ ''s'')"

text \<open>\<open>config set\<close> hands over to \<open>set config\<close>; anything else shows the configuration.\<close>

definition ConfigCmd_Execute :: "Client \<Rightarrow> string go \<Rightarrow> string list \<Rightarrow> string go" where
  "ConfigCmd_Execute cl shown args =
     (if length args \<ge> 3 \<and> args ! 0 = ''set'' then SetCmd_Execute cl (''config'' # tl args) else shown)"

definition ConfigCmd_Complete :: "string list \<Rightarrow> string \<Rightarrow> Suggestion list" where
  "ConfigCmd_Complete args partial =
     (if length args = 0 then FilterSuggestions [suggest ''set'' ''Set config value''] partial
      else if length args = 1 \<and> args ! 0 = ''set'' then FilterSuggestions configKeys partial
      else [])"

section \<open>set can say every change\<close>

lemma is_digit_char: "d < 10 \<Longrightarrow> is_digit (char_of (48 + d :: nat))"
  by (simp add: is_digit_def Let_def of_char_mod_256)

lemma show_nat_digits:
  "show_nat n \<noteq> []" "list_all is_digit (show_nat n)" "foldl (\<lambda>v c. v * 10 + (of_char c - 48)) a (show_nat n) = a * 10 ^ length (show_nat n) + n"
proof (induction n arbitrary: a rule: show_nat.induct)
  case (1 n)
  {
    case 1
    show ?case by (subst show_nat.simps) simp
  next
    case 2
    show ?case using "1.IH"(2) is_digit_char [of "n mod 10"] is_digit_char [of n] by (subst show_nat.simps) simp
  next
    case 3
    show ?case
    proof (cases "n < 10")
      case True
      then show ?thesis by (simp add: show_nat.simps [of n] of_char_mod_256)
    next
      case False
      have "(48 + n mod 10) mod 256 = 48 + n mod 10" by (rule mod_less) linarith
      with "1.IH"(3) [OF False, of a] False show ?thesis
        by (simp add: show_nat.simps [of n] algebra_simps)
    qed
  }
qed

lemma digits_value_show: "digits_value (show_nat n) = Some n"
  using show_nat_digits(1,2) [of n] show_nat_digits(3) [of 0 n] by (simp add: digits_value_def)

lemma ParseUint32_show: "ParseUint32 (show_nat (unat (w :: 32 word))) = Some w"
  using unsigned_less [of w, where ?'a = nat] by (simp add: ParseUint32_def digits_value_show)

declare set_flags.simps(2) [simp del]

named_theorems flag_simps \<open>what one flag does\<close>

lemma flag_text [flag_simps]:
  "set_flags ((''--name='' @ v) # args) (req, h) = set_flags args (req\<lparr>ut_Name := Some v\<rparr>, True)"
  "set_flags ((''--desc='' @ v) # args) (req, h) = set_flags args (req\<lparr>ut_Description := Some v\<rparr>, True)"
  "set_flags ((''--community='' @ v) # args) (req, h) = set_flags args (req\<lparr>ut_Community := Some v\<rparr>, True)"
  "set_flags ((''--auth-pass='' @ v) # args) (req, h) = set_flags args (req\<lparr>ut_AuthPassword := Some v\<rparr>, True)"
  "set_flags ((''--priv-pass='' @ v) # args) (req, h) = set_flags args (req\<lparr>ut_PrivPassword := Some v\<rparr>, True)"
  by (simp_all add: set_flags.simps has_prefix_def trim_prefix_def)

lemma flag_number [flag_simps]:
  "set_flags ((''--interval='' @ v) # args) (req, h) = set_flags args (set_number (\<lambda>w. req\<lparr>ut_IntervalMs := Some w\<rparr>) v (req, h))"
  "set_flags ((''--timeout='' @ v) # args) (req, h) = set_flags args (set_number (\<lambda>w. req\<lparr>ut_TimeoutMs := Some w\<rparr>) v (req, h))"
  "set_flags ((''--retries='' @ v) # args) (req, h) = set_flags args (set_number (\<lambda>w. req\<lparr>ut_Retries := Some w\<rparr>) v (req, h))"
  by (simp_all add: set_flags.simps has_prefix_def trim_prefix_def)

lemma flag_persistent [flag_simps]:
  "set_flags (''--persistent'' # args) (req, h) = set_flags args (req\<lparr>ut_Persistent := Some True\<rparr>, True)"
  "set_flags (''--no-persistent'' # args) (req, h) = set_flags args (req\<lparr>ut_Persistent := Some False\<rparr>, True)"
  by (simp_all add: set_flags.simps has_prefix_def)

lemma flag_tag [flag_simps]:
  "set_flags ((''--tag='' @ v) # args) (req, h) = set_flags args (set_tag v req, True)"
  "set_flags (''--tag'' # v # args) (req, h) = set_flags args (set_tag v req, True)"
  "set_flags [''--tag''] (req, h) = (req, h)"
  by (simp_all add: set_flags.simps has_prefix_def trim_prefix_def)

text \<open>The arguments that say a request.\<close>

definition flag_of :: "string \<Rightarrow> string option \<Rightarrow> string list" where
  "flag_of name v = (case v of None \<Rightarrow> [] | Some t \<Rightarrow> [name @ t])"

definition persistent_args :: "bool option \<Rightarrow> string list" where
  "persistent_args p = (case p of None \<Rightarrow> [] | Some b \<Rightarrow> if b then [''--persistent''] else [''--no-persistent''])"

definition tag_args :: "string \<Rightarrow> string list \<Rightarrow> string list" where
  "tag_args sign ts = map (\<lambda>t. ''--tag='' @ sign @ t) ts"

definition render_update :: "UpdateTargetRequest \<Rightarrow> string list" where
  "render_update req =
     flag_of ''--name='' (ut_Name req) @ flag_of ''--desc='' (ut_Description req)
     @ flag_of ''--interval='' (map_option (\<lambda>w. show_nat (unat w)) (ut_IntervalMs req))
     @ flag_of ''--timeout='' (map_option (\<lambda>w. show_nat (unat w)) (ut_TimeoutMs req))
     @ flag_of ''--retries='' (map_option (\<lambda>w. show_nat (unat w)) (ut_Retries req))
     @ persistent_args (ut_Persistent req)
     @ tag_args ''+'' (ut_AddTags req) @ tag_args ''-'' (ut_RemoveTags req) @ tag_args [] (ut_SetTags req)
     @ flag_of ''--community='' (ut_Community req) @ flag_of ''--auth-pass='' (ut_AuthPassword req)
     @ flag_of ''--priv-pass='' (ut_PrivPassword req)"

lemma none_same:
  "ut_Name r = None \<Longrightarrow> r\<lparr>ut_Name := None\<rparr> = r"
  "ut_Description r = None \<Longrightarrow> r\<lparr>ut_Description := None\<rparr> = r"
  "ut_IntervalMs r = None \<Longrightarrow> r\<lparr>ut_IntervalMs := None\<rparr> = r"
  "ut_TimeoutMs r = None \<Longrightarrow> r\<lparr>ut_TimeoutMs := None\<rparr> = r"
  "ut_Retries r = None \<Longrightarrow> r\<lparr>ut_Retries := None\<rparr> = r"
  "ut_Persistent r = None \<Longrightarrow> r\<lparr>ut_Persistent := None\<rparr> = r"
  "ut_Community r = None \<Longrightarrow> r\<lparr>ut_Community := None\<rparr> = r"
  "ut_AuthPassword r = None \<Longrightarrow> r\<lparr>ut_AuthPassword := None\<rparr> = r"
  "ut_PrivPassword r = None \<Longrightarrow> r\<lparr>ut_PrivPassword := None\<rparr> = r"
  by (cases r; simp)+

lemma flag_of_append: "flag_of n None @ args = args" "flag_of n (Some t) @ args = (n @ t) # args"
  by (simp_all add: flag_of_def)

lemma persistent_append:
  "persistent_args None @ args = args" "persistent_args (Some True) @ args = ''--persistent'' # args"
  "persistent_args (Some False) @ args = ''--no-persistent'' # args"
  by (simp_all add: persistent_args_def)

lemmas field_steps = simp_thms option.distinct option.map flag_of_append persistent_append none_same

lemma flag_of_text:
  "ut_Name req = None \<Longrightarrow> set_flags (flag_of ''--name='' v @ args) (req, h) = set_flags args (req\<lparr>ut_Name := v\<rparr>, h \<or> v \<noteq> None)"
  "ut_Description req = None \<Longrightarrow> set_flags (flag_of ''--desc='' v @ args) (req, h) = set_flags args (req\<lparr>ut_Description := v\<rparr>, h \<or> v \<noteq> None)"
  "ut_Community req = None \<Longrightarrow> set_flags (flag_of ''--community='' v @ args) (req, h) = set_flags args (req\<lparr>ut_Community := v\<rparr>, h \<or> v \<noteq> None)"
  "ut_AuthPassword req = None \<Longrightarrow> set_flags (flag_of ''--auth-pass='' v @ args) (req, h) = set_flags args (req\<lparr>ut_AuthPassword := v\<rparr>, h \<or> v \<noteq> None)"
  "ut_PrivPassword req = None \<Longrightarrow> set_flags (flag_of ''--priv-pass='' v @ args) (req, h) = set_flags args (req\<lparr>ut_PrivPassword := v\<rparr>, h \<or> v \<noteq> None)"
  by (cases v; simp only: field_steps flag_text)+

lemma flag_of_number:
  fixes n :: "32 word option"
  shows "ut_IntervalMs req = None \<Longrightarrow> set_flags (flag_of ''--interval='' (map_option (\<lambda>w. show_nat (unat w)) n) @ args) (req, h)
      = set_flags args (req\<lparr>ut_IntervalMs := n\<rparr>, h \<or> n \<noteq> None)"
    "ut_TimeoutMs req = None \<Longrightarrow> set_flags (flag_of ''--timeout='' (map_option (\<lambda>w. show_nat (unat w)) n) @ args) (req, h)
      = set_flags args (req\<lparr>ut_TimeoutMs := n\<rparr>, h \<or> n \<noteq> None)"
    "ut_Retries req = None \<Longrightarrow> set_flags (flag_of ''--retries='' (map_option (\<lambda>w. show_nat (unat w)) n) @ args) (req, h)
      = set_flags args (req\<lparr>ut_Retries := n\<rparr>, h \<or> n \<noteq> None)"
  by (cases n; simp only: field_steps flag_number set_number_def ParseUint32_show option.case)+

lemma flag_of_persistent:
  "ut_Persistent req = None \<Longrightarrow> set_flags (persistent_args p @ args) (req, h)
    = set_flags args (req\<lparr>ut_Persistent := p\<rparr>, h \<or> p \<noteq> None)"
proof (cases p)
  case (Some b)
  then show ?thesis by (cases b) (simp_all only: field_steps flag_persistent)
qed (simp only: field_steps)

lemma tags_folded:
  assumes "\<And>t r. t \<in> set ts \<Longrightarrow> set_tag (sign @ t) r = add [t] r" "\<And>xs ys r. add ys (add xs r) = add (xs @ ys) r" "add [] req = req"
  shows "set_flags (tag_args sign ts @ args) (req, h) = set_flags args (add ts req, h \<or> ts \<noteq> [])"
proof -
  have "set_flags (map (\<lambda>t. ''--tag='' @ sign @ t) us @ args) (add xs req, h \<or> xs \<noteq> [])
      = set_flags args (add (xs @ us) req, h \<or> xs @ us \<noteq> [])" if "set us \<subseteq> set ts" for us xs
    using that
  proof (induction us arbitrary: xs)
    case (Cons u us)
    have "set_flags (map (\<lambda>t. ''--tag='' @ sign @ t) (u # us) @ args) (add xs req, h \<or> xs \<noteq> [])
        = set_flags (map (\<lambda>t. ''--tag='' @ sign @ t) us @ args) (set_tag (sign @ u) (add xs req), True)"
      using flag_tag(1) [of "sign @ u" "map (\<lambda>t. ''--tag='' @ sign @ t) us @ args" "add xs req" "h \<or> xs \<noteq> []"] by simp
    also have "\<dots> = set_flags (map (\<lambda>t. ''--tag='' @ sign @ t) us @ args) (add (xs @ [u]) req, h \<or> xs @ [u] \<noteq> [])"
      using Cons.prems assms(1) [of u] assms(2) by simp
    also have "\<dots> = set_flags args (add (xs @ u # us) req, h \<or> xs @ u # us \<noteq> [])"
      using Cons.IH [of "xs @ [u]"] Cons.prems by simp
    finally show ?case .
  qed simp
  from this [of ts "[]"] show ?thesis by (simp add: tag_args_def assms(3))
qed

lemma tags_added:
  "set_flags (tag_args ''+'' ts @ args) (req, h) = set_flags args (req\<lparr>ut_AddTags := ut_AddTags req @ ts\<rparr>, h \<or> ts \<noteq> [])"
  by (rule tags_folded [where add = "\<lambda>ts r. r\<lparr>ut_AddTags := ut_AddTags r @ ts\<rparr>"]) (simp_all add: set_tag_def has_prefix_def trim_prefix_def)

lemma tags_removed:
  "set_flags (tag_args ''-'' ts @ args) (req, h) = set_flags args (req\<lparr>ut_RemoveTags := ut_RemoveTags req @ ts\<rparr>, h \<or> ts \<noteq> [])"
  by (rule tags_folded [where add = "\<lambda>ts r. r\<lparr>ut_RemoveTags := ut_RemoveTags r @ ts\<rparr>"]) (simp_all add: set_tag_def has_prefix_def trim_prefix_def)

lemma tags_set:
  assumes "\<forall>t \<in> set ts. \<not> has_prefix t ''+'' \<and> \<not> has_prefix t ''-''"
  shows "set_flags (tag_args [] ts @ args) (req, h) = set_flags args (req\<lparr>ut_SetTags := ut_SetTags req @ ts\<rparr>, h \<or> ts \<noteq> [])"
  by (rule tags_folded [where add = "\<lambda>ts r. r\<lparr>ut_SetTags := ut_SetTags r @ ts\<rparr>"]) (use assms in \<open>simp_all add: set_tag_def\<close>)

lemma empty_update_fields:
  "ut_Name (empty_update i) = None" "ut_Description (empty_update i) = None" "ut_IntervalMs (empty_update i) = None"
  "ut_TimeoutMs (empty_update i) = None" "ut_Retries (empty_update i) = None" "ut_Persistent (empty_update i) = None"
  "ut_AddTags (empty_update i) = []" "ut_RemoveTags (empty_update i) = []" "ut_SetTags (empty_update i) = []"
  "ut_Community (empty_update i) = None" "ut_AuthPassword (empty_update i) = None" "ut_PrivPassword (empty_update i) = None"
  by (simp_all add: empty_update_def)

lemma last_flag:
  "ut_PrivPassword req = None \<Longrightarrow> set_flags (flag_of ''--priv-pass='' v) (req, h) = (req\<lparr>ut_PrivPassword := v\<rparr>, h \<or> v \<noteq> None)"
  using flag_of_text(5) [of req v "[]" h] by simp

lemma parse_render:
  assumes "\<forall>t \<in> set (ut_SetTags req). \<not> has_prefix t ''+'' \<and> \<not> has_prefix t ''-''"
  shows "set_flags (render_update req) (empty_update (ut_TargetId req), False) = (req, req \<noteq> empty_update (ut_TargetId req))"
proof -
  have "set_flags (render_update req) (empty_update (ut_TargetId req), False) =
      ((empty_update (ut_TargetId req))\<lparr>ut_Name := ut_Name req, ut_Description := ut_Description req,
         ut_IntervalMs := ut_IntervalMs req, ut_TimeoutMs := ut_TimeoutMs req, ut_Retries := ut_Retries req,
         ut_Persistent := ut_Persistent req, ut_AddTags := ut_AddTags req, ut_RemoveTags := ut_RemoveTags req,
         ut_SetTags := ut_SetTags req, ut_Community := ut_Community req, ut_AuthPassword := ut_AuthPassword req,
         ut_PrivPassword := ut_PrivPassword req\<rparr>,
       ut_Name req \<noteq> None \<or> ut_Description req \<noteq> None \<or> ut_IntervalMs req \<noteq> None \<or> ut_TimeoutMs req \<noteq> None
       \<or> ut_Retries req \<noteq> None \<or> ut_Persistent req \<noteq> None \<or> ut_AddTags req \<noteq> [] \<or> ut_RemoveTags req \<noteq> []
       \<or> ut_SetTags req \<noteq> [] \<or> ut_Community req \<noteq> None \<or> ut_AuthPassword req \<noteq> None \<or> ut_PrivPassword req \<noteq> None)"
    by (simp add: render_update_def flag_of_text flag_of_number flag_of_persistent tags_added tags_removed tags_set [OF assms]
        last_flag empty_update_fields) auto
  then show ?thesis by (cases req) (simp add: empty_update_def)
qed


definition ex_update :: UpdateTargetRequest where
  "ex_update = (empty_update ''router'')\<lparr>ut_Name := Some ''core'', ut_IntervalMs := Some 5000, ut_AddTags := [''site/dc1''],
     ut_SetTags := [''a'', ''b'']\<rparr>"


section \<open>What the flags lose\<close>

text \<open>A number that cannot be read and a flag that is not known are left out without a word.\<close>

lemma bad_number_ignored:
  "ParseUint32 v = None \<Longrightarrow> set_flags ((''--interval='' @ v) # args) (req, h) = set_flags args (req, h)"
  using flag_number(1) [of v args req h] by (simp add: set_number_def)

lemma unknown_flag_ignored: "set_flags (''--intervall=5'' # args) (req, h) = set_flags args (req, h)"
  by (simp add: set_flags.simps has_prefix_def)

text \<open>A port or interval out of 32 bits is cut, a negative one wraps.\<close>

lemma port_wraps: "sa_Port (snmp_args [''--port=-1'']) = 4294967295" "sa_Interval (snmp_args [''--interval=4294967296'']) = 0"
  by (simp_all add: snmp_args_def snmp_arg_def has_prefix_def trim_prefix_def Atoi_def digits_value_def is_digit_def Let_def)

text \<open>
  The wizard asks for what the known levels need; but it takes any level, and asks for nothing at one it does not
  know, nor does it know the protocols.
\<close>

lemma wizard_complete:
  assumes "snmpv3Wizard w = Inr v3"
  shows "v3_SecurityName v3 \<noteq> []"
    "v3_SecurityLevel v3 \<in> {''authNoPriv'', ''authPriv''} \<Longrightarrow> v3_AuthPassword v3 \<noteq> []"
    "v3_SecurityLevel v3 = ''authPriv'' \<Longrightarrow> v3_PrivPassword v3 \<noteq> []"
  using assms
  by (auto simp: snmpv3Wizard_def wizard_auth_def wizard_priv_def split: if_splits sum.splits)

lemma wizard_takes_any_level:
  "snmpv3Wizard \<lparr>wa_SecName = ''u'', wa_SecLevel = ''AuthPriv'', wa_AuthProto = [], wa_AuthPass = Inr [],
     wa_PrivProto = [], wa_PrivPass = Inr []\<rparr>
   = Inr \<lparr>v3_SecurityName = ''u'', v3_SecurityLevel = ''AuthPriv'', v3_AuthProtocol = [], v3_AuthPassword = [],
     v3_PrivProtocol = [], v3_PrivPassword = []\<rparr>"
  by (simp add: snmpv3Wizard_def wizard_auth_def wizard_priv_def answer_or_def trim_space_def is_space_def)

section \<open>Where a completed path leads\<close>

text \<open>The parts of a path as the server and the shell see them.\<close>

definition parts :: "string \<Rightarrow> string list" where
  "parts p = foldl (clean_step True) [] (split_on slash p)"

lemma parts_plain: "\<forall>x \<in> set (parts p). plain x"
  unfolding parts_def using clean_rooted_plain [of "split_on slash p" "[]"] split_on_parts by fastforce

lemma parts_path_of: "\<forall>x \<in> set cs. plain x \<Longrightarrow> parts (path_of cs) = cs"
  using foldl_clean_plain [of cs True "[]"] split_join [of cs slash]
  by (cases "cs = []") (auto simp: parts_def path_of_def clean_step_def plain_def)

lemma normalize_parts: "sh_normalizePath (slash # r) = path_of (parts (slash # r))"
  by (simp add: client_and_store_agree normalize_rooted parts_def clean_step_def)

lemma split_on_snoc: "split_on c (a @ c # b) = split_on c a @ split_on c b"
  by (induction a) (auto split: list.splits)

lemma parts_child:
  assumes "plain n"
  shows "parts (p @ ''/'' @ n) = parts p @ [n]" "parts (p @ ''/'' @ n @ ''/'') = parts p @ [n]"
proof -
  have n: "slash \<notin> set n" "n \<noteq> []" "n \<noteq> ''.''" "n \<noteq> ''..''" using assms by (auto simp: plain_def)
  have s: "split_on slash n = [n]" "split_on slash (n @ [slash]) = [n, []]"
    using n(1) split_on_append [of slash n "[]"] by simp_all
  show "parts (p @ ''/'' @ n) = parts p @ [n]"
    using n s(1) by (simp add: parts_def split_on_snoc clean_step_def)
  show "parts (p @ ''/'' @ n @ ''/'') = parts p @ [n]"
    using n s(2) by (simp add: parts_def split_on_snoc clean_step_def)
qed

lemma parts_root [simp]: "parts ''/'' = []" "parts [] = []"
  by (simp_all add: parts_def clean_step_def)

lemma last_slash_split:
  assumes "slash \<in> set s"
  obtains a b where "s = a @ slash # b" "last_slash s = length a"
proof -
  obtain a b where s: "s = a @ slash # b" "slash \<notin> set b" using split_list_last [OF assms] by blast
  have "takeWhile (\<lambda>c. c \<noteq> slash) (rev b @ slash # rev a) = rev b" using s(2) by (subst takeWhile_append2) auto
  then have "last_slash s = length a" by (simp add: last_slash_def s(1))
  with s(1) show ?thesis by (rule that)
qed

text \<open>What a path given to the shell resolves to: the parts of the path it stands on and its own.\<close>

lemma ResolvePath_parts:
  assumes "sx_Path ctx = slash # q" "p \<noteq> []"
  shows "ResolvePath ctx p = path_of (parts (if has_prefix p ''/'' then p else if sx_Path ctx = ''/'' then ''/'' @ p else sx_Path ctx @ ''/'' @ p))"
proof -
  have "sh_normalizePath (slash # q @ slash # p) = path_of (parts (slash # q @ slash # p))" by (rule normalize_parts)
  moreover have "sh_normalizePath (slash # p) = path_of (parts (slash # p))" by (rule normalize_parts)
  moreover have "sh_normalizePath p = path_of (parts p)" if "has_prefix p ''/''"
    using that normalize_parts by (auto simp: has_prefix_slash)
  ultimately show ?thesis using assms by (simp add: ResolvePath_def)
qed

lemma parts_under_path:
  assumes "plain n" "tail = [] \<or> tail = ''/''"
  shows "parts (p @ ''/'' @ n @ tail) = parts p @ [n]"
  using parts_child [OF assms(1), of p] assms(2) by auto

lemma full_path_leads:
  assumes path: "sx_Path ctx = slash # q" and n: "plain n" and tail: "tail = [] \<or> tail = ''/''"
    and base: "complete_base ctx partial = (basePath, pre)"
  shows "ResolvePath ctx (full_path partial basePath n @ tail) = path_of (parts basePath @ [n])"
proof -
  have n': "n \<noteq> []" "\<not> has_prefix (n @ tail) ''/''" using n by (cases n; auto simp: plain_def has_prefix_def)+
  have child: "parts (p @ slash # n @ tail) = parts p @ [n]" for p using parts_under_path [OF n tail, of p] by simp
  have root: "parts (slash # n @ tail) = [n]" using child [of "[]"] by simp
  consider (abs) "has_prefix partial ''/''" | (rel) "\<not> has_prefix partial ''/''" "slash \<in> set partial"
    | (name) "slash \<notin> set partial" by blast
  then show ?thesis
  proof cases
    case abs
    then have b: "has_prefix basePath ''/''"
      using base by (auto simp: complete_base_def has_prefix_slash split: if_splits) (simp add: take_Cons')
    show ?thesis
    proof (cases "basePath = ''/''")
      case True
      with abs show ?thesis
        using ResolvePath_parts [OF path, of "slash # n @ tail"] root by (simp add: full_path_def has_prefix_slash)
    next
      case False
      from b obtain r where r: "basePath = slash # r" by (auto simp: has_prefix_slash)
      with abs False show ?thesis
        using ResolvePath_parts [OF path, of "slash # r @ slash # n @ tail"] child [of "slash # r"]
        by (simp add: full_path_def has_prefix_slash)
    qed
  next
    case rel
    obtain a b where s: "partial = a @ slash # b" "last_slash partial = length a" using last_slash_split [OF rel(2)] .
    have a: "a \<noteq> []" "\<not> has_prefix a ''/''" using rel(1) s(1) by (cases a; auto simp: has_prefix_def)+
    then have a': "\<not> has_prefix (a @ slash # n @ tail) ''/''" by (cases a) (auto simp: has_prefix_def)
    have bp: "basePath = ResolvePath ctx a" using base rel s by (simp add: complete_base_def)
    have f: "full_path partial basePath n @ tail = a @ slash # n @ tail" using rel s by (simp add: full_path_def)
    let ?p = "if sx_Path ctx = ''/'' then slash # a else sx_Path ctx @ slash # a"
    have "ResolvePath ctx (a @ slash # n @ tail) = path_of (parts (?p @ slash # n @ tail))"
      using ResolvePath_parts [OF path, of "a @ slash # n @ tail"] a' by simp
    moreover have "basePath = path_of (parts ?p)" using ResolvePath_parts [OF path a(1)] a(2) bp by simp
    ultimately show ?thesis unfolding f child by (simp add: parts_path_of [OF parts_plain])
  next
    case name
    then have np: "\<not> has_prefix partial ''/''" by (auto simp: has_prefix_slash)
    with name have bp: "basePath = sx_Path ctx" "full_path partial basePath n = n"
      using base by (simp_all add: complete_base_def full_path_def)
    have "ResolvePath ctx (n @ tail) = path_of (parts (if sx_Path ctx = ''/'' then slash # n @ tail else sx_Path ctx @ slash # n @ tail))"
      using ResolvePath_parts [OF path, of "n @ tail"] n' by simp
    with bp root child [of "sx_Path ctx"] show ?thesis by (auto split: if_splits)
  qed
qed

text \<open>Every completion of a path leads to the node the server listed under the directory that was asked for.\<close>

lemma completed_path_leads_to_node:
  assumes "canonical (sx_Path ctx)" "complete_base ctx partial = (basePath, pre)"
    and "cl_Browse cl (browse_path_only basePath False 50) = Inr nodes" "\<forall>node \<in> set nodes. plain (bn_Name node)"
    and "s \<in> set (completePath cl ctx partial)"
  shows "\<exists>node \<in> set nodes. ResolvePath ctx (sg_Text s) = path_of (parts basePath @ [bn_Name node])
    \<and> has_prefix (to_lower (bn_Name node)) (to_lower pre)"
proof -
  obtain q where q: "sx_Path ctx = slash # q" using canonical_rooted [OF assms(1)] by blast
  from assms(2,3,5) obtain node where node: "node \<in> set nodes" "has_prefix (to_lower (bn_Name node)) (to_lower pre)"
    "sg_Text s = full_path partial basePath (bn_Name node) @ (if bn_Type node = NODE_DIRECTORY then ''/'' else [])"
    by (auto simp: completePath_def)
  then show ?thesis
    using full_path_leads [OF q _ _ assms(2), of "bn_Name node"] assms(4) by auto
qed

text \<open>A target is offered under its id or its name when the partial word starts it.\<close>

lemma target_suggestions_texts:
  "sg_Text ` set (target_suggestions partial t) = {x. has_prefix x partial \<and> (x = nt_Id t \<or> nt_Name t \<noteq> [] \<and> x = nt_Name t)}"
  by (auto simp: target_suggestions_def has_prefix_def)

lemma truncated: "n \<ge> 2 \<Longrightarrow> \<exists>t. truncate_text s n = Some t \<and> int (length t) \<le> n"
  by (auto simp: truncate_text_def)

end
