(* ===== verification/TargetBrowse.thy ===== *)
theory TargetBrowse
  imports TargetBuffer Indices
begin

text \<open>
  The browse tree of internal/server/browse.go: the listing of targets with filters and a cursor, one target, the
  tags, the server and the session of the client.

  The file belongs to the older server, whose fields (\<open>targets\<close>, \<open>indices\<close>, \<open>sessions\<close>, the runtime defaults)
  are the record \<open>BrowseState\<close>; requests and answers are generated message types. Texts the standard library
  makes of times and of a floating-point rate are the functions of the record \<open>Render\<close>. Counts that the code
  converts to 32 bits are \<open>nat\<close>.
\<close>

section \<open>State and messages\<close>

record V3Params =
  vp_SecurityName :: string
  vp_SecurityLevel :: string
  vp_AuthProtocol :: string
  vp_AuthPassword :: string
  vp_PrivProtocol :: string
  vp_PrivPassword :: string
  vp_ContextName :: string

datatype SnmpVersion = NoVersion | Ver2c string | Ver3 V3Params

record SnmpRest =
  sr_TimeoutMs :: "32 word"
  sr_Retries :: "32 word"
  sr_Version :: SnmpVersion

type_synonym Target = "SnmpRest PolledTarget"

record BrowseSession =
  bz_ID :: string
  bz_TokenID :: string
  bz_Lost :: bool
  bz_CreatedAt :: int
  bz_Subscriptions :: "string list"

record BrowseState =
  bs_targets :: "(string, Target) gomap"
  bs_indices :: Indices
  bs_sessions :: "(string, BrowseSession) gomap"
  bs_startedAt :: int
  bs_defaultTimeoutMs :: "32 word"
  bs_defaultRetries :: "32 word"
  bs_defaultBufferSize :: "32 word"
  bs_minIntervalMs :: "32 word"
  bs_workers :: nat
  bs_queueSize :: nat
  bs_reconnectWindowSec :: nat
  bs_pollsTotal :: nat
  bs_pollsOK :: nat
  bs_pollsFailed :: nat
  bs_heapSize :: nat
  bs_queueUsed :: nat

record Render =
  rd_time :: "int \<Rightarrow> string"
  rd_clock :: "int \<Rightarrow> string"
  rd_rate :: "int \<Rightarrow> int \<Rightarrow> string"
  rd_version :: string

datatype NodeType = NODE_DIRECTORY | NODE_TARGET | NODE_INFO

text \<open>The message of a target with what only this file fills in.\<close>

record BrowseTarget =
  bt_Target :: "SnmpRest TargetMsg"
  bt_SubscriberCount :: nat
  bt_Owners :: "string list"
  bt_Subscribers :: "string list"

record BrowseNode =
  bn_Name :: string
  bn_Type :: NodeType
  bn_Description :: string
  bn_TargetCount :: nat
  bn_Target :: "BrowseTarget option"
  bn_Info :: "(string, string) gomap"

definition directory :: "string \<Rightarrow> string \<Rightarrow> nat \<Rightarrow> BrowseNode" where
  "directory name descr n = \<lparr>bn_Name = name, bn_Type = NODE_DIRECTORY, bn_Description = descr, bn_TargetCount = n, bn_Target = None, bn_Info = []\<rparr>"

definition info_node :: "string \<Rightarrow> string \<Rightarrow> (string, string) gomap \<Rightarrow> BrowseNode" where
  "info_node name descr info = \<lparr>bn_Name = name, bn_Type = NODE_INFO, bn_Description = descr, bn_TargetCount = 0, bn_Target = None, bn_Info = info\<rparr>"

definition target_node :: "string \<Rightarrow> string \<Rightarrow> BrowseTarget option \<Rightarrow> BrowseNode" where
  "target_node name descr t = \<lparr>bn_Name = name, bn_Type = NODE_TARGET, bn_Description = descr, bn_TargetCount = 0, bn_Target = t, bn_Info = []\<rparr>"

record BrowseRequest =
  rq_Path :: string
  rq_LongFormat :: bool
  rq_Limit :: int
  rq_Cursor :: string
  rq_FilterTags :: "string list"
  rq_FilterState :: string
  rq_FilterProtocol :: string
  rq_FilterHost :: string

record BrowseResponse =
  rs_Path :: string
  rs_Nodes :: "BrowseNode list"
  rs_TotalCount :: nat
  rs_HasMore :: bool
  rs_NextCursor :: string

definition listing :: "string \<Rightarrow> BrowseNode list \<Rightarrow> nat \<Rightarrow> BrowseResponse" where
  "listing path nodes count = \<lparr>rs_Path = path, rs_Nodes = nodes, rs_TotalCount = count, rs_HasMore = False, rs_NextCursor = []\<rparr>"

section \<open>Helpers\<close>

definition splitPath :: "string \<Rightarrow> string list" where
  "splitPath p = (if p = [] then [] else split_on CHR ''/'' p)"

definition maskString :: "string \<Rightarrow> string" where
  "maskString s = (if length s \<le> 3 then ''***'' else take 3 s @ ''***'')"

text \<open>
  \<open>formatDuration\<close> of nanoseconds. The code divides in floating point, which is exact to the nanosecond for
  uptimes of up to some months.
\<close>

definition formatDuration :: "int \<Rightarrow> string" where
  "formatDuration d =
     (let hours = d div 3600000000000; days = hours div 24; mins = (d div 60000000000) mod 60; h = hours mod 24 in
      if days > 0 then show_nat (nat days) @ ''d '' @ show_nat (nat h) @ ''h '' @ show_nat (nat mins) @ ''m''
      else if h > 0 then show_nat (nat h) @ ''h '' @ show_nat (nat mins) @ ''m''
      else show_nat (nat mins) @ ''m'')"

definition show_bool :: "bool \<Rightarrow> string" where
  "show_bool b = (if b then ''true'' else ''false'')"

definition show_int :: "int \<Rightarrow> string" where
  "show_int i = (if i < 0 then CHR ''-'' # show_nat (nat (- i)) else show_nat (nat i))"

definition show_word :: "'a :: len word \<Rightarrow> string" where
  "show_word w = show_nat (unat w)"

text \<open>The message of a target; the subscribers are looked up in the sessions.\<close>

definition subscribers_of :: "string \<Rightarrow> BrowseState \<Rightarrow> string list" where
  "subscribers_of tid srv = map bz_ID (filter (\<lambda>s. tid \<in> set (bz_Subscriptions s)) (mvals (bs_sessions srv)))"

definition targetToProto :: "BrowseState \<Rightarrow> Target \<Rightarrow> bool \<Rightarrow> BrowseTarget" where
  "targetToProto srv t includeSensitive =
     \<lparr>bt_Target = (ToProto t)\<lparr>tg_Name := []\<rparr>, bt_SubscriberCount = length (subscribers_of (pt_ID t) srv),
      bt_Owners = (if includeSensitive then sort (mkeys (pt_Owners t)) else []),
      bt_Subscribers = (if includeSensitive then sort (subscribers_of (pt_ID t) srv) else [])\<rparr>"

section \<open>Targets\<close>

text \<open>\<open>sort.SearchStrings\<close> on a sorted slice: the first position at or after the text.\<close>

definition SearchStrings :: "string list \<Rightarrow> string \<Rightarrow> nat" where
  "SearchStrings xs x = length (takeWhile (\<lambda>y. y < x) xs)"

text \<open>The ids after the cursor, \<open>None\<close> when there are none left.\<close>

definition after_cursor :: "string \<Rightarrow> string list \<Rightarrow> string list option" where
  "after_cursor cursor ids =
     (if cursor = [] then Some ids
      else
        let i = SearchStrings ids cursor;
            idx = (if i < length ids \<and> ids ! i = cursor then i + 1 else i)
        in if idx \<ge> length ids then None else Some (drop idx ids))"

definition list_nodes :: "BrowseState \<Rightarrow> bool \<Rightarrow> string list \<Rightarrow> BrowseNode list" where
  "list_nodes srv long ids = concat (map (\<lambda>i.
     case map_of (bs_targets srv) i of
       None \<Rightarrow> []
     | Some t \<Rightarrow> [target_node i (pt_Description t) (if long then Some (targetToProto srv t True) else None)]) ids)"

definition candidate_ids :: "BrowseState \<Rightarrow> BrowseRequest \<Rightarrow> string list option" where
  "candidate_ids srv req =
     (let filter = \<lparr>f_Tags = rq_FilterTags req, f_State = rq_FilterState req, f_Protocol = rq_FilterProtocol req, f_Host = rq_FilterHost req\<rparr> in
      if Filter_IsEmpty filter then Some (mkeys (bs_targets srv))
      else map_option ss_ToSlice (Indices_Query (bs_indices srv) filter))"

definition browseTargetList :: "BrowseState \<Rightarrow> BrowseRequest \<Rightarrow> nat \<Rightarrow> BrowseResponse" where
  "browseTargetList srv req limit =
     (case candidate_ids srv req of
        None \<Rightarrow> listing ''/targets'' [] 0
      | Some ids0 \<Rightarrow>
          (let sorted_ids = sort ids0; totalCount = length sorted_ids in
           case after_cursor (rq_Cursor req) sorted_ids of
             None \<Rightarrow> listing ''/targets'' [] totalCount
           | Some ids \<Rightarrow>
               (let hasMore = (length ids > limit);
                    page = (if hasMore then take limit ids else ids);
                    nodes = list_nodes srv (rq_LongFormat req) page;
                    nextCursor = (if nodes = [] then [] else bn_Name (last nodes))
                in \<lparr>rs_Path = ''/targets'', rs_Nodes = nodes, rs_TotalCount = totalCount, rs_HasMore = hasMore,
                    rs_NextCursor = (if hasMore then nextCursor else [])\<rparr>)))"

definition version_info :: "SnmpVersion \<Rightarrow> (string, string) gomap \<Rightarrow> (string, string) gomap" where
  "version_info v info0 =
     (case v of
        NoVersion \<Rightarrow> info0
      | Ver2c community \<Rightarrow> mput ''community'' (maskString community) (mput ''version'' ''2c'' info0)
      | Ver3 v3 \<Rightarrow>
          (let i1 = mput ''security_level'' (vp_SecurityLevel v3) (mput ''security_name'' (vp_SecurityName v3) (mput ''version'' ''3'' info0));
               i2 = (if vp_AuthProtocol v3 \<noteq> [] then mput ''auth_password'' ''****'' (mput ''auth_protocol'' (vp_AuthProtocol v3) i1) else i1);
               i3 = (if vp_PrivProtocol v3 \<noteq> [] then mput ''priv_password'' ''****'' (mput ''priv_protocol'' (vp_PrivProtocol v3) i2) else i2)
           in if vp_ContextName v3 \<noteq> [] then mput ''context_name'' (vp_ContextName v3) i3 else i3))"

definition snmp_info :: "Target \<Rightarrow> (string, string) gomap \<Rightarrow> (string, string) gomap" where
  "snmp_info t info0 =
     (case pt_SNMP t of
        None \<Rightarrow> info0
      | Some cfg \<Rightarrow>
          (let i1 = mput ''oid'' (pt_OID t) (mput ''port'' (show_word (pt_Port t)) (mput ''host'' (pt_Host t) info0));
               i2 = (if sr_TimeoutMs (sx_rest cfg) > 0 then mput ''timeout_ms'' (show_word (sr_TimeoutMs (sx_rest cfg))) i1 else i1);
               i3 = (if sr_Retries (sx_rest cfg) > 0 then mput ''retries'' (show_word (sr_Retries (sx_rest cfg))) i2 else i2)
           in version_info (sr_Version (sx_rest cfg)) i3))"

definition browseTargetConfig :: "Target \<Rightarrow> string \<Rightarrow> BrowseResponse" where
  "browseTargetConfig t basePath =
     (let info = [(''protocol'', pt_Protocol t), (''interval_ms'', show_word (pt_IntervalMs t)),
                  (''buffer_size'', show_nat (pt_bufSize t)), (''persistent'', show_bool (pt_Persistent t))]
      in listing (basePath @ ''/config'') [info_node ''config'' [] (snmp_info t info)] 0)"

definition browseTargetStats :: "Render \<Rightarrow> Target \<Rightarrow> string \<Rightarrow> BrowseResponse" where
  "browseTargetStats rd t basePath =
     (let successRate = (if pt_PollsTotal t > 0 then rd_rate rd (pt_PollsOK t) (pt_PollsTotal t) else ''N/A'');
          info = [(''state'', pt_State t), (''error_count'', show_nat (pt_ErrCount t)), (''last_error'', pt_LastError t),
                  (''polls_total'', show_int (pt_PollsTotal t)), (''polls_success'', show_int (pt_PollsOK t)),
                  (''polls_failed'', show_int (pt_PollsFailed t)), (''success_rate'', successRate),
                  (''avg_poll_ms'', show_int (sint (avg_poll t))), (''min_poll_ms'', show_int (min_poll t)),
                  (''max_poll_ms'', show_int (pt_PollMsMax t)),
                  (''buffer_used'', show_nat (pt_count t) @ ''/'' @ show_nat (pt_bufSize t)),
                  (''created_at'', rd_time rd (pt_CreatedAt t)), (''owner_count'', show_nat (length (pt_Owners t)))]
      in listing (basePath @ ''/stats'')
           [info_node ''stats'' [] (if pt_LastPollMs t > 0 then mput ''last_poll'' (rd_time rd (pt_LastPollMs t)) info else info)] 0)"

definition sample_node :: "Render \<Rightarrow> RingSample \<Rightarrow> BrowseNode" where
  "sample_node rd s =
     info_node (rd_clock rd (rs_TimestampMs s))
       (if rs_Valid s then (if rs_Text s \<noteq> [] then rs_Text s else show_word (rs_Counter s)) else ''ERROR: '' @ rs_Error s)
       [(''timestamp_ms'', show_int (rs_TimestampMs s)), (''counter'', show_word (rs_Counter s)), (''text'', rs_Text s),
        (''valid'', show_bool (rs_Valid s)), (''error'', rs_Error s), (''poll_ms'', show_int (rs_PollMs s))]"

text \<open>\<open>None\<close> is the panic of \<open>ReadLastN\<close>.\<close>

definition history_limit :: "int \<Rightarrow> int" where
  "history_limit n = (let limit = (if n \<le> 0 then 10 else n) in if limit > 1000 then 1000 else limit)"

definition browseTargetHistory :: "Render \<Rightarrow> Target \<Rightarrow> string \<Rightarrow> BrowseRequest \<Rightarrow> BrowseResponse option" where
  "browseTargetHistory rd t basePath req =
     map_option (\<lambda>samples. listing (basePath @ ''/history'') (map (sample_node rd) samples) (pt_count t))
       (ReadLastN (history_limit (rq_Limit req)) t)"

text \<open>The outer \<open>None\<close> is a panic.\<close>

definition browseTargetByID :: "Render \<Rightarrow> BrowseState \<Rightarrow> string list \<Rightarrow> BrowseRequest \<Rightarrow> BrowseResponse go option" where
  "browseTargetByID rd srv parts req =
     (if parts = [] then None
      else
        let targetID = parts ! 0 in
        case map_of (bs_targets srv) targetID of
          None \<Rightarrow> Some (Inl (Errorf (''target not found: '' @ targetID)))
        | Some t \<Rightarrow>
            let basePath = ''/targets/'' @ targetID in
            if length parts = 1 then
              Some (Inr (listing basePath
                [info_node ''config'' ''Protocol configuration'' [], info_node ''stats'' ''Polling statistics'' [],
                 directory ''history'' ''Sample history'' 0,
                 target_node targetID [] (Some (targetToProto srv t (rq_LongFormat req)))] 0))
            else if parts ! 1 = ''config'' then Some (Inr (browseTargetConfig t basePath))
            else if parts ! 1 = ''stats'' then Some (Inr (browseTargetStats rd t basePath))
            else if parts ! 1 = ''history'' then map_option Inr (browseTargetHistory rd t basePath req)
            else Some (Inl (Errorf (''unknown target sub-path: '' @ parts ! 1))))"

definition browseTargets :: "Render \<Rightarrow> BrowseState \<Rightarrow> string list \<Rightarrow> BrowseRequest \<Rightarrow> nat \<Rightarrow> BrowseResponse go option" where
  "browseTargets rd srv parts req limit =
     (if parts = [] then Some (Inr (browseTargetList srv req limit)) else browseTargetByID rd srv parts req)"

section \<open>Tags\<close>

text \<open>The target a path under a tag ends at or goes through, with the path from it on, or \<open>None\<close>.\<close>

definition is_target :: "BrowseState \<Rightarrow> string \<Rightarrow> bool" where
  "is_target srv i \<longleftrightarrow> map_of (bs_targets srv) i \<noteq> None"

definition target_at_end :: "BrowseState \<Rightarrow> string list \<Rightarrow> string option" where
  "target_at_end srv parts =
     (if parts \<noteq> [] \<and> is_target srv (last parts) then
        (let parentPath = (if length parts > 1 then join_with CHR ''/'' (butlast parts) else []) in
         if parentPath = [] \<or> HasTag (ix_tags (bs_indices srv)) (last parts) parentPath then Some (last parts) else None)
      else None)"

fun target_inside :: "BrowseState \<Rightarrow> string list \<Rightarrow> nat \<Rightarrow> string list option" where
  "target_inside srv parts 0 = None"
| "target_inside srv parts (Suc i) =
     (if is_target srv (parts ! Suc i)
         \<and> HasTag (ix_tags (bs_indices srv)) (parts ! Suc i) (join_with CHR ''/'' (take (Suc i) parts))
      then Some (drop (Suc i) parts)
      else target_inside srv parts i)"

definition filtered_direct :: "BrowseState \<Rightarrow> BrowseRequest \<Rightarrow> string list \<Rightarrow> string list" where
  "filtered_direct srv req directTargetIDs =
     (if rq_FilterState req \<noteq> [] \<or> rq_FilterProtocol req \<noteq> [] \<or> rq_FilterHost req \<noteq> [] then
        (case Indices_Query (bs_indices srv)
                \<lparr>f_Tags = [], f_State = rq_FilterState req, f_Protocol = rq_FilterProtocol req, f_Host = rq_FilterHost req\<rparr> of
           None \<Rightarrow> []
         | Some candidates \<Rightarrow>
             ss_ToSlice (ss_Intersect candidates (foldl (\<lambda>s i. ss_Add i s) NewStringSet directTargetIDs)))
      else directTargetIDs)"

definition tag_listing :: "BrowseState \<Rightarrow> BrowseRequest \<Rightarrow> string \<Rightarrow> BrowseResponse" where
  "tag_listing srv req tagPath =
     (let (subTags, directTargetIDs) = ListChildren (ix_tags (bs_indices srv)) tagPath;
          dirs = map (\<lambda>subTag. directory subTag []
                   (TagIndex_Count (ix_tags (bs_indices srv)) (if tagPath \<noteq> [] then tagPath @ ''/'' @ subTag else subTag))) subTags;
          basePath = (if tagPath \<noteq> [] then ''/tags/'' @ tagPath else ''/tags'')
      in listing basePath (dirs @ list_nodes srv (rq_LongFormat req) (filtered_direct srv req directTargetIDs))
           (if tagPath = [] then length (bs_targets srv) else TagIndex_Count (ix_tags (bs_indices srv)) tagPath))"

definition browseTags :: "Render \<Rightarrow> BrowseState \<Rightarrow> string list \<Rightarrow> BrowseRequest \<Rightarrow> BrowseResponse go option" where
  "browseTags rd srv parts req =
     (case target_at_end srv parts of
        Some i \<Rightarrow> browseTargetByID rd srv [i] req
      | None \<Rightarrow>
          (case (if length parts \<ge> 2 then target_inside srv parts (length parts - 1) else None) of
             Some rest \<Rightarrow> browseTargetByID rd srv rest req
           | None \<Rightarrow> Some (Inr (tag_listing srv req (join_with CHR ''/'' parts)))))"

section \<open>Server\<close>

definition stat_of :: "(string, nat) gomap \<Rightarrow> string \<Rightarrow> string" where
  "stat_of stats k = show_nat (case map_of stats k of None \<Rightarrow> 0 | Some n \<Rightarrow> n)"

definition browseServerStatus :: "Render \<Rightarrow> int \<Rightarrow> BrowseState \<Rightarrow> BrowseResponse" where
  "browseServerStatus rd now srv =
     (let sessLost = length (filter bz_Lost (mvals (bs_sessions srv)));
          sessActive = length (filter (\<lambda>s. \<not> bz_Lost s) (mvals (bs_sessions srv)));
          stats = Indices_Stats (bs_indices srv);
          info = [(''version'', rd_version rd), (''uptime'', formatDuration (now - bs_startedAt srv)),
                  (''started_at'', rd_time rd (bs_startedAt srv)),
                  (''sessions_active'', show_nat sessActive), (''sessions_lost'', show_nat sessLost),
                  (''targets_total'', show_nat (length (bs_targets srv))),
                  (''targets_polling'', stat_of stats ''state_polling''), (''targets_unreachable'', stat_of stats ''state_unreachable''),
                  (''targets_error'', stat_of stats ''state_error''), (''poller_workers'', show_nat (bs_workers srv)),
                  (''poller_queue'', show_nat (bs_queueUsed srv) @ ''/'' @ show_nat (bs_queueSize srv)),
                  (''poller_heap'', show_nat (bs_heapSize srv)), (''polls_total'', show_nat (bs_pollsTotal srv)),
                  (''polls_success'', show_nat (bs_pollsOK srv)), (''polls_failed'', show_nat (bs_pollsFailed srv))]
      in listing ''/server/status'' [info_node ''status'' [] info] 0)"

definition browseServerConfig :: "BrowseState \<Rightarrow> BrowseResponse" where
  "browseServerConfig srv =
     (let info = [(''default_timeout_ms'', show_word (bs_defaultTimeoutMs srv)), (''default_retries'', show_word (bs_defaultRetries srv)),
                  (''default_buffer_size'', show_word (bs_defaultBufferSize srv)), (''min_interval_ms'', show_word (bs_minIntervalMs srv)),
                  (''poller_workers'', show_nat (bs_workers srv)), (''poller_queue_size'', show_nat (bs_queueSize srv)),
                  (''reconnect_window'', show_nat (bs_reconnectWindowSec srv) @ ''s'')]
      in listing ''/server/config'' [info_node ''config'' [] info] 0)"

definition owned_by :: "string \<Rightarrow> BrowseState \<Rightarrow> string list" where
  "owned_by sid srv = map fst (filter (\<lambda>(tid, t). map_of (pt_Owners t) sid = Some True) (bs_targets srv))"

definition session_status :: "BrowseSession \<Rightarrow> string" where
  "session_status sess = (if bz_Lost sess then ''lost'' else ''connected'')"

definition comma_list :: "string list \<Rightarrow> string" where
  "comma_list xs = (if xs = [] then [] else hd xs @ concat (map (\<lambda>x. '', '' @ x) (tl xs)))"

definition browseServerSessions :: "Render \<Rightarrow> BrowseState \<Rightarrow> string list \<Rightarrow> BrowseResponse go" where
  "browseServerSessions rd srv parts =
     (if parts = [] then
        (let nodes = map (\<lambda>(i, sess). info_node i (session_status sess)
                       [(''token_id'', bz_TokenID sess), (''status'', session_status sess), (''created'', rd_time rd (bz_CreatedAt sess))])
                     (bs_sessions srv)
         in Inr (listing ''/server/sessions'' (sort_key bn_Name nodes) (length nodes)))
      else
        case map_of (bs_sessions srv) (parts ! 0) of
          None \<Rightarrow> Inl (Errorf (''session not found: '' @ parts ! 0))
        | Some sess \<Rightarrow>
            (let subs = bz_Subscriptions sess; owned = sort (owned_by (bz_ID sess) srv);
                 info = [(''session_id'', bz_ID sess), (''token_id'', bz_TokenID sess), (''status'', session_status sess),
                         (''created'', rd_time rd (bz_CreatedAt sess)), (''owned_count'', show_nat (length owned)),
                         (''owned'', comma_list owned), (''subscribed'', show_nat (length subs)),
                         (''subscriptions'', comma_list subs)]
             in Inr (listing (''/server/sessions/'' @ parts ! 0) [info_node (parts ! 0) [] info] 0)))"

definition browseServer :: "Render \<Rightarrow> int \<Rightarrow> BrowseState \<Rightarrow> string list \<Rightarrow> BrowseResponse go" where
  "browseServer rd now srv parts =
     (if parts = [] then
        Inr (listing ''/server'' [info_node ''status'' ''Server status'' [], info_node ''config'' ''Runtime configuration'' [],
               directory ''sessions'' ''Connected sessions'' 0] 0)
      else if parts ! 0 = ''status'' then Inr (browseServerStatus rd now srv)
      else if parts ! 0 = ''config'' then Inr (browseServerConfig srv)
      else if parts ! 0 = ''sessions'' then browseServerSessions rd srv (tl parts)
      else Inl (Errorf (''unknown server path: '' @ parts ! 0)))"

section \<open>Session\<close>

definition browseSessionInfo :: "Render \<Rightarrow> BrowseState \<Rightarrow> BrowseSession \<Rightarrow> BrowseResponse" where
  "browseSessionInfo rd srv sess =
     listing ''/session/info'' [info_node ''info'' []
       [(''session_id'', bz_ID sess), (''token_id'', bz_TokenID sess), (''created'', rd_time rd (bz_CreatedAt sess)),
        (''owned_count'', show_nat (length (owned_by (bz_ID sess) srv))), (''subscribed'', show_nat (length (bz_Subscriptions sess)))]] 0"

definition browseSessionOwned :: "BrowseState \<Rightarrow> BrowseSession \<Rightarrow> BrowseRequest \<Rightarrow> BrowseResponse" where
  "browseSessionOwned srv sess req =
     (let nodes = sort_key bn_Name (map (\<lambda>(tid, t). target_node tid (pt_Description t)
                     (if rq_LongFormat req then Some (targetToProto srv t True) else None))
                   (filter (\<lambda>(tid, t). map_of (pt_Owners t) (bz_ID sess) = Some True) (bs_targets srv)))
      in listing ''/session/owned'' nodes (length nodes))"

definition browseSessionSubscribed :: "BrowseState \<Rightarrow> BrowseSession \<Rightarrow> BrowseRequest \<Rightarrow> BrowseResponse" where
  "browseSessionSubscribed srv sess req =
     (let nodes = sort_key bn_Name (list_nodes srv (rq_LongFormat req) (bz_Subscriptions sess))
      in listing ''/session/subscribed'' nodes (length nodes))"

definition browseSession :: "Render \<Rightarrow> BrowseState \<Rightarrow> BrowseSession \<Rightarrow> string list \<Rightarrow> BrowseRequest \<Rightarrow> BrowseResponse go" where
  "browseSession rd srv sess parts req =
     (if parts = [] then
        Inr (listing ''/session'' [info_node ''info'' ''Session details'' [], directory ''owned'' ''Targets you own'' 0,
               directory ''subscribed'' ''Your subscriptions'' 0] 0)
      else if parts ! 0 = ''info'' then Inr (browseSessionInfo rd srv sess)
      else if parts ! 0 = ''owned'' then Inr (browseSessionOwned srv sess req)
      else if parts ! 0 = ''subscribed'' then Inr (browseSessionSubscribed srv sess req)
      else Inl (Errorf (''unknown session path: '' @ parts ! 0)))"

section \<open>A browse request\<close>

definition browseRoot :: "BrowseState \<Rightarrow> BrowseResponse" where
  "browseRoot srv =
     listing ''/'' [directory ''targets'' ''All monitored targets'' (length (bs_targets srv)), directory ''tags'' ''Browse by tags'' 0,
       directory ''server'' ''Server status and config'' 0, directory ''session'' ''Current session info'' 0] 0"

definition trim_slashes :: "string \<Rightarrow> string" where
  "trim_slashes s = rev (dropWhile (\<lambda>c. c = CHR ''/'') (rev (dropWhile (\<lambda>c. c = CHR ''/'') s)))"

definition browse_limit :: "int \<Rightarrow> nat" where
  "browse_limit n = (let limit = (if n \<le> 0 then 100 else n) in nat (if limit > 1000 then 1000 else limit))"

datatype Envelope = EnvError nat nat string | EnvBrowse nat BrowseResponse

definition newError :: "nat \<Rightarrow> nat \<Rightarrow> string \<Rightarrow> Envelope" where
  "newError i code msg = EnvError i code msg"

text \<open>The message sent to the session; 4 is \<open>ErrInvalidRequest\<close>.\<close>

definition handleBrowse :: "Render \<Rightarrow> int \<Rightarrow> BrowseState \<Rightarrow> BrowseSession \<Rightarrow> nat \<Rightarrow> BrowseRequest \<Rightarrow> Envelope option" where
  "handleBrowse rd now srv sess i req =
     (let p = trim_slashes (rq_Path req); parts = splitPath p; limit = browse_limit (rq_Limit req) in
      map_option (\<lambda>r. case r of Inl err \<Rightarrow> newError i 4 (error_msg err) | Inr resp \<Rightarrow> EnvBrowse i resp)
        (if parts = [] \<or> p = [] then Some (Inr (browseRoot srv))
         else if parts ! 0 = ''targets'' then browseTargets rd srv (tl parts) req limit
         else if parts ! 0 = ''tags'' then browseTags rd srv (tl parts) req
         else if parts ! 0 = ''server'' then Some (browseServer rd now srv (tl parts))
         else if parts ! 0 = ''session'' then Some (browseSession rd srv sess (tl parts) req)
         else Some (Inl (Errorf (''unknown path: /'' @ parts ! 0)))))"

section \<open>Following the cursor\<close>

text \<open>A client that asks for pages as long as there are more; \<open>None\<close> when its patience runs out.\<close>

fun follow_pages :: "nat \<Rightarrow> BrowseState \<Rightarrow> BrowseRequest \<Rightarrow> nat \<Rightarrow> string list option" where
  "follow_pages 0 srv req limit = None"
| "follow_pages (Suc n) srv req limit =
     (let resp = browseTargetList srv req limit; names = map bn_Name (rs_Nodes resp) in
      if rs_HasMore resp
      then map_option (\<lambda>more. names @ more) (follow_pages n srv (req\<lparr>rq_Cursor := rs_NextCursor resp\<rparr>) limit)
      else Some names)"

lemma SearchStrings_nth:
  assumes "sorted_wrt (<) xs" "k < length xs"
  shows "SearchStrings xs (xs ! k) = k"
proof -
  have "takeWhile (\<lambda>y. y < xs ! k) xs = take k xs"
    by (rule takeWhile_eq_take_P_nth) (use assms in \<open>auto simp: sorted_wrt_iff_nth_less\<close>)
  then show ?thesis using assms(2) by (simp add: SearchStrings_def)
qed

lemma names_list_nodes:
  "set ids \<subseteq> set (mkeys (bs_targets srv)) \<Longrightarrow> map bn_Name (list_nodes srv long ids) = ids"
proof (induction ids)
  case (Cons i ids)
  then obtain t where "map_of (bs_targets srv) i = Some t" by (auto simp: mkeys_dom simp del: set_map)
  with Cons show ?case by (simp add: list_nodes_def target_node_def)
qed (simp add: list_nodes_def)

text \<open>What a page is: the elements from a position on, up to the limit.\<close>

definition at_position :: "string list \<Rightarrow> nat \<Rightarrow> string \<Rightarrow> bool" where
  "at_position ids k cursor \<longleftrightarrow> k < length ids \<and> (if k = 0 then cursor = [] else cursor = ids ! (k - 1) \<and> cursor \<noteq> [])"

lemma after_cursor_position:
  assumes "sorted_wrt (<) ids" "at_position ids k cursor"
  shows "after_cursor cursor ids = Some (drop k ids)"
proof (cases k)
  case 0
  with assms(2) show ?thesis by (simp add: after_cursor_def at_position_def)
next
  case (Suc m)
  with assms(2) have m: "Suc m < length ids" "cursor = ids ! m" "cursor \<noteq> []" by (auto simp: at_position_def)
  then have "SearchStrings ids cursor = m" using SearchStrings_nth [OF assms(1), of m] by simp
  moreover have "ids ! m \<noteq> []" using m(2,3) by simp
  ultimately show ?thesis using m(1,2) Suc by (simp add: after_cursor_def Let_def)
qed

lemma page_at:
  assumes "candidate_ids srv req = Some ids0" "distinct ids0" "set ids0 \<subseteq> set (mkeys (bs_targets srv))" "[] \<notin> set ids0"
    "0 < limit" "at_position (sort ids0) k (rq_Cursor req)"
  defines "resp \<equiv> browseTargetList srv req limit"
  shows "map bn_Name (rs_Nodes resp) = take limit (drop k (sort ids0))"
    "rs_HasMore resp \<longleftrightarrow> k + limit < length ids0"
    "rs_HasMore resp \<Longrightarrow> at_position (sort ids0) (k + limit) (rs_NextCursor resp)"
    "rs_TotalCount resp = length ids0"
proof -
  let ?s = "sort ids0"
  have s: "sorted_wrt (<) ?s" using assms(2) by (simp add: strict_sorted_iff)
  have c: "after_cursor (rq_Cursor req) ?s = Some (drop k ?s)" by (rule after_cursor_position [OF s assms(6)])
  define page where "page = (if length (drop k ?s) > limit then take limit (drop k ?s) else drop k ?s)"
  have page: "page = take limit (drop k ?s)" by (simp add: page_def)
  have "set page \<subseteq> set ?s" unfolding page by (meson order_trans set_drop_subset set_take_subset)
  with assms(3) have names: "map bn_Name (list_nodes srv (rq_LongFormat req) page) = page" by (intro names_list_nodes) auto
  have k: "k < length ids0" using assms(6) by (simp add: at_position_def)
  then have ne: "page \<noteq> []" using assms(5) by (simp add: page)
  then have ln: "list_nodes srv (rq_LongFormat req) page \<noteq> []" using names by auto
  then have l: "bn_Name (last (list_nodes srv (rq_LongFormat req) page)) = last page" using names by (metis last_map)
  have resp: "resp = \<lparr>rs_Path = ''/targets'', rs_Nodes = list_nodes srv (rq_LongFormat req) page, rs_TotalCount = length ids0,
      rs_HasMore = (length (drop k ?s) > limit), rs_NextCursor = (if length (drop k ?s) > limit then last page else [])\<rparr>"
    unfolding resp_def browseTargetList_def assms(1) option.case Let_def length_sort c page_def [symmetric] using l ln by simp
  show "map bn_Name (rs_Nodes resp) = take limit (drop k ?s)" using names by (simp add: resp page)
  show more: "rs_HasMore resp \<longleftrightarrow> k + limit < length ids0" by (simp add: resp) linarith
  show "rs_TotalCount resp = length ids0" by (simp add: resp)
  assume "rs_HasMore resp"
  then have m: "k + limit < length ids0" using more by simp
  have "last page = ?s ! (k + limit - 1)"
    using m assms(5) ne by (simp add: page last_conv_nth)
  moreover have "?s ! (k + limit - 1) \<noteq> []"
  proof -
    have "k + limit - 1 < length ?s" using m by simp
    then have "?s ! (k + limit - 1) \<in> set ?s" by (rule nth_mem)
    then show ?thesis using assms(4) by auto
  qed
  ultimately show "at_position ?s (k + limit) (rs_NextCursor resp)"
    using m assms(5) by (auto simp: resp at_position_def)
qed

lemma follow_from:
  assumes "candidate_ids srv req = Some ids0" "distinct ids0" "set ids0 \<subseteq> set (mkeys (bs_targets srv))" "[] \<notin> set ids0"
    "0 < limit" "at_position (sort ids0) k (rq_Cursor req)" "length ids0 - k \<le> n"
  shows "follow_pages n srv req limit = Some (drop k (sort ids0))"
  using assms
proof (induction n arbitrary: req k)
  case 0
  then show ?case by (simp add: at_position_def)
next
  case (Suc n)
  note page = page_at [OF Suc.prems(1-6)]
  let ?resp = "browseTargetList srv req limit"
  show ?case
  proof (cases "rs_HasMore ?resp")
    case True
    have "candidate_ids srv (req\<lparr>rq_Cursor := rs_NextCursor ?resp\<rparr>) = Some ids0"
      using Suc.prems(1) by (simp add: candidate_ids_def)
    moreover have "at_position (sort ids0) (k + limit) (rq_Cursor (req\<lparr>rq_Cursor := rs_NextCursor ?resp\<rparr>))"
      using page(3) [OF True] by simp
    moreover have "length ids0 - (k + limit) \<le> n" using Suc.prems(5,7) by simp
    ultimately have "follow_pages n srv (req\<lparr>rq_Cursor := rs_NextCursor ?resp\<rparr>) limit = Some (drop (k + limit) (sort ids0))"
      by (rule Suc.IH [OF _ Suc.prems(2-5)])
    then have "follow_pages (Suc n) srv req limit = Some (take limit (drop k (sort ids0)) @ drop (k + limit) (sort ids0))"
      using True by (simp add: Let_def page(1))
    also have "take limit (drop k (sort ids0)) @ drop (k + limit) (sort ids0) = drop k (sort ids0)"
      by (metis append_take_drop_id drop_drop add.commute)
    finally show ?thesis .
  next
    case False
    then have "length ids0 \<le> k + limit" using page(2) by simp
    with False show ?thesis by (simp add: Let_def page(1))
  qed
qed


definition ex_target :: "string \<Rightarrow> Target" where
  "ex_target i = NewTarget 0 i \<lparr>tq_Name = [], tq_Description = [], tq_Tags = [], tq_Persistent = False, tq_IntervalMs = 0,
     tq_BufferSize = 0, tq_Snmp = None\<rparr> 10"

definition ex_browse :: BrowseState where
  "ex_browse = \<lparr>bs_targets = map (\<lambda>i. (i, ex_target i)) [''c'', ''a'', ''b''], bs_indices = NewIndices, bs_sessions = [],
     bs_startedAt = 0, bs_defaultTimeoutMs = 0, bs_defaultRetries = 0, bs_defaultBufferSize = 0, bs_minIntervalMs = 0,
     bs_workers = 1, bs_queueSize = 1, bs_reconnectWindowSec = 0, bs_pollsTotal = 0, bs_pollsOK = 0, bs_pollsFailed = 0,
     bs_heapSize = 0, bs_queueUsed = 0\<rparr>"

definition ex_list :: BrowseRequest where
  "ex_list = \<lparr>rq_Path = ''/targets'', rq_LongFormat = False, rq_Limit = 2, rq_Cursor = [], rq_FilterTags = [],
     rq_FilterState = [], rq_FilterProtocol = [], rq_FilterHost = []\<rparr>"


section \<open>Browsing never panics\<close>

lemma browseTargetByID_total:
  assumes "\<forall>t \<in> set (mvals (bs_targets srv)). ring_ok t" "parts \<noteq> []"
  shows "browseTargetByID rd srv parts req \<noteq> None"
proof (cases "map_of (bs_targets srv) (parts ! 0)")
  case (Some t)
  then have "ring_ok t" using assms(1) by (force dest: map_of_SomeD)
  moreover have "history_limit (rq_Limit req) \<ge> 0" by (simp add: history_limit_def Let_def)
  ultimately have "browseTargetHistory rd t basePath req \<noteq> None" for basePath
    by (simp add: browseTargetHistory_def ReadLastN_ring)
  with Some assms(2) show ?thesis by (auto simp: browseTargetByID_def Let_def)
qed (use assms(2) in \<open>simp add: browseTargetByID_def\<close>)

lemma target_inside_rest: "target_inside srv parts i = Some rest \<Longrightarrow> i < length parts \<Longrightarrow> rest \<noteq> []"
  by (induction i) (auto split: if_splits)

lemma handleBrowse_total:
  assumes "\<forall>t \<in> set (mvals (bs_targets srv)). ring_ok t"
  shows "handleBrowse rd now srv sess i req \<noteq> None"
proof -
  have "browseTags rd srv parts req \<noteq> None" for parts
  proof (cases "target_at_end srv parts")
    case None
    have "browseTargetByID rd srv rest req \<noteq> None" if "target_inside srv parts (length parts - 1) = Some rest" "length parts \<ge> 2" for rest
    proof -
      have "length parts - 1 < length parts" using that(2) by simp
      from browseTargetByID_total [OF assms target_inside_rest [OF that(1) this]] show ?thesis .
    qed
    with None show ?thesis by (auto simp: browseTags_def split: option.splits)
  next
    case (Some t)
    then show ?thesis using browseTargetByID_total [OF assms, of "[t]"] by (simp add: browseTags_def)
  qed
  moreover have "browseTargets rd srv parts req limit \<noteq> None" for parts limit
    using browseTargetByID_total [OF assms, of parts] by (simp add: browseTargets_def)
  ultimately show ?thesis by (auto simp: handleBrowse_def Let_def)
qed

text \<open>The limits a listing and a history use.\<close>

lemma browse_limit_bounds: "0 < browse_limit n" "browse_limit n \<le> 1000"
  by (auto simp: browse_limit_def Let_def)

text \<open>A community is shown by its first three characters, a short one not at all.\<close>

lemma maskString_length: "length (maskString s) \<le> 6"
  by (simp add: maskString_def)

text \<open>What a target's configuration shows does not depend on its passwords.\<close>

lemma config_hides_passwords:
  "version_info (Ver3 (v\<lparr>vp_AuthPassword := a, vp_PrivPassword := p\<rparr>)) info = version_info (Ver3 v) info"
  by (simp add: version_info_def Let_def)

text \<open>A target is found under a tag it has; straight under the tags it is found whatever its tags are.\<close>

lemma every_target_below_tags: "is_target srv i \<Longrightarrow> target_at_end srv [i] = Some i"
  by (simp add: target_at_end_def)

text \<open>
  The name of a target is not in its browse message, though \<open>ToProto\<close> has it.
\<close>

lemma browse_message_has_no_name: "tg_Name (bt_Target (targetToProto srv t b)) = []"
  by (simp add: targetToProto_def)

end
