(* ===== verification/TargetPoller.thy ===== *)
theory TargetPoller
  imports TargetBrowse SnmpPoller
begin

text \<open>
  The poller of internal/server/poller.go: the heap of poll items by target, the jobs and results, one poll over
  gosnmp, and the delivery of a result to its target and its subscribers.

  The file belongs to the older server. Its methods \<open>RecordPoll\<close> and \<open>UpdateTargetState\<close> are not in the repository,
  so they are arguments of \<open>dispatchSample\<close>. An item is an address in the heap's store, the operations of
  container/heap are those of theory \<open>GoHeap\<close>, the parameters and answers of gosnmp those of theory \<open>SnmpPoller\<close>.
\<close>

section \<open>The heap\<close>

record PollItem =
  oi_TargetID :: string
  oi_NextPollMs :: int
  oi_IntervalMs :: int
  oi_Polling :: bool
  oi_index :: int

record PollHeap =
  oh_arr :: "nat list"
  oh_item :: "nat \<Rightarrow> PollItem"

definition oh_upd :: "nat \<Rightarrow> (PollItem \<Rightarrow> PollItem) \<Rightarrow> PollHeap \<Rightarrow> PollHeap" where
  "oh_upd a f h = h\<lparr>oh_item := (oh_item h)(a := f (oh_item h a))\<rparr>"

definition PollHeap_Len :: "PollHeap \<Rightarrow> nat" where
  "PollHeap_Len h = length (oh_arr h)"

definition PollHeap_Less :: "PollHeap \<Rightarrow> nat \<Rightarrow> nat \<Rightarrow> bool" where
  "PollHeap_Less h i j \<longleftrightarrow> oi_NextPollMs (oh_item h (oh_arr h ! i)) < oi_NextPollMs (oh_item h (oh_arr h ! j))"

definition PollHeap_Swap :: "nat \<Rightarrow> nat \<Rightarrow> PollHeap \<Rightarrow> PollHeap" where
  "PollHeap_Swap i j h =
     (let h1 = h\<lparr>oh_arr := (oh_arr h)[i := oh_arr h ! j, j := oh_arr h ! i]\<rparr>;
          h2 = oh_upd (oh_arr h1 ! i) (\<lambda>it. it\<lparr>oi_index := int i\<rparr>) h1
      in oh_upd (oh_arr h2 ! j) (\<lambda>it. it\<lparr>oi_index := int j\<rparr>) h2)"

definition PollHeap_Push :: "nat \<Rightarrow> PollHeap \<Rightarrow> PollHeap" where
  "PollHeap_Push a h =
     (let h1 = oh_upd a (\<lambda>it. it\<lparr>oi_index := int (length (oh_arr h))\<rparr>) h in h1\<lparr>oh_arr := oh_arr h1 @ [a]\<rparr>)"

definition PollHeap_Pop :: "PollHeap \<Rightarrow> nat \<times> PollHeap" where
  "PollHeap_Pop h =
     (let n = length (oh_arr h); item = oh_arr h ! (n - 1);
          h1 = oh_upd item (\<lambda>it. it\<lparr>oi_index := -1\<rparr>) h
      in (item, h1\<lparr>oh_arr := take (n - 1) (oh_arr h)\<rparr>))"

definition PollHeap_Peek :: "PollHeap \<Rightarrow> nat option" where
  "PollHeap_Peek h = (if oh_arr h = [] then None else Some (oh_arr h ! 0))"

definition OldHeap_if :: "(PollHeap, nat) heap_if" where
  "OldHeap_if = \<lparr>hLen = PollHeap_Len, hLess = PollHeap_Less, hSwap = PollHeap_Swap, hPush = PollHeap_Push, hPop = PollHeap_Pop\<rparr>"

lemmas OldHeap_defs = OldHeap_if_def PollHeap_Len_def PollHeap_Less_def PollHeap_Swap_def PollHeap_Push_def PollHeap_Pop_def
  oh_upd_def Let_def

text \<open>
  The heap keeps what \<open>heap_laws\<close> asks for. Nothing is claimed of the positions here: \<open>MarkPollComplete\<close> may push an
  item that is in the heap already, so they are not always right (below).
\<close>

definition oh_view :: "PollHeap \<Rightarrow> nat \<Rightarrow> PollItem" where
  "oh_view h a = (oh_item h a)\<lparr>oi_index := 0\<rparr>"

definition oh_prio :: "(nat \<Rightarrow> PollItem) \<Rightarrow> nat \<Rightarrow> int" where
  "oh_prio v a = oi_NextPollMs (v a)"

interpretation old_heap: heap_laws OldHeap_if oh_arr oh_view oh_prio "\<lambda>_. True" "\<lambda>_ _. True"
proof unfold_locales
  fix h :: PollHeap and i j
  show "oh_view (hSwap OldHeap_if i j h) = oh_view h"
    by (rule ext) (simp add: OldHeap_defs oh_view_def)
  show "oh_view (hPush OldHeap_if i h) = oh_view h"
    by (rule ext) (simp add: OldHeap_defs oh_view_def)
  show "oh_view (snd (hPop OldHeap_if h)) = oh_view h"
    by (rule ext) (simp add: OldHeap_defs oh_view_def)
next
  fix h :: PollHeap assume "oh_arr h \<noteq> []"
  then show "oh_arr (snd (hPop OldHeap_if h)) = butlast (oh_arr h)"
    by (simp add: OldHeap_defs butlast_conv_take)
qed (simp_all add: OldHeap_defs oh_prio_def oh_view_def last_conv_nth)

section \<open>The poller\<close>

record PollResult =
  or_TargetID :: string
  or_TimestampMs :: int
  or_Counter :: "64 word"
  or_Text :: string
  or_Valid :: bool
  or_Error :: string
  or_PollMs :: int

record Poller =
  op_jobs :: "string list"
  op_results :: "PollResult list"
  op_queueSize :: nat
  op_workers :: nat
  op_heap :: PollHeap
  op_heapIdx :: "(string, nat) gomap"
  op_next :: nat
  op_wakeup :: bool

definition empty_item :: PollItem where
  "empty_item = \<lparr>oi_TargetID = [], oi_NextPollMs = 0, oi_IntervalMs = 0, oi_Polling = False, oi_index = 0\<rparr>"

definition NewPoller :: "nat \<Rightarrow> nat \<Rightarrow> Poller" where
  "NewPoller workers queueSize =
     \<lparr>op_jobs = [], op_results = [], op_queueSize = queueSize, op_workers = workers,
      op_heap = \<lparr>oh_arr = [], oh_item = \<lambda>_. empty_item\<rparr>, op_heapIdx = [], op_next = 0, op_wakeup = False\<rparr>"

definition op_Stats :: "Poller \<Rightarrow> nat \<times> nat" where
  "op_Stats p = (PollHeap_Len (op_heap p), length (op_jobs p))"

definition op_signalWakeup :: "Poller \<Rightarrow> Poller" where
  "op_signalWakeup p = p\<lparr>op_wakeup := True\<rparr>"

text \<open>\<open>None\<close> is the panic of \<open>rand.Int63n(0)\<close>; the jitter drawn is an argument.\<close>

definition AddTarget :: "string \<Rightarrow> 32 word \<Rightarrow> int \<Rightarrow> int \<Rightarrow> Poller \<Rightarrow> Poller option" where
  "AddTarget targetID intervalMs jitter now p =
     (if map_of (op_heapIdx p) targetID \<noteq> None then Some p
      else if intervalMs = 0 then None
      else
        let a = op_next p;
            item = \<lparr>oi_TargetID = targetID, oi_NextPollMs = now + jitter, oi_IntervalMs = uint intervalMs, oi_Polling = False, oi_index = 0\<rparr>
        in Some (op_signalWakeup (p\<lparr>op_heap := heap_Push OldHeap_if a (oh_upd a (\<lambda>_. item) (op_heap p)),
                                    op_heapIdx := mput targetID a (op_heapIdx p), op_next := a + 1\<rparr>)))"

definition RemoveTarget :: "string \<Rightarrow> Poller \<Rightarrow> Poller" where
  "RemoveTarget targetID p =
     (case map_of (op_heapIdx p) targetID of
        None \<Rightarrow> p
      | Some a \<Rightarrow>
          (let i = oi_index (oh_item (op_heap p) a);
               p1 = (if i \<ge> 0 then p\<lparr>op_heap := snd (heap_Remove OldHeap_if (nat i) (op_heap p))\<rparr> else p)
           in p1\<lparr>op_heapIdx := mdel targetID (op_heapIdx p1)\<rparr>))"

definition op_UpdateInterval :: "string \<Rightarrow> 32 word \<Rightarrow> Poller \<Rightarrow> Poller" where
  "op_UpdateInterval targetID newIntervalMs p =
     (case map_of (op_heapIdx p) targetID of
        None \<Rightarrow> p
      | Some a \<Rightarrow> p\<lparr>op_heap := oh_upd a (\<lambda>it. it\<lparr>oi_IntervalMs := uint newIntervalMs\<rparr>) (op_heap p)\<rparr>)"

text \<open>The loop of \<open>scheduler\<close>: what it waits for.\<close>

datatype wait = Wakeup | SleepMs int | Due

definition scheduler_wait :: "int \<Rightarrow> Poller \<Rightarrow> wait" where
  "scheduler_wait now p =
     (case PollHeap_Peek (op_heap p) of
        None \<Rightarrow> Wakeup
      | Some a \<Rightarrow> (let sleepMs = oi_NextPollMs (oh_item (op_heap p) a) - now in if sleepMs > 0 then SleepMs sleepMs else Due))"

text \<open>
  \<open>processDueTargets\<close>. An item that could not be queued is due again ten milliseconds later, so each round takes
  one item for good; the fuel is the length of the heap.
\<close>

fun process_due :: "nat \<Rightarrow> int \<Rightarrow> Poller \<Rightarrow> Poller" where
  "process_due 0 now p = p"
| "process_due (Suc n) now p =
     (case PollHeap_Peek (op_heap p) of
        None \<Rightarrow> p
      | Some b \<Rightarrow>
          if oi_NextPollMs (oh_item (op_heap p) b) > now then p
          else
            (case heap_Pop OldHeap_if (op_heap p) of
               (a, h) \<Rightarrow>
                 if oi_Polling (oh_item h a) then process_due n now (p\<lparr>op_heap := h\<rparr>)
                 else if length (op_jobs p) < op_queueSize p then
                   process_due n now (p\<lparr>op_heap := oh_upd a (\<lambda>it. it\<lparr>oi_Polling := True\<rparr>) h,
                                        op_jobs := op_jobs p @ [oi_TargetID (oh_item h a)]\<rparr>)
                 else
                   process_due n now (p\<lparr>op_heap := heap_Push OldHeap_if a
                     (oh_upd a (\<lambda>it. it\<lparr>oi_Polling := False, oi_NextPollMs := now + 10\<rparr>) h)\<rparr>)))"

definition processDueTargets :: "int \<Rightarrow> Poller \<Rightarrow> Poller" where
  "processDueTargets now p = process_due (length (oh_arr (op_heap p))) now p"

definition MarkPollComplete :: "string \<Rightarrow> int \<Rightarrow> Poller \<Rightarrow> Poller" where
  "MarkPollComplete targetID now p =
     (case map_of (op_heapIdx p) targetID of
        None \<Rightarrow> p
      | Some a \<Rightarrow>
          op_signalWakeup (p\<lparr>op_heap := heap_Push OldHeap_if a
            (oh_upd a (\<lambda>it. it\<lparr>oi_NextPollMs := now + oi_IntervalMs it, oi_Polling := False\<rparr>) (op_heap p))\<rparr>))"

text \<open>The worker takes a job, polls, and sends the result when there is room.\<close>

definition worker_take :: "Poller \<Rightarrow> (string \<times> Poller) option" where
  "worker_take p = (case op_jobs p of [] \<Rightarrow> None | j # js \<Rightarrow> Some (j, p\<lparr>op_jobs := js\<rparr>))"

definition worker_send :: "PollResult \<Rightarrow> Poller \<Rightarrow> Poller option" where
  "worker_send r p = (if length (op_results p) < op_queueSize p then Some (p\<lparr>op_results := op_results p @ [r]\<rparr>) else None)"

section \<open>A poll\<close>

text \<open>The security of the client; \<open>None\<close> is a configuration without a version, which sets nothing.\<close>

definition level_flags :: "string \<Rightarrow> msg_flags" where
  "level_flags level =
     (if level = ''noAuthNoPriv'' then NoAuthNoPriv else if level = ''authNoPriv'' then AuthNoPriv
      else if level = ''authPriv'' then AuthPriv else AuthPriv)"

definition old_mapAuthProtocol :: "string \<Rightarrow> auth_protocol" where
  "old_mapAuthProtocol p =
     (if p = ''MD5'' then MD5 else if p = ''SHA'' \<or> p = ''SHA1'' then SHA else if p = ''SHA224'' then SHA224
      else if p = ''SHA256'' then SHA256 else if p = ''SHA384'' then SHA384 else if p = ''SHA512'' then SHA512 else NoAuth)"

definition old_mapPrivProtocol :: "string \<Rightarrow> priv_protocol" where
  "old_mapPrivProtocol p =
     (if p = ''DES'' then DES else if p = ''AES'' \<or> p = ''AES128'' then AES else if p = ''AES192'' then AES192
      else if p = ''AES256'' then AES256 else NoPriv)"

record old_client =
  oc_Target :: string
  oc_Port :: "16 word"
  oc_TimeoutMs :: "32 word"
  oc_Retries :: "32 word"
  oc_Security :: "security option"

definition old_client_of :: "BrowseState \<Rightarrow> Target \<Rightarrow> old_client" where
  "old_client_of srv t =
     (let c = \<lparr>oc_Target = pt_Host t, oc_Port = pt_Port t, oc_TimeoutMs = bs_defaultTimeoutMs srv, oc_Retries = bs_defaultRetries srv,
               oc_Security = None\<rparr>
      in case pt_SNMP t of
           None \<Rightarrow> c\<lparr>oc_Security := Some (V2c ''public'')\<rparr>
         | Some cfg \<Rightarrow>
             (let r = sx_rest cfg;
                  c1 = (if sr_TimeoutMs r > 0 then c\<lparr>oc_TimeoutMs := sr_TimeoutMs r\<rparr> else c);
                  c2 = (if sr_Retries r > 0 then c1\<lparr>oc_Retries := sr_Retries r\<rparr> else c1)
              in case sr_Version r of
                   NoVersion \<Rightarrow> c2
                 | Ver2c community \<Rightarrow> c2\<lparr>oc_Security := Some (V2c community)\<rparr>
                 | Ver3 v3 \<Rightarrow> c2\<lparr>oc_Security := Some (V3 (vp_ContextName v3) (level_flags (vp_SecurityLevel v3)) (vp_SecurityName v3)
                       (old_mapAuthProtocol (vp_AuthProtocol v3)) (vp_AuthPassword v3)
                       (old_mapPrivProtocol (vp_PrivProtocol v3)) (vp_PrivPassword v3))\<rparr>))"

definition old_read_variable :: "variable \<Rightarrow> PollResult \<Rightarrow> PollResult" where
  "old_read_variable v result =
     (case v of
        Number i \<Rightarrow> result\<lparr>or_Counter := word_of_int \<bar>i\<bar>, or_Valid := True\<rparr>
      | OctetString b \<Rightarrow> (case b of None \<Rightarrow> result | Some text \<Rightarrow> result\<lparr>or_Text := text\<rparr>)\<lparr>or_Valid := True\<rparr>
      | NoSuchObject \<Rightarrow> result\<lparr>or_Valid := False, or_Error := ''no such object''\<rparr>
      | NoSuchInstance \<Rightarrow> result\<lparr>or_Valid := False, or_Error := ''no such object''\<rparr>
      | OtherType \<Rightarrow> result\<lparr>or_Valid := False, or_Error := ''unsupported type''\<rparr>)"

text \<open>The clock is read three times: at the start, for the time stamp and at the end; \<open>elapsed\<close> is the time in between in milliseconds.\<close>

definition poll :: "(old_client \<Rightarrow> string \<Rightarrow> reply) \<Rightarrow> BrowseState \<Rightarrow> int \<Rightarrow> int \<Rightarrow> string \<Rightarrow> PollResult" where
  "poll snmp srv stamp elapsed targetID =
     (case map_of (bs_targets srv) targetID of
        None \<Rightarrow> \<lparr>or_TargetID = targetID, or_TimestampMs = 0, or_Counter = 0, or_Text = [], or_Valid = False,
                 or_Error = ''target not found'', or_PollMs = 0\<rparr>
      | Some t \<Rightarrow>
          (let result = \<lparr>or_TargetID = targetID, or_TimestampMs = stamp, or_Counter = 0, or_Text = [], or_Valid = False,
                         or_Error = [], or_PollMs = signed_take_bit 31 elapsed\<rparr>
           in case snmp (old_client_of srv t) (pt_OID t) of
                ConnectError err \<Rightarrow> result\<lparr>or_Error := err\<rparr>
              | GetError err \<Rightarrow> result\<lparr>or_Error := err\<rparr>
              | Variables vs \<Rightarrow>
                  (case vs of [] \<Rightarrow> result\<lparr>or_Error := ''no variables returned''\<rparr> | v # _ \<Rightarrow> old_read_variable v result)))"

section \<open>Delivery\<close>

definition sample_of_result :: "PollResult \<Rightarrow> RingSample" where
  "sample_of_result r =
     \<lparr>rs_TimestampMs = or_TimestampMs r, rs_Counter = or_Counter r, rs_Text = or_Text r, rs_Valid = or_Valid r,
      rs_Error = or_Error r, rs_PollMs = or_PollMs r\<rparr>"

definition subscribed_sessions :: "string \<Rightarrow> BrowseState \<Rightarrow> string list" where
  "subscribed_sessions targetID srv =
     map bz_ID (filter (\<lambda>sess. \<not> bz_Lost sess \<and> targetID \<in> set (bz_Subscriptions sess)) (mvals (bs_sessions srv)))"

text \<open>The server afterwards and the sessions the result is sent to; \<open>None\<close> is the panic of a target without a buffer.\<close>

definition dispatchSample ::
    "(bool \<Rightarrow> BrowseState \<Rightarrow> BrowseState) \<Rightarrow> (string \<Rightarrow> string \<Rightarrow> string \<Rightarrow> BrowseState \<Rightarrow> BrowseState) \<Rightarrow>
     PollResult \<Rightarrow> BrowseState \<Rightarrow> (BrowseState \<times> string list) option" where
  "dispatchSample RecordPoll UpdateTargetState r srv0 =
     (let srv = RecordPoll (or_Valid r) srv0 in
      case map_of (bs_targets srv) (or_TargetID r) of
        None \<Rightarrow> Some (srv, [])
      | Some t \<Rightarrow>
          (case WriteSample (sample_of_result r) t of
             None \<Rightarrow> None
           | Some t' \<Rightarrow>
               (let srv1 = srv\<lparr>bs_targets := mput (or_TargetID r) t' (bs_targets srv)\<rparr>;
                    srv2 = (if pt_State t \<noteq> pt_State t' then UpdateTargetState (or_TargetID r) (pt_State t) (pt_State t') srv1 else srv1)
                in Some (srv2, subscribed_sessions (or_TargetID r) srv2))))"

section \<open>Rounds of the scheduler end\<close>

text \<open>The entries of the heap that are due.\<close>

definition due_entries :: "int \<Rightarrow> PollHeap \<Rightarrow> nat multiset" where
  "due_entries now h = filter_mset (\<lambda>a. oh_prio (oh_view h) a \<le> now) (mset (oh_arr h))"

lemma next_of_view: "oi_NextPollMs (oh_item h a) = oh_prio (oh_view h) a"
  by (simp add: oh_prio_def oh_view_def)

lemma no_due_no_wait:
  assumes "due_entries now (op_heap p) = {#}"
  shows "scheduler_wait now p \<noteq> Due"
proof (cases "oh_arr (op_heap p)")
  case (Cons a as)
  then have "\<not> oh_prio (oh_view (op_heap p)) a \<le> now" using assms by (auto simp: due_entries_def split: if_splits)
  then show ?thesis using Cons by (simp add: scheduler_wait_def PollHeap_Peek_def next_of_view Let_def)
qed (simp add: scheduler_wait_def PollHeap_Peek_def)

lemma not_due_stops: "scheduler_wait now p \<noteq> Due \<Longrightarrow> process_due n now p = p"
  by (cases n) (auto simp: scheduler_wait_def Let_def split: option.splits if_splits)

lemma due_after_pop:
  assumes "oh_arr h \<noteq> []" "oh_prio (oh_view h) (oh_arr h ! 0) \<le> now" "heap_Pop OldHeap_if h = (a, h')"
  shows "a = oh_arr h ! 0" "oh_view h' = oh_view h" "size (due_entries now h) = Suc (size (due_entries now h'))"
proof -
  note f = old_heap.pop_frame [OF assms(1)]
  show "a = oh_arr h ! 0" using f(1) assms(3) by simp
  show v: "oh_view h' = oh_view h" using f(3) assms(3) by simp
  have m: "mset (oh_arr h) = add_mset (oh_arr h ! 0) (mset (oh_arr h'))" using f(2) assms(3) by simp
  show "size (due_entries now h) = Suc (size (due_entries now h'))"
    using assms(2) by (simp add: due_entries_def m v)
qed

lemma due_polling: "due_entries now (oh_upd a (\<lambda>it. it\<lparr>oi_Polling := b\<rparr>) h) = due_entries now h"
  by (auto simp: due_entries_def oh_upd_def oh_prio_def oh_view_def intro!: filter_mset_cong)

lemma due_repush:
  assumes "now < t"
  shows "due_entries now (heap_Push OldHeap_if a (oh_upd a (\<lambda>it. it\<lparr>oi_Polling := b, oi_NextPollMs := t\<rparr>) h)) \<subseteq># due_entries now h"
proof -
  let ?h = "oh_upd a (\<lambda>it. it\<lparr>oi_Polling := b, oi_NextPollMs := t\<rparr>) h"
  have e: "due_entries now (heap_Push OldHeap_if a ?h) = due_entries now ?h"
    using old_heap.push_frame [of a ?h] assms
    by (simp add: due_entries_def) (simp add: oh_prio_def oh_view_def oh_upd_def)
  have "due_entries now ?h \<subseteq># due_entries now h"
    using assms by (auto simp: due_entries_def oh_upd_def oh_prio_def oh_view_def intro!: filter_mset_mono_strong)
  then show ?thesis by (simp only: e)
qed

lemma enough_fuel: "size (due_entries now (op_heap p)) \<le> n \<Longrightarrow> scheduler_wait now (process_due n now p) \<noteq> Due"
proof (induction n arbitrary: p)
  case 0
  then show ?case by (simp add: no_due_no_wait)
next
  case (Suc n)
  show ?case
  proof (cases "scheduler_wait now p = Due")
    case False
    then show ?thesis by (simp only: not_due_stops [OF False] not_False_eq_True)
  next
    case True
    let ?h = "op_heap p"
    have ne: "oh_arr ?h \<noteq> []" and top: "oh_prio (oh_view ?h) (oh_arr ?h ! 0) \<le> now"
      using True by (auto simp: scheduler_wait_def PollHeap_Peek_def next_of_view Let_def split: if_splits)
    obtain a h where pop: "heap_Pop OldHeap_if ?h = (a, h)" by (cases "heap_Pop OldHeap_if ?h")
    note D = due_after_pop [OF ne top pop]
    have less: "size (due_entries now h) \<le> n" using Suc.prems D(3) by simp
    have requeue: "size (due_entries now (heap_Push OldHeap_if a
        (oh_upd a (\<lambda>it. it\<lparr>oi_Polling := False, oi_NextPollMs := now + 10\<rparr>) h))) \<le> n"
      using size_mset_mono [OF due_repush [of now "now + 10" a False h]] less by simp
    show ?thesis
      using ne top pop less requeue by (auto simp: PollHeap_Peek_def next_of_view due_polling intro!: Suc.IH)
  qed
qed

lemma process_due_add: "process_due (m + n) now p = process_due n now (process_due m now p)"
proof (induction m arbitrary: p)
  case (Suc m)
  show ?case
  proof (cases "scheduler_wait now p = Due")
    case False
    then show ?thesis by (simp only: not_due_stops [OF False])
  next
    case True
    then obtain b where "PollHeap_Peek (op_heap p) = Some b" "\<not> oi_NextPollMs (oh_item (op_heap p) b) > now"
      by (auto simp: scheduler_wait_def Let_def split: option.splits if_splits)
    then show ?thesis by (simp add: Suc.IH split: prod.split)
  qed
qed simp

text \<open>C38: 
C1: A round of the old poller's scheduler ends: whatever heap it starts with, and with the queue of jobs full or not,
  the loop of processDueTargets stops after at most one turn per entry of the heap, further turns would change nothing,
  and no item at the top of the heap is due then, so the scheduler sleeps instead of starting another round at once.
\<close>

theorem round_ends:
  "scheduler_wait now (processDueTargets now p) \<noteq> Due \<and>
   process_due (length (oh_arr (op_heap p)) + k) now p = processDueTargets now p"
proof -
  have "size (due_entries now (op_heap p)) \<le> length (oh_arr (op_heap p))"
    using size_filter_mset_lesseq [of _ "mset (oh_arr (op_heap p))"] by (simp add: due_entries_def)
  then have w: "scheduler_wait now (processDueTargets now p) \<noteq> Due"
    unfolding processDueTargets_def by (rule enough_fuel)
  then show ?thesis
    using not_due_stops [OF w] by (simp add: process_due_add processDueTargets_def)
qed

text \<open>
  A target removed and added again while its old poll runs is pushed a second time when that poll ends, so the heap
  holds its item twice.
\<close>

lemma readded_target_twice:
  "(case AddTarget ''a'' 1000 0 0 (NewPoller 1 10) of None \<Rightarrow> False | Some p1 \<Rightarrow>
     (case AddTarget ''a'' 1000 0 20 (RemoveTarget ''a'' (processDueTargets 10 p1)) of None \<Rightarrow> False | Some p2 \<Rightarrow>
       oh_arr (op_heap (MarkPollComplete ''a'' 30 p2)) = [1, 1]))"
  by code_simp

section \<open>A result reaches its target\<close>

text \<open>A result that is delivered is the newest sample of its target.\<close>

lemma dispatched_is_newest:
  assumes "map_of (bs_targets (R (or_Valid r) srv)) (or_TargetID r) = Some t" "WriteSample (sample_of_result r) t = Some t'"
    "\<And>a b c s. bs_targets (U a b c s) = bs_targets s"
  obtains srv' ids where "dispatchSample R U r srv = Some (srv', ids)" "map_of (bs_targets srv') (or_TargetID r) = Some t'"
  using assms by (auto simp: dispatchSample_def Let_def)

text \<open>Every reading of a number gives a valid result, and no other variable but a string does.\<close>

lemma valid_readings: "or_Valid (old_read_variable v r) \<longleftrightarrow> (case v of Number _ \<Rightarrow> True | OctetString _ \<Rightarrow> True | _ \<Rightarrow> False)"
  by (simp add: old_read_variable_def split: variable.splits)

end
