(* ===== verification/ClientLib.thy ===== *)
theory ClientLib
  imports Prelude
begin

text \<open>
  The client library: internal/client/client.go, with the envelopes and error codes of internal/wire/wire.go.

  The message types are generated code: the contents that the client passes on unread are the type parameter \<open>'m\<close>.
  A channel of a request holds one envelope at most; it is an address in \<open>cl_chans\<close>. A connection and a \<open>shutdown\<close>
  channel are numbers, fresh for each one made. What the network answers is an argument. \<open>fmt.Errorf\<close> is read as text
  without verbs, so a percent sign in a message of the server is taken as it is.
\<close>

section \<open>Envelopes\<close>

datatype 'm Request =
    BrowseReq 'm | CreateTargetReq 'm | UpdateTargetReq 'm | DeleteTargetReq string bool | GetHistoryReq string "32 word"
  | SubscribeReq "string list" "string list" | UnsubscribeReq "string list" | GetConfigReq | SetConfigReq 'm

datatype 'm Response =
    BrowseResp 'm | CreateTargetResp 'm | UpdateTargetResp 'm | DeleteTargetResp 'm | GetHistoryResp 'm
  | SubscribeResp 'm | UnsubscribeResp 'm | GetConfigResp "'m option" | SetConfigResp 'm

datatype 'm Payload =
    AuthReq string
  | AuthResp bool string string
  | ErrorMsg int string
  | SampleMsg 'm
  | RequestMsg "'m Request"
  | ResponseMsg "'m Response"

record 'm Envelope =
  env_Id :: "64 word"
  env_Payload :: "'m Payload"

definition wire_NewError :: "64 word \<Rightarrow> int \<Rightarrow> string \<Rightarrow> 'm Envelope" where
  "wire_NewError rid code msg = \<lparr>env_Id = rid, env_Payload = ErrorMsg code msg\<rparr>"

text \<open>Reading and writing through package protodelim, whose results are arguments; the reader is given the largest size.\<close>

definition MaxMessageSize :: nat where
  "MaxMessageSize = 16 * 1024 * 1024"

definition wire_Read :: "(nat \<Rightarrow> 'm Envelope go) \<Rightarrow> 'm Envelope go" where
  "wire_Read UnmarshalFrom =
     (case UnmarshalFrom MaxMessageSize of
        Inl err \<Rightarrow> Inl (Errorf (''read envelope: '' @ error_msg err))
      | Inr env \<Rightarrow> Inr env)"

definition wire_Write :: "('m Envelope \<Rightarrow> gerror option) \<Rightarrow> 'm Envelope \<Rightarrow> gerror option" where
  "wire_Write MarshalTo env = map_option (\<lambda>err. Errorf (''write envelope: '' @ error_msg err)) (MarshalTo env)"

section \<open>The client\<close>

record 'm Client =
  cl_addr :: string
  cl_token :: string
  cl_tlsSkipVerify :: "bool option"
  cl_conn :: "nat option"
  cl_sessionID :: string
  cl_pending :: "(64 word, nat) gomap"
  cl_requestID :: "64 word"
  cl_onSample :: bool
  cl_connected :: bool
  cl_shutdown :: nat
  cl_chans :: "nat \<Rightarrow> 'm Envelope option"
  cl_next :: nat
  cl_closedConns :: "nat list"
  cl_closedChans :: "nat list"
  cl_nextConn :: nat
  cl_nextShutdown :: nat

record ClientConfig =
  cc_Addr :: string
  cc_Token :: string
  cc_TLS :: bool
  cc_TLSSkipVerify :: bool

definition client_New :: "ClientConfig \<Rightarrow> 'm Client" where
  "client_New cfg =
     \<lparr>cl_addr = cc_Addr cfg, cl_token = cc_Token cfg,
      cl_tlsSkipVerify = (if cc_TLS cfg then Some (cc_TLSSkipVerify cfg) else None),
      cl_conn = None, cl_sessionID = [], cl_pending = [], cl_requestID = 0, cl_onSample = False, cl_connected = False,
      cl_shutdown = 0, cl_chans = (\<lambda>_. None), cl_next = 0, cl_closedConns = [], cl_closedChans = [], cl_nextConn = 0,
      cl_nextShutdown = 1\<rparr>"

definition SessionID :: "'m Client \<Rightarrow> string" where
  "SessionID c = cl_sessionID c"

definition IsConnected :: "'m Client \<Rightarrow> bool" where
  "IsConnected c = cl_connected c"

definition OnSample :: "bool \<Rightarrow> 'm Client \<Rightarrow> 'm Client" where
  "OnSample fn c = c\<lparr>cl_onSample := fn\<rparr>"

text \<open>
  \<open>Connect\<close>: what dialling, sending and reading give are arguments. The answer of the server says whether the
  read loop was started.
\<close>

definition close_conn :: "nat \<Rightarrow> 'm Client \<Rightarrow> 'm Client" where
  "close_conn k c = c\<lparr>cl_closedConns := k # cl_closedConns c\<rparr>"

definition auth_request :: "'m Client \<Rightarrow> 'm Envelope" where
  "auth_request c = \<lparr>env_Id = 1, env_Payload = AuthReq (cl_token c)\<rparr>"

definition auth_failure :: "'m Payload \<Rightarrow> string option" where
  "auth_failure p =
     (case p of
        ErrorMsg code msg \<Rightarrow> Some (''auth error: '' @ msg)
      | AuthResp ok sid msg \<Rightarrow> (if ok then None else Some (if msg \<noteq> [] then msg else ''authentication failed''))
      | _ \<Rightarrow> Some ''authentication failed'')"

definition Connect ::
    "(bool option \<Rightarrow> string \<Rightarrow> gerror option) \<Rightarrow> ('m Envelope \<Rightarrow> gerror option) \<Rightarrow> 'm Envelope go \<Rightarrow> 'm Client \<Rightarrow> gerror option \<times> 'm Client" where
  "Connect dial wire_write answer c0 =
     (case dial (cl_tlsSkipVerify c0) (cl_addr c0) of
        Some err \<Rightarrow> (Some (Errorf (''dial: '' @ error_msg err)), c0)
      | None \<Rightarrow>
          (let k = cl_nextConn c0;
               c = c0\<lparr>cl_conn := Some k, cl_nextConn := k + 1\<rparr>
           in case wire_write (auth_request c) of
                Some err \<Rightarrow> (Some (Errorf (''send auth: '' @ error_msg err)), close_conn k c)
              | None \<Rightarrow>
                  (case answer of
                     Inl err \<Rightarrow> (Some (Errorf (''read auth response: '' @ error_msg err)), close_conn k c)
                   | Inr env \<Rightarrow>
                       (case auth_failure (env_Payload env) of
                          Some msg \<Rightarrow> (Some (Errorf msg), close_conn k c)
                        | None \<Rightarrow>
                            (case env_Payload env of
                               AuthResp _ sid _ \<Rightarrow> (None, c\<lparr>cl_sessionID := sid, cl_connected := True\<rparr>)
                             | _ \<Rightarrow> (None, c))))))"

definition client_Close :: "'m Client \<Rightarrow> 'm Client" where
  "client_Close c =
     (let c1 = c\<lparr>cl_connected := False\<rparr>;
          c2 = (if cl_shutdown c1 \<in> set (cl_closedChans c1) then c1 else c1\<lparr>cl_closedChans := cl_shutdown c1 # cl_closedChans c1\<rparr>)
      in case cl_conn c2 of None \<Rightarrow> c2 | Some k \<Rightarrow> close_conn k c2)"

definition Reconnect ::
    "(bool option \<Rightarrow> string \<Rightarrow> gerror option) \<Rightarrow> ('m Envelope \<Rightarrow> gerror option) \<Rightarrow> 'm Envelope go \<Rightarrow> 'm Client \<Rightarrow> gerror option \<times> 'm Client" where
  "Reconnect dial wire_write answer c =
     (let c1 = (case cl_conn c of None \<Rightarrow> c | Some k \<Rightarrow> close_conn k c);
          c2 = c1\<lparr>cl_pending := [], cl_shutdown := cl_nextShutdown c1, cl_nextShutdown := cl_nextShutdown c1 + 1\<rparr>
      in Connect dial wire_write answer c2)"

text \<open>One turn of \<open>readLoop\<close>: whether the loop goes on, and a sample handed to the handler.\<close>

definition read_turn :: "'m Envelope go \<Rightarrow> 'm Client \<Rightarrow> bool \<times> 'm option \<times> 'm Client" where
  "read_turn r c =
     (case r of
        Inl err \<Rightarrow> (False, None, c\<lparr>cl_connected := False\<rparr>)
      | Inr env \<Rightarrow>
          (case env_Payload env of
             SampleMsg sample \<Rightarrow> (True, (if cl_onSample c then Some sample else None), c)
           | _ \<Rightarrow>
               (case map_of (cl_pending c) (env_Id env) of
                  Some ch \<Rightarrow>
                    (True, None, if cl_chans c ch = None then c\<lparr>cl_chans := (cl_chans c)(ch := Some env)\<rparr> else c)
                | None \<Rightarrow> (True, None, c))))"

text \<open>
  \<open>request\<close>: registering; the deferred removal; what is made of an answer; and the \<open>select\<close>, in which time may run out
  at any moment. The thread evaluates \<open>c.shutdown\<close> when it enters the \<open>select\<close>.
\<close>

definition request_begin :: "'m Client \<Rightarrow> 64 word \<times> nat \<times> 'm Client" where
  "request_begin c =
     (let rid = cl_requestID c + 1; ch = cl_next c
      in (rid, ch, c\<lparr>cl_requestID := rid, cl_next := ch + 1, cl_chans := (cl_chans c)(ch := None), cl_pending := mput rid ch (cl_pending c)\<rparr>))"

definition request_end :: "64 word \<Rightarrow> 'm Client \<Rightarrow> 'm Client" where
  "request_end rid c = c\<lparr>cl_pending := mdel rid (cl_pending c)\<rparr>"

definition request_answer :: "'m Envelope \<Rightarrow> 'm Envelope go" where
  "request_answer resp =
     (case env_Payload resp of
        ErrorMsg code msg \<Rightarrow> Inl (Errorf (''error '' @ (if code < 0 then ''-'' else []) @ show_nat (nat \<bar>code\<bar>) @ '': '' @ msg))
      | _ \<Rightarrow> Inr resp)"

datatype select = Answered | TimedOut | ShutDown

definition request_select :: "select \<Rightarrow> nat \<Rightarrow> nat \<Rightarrow> 'm Client \<Rightarrow> ('m Envelope go \<times> 'm Client) option" where
  "request_select branch ch shutdown c =
     (case branch of
        Answered \<Rightarrow>
          (case cl_chans c ch of
             None \<Rightarrow> None
           | Some resp \<Rightarrow> Some (request_answer resp, c\<lparr>cl_chans := (cl_chans c)(ch := None)\<rparr>))
      | TimedOut \<Rightarrow> Some (Inl (Errorf ''timeout''), c)
      | ShutDown \<Rightarrow> (if shutdown \<in> set (cl_closedChans c) then Some (Inl (Errorf ''shutdown''), c) else None))"

section \<open>The methods\<close>

text \<open>A method sends a payload and takes its own kind of response out of the answer, nil for any other.\<close>

record ('m, 'a) api_call =
  md_Payload :: "'m Payload"
  md_Get :: "'m Payload \<Rightarrow> 'a"

definition method_result :: "('m, 'a) api_call \<Rightarrow> 'm Envelope go \<Rightarrow> 'a go" where
  "method_result md r = (case r of Inl err \<Rightarrow> Inl err | Inr resp \<Rightarrow> Inr (md_Get md (env_Payload resp)))"

definition Browse :: "'m \<Rightarrow> ('m, 'm option) api_call" where
  "Browse req = \<lparr>md_Payload = RequestMsg (BrowseReq req),
     md_Get = (\<lambda>p. case p of ResponseMsg (BrowseResp m) \<Rightarrow> Some m | _ \<Rightarrow> None)\<rparr>"

definition BrowsePath :: "(string \<Rightarrow> bool \<Rightarrow> 'm) \<Rightarrow> string \<Rightarrow> bool \<Rightarrow> ('m, 'm option) api_call" where
  "BrowsePath BrowseRequest path longFormat = Browse (BrowseRequest path longFormat)"

definition client_CreateTarget :: "'m \<Rightarrow> ('m, 'm option) api_call" where
  "client_CreateTarget req = \<lparr>md_Payload = RequestMsg (CreateTargetReq req),
     md_Get = (\<lambda>p. case p of ResponseMsg (CreateTargetResp m) \<Rightarrow> Some m | _ \<Rightarrow> None)\<rparr>"

definition client_UpdateTarget :: "'m \<Rightarrow> ('m, 'm option) api_call" where
  "client_UpdateTarget req = \<lparr>md_Payload = RequestMsg (UpdateTargetReq req),
     md_Get = (\<lambda>p. case p of ResponseMsg (UpdateTargetResp m) \<Rightarrow> Some m | _ \<Rightarrow> None)\<rparr>"

definition client_DeleteTarget :: "string \<Rightarrow> bool \<Rightarrow> ('m, 'm option) api_call" where
  "client_DeleteTarget targetID force = \<lparr>md_Payload = RequestMsg (DeleteTargetReq targetID force),
     md_Get = (\<lambda>p. case p of ResponseMsg (DeleteTargetResp m) \<Rightarrow> Some m | _ \<Rightarrow> None)\<rparr>"

definition GetHistory :: "string \<Rightarrow> 32 word \<Rightarrow> ('m, 'm option) api_call" where
  "GetHistory targetID lastN = \<lparr>md_Payload = RequestMsg (GetHistoryReq targetID lastN),
     md_Get = (\<lambda>p. case p of ResponseMsg (GetHistoryResp m) \<Rightarrow> Some m | _ \<Rightarrow> None)\<rparr>"

definition client_Subscribe :: "string list \<Rightarrow> string list \<Rightarrow> ('m, 'm option) api_call" where
  "client_Subscribe targetIDs tags = \<lparr>md_Payload = RequestMsg (SubscribeReq targetIDs tags),
     md_Get = (\<lambda>p. case p of ResponseMsg (SubscribeResp m) \<Rightarrow> Some m | _ \<Rightarrow> None)\<rparr>"

definition client_Unsubscribe :: "string list \<Rightarrow> ('m, 'm option) api_call" where
  "client_Unsubscribe targetIDs = \<lparr>md_Payload = RequestMsg (UnsubscribeReq targetIDs),
     md_Get = (\<lambda>p. case p of ResponseMsg (UnsubscribeResp m) \<Rightarrow> Some m | _ \<Rightarrow> None)\<rparr>"

definition client_GetConfig :: "('m, 'm option) api_call" where
  "client_GetConfig = \<lparr>md_Payload = RequestMsg GetConfigReq,
     md_Get = (\<lambda>p. case p of ResponseMsg (GetConfigResp m) \<Rightarrow> m | _ \<Rightarrow> None)\<rparr>"

definition client_SetConfig :: "'m \<Rightarrow> ('m, 'm option) api_call" where
  "client_SetConfig req = \<lparr>md_Payload = RequestMsg (SetConfigReq req),
     md_Get = (\<lambda>p. case p of ResponseMsg (SetConfigResp m) \<Rightarrow> Some m | _ \<Rightarrow> None)\<rparr>"

section \<open>Requests and read loops interleaved\<close>

text \<open>
  A request under way or over: its id, channel and shutdown channel, and its result once it has returned. \<open>rw_sent\<close>
  are the envelopes written, \<open>rw_received\<close> those the read loops have read, \<open>rw_loops\<close> the connections they read from.
\<close>

record 'm Thread =
  th_Payload :: "'m Payload"
  th_Id :: "64 word"
  th_Chan :: nat
  th_Written :: bool
  th_Shutdown :: nat
  th_Result :: "'m Envelope go option"

record 'm Run =
  rw_client :: "'m Client"
  rw_threads :: "'m Thread list"
  rw_sent :: "'m Envelope list"
  rw_received :: "'m Envelope list"
  rw_loops :: "nat list"

definition finish :: "nat \<Rightarrow> 'm Envelope go \<Rightarrow> 'm Client \<Rightarrow> 'm Run \<Rightarrow> 'm Run" where
  "finish k r c w =
     w\<lparr>rw_client := request_end (th_Id (rw_threads w ! k)) c,
       rw_threads := (rw_threads w)[k := (rw_threads w ! k)\<lparr>th_Result := Some r\<rparr>]\<rparr>"

definition loops_after :: "gerror option \<times> 'm Client \<Rightarrow> nat list \<Rightarrow> nat list" where
  "loops_after r loops = (case r of (None, c) \<Rightarrow> (case cl_conn c of Some k \<Rightarrow> k # loops | None \<Rightarrow> loops) | _ \<Rightarrow> loops)"

inductive client_step :: "'m Run \<Rightarrow> 'm Run \<Rightarrow> bool" where
  connect: "r = Connect dial wr answer (rw_client w) \<Longrightarrow>
     client_step w (w\<lparr>rw_client := snd r, rw_loops := loops_after r (rw_loops w)\<rparr>)"
| reconnect: "r = Reconnect dial wr answer (rw_client w) \<Longrightarrow>
     client_step w (w\<lparr>rw_client := snd r, rw_loops := loops_after r (rw_loops w)\<rparr>)"
| close: "client_step w (w\<lparr>rw_client := client_Close (rw_client w)\<rparr>)"
| on_sample: "client_step w (w\<lparr>rw_client := OnSample fn (rw_client w)\<rparr>)"
| begin_request: "request_begin (rw_client w) = (rid, ch, c) \<Longrightarrow> cl_conn c \<noteq> None \<Longrightarrow>
     client_step w (w\<lparr>rw_client := c,
       rw_threads := rw_threads w @ [\<lparr>th_Payload = p, th_Id = rid, th_Chan = ch, th_Written = False, th_Shutdown = cl_shutdown c, th_Result = None\<rparr>]\<rparr>)"
| written: "k < length (rw_threads w) \<Longrightarrow> \<not> th_Written (rw_threads w ! k) \<Longrightarrow> th_Result (rw_threads w ! k) = None \<Longrightarrow>
     client_step w (w\<lparr>rw_sent := rw_sent w @ [\<lparr>env_Id = th_Id (rw_threads w ! k), env_Payload = th_Payload (rw_threads w ! k)\<rparr>],
       rw_threads := (rw_threads w)[k := (rw_threads w ! k)\<lparr>th_Written := True, th_Shutdown := cl_shutdown (rw_client w)\<rparr>]\<rparr>)"
| write_failed: "k < length (rw_threads w) \<Longrightarrow> \<not> th_Written (rw_threads w ! k) \<Longrightarrow> th_Result (rw_threads w ! k) = None \<Longrightarrow>
     client_step w (finish k (Inl err) (rw_client w) w)"
| selected: "k < length (rw_threads w) \<Longrightarrow> th_Written (rw_threads w ! k) \<Longrightarrow> th_Result (rw_threads w ! k) = None \<Longrightarrow>
     request_select b (th_Chan (rw_threads w ! k)) (th_Shutdown (rw_threads w ! k)) (rw_client w) = Some (r, c) \<Longrightarrow>
     client_step w (finish k r c w)"
| received: "l \<in> set (rw_loops w) \<Longrightarrow> l \<notin> set (cl_closedConns (rw_client w)) \<Longrightarrow>
     read_turn (Inr env) (rw_client w) = (go_on, pushed, c) \<Longrightarrow> cl_conn c = Some l' \<Longrightarrow>
     client_step w (w\<lparr>rw_client := c, rw_received := rw_received w @ [env], rw_loops := l' # remove1 l (rw_loops w)\<rparr>)"
| read_failed: "l \<in> set (rw_loops w) \<Longrightarrow> read_turn (Inl err) (rw_client w) = (go_on, pushed, c) \<Longrightarrow>
     client_step w (w\<lparr>rw_client := c, rw_loops := remove1 l (rw_loops w)\<rparr>)"

inductive client_reach :: "ClientConfig \<Rightarrow> 'm Run \<Rightarrow> bool" for cfg where
  start: "client_reach cfg \<lparr>rw_client = client_New cfg, rw_threads = [], rw_sent = [], rw_received = [], rw_loops = []\<rparr>"
| step: "client_reach cfg w \<Longrightarrow> client_step w w' \<Longrightarrow> client_reach cfg w'"

section \<open>Every request gets its own answer\<close>

text \<open>Request \<open>k\<close> of a client has the id \<open>k + 1\<close> and channel \<open>k\<close>; what waits in a channel was read and carries that id.\<close>

abbreviation rid_of :: "nat \<Rightarrow> 64 word" where
  "rid_of k \<equiv> of_nat (Suc k)"

definition own_answer :: "'m Run \<Rightarrow> nat \<Rightarrow> 'm Envelope \<Rightarrow> bool" where
  "own_answer w k env \<longleftrightarrow> env_Id env = rid_of k \<and> env \<in> set (rw_received w) \<and> (\<forall>m. env_Payload env \<noteq> SampleMsg m)"

definition ids_ok :: "'m Client \<Rightarrow> 'm Thread list \<Rightarrow> bool" where
  "ids_ok c ths \<longleftrightarrow>
     cl_next c = length ths \<and> cl_requestID c = of_nat (length ths) \<and>
     (\<forall>k < length ths. th_Id (ths ! k) = rid_of k \<and> th_Chan (ths ! k) = k)"

definition pending_ok :: "'m Client \<Rightarrow> 'm Thread list \<Rightarrow> bool" where
  "pending_ok c ths \<longleftrightarrow>
     (\<forall>rid ch. map_of (cl_pending c) rid = Some ch \<longrightarrow> ch < length ths \<and> rid = rid_of ch \<and> th_Result (ths ! ch) = None)"

definition chans_ok :: "'m Run \<Rightarrow> bool" where
  "chans_ok w \<longleftrightarrow> (\<forall>ch env. cl_chans (rw_client w) ch = Some env \<longrightarrow> own_answer w ch env)"

definition results_ok :: "'m Run \<Rightarrow> bool" where
  "results_ok w \<longleftrightarrow>
     (\<forall>k < length (rw_threads w). \<forall>env. th_Result (rw_threads w ! k) = Some (Inr env) \<longrightarrow>
        own_answer w k env \<and> (\<forall>code msg. env_Payload env \<noteq> ErrorMsg code msg))"

definition sent_ok :: "'m Run \<Rightarrow> bool" where
  "sent_ok w \<longleftrightarrow> (\<forall>k < length (rw_threads w). th_Written (rw_threads w ! k) \<longrightarrow>
     \<lparr>env_Id = rid_of k, env_Payload = th_Payload (rw_threads w ! k)\<rparr> \<in> set (rw_sent w))"

definition run_inv :: "'m Run \<Rightarrow> bool" where
  "run_inv w \<longleftrightarrow> ids_ok (rw_client w) (rw_threads w) \<and> pending_ok (rw_client w) (rw_threads w) \<and> chans_ok w \<and> results_ok w \<and> sent_ok w"

lemmas run_inv_defs = run_inv_def ids_ok_def pending_ok_def chans_ok_def results_ok_def sent_ok_def

text \<open>Connecting, closing and setting the handler leave the requests alone; a reconnect forgets those pending.\<close>

definition same_requests :: "'m Client \<Rightarrow> 'm Client \<Rightarrow> bool" where
  "same_requests c c' \<longleftrightarrow> cl_next c' = cl_next c \<and> cl_requestID c' = cl_requestID c \<and> cl_chans c' = cl_chans c \<and>
     (cl_pending c' = cl_pending c \<or> cl_pending c' = [])"

lemma Connect_same: "same_requests c (snd (Connect dial wr answer c)) \<and> cl_pending (snd (Connect dial wr answer c)) = cl_pending c"
  by (simp add: Connect_def same_requests_def close_conn_def Let_def split: option.split sum.split Payload.split)

lemma Reconnect_same: "same_requests c (snd (Reconnect dial wr answer c))"
proof -
  let ?c1 = "case cl_conn c of None \<Rightarrow> c | Some k \<Rightarrow> close_conn k c"
  let ?c2 = "?c1\<lparr>cl_pending := [], cl_shutdown := cl_nextShutdown ?c1, cl_nextShutdown := cl_nextShutdown ?c1 + 1\<rparr>"
  have "same_requests c ?c2" by (simp add: same_requests_def close_conn_def split: option.split)
  moreover have "Reconnect dial wr answer c = Connect dial wr answer ?c2" by (simp add: Reconnect_def Let_def)
  ultimately show ?thesis using Connect_same [of ?c2 dial wr answer] by (auto simp: same_requests_def)
qed

lemma Close_same: "same_requests c (client_Close c)"
  by (simp add: same_requests_def client_Close_def close_conn_def Let_def split: option.split)

lemma same_keeps_inv:
  assumes "run_inv w" "same_requests (rw_client w) c"
  shows "run_inv (w\<lparr>rw_client := c, rw_loops := ls\<rparr>)" "run_inv (w\<lparr>rw_client := c\<rparr>)"
  using assms by (auto simp: run_inv_defs same_requests_def own_answer_def)

lemma begin_keeps_inv:
  assumes "run_inv w" "request_begin (rw_client w) = (rid, ch, c)"
  shows "run_inv (w\<lparr>rw_client := c,
    rw_threads := rw_threads w @ [\<lparr>th_Payload = p, th_Id = rid, th_Chan = ch, th_Written = False, th_Shutdown = d, th_Result = None\<rparr>]\<rparr>)"
  using assms by (auto simp: run_inv_defs own_answer_def request_begin_def Let_def nth_append less_Suc_eq split: if_splits)

lemma finish_keeps_inv:
  assumes w: "run_inv w" and k: "k < length (rw_threads w)"
    and c: "cl_next c = cl_next (rw_client w)" "cl_requestID c = cl_requestID (rw_client w)"
      "cl_pending c = cl_pending (rw_client w)" "\<forall>ch env. cl_chans c ch = Some env \<longrightarrow> cl_chans (rw_client w) ch = Some env"
    and r: "\<forall>env. r = Inr env \<longrightarrow> own_answer w k env \<and> (\<forall>code msg. env_Payload env \<noteq> ErrorMsg code msg)"
  shows "run_inv (finish k r c w)"
proof -
  have rid: "th_Id (rw_threads w ! k) = rid_of k" using w k by (simp add: run_inv_defs)
  have "chans_ok (finish k r c w)"
    using w c(4) unfolding run_inv_def chans_ok_def own_answer_def by (simp add: finish_def request_end_def) blast
  moreover have "ids_ok (rw_client (finish k r c w)) (rw_threads (finish k r c w))"
    using w k c(1,2) by (auto simp: run_inv_def ids_ok_def finish_def request_end_def nth_list_update)
  moreover have "pending_ok (rw_client (finish k r c w)) (rw_threads (finish k r c w))"
    using w c(3) rid k unfolding run_inv_def pending_ok_def finish_def request_end_def
    by (clarsimp simp: nth_list_update split: if_splits)
  moreover have "results_ok (finish k r c w)"
    using w k r by (auto simp: run_inv_def results_ok_def own_answer_def finish_def nth_list_update split: if_splits)
  moreover have "sent_ok (finish k r c w)"
    using w k by (auto simp: run_inv_def sent_ok_def finish_def nth_list_update split: if_splits)
  ultimately show ?thesis by (simp add: run_inv_def)
qed

lemma selected_answer:
  assumes "run_inv w" "request_select b k d (rw_client w) = Some (Inr env, c)"
  shows "own_answer w k env \<and> (\<forall>code msg. env_Payload env \<noteq> ErrorMsg code msg)"
  using assms by (auto simp: run_inv_defs request_select_def request_answer_def split: select.splits option.splits Payload.splits if_splits)

lemma select_frame:
  assumes "request_select b ch d c = Some (r, c')"
  shows "cl_next c' = cl_next c" "cl_requestID c' = cl_requestID c" "cl_pending c' = cl_pending c"
    "\<forall>x env. cl_chans c' x = Some env \<longrightarrow> cl_chans c x = Some env"
  using assms by (auto simp: request_select_def split: select.splits option.splits if_splits)

lemma read_keeps_inv:
  assumes "run_inv w" "read_turn (Inr env) (rw_client w) = (go_on, pushed, c)"
  shows "run_inv (w\<lparr>rw_client := c, rw_received := rw_received w @ [env], rw_loops := ls\<rparr>)"
  using assms by (auto simp: run_inv_defs own_answer_def read_turn_def split: Payload.splits option.splits if_splits)

lemma step_keeps_inv: "client_step w w' \<Longrightarrow> run_inv w \<Longrightarrow> run_inv w'"
proof (induction rule: client_step.induct)
  case (connect r dial wr answer w)
  show ?case unfolding connect(1) by (rule same_keeps_inv(1) [OF connect(2)]) (simp add: Connect_same)
next
  case (reconnect r dial wr answer w)
  show ?case unfolding reconnect(1) by (rule same_keeps_inv(1) [OF reconnect(2) Reconnect_same])
next
  case (close w)
  then show ?case by (rule same_keeps_inv) (rule Close_same)
next
  case (on_sample w fn)
  then show ?case by (rule same_keeps_inv) (simp add: OnSample_def same_requests_def)
next
  case (begin_request w rid ch c p)
  then show ?case by (blast intro: begin_keeps_inv)
next
  case (written k w)
  then show ?case by (auto simp: run_inv_defs own_answer_def nth_list_update)
next
  case (write_failed k w err)
  show ?case by (rule finish_keeps_inv [OF write_failed(4,1)]) auto
next
  case (selected k w b r c)
  have ch: "th_Chan (rw_threads w ! k) = k" using selected(1,5) by (simp add: run_inv_defs)
  note sel = selected(4) [unfolded ch]
  show ?case
    by (rule finish_keeps_inv [OF selected(5,1) select_frame [OF sel]]) (use selected_answer [OF selected(5)] sel in blast)+
next
  case (received l w env go_on pushed c l')
  then show ?case by (blast intro: read_keeps_inv)
next
  case (read_failed l w err go_on pushed c)
  then show ?case by (auto simp: read_turn_def run_inv_defs own_answer_def)
qed

lemma reach_inv: "client_reach cfg w \<Longrightarrow> run_inv w"
proof (induction rule: client_reach.induct)
  case start
  show ?case by (simp add: run_inv_defs client_New_def)
next
  case (step w w')
  then show ?case by (blast intro: step_keeps_inv)
qed

text \<open>
  The words up to the number of requests are different as long as they fit into 64 bits.
\<close>

lemma rid_of_inj: "j < n \<Longrightarrow> k < n \<Longrightarrow> n < 2 ^ 64 \<Longrightarrow> rid_of j = rid_of k \<longleftrightarrow> j = k"
  by (auto simp: word_of_nat_eq_iff take_bit_nat_eq_self simp del: of_nat_Suc)

lemma nothing_pending:
  assumes "pending_ok c ths" "\<forall>th \<in> set ths. th_Result th \<noteq> None"
  shows "cl_pending c = []"
proof (cases "cl_pending c")
  case (Cons e es)
  then have "map_of (cl_pending c) (fst e) = Some (snd e)" by (cases e) simp
  then have "snd e < length ths \<and> th_Result (ths ! snd e) = None" using assms(1) by (simp add: pending_ok_def)
  then show ?thesis using assms(2) by (metis nth_mem)
qed

text \<open>C39: 
C1: However requests, read loops, connects, reconnects and closes interleave, a request that returned an answer was
  written with its own id, and the answer was read from the server after, or before, with that id; it is neither a sample
  nor an error. Up to 2^64 - 1 requests no other request has that id, so nobody gets the answer to another's request;
  and when every request has returned, none is left in the pending map.
\<close>

theorem answers_reach_their_requests:
  assumes "client_reach cfg w" "length (rw_threads w) < 2 ^ 64"
  shows "(\<forall>k < length (rw_threads w). \<forall>env. th_Result (rw_threads w ! k) = Some (Inr env) \<longrightarrow>
      env \<in> set (rw_received w) \<and> (\<forall>j < length (rw_threads w). env_Id env = th_Id (rw_threads w ! j) \<longleftrightarrow> j = k) \<and>
      (\<forall>m. env_Payload env \<noteq> SampleMsg m) \<and> (\<forall>code msg. env_Payload env \<noteq> ErrorMsg code msg)) \<and>
    (\<forall>k < length (rw_threads w). th_Written (rw_threads w ! k) \<longrightarrow>
      \<lparr>env_Id = th_Id (rw_threads w ! k), env_Payload = th_Payload (rw_threads w ! k)\<rparr> \<in> set (rw_sent w)) \<and>
    ((\<forall>th \<in> set (rw_threads w). th_Result th \<noteq> None) \<longrightarrow> cl_pending (rw_client w) = [])"
proof (intro conjI)
  have inv: "run_inv w" using assms(1) by (rule reach_inv)
  have ids: "th_Id (rw_threads w ! j) = rid_of j" if "j < length (rw_threads w)" for j
    using inv that by (simp add: run_inv_defs)
  show "\<forall>k < length (rw_threads w). \<forall>env. th_Result (rw_threads w ! k) = Some (Inr env) \<longrightarrow>
      env \<in> set (rw_received w) \<and> (\<forall>j < length (rw_threads w). env_Id env = th_Id (rw_threads w ! j) \<longleftrightarrow> j = k) \<and>
      (\<forall>m. env_Payload env \<noteq> SampleMsg m) \<and> (\<forall>code msg. env_Payload env \<noteq> ErrorMsg code msg)"
    using inv ids rid_of_inj [OF _ _ assms(2)] unfolding run_inv_def results_ok_def own_answer_def
    by (metis (no_types, lifting))
  show "\<forall>k < length (rw_threads w). th_Written (rw_threads w ! k) \<longrightarrow>
      \<lparr>env_Id = th_Id (rw_threads w ! k), env_Payload = th_Payload (rw_threads w ! k)\<rparr> \<in> set (rw_sent w)"
    using inv ids by (simp add: run_inv_def sent_ok_def)
  show "(\<forall>th \<in> set (rw_threads w). th_Result th \<noteq> None) \<longrightarrow> cl_pending (rw_client w) = []"
    using nothing_pending [of "rw_client w" "rw_threads w"] inv by (simp add: run_inv_def)
qed

text \<open>
  A reconnect forgets the requests under way and does not close the channel they listen on, so they wait for their
  timeout; neither does a lost connection wake them. After \<open>Close\<close>, \<open>Connect\<close> leaves that channel closed, so every
  later request may return \<open>shutdown\<close> at once.
\<close>

lemma reconnect_leaves_waiting:
  "cl_pending (snd (Reconnect dial wr answer c)) = []"
  "cl_closedChans (snd (Reconnect dial wr answer c)) = cl_closedChans c"
  by (simp_all add: Reconnect_def Connect_def close_conn_def Let_def split: option.split sum.split Payload.split)

lemma lost_connection_leaves_waiting:
  "read_turn (Inl err) c = (go_on, pushed, c') \<Longrightarrow> cl_chans c' = cl_chans c \<and> cl_closedChans c' = cl_closedChans c"
  by (auto simp: read_turn_def)

lemma connect_after_close_stays_shut:
  "request_select ShutDown ch (cl_shutdown c') c' = Some (Inl (Errorf ''shutdown''), c')"
  if "c' = snd (Connect dial wr answer (client_Close c))"
  unfolding that
  by (simp add: request_select_def Connect_def client_Close_def close_conn_def Let_def split: option.split sum.split Payload.split)

text \<open>A run of one request: it connects, sends, and takes the answer with its id.\<close>

definition ex_cfg :: ClientConfig where
  "ex_cfg = \<lparr>cc_Addr = ''h:1'', cc_Token = ''t'', cc_TLS = False, cc_TLSSkipVerify = False\<rparr>"

definition ex_answer :: "unit Envelope" where
  "ex_answer = \<lparr>env_Id = 1, env_Payload = ResponseMsg (BrowseResp ())\<rparr>"

definition ex_connected :: "unit Client" where
  "ex_connected = snd (Connect (\<lambda>_ _. None) (\<lambda>_. None) (Inr \<lparr>env_Id = 1, env_Payload = AuthResp True ''s'' []\<rparr>) (client_New ex_cfg))"

definition ex_waiting :: "bool \<Rightarrow> unit Envelope go option \<Rightarrow> unit Thread" where
  "ex_waiting wr r = \<lparr>th_Payload = md_Payload (Browse ()), th_Id = 1, th_Chan = 0, th_Written = wr, th_Shutdown = 0, th_Result = r\<rparr>"

lemma ex_run:
  obtains w :: "unit Run" where "client_reach ex_cfg w" "map th_Result (rw_threads w) = [Some (Inr ex_answer)]"
proof -
  let ?w0 = "\<lparr>rw_client = client_New ex_cfg, rw_threads = [], rw_sent = [], rw_received = [], rw_loops = []\<rparr> :: unit Run"
  let ?c1 = ex_connected
  let ?w1 = "?w0\<lparr>rw_client := ?c1, rw_loops := [0]\<rparr>"
  let ?c2 = "snd (snd (request_begin ?c1))"
  let ?w2 = "?w1\<lparr>rw_client := ?c2, rw_threads := [ex_waiting False None]\<rparr>"
  let ?w3 = "?w2\<lparr>rw_threads := [ex_waiting True None], rw_sent := [\<lparr>env_Id = 1, env_Payload = md_Payload (Browse ())\<rparr>]\<rparr>"
  let ?c4 = "snd (snd (read_turn (Inr ex_answer) ?c2))"
  let ?w4 = "?w3\<lparr>rw_client := ?c4, rw_received := [ex_answer], rw_loops := [0]\<rparr>"
  let ?w5 = "finish 0 (Inr ex_answer) (?c4\<lparr>cl_chans := (cl_chans ?c4)(0 := None)\<rparr>) ?w4"
  note d = ex_connected_def Connect_def auth_failure_def client_New_def ex_cfg_def request_begin_def read_turn_def ex_answer_def
    ex_waiting_def loops_after_def request_select_def request_answer_def
  have s1: "client_step ?w0 ?w1"
    using client_step.connect [OF refl, of ?w0 "\<lambda>_ _. None" "\<lambda>_. None" "Inr \<lparr>env_Id = 1, env_Payload = AuthResp True ''s'' []\<rparr>"]
    by (simp add: d Let_def)
  have s2: "client_step ?w1 ?w2"
    using client_step.begin_request [of ?w1 1 0 ?c2 "md_Payload (Browse ())"] by (simp add: d Let_def)
  have s3: "client_step ?w2 ?w3"
    using client_step.written [of 0 ?w2] by (simp add: d Let_def)
  have s4: "client_step ?w3 ?w4"
    using client_step.received [of 0 ?w3 ex_answer True None ?c4 0] by (simp add: d Let_def)
  have s5: "client_step ?w4 ?w5"
    by (rule client_step.selected [where b = Answered]) (simp_all add: d Let_def)
  have "client_reach ex_cfg ?w5"
    using client_reach.step [OF client_reach.step [OF client_reach.step [OF client_reach.step [OF client_reach.step
      [OF client_reach.start s1] s2] s3] s4] s5] .
  moreover have "map th_Result (rw_threads ?w5) = [Some (Inr ex_answer)]" by (simp add: finish_def)
  ultimately show thesis by (rule that)
qed

lemma answers_reach_their_requests_witness:
  "\<exists>w. client_reach ex_cfg w \<and> map th_Result (rw_threads w) = [Some (Inr ex_answer)] \<and> ex_answer \<in> set (rw_received w)
     \<and> cl_pending (rw_client w) = []"
proof -
  obtain w where w: "client_reach ex_cfg w" "map th_Result (rw_threads w) = [Some (Inr ex_answer)]" by (rule ex_run)
  then obtain th where th: "rw_threads w = [th]" "th_Result th = Some (Inr ex_answer)" by auto
  have "length (rw_threads w) < 2 ^ 64" by (simp add: th)
  note t = answers_reach_their_requests [OF w(1) this]
  show ?thesis using w t th by auto
qed

end
