(* ===== verification/Loader.thy ===== *)
theory Loader
  imports Tenants ConfigFile
begin

text \<open>
  The configuration loader of internal/loader/loader.go: reading the file and its includes, and applying it through the
  managers.

  The file does not compile against the rest of the repository: \<open>store.Poller\<close> has no fields for the polling settings and
  \<open>TreeManager\<close> no method \<open>Create\<close>. These two are arguments (\<open>le_polling\<close>, \<open>le_create\<close>), as are YAML, JSON, globbing, the
  clock and the nonces. A map entry without a body is a nil pointer, \<open>None\<close>; reading through it is a panic, the
  result \<open>None\<close>.
\<close>

section \<open>The configuration\<close>

record LSNMPV3Defaults =
  l3_SecurityName :: string
  l3_SecurityLevel :: string
  l3_AuthProtocol :: string
  l3_AuthPassword :: string
  l3_PrivProtocol :: string
  l3_PrivPassword :: string

record LSNMPDefaults =
  lsn_Community :: string
  lsn_V3 :: "LSNMPV3Defaults option"

record LDefaults =
  ld_IntervalMs :: "32 word"
  ld_TimeoutMs :: "32 word"
  ld_Retries :: "32 word"
  ld_BufferSize :: "32 word"
  ld_SNMP :: "LSNMPDefaults option"

record 'c LPoller =
  lp_Description :: string
  lp_Protocol :: string
  lp_Config :: 'c
  lp_IntervalMs :: "32 word"
  lp_TimeoutMs :: "32 word"
  lp_Retries :: "32 word"
  lp_BufferSize :: "32 word"
  lp_AdminState :: string

record 'c LTarget =
  lt_Description :: string
  lt_Labels :: "(string, string) gomap"
  lt_Defaults :: "LDefaults option"
  lt_Pollers :: "(string, 'c LPoller option) gomap"

record LLink =
  ll_Name :: string
  ll_Type :: string
  ll_Ref :: string

datatype LTree = LTree string "(string \<times> LTree option) list" "LLink list"

record LSecret =
  lz_Type :: string
  lz_Value :: string

record 'c LNamespace =
  ln_Description :: string
  ln_Defaults :: "LDefaults option"
  ln_Targets :: "(string, 'c LTarget option) gomap"
  ln_Tree :: "(string, LTree option) gomap"
  ln_Secrets :: "(string, LSecret option) gomap"

record LToken =
  lo_ID :: string
  lo_Token :: string
  lo_Namespaces :: "string list"

record 'c LConfig =
  lc_Listen :: string
  lc_CertFile :: string
  lc_KeyFile :: string
  lc_Tokens :: "LToken list"
  lc_AuthTimeoutSec :: int
  lc_ReconnectWindowSec :: int
  lc_Workers :: int
  lc_QueueSize :: int
  lc_DBPath :: string
  lc_SecretKeyPath :: string
  lc_TimeoutMs :: "32 word"
  lc_Retries :: "32 word"
  lc_IntervalMs :: "32 word"
  lc_BufferSize :: "32 word"
  lc_Namespaces :: "(string, 'c LNamespace option) gomap"
  lc_Include :: "string list"

section \<open>Reading\<close>

record 'c files =
  fs_read :: "string \<Rightarrow> string go"
  fs_glob :: "string \<Rightarrow> string list go"
  fs_getenv :: "string \<Rightarrow> string"
  fs_yaml :: "string \<Rightarrow> 'c LConfig go"
  fs_yamlNamespaces :: "string \<Rightarrow> (string, 'c LNamespace option) gomap go"

definition filepath_Dir :: "string \<Rightarrow> string" where
  "filepath_Dir p = path_Clean (rev (dropWhile (\<lambda>c. c \<noteq> CHR ''/'') (rev p)))"

definition loadNamespaceFile :: "'c files \<Rightarrow> string \<Rightarrow> (string, 'c LNamespace option) gomap go" where
  "loadNamespaceFile fs path =
     (case fs_read fs path of
        Inl err \<Rightarrow> Inl err
      | Inr data \<Rightarrow> fs_yamlNamespaces fs (ExpandEnv (fs_getenv fs) data))"

fun load_matches :: "'c files \<Rightarrow> string list \<Rightarrow> 'c LConfig \<Rightarrow> 'c LConfig go" where
  "load_matches fs [] cfg = Inr cfg"
| "load_matches fs (match # matches) cfg =
     (case loadNamespaceFile fs match of
        Inl err \<Rightarrow> Inl (wrap_err (''load '' @ match) err)
      | Inr nsCfg \<Rightarrow>
          load_matches fs matches (cfg\<lparr>lc_Namespaces := foldl (\<lambda>m (name, ns). mput name ns m) (lc_Namespaces cfg) nsCfg\<rparr>))"

fun load_includes :: "'c files \<Rightarrow> string \<Rightarrow> string list \<Rightarrow> 'c LConfig \<Rightarrow> 'c LConfig go" where
  "load_includes fs baseDir [] cfg = Inr cfg"
| "load_includes fs baseDir (inc # incs) cfg =
     (let incPath = (if \<not> has_prefix inc ''/'' then path_Join baseDir inc else inc) in
      case fs_glob fs incPath of
        Inl err \<Rightarrow> Inl (wrap_err (''glob '' @ inc) err)
      | Inr matches \<Rightarrow>
          (case load_matches fs matches cfg of
             Inl err \<Rightarrow> Inl err
           | Inr cfg' \<Rightarrow> load_includes fs baseDir incs cfg'))"

definition loader_Load :: "'c files \<Rightarrow> string \<Rightarrow> 'c LConfig go" where
  "loader_Load fs path =
     (case fs_read fs path of
        Inl err \<Rightarrow> Inl (wrap_err ''read config'' err)
      | Inr data \<Rightarrow>
          (case fs_yaml fs (ExpandEnv (fs_getenv fs) data) of
             Inl err \<Rightarrow> Inl (wrap_err ''parse config'' err)
           | Inr cfg \<Rightarrow> load_includes fs (filepath_Dir path) (lc_Include cfg) cfg))"

section \<open>Applying\<close>

record LinkNode =
  lk_Namespace :: string
  lk_Path :: string
  lk_Name :: string
  lk_Type :: string
  lk_LinkType :: string
  lk_LinkTarget :: string
  lk_LinkPoller :: string

text \<open>\<open>le_clock ids k\<close> is the \<open>k\<close>-th reading of the clock for the object named by \<open>ids\<close>.\<close>

record 'c loader_env =
  le_marshal :: "'c \<Rightarrow> string go"
  le_polling :: "32 word \<Rightarrow> 32 word \<Rightarrow> 32 word \<Rightarrow> 32 word \<Rightarrow> Poller \<Rightarrow> Poller"
  le_create :: "LinkNode \<Rightarrow> Manager \<Rightarrow> unit go \<times> Manager"
  le_seal :: seal
  le_nonce :: "string list \<Rightarrow> string"
  le_clock :: "string list \<Rightarrow> nat \<Rightarrow> int"

record ApplyResult =
  ar_NamespacesCreated :: nat
  ar_TargetsCreated :: nat
  ar_PollersCreated :: nat
  ar_TreeNodesCreated :: nat
  ar_SecretsCreated :: nat
  ar_Errors :: "string list"

type_synonym loading = "ApplyResult \<times> Manager"
type_synonym loaded = "(gerror option \<times> loading) option"

definition add_error :: "string \<Rightarrow> loading \<Rightarrow> loading" where
  "add_error msg st = (case st of (res, m) \<Rightarrow> (res\<lparr>ar_Errors := ar_Errors res @ [msg]\<rparr>, m))"

text \<open>Calls into the managers.\<close>

definition mgr_ns :: "(NamespaceManager \<Rightarrow> Store \<Rightarrow> 'a \<times> NamespaceManager \<times> Store) \<Rightarrow> Manager \<Rightarrow> 'a \<times> Manager" where
  "mgr_ns f m = (case f (mg_Namespaces m) (mg_store m) of (r, ns, s) \<Rightarrow> (r, set_store s (m\<lparr>mg_Namespaces := ns\<rparr>)))"

definition mgr_targets :: "(TargetManager \<Rightarrow> Store \<Rightarrow> 'a \<times> TargetManager \<times> Store) \<Rightarrow> Manager \<Rightarrow> 'a \<times> Manager" where
  "mgr_targets f m = (case f (mg_Targets m) (mg_store m) of (r, ts, s) \<Rightarrow> (r, set_store s (m\<lparr>mg_Targets := ts\<rparr>)))"

definition mgr_tree :: "(TreeManager \<Rightarrow> Store \<Rightarrow> 'a \<times> TreeManager \<times> Store) \<Rightarrow> Manager \<Rightarrow> 'a \<times> Manager" where
  "mgr_tree f m = (case f (mg_Tree m) (mg_store m) of (r, t, s) \<Rightarrow> (r, set_store s (m\<lparr>mg_Tree := t\<rparr>)))"

definition mgr_sql :: "'a sql \<Rightarrow> Manager \<Rightarrow> 'a go \<times> Manager" where
  "mgr_sql f m = (case f (mg_store m) of (r, s) \<Rightarrow> (r, set_store s m))"

text \<open>A loop that notes the errors of its entries and goes on.\<close>

fun load_each :: "(string \<Rightarrow> 'a \<Rightarrow> loading \<Rightarrow> loaded) \<Rightarrow> (string \<Rightarrow> string) \<Rightarrow> (string \<times> 'a) list \<Rightarrow> loading \<Rightarrow> loading option" where
  "load_each f what [] st = Some st"
| "load_each f what ((k, x) # xs) st =
     (case f k x st of
        None \<Rightarrow> None
      | Some (None, st') \<Rightarrow> load_each f what xs st'
      | Some (Some err, st') \<Rightarrow> load_each f what xs (add_error (what k @ '': '' @ error_msg err) st'))"

definition positive :: "32 word \<Rightarrow> 32 word option" where
  "positive w = (if w > 0 then Some w else None)"

definition defaults_of :: "LDefaults \<Rightarrow> PollerDefaults" where
  "defaults_of d =
     \<lparr>d_SNMPCommunity = (case ld_SNMP d of None \<Rightarrow> None | Some s \<Rightarrow> if lsn_Community s \<noteq> [] then Some (lsn_Community s) else None),
      d_SNMPv3 = None, d_IntervalMs = positive (ld_IntervalMs d), d_TimeoutMs = positive (ld_TimeoutMs d),
      d_Retries = positive (ld_Retries d), d_BufferSize = positive (ld_BufferSize d)\<rparr>"

text \<open>
  Creating an object or, when that fails and it is there, updating it with the version it has. The result says whether
  it was created. The update gets the object of the configuration again, which a failed \<open>Create\<close> leaves as it is.
\<close>

definition upsert ::
    "(Manager \<Rightarrow> 'a go \<times> Manager) \<Rightarrow> (Manager \<Rightarrow> 'a option go \<times> Manager) \<Rightarrow> ('a \<Rightarrow> Manager \<Rightarrow> 'a go \<times> Manager) \<Rightarrow> string \<Rightarrow>
     Manager \<Rightarrow> bool go \<times> Manager" where
  "upsert create get_old update what m =
     (case create m of
        (Inr _, m1) \<Rightarrow> (Inr True, m1)
      | (Inl err, m1) \<Rightarrow>
          (case get_old m1 of
             (Inr (Some existing), m2) \<Rightarrow>
               (case update existing m2 of
                  (Inl err', m3) \<Rightarrow> (Inl (wrap_err (''update'' @ what) err'), m3)
                | (Inr _, m3) \<Rightarrow> (Inr False, m3))
           | (_, m2) \<Rightarrow> (Inl (wrap_err (''create'' @ what) err), m2)))"

definition poller_of :: "'c loader_env \<Rightarrow> string \<Rightarrow> string \<Rightarrow> string \<Rightarrow> 'c LPoller \<Rightarrow> string \<Rightarrow> Poller" where
  "poller_of env namespace target name cfg jsonConfig =
     (let adminState = (if lp_AdminState cfg = ''enabled'' then ''enabled'' else ''disabled'');
          protocol = (if lp_Protocol cfg = [] then ''snmp'' else lp_Protocol cfg)
      in le_polling env (lp_IntervalMs cfg) (lp_TimeoutMs cfg) (lp_Retries cfg) (lp_BufferSize cfg)
           \<lparr>p_Namespace = namespace, p_Target = target, p_Name = name, p_Description = lp_Description cfg,
            p_Protocol = protocol, p_ProtocolConfig = jsonConfig, p_PollingConfig = None, p_AdminState = adminState,
            p_CreatedAt = 0, p_UpdatedAt = 0, p_Version = 0\<rparr>)"

definition put_poller :: "'c loader_env \<Rightarrow> string \<Rightarrow> string \<Rightarrow> string \<Rightarrow> Poller \<Rightarrow> Manager \<Rightarrow> bool go \<times> Manager" where
  "put_poller env namespace target name poller =
     (let now = le_clock env [namespace, target, name] in
      upsert (on_pollers (pm_Create (now 0) poller)) (on_pollers (pm_Get namespace target name))
        (\<lambda>existing. on_pollers (pm_Update (now 1) (now 2) (poller\<lparr>p_Version := p_Version existing\<rparr>))) [])"

definition applyPoller :: "'c loader_env \<Rightarrow> string \<Rightarrow> string \<Rightarrow> string \<Rightarrow> 'c LPoller option \<Rightarrow> loading \<Rightarrow> loaded" where
  "applyPoller env namespace target name cfg0 st =
     (case cfg0 of
        None \<Rightarrow> None
      | Some cfg \<Rightarrow>
          (case le_marshal env (lp_Config cfg) of
             Inl err \<Rightarrow> Some (Some (wrap_err ''json marshal'' err), st)
           | Inr jsonConfig \<Rightarrow>
               (case put_poller env namespace target name (poller_of env namespace target name cfg jsonConfig) (snd st) of
                  (Inl err, m) \<Rightarrow> Some (Some err, (fst st, m))
                | (Inr created, m) \<Rightarrow>
                    Some (None, (if created then (fst st)\<lparr>ar_PollersCreated := ar_PollersCreated (fst st) + 1\<rparr> else fst st, m)))))"

definition target_of :: "string \<Rightarrow> string \<Rightarrow> 'c LTarget \<Rightarrow> Target" where
  "target_of namespace name cfg =
     \<lparr>t_Namespace = namespace, t_Name = name, t_Description = lt_Description cfg, t_Labels = lt_Labels cfg,
      t_Config = map_option (\<lambda>d. \<lparr>tc_Defaults = Some (defaults_of d)\<rparr>) (lt_Defaults cfg),
      t_CreatedAt = 0, t_UpdatedAt = 0, t_Version = 0\<rparr>"

definition put_target :: "'c loader_env \<Rightarrow> string \<Rightarrow> string \<Rightarrow> Target \<Rightarrow> Manager \<Rightarrow> bool go \<times> Manager" where
  "put_target env namespace name target =
     (let now = le_clock env [namespace, name] in
      upsert (mgr_targets (tm_Create (now 0) (now 1) target)) (mgr_targets (tm_Get namespace name))
        (\<lambda>existing. mgr_targets (tm_Update (now 2) (now 3) (target\<lparr>t_Version := t_Version existing\<rparr>))) [])"

definition applyTarget :: "'c loader_env \<Rightarrow> string \<Rightarrow> string \<Rightarrow> 'c LTarget option \<Rightarrow> loading \<Rightarrow> loaded" where
  "applyTarget env namespace name cfg0 st =
     (case cfg0 of
        None \<Rightarrow> None
      | Some cfg \<Rightarrow>
          (case put_target env namespace name (target_of namespace name cfg) (snd st) of
             (Inl err, m) \<Rightarrow> Some (Some err, (fst st, m))
           | (Inr created, m) \<Rightarrow>
               map_option (Pair None)
                 (load_each (applyPoller env namespace name) (\<lambda>k. ''poller '' @ namespace @ ''/'' @ name @ ''/'' @ k) (lt_Pollers cfg)
                    (if created then (fst st)\<lparr>ar_TargetsCreated := ar_TargetsCreated (fst st) + 1\<rparr> else fst st, m))))"

definition link_node :: "string \<Rightarrow> string \<Rightarrow> LLink \<Rightarrow> LinkNode" where
  "link_node namespace path link =
     (let linkType = (if ll_Type link = [] then ''target'' else ll_Type link);
          (targetRef, pollerRef) =
            (if linkType = ''poller'' \<and> CHR ''/'' \<in> set (ll_Ref link) then
               (let parts = split_n (CHR ''/'') 2 (ll_Ref link) in (parts ! 0, parts ! 1))
             else (ll_Ref link, []))
      in \<lparr>lk_Namespace = namespace, lk_Path = path @ ''/'' @ ll_Name link, lk_Name = ll_Name link, lk_Type = ''link'',
          lk_LinkType = linkType, lk_LinkTarget = targetRef, lk_LinkPoller = pollerRef\<rparr>)"

definition apply_link :: "'c loader_env \<Rightarrow> string \<Rightarrow> string \<Rightarrow> loading \<Rightarrow> LLink \<Rightarrow> loading" where
  "apply_link env namespace path st link =
     (case st of (res, m) \<Rightarrow>
        (case le_create env (link_node namespace path link) m of
           (Inr _, m1) \<Rightarrow> (res\<lparr>ar_TreeNodesCreated := ar_TreeNodesCreated res + 1\<rparr>, m1)
         | (Inl err, m1) \<Rightarrow>
             (if contains (error_msg err) ''exists'' then (res, m1)
              else add_error (''link '' @ path @ ''/'' @ ll_Name link @ '': '' @ error_msg err) (res, m1))))"

fun applyTreeNode :: "'c loader_env \<Rightarrow> string \<Rightarrow> string \<Rightarrow> LTree \<Rightarrow> loading \<Rightarrow> loaded"
  and applyChildren :: "'c loader_env \<Rightarrow> string \<Rightarrow> string \<Rightarrow> (string \<times> LTree option) list \<Rightarrow> loading \<Rightarrow> loading option" where
  "applyTreeNode env namespace path (LTree description children links) st =
     (case mgr_tree (tree_CreateDirectory (le_clock env [namespace, path] 0) namespace path description) (snd st) of
        (r, m1) \<Rightarrow>
          (case r of
             Inl err \<Rightarrow>
               (if contains (error_msg err) ''exists''
                then map_option (Pair None) (applyChildren env namespace path children (foldl (apply_link env namespace path) (fst st, m1) links))
                else Some (Some (wrap_err ''create directory'' err), (fst st, m1)))
           | Inr _ \<Rightarrow>
               map_option (Pair None) (applyChildren env namespace path children
                 (foldl (apply_link env namespace path) ((fst st)\<lparr>ar_TreeNodesCreated := ar_TreeNodesCreated (fst st) + 1\<rparr>, m1) links))))"
| "applyChildren env namespace path [] st = Some st"
| "applyChildren env namespace path ((childName, None) # rest) st = None"
| "applyChildren env namespace path ((childName, Some childNode) # rest) st =
     (case applyTreeNode env namespace (path @ ''/'' @ childName) childNode st of
        None \<Rightarrow> None
      | Some (None, st') \<Rightarrow> applyChildren env namespace path rest st'
      | Some (Some err, st') \<Rightarrow>
          applyChildren env namespace path rest (add_error (''child '' @ path @ ''/'' @ childName @ '': '' @ error_msg err) st'))"

definition apply_tree_entry :: "'c loader_env \<Rightarrow> string \<Rightarrow> string \<Rightarrow> LTree option \<Rightarrow> loading \<Rightarrow> loaded" where
  "apply_tree_entry env namespace path node st =
     (case node of None \<Rightarrow> None | Some n \<Rightarrow> applyTreeNode env namespace (''/'' @ path) n st)"

definition apply_secret :: "'c loader_env \<Rightarrow> string \<Rightarrow> string \<Rightarrow> LSecret option \<Rightarrow> loading \<Rightarrow> loaded" where
  "apply_secret env namespace name cfg st =
     (case cfg of
        None \<Rightarrow> None
      | Some z \<Rightarrow>
          (case mgr_sql (CreateSecret (le_seal env) (le_nonce env [namespace, name]) (le_clock env [namespace, ''secret'', name] 0)
                   namespace name (lz_Type z) (lz_Value z)) (snd st) of
             (Inl err, m) \<Rightarrow> Some (Some err, (fst st, m))
           | (Inr _, m) \<Rightarrow> Some (None, ((fst st)\<lparr>ar_SecretsCreated := ar_SecretsCreated (fst st) + 1\<rparr>, m))))"

text \<open>What follows once the namespace is there: secrets, targets, tree.\<close>

definition apply_contents :: "'c loader_env \<Rightarrow> string \<Rightarrow> 'c LNamespace \<Rightarrow> loading \<Rightarrow> loaded" where
  "apply_contents env name cfg st =
     (case load_each (apply_secret env name) (\<lambda>k. ''secret '' @ name @ ''/'' @ k) (ln_Secrets cfg) st of
        None \<Rightarrow> None
      | Some st1 \<Rightarrow>
          (case load_each (applyTarget env name) (\<lambda>k. ''target '' @ name @ ''/'' @ k) (ln_Targets cfg) st1 of
             None \<Rightarrow> None
           | Some st2 \<Rightarrow>
               map_option (Pair None) (load_each (apply_tree_entry env name) (\<lambda>k. ''tree '' @ name @ ''/'' @ k) (ln_Tree cfg) st2)))"

definition namespace_of :: "string \<Rightarrow> 'c LNamespace \<Rightarrow> Namespace" where
  "namespace_of name cfg =
     \<lparr>ns_Name = name, ns_Description = ln_Description cfg,
      ns_Config = map_option (\<lambda>d. \<lparr>nc_Defaults = Some (defaults_of d)\<rparr>) (ln_Defaults cfg),
      ns_CreatedAt = 0, ns_UpdatedAt = 0, ns_Version = 0\<rparr>"

definition put_namespace :: "'c loader_env \<Rightarrow> string \<Rightarrow> Namespace \<Rightarrow> Manager \<Rightarrow> bool go \<times> Manager" where
  "put_namespace env name ns =
     (let now = le_clock env [name] in
      upsert (mgr_ns (nsm_Create (now 0) (now 1) ns)) (mgr_ns (nsm_Get name))
        (\<lambda>existing. mgr_ns (nsm_Update (now 2) (now 3) (ns\<lparr>ns_Version := ns_Version existing\<rparr>))) '' namespace'')"

definition applyNamespace :: "'c loader_env \<Rightarrow> string \<Rightarrow> 'c LNamespace option \<Rightarrow> loading \<Rightarrow> loaded" where
  "applyNamespace env name cfg0 st =
     (case cfg0 of
        None \<Rightarrow> None
      | Some cfg \<Rightarrow>
          (case put_namespace env name (namespace_of name cfg) (snd st) of
             (Inl err, m) \<Rightarrow> Some (Some err, (fst st, m))
           | (Inr created, m) \<Rightarrow>
               apply_contents env name cfg
                 (if created then (fst st)\<lparr>ar_NamespacesCreated := ar_NamespacesCreated (fst st) + 1\<rparr> else fst st, m)))"

fun apply_namespaces :: "'c loader_env \<Rightarrow> (string \<times> 'c LNamespace option) list \<Rightarrow> loading \<Rightarrow> loaded" where
  "apply_namespaces env [] st = Some (None, st)"
| "apply_namespaces env ((nsName, nsCfg) # rest) st =
     (case applyNamespace env nsName nsCfg st of
        None \<Rightarrow> None
      | Some (Some err, st') \<Rightarrow> Some (Some (wrap_err (''namespace '' @ nsName) err), st')
      | Some (None, st') \<Rightarrow> apply_namespaces env rest st')"

definition empty_result :: ApplyResult where
  "empty_result = \<lparr>ar_NamespacesCreated = 0, ar_TargetsCreated = 0, ar_PollersCreated = 0, ar_TreeNodesCreated = 0,
     ar_SecretsCreated = 0, ar_Errors = []\<rparr>"

definition loader_Apply :: "'c loader_env \<Rightarrow> 'c LConfig \<Rightarrow> Manager \<Rightarrow> loaded" where
  "loader_Apply env cfg m = apply_namespaces env (lc_Namespaces cfg) (empty_result, m)"

section \<open>Watching\<close>

text \<open>
  One tick of \<open>watchLoop\<close>: the time the file was last seen changed at, and the result handed to \<open>onChange\<close>, if any.
\<close>

definition watch_tick :: "'c loader_env \<Rightarrow> 'c files \<Rightarrow> string \<Rightarrow> int go \<Rightarrow> int \<Rightarrow> Manager \<Rightarrow> (int \<times> ApplyResult option \<times> Manager) option" where
  "watch_tick env fs path modTime lastMod m =
     (case modTime of
        Inl _ \<Rightarrow> Some (lastMod, None, m)
      | Inr t \<Rightarrow>
          (if t > lastMod then
             (case loader_Load fs path of
                Inl _ \<Rightarrow> Some (t, None, m)
              | Inr cfg \<Rightarrow>
                  (case loader_Apply env cfg m of
                     None \<Rightarrow> None
                   | Some (err, (res, m')) \<Rightarrow>
                       Some (t, Some (case err of None \<Rightarrow> res | Some e \<Rightarrow> res\<lparr>ar_Errors := ar_Errors res @ [error_msg e]\<rparr>), m')))
           else Some (lastMod, None, m)))"

section \<open>Applying stays in the namespaces of the configuration\<close>

text \<open>The updates, on a cache that holds what \<open>Get\<close> put there.\<close>

lemma nsm_Update_plain:
  assumes "C (ns_Name x)"
  shows "cache_stays C ns_filed (nsm_Update now now' x)"
proof (rule cache_opI)
  fix c s
  assume f: "ns_filed c"
  show "stays C ns_filed c s (nsm_Update now now' x c s)"
  proof (cases "map_of c (ns_Name x)")
    case None
    then show ?thesis by (simp add: nsm_Update_def stays_same)
  next
    case (Some e)
    let ?x = "x\<lparr>ns_Version := ns_Version e\<rparr>"
    have plain: "plain_name (ns_Name x)" using f Some by (simp add: ns_filed_def)
    have step: "nsm_Update now now' x c s = (case UpdateNamespace now now' ?x s of
        (Inl err, s') \<Rightarrow> (Inl err, c, s') | (Inr ns', s') \<Rightarrow> (Inr ns', mput (ns_Name x) ns' c, s'))"
      by (simp add: nsm_Update_def Some Let_def split: prod.split sum.split)
    show ?thesis
      unfolding step
      by (rule stays_store [where h = "\<lambda>x. x", OF namespaces_confined(2) [where C = C and n = "ns_Name x", OF assms]])
        (use f plain in \<open>auto intro!: ns_filed_put dest: returned_name(2)\<close>)
  qed
qed

lemma tm_Update_plain:
  assumes "C (t_Namespace x)" "plain_name (t_Namespace x)"
  shows "cache_stays C t_filed (tm_Update now now' x)"
proof (rule cache_opI)
  fix c s
  assume f: "t_filed c"
  show "stays C t_filed c s (tm_Update now now' x c s)"
  proof (cases "map_of c (targetKey (t_Namespace x) (t_Name x))")
    case None
    then show ?thesis by (simp add: tm_Update_def stays_same Let_def)
  next
    case (Some e)
    let ?x = "x\<lparr>t_Version := t_Version e\<rparr>"
    have step: "tm_Update now now' x c s = (case UpdateTarget now now' ?x s of
        (Inl err, s') \<Rightarrow> (Inl err, c, s')
      | (Inr t', s') \<Rightarrow> (Inr t', mput (targetKey (t_Namespace x) (t_Name x)) t' c, s'))"
      by (simp add: tm_Update_def Let_def Some split: prod.split sum.split)
    show ?thesis
      unfolding step
      by (rule stays_store [where h = "\<lambda>x. x", OF targets_confined(2) [where C = C and n = "t_Namespace x", OF assms(1)]])
        (use f assms(2) in \<open>auto intro!: t_filed_put dest!: returned_name(4)\<close>)
  qed
qed

lemma pm_Update_plain:
  assumes "pm_Update now now' p m = (r, m')" "pheld C D m" "C (p_Namespace p)" "plain_name (p_Namespace p)"
  shows "pheld C D m'"
proof (cases "map_of (pm_pollers m) (poller_str p)")
  case None
  with assms(1,2) show ?thesis by (simp add: pm_Update_def Let_def)
next
  case (Some e)
  let ?p = "p\<lparr>p_Version := p_Version e\<rparr>"
  obtain i m1 where i: "getEffectiveInterval now now' e m = (i, m1)" by fastforce
  have m1: "pheld C D m1" using getEffectiveInterval_pheld [OF i assms(2)] by blast
  obtain w m2 where u: "on_store (UpdatePoller now now' ?p) m1 = (w, m2)" by fastforce
  have "confined C (UpdatePoller now now' ?p)"
    using pollers_confined(2) [where C = C and n = "p_Namespace p", OF assms(3)] by simp
  note h = on_store_pheld [OF u this m1]
  show ?thesis
  proof (cases w)
    case (Inl err)
    with assms(1) Some i u h(1) show ?thesis by (simp add: pm_Update_def Let_def)
  next
    case (Inr x)
    have key: "poller_key x = poller_key p" using h(2) Inr returned_name(6) by fastforce
    let ?m3 = "m2\<lparr>pm_pollers := mput (poller_str p) x (pm_pollers m2)\<rparr>"
    have m3: "pheld C D ?m3" by (rule pheld_put [OF h(1)]) (use key assms(4) in simp_all)
    obtain j m4 where j: "getEffectiveInterval now now' x ?m3 = (j, m4)" by fastforce
    have m4: "pheld C D m4" using getEffectiveInterval_pheld [OF j m3] by blast
    show ?thesis
      using assms(1) Some i u j m4 Inr by (auto simp: pm_Update_def Let_def split: if_splits)
  qed
qed

text \<open>The same for a call into a manager.\<close>

lemma mgr_ns_held:
  assumes "cache_op C ns_filed f P" "mgr_ns f m = (r, m')" "held C D m"
  shows "held C D m'" "P r"
proof -
  obtain ns s where f: "f (mg_Namespaces m) (mg_store m) = (r, ns, s)" and m': "m' = set_store s (m\<lparr>mg_Namespaces := ns\<rparr>)"
    using assms(2) by (auto simp: mgr_ns_def split: prod.splits)
  have "apart C D (st_db s) \<and> ns_filed ns \<and> P r"
    using assms(1) [unfolded cache_op_def, rule_format, OF f, of D] assms(3) by (simp add: held_def pheld_def)
  then show "held C D m'" "P r" using assms(3) by (simp_all add: m' set_store_def held_def pheld_def)
qed

lemma mgr_targets_held:
  assumes "cache_op C t_filed f P" "mgr_targets f m = (r, m')" "held C D m"
  shows "held C D m'" "P r"
proof -
  obtain ts s where f: "f (mg_Targets m) (mg_store m) = (r, ts, s)" and m': "m' = set_store s (m\<lparr>mg_Targets := ts\<rparr>)"
    using assms(2) by (auto simp: mgr_targets_def split: prod.splits)
  have "apart C D (st_db s) \<and> t_filed ts \<and> P r"
    using assms(1) [unfolded cache_op_def, rule_format, OF f, of D] assms(3) by (simp add: held_def pheld_def)
  then show "held C D m'" "P r" using assms(3) by (simp_all add: m' set_store_def held_def pheld_def)
qed

lemma mgr_tree_held:
  assumes "cache_stays C (\<lambda>_. True) f" "mgr_tree f m = (r, m')" "held C D m"
  shows "held C D m'"
proof -
  obtain t s where f: "f (mg_Tree m) (mg_store m) = (r, t, s)" and m': "m' = set_store s (m\<lparr>mg_Tree := t\<rparr>)"
    using assms(2) by (auto simp: mgr_tree_def split: prod.splits)
  have "apart C D (st_db s)"
    using assms(1) [unfolded cache_op_def, rule_format, OF f, of D] assms(3) by (simp add: held_def pheld_def)
  then show ?thesis using assms(3) by (simp add: m' set_store_def held_def pheld_def)
qed

lemma mgr_sql_held:
  assumes "confined C f" "mgr_sql f m = (r, m')" "held C D m"
  shows "held C D m'"
proof -
  obtain s where f: "f (mg_store m) = (r, s)" and m': "m' = set_store s m"
    using assms(2) by (auto simp: mgr_sql_def split: prod.splits)
  have "apart C D (st_db s)" using confinedD [OF assms(1) f, of D] assms(3) by (simp add: held_def pheld_def)
  then show ?thesis using assms(3) by (simp add: m' set_store_def held_def pheld_def)
qed

lemma on_pollers_held:
  assumes "\<And>p'. f (mg_Pollers m) = (r, p') \<Longrightarrow> pheld C D p'" "on_pollers f m = (r, m')" "held C D m"
  shows "held C D m'"
  using assms by (auto simp: on_pollers_def held_def split: prod.splits)

text \<open>An outcome of loading keeps the other namespaces as they were.\<close>

definition loads :: "(string \<Rightarrow> bool) \<Rightarrow> (loading \<Rightarrow> loaded) \<Rightarrow> bool" where
  "loads C f \<longleftrightarrow> (\<forall>D st e st'. f st = Some (e, st') \<longrightarrow> held C D (snd st) \<longrightarrow> held C D (snd st'))"

definition passes :: "(string \<Rightarrow> bool) \<Rightarrow> (loading \<Rightarrow> loading option) \<Rightarrow> bool" where
  "passes C f \<longleftrightarrow> (\<forall>D st st'. f st = Some st' \<longrightarrow> held C D (snd st) \<longrightarrow> held C D (snd st'))"

lemma snd_add_error [simp]: "snd (add_error msg st) = snd st"
  by (cases st) (simp add: add_error_def)

lemma load_each_passes: "(\<And>k x. (k, x) \<in> set xs \<Longrightarrow> loads C (f k x)) \<Longrightarrow> passes C (load_each f what xs)"
proof (induction xs)
  case Nil
  then show ?case by (simp add: passes_def)
next
  case (Cons e xs)
  obtain k x where e: "e = (k, x)" by fastforce
  have IH: "passes C (load_each f what xs)" using Cons by simp
  have one: "loads C (f k x)" using Cons.prems e by simp
  show ?case
    unfolding passes_def
  proof (intro allI impI)
    fix D st st'
    assume run: "load_each f what (e # xs) st = Some st'" and h: "held C D (snd st)"
    obtain err st1 where s1: "f k x st = Some (err, st1)" using run by (auto simp: e split: option.splits)
    have h1: "held C D (snd st1)" using one s1 h unfolding loads_def by blast
    show "held C D (snd st')"
    proof (cases err)
      case None
      then have "load_each f what xs st1 = Some st'" using run s1 by (simp add: e)
      then show ?thesis using IH h1 unfolding passes_def by blast
    next
      case (Some er)
      then have "load_each f what xs (add_error (what k @ '': '' @ error_msg er) st1) = Some st'" using run s1 by (simp add: e)
      then show ?thesis using IH h1 unfolding passes_def by (metis snd_add_error)
    qed
  qed
qed

text \<open>What the two arguments that stand for missing code must leave alone.\<close>

definition env_ok :: "(string \<Rightarrow> bool) \<Rightarrow> 'c loader_env \<Rightarrow> bool" where
  "env_ok C env \<longleftrightarrow>
     (\<forall>i t r b p. p_Namespace (le_polling env i t r b p) = p_Namespace p) \<and>
     (\<forall>D link m r m'. le_create env link m = (r, m') \<longrightarrow> C (lk_Namespace link) \<longrightarrow> held C D m \<longrightarrow> held C D m')"

lemma upsert_held:
  assumes "upsert create get_old update what m = (r, m')" "held C D m"
    "\<And>r1 m1. create m = (r1, m1) \<Longrightarrow> held C D m1"
    "\<And>r2 m1 m2. get_old m1 = (r2, m2) \<Longrightarrow> held C D m1 \<Longrightarrow> held C D m2"
    "\<And>e r3 m2 m3. update e m2 = (r3, m3) \<Longrightarrow> held C D m2 \<Longrightarrow> held C D m3"
  shows "held C D m'"
proof -
  obtain r1 m1 where c1: "create m = (r1, m1)" by fastforce
  obtain r2 m2 where c2: "get_old m1 = (r2, m2)" by fastforce
  have h1: "held C D m1" by (rule assms(3) [OF c1])
  have h2: "held C D m2" by (rule assms(4) [OF c2 h1])
  have h3: "held C D m3" if "update e m2 = (r3, m3)" for e r3 m3 by (rule assms(5) [OF that h2])
  show ?thesis using assms(1) c1 c2 h1 h2 h3 by (auto simp: upsert_def split: sum.splits option.splits prod.splits)
qed

lemma upsert_done:
  assumes "upsert create get_old update what m = (Inr b, m')"
  obtains x m1 where "create m = (Inr x, m1)" | e x m1 m2 where "create m = (Inl e, m1)" "get_old m1 = (Inr (Some x), m2)"
  using assms by (auto simp: upsert_def split: sum.splits option.splits prod.splits)

lemma put_poller_held:
  assumes "put_poller env n t p q m = (r, m')" "held C D m" "C n" "plain_name n" "p_Namespace q = n"
  shows "held C D m'"
proof (rule upsert_held [OF assms(1) [unfolded put_poller_def Let_def] assms(2)])
  show "held C D m1" if "on_pollers (pm_Create (le_clock env [n, t, p] 0) q) m = (r1, m1)" for r1 m1
    by (rule on_pollers_held [OF _ that assms(2)]) (use assms in \<open>auto simp: held_def dest: pm_Create_pheld\<close>)
  show "held C D m2" if "on_pollers (pm_Get n t p) m1 = (r2, m2)" "held C D m1" for r2 m1 m2
    by (rule on_pollers_held [OF _ that]) (use that(2) assms in \<open>auto simp: held_def dest: pm_Get_pheld\<close>)
  show "held C D m3"
    if "on_pollers (pm_Update (le_clock env [n, t, p] 1) (le_clock env [n, t, p] 2) (q\<lparr>p_Version := p_Version e\<rparr>)) m2 = (r3, m3)"
      "held C D m2" for e r3 m2 m3
    by (rule on_pollers_held [OF _ that]) (use that(2) assms in \<open>auto simp: held_def dest: pm_Update_plain\<close>)
qed

lemma applyPoller_loads:
  assumes "env_ok C env" "C n" "plain_name n"
  shows "loads C (applyPoller env n t p cfg)"
proof -
  have "p_Namespace (poller_of env n t p c js) = n" for c js using assms(1) by (simp add: poller_of_def env_ok_def Let_def)
  then show ?thesis
    using assms(2,3) unfolding loads_def applyPoller_def
    by (auto split: option.splits sum.splits prod.splits dest: put_poller_held)
qed

lemma put_target_held:
  assumes "put_target env n t x m = (r, m')" "held C D m" "C n" "plain_name n" "t_Namespace x = n"
  shows "held C D m'"
proof (rule upsert_held [OF assms(1) [unfolded put_target_def Let_def] assms(2)])
  let ?now = "le_clock env [n, t]"
  show "held C D m1" if "mgr_targets (tm_Create (?now 0) (?now 1) x) m = (r1, m1)" for r1 m1
    by (rule mgr_targets_held(1) [OF tm_Create_op that assms(2)]) (use assms(3-5) in simp_all)
  show "held C D m2" if "mgr_targets (tm_Get n t) m1 = (r2, m2)" "held C D m1" for r2 m1 m2
    by (rule mgr_targets_held(1) [OF tm_Get_op [OF assms(4)] that])
  show "held C D m3" if "mgr_targets (tm_Update (?now 2) (?now 3) (x\<lparr>t_Version := t_Version e\<rparr>)) m2 = (r3, m3)" "held C D m2" for e r3 m2 m3
    by (rule mgr_targets_held(1) [OF tm_Update_plain that]) (use assms(3-5) in simp_all)
qed

lemma loads_pass: "passes C f \<Longrightarrow> loads C (\<lambda>st. map_option (Pair None) (f st))"
  unfolding passes_def loads_def by auto

lemma loads_nil: "(\<And>c. cfg = Some c \<Longrightarrow> loads C (f c)) \<Longrightarrow> loads C (\<lambda>st. case cfg of None \<Rightarrow> None | Some c \<Rightarrow> f c st)"
  by (cases cfg) (simp_all add: loads_def)

lemma loads_put:
  assumes "\<And>D m r m'. put m = (r, m') \<Longrightarrow> held C D m \<Longrightarrow> held C D m'"
    "\<And>D m b m'. put m = (Inr b, m') \<Longrightarrow> held C D m \<Longrightarrow> loads C k"
  shows "loads C (\<lambda>st. case put (snd st) of (Inl err, m) \<Rightarrow> Some (Some err, (fst st, m)) | (Inr b, m) \<Rightarrow> k (g b (fst st), m))"
  unfolding loads_def
proof (intro allI impI)
  fix D st e st'
  assume run: "(case put (snd st) of (Inl err, m) \<Rightarrow> Some (Some err, (fst st, m)) | (Inr b, m) \<Rightarrow> k (g b (fst st), m)) = Some (e, st')"
    and h: "held C D (snd st)"
  obtain r m where c: "put (snd st) = (r, m)" by fastforce
  have hm: "held C D m" by (rule assms(1) [OF c h])
  show "held C D (snd st')"
  proof (cases r)
    case (Inl err)
    then show ?thesis using run c hm by auto
  next
    case (Inr b)
    then have "k (g b (fst st), m) = Some (e, st')" using run c by simp
    then show ?thesis using assms(2) [OF c [unfolded Inr] h] hm unfolding loads_def by (metis snd_conv)
  qed
qed

lemma applyTarget_loads:
  assumes "env_ok C env" "C n" "plain_name n"
  shows "loads C (applyTarget env n t cfg)"
  unfolding applyTarget_def
proof (intro loads_nil loads_put loads_pass load_each_passes applyPoller_loads assms)
  show "held C D m'" if "put_target env n t (target_of n t c) m = (r, m')" "held C D m" for c D m r m'
    by (rule put_target_held [OF that assms(2,3)]) (simp add: target_of_def)
qed

lemma apply_secret_loads:
  assumes "C n"
  shows "loads C (apply_secret env n z cfg)"
  using mgr_sql_held [OF secrets_confined(1) [where C = C and n = n, OF assms]] unfolding loads_def apply_secret_def
  by (auto split: option.splits sum.splits prod.splits)

lemma apply_link_held:
  assumes "env_ok C env" "C n" "held C D (snd st)"
  shows "held C D (snd (apply_link env n path st link))"
proof -
  obtain res m where st: "st = (res, m)" by fastforce
  obtain r m1 where c: "le_create env (link_node n path link) m = (r, m1)" by fastforce
  have "lk_Namespace (link_node n path link) = n" by (simp add: link_node_def Let_def split: prod.split)
  then have "held C D m1" using assms c unfolding env_ok_def st by auto
  then show ?thesis by (cases r) (simp_all add: apply_link_def st c)
qed

lemma apply_links_held:
  "env_ok C env \<Longrightarrow> C n \<Longrightarrow> held C D (snd st) \<Longrightarrow> held C D (snd (foldl (apply_link env n path) st links))"
  by (induction links arbitrary: st) (simp_all add: apply_link_held)

lemma applyTreeNode_held:
  assumes "env_ok C env" "C n"
  shows "applyTreeNode env n path node st = Some (e, st') \<Longrightarrow> held C D (snd st) \<Longrightarrow> held C D (snd st')"
    and "applyChildren env n path ch st = Some st' \<Longrightarrow> held C D (snd st) \<Longrightarrow> held C D (snd st')"
  using assms
proof (induction env n path node st and env n path ch st arbitrary: e st' and st' rule: applyTreeNode_applyChildren.induct)
  case (1 env n path description children links st)
  let ?f = "tree_CreateDirectory (le_clock env [n, path] 0) n path description"
  let ?links = "foldl (apply_link env n path)"
  let ?res = "(fst st)\<lparr>ar_TreeNodesCreated := ar_TreeNodesCreated (fst st) + 1\<rparr>"
  obtain r m1 where c: "mgr_tree ?f (snd st) = (r, m1)" by fastforce
  have h1: "held C D m1" by (rule mgr_tree_held [OF tree_op(1) [where C = C and n = n, OF "1.prems"(4)] c "1.prems"(2)])
  have hl: "held C D (snd (?links (res, m1) links))" for res
    by (rule apply_links_held [OF "1.prems"(3,4)]) (simp add: h1)
  show ?case
  proof (cases r)
    case (Inl err)
    show ?thesis
    proof (cases "contains (error_msg err) ''exists''")
      case True
      obtain st2 where "applyChildren env n path children (?links (fst st, m1) links) = Some st2" "st' = st2"
        using "1.prems"(1) c Inl True by auto
      then show ?thesis using "1.IH"(1) [OF c [symmetric] Inl True _ hl "1.prems"(3,4)] by blast
    next
      case False
      then show ?thesis using "1.prems"(1) c Inl h1 by auto
    qed
  next
    case (Inr u)
    obtain st2 where "applyChildren env n path children (?links (?res, m1) links) = Some st2" "st' = st2"
      using "1.prems"(1) c Inr by auto
    then show ?thesis using "1.IH"(2) [OF c [symmetric] Inr _ hl "1.prems"(3,4)] by blast
  qed
next
  case (4 env n path childName childNode rest st)
  obtain er st1 where s1: "applyTreeNode env n (path @ ''/'' @ childName) childNode st = Some (er, st1)"
    using "4.prems"(1) by (auto split: option.splits)
  have h1: "held C D (snd st1)" by (rule "4.IH"(1) [OF s1 "4.prems"(2-4)])
  show ?case
  proof (cases er)
    case None
    then have "applyChildren env n path rest st1 = Some st'" using "4.prems"(1) s1 by simp
    then show ?thesis using "4.IH"(2) [OF s1 refl None _ h1 "4.prems"(3,4)] by simp
  next
    case (Some x)
    let ?st = "add_error (''child '' @ path @ ''/'' @ childName @ '': '' @ error_msg x) st1"
    have "applyChildren env n path rest ?st = Some st'" using "4.prems"(1) s1 Some by simp
    moreover have "held C D (snd ?st)" using h1 by simp
    ultimately show ?thesis using "4.IH"(3) [OF s1 refl Some _ _ "4.prems"(3,4)] by blast
  qed
qed simp_all

lemma contents_load:
  assumes "env_ok C env" "C n" "plain_name n"
  shows "loads C (apply_contents env n cfg)"
proof -
  have "passes C (load_each (apply_secret env n) what xs)" for what xs
    by (intro load_each_passes apply_secret_loads assms(2))
  moreover have "passes C (load_each (applyTarget env n) what xs)" for what xs
    by (intro load_each_passes applyTarget_loads assms)
  moreover have "loads C (apply_tree_entry env n path node)" for path node
    unfolding apply_tree_entry_def
    by (rule loads_nil) (use applyTreeNode_held(1) [OF assms(1,2)] in \<open>auto simp: loads_def\<close>)
  then have "passes C (load_each (apply_tree_entry env n) what xs)" for what xs
    by (intro load_each_passes)
  ultimately show ?thesis
    unfolding loads_def passes_def apply_contents_def by (auto split: option.splits)
qed

lemma put_namespace_held:
  assumes "put_namespace env n x m = (r, m')" "held C D m" "C n" "ns_Name x = n"
  shows "held C D m'" and "r = Inr b \<Longrightarrow> plain_name n"
proof -
  let ?now = "le_clock env [n]"
  have create: "held C D m1" if "mgr_ns (nsm_Create (?now 0) (?now 1) x) m = (r1, m1)" for r1 m1
    by (rule mgr_ns_held(1) [OF nsm_Create_op that assms(2)]) (simp add: assms(3,4))
  show "held C D m'"
  proof (rule upsert_held [OF assms(1) [unfolded put_namespace_def Let_def] assms(2) create])
    show "held C D m2" if "mgr_ns (nsm_Get n) m1 = (r2, m2)" "held C D m1" for r2 m1 m2
      by (rule mgr_ns_held(1) [OF nsm_Get_op that])
    show "held C D m3" if "mgr_ns (nsm_Update (?now 2) (?now 3) (x\<lparr>ns_Version := ns_Version e\<rparr>)) m2 = (r3, m3)" "held C D m2" for e r3 m2 m3
      by (rule mgr_ns_held(1) [OF nsm_Update_plain that]) (simp add: assms(3,4))
  qed
  assume "r = Inr b"
  then show "plain_name n"
  proof (cases rule: upsert_done [OF assms(1) [unfolded put_namespace_def Let_def \<open>r = Inr b\<close>]])
    case (1 y m1)
    then have "isValidName n"
      by (auto simp: mgr_ns_def nsm_Create_def assms(4) split: prod.splits if_splits)
    then show ?thesis by (rule isValidName_plain)
  next
    case (2 e y m1 m2)
    then show ?thesis using mgr_ns_held(2) [OF nsm_Get_op 2(2) create [OF 2(1)]] by blast
  qed
qed

lemma applyNamespace_loads:
  fixes env :: "'c loader_env"
  assumes "env_ok C env" "C n"
  shows "loads C (applyNamespace env n cfg)"
  unfolding applyNamespace_def
proof (intro loads_nil loads_put)
  fix c :: "'c LNamespace" and D m r m'
  assume p: "put_namespace env n (namespace_of n c) m = (r, m')" "held C D m"
  have n: "ns_Name (namespace_of n c) = n" by (simp add: namespace_of_def)
  show "held C D m'" by (rule put_namespace_held(1) [OF p assms(2) n])
next
  fix c :: "'c LNamespace" and D m b m'
  assume p: "put_namespace env n (namespace_of n c) m = (Inr b, m')" "held C D m"
  have "ns_Name (namespace_of n c) = n" by (simp add: namespace_of_def)
  then have "plain_name n" using put_namespace_held(2) [OF p assms(2)] by blast
  then show "loads C (apply_contents env n c)" by (rule contents_load [OF assms])
qed

lemma apply_namespaces_held:
  assumes "env_ok C env"
  shows "apply_namespaces env xs st = Some (e, st') \<Longrightarrow> \<forall>n \<in> set (mkeys xs). C n \<Longrightarrow> held C D (snd st) \<Longrightarrow> held C D (snd st')"
proof (induction xs arbitrary: st)
  case (Cons x rest)
  obtain n c where x: "x = (n, c)" by fastforce
  obtain er st1 where s1: "applyNamespace env n c st = Some (er, st1)" using Cons.prems(1) by (auto simp: x split: option.splits)
  have "C n" using Cons.prems(2) by (simp add: x)
  note keep = applyNamespace_loads [OF assms this, of c, unfolded loads_def, rule_format, OF s1]
  have h1: "held C D (snd st1)" by (rule keep [OF Cons.prems(3)])
  show ?case
  proof (cases er)
    case None
    then have "apply_namespaces env rest st1 = Some (e, st')" using Cons.prems(1) s1 by (simp add: x)
    then show ?thesis using Cons.IH [OF _ _ h1] Cons.prems(2) by simp
  qed (use Cons.prems(1) s1 h1 in \<open>auto simp: x\<close>)
qed simp

text \<open>Names and caches in order, as every reachable server has them (theory \<open>Tenants\<close>).\<close>

definition manager_tidy :: "Manager \<Rightarrow> bool" where
  "manager_tidy m \<longleftrightarrow> names_ok (st_db (mg_store m)) \<and> ns_filed (mg_Namespaces m) \<and> t_filed (mg_Targets m) \<and> p_filed (pm_pollers (mg_Pollers m))"

definition in_config :: "'c LConfig \<Rightarrow> string \<Rightarrow> bool" where
  "in_config cfg n \<longleftrightarrow> n \<in> set (mkeys (lc_Namespaces cfg))"


text \<open>A store that has namespace \<open>b\<close>, and a configuration of \<open>a\<close>; \<open>Create\<close> of the tree is taken to be \<open>CreateLink\<close>.\<close>

definition ex_env :: "unit loader_env" where
  "ex_env = \<lparr>le_marshal = (\<lambda>_. Inr ''{}''), le_polling = (\<lambda>_ _ _ _ p. p),
     le_create = (\<lambda>l m. mgr_tree (tree_CreateLink 0 (lk_Namespace l) ''/'' (lk_Name l) (lk_LinkType l) (lk_LinkTarget l)) m),
     le_seal = (\<lambda>_ _ v. v), le_nonce = (\<lambda>_. []), le_clock = (\<lambda>_ _. 5)\<rparr>"

lemma ex_env_ok: "env_ok C ex_env"
  unfolding env_ok_def
proof (intro conjI allI impI)
  fix D link m r m'
  assume run: "le_create ex_env link m = (r, m')" and C: "C (lk_Namespace link)" and h: "held C D m"
  show "held C D m'"
    by (rule mgr_tree_held [OF tree_op(2) [where C = C and n = "lk_Namespace link", OF C] run [unfolded ex_env_def, simplified] h])
qed (simp add: ex_env_def)

definition ex_manager :: Manager where
  "ex_manager = (case mg_New (Inr ((open_store (\<lambda>_. None) None)\<lparr>st_db := empty_db\<lparr>db_namespaces := [ex_ns]\<rparr>\<rparr>)) None [] 0 of Inr m \<Rightarrow> m)"

definition ex_config :: "unit LConfig" where
  "ex_config =
     \<lparr>lc_Listen = [], lc_CertFile = [], lc_KeyFile = [], lc_Tokens = [], lc_AuthTimeoutSec = 0, lc_ReconnectWindowSec = 0,
      lc_Workers = 0, lc_QueueSize = 0, lc_DBPath = [], lc_SecretKeyPath = [], lc_TimeoutMs = 0, lc_Retries = 0,
      lc_IntervalMs = 0, lc_BufferSize = 0,
      lc_Namespaces = [(''a'', Some \<lparr>ln_Description = ''x'', ln_Defaults = None,
        ln_Targets = [(''r'', Some \<lparr>lt_Description = [], lt_Labels = [], lt_Defaults = None,
          lt_Pollers = [(''cpu'', Some \<lparr>lp_Description = [], lp_Protocol = [], lp_Config = (), lp_IntervalMs = 0, lp_TimeoutMs = 0,
            lp_Retries = 0, lp_BufferSize = 0, lp_AdminState = []\<rparr>)]\<rparr>)],
        ln_Tree = [(''dc'', Some (LTree [] [] [\<lparr>ll_Name = ''l'', ll_Type = [], ll_Ref = ''r''\<rparr>]))], ln_Secrets = []\<rparr>)],
      lc_Include = []\<rparr>"

definition ex_applied :: loaded where
  "ex_applied = loader_Apply ex_env ex_config ex_manager"

lemma ex_applied_result:
  "map_option (\<lambda>(e, r, m). (e, r, map ns_Name (db_namespaces (st_db (mg_store m))), length (db_pollers (st_db (mg_store m))))) ex_applied
     = Some (None, \<lparr>ar_NamespacesCreated = 1, ar_TargetsCreated = 1, ar_PollersCreated = 1, ar_TreeNodesCreated = 2,
         ar_SecretsCreated = 0, ar_Errors = []\<rparr>, [''n'', ''a''], 1)"
  by code_simp


section \<open>What a reload loses\<close>

text \<open>
  The SNMPv3 defaults of the file are dropped. An entry without a body is a panic. An update through the manager puts the
  object of the file into the cache, which has no creation time.
\<close>

lemma v3_defaults_dropped: "d_SNMPv3 (defaults_of d) = None"
  by (simp add: defaults_of_def)

lemma empty_entry_panics: "applyNamespace env n None st = None" "applyTarget env n t None st = None" "applyPoller env n t p None st = None"
  by (simp_all add: applyNamespace_def applyTarget_def applyPoller_def)

lemma reload_loses_creation_time:
  assumes "nsm_Update now now' ((namespace_of n c)\<lparr>ns_Version := v\<rparr>) cache s = (Inr y, cache', s')"
  shows "map_of cache' n = Some y \<and> ns_CreatedAt y = 0"
  using assms by (auto simp: nsm_Update_def namespace_of_def Let_def split: option.splits sum.splits prod.splits
      dest!: runsD [OF runs_UpdateNamespace])

end
