(* ===== verification/Daemon.thy ===== *)
theory Daemon
  imports Loader
begin

text \<open>
  The daemon: \<open>main\<close> of cmd/snmpproxyd/main.go up to \<open>srv.Run\<close>. The flags are a record, the environment variable is
  read through the \<open>getenv\<close> of the files, the database is opened by an argument. Log lines, signals and the loop of the
  watcher (theory \<open>Loader\<close> has its tick) are not modelled.
\<close>

record Flags =
  fl_config :: string
  fl_listen :: string
  fl_noTLS :: bool
  fl_tlsCert :: string
  fl_tlsKey :: string
  fl_token :: string
  fl_db :: string
  fl_watch :: bool

text \<open>
  \<open>os.IsNotExist\<close> looks at the error itself, not at what it wraps; no error made by \<open>fmt.Errorf\<close> is such an error.
\<close>

definition os_IsNotExist :: "gerror \<Rightarrow> bool" where
  "os_IsNotExist err = (case err of Errorf _ \<Rightarrow> False | ErrConcurrentModification \<Rightarrow> False)"

definition default_file :: "'c LConfig" where
  "default_file =
     \<lparr>lc_Listen = ''0.0.0.0:9161'', lc_CertFile = [], lc_KeyFile = [], lc_Tokens = [], lc_AuthTimeoutSec = 0,
      lc_ReconnectWindowSec = 0, lc_Workers = 0, lc_QueueSize = 0, lc_DBPath = [], lc_SecretKeyPath = [], lc_TimeoutMs = 0,
      lc_Retries = 0, lc_IntervalMs = 0, lc_BufferSize = 0, lc_Namespaces = [], lc_Include = []\<rparr>"

definition load_file :: "'c files \<Rightarrow> string \<Rightarrow> 'c LConfig go" where
  "load_file fs path =
     (case loader_Load fs path of
        Inl err \<Rightarrow> (if os_IsNotExist err then Inr default_file else Inl (wrap_err ''Load config'' err))
      | Inr cfg \<Rightarrow> Inr cfg)"

definition override_flags :: "Flags \<Rightarrow> (string \<Rightarrow> string) \<Rightarrow> 'c LConfig \<Rightarrow> 'c LConfig" where
  "override_flags fl getenv cfg0 =
     (let cfg1 = (if fl_listen fl \<noteq> [] then cfg0\<lparr>lc_Listen := fl_listen fl\<rparr> else cfg0);
          cfg2 = (if fl_noTLS fl then cfg1\<lparr>lc_CertFile := [], lc_KeyFile := []\<rparr> else cfg1);
          cfg3 = (if fl_tlsCert fl \<noteq> [] then cfg2\<lparr>lc_CertFile := fl_tlsCert fl\<rparr> else cfg2);
          cfg4 = (if fl_tlsKey fl \<noteq> [] then cfg3\<lparr>lc_KeyFile := fl_tlsKey fl\<rparr> else cfg3);
          cfg5 = (if fl_db fl \<noteq> [] then cfg4\<lparr>lc_DBPath := fl_db fl\<rparr> else cfg4);
          authToken = (if fl_token fl = [] then getenv ''SNMPPROXY_TOKEN'' else fl_token fl)
      in if authToken \<noteq> [] \<and> length (lc_Tokens cfg5) = 0
         then cfg5\<lparr>lc_Tokens := [\<lparr>lo_ID = ''cli'', lo_Token = authToken, lo_Namespaces = []\<rparr>]\<rparr> else cfg5)"

definition set_defaults :: "'c LConfig \<Rightarrow> 'c LConfig" where
  "set_defaults cfg0 =
     (let cfg1 = (if lc_Listen cfg0 = [] then cfg0\<lparr>lc_Listen := ''0.0.0.0:9161''\<rparr> else cfg0);
          cfg2 = (if lc_DBPath cfg1 = [] then cfg1\<lparr>lc_DBPath := ''snmpproxy.db''\<rparr> else cfg1);
          cfg3 = (if lc_Workers cfg2 = 0 then cfg2\<lparr>lc_Workers := 100\<rparr> else cfg2);
          cfg4 = (if lc_QueueSize cfg3 = 0 then cfg3\<lparr>lc_QueueSize := 10000\<rparr> else cfg3);
          cfg5 = (if lc_AuthTimeoutSec cfg4 = 0 then cfg4\<lparr>lc_AuthTimeoutSec := 30\<rparr> else cfg4)
      in if lc_ReconnectWindowSec cfg5 = 0 then cfg5\<lparr>lc_ReconnectWindowSec := 600\<rparr> else cfg5)"

definition daemon_config :: "'c files \<Rightarrow> Flags \<Rightarrow> 'c LConfig go" where
  "daemon_config fs fl =
     (case load_file fs (fl_config fl) of
        Inl err \<Rightarrow> Inl err
      | Inr cfg0 \<Rightarrow>
          (let cfg = override_flags fl (fs_getenv fs) cfg0 in
           if length (lc_Tokens cfg) = 0 then Inl (Errorf ''At least one auth token required (use -token or config)'')
           else Inr (set_defaults cfg)))"

text \<open>
  The manager with the defaults of the file in its store and the namespaces applied; \<open>None\<close> is a panic. An error of
  \<open>Apply\<close> is logged only.
\<close>

definition daemon_manager :: "'c loader_env \<Rightarrow> 'c LConfig \<Rightarrow> Manager \<Rightarrow> Manager option" where
  "daemon_manager env cfg m =
     (let m1 = snd (mgr_sql (UpdateServerConfig \<lparr>sc_DefaultTimeoutMs = lc_TimeoutMs cfg, sc_DefaultRetries = lc_Retries cfg,
                sc_DefaultIntervalMs = lc_IntervalMs cfg, sc_DefaultBufferSize = lc_BufferSize cfg\<rparr>) m)
      in if length (lc_Namespaces cfg) > 0 then map_option (\<lambda>(err, res, m2). m2) (loader_Apply env cfg m1) else Some m1)"

definition server_config :: "'c LConfig \<Rightarrow> Manager \<Rightarrow> SrvConfig" where
  "server_config cfg mgr =
     \<lparr>cf_Manager = Some mgr, cf_Listen = lc_Listen cfg, cf_TLSCertFile = lc_CertFile cfg, cf_TLSKeyFile = lc_KeyFile cfg,
      cf_Tokens = map (\<lambda>t. \<lparr>Session.TokenConfig.tk_ID = lo_ID t, Session.TokenConfig.tk_Token = lo_Token t, Session.TokenConfig.tk_Namespaces = lo_Namespaces t\<rparr>) (lc_Tokens cfg),
      cf_AuthTimeoutSec = lc_AuthTimeoutSec cfg, cf_ReconnectWindowSec = lc_ReconnectWindowSec cfg,
      cf_PollerWorkers = nat (lc_Workers cfg), cf_PollerQueueSize = nat (lc_QueueSize cfg), cf_DBPath = [], cf_SecretKeyPath = [],
      cf_DefaultTimeoutMs = 0, cf_DefaultRetries = 0, cf_DefaultIntervalMs = 0, cf_DefaultBufferSize = 0\<rparr>"

text \<open>\<open>log.Fatal\<close> ends the program, a panic too: a nil entry in the file, or a negative size of a channel.\<close>

datatype started = Fatal gerror | Panicked | Started Server

definition daemon_start ::
    "'c files \<Rightarrow> 'c loader_env \<Rightarrow> (string \<Rightarrow> string \<Rightarrow> Store go) \<Rightarrow> string \<Rightarrow> int \<Rightarrow> (nat \<Rightarrow> int) \<Rightarrow> Flags \<Rightarrow> started" where
  "daemon_start fs env open_db version now rnd fl =
     (case daemon_config fs fl of
        Inl err \<Rightarrow> Fatal err
      | Inr cfg \<Rightarrow>
          (case mg_New (open_db (lc_DBPath cfg) (lc_SecretKeyPath cfg)) None version now of
             Inl err \<Rightarrow> Fatal (wrap_err ''Create manager'' err)
           | Inr m \<Rightarrow>
               (case daemon_manager env cfg m of
                  None \<Rightarrow> Panicked
                | Some mgr \<Rightarrow>
                    if lc_QueueSize cfg < 0 then Panicked
                    else (case srv_New (Some (server_config cfg mgr)) (Inl (Errorf [])) version now rnd of
                            Inl err \<Rightarrow> Fatal err | Inr srv \<Rightarrow> Started srv))))"

section \<open>What a started daemon runs with\<close>

text \<open>A flag is taken over the file, the file over the default; there is a token, an address, a database and workers.\<close>

lemma override_frame:
  "lc_Workers (override_flags fl g c) = lc_Workers c" "lc_QueueSize (override_flags fl g c) = lc_QueueSize c"
  "lc_Listen (override_flags fl g c) = (if fl_listen fl \<noteq> [] then fl_listen fl else lc_Listen c)"
  "lc_DBPath (override_flags fl g c) = (if fl_db fl \<noteq> [] then fl_db fl else lc_DBPath c)"
  "lc_CertFile (override_flags fl g c) = (if fl_tlsCert fl \<noteq> [] then fl_tlsCert fl else if fl_noTLS fl then [] else lc_CertFile c)"
  "lc_Tokens c \<noteq> [] \<Longrightarrow> lc_Tokens (override_flags fl g c) = lc_Tokens c"
  by (simp_all add: override_flags_def Let_def)

lemma daemon_config_complete:
  assumes "daemon_config fs fl = Inr cfg"
  shows "lc_Tokens cfg \<noteq> []" "lc_Listen cfg \<noteq> []" "lc_DBPath cfg \<noteq> []" "lc_Workers cfg \<noteq> 0" "lc_QueueSize cfg \<noteq> 0"
    "fl_listen fl \<noteq> [] \<Longrightarrow> lc_Listen cfg = fl_listen fl"
proof -
  obtain c0 where t: "lc_Tokens (override_flags fl (fs_getenv fs) c0) \<noteq> []"
      and cfg: "cfg = set_defaults (override_flags fl (fs_getenv fs) c0)"
    using assms by (auto simp: daemon_config_def Let_def split: sum.splits if_splits)
  show "lc_Tokens cfg \<noteq> []" using t by (simp add: cfg set_defaults_def Let_def)
  show "lc_Listen cfg \<noteq> []" "lc_DBPath cfg \<noteq> []" "lc_Workers cfg \<noteq> 0" "lc_QueueSize cfg \<noteq> 0"
    by (simp_all add: cfg set_defaults_def Let_def)
  show "fl_listen fl \<noteq> [] \<Longrightarrow> lc_Listen cfg = fl_listen fl" by (simp add: cfg set_defaults_def Let_def override_frame)
qed

text \<open>A missing file is fatal: the default configuration is never used.\<close>

lemma missing_file_is_fatal: "fs_read fs (fl_config fl) = Inl err \<Longrightarrow> \<exists>e. daemon_config fs fl = Inl e"
  by (simp add: daemon_config_def load_file_def loader_Load_def os_IsNotExist_def wrap_err_def)

text \<open>
  A file without an \<open>snmp\<close> section overwrites the server's defaults with zeros; a poller without an interval of its own
  is then scheduled with the interval 0, and the start of the server panics.
\<close>

definition ex_file :: "unit LConfig" where
  "ex_file = ex_config\<lparr>lc_Tokens := [\<lparr>lo_ID = ''t'', lo_Token = ''x'', lo_Namespaces = []\<rparr>],
     lc_Namespaces := [(''a'', Some \<lparr>ln_Description = [], ln_Defaults = None,
        ln_Targets = [(''r'', Some \<lparr>lt_Description = [], lt_Labels = [], lt_Defaults = None,
          lt_Pollers = [(''cpu'', Some \<lparr>lp_Description = [], lp_Protocol = [], lp_Config = (), lp_IntervalMs = 0, lp_TimeoutMs = 0,
            lp_Retries = 0, lp_BufferSize = 0, lp_AdminState = ''enabled''\<rparr>)]\<rparr>)],
        ln_Tree = [], ln_Secrets = []\<rparr>)]\<rparr>"

definition ex_files :: "unit files" where
  "ex_files = \<lparr>fs_read = (\<lambda>_. Inr []), fs_glob = (\<lambda>_. Inr []), fs_getenv = (\<lambda>_. []), fs_yaml = (\<lambda>_. Inr ex_file), fs_yamlNamespaces = (\<lambda>_. Inr [])\<rparr>"

definition ex_flags :: Flags where
  "ex_flags = \<lparr>fl_config = ''c'', fl_listen = [], fl_noTLS = False, fl_tlsCert = [], fl_tlsKey = [], fl_token = [], fl_db = [], fl_watch = False\<rparr>"

lemma no_snmp_section_panics:
  "(case daemon_start ex_files ex_env (\<lambda>_ _. Inr (open_store (\<lambda>_. None) None)) [] 0 (\<lambda>_. 0) ex_flags of
      Started srv \<Rightarrow> srv_Run (\<lambda>_. 0) srv = None | _ \<Rightarrow> False)"
  by code_simp

end
