(* ===== verification/Completer.thy ===== *)
theory Completer
  imports TargetBrowse Commands
begin

text \<open>
  The completer of cmd/snmpctl/completer.go. It is written against go-prompt, which the module does not require: the
  library's \<open>FilterHasPrefix\<close> is an argument, as is the client's \<open>BrowsePath\<close>, whose answer is the list of its nodes.
\<close>

section \<open>Suggestions\<close>

record Suggest =
  su_Text :: string
  su_Description :: string

abbreviation sug :: "string \<Rightarrow> string \<Rightarrow> Suggest" where
  "sug text descr \<equiv> \<lparr>su_Text = text, su_Description = descr\<rparr>"

record Completer =
  co_BrowsePath :: "string \<Rightarrow> bool \<Rightarrow> TargetBrowse.BrowseNode list go"
  co_FilterHasPrefix :: "Suggest list \<Rightarrow> string \<Rightarrow> bool \<Rightarrow> Suggest list"

definition commandSuggestions :: "Suggest list" where
  "commandSuggestions =
    [\<lparr>su_Text = ''ls'', su_Description = ''Browse paths and targets''\<rparr>,
     \<lparr>su_Text = ''add'', su_Description = ''Create a new target''\<rparr>,
     \<lparr>su_Text = ''set'', su_Description = ''Update target settings''\<rparr>,
     \<lparr>su_Text = ''rm'', su_Description = ''Delete a target''\<rparr>,
     \<lparr>su_Text = ''history'', su_Description = ''Show sample history''\<rparr>,
     \<lparr>su_Text = ''sub'', su_Description = ''Subscribe to targets''\<rparr>,
     \<lparr>su_Text = ''unsub'', su_Description = ''Unsubscribe from targets''\<rparr>,
     \<lparr>su_Text = ''config'', su_Description = ''View/change configuration''\<rparr>,
     \<lparr>su_Text = ''help'', su_Description = ''Show help''\<rparr>,
     \<lparr>su_Text = ''quit'', su_Description = ''Exit''\<rparr>]"

definition co_lsFlags :: "Suggest list" where
  "co_lsFlags =
    [\<lparr>su_Text = ''-l'', su_Description = ''Long format with details''\<rparr>,
     \<lparr>su_Text = ''--long'', su_Description = ''Long format with details''\<rparr>,
     \<lparr>su_Text = ''--tag='', su_Description = ''Filter by tag''\<rparr>,
     \<lparr>su_Text = ''--state='', su_Description = ''Filter by state''\<rparr>,
     \<lparr>su_Text = ''--protocol='', su_Description = ''Filter by protocol''\<rparr>,
     \<lparr>su_Text = ''--host='', su_Description = ''Filter by host (glob)''\<rparr>,
     \<lparr>su_Text = ''--limit='', su_Description = ''Max results''\<rparr>,
     \<lparr>su_Text = ''--json'', su_Description = ''JSON output''\<rparr>]"

definition stateSuggestions :: "Suggest list" where
  "stateSuggestions =
    [\<lparr>su_Text = ''polling'', su_Description = ''Active targets''\<rparr>,
     \<lparr>su_Text = ''unreachable'', su_Description = ''Failed targets''\<rparr>,
     \<lparr>su_Text = ''error'', su_Description = ''Targets with errors''\<rparr>]"

definition protocolSuggestions :: "Suggest list" where
  "protocolSuggestions =
    [\<lparr>su_Text = ''snmp'', su_Description = ''SNMP targets''\<rparr>,
     \<lparr>su_Text = ''http'', su_Description = ''HTTP targets (future)''\<rparr>,
     \<lparr>su_Text = ''icmp'', su_Description = ''ICMP targets (future)''\<rparr>]"

definition commonOIDs :: "Suggest list" where
  "commonOIDs =
    [\<lparr>su_Text = ''1.3.6.1.2.1.1.1.0'', su_Description = ''sysDescr - System description''\<rparr>,
     \<lparr>su_Text = ''1.3.6.1.2.1.1.3.0'', su_Description = ''sysUpTime - System uptime''\<rparr>,
     \<lparr>su_Text = ''1.3.6.1.2.1.1.5.0'', su_Description = ''sysName - System name''\<rparr>,
     \<lparr>su_Text = ''1.3.6.1.2.1.1.6.0'', su_Description = ''sysLocation - System location''\<rparr>,
     \<lparr>su_Text = ''1.3.6.1.2.1.2.2.1.10'', su_Description = ''ifInOctets - Interface input bytes''\<rparr>,
     \<lparr>su_Text = ''1.3.6.1.2.1.2.2.1.16'', su_Description = ''ifOutOctets - Interface output bytes''\<rparr>,
     \<lparr>su_Text = ''1.3.6.1.2.1.31.1.1.1.6'', su_Description = ''ifHCInOctets - 64-bit input counter''\<rparr>,
     \<lparr>su_Text = ''1.3.6.1.2.1.31.1.1.1.10'', su_Description = ''ifHCOutOctets - 64-bit output counter''\<rparr>,
     \<lparr>su_Text = ''1.3.6.1.2.1.2.2.1.8'', su_Description = ''ifOperStatus - Interface oper status''\<rparr>,
     \<lparr>su_Text = ''1.3.6.1.2.1.2.2.1.7'', su_Description = ''ifAdminStatus - Interface admin status''\<rparr>,
     \<lparr>su_Text = ''1.3.6.1.4.1.9.9.109.1.1.1.1.3'', su_Description = ''Cisco CPU 1min''\<rparr>,
     \<lparr>su_Text = ''1.3.6.1.4.1.9.9.109.1.1.1.1.4'', su_Description = ''Cisco CPU 5min''\<rparr>]"

definition co_addFlags :: "Suggest list" where
  "co_addFlags =
    [\<lparr>su_Text = ''--name='', su_Description = ''User-friendly name''\<rparr>,
     \<lparr>su_Text = ''--id='', su_Description = ''Custom target ID''\<rparr>,
     \<lparr>su_Text = ''--desc='', su_Description = ''Description''\<rparr>,
     \<lparr>su_Text = ''--tag='', su_Description = ''Tag (repeatable)''\<rparr>,
     \<lparr>su_Text = ''--interval='', su_Description = ''Poll interval ms''\<rparr>,
     \<lparr>su_Text = ''--buffer='', su_Description = ''Buffer size''\<rparr>,
     \<lparr>su_Text = ''--timeout='', su_Description = ''SNMP timeout ms''\<rparr>,
     \<lparr>su_Text = ''--retries='', su_Description = ''SNMP retries''\<rparr>,
     \<lparr>su_Text = ''--persistent'', su_Description = ''Mark as persistent''\<rparr>,
     \<lparr>su_Text = ''--community='', su_Description = ''SNMPv2c community''\<rparr>,
     \<lparr>su_Text = ''--v3'', su_Description = ''Use SNMPv3''\<rparr>,
     \<lparr>su_Text = ''--user='', su_Description = ''SNMPv3 security name''\<rparr>,
     \<lparr>su_Text = ''--level='', su_Description = ''SNMPv3 security level''\<rparr>,
     \<lparr>su_Text = ''--auth-proto='', su_Description = ''Auth protocol''\<rparr>,
     \<lparr>su_Text = ''--auth-pass='', su_Description = ''Auth password''\<rparr>,
     \<lparr>su_Text = ''--priv-proto='', su_Description = ''Privacy protocol''\<rparr>,
     \<lparr>su_Text = ''--priv-pass='', su_Description = ''Privacy password''\<rparr>]"

definition co_setFlags :: "Suggest list" where
  "co_setFlags =
    [\<lparr>su_Text = ''--name='', su_Description = ''Change name''\<rparr>,
     \<lparr>su_Text = ''--desc='', su_Description = ''Set description''\<rparr>,
     \<lparr>su_Text = ''--interval='', su_Description = ''Set poll interval ms''\<rparr>,
     \<lparr>su_Text = ''--buffer='', su_Description = ''Set buffer size''\<rparr>,
     \<lparr>su_Text = ''--timeout='', su_Description = ''Set SNMP timeout ms''\<rparr>,
     \<lparr>su_Text = ''--retries='', su_Description = ''Set SNMP retries''\<rparr>,
     \<lparr>su_Text = ''--persistent'', su_Description = ''Mark as persistent''\<rparr>,
     \<lparr>su_Text = ''--no-persistent'', su_Description = ''Remove persistent flag''\<rparr>,
     \<lparr>su_Text = ''--tag'', su_Description = ''Modify tags (+add, -remove, set)''\<rparr>,
     \<lparr>su_Text = ''--community='', su_Description = ''Change SNMPv2c community''\<rparr>,
     \<lparr>su_Text = ''--user='', su_Description = ''Change SNMPv3 security name''\<rparr>,
     \<lparr>su_Text = ''--level='', su_Description = ''Change SNMPv3 level''\<rparr>,
     \<lparr>su_Text = ''--auth-proto='', su_Description = ''Change auth protocol''\<rparr>,
     \<lparr>su_Text = ''--auth-pass='', su_Description = ''Change auth password''\<rparr>,
     \<lparr>su_Text = ''--priv-proto='', su_Description = ''Change priv protocol''\<rparr>,
     \<lparr>su_Text = ''--priv-pass='', su_Description = ''Change priv password''\<rparr>]"

definition co_configKeys :: "Suggest list" where
  "co_configKeys =
    [\<lparr>su_Text = ''timeout'', su_Description = ''Default SNMP timeout ms''\<rparr>,
     \<lparr>su_Text = ''retries'', su_Description = ''Default SNMP retries''\<rparr>,
     \<lparr>su_Text = ''buffer'', su_Description = ''Default buffer size''\<rparr>,
     \<lparr>su_Text = ''min-interval'', su_Description = ''Minimum poll interval ms''\<rparr>]"

section \<open>From the server\<close>

text \<open>The text up to the last slash and what follows it, \<open>None\<close> without a slash.\<close>

definition at_last_slash :: "string \<Rightarrow> (string \<times> string) option" where
  "at_last_slash s =
     (if CHR ''/'' \<in> set s
      then Some (rev (tl (dropWhile (\<lambda>c. c \<noteq> CHR ''/'') (rev s))), rev (takeWhile (\<lambda>c. c \<noteq> CHR ''/'') (rev s)))
      else None)"

definition co_completePath :: "Completer \<Rightarrow> string \<Rightarrow> Suggest list" where
  "co_completePath c partial0 =
     (let partial = (if \<not> has_prefix partial0 ''/'' then ''/'' @ partial0 else partial0);
          (parentPath, pre) =
            (case at_last_slash partial of
               None \<Rightarrow> (partial, [])
             | Some (before, after) \<Rightarrow> if before = [] then (''/'', drop 1 partial) else (before, after))
      in case co_BrowsePath c parentPath False of
           Inl _ \<Rightarrow> []
         | Inr nodes \<Rightarrow>
             concat (map (\<lambda>node.
               let name = (if TargetBrowse.bn_Type node = TargetBrowse.NODE_DIRECTORY then TargetBrowse.bn_Name node @ ''/'' else TargetBrowse.bn_Name node);
                   fullPath = (if parentPath = ''/'' then ''/'' @ name else parentPath @ ''/'' @ name)
               in if pre = [] \<or> has_prefix (to_lower name) (to_lower pre)
                  then [sug fullPath (TargetBrowse.bn_Description node)] else []) nodes))"

definition getTargetSuggestions :: "Completer \<Rightarrow> string \<Rightarrow> Suggest list" where
  "getTargetSuggestions c pre =
     (case co_BrowsePath c ''/targets'' False of
        Inl _ \<Rightarrow> []
      | Inr nodes \<Rightarrow>
          co_FilterHasPrefix c
            (map (\<lambda>node. sug (TargetBrowse.bn_Name node) (TargetBrowse.bn_Description node))
               (filter (\<lambda>node. TargetBrowse.bn_Type node = TargetBrowse.NODE_TARGET) nodes)) pre True)"

definition getTagSuggestions :: "Completer \<Rightarrow> string \<Rightarrow> Suggest list" where
  "getTagSuggestions c pre =
     (let path = (if pre \<noteq> [] then (case at_last_slash pre of None \<Rightarrow> ''/tags'' | Some (before, _) \<Rightarrow> ''/tags/'' @ before) else ''/tags'')
      in case co_BrowsePath c path False of
           Inl _ \<Rightarrow> []
         | Inr nodes \<Rightarrow>
             (let base = trim_prefix path ''/tags'';
                  basePath = (if base \<noteq> [] then drop 1 base @ ''/'' else base)
              in co_FilterHasPrefix c
                   (map (\<lambda>node. sug (basePath @ TargetBrowse.bn_Name node)
                      (if TargetBrowse.bn_TargetCount node > 0 then show_nat (TargetBrowse.bn_TargetCount node) @ '' targets'' else []))
                      (filter (\<lambda>node. TargetBrowse.bn_Type node = TargetBrowse.NODE_DIRECTORY) nodes)) pre True))"

definition completeTagValue :: "Completer \<Rightarrow> string \<Rightarrow> Suggest list" where
  "completeTagValue c partial = map (\<lambda>s. sug (''--tag='' @ su_Text s) (su_Description s)) (getTagSuggestions c partial)"

definition completeTagOperation :: "Completer \<Rightarrow> string \<Rightarrow> Suggest list" where
  "completeTagOperation c partial =
     (let tags = getTagSuggestions c [] in
      co_FilterHasPrefix c
        (concat (map (\<lambda>tag. [sug (''+'' @ su_Text tag) ''Add tag'', sug (''-'' @ su_Text tag) ''Remove tag'', sug (su_Text tag) ''Set tag'']) tags))
        partial True)"

section \<open>The commands\<close>

text \<open>Every function below is called with at least one argument; the last one and the one before it.\<close>

abbreviation ends_blank :: "string \<Rightarrow> bool" where
  "ends_blank text \<equiv> has_suffix text '' ''"

definition is_flag :: "string \<Rightarrow> bool" where
  "is_flag a \<longleftrightarrow> has_prefix a ''-''"

definition flag_at :: "string \<Rightarrow> string \<Rightarrow> bool" where
  "flag_at name prev \<longleftrightarrow> has_prefix prev (name @ ''='') \<or> prev = name"

definition completeLs :: "Completer \<Rightarrow> string list \<Rightarrow> string \<Rightarrow> Suggest list" where
  "completeLs c args text =
     (let lastArg = last args; prevArg = args ! (length args - 2) in
      if is_flag lastArg \<and> \<not> ends_blank text then co_FilterHasPrefix c co_lsFlags lastArg True
      else if length args \<ge> 2 \<and> flag_at ''--state'' prevArg then co_FilterHasPrefix c stateSuggestions lastArg True
      else if length args \<ge> 2 \<and> flag_at ''--protocol'' prevArg then co_FilterHasPrefix c protocolSuggestions lastArg True
      else if length args \<ge> 2 \<and> flag_at ''--tag'' prevArg then completeTagValue c lastArg
      else if \<not> is_flag lastArg then (if ends_blank text then co_completePath c [] @ co_lsFlags else co_completePath c lastArg)
      else co_FilterHasPrefix c co_lsFlags [] True)"

definition completeAdd :: "Completer \<Rightarrow> string list \<Rightarrow> string \<Rightarrow> Suggest list" where
  "completeAdd c args text =
     (let n = length args; lastArg = last args in
      if n = 1 \<and> ends_blank text then [sug ''snmp'' ''Add SNMP target'']
      else if n = 2 \<and> \<not> ends_blank text then co_FilterHasPrefix c [sug ''snmp'' ''Add SNMP target''] (args ! 1) True
      else if n = 2 \<and> ends_blank text then [sug ''<host>'' ''Target hostname or IP address'']
      else if n = 3 \<and> ends_blank text then commonOIDs
      else if n = 4 \<and> \<not> ends_blank text \<and> (has_prefix (args ! 3) ''1.'' \<or> has_prefix (args ! 3) ''.1.'')
      then co_FilterHasPrefix c commonOIDs (args ! 3) True
      else if n \<ge> 4 \<and> is_flag lastArg \<and> \<not> ends_blank text then co_FilterHasPrefix c co_addFlags lastArg True
      else if n \<ge> 4 \<and> ends_blank text then co_addFlags
      else [])"

definition completeSet :: "Completer \<Rightarrow> string list \<Rightarrow> string \<Rightarrow> Suggest list" where
  "completeSet c args text =
     (let n = length args; lastArg = last args in
      if n = 1 \<and> ends_blank text then getTargetSuggestions c []
      else if n = 2 \<and> \<not> ends_blank text then getTargetSuggestions c (args ! 1)
      else if is_flag lastArg \<and> \<not> ends_blank text then co_FilterHasPrefix c co_setFlags lastArg True
      else if n \<ge> 2 \<and> args ! (n - 2) = ''--tag'' then completeTagOperation c lastArg
      else if ends_blank text then co_setFlags
      else [])"

definition completeRm :: "Completer \<Rightarrow> string list \<Rightarrow> string \<Rightarrow> Suggest list" where
  "completeRm c args text =
     (let lastArg = last args in
      if length args = 1 \<and> ends_blank text then getTargetSuggestions c []
      else if \<not> is_flag lastArg then getTargetSuggestions c lastArg
      else co_FilterHasPrefix c [sug ''-f'' ''Force delete'', sug ''--force'' ''Force delete''] lastArg True)"

definition completeSub :: "Completer \<Rightarrow> string list \<Rightarrow> string \<Rightarrow> Suggest list" where
  "completeSub c args text =
     (let lastArg = (if length args > 1 then last args else []) in
      if has_prefix lastArg ''--tag='' then completeTagValue c (trim_prefix lastArg ''--tag='')
      else if is_flag lastArg \<and> \<not> ends_blank text then co_FilterHasPrefix c [sug ''--tag='' ''Subscribe by tag''] lastArg True
      else if ends_blank text \<or> length args = 1 then getTargetSuggestions c [] @ [sug ''--tag='' ''Subscribe by tag'']
      else getTargetSuggestions c lastArg)"

definition completeConfig :: "Completer \<Rightarrow> string list \<Rightarrow> string \<Rightarrow> Suggest list" where
  "completeConfig c args text =
     (if length args = 1 \<and> ends_blank text then [sug ''set'' ''Set config value'']
      else if length args \<ge> 2 \<and> args ! 1 = ''set'' then
        (if length args = 2 \<and> ends_blank text then co_configKeys
         else if length args = 3 \<and> \<not> ends_blank text then co_FilterHasPrefix c co_configKeys (args ! 2) True
         else [])
      else [])"

definition co_completeTargetID :: "Completer \<Rightarrow> string list \<Rightarrow> string \<Rightarrow> Suggest list" where
  "co_completeTargetID c args text =
     (if length args = 1 \<and> ends_blank text then getTargetSuggestions c []
      else if \<not> is_flag (last args) then getTargetSuggestions c (last args)
      else [])"

definition Complete :: "Completer \<Rightarrow> string \<Rightarrow> Suggest list" where
  "Complete c text =
     (if text = [] then commandSuggestions
      else
        let args = parseArgsForComplete text in
        if length args = 0 then co_FilterHasPrefix c commandSuggestions text True
        else
          let cmd = to_lower (args ! 0) in
          if length args = 1 \<and> \<not> ends_blank text then co_FilterHasPrefix c commandSuggestions cmd True
          else if cmd \<in> {''ls'', ''l'', ''list''} then completeLs c args text
          else if cmd \<in> {''add'', ''a''} then completeAdd c args text
          else if cmd \<in> {''set'', ''s''} then completeSet c args text
          else if cmd \<in> {''rm'', ''del'', ''delete''} then completeRm c args text
          else if cmd \<in> {''history'', ''hist'', ''h''} then co_completeTargetID c args text
          else if cmd \<in> {''sub'', ''subscribe''} then completeSub c args text
          else if cmd \<in> {''unsub'', ''unsubscribe''} then co_completeTargetID c args text
          else if cmd \<in> {''config'', ''cfg''} then completeConfig c args text
          else [])"

section \<open>Completion against the server\<close>

text \<open>
  The client's \<open>BrowsePath\<close> answered by the browse handler of the server, and \<open>FilterHasPrefix\<close> as go-prompt documents it.
\<close>

definition path_request :: "string \<Rightarrow> bool \<Rightarrow> TargetBrowse.BrowseRequest" where
  "path_request path long = \<lparr>rq_Path = path, rq_LongFormat = long, rq_Limit = 0, rq_Cursor = [], rq_FilterTags = [], rq_FilterState = [],
     rq_FilterProtocol = [], rq_FilterHost = []\<rparr>"

definition server_BrowsePath :: "Render \<Rightarrow> int \<Rightarrow> BrowseState \<Rightarrow> BrowseSession \<Rightarrow> string \<Rightarrow> bool \<Rightarrow> TargetBrowse.BrowseNode list go" where
  "server_BrowsePath rd now srv sess path long =
     (case handleBrowse rd now srv sess 1 (path_request path long) of
        None \<Rightarrow> Inl (Errorf ''timeout'')
      | Some (EnvError _ code msg) \<Rightarrow> Inl (Errorf (''error '' @ show_nat code @ '': '' @ msg))
      | Some (EnvBrowse _ resp) \<Rightarrow> Inr (rs_Nodes resp))"

definition prompt_FilterHasPrefix :: "Suggest list \<Rightarrow> string \<Rightarrow> bool \<Rightarrow> Suggest list" where
  "prompt_FilterHasPrefix completions sub ignoreCase =
     (let norm = (if ignoreCase then to_lower else (\<lambda>s. s)) in filter (\<lambda>s. has_prefix (norm (su_Text s)) (norm sub)) completions)"

definition live_completer :: "Render \<Rightarrow> int \<Rightarrow> BrowseState \<Rightarrow> BrowseSession \<Rightarrow> Completer" where
  "live_completer rd now srv sess = \<lparr>co_BrowsePath = server_BrowsePath rd now srv sess, co_FilterHasPrefix = prompt_FilterHasPrefix\<rparr>"

lemma names_of_list_nodes:
  "map TargetBrowse.bn_Name (list_nodes srv False ids) = filter (\<lambda>i. map_of (bs_targets srv) i \<noteq> None) ids"
  "node \<in> set (list_nodes srv False ids) \<Longrightarrow> TargetBrowse.bn_Type node = TargetBrowse.NODE_TARGET"
  by (induction ids) (auto simp: list_nodes_def target_node_def split: option.splits)

lemma targets_page: "co_BrowsePath (live_completer rd now srv sess) ''/targets'' False = Inr (list_nodes srv False (take 100 (sort (mkeys (bs_targets srv)))))"
proof -
  have p: "trim_slashes ''/targets'' = ''targets''" "splitPath ''targets'' = [''targets'']"
    by (simp_all add: trim_slashes_def splitPath_def)
  have c: "candidate_ids srv (path_request ''/targets'' False) = Some (mkeys (bs_targets srv))"
    by (simp add: candidate_ids_def path_request_def Filter_IsEmpty_def Let_def)
  have "rs_Nodes (browseTargetList srv (path_request ''/targets'' False) 100) = list_nodes srv False (take 100 (sort (mkeys (bs_targets srv))))"
    by (simp add: browseTargetList_def c after_cursor_def Let_def) (simp add: path_request_def)
  moreover have "rq_Path (path_request ''/targets'' False) = ''/targets''" "rq_Limit (path_request ''/targets'' False) = 0"
    by (simp_all add: path_request_def)
  ultimately show ?thesis
    by (simp add: live_completer_def server_BrowsePath_def handleBrowse_def p Let_def browse_limit_def browseTargets_def)
qed

text \<open>
  What is offered for a target id: the ids that begin with what is typed, upper and lower case alike, in order, but only of
  the first hundred targets, since the request asks for no more pages.
\<close>

lemma offered_targets:
  "map su_Text (getTargetSuggestions (live_completer rd now srv sess) pre) =
     filter (\<lambda>i. has_prefix (to_lower i) (to_lower pre)) (take 100 (sort (mkeys (bs_targets srv))))"
proof -
  let ?ids = "take 100 (sort (mkeys (bs_targets srv)))"
  have all: "filter (\<lambda>i. map_of (bs_targets srv) i \<noteq> None) ?ids = ?ids"
    by (rule filter_True) (auto dest!: in_set_takeD simp: map_of_eq_None_iff)
  have "filter (\<lambda>node. TargetBrowse.bn_Type node = TargetBrowse.NODE_TARGET) (list_nodes srv False ?ids) = list_nodes srv False ?ids"
    by (rule filter_True) (use names_of_list_nodes(2) in blast)
  then have "map su_Text (getTargetSuggestions (live_completer rd now srv sess) pre) =
      filter (\<lambda>i. has_prefix (to_lower i) (to_lower pre)) (map TargetBrowse.bn_Name (list_nodes srv False ?ids))"
    by (simp add: getTargetSuggestions_def targets_page) (simp add: live_completer_def prompt_FilterHasPrefix_def filter_map comp_def)
  then show ?thesis by (simp only: names_of_list_nodes(1) all)
qed

text \<open>Every value of a tag is offered together with its flag.\<close>

lemma tag_values_carry_flag: "s \<in> set (completeTagValue c p) \<Longrightarrow> has_prefix (su_Text s) ''--tag=''"
  by (auto simp: completeTagValue_def has_prefix_def)

end
