(* ===== verification/ClientMain.thy ===== *)
theory ClientMain
  imports Shell
begin

text \<open>
  The program of cmd/snmpctl/main.go: its interactive loop over the lines of the input, with the path and the namespace it
  keeps. The commands that are to call the server print fixed text; what is printed is a list of lines (\<open>Say\<close>) and of rows
  of a table (\<open>Row\<close>).
\<close>

datatype out = Say string | Row "string list" | Prompt string

abbreviation say :: "string \<Rightarrow> out" where
  "say \<equiv> Say"

record Cli =
  ci_path :: string
  ci_namespace :: string
  ci_session :: string

definition cli_start :: "string \<Rightarrow> Cli" where
  "cli_start namespace = \<lparr>ci_path = ''/'', ci_namespace = namespace, ci_session = ''demo-session''\<rparr>"

definition printPrompt :: "Cli \<Rightarrow> out" where
  "printPrompt s =
     (let ns = (if ci_namespace s = [] then ''(no namespace)'' else ci_namespace s) in Prompt (''['' @ ns @ ''] '' @ ci_path s @ ''> ''))"

definition cli_resolve :: "Cli \<Rightarrow> string \<Rightarrow> string" where
  "cli_resolve s path = main_resolvePath (ci_path s) path"

definition printHelp :: "out list" where
  "printHelp =
    [say ''Commands:'',
     say [],
     say ''  Navigation:'',
     say ''    ls [path]              List entries at path (default: current)'',
     say ''    cd <path>              Change current path'',
     say ''    pwd                    Print current path'',
     say ''    cat <path>             Show details of target/poller'',
     say ''    tree [path]            Show tree structure'',
     say [],
     say ''  Namespace:'',
     say ''    ns                     List namespaces'',
     say ''    ns use <name>          Switch to namespace'',
     say ''    ns create <name>       Create namespace'',
     say ''    ns delete <name>       Delete namespace'',
     say [],
     say ''  Targets:'',
     say ''    target create <name>   Create target'',
     say ''    target delete <name>   Delete target'',
     say ''    target set <name> <k=v>... Set target properties'',
     say [],
     say ''  Pollers:'',
     say ''    poller create <target> <name> <proto> <config>'',
     say ''    poller delete <target> <name>'',
     say ''    poller enable <target> <name>'',
     say ''    poller disable <target> <name>'',
     say ''    poller test <target> <name>    Execute single poll'',
     say [],
     say ''  Monitoring:'',
     say ''    watch [path...]        Subscribe to live samples'',
     say ''    unwatch [path...]      Unsubscribe (all if empty)'',
     say ''    history <path> [n]     Show sample history'',
     say [],
     say ''  Tree:'',
     say ''    mkdir <path>           Create directory in tree'',
     say ''    ln <target> <path>     Create link to target'',
     say ''    rm <path>              Remove tree node'',
     say [],
     say ''  System:'',
     say ''    status                 Server status'',
     say ''    session                Session info'',
     say ''    config                 Runtime config'',
     say ''    help                   This help'',
     say ''    quit                   Exit'',
     say []]"

section \<open>Navigation\<close>

definition cmdLs :: "string list \<Rightarrow> Cli \<Rightarrow> out list" where
  "cmdLs args s =
     (let path = (if length args > 0 then cli_resolve s (args ! 0) else ci_path s) in
      if ci_namespace s = [] then [say ''No namespace selected. Use: ns use <name>'']
      else
        [say (''Listing '' @ path), Row [''TYPE'', ''NAME'', ''STATUS'', ''DESCRIPTION''], Row [''----'', ''----'', ''------'', ''-----------'']] @
        (if path = ''/'' then [Row [''dir'', ''targets'', [], ''All targets''], Row [''dir'', ''tree'', [], ''Hierarchical view'']]
         else if path = ''/targets'' then
           [Row [''target'', ''router'', ''2/3 up'', ''Core router''], Row [''target'', ''switch'', ''1/1 up'', ''Access switch'']]
         else if has_prefix path ''/targets/'' then
           [Row [''poller'', ''cpu'', ''up'', ''CPU utilization''], Row [''poller'', ''memory'', ''up'', ''Memory usage''],
            Row [''poller'', ''ifInOctets'', ''down'', ''Interface in'']]
         else []))"

definition cmdCd :: "string list \<Rightarrow> Cli \<Rightarrow> Cli" where
  "cmdCd args s = (if length args = 0 then s\<lparr>ci_path := ''/''\<rparr> else s\<lparr>ci_path := cli_resolve s (args ! 0)\<rparr>)"

definition cmdPwd :: "Cli \<Rightarrow> out list" where
  "cmdPwd s = [say (ci_path s)]"

definition count_slashes :: "string \<Rightarrow> nat" where
  "count_slashes p = length (filter (\<lambda>c. c = CHR ''/'') p)"

definition cmdCat :: "string list \<Rightarrow> Cli \<Rightarrow> out list" where
  "cmdCat args s =
     (if length args = 0 then [say ''Usage: cat <path>'']
      else
        let path = cli_resolve s (args ! 0) in
        [say (''Details for '' @ path @ '':''), say []] @
        (if count_slashes path = 2 then
          [say ''Type:        target'',
           say ''Name:        router'',
           say ''Description: Core router'',
           say ''Labels:      site=dc1, role=core'',
           say [],
           say ''Pollers:     3 total, 2 up, 1 down'',
           say ''Created:     2024-01-15 10:30:00'']
         else if count_slashes path = 3 then
          [say ''Type:        poller'',
           say ''Name:        cpu'',
           say ''Protocol:    snmp'',
           say ''Host:        192.168.1.1:161'',
           say ''OID:         1.3.6.1.4.1.9.2.1.58.0'',
           say [],
           say ''Admin State: enabled'',
           say ''Oper State:  running'',
           say ''Health:      up'',
           say [],
           say ''Interval:    1000ms'',
           say ''Timeout:     5000ms'',
           say ''Retries:     2'',
           say [],
           say ''Last Poll:   2024-01-15 14:32:45.123'',
           say ''Last Value:  42'',
           say ''Avg Poll:    23ms'']
         else []))"

text \<open>The box drawing characters, as the bytes of their UTF-8 encoding.\<close>

definition box :: "char \<Rightarrow> string" where
  "box c = [CHR 0xE2, CHR 0x94, c]"

abbreviation "bar \<equiv> box (CHR 0x82)"
abbreviation "tee \<equiv> box (CHR 0x9C) @ box (CHR 0x80) @ box (CHR 0x80) @ '' ''"
abbreviation "elbow \<equiv> box (CHR 0x94) @ box (CHR 0x80) @ box (CHR 0x80) @ '' ''"

definition cmdTree :: "string list \<Rightarrow> Cli \<Rightarrow> out list" where
  "cmdTree args s =
     (let path = (if length args > 0 then cli_resolve s (args ! 0) else ''/tree'') in
      [say (''Tree at '' @ path @ '':''), say ''.'',
       say (tee @ ''dc1/''),
       say (bar @ ''   '' @ tee @ ''network/''),
       say (bar @ ''   '' @ bar @ ''   '' @ tee @ ''core-router -> target:router''),
       say (bar @ ''   '' @ bar @ ''   '' @ elbow @ ''access-switch -> target:switch''),
       say (bar @ ''   '' @ elbow @ ''compute/''),
       say (elbow @ ''dc2/''),
       say (''    '' @ elbow @ ''network/'')])"

section \<open>Namespaces, targets, pollers\<close>

definition cmdNamespace :: "string list \<Rightarrow> Cli \<Rightarrow> out list \<times> Cli" where
  "cmdNamespace args s =
     (if length args = 0 then
        ([say ''Namespaces:'',
         say ''  * prod     (current)'',
         say ''    dev'',
         say ''    staging''], s)
      else if args ! 0 \<in> {''use'', ''switch''} then
        (if length args < 2 then ([say ''Usage: ns use <name>''], s)
         else ([say (''Switched to namespace: '' @ args ! 1)], s\<lparr>ci_namespace := args ! 1, ci_path := ''/''\<rparr>))
      else if args ! 0 = ''create'' then
        (if length args < 2 then ([say ''Usage: ns create <name>''], s) else ([say (''Created namespace: '' @ args ! 1)], s))
      else if args ! 0 = ''delete'' then
        (if length args < 2 then ([say ''Usage: ns delete <name>''], s) else ([say (''Deleted namespace: '' @ args ! 1)], s))
      else ([say (''Unknown namespace command: '' @ args ! 0)], s))"

definition cmdTarget :: "string list \<Rightarrow> out list" where
  "cmdTarget args =
     (if length args = 0 then [say ''Usage: target <create|delete|set> ...'']
      else if args ! 0 = ''create'' then
        (if length args < 2 then [say ''Usage: target create <name> [description]''] else [say (''Created target: '' @ args ! 1)])
      else if args ! 0 = ''delete'' then
        (if length args < 2 then [say ''Usage: target delete <name>''] else [say (''Deleted target: '' @ args ! 1)])
      else if args ! 0 = ''set'' then
        (if length args < 3 then [say ''Usage: target set <name> <key=value>...''] else [say (''Updated target: '' @ args ! 1)])
      else [say (''Unknown target command: '' @ args ! 0)])"

definition cmdPoller :: "string list \<Rightarrow> out list" where
  "cmdPoller args =
     (if length args = 0 then [say ''Usage: poller <create|delete|enable|disable|test> ...'']
      else if args ! 0 = ''create'' then
        (if length args < 4 then
           [say ''Usage: poller create <target> <name> <host:oid> [options]'', say ''  Options: -c community -i interval_ms -v3 ...'']
         else [say (''Created poller: '' @ args ! 1 @ ''/'' @ args ! 2)])
      else if args ! 0 = ''delete'' then
        (if length args < 3 then [say ''Usage: poller delete <target> <name>''] else [say (''Deleted poller: '' @ args ! 1 @ ''/'' @ args ! 2)])
      else if args ! 0 = ''enable'' then
        (if length args < 3 then [say ''Usage: poller enable <target> <name>''] else [say (''Enabled poller: '' @ args ! 1 @ ''/'' @ args ! 2)])
      else if args ! 0 = ''disable'' then
        (if length args < 3 then [say ''Usage: poller disable <target> <name>''] else [say (''Disabled poller: '' @ args ! 1 @ ''/'' @ args ! 2)])
      else if args ! 0 = ''test'' then
        (if length args < 3 then [say ''Usage: poller test <target> <name>'']
         else [say (''Testing poller: '' @ args ! 1 @ ''/'' @ args ! 2 @ ''...''), say ''Result: 42 (23ms)''])
      else [say (''Unknown poller command: '' @ args ! 0)])"

section \<open>Monitoring, tree, system\<close>

fun comma_join :: "string list \<Rightarrow> string" where
  "comma_join [] = []"
| "comma_join [x] = x"
| "comma_join (x # xs) = x @ '', '' @ comma_join xs"

definition cmdWatch :: "string list \<Rightarrow> Cli \<Rightarrow> out list" where
  "cmdWatch args s =
     (if length args = 0 then [say (''Subscribing to '' @ ci_path s @ ''...'')]
      else [say (''Subscribing to: '' @ comma_join (map (cli_resolve s) args))]) @ [say ''(Live samples will appear here)'']"

definition cmdUnwatch :: "string list \<Rightarrow> out list" where
  "cmdUnwatch args = (if length args = 0 then [say ''Unsubscribed from all''] else [say (''Unsubscribed from: '' @ comma_join args)])"

text \<open>\<open>Sscanf\<close> with \<open>%d\<close>: blanks, a sign and digits; the number is left as it is when there are none or too many.\<close>

definition digit_value :: "char \<Rightarrow> int" where
  "digit_value c = of_char c - 48"

definition scan_count :: "string \<Rightarrow> int \<Rightarrow> int" where
  "scan_count s0 dflt =
     (let s = dropWhile is_space s0;
          (neg, r) = (case s of [] \<Rightarrow> (False, []) | c # cs \<Rightarrow> if c = CHR ''-'' then (True, cs) else if c = CHR ''+'' then (False, cs) else (False, s));
          ds = takeWhile (\<lambda>c. c \<in> set ''0123456789'') r;
          v = (if neg then -1 else 1) * foldl (\<lambda>n c. 10 * n + digit_value c) 0 ds
      in if ds = [] \<or> v < - (2 ^ 63) \<or> v \<ge> 2 ^ 63 then dflt else v)"

definition cmdHistory :: "string list \<Rightarrow> Cli \<Rightarrow> out list" where
  "cmdHistory args s =
     (if length args = 0 then [say ''Usage: history <path> [count]'']
      else
        let path = cli_resolve s (args ! 0); count = (if length args > 1 then scan_count (args ! 1) 10 else 10) in
        [say (''Last '' @ (if count < 0 then ''-'' else []) @ show_nat (nat \<bar>count\<bar>) @ '' samples for '' @ path @ '':''), say [],
         Row [''TIMESTAMP'', ''VALUE'', ''POLL_MS'', ''STATUS''], Row [''---------'', ''-----'', ''-------'', ''------''],
         Row [''14:32:45.123'', ''42'', ''23'', ''ok''], Row [''14:32:44.121'', ''41'', ''21'', ''ok''], Row [''14:32:43.119'', ''40'', ''25'', ''ok'']])"

definition cmdMkdir :: "string list \<Rightarrow> Cli \<Rightarrow> out list" where
  "cmdMkdir args s =
     (if length args = 0 then [say ''Usage: mkdir <path>''] else [say (''Created directory: '' @ cli_resolve s (args ! 0))])"

definition cmdLn :: "string list \<Rightarrow> out list" where
  "cmdLn args =
     (if length args < 2 then [say ''Usage: ln <target> <path>'', say ''       ln <target/poller> <path>'']
      else [say (''Created link: '' @ args ! 1 @ '' -> '' @ args ! 0)])"

definition cmdRm :: "string list \<Rightarrow> Cli \<Rightarrow> out list" where
  "cmdRm args s = (if length args = 0 then [say ''Usage: rm <path>''] else [say (''Removed: '' @ cli_resolve s (args ! 0))])"

definition cmdStatus :: "out list" where
  "cmdStatus =
    [say ''=== Server Status ==='',
     say ''Version:        v2.0.0'',
     say ''Uptime:         2h 34m'',
     say [],
     say ''Namespaces:     3'',
     say ''Targets:        42'',
     say ''Pollers:        156 (142 running)'',
     say [],
     say ''Health:         148 up, 8 down'',
     say [],
     say ''Sessions:       5 active'',
     say [],
     say ''Polls:'',
     say ''  Total:        1,234,567'',
     say ''  Success:      1,234,000 (99.95%)'',
     say ''  Failed:       567'']"

definition cmdSession :: "Cli \<Rightarrow> out list" where
  "cmdSession s =
     [say ''=== Session Info ==='', say (''Session ID:     '' @ ci_session s), say ''Token ID:       admin'',
      say (''Namespace:      '' @ ci_namespace s), say ''Connected:      2024-01-15 12:00:00'', say ''Subscriptions:  3'']"

definition cmdConfig :: "string list \<Rightarrow> out list" where
  "cmdConfig args =
     (if length args \<ge> 2 \<and> args ! 0 = ''set'' then [say (''Config updated: '' @ join_with blank (tl args))]
      else
        [say ''=== Runtime Config ==='',
         say ''Changeable:'',
         say ''  default_timeout_ms:  5000'',
         say ''  default_retries:     2'',
         say ''  default_interval_ms: 1000'',
         say ''  default_buffer_size: 3600'',
         say [],
         say ''Read-only:'',
         say ''  poller_workers:      100'',
         say ''  poller_queue_size:   10000''])"

section \<open>The loop\<close>

text \<open>One line: what is printed before the next prompt and the state, \<open>None\<close> when the program ends.\<close>

definition cli_quote :: char where
  "cli_quote = CHR 0x27"

definition run_command :: "string \<Rightarrow> string list \<Rightarrow> Cli \<Rightarrow> (out list \<times> Cli) option" where
  "run_command cmd args s =
     (if cmd = ''ls'' then Some (cmdLs args s, s)
      else if cmd = ''cd'' then Some ([], cmdCd args s)
      else if cmd = ''pwd'' then Some (cmdPwd s, s)
      else if cmd \<in> {''cat'', ''show'', ''info''} then Some (cmdCat args s, s)
      else if cmd = ''tree'' then Some (cmdTree args s, s)
      else if cmd \<in> {''ns'', ''namespace''} then Some (cmdNamespace args s)
      else if cmd = ''target'' then Some (cmdTarget args, s)
      else if cmd \<in> {''poller'', ''poll''} then Some (cmdPoller args, s)
      else if cmd \<in> {''watch'', ''sub'', ''subscribe''} then Some (cmdWatch args s, s)
      else if cmd \<in> {''unwatch'', ''unsub'', ''unsubscribe''} then Some (cmdUnwatch args, s)
      else if cmd \<in> {''history'', ''hist'', ''h''} then Some (cmdHistory args s, s)
      else if cmd = ''mkdir'' then Some (cmdMkdir args s, s)
      else if cmd \<in> {''ln'', ''link''} then Some (cmdLn args, s)
      else if cmd \<in> {''rm'', ''delete''} then Some (cmdRm args s, s)
      else if cmd = ''status'' then Some (cmdStatus, s)
      else if cmd = ''session'' then Some (cmdSession s, s)
      else if cmd = ''config'' then Some (cmdConfig args, s)
      else if cmd \<in> {''help'', ''?''} then Some (printHelp, s)
      else if cmd \<in> {''quit'', ''exit'', ''q''} then None
      else Some ([say (''Unknown command: '' @ cmd @ '' (try '' @ [cli_quote] @ ''help'' @ [cli_quote] @ '')'')], s))"

fun interactive :: "string list \<Rightarrow> Cli \<Rightarrow> out list \<times> Cli" where
  "interactive [] s = ([], s)"
| "interactive (raw # rest) s =
     (let line = trim_space raw; args = main_parseArgs line in
      if line = [] \<or> length args = 0 then (case interactive rest s of (o1, s1) \<Rightarrow> (printPrompt s # o1, s1))
      else
        (case run_command (to_lower (args ! 0)) (drop 1 args) s of
           None \<Rightarrow> ([say ''Goodbye!''], s)
         | Some (printed, s1) \<Rightarrow> (case interactive rest s1 of (o2, s2) \<Rightarrow> (printed @ printPrompt s1 # o2, s2))))"

definition cli_main :: "string \<Rightarrow> string \<Rightarrow> string \<Rightarrow> string \<Rightarrow> string list \<Rightarrow> out list option" where
  "cli_main serverAddr token env_token namespace lines =
     (let authToken = (if token = [] then env_token else token) in
      if authToken = [] then None
      else
        let s = cli_start namespace in
        Some ([say (''snmpctl v2 - Connecting to '' @ serverAddr @ ''...''), say (''Connected (session: '' @ ci_session s @ '')'')] @
              (if ci_namespace s \<noteq> [] then [say (''Namespace: '' @ ci_namespace s)] else []) @ [say []] @
              printHelp @ printPrompt s # fst (interactive lines s)))"

section \<open>Where the client stands\<close>

lemma main_resolvePath_canonical:
  assumes "canonical cur"
  shows "canonical (main_resolvePath cur path)"
proof (cases "path = ''~''")
  case True
  then show ?thesis by (simp add: main_resolvePath_def canonical_root)
next
  case False
  let ?c = "\<lparr>sx_Path = cur, sx_HistoryFile = [], sx_History = []\<rparr>"
  have "main_resolvePath cur path = ResolvePath ?c path" using False by (rule main_and_shell_agree)
  moreover have "canonical (ResolvePath ?c path)" by (rule ResolvePath_canonical) (simp add: assms)
  ultimately show ?thesis by simp
qed

text \<open>Only \<open>cd\<close> and \<open>ns use\<close> change the state of the client, and its session id never changes.\<close>

lemma run_command_state:
  assumes "run_command cmd args s = Some (printed, s')"
  shows "s' = s \<or> cmd = ''cd'' \<and> s' = cmdCd args s
    \<or> cmd \<in> {''ns'', ''namespace''} \<and> length args \<ge> 2 \<and> s' = s\<lparr>ci_namespace := args ! 1, ci_path := ''/''\<rparr>"
  using assms by (auto simp: run_command_def cmdNamespace_def split: if_splits)

definition cli_ok :: "string \<Rightarrow> Cli \<Rightarrow> bool" where
  "cli_ok session s \<longleftrightarrow> canonical (ci_path s) \<and> ci_session s = session"

lemma run_command_ok:
  assumes "run_command cmd args s = Some (printed, s')" "cli_ok sid s"
  shows "cli_ok sid s'"
  using run_command_state [OF assms(1)] assms(2)
  by (auto simp: cli_ok_def cmdCd_def cli_resolve_def canonical_root main_resolvePath_canonical)

lemma interactive_line:
  "snd (interactive (raw # rest) s) =
     (if trim_space raw = [] \<or> main_parseArgs (trim_space raw) = [] then snd (interactive rest s)
      else case run_command (to_lower (main_parseArgs (trim_space raw) ! 0)) (drop 1 (main_parseArgs (trim_space raw))) s of
          None \<Rightarrow> s
        | Some (printed, s1) \<Rightarrow> snd (interactive rest s1))"
  by (simp add: Let_def split: option.splits prod.splits)

lemma interactive_ok: "cli_ok sid s \<Longrightarrow> cli_ok sid (snd (interactive lines s))"
proof (induction lines arbitrary: s)
  case (Cons raw rest)
  show ?case
    using Cons.IH Cons.prems run_command_ok [OF _ Cons.prems]
    by (auto simp: interactive_line simp del: interactive.simps split: option.splits)
qed simp

text \<open>In every session the path is canonical, whatever is typed.\<close>

lemma client_path_canonical: "canonical (ci_path (snd (interactive lines (cli_start ns))))"
proof -
  have "cli_ok (ci_session (cli_start ns)) (cli_start ns)" by (simp add: cli_ok_def cli_start_def canonical_root)
  then show ?thesis using interactive_ok unfolding cli_ok_def by blast
qed

text \<open>Nothing is executed after \<open>quit\<close>.\<close>

lemma quit_ends: "interactive (''quit'' # rest) s = ([say ''Goodbye!''], s)"
proof -
  have "trim_space ''quit'' = ''quit''" "main_parseArgs ''quit'' = [''quit'']" "to_lower ''quit'' = ''quit''"
    by code_simp+
  then show ?thesis by (simp add: run_command_def Let_def)
qed

end
